(* ===== verification/Prelude.thy ===== *)
theory Prelude
  imports Main "HOL-Library.Word"
begin

section \<open>Shared types, hint collections and generic lemmas\<close>

text \<open>
  Everything the component theories share: the machine integer types of the client's C++ code, the
  hint collections the components fill, fallible results with early exit, and generic facts on words,
  lists and byte strings.

  Correspondence used everywhere:
  \<^item> \<^verbatim>\<open>std::uint8_t .. std::uint64_t\<close> are the word types below, with C++'s wrap-around;
  \<^item> \<^verbatim>\<open>std::int16_t\<close> samples are \<open>16 word\<close>, read with \<open>sint\<close>;
  \<^item> \<^verbatim>\<open>std::string\<close> is \<open>string\<close>: a \<open>char\<close> of HOL is one byte, as it is in C++;
  \<^item> a C++ exception or an early \<^verbatim>\<open>return false\<close> is a branch of a sum or of an option.
\<close>

unbundle bit_operations_syntax

type_synonym u8 = "8 word"
type_synonym u16 = "16 word"
type_synonym u32 = "32 word"
type_synonym u64 = "64 word"
type_synonym sample = "16 word"
type_synonym bytes = "u8 list"

text \<open>
  Hint collections. \<open>wire_simps\<close>: layout and inversion of the wire codecs. \<open>ring_simps\<close>: ring buffers
  read as lists. \<open>frame_simps\<close>: fields an operation leaves alone. \<open>inv_intros\<close>: one rule per
  operation that keeps its component's invariant.
\<close>

named_theorems wire_simps
named_theorems ring_simps
named_theorems frame_simps
named_theorems inv_intros

subsection \<open>Results with early exit\<close>

text \<open>
  \<open>Inl why\<close> is the thrown \<^verbatim>\<open>std::runtime_error(why)\<close>; \<open>Inr x\<close> is normal completion.
\<close>

type_synonym 'a checked = "string + 'a"

definition ebind :: "'a checked \<Rightarrow> ('a \<Rightarrow> 'b checked) \<Rightarrow> 'b checked" where
  "ebind m f = (case m of Inl e \<Rightarrow> Inl e | Inr x \<Rightarrow> f x)"

definition require :: "bool \<Rightarrow> string \<Rightarrow> unit checked" where
  "require b why = (if b then Inr () else Inl why)"

lemma ebind_simps [simp]:
  "ebind (Inl e) f = Inl e"
  "ebind (Inr x) f = f x"
  by (simp_all add: ebind_def)

lemma ebind_eq_Inr_iff [simp]: "ebind m f = Inr y \<longleftrightarrow> (\<exists>x. m = Inr x \<and> f x = Inr y)"
  by (cases m) auto

lemma require_eq_Inr_iff [simp]: "require b why = Inr u \<longleftrightarrow> b"
  by (simp add: require_def)

lemma require_True [simp]: "require True why = Inr ()"
  and require_False [simp]: "require False why = Inl why"
  by (simp_all add: require_def)

subsection \<open>Words\<close>

lemma bit_u8_high [simp]: "\<not> bit (b :: 8 word) (8 + n)"
  using bit_imp_le_length [of b "8 + n"] by auto

lemma unat_Suc_not_max: "x \<noteq> - 1 \<Longrightarrow> unat (x + 1 :: 'a::len word) = Suc (unat x)"
  by (metis unatSuc add.commute add.right_inverse add_left_cancel)

lemma word_lt_plus_1: "x \<noteq> - 1 \<Longrightarrow> (x :: 'a::len word) < x + 1"
  by (simp add: unat_Suc_not_max word_less_nat_alt)

subsection \<open>Characters as bytes\<close>

definition byte_of :: "char \<Rightarrow> nat" where
  "byte_of c = of_char c"

lemma byte_of_less [simp]: "byte_of c < 256"
  by (simp add: byte_of_def)

lemma byte_of_inject [simp]: "byte_of c = byte_of d \<longleftrightarrow> c = d"
  by (simp add: byte_of_def)

definition is_digit :: "char \<Rightarrow> bool" where
  "is_digit c \<longleftrightarrow> byte_of CHR ''0'' \<le> byte_of c \<and> byte_of c \<le> byte_of CHR ''9''"

text \<open>What a C library function sees of a \<^verbatim>\<open>std::string\<close>: the bytes before the first NUL.\<close>

definition c_string :: "string \<Rightarrow> string" where
  "c_string txt = takeWhile (\<lambda>c. byte_of c \<noteq> 0) txt"

text \<open>The invariant scheme of every stateful component: a step function, its runs, an invariant.\<close>

locale invariant_system =
  fixes step :: "'e \<Rightarrow> 's \<Rightarrow> 's"
    and inv :: "'s \<Rightarrow> bool"
  assumes inv_step: "inv s \<Longrightarrow> inv (step e s)"
begin

lemma inv_fold: "inv s \<Longrightarrow> inv (fold step es s)"
  by (induction es arbitrary: s) (auto intro: inv_step)

lemma inv_along: "inv s \<Longrightarrow> i \<le> length es \<Longrightarrow> inv (fold step (take i es) s)"
  by (rule inv_fold)

end

end
