(* ===== verification/Config.thy ===== *)
theory Config
  imports Prelude Complex_Main
begin

section \<open>Environment configuration\<close>

text \<open>
  \<^verbatim>\<open>client/src/config/voice_client_config.cpp\<close> and its header: the three identity predicates, the readers
  for strings, unsigned integers, floats and polarities, and the loader that chains them.

  \<^item> The process environment is a map from variable names to values; values hold no NUL byte.
  \<^item> A finite \<^verbatim>\<open>float\<close> is the rational it denotes: the code only compares these values.
  \<^item> \<^verbatim>\<open>strtof\<close> is an argument of the readers, because its decimal point depends on the process
    locale and its rounding on the C library: the source uses the value, the unread rest and
    \<^verbatim>\<open>errno\<close>, and every lemma below holds for any such function.
  \<^item> \<^verbatim>\<open>unsigned long\<close> has 32 bits on the RV1106 (ARM EABI), and \<^verbatim>\<open>strtoul\<close> is modelled with it.
\<close>

type_synonym environment = "string \<Rightarrow> string option"

datatype cfloat = Finite rat | NonFinite

text \<open>What \<^verbatim>\<open>strtof\<close> gives back: the value, the text from \<^verbatim>\<open>*end\<close> on, and whether \<^verbatim>\<open>errno\<close> was set.\<close>

type_synonym strtof_fun = "string \<Rightarrow> cfloat \<times> string \<times> bool"

record voice_client_config =
  server_ip :: string
  server_spki_sha256 :: string
  server_port :: u16
  cfg_device_id :: string
  cfg_device_token :: string
  capture_pcm :: string
  playback_pcm :: string
  volume_percent :: u8
  speaker_gain_percent :: u16
  snowboy_resource_path :: string
  snowboy_model_path :: string
  snowboy_sensitivity :: string
  vad_min_dbfs :: rat
  barge_min_dbfs :: rat
  capture_left_polarity :: int
  capture_right_polarity :: int
  barge_in_enabled :: bool

subsection \<open>Identity formats\<close>

definition is_lower_hex :: "char \<Rightarrow> bool" where
  "is_lower_hex c \<longleftrightarrow> is_digit c \<or>
     byte_of CHR ''a'' \<le> byte_of c \<and> byte_of c \<le> byte_of CHR ''f''"

definition dash_at :: "nat \<Rightarrow> bool" where
  "dash_at i \<longleftrightarrow> i = 8 \<or> i = 13 \<or> i = 18 \<or> i = 23"

text \<open>The scan of \<^verbatim>\<open>IsValidDeviceId\<close>: \<open>Some nonzero\<close> at the end, \<open>None\<close> at the first bad digit.\<close>

fun device_id_scan :: "nat \<Rightarrow> bool \<Rightarrow> string \<Rightarrow> bool option" where
  "device_id_scan i nonzero [] = Some nonzero"
| "device_id_scan i nonzero (c # cs) =
     (if dash_at i then device_id_scan (Suc i) nonzero cs
      else if \<not> is_lower_hex c then None
      else device_id_scan (Suc i) (nonzero \<or> c \<noteq> CHR ''0'') cs)"

definition is_valid_device_id :: "string \<Rightarrow> bool" where
  "is_valid_device_id v \<longleftrightarrow>
     length v = 36 \<and> v ! 8 = CHR ''-'' \<and> v ! 13 = CHR ''-'' \<and> v ! 18 = CHR ''-'' \<and> v ! 23 = CHR ''-'' \<and>
     device_id_scan 0 False v = Some True"

definition base64_value :: "char \<Rightarrow> int" where
  "base64_value d = (let b = int (byte_of d) in
     if byte_of CHR ''A'' \<le> byte_of d \<and> byte_of d \<le> byte_of CHR ''Z'' then b - 65
     else if byte_of CHR ''a'' \<le> byte_of d \<and> byte_of d \<le> byte_of CHR ''z'' then b - 97 + 26
     else if is_digit d then b - 48 + 52
     else if d = CHR ''+'' then 62
     else if d = CHR ''/'' then 63
     else - 1)"

definition is_valid_spki_sha256 :: "string \<Rightarrow> bool" where
  "is_valid_spki_sha256 v \<longleftrightarrow>
     length v = 44 \<and> last v = CHR ''='' \<and> list_all (\<lambda>d. 0 \<le> base64_value d) (take 43 v) \<and>
     nat (base64_value (v ! 42)) AND 3 = 0"

definition visible_ascii_byte :: "char \<Rightarrow> bool" where
  "visible_ascii_byte c \<longleftrightarrow> 0x21 \<le> byte_of c \<and> byte_of c \<le> 0x7e"

definition is_valid_device_token :: "string \<Rightarrow> bool" where
  "is_valid_device_token v \<longleftrightarrow> 32 \<le> length v \<and> length v \<le> 256 \<and> list_all visible_ascii_byte v"

subsection \<open>Readers\<close>

definition bad :: "string \<Rightarrow> 'a checked" where
  "bad name = Inl (name @ '' is missing or outside allowed bounds'')"

text \<open>An unset and an empty variable are the same to every reader.\<close>

definition getenv_nonempty :: "environment \<Rightarrow> string \<Rightarrow> string option" where
  "getenv_nonempty env name = (case env name of None \<Rightarrow> None | Some v \<Rightarrow> if v = [] then None else Some v)"

definition read_string :: "environment \<Rightarrow> string \<Rightarrow> bool \<Rightarrow> nat \<Rightarrow> string checked" where
  "read_string env name required maximum = (case getenv_nonempty env name of
     None \<Rightarrow> if required then bad name else Inr []
   | Some v \<Rightarrow> if length v > maximum then bad name else Inr v)"

definition c_isspace :: "char \<Rightarrow> bool" where
  "c_isspace c \<longleftrightarrow> byte_of c = 32 \<or> (9 \<le> byte_of c \<and> byte_of c \<le> 13)"

fun decimal_value :: "nat \<Rightarrow> string \<Rightarrow> nat" where
  "decimal_value acc [] = acc"
| "decimal_value acc (c # cs) = decimal_value (10 * acc + (byte_of c - 48)) cs"

definition ulong_modulus :: nat where "ulong_modulus = 2 ^ 32"

text \<open>
  \<^verbatim>\<open>strtoul(text, &end, 10)\<close>: value, text from \<^verbatim>\<open>end\<close> on, range error. With no digit nothing is
  consumed; a minus sign negates modulo the width.
\<close>

definition strtoul10 :: "string \<Rightarrow> nat \<times> string \<times> bool" where
  "strtoul10 text = (let t = dropWhile c_isspace text;
       neg = (t \<noteq> [] \<and> hd t = CHR ''-'');
       u = (if t \<noteq> [] \<and> (hd t = CHR ''-'' \<or> hd t = CHR ''+'') then tl t else t);
       ds = takeWhile is_digit u; rest = dropWhile is_digit u; m = decimal_value 0 ds
     in if ds = [] then (0, text, False)
        else if ulong_modulus \<le> m then (ulong_modulus - 1, rest, True)
        else ((if neg then (ulong_modulus - m) mod ulong_modulus else m), rest, False))"

definition read_uint :: "environment \<Rightarrow> string \<Rightarrow> nat \<Rightarrow> nat \<Rightarrow> nat \<Rightarrow> nat checked" where
  "read_uint env name fallback minimum maximum = (case getenv_nonempty env name of
     None \<Rightarrow> Inr fallback
   | Some text \<Rightarrow> (case strtoul10 text of (parsed, rest, erange) \<Rightarrow>
       if erange \<or> rest \<noteq> [] \<or> parsed < minimum \<or> parsed > maximum then bad name else Inr parsed))"

definition read_float ::
  "strtof_fun \<Rightarrow> environment \<Rightarrow> string \<Rightarrow> rat \<Rightarrow> rat \<Rightarrow> rat \<Rightarrow> rat checked" where
  "read_float strtof env name fallback minimum maximum = (case getenv_nonempty env name of
     None \<Rightarrow> Inr fallback
   | Some text \<Rightarrow> (case strtof text of (parsed, rest, erange) \<Rightarrow>
       (case parsed of
          NonFinite \<Rightarrow> bad name
        | Finite x \<Rightarrow> if erange \<or> rest \<noteq> [] \<or> x < minimum \<or> x > maximum then bad name else Inr x)))"

definition read_polarity :: "environment \<Rightarrow> string \<Rightarrow> int checked" where
  "read_polarity env name = (case getenv_nonempty env name of
     None \<Rightarrow> Inr 1
   | Some v \<Rightarrow> if v = ''1'' then Inr 1 else if v = ''-1'' then Inr (- 1) else bad name)"

definition is_snowboy_sensitivity :: "strtof_fun \<Rightarrow> string \<Rightarrow> bool" where
  "is_snowboy_sensitivity strtof text = (case strtof text of (v, rest, erange) \<Rightarrow>
     \<not> erange \<and> rest = [] \<and> (case v of NonFinite \<Rightarrow> False | Finite x \<Rightarrow> 0 \<le> x \<and> x \<le> 1))"

subsection \<open>The loader\<close>

definition default_device_token :: string where
  "default_device_token = ''boompi-teaching-shared-token-v1-2026''"

text \<open>
  \<^verbatim>\<open>LoadVoiceClientConfigFromEnvironment\<close>, reads and checks in the code's order; \<open>has_output\<close> is
  the test of the output pointer. Each read's early return is one \<open>ebind\<close>.
\<close>

definition load_voice_client_config ::
  "strtof_fun \<Rightarrow> environment \<Rightarrow> bool \<Rightarrow> voice_client_config checked" where
  "load_voice_client_config strtof env has_output =
    (if \<not> has_output then Inl ''voice client config output is null'' else
     ebind (read_string env ''BOOMPI_SERVER_IP'' False 64) (\<lambda>ip.
     ebind (read_string env ''BOOMPI_SERVER_SPKI_SHA256'' False 64) (\<lambda>spki.
     ebind (read_string env ''BOOMPI_DEVICE_ID'' True 36) (\<lambda>dev.
     ebind (read_string env ''BOOMPI_DEVICE_TOKEN'' False 256) (\<lambda>token0.
     ebind (read_string env ''BOOMPI_CAPTURE_PCM'' True 31) (\<lambda>cap.
     ebind (read_string env ''BOOMPI_PLAYBACK_PCM'' True 31) (\<lambda>play.
     if \<not> is_valid_device_id dev then bad ''BOOMPI_DEVICE_ID''
     else if ((ip = []) \<noteq> (spki = [])) \<or> (spki \<noteq> [] \<and> \<not> is_valid_spki_sha256 spki)
     then bad ''BOOMPI_SERVER_SPKI_SHA256''
     else (let token = (if token0 = [] then default_device_token else token0) in
     if \<not> is_valid_device_token token then bad ''BOOMPI_DEVICE_TOKEN'' else
     ebind (read_uint env ''BOOMPI_SERVER_PORT'' 17806 1 65535) (\<lambda>port.
     ebind (read_polarity env ''BOOMPI_CAPTURE_LEFT_POLARITY'') (\<lambda>lpol.
     ebind (read_polarity env ''BOOMPI_CAPTURE_RIGHT_POLARITY'') (\<lambda>rpol.
     ebind (read_uint env ''BOOMPI_VOLUME_PERCENT'' 60 0 100) (\<lambda>vol.
     ebind (read_uint env ''BOOMPI_SPEAKER_GAIN_PERCENT'' 100 1 400) (\<lambda>gain.
     ebind (read_uint env ''BOOMPI_BARGE_IN_ENABLED'' 1 0 1) (\<lambda>barge.
     ebind (read_string env ''BOOMPI_SNOWBOY_RESOURCE_FILE'' True 1024) (\<lambda>res.
     ebind (read_string env ''BOOMPI_SNOWBOY_MODEL_FILE'' True 1024) (\<lambda>model.
     ebind (read_string env ''BOOMPI_SNOWBOY_SENSITIVITY'' False 32) (\<lambda>sens0.
     (let sens = (if sens0 = [] then ''0.7'' else sens0) in
     if \<not> is_snowboy_sensitivity strtof sens then bad ''BOOMPI_SNOWBOY_SENSITIVITY'' else
     ebind (read_float strtof env ''BOOMPI_VAD_MIN_DBFS'' (- 35) (- 90) 0) (\<lambda>vad.
     ebind (read_float strtof env ''BOOMPI_BARGE_MIN_DBFS'' (- 25) (- 90) 0) (\<lambda>bmin.
     Inr \<lparr>server_ip = ip, server_spki_sha256 = spki, server_port = of_nat port,
          cfg_device_id = dev, cfg_device_token = token, capture_pcm = cap, playback_pcm = play,
          volume_percent = of_nat vol, speaker_gain_percent = of_nat gain,
          snowboy_resource_path = res, snowboy_model_path = model, snowboy_sensitivity = sens,
          vad_min_dbfs = vad, barge_min_dbfs = bmin,
          capture_left_polarity = lpol, capture_right_polarity = rpol,
          barge_in_enabled = (barge \<noteq> 0)\<rparr>))))))))))))))))))))"

text \<open>What the header's field comments promise of a loaded configuration.\<close>

definition config_ok :: "strtof_fun \<Rightarrow> voice_client_config \<Rightarrow> bool" where
  "config_ok strtof c \<longleftrightarrow>
     length (server_ip c) \<le> 64 \<and>
     (server_ip c = [] \<longleftrightarrow> server_spki_sha256 c = []) \<and>
     (server_spki_sha256 c \<noteq> [] \<longrightarrow> is_valid_spki_sha256 (server_spki_sha256 c)) \<and>
     server_port c \<noteq> 0 \<and>
     is_valid_device_id (cfg_device_id c) \<and> is_valid_device_token (cfg_device_token c) \<and>
     capture_pcm c \<noteq> [] \<and> length (capture_pcm c) \<le> 31 \<and>
     playback_pcm c \<noteq> [] \<and> length (playback_pcm c) \<le> 31 \<and>
     unat (volume_percent c) \<le> 100 \<and>
     1 \<le> unat (speaker_gain_percent c) \<and> unat (speaker_gain_percent c) \<le> 400 \<and>
     snowboy_resource_path c \<noteq> [] \<and> length (snowboy_resource_path c) \<le> 1024 \<and>
     snowboy_model_path c \<noteq> [] \<and> length (snowboy_model_path c) \<le> 1024 \<and>
     is_snowboy_sensitivity strtof (snowboy_sensitivity c) \<and>
     - 90 \<le> vad_min_dbfs c \<and> vad_min_dbfs c \<le> 0 \<and>
     - 90 \<le> barge_min_dbfs c \<and> barge_min_dbfs c \<le> 0 \<and>
     \<bar>capture_left_polarity c\<bar> = 1 \<and> \<bar>capture_right_polarity c\<bar> = 1"

lemma getenv_nonempty_neq: "getenv_nonempty env name = Some v \<Longrightarrow> v \<noteq> []"
  by (auto simp: getenv_nonempty_def split: option.splits if_splits)

lemma bad_neq_Inr [simp]: "bad name \<noteq> Inr x" "Inr x \<noteq> bad name"
  by (simp_all add: bad_def)

lemma if_bad_eq_Inr [simp]:
  "(if b then bad name else m) = Inr y \<longleftrightarrow> \<not> b \<and> m = Inr y"
  "(if b then Inl e else m) = Inr y \<longleftrightarrow> \<not> b \<and> m = Inr y"
  by (simp_all add: bad_def)

lemma read_string_Inr:
  "read_string env name req m = Inr v \<Longrightarrow> length v \<le> m \<and> (req \<longrightarrow> v \<noteq> [])"
  by (auto simp: read_string_def dest: getenv_nonempty_neq split: option.splits if_splits)

lemma read_uint_Inr:
  "read_uint env name f lo hi = Inr v \<Longrightarrow> lo \<le> f \<and> f \<le> hi \<longrightarrow> lo \<le> v \<and> v \<le> hi"
  by (auto simp: read_uint_def split: option.splits prod.splits if_splits)

lemma read_float_Inr:
  "read_float strtof env name f lo hi = Inr v \<Longrightarrow> lo \<le> f \<and> f \<le> hi \<longrightarrow> lo \<le> v \<and> v \<le> hi"
  by (auto simp: read_float_def split: option.splits prod.splits cfloat.splits if_splits)

lemma read_polarity_Inr: "read_polarity env name = Inr v \<Longrightarrow> \<bar>v\<bar> = 1"
  by (auto simp: read_polarity_def split: option.splits if_splits)

lemmas reader_bounds = read_string_Inr read_uint_Inr read_float_Inr read_polarity_Inr

lemma unat_of_nat_small: "n < 2 ^ LENGTH('a) \<Longrightarrow> unat (of_nat n :: 'a::len word) = n"
  by (simp add: unat_of_nat take_bit_nat_eq_self)

lemma of_nat_neq_0_u16: "1 \<le> n \<Longrightarrow> n \<le> 65535 \<Longrightarrow> of_nat n \<noteq> (0 :: u16)"
  using unat_of_nat_small [of n, where 'a = 16] by (auto simp flip: unat_eq_0)

lemma unat_of_nat_small_simps:
  "n \<le> 255 \<Longrightarrow> unat (of_nat n :: u8) = n"
  "n \<le> 65535 \<Longrightarrow> unat (of_nat n :: u16) = n"
  by (simp_all add: unat_of_nat_small)

lemma config_okI:
  assumes ip: "read_string env n1 False 64 = Inr ip" and dev: "is_valid_device_id dev"
    and pin: "(ip = []) = (spki = [])" "spki = [] \<or> is_valid_spki_sha256 spki"
    and token: "is_valid_device_token token" and sens: "is_snowboy_sensitivity strtof sens"
    and pcm: "read_string env n2 True 31 = Inr cap" "read_string env n3 True 31 = Inr play"
    and port: "read_uint env n4 17806 1 65535 = Inr port"
    and pol: "read_polarity env n5 = Inr lpol" "read_polarity env n6 = Inr rpol"
    and vol: "read_uint env n7 60 0 100 = Inr vol" and gain: "read_uint env n8 100 1 400 = Inr gain"
    and models: "read_string env n9 True 1024 = Inr res" "read_string env n10 True 1024 = Inr model"
    and vad: "read_float strtof env n11 (- 35) (- 90) 0 = Inr vad"
    and bmin: "read_float strtof env n12 (- 25) (- 90) 0 = Inr bmin"
  shows "config_ok strtof \<lparr>server_ip = ip, server_spki_sha256 = spki, server_port = of_nat port,
          cfg_device_id = dev, cfg_device_token = token, capture_pcm = cap, playback_pcm = play,
          volume_percent = of_nat vol, speaker_gain_percent = of_nat gain,
          snowboy_resource_path = res, snowboy_model_path = model, snowboy_sensitivity = sens,
          vad_min_dbfs = vad, barge_min_dbfs = bmin,
          capture_left_polarity = lpol, capture_right_polarity = rpol,
          barge_in_enabled = barge\<rparr>"
proof -
  note strings = read_string_Inr [OF ip] pcm [THEN read_string_Inr] models [THEN read_string_Inr]
  have "1 \<le> port \<and> port \<le> 65535" using read_uint_Inr [OF port] by simp
  moreover have "vol \<le> 100" using read_uint_Inr [OF vol] by simp
  moreover have "1 \<le> gain \<and> gain \<le> 400" using read_uint_Inr [OF gain] by simp
  moreover have "- 90 \<le> vad \<and> vad \<le> 0" using read_float_Inr [OF vad] by simp
  moreover have "- 90 \<le> bmin \<and> bmin \<le> 0" using read_float_Inr [OF bmin] by simp
  ultimately show ?thesis
    using strings dev pin token sens pol [THEN read_polarity_Inr]
    by (simp add: config_ok_def of_nat_neq_0_u16 unat_of_nat_small_simps disj_imp)
qed

text \<open>C27: a configuration the loader accepts has every field inside the bounds the header states, whatever
  the C library's \<^verbatim>\<open>strtof\<close> does: identities well formed, port non-zero, endpoint and pin both given
  or both absent, percentages, dBFS gates and polarities in range.\<close>

theorem load_config_ok:
  assumes "load_voice_client_config strtof env has_output = Inr c"
  shows "config_ok strtof c"
  using assms unfolding load_voice_client_config_def Let_def
  apply (simp split del: if_split)
  apply (elim conjE exE)
  apply hypsubst_thin
  apply (rule config_okI; (simp only: One_nat_def)?; assumption)
  done

subsection \<open>A concrete environment\<close>

definition sample_env :: environment where
  "sample_env = [''BOOMPI_DEVICE_ID'' \<mapsto> ''00112233-4455-6677-8899-aabbccddeeff'',
     ''BOOMPI_CAPTURE_PCM'' \<mapsto> ''hw:0,0'', ''BOOMPI_PLAYBACK_PCM'' \<mapsto> ''hw:0,0'',
     ''BOOMPI_SNOWBOY_RESOURCE_FILE'' \<mapsto> ''/m/common.res'',
     ''BOOMPI_SNOWBOY_MODEL_FILE'' \<mapsto> ''/m/snowboy.umdl'',
     ''BOOMPI_VOLUME_PERCENT'' \<mapsto> ''85'']"

definition sample_strtof :: strtof_fun where
  "sample_strtof text = (if text = ''0.7'' then (Finite (7 / 10), [], False) else (NonFinite, text, False))"

definition sample_config :: voice_client_config where
  "sample_config = \<lparr>server_ip = [], server_spki_sha256 = [], server_port = 17806,
     cfg_device_id = ''00112233-4455-6677-8899-aabbccddeeff'',
     cfg_device_token = default_device_token, capture_pcm = ''hw:0,0'', playback_pcm = ''hw:0,0'',
     volume_percent = 85, speaker_gain_percent = 100, snowboy_resource_path = ''/m/common.res'',
     snowboy_model_path = ''/m/snowboy.umdl'', snowboy_sensitivity = ''0.7'',
     vad_min_dbfs = - 35, barge_min_dbfs = - 25, capture_left_polarity = 1,
     capture_right_polarity = 1, barge_in_enabled = True\<rparr>"

lemmas reader_defs = read_string_def read_uint_def read_float_def read_polarity_def
  getenv_nonempty_def strtoul10_def ulong_modulus_def

lemma sample_device_id: "is_valid_device_id ''00112233-4455-6677-8899-aabbccddeeff''"
  by code_simp

lemma sample_token: "is_valid_device_token default_device_token"
  by code_simp

lemma load_sample: "load_voice_client_config sample_strtof sample_env True = Inr sample_config"
  by (simp add: load_voice_client_config_def sample_env_def sample_strtof_def sample_config_def
      reader_defs sample_device_id sample_token is_snowboy_sensitivity_def is_digit_def c_isspace_def byte_of_def)

theorem load_config_ok_witness: "config_ok sample_strtof sample_config"
  by (rule load_config_ok [OF load_sample])

end
