(* ===== verification/Wire.thy ===== *)
theory Wire
  imports Config
begin

section \<open>Wire layout of protocol v1\<close>

text \<open>
  The byte-level part of \<^verbatim>\<open>client/src/network/voice_transport.cpp\<close> and the wire types of
  \<^verbatim>\<open>client/include/boompi/network/voice_transport.h\<close>.
\<close>

subsection \<open>Big-endian integers\<close>

text \<open>
  \<^verbatim>\<open>Put16/Put32/Put64\<close> store the low byte at the highest index and shift right, down to index 0;
  \<^verbatim>\<open>Get16/Get32/Get64\<close> shift left and or the next byte in.
\<close>

fun put_be :: "nat \<Rightarrow> 'a::len word \<Rightarrow> bytes" where
  "put_be 0 v = []"
| "put_be (Suc i) v = put_be i (drop_bit 8 v) @ [ucast v]"

definition get_be :: "bytes \<Rightarrow> 'a::len word" where
  "get_be p = foldl (\<lambda>v b. push_bit 8 v OR ucast b) 0 p"

definition put16 :: "u16 \<Rightarrow> bytes" where "put16 v = put_be 2 v"
definition put32 :: "u32 \<Rightarrow> bytes" where "put32 v = put_be 4 v"
definition put64 :: "u64 \<Rightarrow> bytes" where "put64 v = put_be 8 v"
definition get16 :: "bytes \<Rightarrow> u16" where "get16 p = get_be (take 2 p)"
definition get32 :: "bytes \<Rightarrow> u32" where "get32 p = get_be (take 4 p)"
definition get64 :: "bytes \<Rightarrow> u64" where "get64 p = get_be (take 8 p)"

lemma length_put_be [simp]: "length (put_be n v) = n"
  by (induction n arbitrary: v) auto

lemma get_be_snoc: "get_be (xs @ [b]) = push_bit 8 (get_be xs) OR ucast b"
  by (simp add: get_be_def)

lemma get_put_be: "get_be (put_be n v) = take_bit (8 * n) v"
proof (induction n arbitrary: v)
  case 0
  then show ?case by (simp add: get_be_def)
next
  case (Suc n)
  show ?case unfolding put_be.simps get_be_snoc Suc.IH
    by (rule bit_word_eqI) (auto simp: bit_simps not_less)
qed

lemma get_put_be_full: "8 * n = LENGTH('a) \<Longrightarrow> get_be (put_be n (v :: 'a::len word)) = v"
  by (simp add: get_put_be)

lemma length_put [wire_simps]:
  "length (put16 a) = 2" "length (put32 b) = 4" "length (put64 c) = 8"
  by (simp_all add: put16_def put32_def put64_def)

lemma get_put [wire_simps]:
  "get16 (put16 a @ xs) = a"
  "get32 (put32 b @ xs) = b"
  "get64 (put64 c @ xs) = c"
  by (simp_all add: put16_def put32_def put64_def get16_def get32_def get64_def get_put_be_full)

subsection \<open>Identities\<close>

record wire_ids =
  session :: u32
  turn :: u32
  stream :: u32
  epoch :: u32

definition no_ids :: wire_ids where
  "no_ids = \<lparr>session = 0, turn = 0, stream = 0, epoch = 0\<rparr>"

definition same_turn :: "wire_ids \<Rightarrow> wire_ids \<Rightarrow> bool" where
  "same_turn a b \<longleftrightarrow> session a = session b \<and> turn a = turn b \<and> epoch a = epoch b"

definition same_ids :: "wire_ids \<Rightarrow> wire_ids \<Rightarrow> bool" where
  "same_ids a b \<longleftrightarrow> same_turn a b \<and> stream a = stream b"

lemma same_ids_eq: "same_ids a b \<longleftrightarrow> a = b"
  by (cases a; cases b) (auto simp: same_ids_def same_turn_def)

subsection \<open>Messages exchanged with the application\<close>

datatype control_kind = Ctl_Hello | Ctl_TurnStart | Ctl_TurnCommit | Ctl_TurnCancel | Ctl_ResponseCancel

record control =
  ctl_kind :: control_kind
  ctl_message_id :: string
  ctl_ids :: wire_ids
  ctl_device_token :: string

record pcm64_header =
  pcm_flags :: u16
  pcm_sequence :: u32
  pcm_timestamp_us :: u64
  pcm_ids :: wire_ids

datatype send_outcome = Send_Ok | Send_Backpressure | Send_Rejected

datatype inbound_kind = In_HelloAck | In_Heartbeat | In_ResponseStart | In_TextDelta | In_AudioStart
  | In_Cancelled | In_Done | In_Error | In_Pcm

text \<open>\<open>in_audio\<close> is the first \<^verbatim>\<open>audio_size\<close> bytes of the fixed array.\<close>

record inbound =
  in_kind :: inbound_kind
  in_ids :: wire_ids
  in_text :: string
  in_error_code :: string
  in_pcm :: pcm64_header
  in_audio :: bytes

definition no_header :: pcm64_header where
  "no_header = \<lparr>pcm_flags = 0, pcm_sequence = 0, pcm_timestamp_us = 0, pcm_ids = no_ids\<rparr>"

definition no_inbound :: inbound where
  "no_inbound = \<lparr>in_kind = In_Error, in_ids = no_ids, in_text = [], in_error_code = [],
     in_pcm = no_header, in_audio = []\<rparr>"

definition k_header_bytes :: nat where "k_header_bytes = 64"
definition k_max_uplink_pcm_bytes :: nat where "k_max_uplink_pcm_bytes = 640"
definition k_max_downlink_pcm_bytes :: nat where "k_max_downlink_pcm_bytes = 960"
definition k_max_message_bytes :: nat where "k_max_message_bytes = k_header_bytes + 64 * 1024"
definition k_max_buffered_bytes :: nat where "k_max_buffered_bytes = 28 * 1024"
definition k_known_flags :: u16 where "k_known_flags = 7"

lemmas k_defs = k_header_bytes_def k_max_uplink_pcm_bytes_def k_max_downlink_pcm_bytes_def
  k_max_message_bytes_def k_max_buffered_bytes_def k_known_flags_def

subsection \<open>Device identity as 16 bytes\<close>

definition hex_digit_value :: "char \<Rightarrow> int" where
  "hex_digit_value c = (if is_digit c then int (byte_of c) - 48
     else if byte_of CHR ''a'' \<le> byte_of c \<and> byte_of c \<le> byte_of CHR ''f'' then int (byte_of c) - 97 + 10
     else - 1)"

text \<open>The loop of \<^verbatim>\<open>ParseUuid\<close>: \<open>high\<close> is the pending digit or - 1; \<open>out\<close> the bytes written.\<close>

fun parse_uuid_loop :: "bytes \<Rightarrow> int \<Rightarrow> string \<Rightarrow> bytes option" where
  "parse_uuid_loop out high [] = Some out"
| "parse_uuid_loop out high (c # cs) =
     (if c = CHR ''-'' then parse_uuid_loop out high cs
      else let d = hex_digit_value c in
        if d < 0 then None
        else if high < 0 then parse_uuid_loop out d cs
        else parse_uuid_loop (out @ [of_int (high * 16 + d)]) (- 1) cs)"

definition parse_uuid :: "string \<Rightarrow> bytes option" where
  "parse_uuid v =
     (if \<not> is_valid_device_id v then None
      else case parse_uuid_loop [] (- 1) v of
        None \<Rightarrow> None
      | Some out \<Rightarrow> if length out = 16 then Some out else None)"

subsection \<open>Binary frames\<close>

definition magic :: bytes where "magic = [0x42, 0x50, 0x56, 0x31]"

text \<open>The uplink frame \<^verbatim>\<open>SendPcm\<close> assembles: 64 header bytes, then the payload.\<close>

definition encode_pcm64 :: "bytes \<Rightarrow> pcm64_header \<Rightarrow> bytes \<Rightarrow> bytes" where
  "encode_pcm64 uuid h pcm =
     magic @ [1, 1] @ put16 (pcm_flags h) @ put16 64 @ [1, 1] @ put32 16000 @
     put32 (of_nat (length pcm)) @ put32 (pcm_sequence h) @ put64 (pcm_timestamp_us h) @
     put32 (epoch (pcm_ids h)) @ uuid @ put32 (session (pcm_ids h)) @ put32 (turn (pcm_ids h)) @
     put32 (stream (pcm_ids h)) @ pcm"

text \<open>
  The fields of a received header, at the offsets \<^verbatim>\<open>OnBinary\<close> reads them (\<open>sub p off\<close> is the buffer
  from \<open>off\<close> on).
\<close>

definition sub :: "bytes \<Rightarrow> nat \<Rightarrow> bytes" where "sub p off = drop off p"

definition header_of :: "bytes \<Rightarrow> pcm64_header" where
  "header_of p = \<lparr>pcm_flags = get16 (sub p 6), pcm_sequence = get32 (sub p 20),
     pcm_timestamp_us = get64 (sub p 24),
     pcm_ids = \<lparr>session = get32 (sub p 52), turn = get32 (sub p 56), stream = get32 (sub p 60),
                epoch = get32 (sub p 32)\<rparr>\<rparr>"

lemma length_encode_pcm64: "length uuid = 16 \<Longrightarrow> length (encode_pcm64 uuid h pcm) = k_header_bytes + length pcm"
  by (simp add: encode_pcm64_def wire_simps magic_def k_header_bytes_def)

lemma header_of_encode:
  assumes "length uuid = 16"
  shows "header_of (encode_pcm64 uuid h pcm) = h"
  using assms by (simp add: encode_pcm64_def header_of_def sub_def wire_simps magic_def)

lemma encode_pcm64_fields:
  assumes "length uuid = 16"
  shows "take 4 (encode_pcm64 uuid h pcm) = magic"
    and "encode_pcm64 uuid h pcm ! 4 = 1" and "encode_pcm64 uuid h pcm ! 5 = 1"
    and "get16 (sub (encode_pcm64 uuid h pcm) 8) = 64"
    and "encode_pcm64 uuid h pcm ! 10 = 1" and "encode_pcm64 uuid h pcm ! 11 = 1"
    and "get32 (sub (encode_pcm64 uuid h pcm) 12) = 16000"
    and "get32 (sub (encode_pcm64 uuid h pcm) 16) = of_nat (length pcm)"
    and "take 16 (sub (encode_pcm64 uuid h pcm) 36) = uuid"
    and "sub (encode_pcm64 uuid h pcm) k_header_bytes = pcm"
  using assms
  by (simp_all add: encode_pcm64_def sub_def wire_simps magic_def k_header_bytes_def nth_append)

subsection \<open>Device identity: every valid text has its own 16 bytes\<close>

fun pair_bytes :: "string \<Rightarrow> bytes" where
  "pair_bytes (a # b # r) = of_int (hex_digit_value a * 16 + hex_digit_value b) # pair_bytes r"
| "pair_bytes _ = []"

lemma hex_digit_value_range: "is_lower_hex c \<Longrightarrow> 0 \<le> hex_digit_value c \<and> hex_digit_value c < 16"
  by (auto simp: is_lower_hex_def hex_digit_value_def is_digit_def byte_of_def)

lemma hex_digit_value_inject:
  "is_lower_hex c \<Longrightarrow> is_lower_hex d \<Longrightarrow> hex_digit_value c = hex_digit_value d \<longleftrightarrow> c = d"
  using byte_of_inject [of c d]
  by (auto simp: is_lower_hex_def hex_digit_value_def is_digit_def byte_of_def split: if_splits)

lemma lower_hex_no_dash: "is_lower_hex c \<Longrightarrow> c \<noteq> CHR ''-''"
  by (auto simp: is_lower_hex_def is_digit_def byte_of_def)

lemma parse_uuid_loop_dashes:
  "parse_uuid_loop out high cs = parse_uuid_loop out high (filter (\<lambda>c. c \<noteq> CHR ''-'') cs)"
  by (induction out high cs rule: parse_uuid_loop.induct) (auto simp: Let_def)

lemma parse_uuid_loop_hex:
  assumes "list_all is_lower_hex ds" and "even (length ds)"
  shows "parse_uuid_loop out (- 1) ds = Some (out @ pair_bytes ds)"
  using assms
proof (induction ds arbitrary: out rule: pair_bytes.induct)
  case (1 a b r)
  then show ?case
    using hex_digit_value_range [of a] hex_digit_value_range [of b] by (simp add: Let_def lower_hex_no_dash)
qed auto

lemma length_pair_bytes: "length (pair_bytes ds) = length ds div 2"
  by (induction ds rule: pair_bytes.induct) auto

lemma hex_byte_inject:
  assumes "0 \<le> a" "a < 16" "0 \<le> b" "b < 16" "0 \<le> c" "c < 16" "0 \<le> d" "d < (16 :: int)"
  shows "(of_int (a * 16 + b) :: u8) = of_int (c * 16 + d) \<longleftrightarrow> a = c \<and> b = d"
proof -
  have "(of_int (a * 16 + b) :: u8) = of_int (c * 16 + d) \<longleftrightarrow> (a * 16 + b) mod 256 = (c * 16 + d) mod 256"
    by (simp only: word_of_int_eq_iff take_bit_eq_mod) simp
  also have "\<dots> \<longleftrightarrow> a * 16 + b = c * 16 + d" using assms by simp
  also have "\<dots> \<longleftrightarrow> a = c \<and> b = d"
  proof
    assume eq: "a * 16 + b = c * 16 + d"
    have "(a * 16 + b) div 16 = a" "(a * 16 + b) mod 16 = b" "(c * 16 + d) div 16 = c" "(c * 16 + d) mod 16 = d"
      using assms by simp_all
    with eq show "a = c \<and> b = d" by simp
  qed simp
  finally show ?thesis .
qed

lemma pair_bytes_inject:
  assumes "list_all is_lower_hex ds" "list_all is_lower_hex es" "length ds = length es" "even (length ds)"
    and "pair_bytes ds = pair_bytes es"
  shows "ds = es"
  using assms
proof (induction ds arbitrary: es rule: pair_bytes.induct)
  case (1 a b r)
  then obtain c d s where es: "es = c # d # s"
    by (cases es rule: pair_bytes.cases) auto
  have byte: "(of_int (hex_digit_value a * 16 + hex_digit_value b) :: u8)
      = of_int (hex_digit_value c * 16 + hex_digit_value d)"
    using "1.prems"(5) by (simp only: es pair_bytes.simps list.inject)
  have "r = s" using "1.prems" "1.IH" [of s] by (auto simp: es)
  moreover have hex: "is_lower_hex a" "is_lower_hex b" "is_lower_hex c" "is_lower_hex d"
    using "1.prems" by (auto simp: es)
  moreover have "hex_digit_value a = hex_digit_value c \<and> hex_digit_value b = hex_digit_value d"
    using byte hex [THEN hex_digit_value_range] by (subst (asm) hex_byte_inject) auto
  ultimately show ?case by (simp add: hex_digit_value_inject es)
qed (auto)

lemma device_id_scan_digits:
  "device_id_scan i nz cs = Some r \<Longrightarrow> j < length cs \<Longrightarrow> dash_at (i + j) \<or> is_lower_hex (cs ! j)"
proof (induction cs arbitrary: i nz j)
  case (Cons c cs)
  then show ?case by (cases j) (fastforce split: if_splits)+
qed simp

lemma valid_device_id_chars:
  assumes "is_valid_device_id v" and "j < 36"
  shows "v ! j = CHR ''-'' \<longleftrightarrow> dash_at j" and "\<not> dash_at j \<Longrightarrow> is_lower_hex (v ! j)"
proof -
  have d: "dash_at j \<or> is_lower_hex (v ! j)"
    using device_id_scan_digits [of 0 False v True j] assms by (simp add: is_valid_device_id_def)
  then show "\<not> dash_at j \<Longrightarrow> is_lower_hex (v ! j)" by simp
  show "v ! j = CHR ''-'' \<longleftrightarrow> dash_at j"
    using d assms lower_hex_no_dash by (auto simp: is_valid_device_id_def dash_at_def)
qed

definition uuid_digits :: "string \<Rightarrow> string" where
  "uuid_digits v = filter (\<lambda>c. c \<noteq> CHR ''-'') v"

lemma uuid_digits_valid:
  assumes "is_valid_device_id v"
  shows "list_all is_lower_hex (uuid_digits v)" and "length (uuid_digits v) = 32"
proof -
  have len: "length v = 36" using assms by (simp add: is_valid_device_id_def)
  show "list_all is_lower_hex (uuid_digits v)"
    using valid_device_id_chars [OF assms] len
    by (auto simp: uuid_digits_def list_all_iff in_set_conv_nth)
  have "{j. j < length v \<and> v ! j \<noteq> CHR ''-''} = {j. j < 36 \<and> \<not> dash_at j}"
    using valid_device_id_chars [OF assms] len by auto
  also have "\<dots> = {..<36} - {8, 13, 18, 23}" by (auto simp: dash_at_def)
  finally show "length (uuid_digits v) = 32"
    by (simp add: uuid_digits_def length_filter_conv_card)
qed

lemma parse_uuid_valid:
  assumes "is_valid_device_id v"
  shows "parse_uuid v = Some (pair_bytes (uuid_digits v))" and "length (pair_bytes (uuid_digits v)) = 16"
proof -
  show len: "length (pair_bytes (uuid_digits v)) = 16"
    using uuid_digits_valid [OF assms] by (simp add: length_pair_bytes)
  have "parse_uuid_loop [] (- 1) v = Some (pair_bytes (uuid_digits v))"
    using uuid_digits_valid [OF assms] parse_uuid_loop_hex [of "uuid_digits v" "[]"]
    by (subst parse_uuid_loop_dashes) (simp add: uuid_digits_def)
  then show "parse_uuid v = Some (pair_bytes (uuid_digits v))"
    using assms len by (simp add: parse_uuid_def)
qed

lemma filter_dash_inject:
  "map P v = map P w \<Longrightarrow> filter (\<lambda>c. \<not> P c) v = filter (\<lambda>c. \<not> P c) w \<Longrightarrow> (\<And>c d. P c \<Longrightarrow> P d \<Longrightarrow> c = d) \<Longrightarrow> v = w"
proof (induction v arbitrary: w)
  case (Cons c cs)
  then obtain d ds where "w = d # ds" by (cases w) auto
  with Cons show ?case by (auto split: if_splits)
qed simp

lemma valid_device_id_eqI:
  assumes "is_valid_device_id v" "is_valid_device_id w" and "uuid_digits v = uuid_digits w"
  shows "v = w"
proof (rule filter_dash_inject [where P = "\<lambda>c. c = CHR ''-''"])
  show "map (\<lambda>c. c = CHR ''-'') v = map (\<lambda>c. c = CHR ''-'') w"
    using assms(1,2) valid_device_id_chars(1) [OF assms(1)] valid_device_id_chars(1) [OF assms(2)]
    by (intro nth_equalityI) (auto simp: is_valid_device_id_def)
qed (use assms(3) in \<open>simp_all add: uuid_digits_def\<close>)

text \<open>\<^verbatim>\<open>ParseUuid\<close> accepts exactly the valid device identities, always writes exactly the 16 bytes of
  its output array, and gives different identities different bytes, so the 16 header bytes identify
  the configured device.\<close>

theorem parse_uuid_identity:
  "(parse_uuid v \<noteq> None \<longleftrightarrow> is_valid_device_id v) \<and>
   (parse_uuid v = Some u \<longrightarrow> length u = 16 \<and> (parse_uuid w = Some u \<longleftrightarrow> v = w))"
proof -
  have dom: "parse_uuid x \<noteq> None \<longleftrightarrow> is_valid_device_id x" for x
    using parse_uuid_valid(1) [of x] by (auto simp: parse_uuid_def)
  have "v = w" if v: "parse_uuid v = Some u" and w: "parse_uuid w = Some u"
  proof -
    have valid: "is_valid_device_id v" "is_valid_device_id w" using dom [of v] dom [of w] v w by auto
    then have "pair_bytes (uuid_digits v) = pair_bytes (uuid_digits w)"
      using v w parse_uuid_valid(1) by auto
    then have "uuid_digits v = uuid_digits w"
      using pair_bytes_inject uuid_digits_valid [OF valid(1)] uuid_digits_valid [OF valid(2)] by simp
    with valid show ?thesis by (rule valid_device_id_eqI)
  qed
  moreover have "length u = 16" if "parse_uuid v = Some u"
    using that dom [of v] parse_uuid_valid [of v] by auto
  ultimately show ?thesis using dom by auto
qed

theorem parse_uuid_identity_witness:
  "length (the (parse_uuid ''00112233-4455-6677-8899-aabbccddeeff'')) = 16"
proof -
  have "parse_uuid ''00112233-4455-6677-8899-aabbccddeeff'' \<noteq> None"
    using parse_uuid_identity sample_device_id by blast
  then obtain u where u: "parse_uuid ''00112233-4455-6677-8899-aabbccddeeff'' = Some u" by blast
  then show ?thesis using parse_uuid_identity by fastforce
qed

end
