(* ===== verification/Utf8.thy ===== *)
theory Utf8
  imports Prelude
begin

section \<open>UTF-8: the validator, the decoder and the subtitle cutter\<close>

text \<open>
  Three routines of the client handle UTF-8, and this theory relates each to the encoding itself:
  \<^item> \<^verbatim>\<open>websocketpp::utf8_validator::validate\<close>, a table-driven automaton every text frame passes;
  \<^item> \<^verbatim>\<open>DecodeUtf8\<close> and \<^verbatim>\<open>SupportedText\<close> of \<^verbatim>\<open>client/src/ui/lvgl_screen.cpp\<close>, which drop what the font
    cannot draw;
  \<^item> \<^verbatim>\<open>Utf8Cut\<close> and the subtitle window of \<^verbatim>\<open>client/src/application/voice_client.cpp\<close>.
\<close>

subsection \<open>The encoding (RFC 3629)\<close>

definition scalar :: "nat \<Rightarrow> bool" where
  "scalar c \<longleftrightarrow> c < 0xD800 \<or> (0xE000 \<le> c \<and> c < 0x110000)"

definition utf8_bytes :: "nat \<Rightarrow> nat list" where
  "utf8_bytes c =
     (if c < 0x80 then [c]
      else if c < 0x800 then [0xC0 + c div 64, 0x80 + c mod 64]
      else if c < 0x10000 then [0xE0 + c div 4096, 0x80 + c div 64 mod 64, 0x80 + c mod 64]
      else [0xF0 + c div 262144, 0x80 + c div 4096 mod 64, 0x80 + c div 64 mod 64, 0x80 + c mod 64])"

definition utf8_text :: "string \<Rightarrow> nat list \<Rightarrow> bool" where
  "utf8_text s cs \<longleftrightarrow> list_all scalar cs \<and> map byte_of s = concat (map utf8_bytes cs)"

definition cont :: "nat \<Rightarrow> bool" where
  "cont b \<longleftrightarrow> 0x80 \<le> b \<and> b < 0xC0"

text \<open>Well-formed byte sequences, by the ranges of the standard's table.\<close>

fun wf_utf8 :: "nat list \<Rightarrow> bool" where
  "wf_utf8 [] = True"
| "wf_utf8 (a # r) =
    (if a < 0x80 then wf_utf8 r
     else if a < 0xC2 then False
     else if a < 0xE0 then (case r of b # r' \<Rightarrow> cont b \<and> wf_utf8 r' | _ \<Rightarrow> False)
     else if a < 0xF0 then (case r of b # c # r' \<Rightarrow>
         (if a = 0xE0 then 0xA0 \<le> b \<and> b < 0xC0 else if a = 0xED then 0x80 \<le> b \<and> b < 0xA0 else cont b) \<and>
         cont c \<and> wf_utf8 r' | _ \<Rightarrow> False)
     else if a < 0xF5 then (case r of b # c # d # r' \<Rightarrow>
         (if a = 0xF0 then 0x90 \<le> b \<and> b < 0xC0 else if a = 0xF4 then 0x80 \<le> b \<and> b < 0x90 else cont b) \<and>
         cont c \<and> cont d \<and> wf_utf8 r' | _ \<Rightarrow> False)
     else False)"

subsection \<open>The validator\<close>

definition utf8d :: "nat list" where
  "utf8d =
   [0,0,0,0,0,0,0,0,0,0,0,0,0,0,0,0,0,0,0,0,0,0,0,0,0,0,0,0,0,0,0,0,
    0,0,0,0,0,0,0,0,0,0,0,0,0,0,0,0,0,0,0,0,0,0,0,0,0,0,0,0,0,0,0,0,
    0,0,0,0,0,0,0,0,0,0,0,0,0,0,0,0,0,0,0,0,0,0,0,0,0,0,0,0,0,0,0,0,
    0,0,0,0,0,0,0,0,0,0,0,0,0,0,0,0,0,0,0,0,0,0,0,0,0,0,0,0,0,0,0,0,
    1,1,1,1,1,1,1,1,1,1,1,1,1,1,1,1,9,9,9,9,9,9,9,9,9,9,9,9,9,9,9,9,
    7,7,7,7,7,7,7,7,7,7,7,7,7,7,7,7,7,7,7,7,7,7,7,7,7,7,7,7,7,7,7,7,
    8,8,2,2,2,2,2,2,2,2,2,2,2,2,2,2,2,2,2,2,2,2,2,2,2,2,2,2,2,2,2,2,
    0xa,0x3,0x3,0x3,0x3,0x3,0x3,0x3,0x3,0x3,0x3,0x3,0x3,0x4,0x3,0x3,
    0xb,0x6,0x6,0x6,0x5,0x8,0x8,0x8,0x8,0x8,0x8,0x8,0x8,0x8,0x8,0x8,
    0x0,0x1,0x2,0x3,0x5,0x8,0x7,0x1,0x1,0x1,0x4,0x6,0x1,0x1,0x1,0x1,
    1,1,1,1,1,1,1,1,1,1,1,1,1,1,1,1,1,0,1,1,1,1,1,0,1,0,1,1,1,1,1,1,
    1,2,1,1,1,1,1,2,1,2,1,1,1,1,1,1,1,1,1,1,1,1,1,2,1,1,1,1,1,1,1,1,
    1,2,1,1,1,1,1,1,1,2,1,1,1,1,1,1,1,1,1,1,1,1,1,3,1,3,1,1,1,1,1,1,
    1,3,1,1,1,1,1,3,1,3,1,1,1,1,1,1,1,3,1,1,1,1,1,1,1,1,1,1,1,1,1,1]"

definition utf8_accept :: nat where "utf8_accept = 0"
definition utf8_reject :: nat where "utf8_reject = 1"

text \<open>One byte: the new state and the code point accumulated so far (a 32-bit register).\<close>

definition utf8_decode :: "nat \<Rightarrow> u32 \<Rightarrow> nat \<Rightarrow> nat \<times> u32" where
  "utf8_decode state codep byte = (let type = utf8d ! byte in
     (utf8d ! (256 + state * 16 + type),
      if state \<noteq> utf8_accept then (of_nat byte AND 0x3f) OR push_bit 6 codep
      else drop_bit type 0xff AND of_nat byte))"

fun validator_decode :: "nat \<Rightarrow> u32 \<Rightarrow> string \<Rightarrow> nat option" where
  "validator_decode state codep [] = Some state"
| "validator_decode state codep (c # cs) = (case utf8_decode state codep (byte_of c) of
     (state', codep') \<Rightarrow> if state' = utf8_reject then None else validator_decode state' codep' cs)"

definition validate :: "string \<Rightarrow> bool" where
  "validate s = (validator_decode utf8_accept 0 s = Some utf8_accept)"

text \<open>The automaton without the code point register, on byte values.\<close>

fun utf8_run :: "nat \<Rightarrow> nat list \<Rightarrow> bool" where
  "utf8_run state [] \<longleftrightarrow> state = 0"
| "utf8_run state (b # bs) \<longleftrightarrow>
     (let state' = utf8d ! (256 + state * 16 + utf8d ! b) in state' \<noteq> 1 \<and> utf8_run state' bs)"

lemma validator_decode_run:
  "validator_decode state codep s = Some utf8_accept \<longleftrightarrow> utf8_run state (map byte_of s)"
  by (induction s arbitrary: state codep)
     (auto simp: utf8_decode_def utf8_accept_def utf8_reject_def Let_def split: prod.splits)

definition byte_class :: "nat \<Rightarrow> nat" where
  "byte_class b = (if b < 0x80 then 0 else if b < 0x90 then 1 else if b < 0xA0 then 9 else if b < 0xC0 then 7
     else if b < 0xC2 then 8 else if b < 0xE0 then 2 else if b = 0xE0 then 10 else if b = 0xED then 4
     else if b < 0xF0 then 3 else if b = 0xF0 then 11 else if b < 0xF4 then 6 else if b = 0xF4 then 5 else 8)"

lemma utf8d_class_list: "list_all (\<lambda>b. utf8d ! b = byte_class b) [0..<256]"
  by code_simp

lemma utf8d_class: "b < 256 \<Longrightarrow> utf8d ! b = byte_class b"
  using utf8d_class_list by (simp add: list_all_iff)

definition utf8_trans :: "nat \<Rightarrow> nat \<Rightarrow> nat" where
  "utf8_trans s b = utf8d ! (256 + s * 16 + byte_class b)"

definition utf8_row :: "nat \<Rightarrow> nat list" where
  "utf8_row s = take 12 (drop (256 + s * 16) utf8d)"

lemma byte_class_less: "byte_class b < 12"
  by (simp add: byte_class_def)

lemma utf8_trans_row: "s \<le> 8 \<Longrightarrow> utf8_trans s b = utf8_row s ! byte_class b"
  using byte_class_less [of b] by (simp add: utf8_trans_def utf8_row_def utf8d_def)

lemma utf8_rows:
  "utf8_row 0 = [0, 1, 2, 3, 5, 8, 7, 1, 1, 1, 4, 6]"
  "utf8_row 2 = [1, 0, 1, 1, 1, 1, 1, 0, 1, 0, 1, 1]"
  "utf8_row 3 = [1, 2, 1, 1, 1, 1, 1, 2, 1, 2, 1, 1]"
  "utf8_row 4 = [1, 1, 1, 1, 1, 1, 1, 2, 1, 1, 1, 1]"
  "utf8_row 5 = [1, 2, 1, 1, 1, 1, 1, 1, 1, 2, 1, 1]"
  "utf8_row 6 = [1, 1, 1, 1, 1, 1, 1, 3, 1, 3, 1, 1]"
  "utf8_row 7 = [1, 3, 1, 1, 1, 1, 1, 3, 1, 3, 1, 1]"
  "utf8_row 8 = [1, 3, 1, 1, 1, 1, 1, 1, 1, 1, 1, 1]"
  by (simp_all add: utf8_row_def utf8d_def)

lemma utf8_trans_0:
  "utf8_trans 0 b = (if b < 0x80 then 0 else if b < 0xC2 then 1 else if b < 0xE0 then 2
      else if b = 0xE0 then 4 else if b = 0xED then 5 else if b < 0xF0 then 3
      else if b = 0xF0 then 6 else if b < 0xF4 then 7 else if b = 0xF4 then 8 else 1)"
  by (simp add: utf8_trans_row utf8_rows byte_class_def)

lemma utf8_trans_cont:
  "utf8_trans 2 b = (if cont b then 0 else 1)"
  "utf8_trans 3 b = (if cont b then 2 else 1)"
  "utf8_trans 4 b = (if 0xA0 \<le> b \<and> b < 0xC0 then 2 else 1)"
  "utf8_trans 5 b = (if 0x80 \<le> b \<and> b < 0xA0 then 2 else 1)"
  "utf8_trans 6 b = (if 0x90 \<le> b \<and> b < 0xC0 then 3 else 1)"
  "utf8_trans 7 b = (if cont b then 3 else 1)"
  "utf8_trans 8 b = (if 0x80 \<le> b \<and> b < 0x90 then 3 else 1)"
  by (simp_all add: utf8_trans_row utf8_rows byte_class_def cont_def)

lemma utf8_run_step:
  "b < 256 \<Longrightarrow> utf8_run s (b # bs) \<longleftrightarrow> utf8_trans s b \<noteq> 1 \<and> utf8_run (utf8_trans s b) bs"
  by (simp add: utf8_trans_def utf8d_class Let_def)

lemma utf8_run_Nil: "utf8_run s [] \<longleftrightarrow> s = 0"
  by simp

lemma utf8_run_2: "list_all (\<lambda>b. b < 256) bs \<Longrightarrow>
    utf8_run 2 bs \<longleftrightarrow> (case bs of b # r \<Rightarrow> cont b \<and> utf8_run 0 r | _ \<Rightarrow> False)"
  by (cases bs) (simp_all add: utf8_run_step utf8_trans_cont del: utf8_run.simps(2))

text \<open>The remaining states, by what they require of the next byte.\<close>

lemma utf8_run_next:
  assumes "list_all (\<lambda>b. b < 256) bs" and "\<And>b. utf8_trans s b = (if P b then 2 else 1)" and "s \<noteq> 0"
  shows "utf8_run s bs \<longleftrightarrow> (case bs of b # c # r \<Rightarrow> P b \<and> cont c \<and> utf8_run 0 r | _ \<Rightarrow> False)"
  using assms by (cases bs) (simp_all add: utf8_run_step utf8_run_2 del: utf8_run.simps(2) split: list.splits)

lemma utf8_run_3: "list_all (\<lambda>b. b < 256) bs \<Longrightarrow>
    utf8_run 3 bs \<longleftrightarrow> (case bs of b # c # r \<Rightarrow> cont b \<and> cont c \<and> utf8_run 0 r | _ \<Rightarrow> False)"
  by (rule utf8_run_next) (simp_all add: utf8_trans_cont)

lemma utf8_run_next2:
  assumes "list_all (\<lambda>b. b < 256) bs" and "\<And>b. utf8_trans s b = (if P b then 3 else 1)" and "s \<noteq> 0"
  shows "utf8_run s bs \<longleftrightarrow>
    (case bs of b # c # d # r \<Rightarrow> P b \<and> cont c \<and> cont d \<and> utf8_run 0 r | _ \<Rightarrow> False)"
  using assms by (cases bs) (simp_all add: utf8_run_step utf8_run_3 del: utf8_run.simps(2) split: list.splits)

lemmas utf8_run_states =
  utf8_run_2 utf8_run_3
  utf8_run_next [OF _ utf8_trans_cont(3)] utf8_run_next [OF _ utf8_trans_cont(4)]
  utf8_run_next2 [OF _ utf8_trans_cont(5)] utf8_run_next2 [OF _ utf8_trans_cont(6)]
  utf8_run_next2 [OF _ utf8_trans_cont(7)]

lemma utf8_run_1: "a < 0x80 \<Longrightarrow> utf8_run 0 (a # r) \<longleftrightarrow> utf8_run 0 r"
  by (simp add: utf8_run_step utf8_trans_0 del: utf8_run.simps(2))

lemma utf8_run_wf: "list_all (\<lambda>b. b < 256) bs \<Longrightarrow> utf8_run 0 bs \<longleftrightarrow> wf_utf8 bs"
proof (induction bs rule: wf_utf8.induct)
  case (2 a r)
  then have a: "a < 256" and r: "list_all (\<lambda>b. b < 256) r" by auto
  consider "a < 0x80" | "0x80 \<le> a" "a < 0xC2" | "0xC2 \<le> a" "a < 0xE0" | "0xE0 \<le> a" "a < 0xF0"
    | "0xF0 \<le> a" "a < 0xF5" | "0xF5 \<le> a" by linarith
  then show ?case
  proof cases
    case 1
    then show ?thesis using 2(1) r by (simp add: utf8_run_1 del: utf8_run.simps(2))
  next
    case 3
    then show ?thesis using 2(2) r
      by (cases r) (simp_all add: utf8_run_step [OF a] utf8_trans_0 utf8_run_2 del: utf8_run.simps(2))
  next
    case 4
    then show ?thesis using 2(3) r
      by (auto simp add: utf8_run_step [OF a] utf8_trans_0 utf8_run_states simp del: utf8_run.simps(2)
          split: list.split)
  next
    case 5
    then show ?thesis using 2(4) r
      by (auto simp add: utf8_run_step [OF a] utf8_trans_0 utf8_run_states simp del: utf8_run.simps(2)
          split: list.split)
  qed (simp_all add: utf8_run_step [OF a] utf8_trans_0 del: utf8_run.simps(2))
qed simp

lemma map_byte_of_small: "list_all (\<lambda>b. b < 256) (map byte_of s)"
  by (simp add: list_all_iff)

lemma validate_wf: "validate s \<longleftrightarrow> wf_utf8 (map byte_of s)"
  unfolding validate_def validator_decode_run
  by (simp add: utf8_run_wf map_byte_of_small utf8_accept_def)

subsection \<open>Well-formed means: the encoding of some scalar values\<close>

lemma digit64: "w < 64 \<Longrightarrow> (x * 64 + w) mod 64 = w" "w < 64 \<Longrightarrow> (x * 64 + w) div 64 = x" for w x :: nat
  by simp_all

lemma utf8_bytes_2:
  assumes "2 \<le> u" "u < 32" "v < 64"
  shows "scalar (u * 64 + v)" "utf8_bytes (u * 64 + v) = [0xC0 + u, 0x80 + v]"
  using assms by (auto simp: scalar_def utf8_bytes_def)

lemma utf8_bytes_3:
  assumes "u < 16" "v < 64" "w < 64" "u = 0 \<Longrightarrow> 32 \<le> v" "u = 13 \<Longrightarrow> v < 32"
  shows "scalar ((u * 64 + v) * 64 + w)" "utf8_bytes ((u * 64 + v) * 64 + w) = [0xE0 + u, 0x80 + v, 0x80 + w]"
proof -
  define n where "n = (u * 64 + v) * 64 + w"
  have "u = 0 \<or> u = 13 \<or> (0 < u \<and> u < 13) \<or> 13 < u" by linarith
  then have r: "0x800 \<le> n" "n < 0x10000" "n < 0xD800 \<or> 0xE000 \<le> n"
    using assms unfolding n_def by auto
  have d: "n div 64 = u * 64 + v" "n mod 64 = w" "(u * 64 + v) mod 64 = v" "(u * 64 + v) div 64 = u"
    using assms unfolding n_def by (simp_all only: digit64)
  have "n div 4096 = u" using d(1,4) by (simp flip: div_mult2_eq [of n 64 64, simplified])
  then have "scalar n" "utf8_bytes n = [0xE0 + u, 0x80 + v, 0x80 + w]"
    using r d by (auto simp: scalar_def utf8_bytes_def)
  then show "scalar ((u * 64 + v) * 64 + w)"
    and "utf8_bytes ((u * 64 + v) * 64 + w) = [0xE0 + u, 0x80 + v, 0x80 + w]" by (simp_all add: n_def)
qed

lemma utf8_bytes_4:
  assumes "t < 5" "u < 64" "v < 64" "w < 64" "t = 0 \<Longrightarrow> 16 \<le> u" "t = 4 \<Longrightarrow> u < 16"
  shows "scalar (((t * 64 + u) * 64 + v) * 64 + w)"
    "utf8_bytes (((t * 64 + u) * 64 + v) * 64 + w) = [0xF0 + t, 0x80 + u, 0x80 + v, 0x80 + w]"
proof -
  define n where "n = ((t * 64 + u) * 64 + v) * 64 + w"
  have "t = 0 \<or> t = 4 \<or> (0 < t \<and> t < 4)" using assms(1) by linarith
  then have r: "0x10000 \<le> n" "n < 0x110000"
    using assms unfolding n_def by auto
  have d: "n div 64 = (t * 64 + u) * 64 + v" "n mod 64 = w" "((t * 64 + u) * 64 + v) mod 64 = v"
    "((t * 64 + u) * 64 + v) div 64 = t * 64 + u" "(t * 64 + u) mod 64 = u" "(t * 64 + u) div 64 = t"
    using assms unfolding n_def by (simp_all only: digit64)
  have q: "n div 4096 = t * 64 + u" using d(1,4) by (simp flip: div_mult2_eq [of n 64 64, simplified])
  have "n div 262144 = t" using q d(6) by (simp flip: div_mult2_eq [of n 4096 64, simplified])
  then have "scalar n" "utf8_bytes n = [0xF0 + t, 0x80 + u, 0x80 + v, 0x80 + w]"
    using r d q by (auto simp: scalar_def utf8_bytes_def)
  then show "scalar (((t * 64 + u) * 64 + v) * 64 + w)"
    and "utf8_bytes (((t * 64 + u) * 64 + v) * 64 + w) = [0xF0 + t, 0x80 + u, 0x80 + v, 0x80 + w]"
    by (simp_all add: n_def)
qed

text \<open>Every scalar value has six-bit digits in one of four shapes.\<close>

lemma scalar_digits:
  assumes s: "scalar c"
  obtains "c < 0x80"
  | u v where "c = u * 64 + v" "2 \<le> u" "u < 32" "v < 64"
  | u v w where "c = (u * 64 + v) * 64 + w" "u < 16" "v < 64" "w < 64" "u = 0 \<Longrightarrow> 32 \<le> v" "u = 13 \<Longrightarrow> v < 32"
  | t u v w where "c = ((t * 64 + u) * 64 + v) * 64 + w" "t < 5" "u < 64" "v < 64" "w < 64"
      "t = 0 \<Longrightarrow> 16 \<le> u" "t = 4 \<Longrightarrow> u < 16"
proof -
  consider "c < 0x80" | "0x80 \<le> c" "c < 0x800" | "0x800 \<le> c" "c < 0x10000" | "0x10000 \<le> c" by linarith
  then show ?thesis
  proof cases
    case 1
    then show ?thesis by (rule that(1))
  next
    case 2
    then show ?thesis using that(2) [of "c div 64" "c mod 64"] by simp
  next
    case 3
    define u v w where "u = c div 64 div 64" and "v = c div 64 mod 64" and "w = c mod 64"
    have c: "c = (u * 64 + v) * 64 + w"
      by (simp only: u_def v_def w_def div_mult_mod_eq)
    have c': "v < 64" "w < 64" by (simp_all add: v_def w_def)
    have "u < 16" using 3 c by (simp add: algebra_simps)
    moreover have "32 \<le> v" if "u = 0" using that 3(1) c c' by simp
    moreover have "v < 32" if "u = 13" using that s c c' by (auto simp: scalar_def)
    ultimately show ?thesis using that(3) c c' by blast
  next
    case 4
    define t u v w where "t = c div 64 div 64 div 64" and "u = c div 64 div 64 mod 64"
      and "v = c div 64 mod 64" and "w = c mod 64"
    have c: "c = ((t * 64 + u) * 64 + v) * 64 + w"
      by (simp only: t_def u_def v_def w_def div_mult_mod_eq)
    have c': "u < 64" "v < 64" "w < 64" by (simp_all add: u_def v_def w_def)
    have "c < 0x110000" using s by (auto simp: scalar_def)
    then have "t < 5" using c by (simp add: algebra_simps)
    moreover have "16 \<le> u" if "t = 0" using that 4(1) c c' by simp
    moreover have "u < 16" if "t = 4" using that \<open>c < 0x110000\<close> c c' by simp
    ultimately show ?thesis using that(4) c c' by blast
  qed
qed

lemma wf_utf8_bytes:
  assumes "scalar c"
  shows "wf_utf8 (utf8_bytes c @ r) \<longleftrightarrow> wf_utf8 r"
  using assms
proof (cases rule: scalar_digits)
  case 1
  then show ?thesis by (simp add: utf8_bytes_def)
next
  case (2 u v)
  then show ?thesis by (simp add: utf8_bytes_2 cont_def)
next
  case (3 u v w)
  have "utf8_bytes c = [0xE0 + u, 0x80 + v, 0x80 + w]"
    unfolding 3(1) by (rule utf8_bytes_3(2)) (fact 3)+
  with 3 show ?thesis by (auto simp add: cont_def)
next
  case (4 t u v w)
  have "utf8_bytes c = [0xF0 + t, 0x80 + u, 0x80 + v, 0x80 + w]"
    unfolding 4(1) by (rule utf8_bytes_4(2)) (fact 4)+
  with 4 show ?thesis by (auto simp add: cont_def)
qed

lemma wf_utf8_concat: "list_all scalar cs \<Longrightarrow> wf_utf8 (concat (map utf8_bytes cs))"
  by (induction cs) (simp_all add: wf_utf8_bytes)

definition encodes :: "nat list \<Rightarrow> bool" where
  "encodes bs \<longleftrightarrow> (\<exists>cs. list_all scalar cs \<and> bs = concat (map utf8_bytes cs))"

lemma encodes_Nil: "encodes []"
  unfolding encodes_def by (rule exI [of _ "[]"]) simp

lemma encodes_cons: "scalar c \<Longrightarrow> utf8_bytes c = p \<Longrightarrow> encodes r \<Longrightarrow> encodes (p @ r)"
  unfolding encodes_def by (metis concat.simps(2) list.map(2) list.pred_inject(2))

lemma cont_split: "cont b \<Longrightarrow> \<exists>v<64. b = 0x80 + v"
  unfolding cont_def by presburger

lemma wf_utf8_encodes: "wf_utf8 bs \<Longrightarrow> encodes bs"
proof (induction bs rule: wf_utf8.induct)
  case (2 a r)
  consider "a < 0x80" | "0x80 \<le> a" "a < 0xC2" | "0xC2 \<le> a" "a < 0xE0" | "0xE0 \<le> a" "a < 0xF0"
    | "0xF0 \<le> a" "a < 0xF5" | "0xF5 \<le> a" by linarith
  then show ?case
  proof cases
    case 1
    then have "scalar a" "utf8_bytes a = [a]" "encodes r"
      using "2.IH"(1) "2.prems" by (simp_all add: scalar_def utf8_bytes_def)
    then show ?thesis using encodes_cons [of a "[a]" r] by simp
  next
    case 3
    then obtain b r' where r: "r = b # r'" and b: "cont b" and w: "wf_utf8 r'"
      using "2.prems" by (cases r) auto
    obtain u v where "a = 0xC0 + u" "2 \<le> u" "u < 32" "b = 0x80 + v" "v < 64"
      using 3 cont_split [OF b] le_Suc_ex [of "0xC0" a] by auto
    moreover have "encodes r'" using "2.IH"(2) 3 r w by simp
    ultimately show ?thesis using encodes_cons [OF utf8_bytes_2, of u v r'] r by simp
  next
    case 4
    then obtain b c r' where r: "r = b # c # r'" and b: "cont b" "a = 0xE0 \<Longrightarrow> 0xA0 \<le> b" "a = 0xED \<Longrightarrow> b < 0xA0" "cont c"
        and w: "wf_utf8 r'"
      using "2.prems" by (auto simp: cont_def split: list.splits if_splits)
    obtain u v x where "a = 0xE0 + u" "u < 16" "b = 0x80 + v" "v < 64" "c = 0x80 + x" "x < 64"
      using 4 cont_split [OF b(1)] cont_split [OF b(4)] le_Suc_ex [of "0xE0" a] by auto
    moreover have "encodes r'" using "2.IH"(3) 4 r w by simp
    ultimately show ?thesis using encodes_cons [OF utf8_bytes_3, of u v x r'] r b(2,3) by simp
  next
    case 5
    then obtain b c d r' where r: "r = b # c # d # r'" and b: "cont b" "a = 0xF0 \<Longrightarrow> 0x90 \<le> b"
        "a = 0xF4 \<Longrightarrow> b < 0x90" "cont c" "cont d" and w: "wf_utf8 r'"
      using "2.prems" by (auto simp: cont_def split: list.splits if_splits)
    obtain t u v x where "a = 0xF0 + t" "t < 5" "b = 0x80 + u" "u < 64" "c = 0x80 + v" "v < 64"
        "d = 0x80 + x" "x < 64"
      using 5 cont_split [OF b(1)] cont_split [OF b(4)] cont_split [OF b(5)] le_Suc_ex [of "0xF0" a] by auto
    moreover have "encodes r'" using "2.IH"(4) 5 r w by simp
    ultimately show ?thesis using encodes_cons [OF utf8_bytes_4, of t u v x r'] r b(2,3) by simp
  qed (use "2.prems" in auto)
qed (simp add: encodes_Nil)

text \<open>C25: websocketpp's UTF-8 validator accepts a text exactly when it is the RFC 3629 encoding of a
  sequence of Unicode scalar values: no overlong form, surrogate, truncated or out-of-range sequence
  passes, and nothing well formed is refused.\<close>

theorem validate_utf8: "validate s \<longleftrightarrow> (\<exists>cs. utf8_text s cs)"
  unfolding validate_wf utf8_text_def
  using wf_utf8_encodes [of "map byte_of s"] wf_utf8_concat by (auto simp: encodes_def)

subsection \<open>The decoder of the subtitle line\<close>

text \<open>
  \<^verbatim>\<open>DecodeUtf8(text, &offset, &codepoint)\<close>: the new offset, and the code point on success. The register
  is 32 bits wide and holds at most 21 significant bits, so natural numbers do not lose a wrap-around.
\<close>

fun decode_tail :: "string \<Rightarrow> nat \<Rightarrow> nat list \<Rightarrow> nat \<Rightarrow> nat option" where
  "decode_tail text start [] value = Some value"
| "decode_tail text start (index # rest) value = (let next = byte_of (text ! (start + index)) in
     if next AND 0xC0 \<noteq> 0x80 then None
     else decode_tail text start rest (push_bit 6 value OR (next AND 0x3F)))"

definition decode_utf8 :: "string \<Rightarrow> nat \<Rightarrow> nat \<times> nat option" where
  "decode_utf8 text start = (let lead = byte_of (text ! start) in
     if lead AND 0xE0 \<noteq> 0xC0 \<and> lead AND 0xF0 \<noteq> 0xE0 \<and> lead AND 0xF8 \<noteq> 0xF0 \<and> 0x80 \<le> lead
     then (start + 1, None)
     else let
       (count, first) = (if lead AND 0xE0 = 0xC0 then (2, lead AND 0x1F)
                         else if lead AND 0xF0 = 0xE0 then (3, lead AND 0x0F)
                         else if lead AND 0xF8 = 0xF0 then (4, lead AND 0x07) else (1, lead)) in
     if length text < start + count then (length text, None)
     else case decode_tail text start [1..<count] first of
       None \<Rightarrow> (start + 1, None)
     | Some value \<Rightarrow>
        if (count = 2 \<and> value < 0x80) \<or> (count = 3 \<and> value < 0x800) \<or> (count = 4 \<and> value < 0x10000) \<or>
           0x10FFFF < value \<or> (0xD800 \<le> value \<and> value \<le> 0xDFFF)
        then (start + 1, None)
        else (start + count, Some value))"

lemma and_mask_range: "(a::nat) AND push_bit k (mask m) = 2 ^ k * (a div 2 ^ k mod 2 ^ m)"
proof -
  have "a AND push_bit k (mask m) = push_bit k (take_bit m (drop_bit k a))"
    by (rule bit_eqI) (auto simp: bit_simps)
  then show ?thesis by (simp add: push_bit_eq_mult take_bit_eq_mod drop_bit_eq_div)
qed

lemma div_range:
  assumes "0 < (k :: nat)"
  shows "k * (a div k) = k * q \<longleftrightarrow> k * q \<le> a \<and> a < k * Suc q"
proof
  assume "k * (a div k) = k * q"
  then have "a div k = q" using assms by simp
  then show "k * q \<le> a \<and> a < k * Suc q"
    using assms dividend_less_times_div [of k a] by auto
next
  assume "k * q \<le> a \<and> a < k * Suc q"
  then show "k * (a div k) = k * q" using div_nat_eqI [of k q a] by simp
qed

lemma utf8_masks:
  assumes "(a::nat) < 256"
  shows "a AND 0xE0 = 0xC0 \<longleftrightarrow> 0xC0 \<le> a \<and> a < 0xE0"
    and "a AND 0xF0 = 0xE0 \<longleftrightarrow> 0xE0 \<le> a \<and> a < 0xF0"
    and "a AND 0xF8 = 0xF0 \<longleftrightarrow> 0xF0 \<le> a \<and> a < 0xF8"
    and "a AND 0xC0 = 0x80 \<longleftrightarrow> 0x80 \<le> a \<and> a < 0xC0"
    and "a AND 0x1F = a mod 32" "a AND 0x0F = a mod 16" "a AND 0x07 = a mod 8" "a AND 0x3F = a mod 64"
proof -
  have "a div 32 < 8" "a div 16 < 16" "a div 8 < 32" "a div 64 < 4" using assms by linarith+
  then have m: "a AND 0xE0 = 32 * (a div 32)" "a AND 0xF0 = 16 * (a div 16)" "a AND 0xF8 = 8 * (a div 8)"
    "a AND 0xC0 = 64 * (a div 64)"
    using and_mask_range [of a 5 3] and_mask_range [of a 4 4] and_mask_range [of a 3 5] and_mask_range [of a 6 2]
    by (simp_all add: mask_eq_exp_minus_1 push_bit_eq_mult)
  show "a AND 0xE0 = 0xC0 \<longleftrightarrow> 0xC0 \<le> a \<and> a < 0xE0" unfolding m using div_range [of 32 a 6] by simp
  show "a AND 0xF0 = 0xE0 \<longleftrightarrow> 0xE0 \<le> a \<and> a < 0xF0" unfolding m using div_range [of 16 a 14] by simp
  show "a AND 0xF8 = 0xF0 \<longleftrightarrow> 0xF0 \<le> a \<and> a < 0xF8" unfolding m using div_range [of 8 a 30] by simp
  show "a AND 0xC0 = 0x80 \<longleftrightarrow> 0x80 \<le> a \<and> a < 0xC0" unfolding m using div_range [of 64 a 2] by simp
  show "a AND 0x1F = a mod 32" "a AND 0x0F = a mod 16" "a AND 0x07 = a mod 8" "a AND 0x3F = a mod 64"
    using and_mask_range [of a 0 5] and_mask_range [of a 0 4] and_mask_range [of a 0 3] and_mask_range [of a 0 6]
    by (simp_all add: mask_eq_exp_minus_1)
qed

lemma or_low_bits: "w < 64 \<Longrightarrow> push_bit 6 v OR w = v * 64 + (w :: nat)"
proof -
  assume w: "w < 64"
  define x where "x = v * 64 + w"
  have "x div 64 = v" "x mod 64 = w"
    using w by (simp_all add: x_def)
  then have "drop_bit 6 x = v" "take_bit 6 x = w"
    by (simp_all add: drop_bit_eq_div take_bit_eq_mod)
  moreover have "push_bit 6 (drop_bit 6 x) OR take_bit 6 x = x"
    by (rule bit_eqI) (auto simp: bit_simps)
  ultimately have "push_bit 6 v OR w = x" by simp
  then show ?thesis unfolding x_def .
qed


lemma decode_tail_step:
  "decode_tail text start (i # is) value =
     (if cont (byte_of (text ! (start + i)))
      then decode_tail text start is (value * 64 + (byte_of (text ! (start + i)) - 0x80)) else None)"
proof -
  define b where "b = byte_of (text ! (start + i))"
  have "b < 256" by (simp add: b_def)
  moreover have "b mod 64 = b - 0x80" if "cont b"
    using that mod_nat_eqI [of "b - 0x80" 64 b] by (auto simp: cont_def)
  moreover have "push_bit 6 value OR (b - 0x80) = value * 64 + (b - 0x80)" if "cont b"
    using that by (intro or_low_bits) (auto simp: cont_def)
  ultimately show ?thesis
    by (simp add: utf8_masks Let_def flip: b_def) (auto simp add: cont_def)
qed

declare decode_tail.simps(2) [simp del]

lemma index_lists: "[Suc 0..<2] = [1]" "[Suc 0..<3] = [1, 2]" "[Suc 0..<4] = [1, 2, 3]"
  by (simp_all add: upt_rec)

lemma decode_utf8_ranges:
  "decode_utf8 text start = (let lead = byte_of (text ! start) in
     if lead < 0x80 then (if length text < start + 1 then (length text, None) else (start + 1, Some lead))
     else if lead < 0xC0 \<or> 0xF8 \<le> lead then (start + 1, None)
     else let count = (if lead < 0xE0 then 2 else if lead < 0xF0 then 3 else 4);
              first = (if lead < 0xE0 then lead - 0xC0 else if lead < 0xF0 then lead - 0xE0 else lead - 0xF0) in
     if length text < start + count then (length text, None)
     else case decode_tail text start [1..<count] first of
       None \<Rightarrow> (start + 1, None)
     | Some value \<Rightarrow> if scalar value \<and> (if count = 2 then 0x80 else if count = 3 then 0x800 else 0x10000) \<le> value
         then (start + count, Some value) else (start + 1, None))"
proof -
  define a where "a = byte_of (text ! start)"
  have a: "a < 256" by (simp add: a_def)
  have m: "0xC0 \<le> a \<Longrightarrow> a < 0xE0 \<Longrightarrow> a mod 32 = a - 0xC0" "0xE0 \<le> a \<Longrightarrow> a < 0xF0 \<Longrightarrow> a mod 16 = a - 0xE0"
    "0xF0 \<le> a \<Longrightarrow> a < 0xF8 \<Longrightarrow> a mod 8 = a - 0xF0"
    using mod_nat_eqI [of "a - 0xC0" 32 a] mod_nat_eqI [of "a - 0xE0" 16 a] mod_nat_eqI [of "a - 0xF0" 8 a]
    by auto
  consider "a < 0x80" | "0x80 \<le> a" "a < 0xC0" | "0xC0 \<le> a" "a < 0xE0" | "0xE0 \<le> a" "a < 0xF0"
    | "0xF0 \<le> a" "a < 0xF8" | "0xF8 \<le> a" by linarith
  then show ?thesis
    unfolding decode_utf8_def a_def [symmetric] Let_def
    by cases (auto simp: utf8_masks [OF a] m scalar_def split: option.split)
qed

text \<open>Success means that the bytes consumed are exactly the encoding of the value returned.\<close>

lemma take_drop_nth:
  "n < length xs \<Longrightarrow> take 1 (drop n xs) = [xs ! n]"
  "n + 1 < length xs \<Longrightarrow> take 2 (drop n xs) = [xs ! n, xs ! (n + 1)]"
  "n + 2 < length xs \<Longrightarrow> take 3 (drop n xs) = [xs ! n, xs ! (n + 1), xs ! (n + 2)]"
  "n + 3 < length xs \<Longrightarrow> take 4 (drop n xs) = [xs ! n, xs ! (n + 1), xs ! (n + 2), xs ! (n + 3)]"
  by (rule nth_equalityI; auto simp: nth_Cons' less_Suc_eq numeral_eq_Suc)+

lemma decode_utf8_Some:
  assumes "decode_utf8 text start = (stop, Some c)" and "start < length text"
  shows "scalar c" and "start < stop" and "stop \<le> length text"
    and "map byte_of (take (stop - start) (drop start text)) = utf8_bytes c"
proof -
  define a b1 b2 b3 where "a = byte_of (text ! start)" and "b1 = byte_of (text ! Suc start)"
    and "b2 = byte_of (text ! Suc (Suc start))" and "b3 = byte_of (text ! (start + 3))"
  note abs = a_def [symmetric] b1_def [symmetric] b2_def [symmetric] b3_def [symmetric]
  have "a < 0x80 \<or> (0xC0 \<le> a \<and> a < 0xE0) \<or> (0xE0 \<le> a \<and> a < 0xF0) \<or> (0xF0 \<le> a \<and> a < 0xF8)"
    using assms unfolding decode_utf8_ranges abs Let_def by (auto split: if_splits)
  then have "scalar c \<and> start < stop \<and> stop \<le> length text \<and>
      map byte_of (take (stop - start) (drop start text)) = utf8_bytes c"
  proof (elim disjE conjE)
    assume "a < 0x80"
    then show ?thesis using assms unfolding decode_utf8_ranges abs Let_def
      by (auto simp: scalar_def utf8_bytes_def take_drop_nth take_drop_nth(1) [unfolded One_nat_def] abs
          split: if_splits)
  next
    assume a: "0xC0 \<le> a" "a < 0xE0"
    then have d: "start + 2 \<le> length text" "cont b1" "stop = start + 2" "scalar c" "0x80 \<le> c"
        "c = (a - 0xC0) * 64 + (b1 - 0x80)"
      using assms unfolding decode_utf8_ranges abs Let_def
      by (auto simp: decode_tail_step index_lists abs split: if_splits)
    obtain u v where "a = 0xC0 + u" "b1 = 0x80 + v" "u < 32" "v < 64"
      using a cont_split [OF d(2)] le_Suc_ex [of "0xC0" a] by auto
    then show ?thesis using d utf8_bytes_2 [of u v] by (auto simp: take_drop_nth abs)
  next
    assume a: "0xE0 \<le> a" "a < 0xF0"
    then have d: "start + 3 \<le> length text" "cont b1" "cont b2" "stop = start + 3" "scalar c" "0x800 \<le> c"
        "c = ((a - 0xE0) * 64 + (b1 - 0x80)) * 64 + (b2 - 0x80)"
      using assms unfolding decode_utf8_ranges abs Let_def
      by (auto simp: decode_tail_step index_lists abs split: if_splits)
    obtain u v w where w: "a = 0xE0 + u" "b1 = 0x80 + v" "b2 = 0x80 + w" "u < 16" "v < 64" "w < 64"
      using a cont_split [OF d(2)] cont_split [OF d(3)] le_Suc_ex [of "0xE0" a] by auto
    then have "u = 0 \<Longrightarrow> 32 \<le> v" "u = 13 \<Longrightarrow> v < 32"
      using d by (auto simp: scalar_def)
    with w d(7) have "utf8_bytes c = [a, b1, b2]" using utf8_bytes_3(2) [of u v w] by simp
    then show ?thesis using d by (auto simp: take_drop_nth abs)
  next
    assume a: "0xF0 \<le> a" "a < 0xF8"
    then have d: "start + 4 \<le> length text" "cont b1" "cont b2" "cont b3" "stop = start + 4" "scalar c" "0x10000 \<le> c"
        "c = (((a - 0xF0) * 64 + (b1 - 0x80)) * 64 + (b2 - 0x80)) * 64 + (b3 - 0x80)"
      using assms unfolding decode_utf8_ranges abs Let_def
      by (auto simp: decode_tail_step index_lists abs split: if_splits)
    obtain t u v w where w: "a = 0xF0 + t" "b1 = 0x80 + u" "b2 = 0x80 + v" "b3 = 0x80 + w" "t < 8" "u < 64" "v < 64" "w < 64"
      using a cont_split [OF d(2)] cont_split [OF d(3)] cont_split [OF d(4)] le_Suc_ex [of "0xF0" a] by auto
    have "c < 0x110000" using d(6) by (auto simp: scalar_def)
    with w d(7,8) have "t < 5" "t = 0 \<Longrightarrow> 16 \<le> u" "t = 4 \<Longrightarrow> u < 16" by auto
    with w d(8) have "utf8_bytes c = [a, b1, b2, b3]" using utf8_bytes_4(2) [of t u v w] by simp
    then show ?thesis using d by (auto simp: take_drop_nth abs)
  qed
  then show "scalar c" "start < stop" "stop \<le> length text"
    "map byte_of (take (stop - start) (drop start text)) = utf8_bytes c" by auto
qed

lemma decode_utf8_progress:
  "start < length text \<Longrightarrow> start < fst (decode_utf8 text start) \<and> fst (decode_utf8 text start) \<le> length text"
  unfolding decode_utf8_ranges Let_def by (auto split: option.split)

lemma decode_utf8_next:
  "(n, r) = decode_utf8 s start \<Longrightarrow> start < length s \<Longrightarrow> length s - n < length s - start"
  using decode_utf8_progress [of start s] by (cases "decode_utf8 s start") auto

text \<open>Conversely an encoded scalar value is decoded, whatever follows it.\<close>

lemma decode_utf8_bytes:
  assumes "map byte_of (drop start text) = utf8_bytes c @ r" and "scalar c"
  shows "decode_utf8 text start = (start + length (utf8_bytes c), Some c)"
proof -
  have len: "start + length (utf8_bytes c) \<le> length text"
    using arg_cong [OF assms(1), of length] by (cases "utf8_bytes c") (auto simp: utf8_bytes_def split: if_splits)
  have nth: "byte_of (text ! (start + i)) = utf8_bytes c ! i" if "i < length (utf8_bytes c)" for i
    using arg_cong [OF assms(1), of "\<lambda>l. l ! i"] that len by (simp add: nth_append)
  from assms(2) show ?thesis
  proof (cases rule: scalar_digits)
    case 1
    then show ?thesis using nth [of 0] len
      by (simp add: utf8_bytes_def decode_utf8_ranges Let_def)
  next
    case (2 u v)
    have b: "utf8_bytes c = [0xC0 + u, 0x80 + v]" unfolding 2(1) by (rule utf8_bytes_2(2)) (fact 2)+
    show ?thesis using nth [of 0] nth [of 1] len assms(2) 2 unfolding b
      by (simp add: decode_utf8_ranges Let_def decode_tail_step cont_def index_lists)
  next
    case (3 u v w)
    have b: "utf8_bytes c = [0xE0 + u, 0x80 + v, 0x80 + w]" unfolding 3(1) by (rule utf8_bytes_3(2)) (fact 3)+
    have "0x800 \<le> c" using 3 by (cases "u = 0") auto
    then show ?thesis using nth [of 0] nth [of 1] nth [of 2] len assms(2) 3(1-4) unfolding b
      by (simp add: decode_utf8_ranges Let_def decode_tail_step cont_def index_lists)
  next
    case (4 t u v w)
    have b: "utf8_bytes c = [0xF0 + t, 0x80 + u, 0x80 + v, 0x80 + w]" unfolding 4(1) by (rule utf8_bytes_4(2)) (fact 4)+
    have "0x10000 \<le> c" using 4 by (cases "t = 0") auto
    then show ?thesis using nth [of 0] nth [of 1] nth [of 2] nth [of 3] len assms(2) 4(1-5) unfolding b
      by (simp add: decode_utf8_ranges Let_def decode_tail_step cont_def index_lists)
  qed
qed

subsection \<open>Text the font can draw\<close>

text \<open>\<open>has_glyph\<close> stands for \<^verbatim>\<open>HasGlyph(font, codepoint)\<close>, which asks LVGL's font engine.\<close>

definition drawable :: "(nat \<Rightarrow> bool) \<Rightarrow> nat \<Rightarrow> bool" where
  "drawable has_glyph codepoint \<longleftrightarrow>
     codepoint = byte_of (CHR 0x0A) \<or> (0x20 \<le> codepoint \<and> has_glyph codepoint)"

function supported_loop :: "(nat \<Rightarrow> bool) \<Rightarrow> string \<Rightarrow> nat \<Rightarrow> string" where
  "supported_loop has_glyph text offset =
    (if offset < length text then
       (case decode_utf8 text offset of
          (next, None) \<Rightarrow> supported_loop has_glyph text next
        | (next, Some codepoint) \<Rightarrow>
            (if drawable has_glyph codepoint then take (next - offset) (drop offset text) else []) @
            supported_loop has_glyph text next)
     else [])"
  by pat_completeness auto
termination
  by (relation "measure (\<lambda>(_, text, offset). length text - offset)") (auto dest: decode_utf8_next)

declare supported_loop.simps [simp del]

definition supported_text :: "(nat \<Rightarrow> bool) \<Rightarrow> string \<Rightarrow> string" where
  "supported_text has_glyph text = supported_loop has_glyph text 0"

lemma supported_loop_valid:
  "\<exists>cs. list_all scalar cs \<and> list_all (drawable g) cs \<and>
     map byte_of (supported_loop g s offset) = concat (map utf8_bytes cs)"
proof (induction g s offset rule: supported_loop.induct)
  case (1 g s offset)
  show ?case
  proof (cases "offset < length s")
    case False
    then show ?thesis by (intro exI [of _ "[]"]) (simp add: supported_loop.simps)
  next
    case True
    obtain nxt r where d: "decode_utf8 s offset = (nxt, r)" by fastforce
    show ?thesis
    proof (cases r)
      case None
      then show ?thesis using 1(1) [OF True d [symmetric]] True d by (subst supported_loop.simps) simp
    next
      case (Some c)
      obtain cs where cs: "list_all scalar cs" "list_all (drawable g) cs"
        "map byte_of (supported_loop g s nxt) = concat (map utf8_bytes cs)"
        using 1(2) [OF True d [symmetric] Some] by blast
      note s = decode_utf8_Some [OF d [unfolded Some] True]
      show ?thesis
        using cs s True d Some
        by (intro exI [of _ "if drawable g c then c # cs else cs"], subst supported_loop.simps) simp
    qed
  qed
qed

lemma supported_loop_filter:
  "list_all scalar cs \<Longrightarrow> offset \<le> length s \<Longrightarrow> map byte_of (drop offset s) = concat (map utf8_bytes cs) \<Longrightarrow>
   map byte_of (supported_loop g s offset) = concat (map utf8_bytes (filter (drawable g) cs))"
proof (induction cs arbitrary: offset)
  case Nil
  then show ?case by (subst supported_loop.simps) auto
next
  case (Cons c cs)
  have d: "decode_utf8 s offset = (offset + length (utf8_bytes c), Some c)"
    using Cons.prems by (intro decode_utf8_bytes [where r = "concat (map utf8_bytes cs)"]) simp_all
  have o: "offset < length s"
    using Cons.prems(3) by (cases "offset < length s") (auto simp: utf8_bytes_def split: if_splits)
  note s = decode_utf8_Some [OF d o]
  have "map byte_of (drop (offset + length (utf8_bytes c)) s) = concat (map utf8_bytes cs)"
    using arg_cong [OF Cons.prems(3), of "drop (length (utf8_bytes c))"]
    by (simp add: drop_map add.commute)
  then have "map byte_of (supported_loop g s (offset + length (utf8_bytes c))) =
      concat (map utf8_bytes (filter (drawable g) cs))"
    using Cons.prems s(3) by (intro Cons.IH) simp_all
  then show ?case using o d s(4) by (subst supported_loop.simps) simp
qed

text \<open>Whatever bytes it is given, the label s \<open>SupportedText\<close> returns is valid UTF-8 and holds
  drawable code points only.\<close>

theorem supported_text_valid:
  "\<exists>cs. utf8_text (supported_text g s) cs \<and> list_all (drawable g) cs"
  using supported_loop_valid [of g s 0] by (auto simp: supported_text_def utf8_text_def)

text \<open>On valid UTF-8 the routine keeps exactly the drawable code points, in their order.\<close>

theorem supported_text_filter:
  assumes "utf8_text s cs"
  shows "utf8_text (supported_text g s) (filter (drawable g) cs)"
  using assms supported_loop_filter [of cs 0 s g]
  by (auto simp: utf8_text_def supported_text_def list_all_iff)

theorem supported_text_filter_witness:
  "utf8_text (supported_text (\<lambda>c. c \<noteq> 0xE9) [CHR ''A'', CHR 0xC3, CHR 0xA9, CHR ''!''])
     (filter (drawable (\<lambda>c. c \<noteq> 0xE9)) [0x41, 0xE9, 0x21])"
  by (rule supported_text_filter) (simp add: utf8_text_def scalar_def utf8_bytes_def byte_of_def)

subsection \<open>The subtitle window\<close>

primrec cut_back :: "string \<Rightarrow> nat \<Rightarrow> nat" where
  "cut_back text 0 = 0"
| "cut_back text (Suc e) =
    (if byte_of (text ! Suc e) AND 0xC0 = 0x80 then cut_back text e else Suc e)"

definition utf8_cut :: "string \<Rightarrow> nat \<Rightarrow> nat" where
  "utf8_cut text limit = (let e = min (length text) limit in
     if e \<noteq> length text then cut_back text e else e)"

definition append_subtitle :: "string \<Rightarrow> string \<Rightarrow> string" where
  "append_subtitle subtitle delta = (let s = subtitle @ delta in
     if 126 < length s then dropWhile (\<lambda>c. byte_of c AND 0xC0 = 0x80) (drop (length s - 126) s) else s)"

definition subtitle_lines :: "string \<Rightarrow> string \<times> string" where
  "subtitle_lines subtitle = (let first = utf8_cut subtitle 63;
     second = utf8_cut (drop first subtitle) 63 in
     (take first subtitle, take second (drop first subtitle)))"

lemma utf8_bytes_cont:
  assumes "scalar c" and "0 < i" and "i < length (utf8_bytes c)"
  shows "cont (utf8_bytes c ! i)"
proof -
  have "i = 1 \<or> i = 2 \<or> i = 3" using assms by (auto simp: utf8_bytes_def split: if_splits)
  then show ?thesis using assms by (auto simp: utf8_bytes_def cont_def split: if_splits)
qed

lemma encodes_split:
  assumes "encodes bs" and "p \<le> length bs" and "p = length bs \<or> \<not> cont (bs ! p)"
  shows "encodes (take p bs) \<and> encodes (drop p bs)"
proof -
  obtain cs where cs: "list_all scalar cs" "bs = concat (map utf8_bytes cs)"
    using assms(1) by (auto simp: encodes_def)
  from cs assms(2,3) show ?thesis
  proof (induction cs arbitrary: bs p)
    case (Cons c cs)
    define n where "n = length (utf8_bytes c)"
    define r where "r = concat (map utf8_bytes cs)"
    have bs: "bs = utf8_bytes c @ r" and er: "encodes r"
      using Cons.prems by (auto simp: r_def encodes_def)
    show ?case
    proof (cases "p < n")
      case True
      have "p = 0"
      proof (rule ccontr)
        assume "p \<noteq> 0"
        then have "cont (bs ! p)"
          using True utf8_bytes_cont [of c p] Cons.prems(1) by (simp add: bs n_def nth_append)
        then show False using Cons.prems(4) True by (simp add: bs n_def)
      qed
      then show ?thesis using Cons.prems(1) er encodes_Nil encodes_cons [of c "utf8_bytes c" r] by (simp add: bs)
    next
      case False
      have "encodes (take (p - n) r) \<and> encodes (drop (p - n) r)"
        using Cons.IH [of r "p - n"] Cons.prems False
        by (auto simp: r_def [symmetric] bs n_def nth_append)
      moreover have "take p bs = utf8_bytes c @ take (p - n) r" "drop p bs = drop (p - n) r"
        using False by (simp_all add: bs n_def)
      ultimately show ?thesis using Cons.prems(1) encodes_cons [of c "utf8_bytes c"] by simp
    qed
  qed (simp add: encodes_Nil)
qed

lemma cut_back_le: "cut_back s e \<le> e"
  by (induction e) auto

lemma cut_back_stop: "cut_back text e = 0 \<or> \<not> cont (byte_of (text ! cut_back text e))"
  by (induction e) (auto simp: utf8_masks cont_def)

lemma utf8_cut_le: "utf8_cut s limit \<le> length s" "utf8_cut s limit \<le> limit"
  using cut_back_le [of s limit] cut_back_le [of s "length s"] by (auto simp: utf8_cut_def Let_def min_def)

definition valid_utf8 :: "string \<Rightarrow> bool" where
  "valid_utf8 s \<longleftrightarrow> (\<exists>cs. utf8_text s cs)"

lemma valid_utf8_encodes: "valid_utf8 s \<longleftrightarrow> encodes (map byte_of s)"
  by (auto simp: valid_utf8_def utf8_text_def encodes_def)

lemma valid_split:
  assumes "valid_utf8 s" and "p = 0 \<or> p = length s \<or> (p < length s \<and> \<not> cont (byte_of (s ! p)))"
  shows "valid_utf8 (take p s)" "valid_utf8 (drop p s)"
proof -
  have "valid_utf8 (take p s) \<and> valid_utf8 (drop p s)"
  proof (cases "p = 0")
    case True
    then show ?thesis using assms(1) by (simp add: valid_utf8_encodes encodes_Nil)
  next
    case False
    then show ?thesis using assms encodes_split [of "map byte_of s" p]
      by (auto simp: valid_utf8_encodes take_map drop_map)
  qed
  then show "valid_utf8 (take p s)" "valid_utf8 (drop p s)" by auto
qed

lemma valid_append: "valid_utf8 s \<Longrightarrow> valid_utf8 t \<Longrightarrow> valid_utf8 (s @ t)"
  unfolding valid_utf8_def utf8_text_def
  by (metis concat_append list_all_append map_append)

lemma utf8_cut_valid:
  assumes "valid_utf8 s"
  shows "valid_utf8 (take (utf8_cut s limit) s)" "valid_utf8 (drop (utf8_cut s limit) s)"
proof -
  have "utf8_cut s limit = 0 \<or> utf8_cut s limit = length s \<or>
      (utf8_cut s limit < length s \<and> \<not> cont (byte_of (s ! utf8_cut s limit)))"
    using cut_back_stop [of s limit] cut_back_le [of s limit]
    by (auto simp: utf8_cut_def Let_def min_def split: if_splits)
  then show "valid_utf8 (take (utf8_cut s limit) s)" "valid_utf8 (drop (utf8_cut s limit) s)"
    using valid_split [OF assms] by auto
qed

lemma dropWhile_drop: "\<exists>n. dropWhile P s = drop n s \<and> (n = length s \<or> (n < length s \<and> \<not> P (s ! n)))"
proof (induction s)
  case (Cons a s)
  then obtain n where n: "dropWhile P s = drop n s" "n = length s \<or> (n < length s \<and> \<not> P (s ! n))" by blast
  show ?case
  proof (cases "P a")
    case True
    then show ?thesis using n by (intro exI [of _ "Suc n"]) auto
  qed (auto intro: exI [of _ 0])
qed simp

lemma append_subtitle_valid:
  assumes "valid_utf8 subtitle" "valid_utf8 delta"
  shows "valid_utf8 (append_subtitle subtitle delta)"
proof -
  define s where "s = subtitle @ delta"
  have v: "valid_utf8 s" using assms by (simp add: s_def valid_append)
  define P where "P = (\<lambda>c. byte_of c AND 0xC0 = 0x80)"
  obtain n where n: "dropWhile P (drop (length s - 126) s) = drop n (drop (length s - 126) s)"
    "n = length s - (length s - 126) \<or> (n < length s - (length s - 126) \<and> \<not> P (drop (length s - 126) s ! n))"
    using dropWhile_drop [of P "drop (length s - 126) s"] by auto
  have "valid_utf8 (drop (length s - 126 + n) s)"
    using n(2) by (intro valid_split [OF v]) (auto simp: P_def utf8_masks cont_def)
  moreover have "dropWhile P (drop (length s - 126) s) = drop (length s - 126 + n) s"
    unfolding n(1) drop_drop by (simp only: add.commute)
  ultimately show ?thesis
    unfolding append_subtitle_def Let_def s_def [symmetric] P_def [symmetric] using v by auto
qed

lemma append_subtitle_length: "length (append_subtitle subtitle delta) \<le> 126"
proof -
  define s where "s = subtitle @ delta"
  have "length (dropWhile P (drop (length s - 126) s)) \<le> 126" for P
    using length_dropWhile_le [of P "drop (length s - 126) s"] by simp
  then show ?thesis by (simp add: append_subtitle_def Let_def del: drop_append flip: s_def)
qed

text \<open>The subtitle never splits a character: when the text so far and the new delta are valid UTF-8,
  the window kept is valid and at most 126 bytes, and so is each of the two lines shown, of at most 63
  bytes.\<close>

theorem subtitle_window:
  assumes "valid_utf8 subtitle" and "valid_utf8 delta"
  shows "valid_utf8 (append_subtitle subtitle delta) \<and> length (append_subtitle subtitle delta) \<le> 126 \<and>
    (case subtitle_lines (append_subtitle subtitle delta) of (first, second) \<Rightarrow>
       valid_utf8 first \<and> length first \<le> 63 \<and> valid_utf8 second \<and> length second \<le> 63)"
  using append_subtitle_valid [OF assms] append_subtitle_length [of subtitle delta]
  by (auto simp: subtitle_lines_def Let_def utf8_cut_valid min.coboundedI2 utf8_cut_le)

theorem subtitle_window_witness:
  "valid_utf8 (append_subtitle ''ab'' [CHR 0xC3, CHR 0xA9]) \<and>
   length (append_subtitle ''ab'' [CHR 0xC3, CHR 0xA9]) \<le> 126 \<and>
    (case subtitle_lines (append_subtitle ''ab'' [CHR 0xC3, CHR 0xA9]) of (first, second) \<Rightarrow>
       valid_utf8 first \<and> length first \<le> 63 \<and> valid_utf8 second \<and> length second \<le> 63)"
proof (rule subtitle_window)
  show "valid_utf8 ''ab''"
    unfolding valid_utf8_def by (rule exI [of _ "[0x61, 0x62]"]) (simp add: utf8_text_def scalar_def utf8_bytes_def byte_of_def)
  show "valid_utf8 [CHR 0xC3, CHR 0xA9]"
    unfolding valid_utf8_def by (rule exI [of _ "[0xE9]"]) (simp add: utf8_text_def scalar_def utf8_bytes_def byte_of_def)
qed

end
