(* ===== verification/Json.thy ===== *)
theory Json
  imports Config Wire Utf8
begin

section \<open>JSON: the text the client writes and the checks on the text it reads\<close>

text \<open>
  The JSON part of \<^verbatim>\<open>client/src/network/voice_transport.cpp\<close>. The tree comes from the vendored parser
  cJSON, which is a parameter: \<open>cjson_parse\<close> takes the message and returns the tree together with the
  offset where parsing stopped, or \<open>None\<close>. Its strings are C strings: they end at the first NUL.
\<close>

subsection \<open>Writing\<close>

definition hex_digit :: "nat \<Rightarrow> char" where
  "hex_digit n = ''0123456789abcdef'' ! n"

definition quote_char :: "char \<Rightarrow> string" where
  "quote_char c =
     (if c = CHR 0x22 \<or> c = CHR 0x5C then [CHR 0x5C, c]
      else if 0x20 \<le> byte_of c then [c]
      else [CHR 0x5C, CHR ''u'', CHR ''0'', CHR ''0'', hex_digit (byte_of c div 16), hex_digit (byte_of c mod 16)])"

definition quote :: "string \<Rightarrow> string" where
  "quote v = [CHR 0x22] @ concat (map quote_char v) @ [CHR 0x22]"

text \<open>\<^verbatim>\<open>std::to_string\<close> of an unsigned number.\<close>

fun decimal :: "nat \<Rightarrow> string" where
  "decimal n = (if n < 10 then [char_of (48 + n)] else decimal (n div 10) @ [char_of (48 + n mod 10)])"

declare decimal.simps [simp del]

lemma length_decimal: "n < 10 ^ Suc k \<Longrightarrow> length (decimal n) \<le> Suc k"
proof (induction k arbitrary: n)
  case 0
  then show ?case by (subst decimal.simps) simp
next
  case (Suc k)
  have "n div 10 < 10 ^ Suc k" using Suc.prems by (simp add: less_mult_imp_div_less)
  then have "length (decimal (n div 10)) \<le> Suc k" by (rule Suc.IH)
  then show ?case by (subst decimal.simps) simp
qed

lemma length_decimal_u32: "length (decimal (unat (w :: u32))) \<le> 10"
proof -
  have "unat w < 2 ^ LENGTH(32)" by (rule unsigned_less)
  then show ?thesis using length_decimal [of "unat w" 9] by simp
qed

subsection \<open>Reading back a string literal\<close>

text \<open>
  The JSON grammar of a string literal without surrogate escapes, as a specification: the characters
  between the quotes, decoded, and the rest of the text.
\<close>

definition hex_value :: "char \<Rightarrow> nat option" where
  "hex_value c = (if is_digit c then Some (byte_of c - 48)
     else if byte_of CHR ''a'' \<le> byte_of c \<and> byte_of c \<le> byte_of CHR ''f'' then Some (byte_of c - 87)
     else if byte_of CHR ''A'' \<le> byte_of c \<and> byte_of c \<le> byte_of CHR ''F'' then Some (byte_of c - 55)
     else None)"

definition simple_escape :: "char \<Rightarrow> char option" where
  "simple_escape c = (if c = CHR 0x22 \<or> c = CHR 0x5C \<or> c = CHR ''/'' then Some c
     else if c = CHR ''b'' then Some (CHR 0x08) else if c = CHR ''f'' then Some (CHR 0x0C)
     else if c = CHR ''n'' then Some (CHR 0x0A) else if c = CHR ''r'' then Some (CHR 0x0D)
     else if c = CHR ''t'' then Some (CHR 0x09) else None)"

definition escape_bytes :: "nat \<Rightarrow> string" where
  "escape_bytes n = map char_of (utf8_bytes n)"

text \<open>The body of a literal, up to its closing quote.\<close>

function json_body :: "string \<Rightarrow> (string \<times> string) option" where
  "json_body [] = None"
| "json_body (c # r) =
    (if c = CHR 0x22 then Some ([], r)
     else if c \<noteq> CHR 0x5C then map_option (\<lambda>(v, t). (c # v, t)) (json_body r)
     else case r of
       [] \<Rightarrow> None
     | d # r' \<Rightarrow>
         if d = CHR ''u'' then
           (case r' of
              h1 # h2 # h3 # h4 # r'' \<Rightarrow>
                (case (hex_value h1, hex_value h2, hex_value h3, hex_value h4) of
                   (Some a, Some b, Some e, Some f) \<Rightarrow>
                     map_option (\<lambda>(v, t). (escape_bytes (((a * 16 + b) * 16 + e) * 16 + f) @ v, t)) (json_body r'')
                 | _ \<Rightarrow> None)
            | _ \<Rightarrow> None)
         else (case simple_escape d of
                 None \<Rightarrow> None
               | Some e \<Rightarrow> map_option (\<lambda>(v, t). (e # v, t)) (json_body r')))"
  by pat_completeness auto
termination by (relation "measure length") auto

declare json_body.simps(2) [simp del]

lemma char_cases_lt_32: "byte_of c < 0x20 \<Longrightarrow> hex_value (hex_digit (byte_of c div 16)) = Some (byte_of c div 16) \<and>
    hex_value (hex_digit (byte_of c mod 16)) = Some (byte_of c mod 16)"
proof -
  have h: "n < 16 \<Longrightarrow> hex_value (hex_digit n) = Some n" for n
  proof -
    assume "n < 16"
    then have "n \<in> set [0..<16]" by simp
    then show ?thesis by (auto simp: hex_value_def hex_digit_def is_digit_def byte_of_def upt_rec)
  qed
  assume "byte_of c < 0x20"
  then show ?thesis by (intro conjI h) simp_all
qed

lemma json_body_quote_char: "json_body (quote_char c @ r) = map_option (\<lambda>(v, t). (c # v, t)) (json_body r)"
proof -
  consider "c = CHR 0x22 \<or> c = CHR 0x5C" | "c \<noteq> CHR 0x22" "c \<noteq> CHR 0x5C" "0x20 \<le> byte_of c"
    | "c \<noteq> CHR 0x22" "c \<noteq> CHR 0x5C" "byte_of c < 0x20" by linarith
  then show ?thesis
  proof cases
    case 1
    then show ?thesis by (auto simp: quote_char_def json_body.simps simple_escape_def)
  next
    case 2
    then show ?thesis by (simp add: quote_char_def json_body.simps)
  next
    case 3
    have "escape_bytes (byte_of c) = [c]"
      using 3 by (simp add: escape_bytes_def utf8_bytes_def byte_of_def)
    moreover have "byte_of c div 16 * 16 + byte_of c mod 16 = byte_of c" by simp
    moreover have "hex_value CHR ''0'' = Some 0" by (simp add: hex_value_def is_digit_def byte_of_def)
    ultimately show ?thesis
      using 3 char_cases_lt_32 [of c] by (simp add: quote_char_def json_body.simps)
  qed
qed


lemma length_quote_char: "length (quote_char c) \<le> 6"
  by (simp add: quote_char_def)

lemma length_quote: "length (quote v) \<le> 2 + 6 * length v"
proof -
  have "length (concat (map quote_char v)) \<le> 6 * length v"
    by (induction v) (auto intro: add_mono simp: length_quote_char)
  then show ?thesis by (simp add: quote_def)
qed

subsection \<open>Lexical guards\<close>

text \<open>
  \<^verbatim>\<open>RejectNonIntegerNumberSyntax\<close>: one pass with the flags \<^verbatim>\<open>in_string\<close>, \<^verbatim>\<open>escaped\<close> and
  \<^verbatim>\<open>in_number\<close>.
\<close>

definition k_bad_number :: string where
  "k_bad_number = ''JSON number must use unsigned integer syntax''"

fun number_scan :: "bool \<Rightarrow> bool \<Rightarrow> bool \<Rightarrow> string \<Rightarrow> unit checked" where
  "number_scan in_string escaped in_number [] = Inr ()"
| "number_scan in_string escaped in_number (c # cs) =
    (if in_string then
       (if escaped then number_scan in_string False in_number cs
        else if c = CHR 0x5C then number_scan in_string True in_number cs
        else if c = CHR 0x22 then number_scan False escaped in_number cs
        else number_scan in_string escaped in_number cs)
     else if c = CHR 0x22 then number_scan True escaped False cs
     else if c = CHR ''-'' then Inl k_bad_number
     else if in_number \<and> (c = CHR ''.'' \<or> c = CHR ''e'' \<or> c = CHR ''E'') then Inl k_bad_number
     else number_scan in_string escaped (is_digit c) cs)"

definition reject_non_integer_number_syntax :: "string \<Rightarrow> unit checked" where
  "reject_non_integer_number_syntax json = number_scan False False False json"

text \<open>\<^verbatim>\<open>RejectEscapedNul\<close>: \<open>nul_scan in_string rest\<close>, where \<open>rest\<close> is the text from \<^verbatim>\<open>index\<close> on.\<close>

function nul_scan :: "bool \<Rightarrow> string \<Rightarrow> unit checked" where
  "nul_scan in_string [] = Inr ()"
| "nul_scan in_string (c # r) =
    (if \<not> in_string then nul_scan (c = CHR 0x22) r
     else if c = CHR 0x22 then nul_scan False r
     else if c \<noteq> CHR 0x5C then nul_scan in_string r
     else case r of
       [] \<Rightarrow> Inr ()
     | d # r' \<Rightarrow>
         if d \<noteq> CHR ''u'' \<or> length r' < 4 then nul_scan in_string r'
         else if take 4 r' = ''0000'' then Inl ''escaped NUL is not allowed in JSON strings''
         else nul_scan in_string (drop 4 r'))"
  by pat_completeness auto
termination by (relation "measure (\<lambda>(_, s). length s)") auto

declare nul_scan.simps(2) [simp del]

definition reject_escaped_nul :: "string \<Rightarrow> unit checked" where
  "reject_escaped_nul json = nul_scan False json"

text \<open>Inside a literal the guard leaves no escape that decodes to NUL.\<close>

lemma escape_bytes_nul: "CHR 0x00 \<in> set (escape_bytes n) \<Longrightarrow> n < 0x110000 \<Longrightarrow> n = 0"
proof -
  assume a: "CHR 0x00 \<in> set (escape_bytes n)" and n: "n < 0x110000"
  then obtain b where b: "b \<in> set (utf8_bytes n)" "char_of b = CHR 0x00"
    by (auto simp: escape_bytes_def)
  have "b < 256" using b(1) n by (auto simp: utf8_bytes_def split: if_splits)
  moreover have "b mod 256 = 0" using arg_cong [OF b(2), of "of_char :: char \<Rightarrow> nat"] by simp
  ultimately have "b = 0" by simp
  then show "n = 0" using b(1) by (auto simp: utf8_bytes_def split: if_splits)
qed

lemma hex_value_less: "hex_value c = Some a \<Longrightarrow> a < 16"
  by (auto simp: hex_value_def is_digit_def byte_of_def split: if_splits)

lemma hex_value_0: "hex_value c = Some 0 \<longleftrightarrow> c = CHR ''0''"
proof -
  have "byte_of c = 48 \<longleftrightarrow> c = CHR ''0''" using byte_of_inject [of c "CHR ''0''"] by (simp add: byte_of_def)
  then show ?thesis by (auto simp: hex_value_def is_digit_def byte_of_def)
qed

lemma simple_escape_not_nul: "simple_escape c = Some d \<Longrightarrow> d \<noteq> CHR 0x00"
  by (auto simp: simple_escape_def split: if_splits)

lemma nul_scan_body:
  "nul_scan True b = Inr () \<Longrightarrow> json_body b = Some (v, t) \<Longrightarrow> CHR 0x00 \<notin> set b \<Longrightarrow>
   CHR 0x00 \<notin> set v \<and> nul_scan False t = Inr ()"
proof (induction b arbitrary: v t rule: measure_induct_rule [where f = length])
  case (less b)
  then obtain c r where b: "b = c # r" by (cases b) auto
  note prems = less.prems [unfolded b]
  have IH: "CHR 0x00 \<notin> set w \<and> nul_scan False u = Inr ()"
    if "nul_scan True s = Inr ()" "json_body s = Some (w, u)" "CHR 0x00 \<notin> set s" "length s \<le> length r" for s w u
    using less.IH [OF _ that(1-3)] that(4) by (simp add: b)
  show ?case
  proof (cases "c = CHR 0x22")
    case True
    then show ?thesis using prems by (simp add: nul_scan.simps json_body.simps)
  next
    case q: False
    show ?thesis
    proof (cases "c = CHR 0x5C")
      case False
      then show ?thesis using prems IH [of r] q
        by (auto simp: nul_scan.simps json_body.simps)
    next
      case esc: True
      then obtain d r' where r: "r = d # r'" using prems q by (cases r) (auto simp: json_body.simps)
      show ?thesis
      proof (cases "d = CHR ''u''")
        case False
        then obtain e w where e: "simple_escape d = Some e" "json_body r' = Some (w, t)" "v = e # w"
          using prems q esc r by (auto simp: json_body.simps split: option.splits)
        have "CHR 0x00 \<notin> set w \<and> nul_scan False t = Inr ()"
          using IH [of r'] prems e False q esc r by (auto simp: nul_scan.simps)
        then show ?thesis using e simple_escape_not_nul by auto
      next
        case True
        then obtain h1 h2 h3 h4 s where s: "r' = h1 # h2 # h3 # h4 # s"
          using prems q esc r by (auto simp: json_body.simps split: list.splits)
        from True obtain a1 a2 a3 a4 w where h: "hex_value h1 = Some a1" "hex_value h2 = Some a2"
            "hex_value h3 = Some a3" "hex_value h4 = Some a4"
          and w: "json_body s = Some (w, t)" "v = escape_bytes (((a1 * 16 + a2) * 16 + a3) * 16 + a4) @ w"
          using prems q esc r s by (auto simp: json_body.simps split: option.splits)
        have n: "\<not> (h1 = CHR ''0'' \<and> h2 = CHR ''0'' \<and> h3 = CHR ''0'' \<and> h4 = CHR ''0'')" and g: "nul_scan True s = Inr ()"
          using prems(1) q esc r s True by (auto simp: nul_scan.simps split: if_splits)
        have "\<not> (a1 = 0 \<and> a2 = 0 \<and> a3 = 0 \<and> a4 = 0)" using n h hex_value_0 by blast
        moreover have "((a1 * 16 + a2) * 16 + a3) * 16 + a4 < 0x110000"
          using h [THEN hex_value_less] by auto
        ultimately have "CHR 0x00 \<notin> set (escape_bytes (((a1 * 16 + a2) * 16 + a3) * 16 + a4))"
          using escape_bytes_nul by (metis add_is_0 mult_eq_0_iff zero_neq_numeral)
        moreover have "CHR 0x00 \<notin> set w \<and> nul_scan False t = Inr ()"
          using IH [of s] prems(3) esc r s w g by auto
        ultimately show ?thesis using w by auto
      qed
    qed
  qed
qed

text \<open>In a text \<^verbatim>\<open>RejectEscapedNul\<close> accepts and that has no raw NUL, no string literal decodes to a
  value with a NUL in it (a text is scanned literal by literal: before the literal, its body, the rest),
  so cJSON's NUL-terminated strings are not cut short.\<close>

theorem accepted_literal_has_no_nul:
  assumes "reject_escaped_nul (p @ CHR 0x22 # b) = Inr ()"
    and "CHR 0x22 \<notin> set p" and "json_body b = Some (v, t)" and "CHR 0x00 \<notin> set b"
  shows "CHR 0x00 \<notin> set v \<and> reject_escaped_nul t = Inr ()"
proof -
  have "nul_scan False (p @ CHR 0x22 # b) = nul_scan True b"
    using assms(2) by (induction p) (auto simp: nul_scan.simps)
  then show ?thesis using nul_scan_body [of b v t] assms by (simp add: reject_escaped_nul_def)
qed

theorem accepted_literal_has_no_nul_witness:
  "CHR 0x00 \<notin> set [CHR ''a'', CHR 0x0A] \<and> reject_escaped_nul '':1}'' = Inr ()"
  by (rule accepted_literal_has_no_nul [of "[CHR ''{'']" "[CHR ''a'', CHR 0x5C, CHR ''n'', CHR 0x22, CHR '':'', CHR ''1'', CHR ''}'']"])
    (simp_all add: reject_escaped_nul_def nul_scan.simps json_body.simps simple_escape_def)

text \<open>The number guard: outside literals there is no minus sign and no digit before a dot or exponent.\<close>

definition number_mark :: "char \<Rightarrow> bool" where
  "number_mark c \<longleftrightarrow> c = CHR ''.'' \<or> c = CHR ''e'' \<or> c = CHR ''E''"

lemma number_scan_plain:
  "CHR 0x22 \<notin> set p \<Longrightarrow> number_scan False False n (p @ CHR 0x22 # b) = Inr () \<longleftrightarrow>
     CHR ''-'' \<notin> set p \<and> (n \<and> p \<noteq> [] \<longrightarrow> \<not> number_mark (hd p)) \<and>
     (\<forall>i. Suc i < length p \<longrightarrow> is_digit (p ! i) \<longrightarrow> \<not> number_mark (p ! Suc i)) \<and>
     number_scan True False False b = Inr ()"
proof (induction p arbitrary: n)
  case (Cons c p)
  have all: "(\<forall>i. Suc i < length (c # p) \<longrightarrow> is_digit ((c # p) ! i) \<longrightarrow> \<not> number_mark ((c # p) ! Suc i)) \<longleftrightarrow>
      (is_digit c \<and> p \<noteq> [] \<longrightarrow> \<not> number_mark (hd p)) \<and>
      (\<forall>i. Suc i < length p \<longrightarrow> is_digit (p ! i) \<longrightarrow> \<not> number_mark (p ! Suc i))"
    (is "?l \<longleftrightarrow> ?r")
  proof
    assume l: ?l
    show ?r
    proof (intro conjI allI impI)
      assume "is_digit c \<and> p \<noteq> []"
      then show "\<not> number_mark (hd p)" using l [rule_format, of 0] by (simp add: hd_conv_nth)
    next
      fix i assume "Suc i < length p" "is_digit (p ! i)"
      then show "\<not> number_mark (p ! Suc i)" using l [rule_format, of "Suc i"] by simp
    qed
  next
    assume r: ?r
    show ?l
    proof (intro allI impI)
      fix i assume "Suc i < length (c # p)" "is_digit ((c # p) ! i)"
      then show "\<not> number_mark ((c # p) ! Suc i)" using r by (cases i) (auto simp: hd_conv_nth)
    qed
  qed
  show ?case
    using Cons by (subst all) (auto simp: number_mark_def k_bad_number_def)
qed simp

lemma hex_value_plain: "hex_value h = Some a \<Longrightarrow> h \<noteq> CHR 0x22 \<and> h \<noteq> CHR 0x5C"
  by (auto simp: hex_value_def is_digit_def byte_of_def split: if_splits)

lemma number_scan_body:
  "json_body b = Some (v, t) \<Longrightarrow> number_scan True False n b = number_scan False False n t"
proof (induction b arbitrary: v rule: measure_induct_rule [where f = length])
  case (less b)
  then obtain c r where b: "b = c # r" by (cases b) auto
  have IH: "number_scan True False n s = number_scan False False n t"
    if "json_body s = Some (w, t)" "length s \<le> length r" for s w
    using less.IH [OF _ that(1)] that(2) by (simp add: b)
  show ?case
  proof (cases "c = CHR 0x22 \<or> c \<noteq> CHR 0x5C")
    case True
    then show ?thesis using less.prems IH [of r] by (auto simp: b json_body.simps split: if_splits)
  next
    case False
    then have c: "c = CHR 0x5C" by simp
    then obtain d r' where r: "r = d # r'" using less.prems b by (cases r) (auto simp: json_body.simps)
    show ?thesis
    proof (cases "d = CHR ''u''")
      case False
      then show ?thesis using less.prems IH [of r'] by (auto simp: b r c json_body.simps split: option.splits)
    next
      case True
      then obtain h1 h2 h3 h4 s where s: "r' = h1 # h2 # h3 # h4 # s"
        using less.prems b r c by (auto simp: json_body.simps split: list.splits)
      then obtain a1 a2 a3 a4 w where h: "hex_value h1 = Some a1" "hex_value h2 = Some a2"
          "hex_value h3 = Some a3" "hex_value h4 = Some a4" and w: "json_body s = Some (w, t)"
        using less.prems b r c True by (auto simp: json_body.simps split: option.splits)
      show ?thesis using IH [OF w] h [THEN hex_value_plain] by (simp add: b r c s)
    qed
  qed
qed

text \<open>The number guard skips string literals exactly and, between them, rejects exactly the texts with a
  minus sign or with a fraction or exponent mark right after a digit, so every number that cJSON may
  read from an accepted text is a plain unsigned integer.\<close>

theorem number_guard:
  assumes "CHR 0x22 \<notin> set p" and "json_body b = Some (v, t)"
  shows "reject_non_integer_number_syntax (p @ CHR 0x22 # b) = Inr () \<longleftrightarrow>
     CHR ''-'' \<notin> set p \<and>
     (\<forall>i. Suc i < length p \<longrightarrow> is_digit (p ! i) \<longrightarrow> \<not> number_mark (p ! Suc i)) \<and>
     reject_non_integer_number_syntax t = Inr ()"
  using number_scan_plain [OF assms(1), of False b] number_scan_body [OF assms(2)]
  by (simp add: reject_non_integer_number_syntax_def)

theorem number_guard_witness:
  "reject_non_integer_number_syntax [CHR ''1'', CHR ''.'', CHR 0x22, CHR ''-'', CHR 0x22, CHR ''7''] \<noteq> Inr ()"
proof
  assume "reject_non_integer_number_syntax [CHR ''1'', CHR ''.'', CHR 0x22, CHR ''-'', CHR 0x22, CHR ''7''] = Inr ()"
  then have "\<forall>i. Suc i < length [CHR ''1'', CHR ''.''] \<longrightarrow> is_digit ([CHR ''1'', CHR ''.''] ! i) \<longrightarrow>
      \<not> number_mark ([CHR ''1'', CHR ''.''] ! Suc i)"
    using number_guard [of "[CHR ''1'', CHR ''.'']" "[CHR ''-'', CHR 0x22, CHR ''7'']" "''-''" "''7''"]
    by (simp add: json_body.simps)
  from this [rule_format, of 0] show False by (simp add: is_digit_def byte_of_def number_mark_def)
qed

text \<open>The guard looks at escapes only: a raw NUL byte passes it.\<close>

lemma raw_nul_accepted:
  "reject_escaped_nul [CHR 0x22, CHR ''a'', CHR 0x00, CHR ''b'', CHR 0x22] = Inr () \<and>
   json_body [CHR ''a'', CHR 0x00, CHR ''b'', CHR 0x22] = Some ([CHR ''a'', CHR 0x00, CHR ''b''], [])"
  by (simp add: reject_escaped_nul_def nul_scan.simps json_body.simps)

subsection \<open>The parsed tree\<close>

datatype cjson = J_Null | J_Bool bool | J_Number cfloat | J_String string
  | J_Array "cjson list" | J_Object "(string \<times> cjson) list"

definition is_object :: "cjson \<Rightarrow> bool" where
  "is_object j = (case j of J_Object _ \<Rightarrow> True | _ \<Rightarrow> False)"

text \<open>\<^verbatim>\<open>cJSON_GetObjectItemCaseSensitive\<close>: the first member with that key.\<close>

definition require_item :: "cjson \<Rightarrow> string \<Rightarrow> cjson checked" where
  "require_item obj name = (case obj of
     J_Object ms \<Rightarrow> (case map_of ms name of None \<Rightarrow> Inl ''missing JSON field'' | Some j \<Rightarrow> Inr j)
   | _ \<Rightarrow> Inl ''missing JSON field'')"

text \<open>\<^verbatim>\<open>RequireExactObject\<close>: every member is looked up in the list of names; \<open>seen\<close> counts the hits.\<close>

fun exact_members :: "string list \<Rightarrow> nat list \<Rightarrow> nat \<Rightarrow> (string \<times> cjson) list \<Rightarrow> nat checked" where
  "exact_members names seen members [] = Inr members"
| "exact_members names seen members ((key, _) # ms) =
    (let index = length (takeWhile (\<lambda>n. n \<noteq> key) names) in
     if index = length names then Inl ''unknown JSON field''
     else if seen ! index + 1 \<noteq> 1 then Inl ''duplicate JSON object key''
     else exact_members names (seen[index := seen ! index + 1]) (members + 1) ms)"

definition require_exact_object :: "cjson \<Rightarrow> string list \<Rightarrow> unit checked" where
  "require_exact_object obj names = (case obj of
     J_Object ms \<Rightarrow>
       if 9 < length names then Inl ''JSON value must be an object''
       else ebind (exact_members names (replicate 9 0) 0 ms) (\<lambda>members.
         require (members = length names) ''missing JSON field'')
   | _ \<Rightarrow> Inl ''JSON value must be an object'')"

definition require_string :: "cjson \<Rightarrow> string \<Rightarrow> nat \<Rightarrow> nat \<Rightarrow> string checked" where
  "require_string obj name min_bytes max_bytes = ebind (require_item obj name) (\<lambda>item. case item of
     J_String v \<Rightarrow> if length v < min_bytes \<or> max_bytes < length v
                   then Inl ''JSON string is outside its byte limit'' else Inr v
   | _ \<Rightarrow> Inl ''JSON field must be a string'')"

definition k_bad_u32 :: string where
  "k_bad_u32 = ''JSON field must be an unsigned 32-bit integer''"

definition require_u32 :: "cjson \<Rightarrow> string \<Rightarrow> u32 checked" where
  "require_u32 obj name = ebind (require_item obj name) (\<lambda>item. case item of
     J_Number (Finite q) \<Rightarrow> if q < 0 \<or> 4294967295 < q \<or> of_int (floor q) \<noteq> q then Inl k_bad_u32
                           else Inr (of_int (floor q))
   | _ \<Rightarrow> Inl k_bad_u32)"

definition visible_ascii :: "string \<Rightarrow> bool" where
  "visible_ascii v \<longleftrightarrow> list_all (\<lambda>c. 0x21 \<le> byte_of c \<and> byte_of c \<le> 0x7e) v"

subsection \<open>The envelope\<close>

record envelope =
  env_type :: string
  env_device_id :: string
  env_ids :: wire_ids
  env_payload :: cjson

definition envelope_names :: "string list" where
  "envelope_names = [''version'', ''type'', ''message_id'', ''device_id'', ''session_id'', ''turn_id'',
     ''stream_id'', ''epoch'', ''payload'']"

definition require_envelope :: "cjson \<Rightarrow> unit checked" where
  "require_envelope tree = require_exact_object tree envelope_names"

type_synonym json_parser = "string \<Rightarrow> (cjson \<times> nat) option"

text \<open>The fields of a tree that has the nine members.\<close>

definition envelope_fields :: "cjson \<Rightarrow> envelope checked" where
  "envelope_fields tree =
     ebind (require_envelope tree) (\<lambda>_.
     ebind (require_u32 tree ''version'') (\<lambda>version.
     ebind (require (version = 1) ''unsupported protocol version'') (\<lambda>_.
     ebind (require_string tree ''type'' 1 64) (\<lambda>type.
     ebind (require (visible_ascii type) ''control type is not visible ASCII'') (\<lambda>_.
     ebind (require_string tree ''message_id'' 1 64) (\<lambda>_.
     ebind (require_string tree ''device_id'' 1 64) (\<lambda>device_id.
     ebind (require_u32 tree ''session_id'') (\<lambda>s.
     ebind (require_u32 tree ''turn_id'') (\<lambda>t.
     ebind (require_u32 tree ''stream_id'') (\<lambda>st.
     ebind (require_u32 tree ''epoch'') (\<lambda>e.
     ebind (require_item tree ''payload'') (\<lambda>payload.
     ebind (require (is_object payload) ''payload must be an object'') (\<lambda>_.
     Inr \<lparr>env_type = type, env_device_id = device_id,
          env_ids = \<lparr>session = s, turn = t, stream = st, epoch = e\<rparr>, env_payload = payload\<rparr>)))))))))))))"

definition parse_envelope :: "json_parser \<Rightarrow> string \<Rightarrow> envelope checked" where
  "parse_envelope cjson_parse json =
     ebind (require (json \<noteq> [] \<and> length json \<le> 64 * 1024 \<and> validate json) ''invalid text message'') (\<lambda>_.
     ebind (reject_escaped_nul json) (\<lambda>_.
     ebind (case cjson_parse json of
              Some (tree, parse_end) \<Rightarrow> if parse_end = length json then Inr tree else Inl ''invalid JSON text''
            | None \<Rightarrow> Inl ''invalid JSON text'') (\<lambda>tree.
     ebind (reject_non_integer_number_syntax json) (\<lambda>_.
     envelope_fields tree))))"

subsection \<open>What an accepted envelope is\<close>

definition name_index :: "string list \<Rightarrow> string \<Rightarrow> nat" where
  "name_index names key = length (takeWhile (\<lambda>n. n \<noteq> key) names)"

lemma name_index_less: "name_index names key < length names \<longleftrightarrow> key \<in> set names"
  by (induction names) (auto simp: name_index_def)

lemma name_index_le: "name_index names key \<le> length names"
  by (simp add: name_index_def length_takeWhile_le)

lemma name_index_nth: "key \<in> set names \<Longrightarrow> names ! name_index names key = key"
  by (induction names) (auto simp: name_index_def)

lemma name_index_inject:
  "a \<in> set names \<Longrightarrow> b \<in> set names \<Longrightarrow> name_index names a = name_index names b \<longleftrightarrow> a = b"
  using name_index_nth by metis

lemma exact_members_ok:
  assumes "length names \<le> length seen"
  shows "exact_members names seen m ms = Inr k \<longleftrightarrow>
    k = m + length ms \<and> distinct (map fst ms) \<and>
    (\<forall>key \<in> fst ` set ms. key \<in> set names \<and> seen ! name_index names key = 0)"
  using assms
proof (induction ms arbitrary: seen m)
  case (Cons x ms)
  obtain key j where x: "x = (key, j)" by (cases x) auto
  show ?case
  proof (cases "key \<in> set names \<and> seen ! name_index names key = 0")
    case False
    then show ?thesis using name_index_less [of names key] name_index_le [of names key]
      by (auto simp: x Let_def simp flip: name_index_def)
  next
    case True
    define i where "i = name_index names key"
    have i: "i < length seen" "i \<noteq> length names"
      using True name_index_less [of names key] Cons.prems by (auto simp: i_def)
    have "exact_members names seen m (x # ms) = exact_members names (seen[i := 1]) (m + 1) ms"
      using True i by (simp add: x Let_def i_def name_index_def)
    moreover have "seen[i := 1] ! name_index names a = 0 \<longleftrightarrow> a \<noteq> key \<and> seen ! name_index names a = 0"
      if "a \<in> set names" for a
      using that i True name_index_inject [of a names key] by (auto simp: nth_list_update i_def)
    ultimately show ?thesis
      using Cons.IH [of "seen[i := 1]" "m + 1"] Cons.prems True by (auto simp: x image_iff)
  qed
qed auto

lemma require_exact_object_iff:
  assumes "distinct names" and "length names \<le> 9"
  shows "require_exact_object obj names = Inr () \<longleftrightarrow>
    (\<exists>ms. obj = J_Object ms \<and> distinct (map fst ms) \<and> fst ` set ms = set names)"
proof -
  have zeros: "replicate 9 (0 :: nat) ! name_index names key = 0" if "key \<in> set names" for key
    using that assms(2) name_index_less [of names key] by (intro nth_replicate) simp
  have "exact_members names (replicate 9 0) 0 ms = Inr (length names) \<longleftrightarrow>
      distinct (map fst ms) \<and> fst ` set ms = set names" for ms
  proof -
    have "length ms = length names \<and> distinct (map fst ms) \<and> fst ` set ms \<subseteq> set names \<longleftrightarrow>
        distinct (map fst ms) \<and> fst ` set ms = set names"
      using distinct_card [of "map fst ms"] distinct_card [OF assms(1)] card_subset_eq [of "set names" "fst ` set ms"]
      by auto
    then show ?thesis using exact_members_ok [of names "replicate 9 0" 0 ms "length names"] assms(2) zeros
      by (auto simp: subset_iff)
  qed
  then show ?thesis using assms(2)
    by (cases obj) (auto simp: require_exact_object_def)
qed

lemma require_item_Inr:
  "require_item obj name = Inr x \<longleftrightarrow> (\<exists>ms. obj = J_Object ms \<and> map_of ms name = Some x)"
  by (auto simp: require_item_def split: cjson.splits option.splits)

lemma require_u32_Inr:
  "require_u32 obj name = Inr w \<Longrightarrow>
   \<exists>ms. obj = J_Object ms \<and> map_of ms name = Some (J_Number (Finite (of_nat (unat w))))"
proof -
  assume "require_u32 obj name = Inr w"
  then obtain ms x where x: "obj = J_Object ms" "map_of ms name = Some x"
      "(case x of J_Number (Finite q) \<Rightarrow> if q < 0 \<or> 4294967295 < q \<or> of_int (floor q) \<noteq> q then Inl k_bad_u32
          else Inr (of_int (floor q)) | _ \<Rightarrow> Inl k_bad_u32) = Inr w"
    unfolding require_u32_def ebind_eq_Inr_iff require_item_Inr by blast
  then obtain q where q: "obj = J_Object ms" "map_of ms name = Some (J_Number (Finite q))"
      "0 \<le> q" "q \<le> 4294967295" "of_int (floor q) = q" "w = of_int (floor q)"
    by (cases x) (auto split: cfloat.splits if_splits)
  have f: "0 \<le> floor q" "floor q \<le> 4294967295"
    using q(3) floor_mono [OF q(4)] by simp_all
  then have "uint w = floor q" unfolding q(6) by (simp add: uint_word_of_int_eq take_bit_int_eq_self)
  then have u: "unat w = nat (floor q)" by (simp only: unat_eq_nat_uint)
  have e: "of_nat (unat w) = q" unfolding u of_nat_nat [OF f(1)] by (rule q(5))
  show ?thesis unfolding e using q(1,2) by simp
qed

lemma require_string_Inr:
  "require_string obj name lo hi = Inr v \<Longrightarrow>
   \<exists>ms. obj = J_Object ms \<and> map_of ms name = Some (J_String v) \<and> lo \<le> length v \<and> length v \<le> hi"
proof -
  assume "require_string obj name lo hi = Inr v"
  then obtain ms x where "obj = J_Object ms" "map_of ms name = Some x"
      "(case x of J_String v \<Rightarrow> if length v < lo \<or> hi < length v
          then Inl ''JSON string is outside its byte limit'' else Inr v
        | _ \<Rightarrow> Inl ''JSON field must be a string'') = Inr v"
    unfolding require_string_def ebind_eq_Inr_iff require_item_Inr by blast
  then show ?thesis by (cases x) (auto split: if_splits)
qed

lemma distinct_envelope_names: "distinct envelope_names" "length envelope_names \<le> 9"
  by (simp_all add: envelope_names_def)

definition has_u32 :: "(string \<times> cjson) list \<Rightarrow> string \<Rightarrow> u32 \<Rightarrow> bool" where
  "has_u32 ms name w \<longleftrightarrow> map_of ms name = Some (J_Number (Finite (of_nat (unat w))))"

definition has_string :: "(string \<times> cjson) list \<Rightarrow> string \<Rightarrow> string \<Rightarrow> bool" where
  "has_string ms name v \<longleftrightarrow> map_of ms name = Some (J_String v)"


text \<open>A concrete message: the server's answer to \<^verbatim>\<open>hello\<close>, and its tree.\<close>

lemma wf_utf8_ascii: "list_all (\<lambda>b. b < 0x80) bs \<Longrightarrow> wf_utf8 bs"
  by (induction bs) auto

lemma validate_ascii: "list_all (\<lambda>c. byte_of c < 0x80) s \<Longrightarrow> validate s"
  by (simp add: validate_wf wf_utf8_ascii list_all_iff)

definition sample_ack_json :: string where
  "sample_ack_json = [CHR ''{''] @ concat (map (\<lambda>(k, v). quote k @ '':'' @ v @ '','')
     [(''version'', ''1''), (''type'', quote ''hello.ack''), (''message_id'', quote ''server-1''),
      (''device_id'', quote ''00112233-4455-6677-8899-aabbccddeeff''), (''session_id'', ''7''), (''turn_id'', ''0''),
      (''stream_id'', ''0''), (''epoch'', ''3'')]) @ quote ''payload'' @ '':{'' @
     quote ''input_sample_rate_hz'' @ '':16000,'' @ quote ''output_sample_rate_hz'' @ '':24000,'' @
     quote ''input_frame_ms'' @ '':20}}''"

definition j_num :: "nat \<Rightarrow> cjson" where
  "j_num n = J_Number (Finite (of_nat n))"

definition sample_ack_payload :: cjson where
  "sample_ack_payload = J_Object [(''input_sample_rate_hz'', j_num 16000), (''output_sample_rate_hz'', j_num 24000),
     (''input_frame_ms'', j_num 20)]"

definition sample_ack_tree :: cjson where
  "sample_ack_tree = J_Object [(''version'', j_num 1), (''type'', J_String ''hello.ack''),
     (''message_id'', J_String ''server-1''), (''device_id'', J_String ''00112233-4455-6677-8899-aabbccddeeff''),
     (''session_id'', j_num 7), (''turn_id'', j_num 0), (''stream_id'', j_num 0), (''epoch'', j_num 3),
     (''payload'', sample_ack_payload)]"

text \<open>The two messages that open a spoken response to the first turn of that session.\<close>

definition sample_reply_json :: "string \<Rightarrow> string \<Rightarrow> string" where
  "sample_reply_json type payload = [CHR ''{''] @ concat (map (\<lambda>(k, v). quote k @ '':'' @ v @ '','')
     [(''version'', ''1''), (''type'', quote type), (''message_id'', quote ''server-2''),
      (''device_id'', quote ''00112233-4455-6677-8899-aabbccddeeff''), (''session_id'', ''7''), (''turn_id'', ''1''),
      (''stream_id'', ''1''), (''epoch'', ''3'')]) @ quote ''payload'' @ '':'' @ payload @ ''}''"

definition sample_start_json :: string where
  "sample_start_json = sample_reply_json ''response.start'' (''{'' @ quote ''response_id'' @ '':'' @ quote ''r1'' @ ''}'')"

definition sample_audio_json :: string where
  "sample_audio_json = sample_reply_json ''response.audio_start''
     (''{'' @ quote ''response_id'' @ '':'' @ quote ''r1'' @ '','' @ quote ''sample_rate_hz'' @ '':24000}'')"

definition sample_start_payload :: cjson where
  "sample_start_payload = J_Object [(''response_id'', J_String ''r1'')]"

definition sample_audio_payload :: cjson where
  "sample_audio_payload = J_Object [(''response_id'', J_String ''r1''), (''sample_rate_hz'', j_num 24000)]"

definition sample_reply_tree :: "string \<Rightarrow> cjson \<Rightarrow> cjson" where
  "sample_reply_tree type payload = J_Object [(''version'', j_num 1), (''type'', J_String type),
     (''message_id'', J_String ''server-2''), (''device_id'', J_String ''00112233-4455-6677-8899-aabbccddeeff''),
     (''session_id'', j_num 7), (''turn_id'', j_num 1), (''stream_id'', j_num 1), (''epoch'', j_num 3),
     (''payload'', payload)]"

definition sample_parser :: json_parser where
  "sample_parser json = (if json = sample_ack_json then Some (sample_ack_tree, length json)
     else if json = sample_start_json then Some (sample_reply_tree ''response.start'' sample_start_payload, length json)
     else if json = sample_audio_json then Some (sample_reply_tree ''response.audio_start'' sample_audio_payload, length json)
     else None)"

definition sample_ack_envelope :: envelope where
  "sample_ack_envelope = \<lparr>env_type = ''hello.ack'', env_device_id = ''00112233-4455-6677-8899-aabbccddeeff'',
     env_ids = \<lparr>session = 7, turn = 0, stream = 0, epoch = 3\<rparr>, env_payload = sample_ack_payload\<rparr>"

lemma floor_of_nat_rat: "floor (of_nat n :: rat) = int n"
  by simp

lemma sample_ack_fields: "envelope_fields sample_ack_tree = Inr sample_ack_envelope"
  by (simp add: envelope_fields_def sample_ack_tree_def require_envelope_def envelope_names_def
      require_exact_object_def Let_def require_u32_def require_item_def j_num_def require_string_def
      visible_ascii_def byte_of_def sample_ack_envelope_def sample_ack_payload_def is_object_def)

lemma sample_ack_guards:
  "validate sample_ack_json" "reject_escaped_nul sample_ack_json = Inr ()"
  "reject_non_integer_number_syntax sample_ack_json = Inr ()"
  "sample_ack_json \<noteq> []" "length sample_ack_json \<le> 64 * 1024"
proof -
  show "validate sample_ack_json"
    by (rule validate_ascii) (simp add: sample_ack_json_def quote_def quote_char_def byte_of_def)
  show "reject_escaped_nul sample_ack_json = Inr ()"
    by (simp add: sample_ack_json_def quote_def quote_char_def byte_of_def reject_escaped_nul_def nul_scan.simps)
  show "reject_non_integer_number_syntax sample_ack_json = Inr ()"
    by (simp add: sample_ack_json_def quote_def quote_char_def byte_of_def is_digit_def
        reject_non_integer_number_syntax_def)
  show "sample_ack_json \<noteq> []" "length sample_ack_json \<le> 64 * 1024"
    by (simp_all add: sample_ack_json_def quote_def quote_char_def byte_of_def)
qed

lemma sample_ack_parses: "parse_envelope sample_parser sample_ack_json = Inr sample_ack_envelope"
  by (simp add: parse_envelope_def sample_ack_guards sample_parser_def sample_ack_fields
      sample_ack_guards(5) [simplified])

definition sample_reply_envelope :: "string \<Rightarrow> cjson \<Rightarrow> envelope" where
  "sample_reply_envelope type payload = \<lparr>env_type = type, env_device_id = ''00112233-4455-6677-8899-aabbccddeeff'',
     env_ids = \<lparr>session = 7, turn = 1, stream = 1, epoch = 3\<rparr>, env_payload = payload\<rparr>"

lemma sample_reply_fields:
  "envelope_fields (sample_reply_tree ''response.start'' sample_start_payload) =
     Inr (sample_reply_envelope ''response.start'' sample_start_payload)"
  "envelope_fields (sample_reply_tree ''response.audio_start'' sample_audio_payload) =
     Inr (sample_reply_envelope ''response.audio_start'' sample_audio_payload)"
  by (simp_all add: envelope_fields_def sample_reply_tree_def require_envelope_def envelope_names_def
      require_exact_object_def Let_def require_u32_def require_item_def j_num_def require_string_def
      visible_ascii_def byte_of_def sample_reply_envelope_def sample_start_payload_def sample_audio_payload_def is_object_def)

lemma sample_reply_guards:
  "validate sample_start_json" "reject_escaped_nul sample_start_json = Inr ()"
  "reject_non_integer_number_syntax sample_start_json = Inr ()"
  "sample_start_json \<noteq> []" "length sample_start_json \<le> 64 * 1024"
  "validate sample_audio_json" "reject_escaped_nul sample_audio_json = Inr ()"
  "reject_non_integer_number_syntax sample_audio_json = Inr ()"
  "sample_audio_json \<noteq> []" "length sample_audio_json \<le> 64 * 1024"
  "sample_start_json \<noteq> sample_ack_json" "sample_audio_json \<noteq> sample_ack_json" "sample_audio_json \<noteq> sample_start_json"
proof -
  note json = sample_start_json_def sample_audio_json_def sample_reply_json_def quote_def quote_char_def byte_of_def
  show "validate sample_start_json" "validate sample_audio_json" by (rule validate_ascii; simp add: json)+
  show "reject_escaped_nul sample_start_json = Inr ()" "reject_escaped_nul sample_audio_json = Inr ()"
    by (simp_all add: json reject_escaped_nul_def nul_scan.simps)
  show "reject_non_integer_number_syntax sample_start_json = Inr ()" "reject_non_integer_number_syntax sample_audio_json = Inr ()"
    by (simp_all add: json is_digit_def reject_non_integer_number_syntax_def)
  show "sample_start_json \<noteq> []" "length sample_start_json \<le> 64 * 1024" "sample_audio_json \<noteq> []" "length sample_audio_json \<le> 64 * 1024"
    by (simp_all add: json)
  show "sample_start_json \<noteq> sample_ack_json" "sample_audio_json \<noteq> sample_ack_json" "sample_audio_json \<noteq> sample_start_json"
    by (simp_all add: json sample_ack_json_def)
qed

lemma sample_reply_parses:
  "parse_envelope sample_parser sample_start_json = Inr (sample_reply_envelope ''response.start'' sample_start_payload)"
  "parse_envelope sample_parser sample_audio_json = Inr (sample_reply_envelope ''response.audio_start'' sample_audio_payload)"
  by (simp_all add: parse_envelope_def sample_reply_guards sample_parser_def sample_reply_fields
      sample_reply_guards(5,10) [simplified])


end
