(* ===== verification/Transport.thy ===== *)
theory Transport
  imports Json
begin

section \<open>The voice transport: session protocol over one WSS connection\<close>

text \<open>
  \<^verbatim>\<open>VoiceTransport::Impl\<close> of \<^verbatim>\<open>client/src/network/voice_transport.cpp\<close>: the protocol fields it keeps
  under \<^verbatim>\<open>protocol_mutex_\<close>, what it sends, and what it accepts. Every public call and every websocketpp
  callback is one atomic step (the mutex makes it so); a step returns the new state and what left the
  object, in order. websocketpp, OpenSSL and cJSON are parameters: a send is described by what
  websocketpp answers, a message by its payload.
\<close>

subsection \<open>State\<close>

record transport_config =
  tc_host :: string
  tc_port :: u16
  tc_device_id :: string
  tc_spki_sha256_base64 :: string

record transport =
  t_started :: bool
  t_connected :: bool
  t_closing :: bool
  t_device_id :: string
  t_uuid :: bytes
  t_pin :: bytes
  t_turn :: wire_ids
  t_response :: wire_ids
  t_session :: u32
  t_session_epoch :: u32
  t_response_id :: string
  t_uplink_sequence :: u32
  t_downlink_sequence :: u32
  t_active :: bool
  t_committed :: bool
  t_uplink_ended :: bool
  t_audio_started :: bool
  t_audio_ended :: bool
  t_response_done :: bool
  t_response_cancel_sent :: bool
  t_discard_downlink :: bool

definition new_transport :: transport where
  "new_transport = \<lparr>t_started = False, t_connected = False, t_closing = False, t_device_id = [],
     t_uuid = replicate 16 0, t_pin = replicate 32 0, t_turn = no_ids, t_response = no_ids, t_session = 0,
     t_session_epoch = 0, t_response_id = [], t_uplink_sequence = 0, t_downlink_sequence = 0,
     t_active = False, t_committed = False, t_uplink_ended = False, t_audio_started = False,
     t_audio_ended = False, t_response_done = False, t_response_cancel_sent = False,
     t_discard_downlink = False\<rparr>"

text \<open>
  What a step lets out: a text or binary frame accepted by websocketpp, a call of the inbound or of the
  error callback, a close frame with its reason. \<open>Out_Text\<close> also names the control it carries.
\<close>

datatype effect = Out_Text control string | Out_Frame bytes | Out_Inbound inbound | Out_Error string
  | Out_Close string

text \<open>
  websocketpp during one send: \<open>buffered\<close> is what \<^verbatim>\<open>get_buffered_amount\<close> returns (\<open>None\<close> when the handle
  is gone and it throws), \<open>send_error\<close> is the error code of \<^verbatim>\<open>client_.send\<close>.
\<close>

record send_env =
  buffered :: "nat option"
  send_error :: bool

subsection \<open>Sending\<close>

datatype queue_capacity = Queue_Available | Queue_Full | Queue_Unavailable

definition check_queue_capacity :: "send_env \<Rightarrow> nat \<Rightarrow> queue_capacity" where
  "check_queue_capacity env n = (case buffered env of
     None \<Rightarrow> Queue_Unavailable
   | Some queued \<Rightarrow>
       if queued \<le> k_max_buffered_bytes \<and> n \<le> k_max_buffered_bytes - queued
       then Queue_Available else Queue_Full)"

definition valid_ids :: "wire_ids \<Rightarrow> bool" where
  "valid_ids i \<longleftrightarrow> session i \<noteq> 0 \<and> turn i \<noteq> 0 \<and> stream i \<noteq> 0 \<and> epoch i \<noteq> 0"

text \<open>\<open>Inr (type, payload)\<close>: the control may be sent; \<open>Inl b\<close>: \<^verbatim>\<open>Send\<close> returns \<open>b\<close> at once.\<close>

definition control_body :: "transport \<Rightarrow> control \<Rightarrow> bool + (string \<times> string)" where
  "control_body t c = (let ids = ctl_ids c in case ctl_kind c of
     Ctl_Hello \<Rightarrow>
       if session ids \<noteq> 0 \<or> turn ids \<noteq> 0 \<or> stream ids \<noteq> 0 \<or> epoch ids \<noteq> 0 \<or>
          \<not> is_valid_device_token (ctl_device_token c) then Inl False
       else Inr (''hello'', ''{'' @ [CHR 0x22] @ ''device_token'' @ [CHR 0x22] @ '':'' @ quote (ctl_device_token c) @ ''}'')
   | Ctl_TurnStart \<Rightarrow>
       if \<not> valid_ids ids \<or> t_active t \<or> session ids \<noteq> t_session t \<or> epoch ids < t_session_epoch t \<or>
          (epoch (t_turn t) \<noteq> 0 \<and> epoch ids \<le> epoch (t_turn t)) then Inl False
       else Inr (''turn.start'', ''{'' @ [CHR 0x22] @ ''sample_rate_hz'' @ [CHR 0x22] @ '':16000}'')
   | Ctl_TurnCommit \<Rightarrow>
       if \<not> t_active t \<or> t_committed t \<or> \<not> t_uplink_ended t \<or> stream ids \<noteq> stream (t_turn t) \<or>
          \<not> same_turn ids (t_turn t) then Inl False
       else Inr (''turn.commit'', ''{}'')
   | Ctl_TurnCancel \<Rightarrow>
       if \<not> t_active t \<or> t_response_cancel_sent t \<or> \<not> same_ids ids (t_turn t) then Inl False
       else Inr (''turn.cancel'', ''{}'')
   | Ctl_ResponseCancel \<Rightarrow>
       if \<not> same_turn ids (t_turn t) \<or>
          (stream ids \<noteq> stream (t_turn t) \<and> stream ids \<noteq> stream (t_response t)) then Inl False
       else if \<not> t_active t \<and>
          (\<not> t_response_done t \<or> \<not> valid_ids (t_response t) \<or> \<not> same_ids ids (t_response t)) then Inl False
       else if t_response_cancel_sent t then Inl True
       else Inr (''response.cancel'', ''{}''))"

definition json_member :: "string \<Rightarrow> string \<Rightarrow> string" where
  "json_member key value = [CHR 0x22] @ key @ [CHR 0x22] @ '':'' @ value"

definition control_json :: "transport \<Rightarrow> control \<Rightarrow> string \<Rightarrow> string \<Rightarrow> string" where
  "control_json t c type payload =
     ''{'' @ json_member ''version'' ''1'' @ '','' @
     json_member ''type'' ([CHR 0x22] @ type @ [CHR 0x22]) @ '','' @
     json_member ''message_id'' (quote (ctl_message_id c)) @ '','' @
     json_member ''device_id'' (quote (t_device_id t)) @ '','' @
     json_member ''session_id'' (decimal (unat (session (ctl_ids c)))) @ '','' @
     json_member ''turn_id'' (decimal (unat (turn (ctl_ids c)))) @ '','' @
     json_member ''stream_id'' (decimal (unat (stream (ctl_ids c)))) @ '','' @
     json_member ''epoch'' (decimal (unat (epoch (ctl_ids c)))) @ '','' @
     json_member ''payload'' payload @ ''}''"

definition send_text :: "send_env \<Rightarrow> transport \<Rightarrow> string \<Rightarrow> bool \<Rightarrow> bool" where
  "send_text env t json cancellation =
     (if \<not> t_connected t \<or> json = [] \<or> 64 * 1024 < length json then False
      else let capacity = check_queue_capacity env (length json) in
        if capacity = Queue_Unavailable \<or> (capacity = Queue_Full \<and> \<not> cancellation) then False
        else \<not> send_error env)"

definition is_cancel :: "control_kind \<Rightarrow> bool" where
  "is_cancel k \<longleftrightarrow> k = Ctl_TurnCancel \<or> k = Ctl_ResponseCancel"

text \<open>The bookkeeping after a control went out.\<close>

definition after_control :: "transport \<Rightarrow> control \<Rightarrow> transport" where
  "after_control t c = (case ctl_kind c of
     Ctl_TurnStart \<Rightarrow> t\<lparr>t_turn := ctl_ids c, t_response := no_ids, t_response_id := [], t_active := True,
       t_committed := False, t_uplink_ended := False, t_audio_started := False, t_audio_ended := False,
       t_response_done := False, t_response_cancel_sent := False, t_discard_downlink := False,
       t_uplink_sequence := 0, t_downlink_sequence := 0\<rparr>
   | Ctl_TurnCommit \<Rightarrow> t\<lparr>t_committed := True\<rparr>
   | Ctl_TurnCancel \<Rightarrow> t\<lparr>t_response_cancel_sent := True\<rparr>
   | Ctl_ResponseCancel \<Rightarrow> t\<lparr>t_response_cancel_sent := True\<rparr>
   | Ctl_Hello \<Rightarrow> t)"

definition send_control :: "send_env \<Rightarrow> control \<Rightarrow> transport \<Rightarrow> bool \<times> transport \<times> effect list" where
  "send_control env c t =
     (if ctl_message_id c = [] \<or> 64 < length (ctl_message_id c) then (False, t, [])
      else case control_body t c of
        Inl b \<Rightarrow> (b, t, [])
      | Inr (type, payload) \<Rightarrow>
          let json = control_json t c type payload in
          if \<not> send_text env t json (is_cancel (ctl_kind c)) then (False, t, [])
          else (True, after_control t c, [Out_Text c json]))"

definition flag_start :: "u16 \<Rightarrow> bool" where "flag_start f \<longleftrightarrow> f AND 1 \<noteq> 0"
definition flag_end :: "u16 \<Rightarrow> bool" where "flag_end f \<longleftrightarrow> f AND 2 \<noteq> 0"
definition flag_discontinuity :: "u16 \<Rightarrow> bool" where "flag_discontinuity f \<longleftrightarrow> f AND 4 \<noteq> 0"

definition pcm_acceptable :: "transport \<Rightarrow> pcm64_header \<Rightarrow> bytes \<Rightarrow> bool" where
  "pcm_acceptable t h pcm \<longleftrightarrow>
     \<not> (\<not> t_connected t \<or> length pcm = 0 \<or> k_max_uplink_pcm_bytes < length pcm \<or> length pcm mod 2 \<noteq> 0 \<or>
        pcm_flags h AND NOT k_known_flags \<noteq> 0 \<or> \<not> t_active t \<or> t_committed t \<or> t_uplink_ended t \<or>
        \<not> same_turn (pcm_ids h) (t_turn t) \<or> stream (pcm_ids h) \<noteq> stream (t_turn t) \<or>
        pcm_sequence h \<noteq> t_uplink_sequence t \<or> pcm_sequence h = - 1 \<or>
        (pcm_sequence h = 0) \<noteq> flag_start (pcm_flags h))"

definition send_pcm :: "send_env \<Rightarrow> pcm64_header \<Rightarrow> bytes \<Rightarrow> transport \<Rightarrow> send_outcome \<times> transport \<times> effect list" where
  "send_pcm env h pcm t =
     (if \<not> pcm_acceptable t h pcm then (Send_Rejected, t, [])
      else case check_queue_capacity env (k_header_bytes + length pcm) of
        Queue_Full \<Rightarrow> (Send_Backpressure, t, [])
      | Queue_Unavailable \<Rightarrow> (Send_Rejected, t, [])
      | Queue_Available \<Rightarrow>
          if send_error env then (Send_Rejected, t, [])
          else (Send_Ok, t\<lparr>t_uplink_sequence := t_uplink_sequence t + 1,
                          t_uplink_ended := flag_end (pcm_flags h)\<rparr>,
                [Out_Frame (encode_pcm64 (t_uuid t) h pcm)]))"

subsection \<open>Failing and delivering\<close>

definition transport_fail :: "transport \<Rightarrow> string \<Rightarrow> transport \<times> effect list" where
  "transport_fail t why = (t\<lparr>t_connected := False\<rparr>, [Out_Error why])"

text \<open>\<open>deliver e\<close>: the inbound callback returns normally on \<open>e\<close>.\<close>

definition emit :: "(inbound \<Rightarrow> bool) \<Rightarrow> transport \<Rightarrow> inbound \<Rightarrow> transport \<times> effect list" where
  "emit deliver t e =
     (if deliver e then (t, [Out_Inbound e])
      else case transport_fail t ''inbound callback threw'' of (t', o') \<Rightarrow> (t', Out_Inbound e # o'))"

definition protocol_error :: "transport \<Rightarrow> string \<Rightarrow> transport \<times> effect list" where
  "protocol_error t why = (case transport_fail t why of (t', o') \<Rightarrow> (t', o' @ [Out_Close ''protocol error'']))"

subsection \<open>Text messages\<close>

definition is_stale :: "transport \<Rightarrow> wire_ids \<Rightarrow> bool" where
  "is_stale t i =
     (if session i \<noteq> t_session t \<or> epoch i = 0 then False
      else if epoch (t_turn t) \<noteq> 0 \<and> epoch i < epoch (t_turn t) then True
      else valid_ids (t_response t) \<and> same_ids i (t_response t) \<and> \<not> t_active t)"

definition discarding :: "transport \<Rightarrow> wire_ids \<Rightarrow> bool" where
  "discarding t i \<longleftrightarrow> valid_ids (t_response t) \<and> same_ids i (t_response t) \<and>
     (t_response_cancel_sent t \<or> t_discard_downlink t)"

text \<open>
  One definition per message type, on the payload and the identities. \<open>Inl why\<close> is a thrown protocol
  error; \<open>Inr (t', None)\<close> a silent return; \<open>Inr (t', Some e)\<close> leaves the critical section and emits \<open>e\<close>.
  Every branch throws before it writes a field.
\<close>

type_synonym handled = "(transport \<times> inbound option) checked"

definition on_hello_ack :: "transport \<Rightarrow> wire_ids \<Rightarrow> cjson \<Rightarrow> handled" where
  "on_hello_ack t i body =
     ebind (require_exact_object body [''input_sample_rate_hz'', ''output_sample_rate_hz'', ''input_frame_ms'']) (\<lambda>_.
     ebind (require (\<not> (t_session t \<noteq> 0 \<or> session i = 0 \<or> turn i \<noteq> 0 \<or> stream i \<noteq> 0 \<or> epoch i = 0))
       ''invalid hello.ack identity'') (\<lambda>_.
     ebind (require_u32 body ''input_sample_rate_hz'') (\<lambda>a.
     ebind (require (a = 16000) ''unsupported hello audio contract'') (\<lambda>_.
     ebind (require_u32 body ''output_sample_rate_hz'') (\<lambda>b.
     ebind (require (b = 24000) ''unsupported hello audio contract'') (\<lambda>_.
     ebind (require_u32 body ''input_frame_ms'') (\<lambda>c.
     ebind (require (c = 20) ''unsupported hello audio contract'') (\<lambda>_.
     Inr (t\<lparr>t_session := session i, t_session_epoch := epoch i\<rparr>,
          Some (no_inbound\<lparr>in_kind := In_HelloAck, in_ids := i\<rparr>))))))))))"

definition on_response_start :: "transport \<Rightarrow> wire_ids \<Rightarrow> cjson \<Rightarrow> handled" where
  "on_response_start t i body =
     ebind (require_exact_object body [''response_id'']) (\<lambda>_.
     if is_stale t i then Inr (t, None)
     else ebind (require (\<not> (\<not> t_active t \<or> \<not> t_committed t \<or> valid_ids (t_response t) \<or>
         \<not> same_turn i (t_turn t) \<or> stream i = 0)) ''wrong response.start identity or order'') (\<lambda>_.
       ebind (require_string body ''response_id'' 1 128) (\<lambda>rid.
       let t' = t\<lparr>t_response_id := rid, t_response := i, t_downlink_sequence := 0, t_audio_started := False,
                 t_audio_ended := False, t_response_done := False\<rparr> in
       if t_response_cancel_sent t then Inr (t'\<lparr>t_discard_downlink := True\<rparr>, None)
       else Inr (t'\<lparr>t_discard_downlink := False\<rparr>,
                 Some (no_inbound\<lparr>in_kind := In_ResponseStart, in_ids := i\<rparr>)))))"

definition on_response_cancelled :: "transport \<Rightarrow> wire_ids \<Rightarrow> cjson \<Rightarrow> handled" where
  "on_response_cancelled t i body =
     ebind (require_exact_object body [''reason'']) (\<lambda>_.
     ebind (require_string body ''reason'' 1 64) (\<lambda>_.
     let stream_matches = (if valid_ids (t_response t) then stream i = stream (t_response t) else stream i \<noteq> 0) in
     ebind (require (\<not> ((\<not> t_active t \<and> \<not> t_response_done t) \<or> \<not> t_response_cancel_sent t \<or>
         \<not> same_turn i (t_turn t) \<or> \<not> stream_matches)) ''wrong cancellation identity'') (\<lambda>_.
     Inr (t\<lparr>t_active := False, t_response_done := False, t_response_cancel_sent := False,
           t_discard_downlink := False\<rparr>,
          Some (no_inbound\<lparr>in_kind := In_Cancelled, in_ids := i\<rparr>)))))"

definition on_error_message :: "transport \<Rightarrow> wire_ids \<Rightarrow> cjson \<Rightarrow> handled" where
  "on_error_message t i body =
     ebind (require_exact_object body [''code'', ''message'']) (\<lambda>_.
     if is_stale t i then Inr (t, None)
     else ebind (require_string body ''code'' 1 64) (\<lambda>code.
       ebind (require_string body ''message'' 1 512) (\<lambda>message.
       let session_error = (session i = t_session t \<and> turn i = 0 \<and> stream i = 0 \<and> epoch i = t_session_epoch t);
           turn_error = (t_active t \<and> same_turn i (t_turn t) \<and> stream i \<noteq> 0) in
       ebind (require (\<not> (\<not> session_error \<and> \<not> turn_error)) ''wrong error identity'') (\<lambda>_.
       Inr (if turn_error then t\<lparr>t_active := False\<rparr> else t,
            Some (no_inbound\<lparr>in_kind := In_Error, in_ids := i, in_error_code := code, in_text := message\<rparr>))))))"

definition on_text_delta :: "transport \<Rightarrow> wire_ids \<Rightarrow> cjson \<Rightarrow> handled" where
  "on_text_delta t i body =
     ebind (require_exact_object body [''response_id'', ''text'']) (\<lambda>_.
     if discarding t i then Inr (t, None)
     else ebind (require_string body ''response_id'' 1 128) (\<lambda>rid.
       ebind (require (rid = t_response_id t) ''wrong response_id'') (\<lambda>_.
       ebind (require_string body ''text'' 1 4096) (\<lambda>delta.
       Inr (t, Some (no_inbound\<lparr>in_kind := In_TextDelta, in_ids := i, in_text := delta\<rparr>))))))"

definition on_audio_start :: "transport \<Rightarrow> wire_ids \<Rightarrow> cjson \<Rightarrow> handled" where
  "on_audio_start t i body =
     ebind (require_exact_object body [''response_id'', ''sample_rate_hz'']) (\<lambda>_.
     if discarding t i then Inr (t, None)
     else ebind (require_string body ''response_id'' 1 128) (\<lambda>rid.
       ebind (require (\<not> (rid \<noteq> t_response_id t \<or> t_audio_started t)) ''invalid audio contract'') (\<lambda>_.
       ebind (require_u32 body ''sample_rate_hz'') (\<lambda>rate.
       ebind (require (rate = 24000) ''invalid audio contract'') (\<lambda>_.
       Inr (t\<lparr>t_audio_started := True\<rparr>, Some (no_inbound\<lparr>in_kind := In_AudioStart, in_ids := i\<rparr>)))))))"

definition on_response_done :: "transport \<Rightarrow> wire_ids \<Rightarrow> cjson \<Rightarrow> handled" where
  "on_response_done t i body =
     ebind (require_exact_object body [''response_id'']) (\<lambda>_.
     ebind (require_string body ''response_id'' 1 128) (\<lambda>rid.
     ebind (require (\<not> (rid \<noteq> t_response_id t \<or> (t_audio_started t \<and> \<not> t_audio_ended t \<and> \<not> discarding t i)))
       ''invalid response.done'') (\<lambda>_.
     Inr (t\<lparr>t_active := False, t_response_done := True,
           t_discard_downlink := (if \<not> t_response_cancel_sent t then False else t_discard_downlink t)\<rparr>,
          Some (no_inbound\<lparr>in_kind := In_Done, in_ids := i\<rparr>)))))"

text \<open>The messages of an open response share the guard on its identity.\<close>

definition on_response_message :: "transport \<Rightarrow> string \<Rightarrow> wire_ids \<Rightarrow> cjson \<Rightarrow> handled" where
  "on_response_message t type i body =
     (if is_stale t i then Inr (t, None)
      else if \<not> t_active t \<or> \<not> valid_ids (t_response t) \<or> session i \<noteq> session (t_response t) \<or>
              turn i \<noteq> turn (t_response t) \<or> stream i \<noteq> stream (t_response t) \<or> epoch i \<noteq> epoch (t_response t)
           then Inl ''wrong response identity''
      else if type = ''response.text_delta'' then on_text_delta t i body
      else if type = ''response.audio_start'' then on_audio_start t i body
      else if type = ''response.done'' then on_response_done t i body
      else Inl ''unsupported control type'')"

definition handle_envelope :: "transport \<Rightarrow> envelope \<Rightarrow> handled" where
  "handle_envelope t e =
     (if env_device_id e \<noteq> t_device_id t then Inl ''wrong device identity''
      else let i = env_ids e; body = env_payload e; type = env_type e in
        if type = ''hello.ack'' then on_hello_ack t i body
        else if type = ''response.start'' then on_response_start t i body
        else if type = ''response.cancelled'' then on_response_cancelled t i body
        else if type = ''error'' then on_error_message t i body
        else on_response_message t type i body)"

definition on_text :: "json_parser \<Rightarrow> (inbound \<Rightarrow> bool) \<Rightarrow> string \<Rightarrow> transport \<Rightarrow> transport \<times> effect list" where
  "on_text cjson_parse deliver json t = (case ebind (parse_envelope cjson_parse json) (handle_envelope t) of
     Inl why \<Rightarrow> protocol_error t why
   | Inr (t', None) \<Rightarrow> (t', [])
   | Inr (t', Some e) \<Rightarrow> emit deliver t' e)"

subsection \<open>Binary messages\<close>

definition bad_pcm_header :: "bytes \<Rightarrow> bool" where
  "bad_pcm_header p \<longleftrightarrow> length p < k_header_bytes \<or> take 4 p \<noteq> magic \<or> p ! 4 \<noteq> 1 \<or> p ! 5 \<noteq> 2 \<or>
     get16 (sub p 8) \<noteq> 64 \<or> p ! 10 \<noteq> 1 \<or> p ! 11 \<noteq> 1"

definition bad_pcm_framing :: "transport \<Rightarrow> bytes \<Rightarrow> bool" where
  "bad_pcm_framing t p \<longleftrightarrow> (let payload = unat (get32 (sub p 16)); flags = get16 (sub p 6) in
     payload = 0 \<or> k_max_downlink_pcm_bytes < payload \<or> payload mod 2 \<noteq> 0 \<or>
     length p \<noteq> k_header_bytes + payload \<or> flags AND NOT k_known_flags \<noteq> 0 \<or>
     get32 (sub p 12) \<noteq> 24000 \<or> take 16 (sub p 36) \<noteq> t_uuid t)"

definition bad_pcm_order :: "transport \<Rightarrow> pcm64_header \<Rightarrow> bool" where
  "bad_pcm_order t h \<longleftrightarrow> \<not> t_audio_started t \<or> t_audio_ended t \<or>
     pcm_sequence h \<noteq> t_downlink_sequence t \<or> t_downlink_sequence t = - 1 \<or>
     session (pcm_ids h) \<noteq> session (t_response t) \<or> turn (pcm_ids h) \<noteq> turn (t_response t) \<or>
     stream (pcm_ids h) \<noteq> stream (t_response t) \<or> epoch (pcm_ids h) \<noteq> epoch (t_response t) \<or>
     (t_downlink_sequence t = 0) \<noteq> flag_start (pcm_flags h)"

definition on_binary :: "(inbound \<Rightarrow> bool) \<Rightarrow> bytes \<Rightarrow> transport \<Rightarrow> transport \<times> effect list" where
  "on_binary deliver p t =
     (if bad_pcm_header p then protocol_error t ''invalid PCM header''
      else let h = header_of p; i = pcm_ids h; e = no_inbound\<lparr>in_kind := In_Pcm, in_ids := i, in_pcm := h\<rparr> in
        if bad_pcm_framing t p then protocol_error t ''invalid PCM framing''
        else if is_stale t i \<or> discarding t i then (t, [])
        else if bad_pcm_order t h then protocol_error t ''PCM identity or sequence mismatch''
        else if flag_discontinuity (pcm_flags h) then
          emit deliver (t\<lparr>t_discard_downlink := True\<rparr>)
            (e\<lparr>in_kind := In_Error, in_error_code := ''downlink_discontinuity'',
               in_text := ''downlink PCM is discontinuous''\<rparr>)
        else
          emit deliver (t\<lparr>t_downlink_sequence := t_downlink_sequence t + 1,
                          t_audio_ended := flag_end (pcm_flags h)\<rparr>)
            (e\<lparr>in_audio := take (unat (get32 (sub p 16))) (sub p k_header_bytes)\<rparr>))"

datatype payload = Text_Message string | Binary_Message bytes | Other_Message nat

definition on_message ::
  "json_parser \<Rightarrow> (inbound \<Rightarrow> bool) \<Rightarrow> payload \<Rightarrow> transport \<Rightarrow> transport \<times> effect list" where
  "on_message cjson_parse deliver m t = (case m of
     Text_Message s \<Rightarrow> if k_max_message_bytes < length s then protocol_error t ''message too large''
                       else on_text cjson_parse deliver s t
   | Binary_Message p \<Rightarrow> if k_max_message_bytes < length p then protocol_error t ''message too large''
                       else on_binary deliver p t
   | Other_Message n \<Rightarrow> if k_max_message_bytes < n then protocol_error t ''message too large''
                       else protocol_error t ''unsupported WebSocket opcode'')"

subsection \<open>Connection\<close>

text \<open>\<open>decode_block\<close> is OpenSSL's \<^verbatim>\<open>EVP_DecodeBlock\<close>: the bytes it writes, or \<open>None\<close>.\<close>

definition decode_pin :: "(string \<Rightarrow> bytes option) \<Rightarrow> string \<Rightarrow> bytes option" where
  "decode_pin decode_block pin =
     (if \<not> is_valid_spki_sha256 pin then None
      else case decode_block pin of
        None \<Rightarrow> None
      | Some decoded \<Rightarrow> if length decoded = 33 then Some (take 32 decoded) else None)"

text \<open>\<open>uri_ok\<close> and \<open>thread_ok\<close>: \<^verbatim>\<open>get_connection\<close> gives no error and the thread starts.\<close>

definition connect ::
  "(string \<Rightarrow> bytes option) \<Rightarrow> bool \<Rightarrow> bool \<Rightarrow> transport_config \<Rightarrow> transport \<Rightarrow> bool \<times> transport" where
  "connect decode_block uri_ok thread_ok c t =
     (if t_started t \<or> tc_host c = [] then (False, t)
      else case parse_uuid (tc_device_id c) of
        None \<Rightarrow> (False, t)
      | Some uuid \<Rightarrow>
          let t1 = t\<lparr>t_uuid := uuid\<rparr> in
          (case decode_pin decode_block (tc_spki_sha256_base64 c) of
             None \<Rightarrow> (False, t1)
           | Some pin \<Rightarrow>
               let t2 = t1\<lparr>t_pin := pin\<rparr> in
               if tc_port c = 0 then (False, t2)
               else let t3 = t2\<lparr>t_device_id := tc_device_id c\<rparr> in
                 if \<not> uri_ok \<or> \<not> thread_ok then (False, t3) else (True, t3\<lparr>t_started := True\<rparr>)))"

text \<open>
  The certificate callback: the purpose check, the DER bytes of the public key (\<open>None\<close> when OpenSSL
  reports no size or the two encodings disagree) and their SHA-256 digest.
\<close>

record certificate =
  purpose_ok :: bool
  spki_der :: "bytes option"

definition verify_pin :: "(bytes \<Rightarrow> bytes option) \<Rightarrow> certificate option \<Rightarrow> transport \<Rightarrow> bool" where
  "verify_pin sha256 cert t = (case cert of
     None \<Rightarrow> False
   | Some x \<Rightarrow> if \<not> purpose_ok x then False
       else (case spki_der x of
         None \<Rightarrow> False
       | Some der \<Rightarrow> if der = [] then False
           else (case sha256 der of
             None \<Rightarrow> False
           | Some digest \<Rightarrow> length digest = 32 \<and> digest = t_pin t)))"

definition on_open :: "transport \<Rightarrow> transport \<times> effect list" where
  "on_open t = (if t_closing t then (t, [Out_Close '''']) else (t\<lparr>t_connected := True\<rparr>, []))"

definition on_close :: "string \<Rightarrow> transport \<Rightarrow> transport \<times> effect list" where
  "on_close reason t = (let t' = t\<lparr>t_connected := False\<rparr> in
     if t_closing t then (t', []) else transport_fail t' (if reason = [] then ''connection closed'' else reason))"

definition on_ping :: "(inbound \<Rightarrow> bool) \<Rightarrow> transport \<Rightarrow> transport \<times> effect list" where
  "on_ping deliver t = emit deliver t (no_inbound\<lparr>in_kind := In_Heartbeat\<rparr>)"

definition close_transport :: "transport \<Rightarrow> transport \<times> effect list" where
  "close_transport t =
     (if t_closing t then (t\<lparr>t_started := False\<rparr>, [])
      else (t\<lparr>t_closing := True, t_connected := False, t_started := False\<rparr>,
            if t_connected t then [Out_Close ''''] else []))"

end
