(* ===== verification/Session.thy ===== *)
theory Session
  imports Transport
begin

section \<open>The session protocol: what every run of the transport guarantees\<close>

text \<open>
  The steps of \<^verbatim>\<open>VoiceTransport::Impl\<close> as one transition function, an abstract relation of the moves the
  server's messages may make, and the invariants of all runs: uplink and downlink PCM are gapless, at
  most one cancellation goes out per turn, nothing of a cancelled response reaches the application.
\<close>

subsection \<open>Moves a server message may make\<close>

text \<open>
  \<open>admits t i t' r\<close>: in state \<open>t\<close>, a message with identities \<open>i\<close> may lead to \<open>t'\<close> and hand \<open>r\<close> to the
  application.
\<close>

inductive admits :: "transport \<Rightarrow> wire_ids \<Rightarrow> transport \<Rightarrow> inbound option \<Rightarrow> bool" where
  Stale: "is_stale t i \<Longrightarrow> admits t i t None"
| Discarded: "discarding t i \<Longrightarrow> admits t i t None"
| Hello: "t_session t = 0 \<Longrightarrow> session i \<noteq> 0 \<Longrightarrow> epoch i \<noteq> 0 \<Longrightarrow> turn i = 0 \<Longrightarrow> stream i = 0 \<Longrightarrow>
    in_kind e = In_HelloAck \<Longrightarrow> in_ids e = i \<Longrightarrow>
    admits t i (t\<lparr>t_session := session i, t_session_epoch := epoch i\<rparr>) (Some e)"
| Start_Discarded: "t_active t \<Longrightarrow> t_committed t \<Longrightarrow> \<not> valid_ids (t_response t) \<Longrightarrow> same_turn i (t_turn t) \<Longrightarrow>
    stream i \<noteq> 0 \<Longrightarrow> t_response_cancel_sent t \<Longrightarrow>
    admits t i (t\<lparr>t_response_id := rid, t_response := i, t_downlink_sequence := 0, t_audio_started := False,
      t_audio_ended := False, t_response_done := False, t_discard_downlink := True\<rparr>) None"
| Start: "t_active t \<Longrightarrow> t_committed t \<Longrightarrow> \<not> valid_ids (t_response t) \<Longrightarrow> same_turn i (t_turn t) \<Longrightarrow>
    stream i \<noteq> 0 \<Longrightarrow> \<not> t_response_cancel_sent t \<Longrightarrow> in_kind e = In_ResponseStart \<Longrightarrow> in_ids e = i \<Longrightarrow>
    admits t i (t\<lparr>t_response_id := rid, t_response := i, t_downlink_sequence := 0, t_audio_started := False,
      t_audio_ended := False, t_response_done := False, t_discard_downlink := False\<rparr>) (Some e)"
| Cancelled: "t_active t \<or> t_response_done t \<Longrightarrow> t_response_cancel_sent t \<Longrightarrow> same_turn i (t_turn t) \<Longrightarrow>
    in_kind e = In_Cancelled \<Longrightarrow> in_ids e = i \<Longrightarrow>
    admits t i (t\<lparr>t_active := False, t_response_done := False, t_response_cancel_sent := False,
      t_discard_downlink := False\<rparr>) (Some e)"
| Session_Error: "session i = t_session t \<Longrightarrow> turn i = 0 \<Longrightarrow> epoch i = t_session_epoch t \<Longrightarrow>
    in_kind e = In_Error \<Longrightarrow> in_ids e = i \<Longrightarrow> admits t i t (Some e)"
| Turn_Error: "t_active t \<Longrightarrow> same_turn i (t_turn t) \<Longrightarrow> in_kind e = In_Error \<Longrightarrow> in_ids e = i \<Longrightarrow>
    admits t i (t\<lparr>t_active := False\<rparr>) (Some e)"
| Text: "t_active t \<Longrightarrow> valid_ids (t_response t) \<Longrightarrow> i = t_response t \<Longrightarrow> \<not> discarding t i \<Longrightarrow>
    in_kind e = In_TextDelta \<Longrightarrow> in_ids e = i \<Longrightarrow> admits t i t (Some e)"
| Audio: "t_active t \<Longrightarrow> valid_ids (t_response t) \<Longrightarrow> i = t_response t \<Longrightarrow> \<not> discarding t i \<Longrightarrow>
    \<not> t_audio_started t \<Longrightarrow> in_kind e = In_AudioStart \<Longrightarrow> in_ids e = i \<Longrightarrow>
    admits t i (t\<lparr>t_audio_started := True\<rparr>) (Some e)"
| Done: "t_active t \<Longrightarrow> valid_ids (t_response t) \<Longrightarrow> i = t_response t \<Longrightarrow>
    \<not> t_audio_started t \<or> t_audio_ended t \<or> discarding t i \<Longrightarrow> in_kind e = In_Done \<Longrightarrow> in_ids e = i \<Longrightarrow>
    admits t i (t\<lparr>t_active := False, t_response_done := True,
      t_discard_downlink := (if \<not> t_response_cancel_sent t then False else t_discard_downlink t)\<rparr>) (Some e)"

lemma no_inbound_kind [simp]: "in_kind (no_inbound\<lparr>in_kind := k, in_ids := i\<rparr>) = k"
  "in_ids (no_inbound\<lparr>in_kind := k, in_ids := i\<rparr>) = i"
  by simp_all

lemma ids_eqI: "session i = session j \<Longrightarrow> turn i = turn j \<Longrightarrow> stream i = stream j \<Longrightarrow> epoch i = epoch j \<Longrightarrow> i = j"
  for i j :: wire_ids
  by simp

lemma admits_hello: "on_hello_ack t i body = Inr (t', r) \<Longrightarrow> admits t i t' r"
  by (auto simp: on_hello_ack_def intro!: admits.Hello)

lemma admits_start: "on_response_start t i body = Inr (t', r) \<Longrightarrow> admits t i t' r"
  by (auto simp: on_response_start_def Let_def split: if_splits
      intro: admits.Stale intro!: admits.Start_Discarded admits.Start)

lemma admits_cancelled: "on_response_cancelled t i body = Inr (t', r) \<Longrightarrow> admits t i t' r"
  by (auto simp: on_response_cancelled_def Let_def split: if_splits intro!: admits.Cancelled)

lemma admits_error: "on_error_message t i body = Inr (t', r) \<Longrightarrow> admits t i t' r"
  by (auto simp: on_error_message_def Let_def split: if_splits
      intro: admits.Stale intro!: admits.Session_Error admits.Turn_Error)

lemma admits_text:
  "on_text_delta t i body = Inr (t', r) \<Longrightarrow> t_active t \<Longrightarrow> valid_ids (t_response t) \<Longrightarrow> i = t_response t \<Longrightarrow>
   admits t i t' r"
  by (auto simp: on_text_delta_def split: if_splits intro: admits.Discarded intro!: admits.Text)

lemma admits_audio:
  "on_audio_start t i body = Inr (t', r) \<Longrightarrow> t_active t \<Longrightarrow> valid_ids (t_response t) \<Longrightarrow> i = t_response t \<Longrightarrow>
   admits t i t' r"
  by (auto simp: on_audio_start_def split: if_splits intro: admits.Discarded intro!: admits.Audio)

lemma admits_done:
  "on_response_done t i body = Inr (t', r) \<Longrightarrow> t_active t \<Longrightarrow> valid_ids (t_response t) \<Longrightarrow> i = t_response t \<Longrightarrow>
   admits t i t' r"
  using admits.Done [of t i "no_inbound\<lparr>in_kind := In_Done, in_ids := i\<rparr>"]
  by (auto simp: on_response_done_def)

lemma admits_message: "on_response_message t type i body = Inr (t', r) \<Longrightarrow> admits t i t' r"
  unfolding on_response_message_def
  by (auto split: if_splits intro: admits.Stale admits_text admits_audio admits_done ids_eqI)

lemma handle_envelope_admits:
  assumes "handle_envelope t e = Inr (t', r)"
  shows "admits t (env_ids e) t' r"
  using assms unfolding handle_envelope_def Let_def
  by (auto split: if_splits intro: admits_hello admits_start admits_cancelled admits_error admits_message)

subsection \<open>The session invariant\<close>

definition turn_ok :: "u32 \<Rightarrow> u32 \<Rightarrow> wire_ids \<Rightarrow> bool" where
  "turn_ok s s_epoch i \<longleftrightarrow> (s = 0 \<longrightarrow> i = no_ids) \<and> (s \<noteq> 0 \<longrightarrow> s_epoch \<noteq> 0) \<and>
     (i \<noteq> no_ids \<longrightarrow> valid_ids i \<and> session i = s \<and> s_epoch \<le> epoch i)"

definition response_ok :: "wire_ids \<Rightarrow> wire_ids \<Rightarrow> bool \<Rightarrow> bool" where
  "response_ok r i committed \<longleftrightarrow> (r \<noteq> no_ids \<longrightarrow> valid_ids r \<and> same_turn r i \<and> committed)"

definition session_inv :: "transport \<Rightarrow> bool" where
  "session_inv t \<longleftrightarrow>
     length (t_uuid t) = 16 \<and>
     turn_ok (t_session t) (t_session_epoch t) (t_turn t) \<and>
     response_ok (t_response t) (t_turn t) (t_committed t) \<and>
     (t_active t \<longrightarrow> valid_ids (t_turn t)) \<and>
     (t_committed t \<longrightarrow> t_uplink_ended t) \<and>
     (t_uplink_ended t \<longrightarrow> t_uplink_sequence t \<noteq> 0) \<and>
     (t_audio_started t \<longrightarrow> valid_ids (t_response t)) \<and>
     (t_downlink_sequence t \<noteq> 0 \<longrightarrow> t_audio_started t) \<and>
     (t_audio_ended t \<longrightarrow> t_downlink_sequence t \<noteq> 0) \<and>
     (t_response_done t \<longrightarrow> \<not> t_active t \<and> valid_ids (t_response t)) \<and>
     (t_discard_downlink t \<longrightarrow> valid_ids (t_response t)) \<and>
     (t_response_cancel_sent t \<longrightarrow> valid_ids (t_turn t))"

lemma not_valid_no_ids [simp]: "\<not> valid_ids no_ids"
  by (simp add: valid_ids_def no_ids_def)

lemma same_turn_refl [simp]: "same_turn i i"
  by (simp add: same_turn_def)

lemma valid_ids_same_turn: "valid_ids j \<Longrightarrow> same_turn i j \<Longrightarrow> stream i \<noteq> 0 \<Longrightarrow> valid_ids i"
  by (auto simp: valid_ids_def same_turn_def)

lemma session_inv_connected [simp]: "session_inv (t\<lparr>t_connected := b\<rparr>) = session_inv t"
  and session_inv_closing [simp]: "session_inv (t\<lparr>t_closing := b\<rparr>) = session_inv t"
  and session_inv_started [simp]: "session_inv (t\<lparr>t_started := b\<rparr>) = session_inv t"
  by (simp_all add: session_inv_def)

lemma turn_ok_hello: "turn_ok 0 se i \<Longrightarrow> s \<noteq> 0 \<Longrightarrow> e \<noteq> 0 \<Longrightarrow> turn_ok s e i"
  by (simp add: turn_ok_def)

lemma turn_ok_start: "turn_ok s se i \<Longrightarrow> valid_ids j \<Longrightarrow> session j = s \<Longrightarrow> se \<le> epoch j \<Longrightarrow> turn_ok s se j"
  by (auto simp: turn_ok_def valid_ids_def)

lemma response_ok_none [simp]: "response_ok no_ids i c"
  by (simp add: response_ok_def)

lemma response_ok_commit: "response_ok r i False \<Longrightarrow> response_ok r i True"
  by (auto simp: response_ok_def)

lemma turn_of_response:
  assumes "turn_ok s se i" "response_ok r i c" "valid_ids r"
  shows "valid_ids i"
proof -
  have "r \<noteq> no_ids" using assms(3) by auto
  then have "session i \<noteq> 0" using assms(2,3) by (simp add: response_ok_def same_turn_def valid_ids_def)
  then have "i \<noteq> no_ids" by (auto simp: no_ids_def)
  then show ?thesis using assms(1) by (simp add: turn_ok_def)
qed

lemma response_ok_intro:
  "session_inv t \<Longrightarrow> t_active t \<Longrightarrow> same_turn i (t_turn t) \<Longrightarrow> stream i \<noteq> 0 \<Longrightarrow>
   valid_ids i \<and> response_ok i (t_turn t) True"
  using valid_ids_same_turn [of "t_turn t" i] by (simp add: session_inv_def response_ok_def)

lemma session_inv_admits: "admits t i t' r \<Longrightarrow> session_inv t \<Longrightarrow> session_inv t'"
proof (induction rule: admits.induct)
  case (Hello t i e)
  then show ?case using turn_ok_hello [of "t_session_epoch t" "t_turn t" "session i" "epoch i"]
    by (simp add: session_inv_def)
next
  case (Start_Discarded t i rid)
  have "valid_ids i \<and> response_ok i (t_turn t) True" by (rule response_ok_intro) (fact Start_Discarded)+
  with Start_Discarded show ?case by (simp add: session_inv_def)
next
  case (Start t i e rid)
  have "valid_ids i \<and> response_ok i (t_turn t) True" by (rule response_ok_intro) (fact Start)+
  with Start show ?case by (simp add: session_inv_def)
next
  case (Audio t i e)
  then have "\<not> t_audio_ended t" by (auto simp: session_inv_def)
  with Audio show ?case by (simp add: session_inv_def)
qed (simp_all add: session_inv_def)

lemma word_Suc_nonzero: "(x :: 'a::len word) \<noteq> - 1 \<Longrightarrow> x + 1 \<noteq> 0"
  using add_eq_0_iff2 by blast

text \<open>What a control that may be sent implies.\<close>

lemma control_body_Inr:
  assumes "control_body t c = Inr x"
  shows "ctl_kind c = Ctl_TurnStart \<Longrightarrow> valid_ids (ctl_ids c) \<and> \<not> t_active t \<and> session (ctl_ids c) = t_session t \<and>
      t_session_epoch t \<le> epoch (ctl_ids c) \<and> (epoch (t_turn t) \<noteq> 0 \<longrightarrow> epoch (t_turn t) < epoch (ctl_ids c))"
    and "ctl_kind c = Ctl_TurnCommit \<Longrightarrow> t_active t \<and> \<not> t_committed t \<and> t_uplink_ended t \<and> ctl_ids c = t_turn t"
    and "ctl_kind c = Ctl_TurnCancel \<Longrightarrow> t_active t \<and> \<not> t_response_cancel_sent t \<and> ctl_ids c = t_turn t"
    and "ctl_kind c = Ctl_ResponseCancel \<Longrightarrow> (t_active t \<or> t_response_done t) \<and> \<not> t_response_cancel_sent t \<and>
      same_turn (ctl_ids c) (t_turn t)"
  using assms
  by (auto simp: control_body_def Let_def same_ids_eq same_turn_def not_le split: if_splits)

lemma send_control_cases:
  assumes "send_control env c t = res"
  obtains b where "res = (b, t, [])"
  | x json where "control_body t c = Inr x" "t_connected t" "res = (True, after_control t c, [Out_Text c json])"
proof (cases "control_body t c")
  case (Inl b)
  then show ?thesis using assms
    by (intro that(1) [of "fst res"]) (auto simp: send_control_def split: if_splits)
next
  case (Inr x)
  then show ?thesis using assms that(1) [of False] that(2) [OF Inr]
    by (cases x) (auto simp: send_control_def send_text_def Let_def split: if_splits)
qed

lemma session_inv_after_control:
  assumes "session_inv t" and "control_body t c = Inr x"
  shows "session_inv (after_control t c)"
proof (cases "ctl_kind c")
  case Ctl_TurnStart
  then show ?thesis
    using control_body_Inr(1) [OF assms(2)] assms(1)
      turn_ok_start [of "t_session t" "t_session_epoch t" "t_turn t" "ctl_ids c"]
    by (simp add: session_inv_def after_control_def)
next
  case Ctl_TurnCommit
  then show ?thesis using control_body_Inr(2) [OF assms(2)] assms(1) response_ok_commit [of "t_response t" "t_turn t"]
    by (simp add: session_inv_def after_control_def)
next
  case Ctl_TurnCancel
  then show ?thesis using control_body_Inr(3) [OF assms(2)] assms(1)
    by (simp add: session_inv_def after_control_def)
next
  case Ctl_ResponseCancel
  moreover have "valid_ids (t_turn t)"
    using control_body_Inr(4) [OF assms(2) Ctl_ResponseCancel] assms(1)
      turn_of_response [of "t_session t" "t_session_epoch t" "t_turn t" "t_response t" "t_committed t"]
    by (auto simp: session_inv_def)
  ultimately show ?thesis using assms(1) by (simp add: session_inv_def after_control_def)
qed (use assms in \<open>simp add: after_control_def\<close>)

lemma session_inv_control:
  assumes "session_inv t"
  shows "session_inv (fst (snd (send_control env c t)))"
proof -
  obtain res where res: "send_control env c t = res" by blast
  then show ?thesis
    by (cases rule: send_control_cases) (use assms res session_inv_after_control in auto)
qed

lemma send_pcm_cases:
  assumes "send_pcm env h pcm t = res"
  obtains b where "res = (b, t, [])"
  | "pcm_acceptable t h pcm"
    "res = (Send_Ok, t\<lparr>t_uplink_sequence := t_uplink_sequence t + 1, t_uplink_ended := flag_end (pcm_flags h)\<rparr>,
            [Out_Frame (encode_pcm64 (t_uuid t) h pcm)])"
proof (cases "pcm_acceptable t h pcm \<and> check_queue_capacity env (k_header_bytes + length pcm) = Queue_Available \<and>
    \<not> send_error env")
  case True
  then show ?thesis using assms by (intro that(2)) (simp_all add: send_pcm_def)
next
  case False
  then show ?thesis using assms
    by (intro that(1) [of "fst res"]) (auto simp: send_pcm_def split: queue_capacity.splits)
qed

lemma session_inv_pcm:
  assumes "session_inv t"
  shows "session_inv (fst (snd (send_pcm env h pcm t)))"
proof -
  obtain res where res: "send_pcm env h pcm t = res" by blast
  then show ?thesis
  proof (cases rule: send_pcm_cases)
    case 2
    then have "session_inv (t\<lparr>t_uplink_sequence := t_uplink_sequence t + 1, t_uplink_ended := flag_end (pcm_flags h)\<rparr>)"
      using assms by (simp add: session_inv_def pcm_acceptable_def word_Suc_nonzero)
    with res 2 show ?thesis by simp
  qed (use assms res in simp)
qed

lemma session_inv_fail [simp]: "session_inv (fst (transport_fail t why)) = session_inv t"
  by (simp add: transport_fail_def)

lemma session_inv_emit [simp]: "session_inv (fst (emit deliver t e)) = session_inv t"
  by (simp add: emit_def transport_fail_def)

lemma session_inv_error [simp]: "session_inv (fst (protocol_error t why)) = session_inv t"
  by (simp add: protocol_error_def transport_fail_def)

lemma on_text_cases:
  assumes "on_text p deliver json t = res"
  obtains why where "res = protocol_error t why"
  | t' i where "admits t i t' None" "res = (t', [])"
  | t' i e where "admits t i t' (Some e)" "res = emit deliver t' e"
proof (cases "ebind (parse_envelope p json) (handle_envelope t)")
  case (Inl why)
  then show ?thesis using assms by (intro that(1) [of why]) (simp add: on_text_def)
next
  case (Inr x)
  obtain t' r where x: "x = (t', r)" by fastforce
  then obtain env where "handle_envelope t env = Inr (t', r)" using Inr by auto
  from handle_envelope_admits [OF this] show ?thesis
    using assms Inr x that(2,3) by (cases r) (auto simp: on_text_def)
qed

text \<open>What a binary message can do.\<close>

lemma on_binary_cases:
  assumes "on_binary deliver p t = res"
  obtains why where "res = protocol_error t why"
  | "res = (t, [])"
  | e where "\<not> bad_pcm_order t (header_of p)" "\<not> is_stale t (pcm_ids (header_of p))"
      "\<not> discarding t (pcm_ids (header_of p))" "in_kind e = In_Error"
      "res = emit deliver (t\<lparr>t_discard_downlink := True\<rparr>) e"
  | e where "\<not> bad_pcm_order t (header_of p)" "\<not> is_stale t (pcm_ids (header_of p))"
      "\<not> discarding t (pcm_ids (header_of p))" "in_kind e = In_Pcm" "in_pcm e = header_of p"
      "length (in_audio e) = unat (get32 (sub p 16))" "0 < length (in_audio e)" "length (in_audio e) \<le> 960"
      "even (length (in_audio e))"
      "res = emit deliver (t\<lparr>t_downlink_sequence := t_downlink_sequence t + 1,
        t_audio_ended := flag_end (pcm_flags (header_of p))\<rparr>) e"
proof -
  define n where "n = unat (get32 (sub p 16))"
  have len: "\<not> bad_pcm_framing t p \<Longrightarrow> length p = 64 + n \<and> 0 < n \<and> n \<le> 960 \<and> even n"
    by (auto simp: bad_pcm_framing_def Let_def k_defs n_def)
  let ?h = "header_of p"
  consider (a) "bad_pcm_header p" | (b) "\<not> bad_pcm_header p" "bad_pcm_framing t p"
    | (c) "\<not> bad_pcm_header p" "\<not> bad_pcm_framing t p" "is_stale t (pcm_ids ?h) \<or> discarding t (pcm_ids ?h)"
    | (d) "\<not> bad_pcm_header p" "\<not> bad_pcm_framing t p" "\<not> is_stale t (pcm_ids ?h)" "\<not> discarding t (pcm_ids ?h)"
      "bad_pcm_order t ?h"
    | (e) "\<not> bad_pcm_header p" "\<not> bad_pcm_framing t p" "\<not> is_stale t (pcm_ids ?h)" "\<not> discarding t (pcm_ids ?h)"
      "\<not> bad_pcm_order t ?h" "flag_discontinuity (pcm_flags ?h)"
    | (f) "\<not> bad_pcm_header p" "\<not> bad_pcm_framing t p" "\<not> is_stale t (pcm_ids ?h)" "\<not> discarding t (pcm_ids ?h)"
      "\<not> bad_pcm_order t ?h" "\<not> flag_discontinuity (pcm_flags ?h)"
    by blast
  then show ?thesis
  proof cases
    case e
    then show ?thesis using assms
      by (intro that(3) [OF e(5,3,4), where e = "no_inbound\<lparr>in_ids := pcm_ids ?h, in_pcm := ?h, in_kind := In_Error,
        in_error_code := ''downlink_discontinuity'', in_text := ''downlink PCM is discontinuous''\<rparr>"])
        (simp_all add: on_binary_def Let_def)
  next
    case f
    have l: "length p = 64 + n" "0 < n" "n \<le> 960" "even n" using len [OF f(2)] by auto
    then have a: "length (take n (sub p k_header_bytes)) = n" by (simp add: sub_def k_header_bytes_def)
    show ?thesis using assms f l a
      by (intro that(4) [OF f(5,3,4), where e = "no_inbound\<lparr>in_kind := In_Pcm, in_ids := pcm_ids ?h, in_pcm := ?h,
        in_audio := take n (sub p k_header_bytes)\<rparr>"])
        (simp_all add: on_binary_def Let_def n_def [symmetric])
  next
    case c
    then show ?thesis using assms by (intro that(2)) (simp add: on_binary_def Let_def)
  next
    case a
    then show ?thesis using assms by (intro that(1) [of "''invalid PCM header''"]) (simp add: on_binary_def)
  next
    case b
    then show ?thesis using assms
      by (intro that(1) [of "''invalid PCM framing''"]) (simp add: on_binary_def Let_def)
  next
    case d
    then show ?thesis using assms
      by (intro that(1) [of "''PCM identity or sequence mismatch''"]) (simp add: on_binary_def Let_def)
  qed
qed

lemma response_of_pcm:
  assumes "\<not> bad_pcm_order t h"
  shows "pcm_ids h = t_response t" and "t_audio_started t" and "pcm_sequence h = t_downlink_sequence t"
    and "t_downlink_sequence t \<noteq> - 1" and "(pcm_sequence h = 0) = flag_start (pcm_flags h)"
    and "\<not> t_audio_ended t"
  using assms by (auto simp: bad_pcm_order_def)

lemma session_inv_binary:
  assumes "session_inv t"
  shows "session_inv (fst (on_binary deliver p t))"
proof -
  obtain res where res: "on_binary deliver p t = res" by blast
  then show ?thesis
  proof (cases rule: on_binary_cases)
    case (3 e)
    have "session_inv (t\<lparr>t_discard_downlink := True\<rparr>)"
      using assms response_of_pcm [OF 3(1)] by (simp add: session_inv_def)
    with 3 res show ?thesis by simp
  next
    case (4 e)
    have "session_inv (t\<lparr>t_downlink_sequence := t_downlink_sequence t + 1,
        t_audio_ended := flag_end (pcm_flags (header_of p))\<rparr>)"
      using assms response_of_pcm [OF 4(1)] by (simp add: session_inv_def word_Suc_nonzero)
    with 4 res show ?thesis by simp
  qed (use assms res in simp_all)
qed

lemma session_inv_text:
  assumes "session_inv t"
  shows "session_inv (fst (on_text p deliver json t))"
proof -
  obtain res where res: "on_text p deliver json t = res" by blast
  then show ?thesis
    by (cases rule: on_text_cases) (use assms res session_inv_admits in auto)
qed

subsection \<open>Steps and runs\<close>

datatype event =
    Ev_Open | Ev_Fail string | Ev_Closed string | Ev_Ping | Ev_Message payload
  | Ev_Control send_env control | Ev_Pcm send_env pcm64_header bytes | Ev_Close

fun transport_step ::
  "json_parser \<Rightarrow> (inbound \<Rightarrow> bool) \<Rightarrow> event \<Rightarrow> transport \<Rightarrow> transport \<times> effect list" where
  "transport_step p deliver Ev_Open t = on_open t"
| "transport_step p deliver (Ev_Fail why) t = transport_fail t why"
| "transport_step p deliver (Ev_Closed reason) t = on_close reason t"
| "transport_step p deliver Ev_Ping t = on_ping deliver t"
| "transport_step p deliver (Ev_Message m) t = on_message p deliver m t"
| "transport_step p deliver (Ev_Control env c) t = snd (send_control env c t)"
| "transport_step p deliver (Ev_Pcm env h pcm) t = snd (send_pcm env h pcm t)"
| "transport_step p deliver Ev_Close t = close_transport t"

text \<open>A run keeps everything that ever left the object.\<close>

definition logged_step ::
  "json_parser \<Rightarrow> (inbound \<Rightarrow> bool) \<Rightarrow> event \<Rightarrow> transport \<times> effect list \<Rightarrow> transport \<times> effect list" where
  "logged_step p deliver ev s = (case transport_step p deliver ev (fst s) of (t', o') \<Rightarrow> (t', snd s @ o'))"

definition transport_run ::
  "json_parser \<Rightarrow> (inbound \<Rightarrow> bool) \<Rightarrow> event list \<Rightarrow> transport \<Rightarrow> transport \<times> effect list" where
  "transport_run p deliver es t = fold (logged_step p deliver) es (t, [])"

lemma session_inv_message: "session_inv t \<Longrightarrow> session_inv (fst (on_message p deliver m t))"
  by (cases m) (auto simp: on_message_def session_inv_text session_inv_binary)

lemma session_inv_step: "session_inv t \<Longrightarrow> session_inv (fst (transport_step p deliver ev t))"
  by (cases ev)
    (auto simp: session_inv_message session_inv_control session_inv_pcm on_open_def on_close_def on_ping_def
      close_transport_def Let_def)

subsection \<open>The log of a turn\<close>

definition starts_turn :: "effect \<Rightarrow> bool" where
  "starts_turn o' \<longleftrightarrow> (case o' of Out_Text c _ \<Rightarrow> ctl_kind c = Ctl_TurnStart | _ \<Rightarrow> False)"

definition since_start :: "effect list \<Rightarrow> effect list" where
  "since_start lg = foldl (\<lambda>acc o'. if starts_turn o' then [] else acc @ [o']) [] lg"

lemma since_start_append:
  "since_start (lg @ os) = foldl (\<lambda>acc o'. if starts_turn o' then [] else acc @ [o']) (since_start lg) os"
  by (simp add: since_start_def)

lemma since_start_quiet: "\<forall>o' \<in> set os. \<not> starts_turn o' \<Longrightarrow> since_start (lg @ os) = since_start lg @ os"
  by (induction os rule: rev_induct) (simp_all add: since_start_append)

definition frames :: "effect list \<Rightarrow> pcm64_header list" where
  "frames lg = concat (map (\<lambda>o'. case o' of Out_Frame p \<Rightarrow> [header_of p] | _ \<Rightarrow> []) lg)"

definition heard :: "effect list \<Rightarrow> inbound list" where
  "heard lg = concat (map (\<lambda>o'. case o' of Out_Inbound e \<Rightarrow> [e] | _ \<Rightarrow> []) lg)"

definition sent :: "effect list \<Rightarrow> control list" where
  "sent lg = concat (map (\<lambda>o'. case o' of Out_Text c _ \<Rightarrow> [c] | _ \<Rightarrow> []) lg)"

lemma log_append [simp]:
  "frames (a @ b) = frames a @ frames b" "heard (a @ b) = heard a @ heard b" "sent (a @ b) = sent a @ sent b"
  "frames [] = []" "heard [] = []" "sent [] = []"
  by (simp_all add: frames_def heard_def sent_def)

text \<open>A stream of PCM headers of one identity: numbered from 0 without a gap, START on the first frame
  only, END on the last at most; \<open>n\<close> is the next sequence number.\<close>

definition stream_ok :: "wire_ids \<Rightarrow> u32 \<Rightarrow> bool \<Rightarrow> pcm64_header list \<Rightarrow> bool" where
  "stream_ok ids n ended hs \<longleftrightarrow> length hs = unat n \<and>
     (\<forall>k < length hs. pcm_sequence (hs ! k) = of_nat k \<and> pcm_ids (hs ! k) = ids \<and>
        (flag_start (pcm_flags (hs ! k)) \<longleftrightarrow> k = 0) \<and>
        (flag_end (pcm_flags (hs ! k)) \<longleftrightarrow> ended \<and> Suc k = length hs))"

lemma stream_ok_Nil [simp]: "stream_ok ids 0 ended []"
  by (simp add: stream_ok_def)

lemma stream_ok_snoc:
  assumes "stream_ok ids n False hs" and "pcm_sequence h = n" and "n \<noteq> - 1" and "pcm_ids h = ids"
    and "(n = 0) = flag_start (pcm_flags h)"
  shows "stream_ok ids (n + 1) (flag_end (pcm_flags h)) (hs @ [h])"
proof -
  have len: "length hs = unat n" using assms(1) by (simp add: stream_ok_def)
  have n0: "n = 0 \<longleftrightarrow> length hs = 0" using len by (simp add: unat_eq_zero)
  show ?thesis
    using assms len n0 by (auto simp: stream_ok_def unat_Suc_not_max nth_append less_Suc_eq)
qed

lemma stream_ok_ended: "hs = [] \<Longrightarrow> stream_ok ids n ended hs = stream_ok ids' n ended' hs"
  by (simp add: stream_ok_def)

definition cancels :: "effect \<Rightarrow> bool" where
  "cancels o' \<longleftrightarrow> (case o' of Out_Text c _ \<Rightarrow> is_cancel (ctl_kind c) | _ \<Rightarrow> False)"

definition cancel_count :: "effect list \<Rightarrow> nat" where
  "cancel_count lg = length (filter cancels lg)"

text \<open>Content of a response, as the application hears it.\<close>

definition is_content :: "inbound \<Rightarrow> bool" where
  "is_content e \<longleftrightarrow> in_kind e \<in> {In_ResponseStart, In_TextDelta, In_AudioStart, In_Pcm}"

fun silent_after_cancel :: "effect list \<Rightarrow> bool" where
  "silent_after_cancel [] = True"
| "silent_after_cancel (o' # os) =
     ((cancels o' \<longrightarrow> list_all (\<lambda>e. \<not> is_content e) (heard os)) \<and> silent_after_cancel os)"

lemma cancel_count_append [simp]:
  "cancel_count (a @ b) = cancel_count a + cancel_count b" "cancel_count [] = 0"
  by (simp_all add: cancel_count_def)

lemma silent_snoc:
  "silent_after_cancel (lg @ os) \<longleftrightarrow> silent_after_cancel lg \<and> silent_after_cancel os \<and>
     (0 < cancel_count lg \<longrightarrow> list_all (\<lambda>e. \<not> is_content e) (heard os))"
  by (induction lg) (auto simp: cancel_count_def)

definition pcm_heard :: "effect list \<Rightarrow> inbound list" where
  "pcm_heard lg = filter (\<lambda>e. in_kind e = In_Pcm) (heard lg)"

lemma pcm_heard_append [simp]: "pcm_heard (a @ b) = pcm_heard a @ pcm_heard b" "pcm_heard [] = []"
  by (simp_all add: pcm_heard_def)

definition audio_fits :: "inbound \<Rightarrow> bool" where
  "audio_fits e \<longleftrightarrow> 0 < length (in_audio e) \<and> length (in_audio e) \<le> 960 \<and> even (length (in_audio e))"

text \<open>The invariant of a state together with the log of the current turn.\<close>

definition turn_log_inv :: "transport \<Rightarrow> effect list \<Rightarrow> bool" where
  "turn_log_inv t lg \<longleftrightarrow>
     stream_ok (t_turn t) (t_uplink_sequence t) (t_uplink_ended t) (frames lg) \<and>
     stream_ok (t_response t) (t_downlink_sequence t) (t_audio_ended t) (map in_pcm (pcm_heard lg)) \<and>
     list_all audio_fits (pcm_heard lg) \<and>
     (cancel_count lg = 0 \<or>
      (cancel_count lg = 1 \<and> (t_response_cancel_sent t \<or> (\<not> t_active t \<and> \<not> t_response_done t)))) \<and>
     silent_after_cancel lg"

lemma single_effects [simp]:
  "frames [Out_Inbound e] = []" "heard [Out_Inbound e] = [e]" "sent [Out_Inbound e] = []"
  "frames [Out_Error w] = []" "heard [Out_Error w] = []" "sent [Out_Error w] = []"
  "frames [Out_Close w] = []" "heard [Out_Close w] = []" "sent [Out_Close w] = []"
  "frames [Out_Text c j] = []" "heard [Out_Text c j] = []" "sent [Out_Text c j] = [c]"
  "frames [Out_Frame p] = [header_of p]" "heard [Out_Frame p] = []" "sent [Out_Frame p] = []"
  by (simp_all add: frames_def heard_def sent_def)

lemma single_counts [simp]:
  "cancel_count [Out_Inbound e] = 0" "cancel_count [Out_Error w] = 0" "cancel_count [Out_Close w] = 0"
  "cancel_count [Out_Frame p] = 0" "cancel_count [Out_Text c j] = (if is_cancel (ctl_kind c) then 1 else 0)"
  "pcm_heard [Out_Inbound e] = (if in_kind e = In_Pcm then [e] else [])" "pcm_heard [Out_Error w] = []"
  "pcm_heard [Out_Close w] = []" "pcm_heard [Out_Frame p] = []" "pcm_heard [Out_Text c j] = []"
  by (simp_all add: cancel_count_def cancels_def pcm_heard_def)

lemma turn_log_fields [simp]:
  "turn_log_inv (t\<lparr>t_connected := b\<rparr>) lg = turn_log_inv t lg"
  "turn_log_inv (t\<lparr>t_closing := b\<rparr>) lg = turn_log_inv t lg"
  "turn_log_inv (t\<lparr>t_started := b\<rparr>) lg = turn_log_inv t lg"
  by (simp_all add: turn_log_inv_def)

lemma turn_log_quiet [simp]:
  "turn_log_inv t (lg @ [Out_Error w]) = turn_log_inv t lg"
  "turn_log_inv t (lg @ [Out_Close w]) = turn_log_inv t lg"
  by (simp_all add: turn_log_inv_def silent_snoc)

lemma turn_log_quiet2 [simp]:
  "turn_log_inv t (lg @ [x, Out_Error w]) = turn_log_inv t (lg @ [x])"
  "turn_log_inv t (lg @ [x, Out_Close w]) = turn_log_inv t (lg @ [x])"
  using turn_log_quiet [of t "lg @ [x]" w] by simp_all

lemma turn_log_other:
  assumes "\<not> is_content e"
  shows "turn_log_inv t (lg @ [Out_Inbound e]) = turn_log_inv t lg"
  using assms by (auto simp: turn_log_inv_def silent_snoc is_content_def)

lemma turn_log_content:
  assumes "turn_log_inv t lg" and "in_kind e \<noteq> In_Pcm" and "t_active t" and "\<not> t_response_cancel_sent t"
  shows "turn_log_inv t (lg @ [Out_Inbound e])"
  using assms by (auto simp: turn_log_inv_def silent_snoc)

lemma turn_log_emit:
  assumes "turn_log_inv t (lg @ [Out_Inbound e])"
  shows "turn_log_inv (fst (emit deliver t e)) (lg @ snd (emit deliver t e))"
  using assms by (simp add: emit_def transport_fail_def)

lemma turn_log_error: "turn_log_inv (fst (protocol_error t w)) (lg @ snd (protocol_error t w)) = turn_log_inv t lg"
  by (simp add: protocol_error_def transport_fail_def)

lemma no_response_no_pcm:
  assumes "session_inv t" "turn_log_inv t lg" "\<not> valid_ids (t_response t)"
  shows "pcm_heard lg = []"
proof -
  have "t_downlink_sequence t = 0" using assms(1,3) by (auto simp: session_inv_def)
  then show ?thesis using assms(2) by (simp add: turn_log_inv_def stream_ok_def)
qed

lemma turn_log_new_response:
  assumes "session_inv t" "turn_log_inv t lg" "\<not> valid_ids (t_response t)"
    and "t_active t"
  shows "turn_log_inv (t\<lparr>t_response_id := rid, t_response := i, t_downlink_sequence := 0, t_audio_started := False,
      t_audio_ended := False, t_response_done := False, t_discard_downlink := d\<rparr>) lg"
  using no_response_no_pcm [OF assms(1-3)] assms(2,4) by (simp add: turn_log_inv_def)

lemma turn_log_admits:
  assumes "admits t i t' r" and "session_inv t" and "turn_log_inv t lg"
  shows "turn_log_inv t' (lg @ (case r of None \<Rightarrow> [] | Some e \<Rightarrow> [Out_Inbound e]))"
  using assms
proof (induction rule: admits.induct)
  case (Hello t i e)
  then show ?case by (simp add: turn_log_other is_content_def) (simp add: turn_log_inv_def)
next
  case (Start_Discarded t i rid)
  then show ?case using turn_log_new_response [of t lg, where rid = rid and i = i and d = True] by simp
next
  case (Start t i e rid)
  then show ?case
    using turn_log_content [OF turn_log_new_response [of t lg, where rid = rid and i = i and d = False], of e] by simp
next
  case (Cancelled t i e)
  then show ?case by (simp add: turn_log_other is_content_def) (auto simp add: turn_log_inv_def)
next
  case (Turn_Error t i e)
  then have "\<not> t_response_done t" by (auto simp: session_inv_def)
  with Turn_Error show ?case by (simp add: turn_log_other is_content_def) (auto simp add: turn_log_inv_def)
next
  case (Text t i e)
  then have "\<not> t_response_cancel_sent t" by (simp add: discarding_def same_ids_eq)
  with Text show ?case by (simp add: turn_log_content)
next
  case (Audio t i e)
  then have "\<not> t_response_cancel_sent t" by (simp add: discarding_def same_ids_eq)
  with Audio have "turn_log_inv t (lg @ [Out_Inbound e])" by (simp add: turn_log_content)
  then show ?case by (simp add: turn_log_inv_def)
next
  case (Done t i e)
  then show ?case by (simp add: turn_log_other is_content_def) (auto simp add: turn_log_inv_def)
qed (simp_all add: turn_log_other is_content_def)

lemma turn_log_text:
  assumes "session_inv t" and "turn_log_inv t lg"
  shows "turn_log_inv (fst (on_text p deliver json t)) (lg @ snd (on_text p deliver json t))"
proof -
  obtain res where res: "on_text p deliver json t = res" by blast
  then show ?thesis
  proof (cases rule: on_text_cases)
    case (1 why)
    then show ?thesis using assms res by (simp add: turn_log_error)
  next
    case (2 t' i)
    then show ?thesis using turn_log_admits [OF 2(1) assms] res by simp
  next
    case (3 t' i e)
    then show ?thesis using turn_log_admits [OF 3(1) assms] res by (simp add: turn_log_emit)
  qed
qed

lemma turn_log_pcm:
  assumes "session_inv t" and "turn_log_inv t lg"
    and "\<not> bad_pcm_order t (in_pcm e)" and "\<not> is_stale t (pcm_ids (in_pcm e))"
    and "\<not> discarding t (pcm_ids (in_pcm e))" and "in_kind e = In_Pcm" and "audio_fits e"
  shows "turn_log_inv (t\<lparr>t_downlink_sequence := t_downlink_sequence t + 1,
      t_audio_ended := flag_end (pcm_flags (in_pcm e))\<rparr>) (lg @ [Out_Inbound e])"
proof -
  note r = response_of_pcm [OF assms(3)]
  have v: "valid_ids (t_response t)" "t_response t \<noteq> no_ids" using assms(1) r(2) by (auto simp: session_inv_def)
  have rs: "t_response_cancel_sent t = False" using assms(5) r(1) v by (simp add: discarding_def same_ids_eq)
  have "same_turn (t_response t) (t_turn t)" using assms(1) v by (simp add: session_inv_def response_ok_def)
  moreover have "valid_ids (t_turn t)"
    using assms(1) v turn_of_response [of "t_session t" "t_session_epoch t" "t_turn t" "t_response t" "t_committed t"]
    by (simp add: session_inv_def)
  moreover have "t_turn t \<noteq> no_ids" using \<open>valid_ids (t_turn t)\<close> by auto
  ultimately have "session (t_response t) = t_session t" "epoch (t_response t) \<noteq> 0"
    using assms(1) v by (auto simp: session_inv_def turn_ok_def same_turn_def valid_ids_def)
  then have act: "t_active t"
    using assms(4) r(1) v(1) by (auto simp: is_stale_def same_ids_eq split: if_splits)
  have c: "cancel_count lg = 0" using assms(2) act rs by (auto simp: turn_log_inv_def)
  have "stream_ok (t_response t) (t_downlink_sequence t + 1) (flag_end (pcm_flags (in_pcm e)))
      (map in_pcm (pcm_heard lg) @ [in_pcm e])"
    using assms(2) r by (intro stream_ok_snoc) (auto simp: turn_log_inv_def)
  then show ?thesis using assms(2,6,7) c by (simp add: turn_log_inv_def silent_snoc)
qed

lemma turn_log_binary:
  assumes "session_inv t" and "turn_log_inv t lg"
  shows "turn_log_inv (fst (on_binary deliver p t)) (lg @ snd (on_binary deliver p t))"
proof -
  obtain res where res: "on_binary deliver p t = res" by blast
  then show ?thesis
  proof (cases rule: on_binary_cases)
    case (1 why)
    then show ?thesis using assms res by (simp add: turn_log_error)
  next
    case 2
    then show ?thesis using assms res by simp
  next
    case (3 e)
    have "turn_log_inv (t\<lparr>t_discard_downlink := True\<rparr>) (lg @ [Out_Inbound e])"
      using assms(2) 3(4) by (simp add: turn_log_other is_content_def) (simp add: turn_log_inv_def)
    then show ?thesis using 3 res by (simp add: turn_log_emit)
  next
    case (4 e)
    have "audio_fits e" using 4 by (simp add: audio_fits_def)
    then show ?thesis using turn_log_pcm [OF assms, of e] 4 res by (simp add: turn_log_emit)
  qed
qed

lemma turn_log_control:
  assumes "session_inv t" and "turn_log_inv t (since_start lg)"
  shows "turn_log_inv (fst (snd (send_control env c t))) (since_start (lg @ snd (snd (send_control env c t))))"
proof -
  obtain res where res: "send_control env c t = res" by blast
  then show ?thesis
  proof (cases rule: send_control_cases)
    case (1 b)
    then show ?thesis using assms res by simp
  next
    case (2 x json)
    show ?thesis
    proof (cases "ctl_kind c = Ctl_TurnStart")
      case True
      then show ?thesis using 2 res
        by (simp add: since_start_append starts_turn_def after_control_def) (simp add: turn_log_inv_def)
    next
      case False
      then have q: "since_start (lg @ [Out_Text c json]) = since_start lg @ [Out_Text c json]"
        by (intro since_start_quiet) (simp add: starts_turn_def)
      have "turn_log_inv (after_control t c) (since_start lg @ [Out_Text c json])"
      proof (cases "is_cancel (ctl_kind c)")
        case True
        then have a: "(t_active t \<or> t_response_done t) \<and> \<not> t_response_cancel_sent t"
            "after_control t c = t\<lparr>t_response_cancel_sent := True\<rparr>"
          using control_body_Inr(3,4) [OF 2(1)] by (auto simp: is_cancel_def after_control_def)
        then have "cancel_count (since_start lg) = 0" using assms(2) by (auto simp: turn_log_inv_def)
        with a True assms(2) show ?thesis by (simp add: turn_log_inv_def silent_snoc)
      next
        case no: False
        have "turn_log_inv (after_control t c) l = turn_log_inv t l" for l
          by (cases "ctl_kind c") (use no False in \<open>simp_all add: after_control_def is_cancel_def turn_log_inv_def\<close>)
        moreover have "turn_log_inv t (since_start lg @ [Out_Text c json])"
          using no assms(2) by (simp add: turn_log_inv_def silent_snoc)
        ultimately show ?thesis by blast
      qed
      then show ?thesis unfolding res 2(3) snd_conv fst_conv q .
    qed
  qed
qed

lemma turn_log_send_pcm:
  assumes "session_inv t" and "turn_log_inv t lg"
  shows "turn_log_inv (fst (snd (send_pcm env h pcm t))) (lg @ snd (snd (send_pcm env h pcm t)))"
proof -
  obtain res where res: "send_pcm env h pcm t = res" by blast
  then show ?thesis
  proof (cases rule: send_pcm_cases)
    case (1 b)
    then show ?thesis using assms res by simp
  next
    case 2
    have "pcm_ids h = t_turn t" using 2(1) by (auto simp: pcm_acceptable_def same_turn_def)
    then have "stream_ok (t_turn t) (t_uplink_sequence t + 1) (flag_end (pcm_flags h)) (frames lg @ [h])"
      using 2(1) assms(2) by (intro stream_ok_snoc) (auto simp: turn_log_inv_def pcm_acceptable_def)
    moreover have "header_of (encode_pcm64 (t_uuid t) h pcm) = h"
      using assms(1) by (simp add: header_of_encode session_inv_def)
    ultimately show ?thesis using 2 res assms(2) by (simp add: turn_log_inv_def silent_snoc)
  qed
qed

subsection \<open>All runs\<close>

lemma quiet_effects:
  "\<forall>o' \<in> set (snd (emit deliver t e)). \<not> starts_turn o'"
  "\<forall>o' \<in> set (snd (protocol_error t w)). \<not> starts_turn o'"
  "\<forall>o' \<in> set (snd (transport_fail t w)). \<not> starts_turn o'"
  by (simp_all add: emit_def protocol_error_def transport_fail_def starts_turn_def)

lemma quiet_text: "\<forall>o' \<in> set (snd (on_text p deliver json t)). \<not> starts_turn o'"
proof -
  obtain res where res: "on_text p deliver json t = res" by blast
  then show ?thesis by (cases rule: on_text_cases) (use res quiet_effects in auto)
qed

lemma quiet_binary: "\<forall>o' \<in> set (snd (on_binary deliver m t)). \<not> starts_turn o'"
proof -
  obtain res where res: "on_binary deliver m t = res" by blast
  then show ?thesis by (cases rule: on_binary_cases) (use res quiet_effects in auto)
qed

definition epochs_ok :: "transport \<Rightarrow> effect list \<Rightarrow> bool" where
  "epochs_ok t lg \<longleftrightarrow> (let starts = filter (\<lambda>c. ctl_kind c = Ctl_TurnStart) (sent lg) in
     sorted_wrt (<) (map (epoch \<circ> ctl_ids) starts) \<and>
     (\<forall>c \<in> set starts. valid_ids (ctl_ids c) \<and> session (ctl_ids c) = t_session t \<and>
        epoch (ctl_ids c) \<le> epoch (t_turn t)))"

definition run_inv :: "transport \<times> effect list \<Rightarrow> bool" where
  "run_inv s \<longleftrightarrow> session_inv (fst s) \<and> turn_log_inv (fst s) (since_start (snd s)) \<and> epochs_ok (fst s) (snd s)"

lemma epochs_quiet:
  assumes "epochs_ok t lg" and "sent os = []" and "t_turn t' = t_turn t"
    and "t_session t' = t_session t \<or> t_session t = 0" and "session_inv t"
  shows "epochs_ok t' (lg @ os)"
proof (cases "t_session t' = t_session t")
  case True
  then show ?thesis using assms by (simp add: epochs_ok_def)
next
  case False
  then have "t_session t = 0" using assms(4) by simp
  then have "filter (\<lambda>c. ctl_kind c = Ctl_TurnStart) (sent lg) = []"
    using assms(1) by (auto simp: epochs_ok_def Let_def valid_ids_def filter_empty_conv)
  then show ?thesis using assms(2) by (simp add: epochs_ok_def)
qed

lemma admits_frame:
  "admits t i t' r \<Longrightarrow> t_turn t' = t_turn t \<and> (t_session t' = t_session t \<or> t_session t = 0)"
  by (induction rule: admits.induct) simp_all

lemma emit_frame [simp]:
  "t_turn (fst (emit deliver t e)) = t_turn t" "t_session (fst (emit deliver t e)) = t_session t"
  "sent (snd (emit deliver t e)) = []"
  "t_turn (fst (protocol_error t w)) = t_turn t" "t_session (fst (protocol_error t w)) = t_session t"
  "sent (snd (protocol_error t w)) = []"
  "t_turn (fst (transport_fail t w)) = t_turn t" "t_session (fst (transport_fail t w)) = t_session t"
  "sent (snd (transport_fail t w)) = []"
  by (simp_all add: emit_def protocol_error_def transport_fail_def sent_def)

lemma text_frame:
  "t_turn (fst (on_text p deliver json t)) = t_turn t \<and>
   (t_session (fst (on_text p deliver json t)) = t_session t \<or> t_session t = 0) \<and>
   sent (snd (on_text p deliver json t)) = []"
proof -
  obtain res where res: "on_text p deliver json t = res" by blast
  then show ?thesis
  proof (cases rule: on_text_cases)
    case (2 t' i)
    then show ?thesis using res admits_frame [OF 2(1)] by simp
  next
    case (3 t' i e)
    then show ?thesis using res admits_frame [OF 3(1)] by simp
  qed (use res in simp)
qed

lemma binary_frame:
  "t_turn (fst (on_binary deliver m t)) = t_turn t \<and>
   t_session (fst (on_binary deliver m t)) = t_session t \<and> sent (snd (on_binary deliver m t)) = []"
proof -
  obtain res where res: "on_binary deliver m t = res" by blast
  then show ?thesis by (cases rule: on_binary_cases) (use res in simp_all)
qed

lemma epochs_control:
  assumes "session_inv t" and "epochs_ok t lg"
  shows "epochs_ok (fst (snd (send_control env c t))) (lg @ snd (snd (send_control env c t)))"
proof -
  obtain res where res: "send_control env c t = res" by blast
  then show ?thesis
  proof (cases rule: send_control_cases)
    case (1 b)
    then show ?thesis using assms res by simp
  next
    case (2 x json)
    have "epochs_ok (after_control t c) (lg @ [Out_Text c json])"
    proof (cases "ctl_kind c = Ctl_TurnStart")
      case False
      then have "t_turn (after_control t c) = t_turn t" "t_session (after_control t c) = t_session t"
        by (cases "ctl_kind c"; simp add: after_control_def)+
      then show ?thesis using assms(2) False by (simp add: epochs_ok_def)
    next
      case True
      note c = control_body_Inr(1) [OF 2(1) True]
      have e: "epoch (t_turn t) < epoch (ctl_ids c)"
        using c by (auto simp: valid_ids_def word_neq_0_conv)
      then show ?thesis using assms(2) c True
        by (auto simp: epochs_ok_def Let_def sorted_wrt_append after_control_def)
    qed
    then show ?thesis unfolding res 2(3) by simp
  qed
qed

lemma run_inv_step: "run_inv s \<Longrightarrow> run_inv (logged_step p deliver ev s)"
proof -
  assume inv: "run_inv s"
  obtain t lg where s: "s = (t, lg)" by fastforce
  have i: "session_inv t" "turn_log_inv t (since_start lg)" "epochs_ok t lg"
    using inv by (simp_all add: run_inv_def s)
  define t' os where "t' = fst (transport_step p deliver ev t)" and "os = snd (transport_step p deliver ev t)"
  have step: "logged_step p deliver ev s = (t', lg @ os)"
    by (simp add: logged_step_def s t'_def os_def split: prod.split)
  have "turn_log_inv t' (since_start (lg @ os)) \<and> epochs_ok t' (lg @ os)"
  proof (cases ev)
    case (Ev_Control env c)
    then show ?thesis using turn_log_control [OF i(1,2)] epochs_control [OF i(1,3)] by (simp add: t'_def os_def)
  next
    case (Ev_Pcm env h pcm)
    have "\<forall>o' \<in> set os. \<not> starts_turn o'" "sent os = []" "t_turn t' = t_turn t" "t_session t' = t_session t"
      unfolding os_def t'_def Ev_Pcm
      by (auto simp: send_pcm_def starts_turn_def split: queue_capacity.split)
    then show ?thesis
      using turn_log_send_pcm [OF i(1,2), of env h pcm] epochs_quiet [OF i(3)] i(1) Ev_Pcm
      by (simp add: since_start_quiet t'_def os_def)
  next
    case (Ev_Message m)
    have "(\<forall>o' \<in> set os. \<not> starts_turn o') \<and> sent os = [] \<and> t_turn t' = t_turn t \<and>
        (t_session t' = t_session t \<or> t_session t = 0) \<and> turn_log_inv t' (since_start lg @ os)"
      unfolding os_def t'_def Ev_Message
      using text_frame binary_frame turn_log_text [OF i(1,2)] turn_log_binary [OF i(1,2)] i(2)
      by (cases m) (simp_all add: on_message_def quiet_text quiet_binary quiet_effects turn_log_error)
    then show ?thesis using epochs_quiet [OF i(3)] i(1) by (simp add: since_start_quiet)
  next
    case Ev_Ping
    have "turn_log_inv t (since_start lg @ [Out_Inbound (no_inbound\<lparr>in_kind := In_Heartbeat\<rparr>)])"
      using i(2) by (simp add: turn_log_other is_content_def)
    then show ?thesis unfolding os_def t'_def Ev_Ping
      using epochs_quiet [OF i(3)] i(1)
      by (simp add: on_ping_def since_start_quiet quiet_effects turn_log_emit)
  qed (use i epochs_quiet [OF i(3)] in \<open>simp_all add: t'_def os_def on_open_def on_close_def transport_fail_def
        close_transport_def Let_def since_start_append starts_turn_def\<close>)
  then show ?thesis using session_inv_step [OF i(1), of p deliver ev] by (simp add: step run_inv_def t'_def)
qed

interpretation transport_runs: invariant_system "logged_step p deliver" run_inv
  by unfold_locales (rule run_inv_step)

lemma new_transport_inv: "session_inv new_transport"
  by (simp add: new_transport_def session_inv_def turn_ok_def)

lemma run_inv_init: "run_inv (new_transport, [])"
  by (simp add: run_inv_def new_transport_inv epochs_ok_def turn_log_inv_def since_start_def)
    (simp add: new_transport_def stream_ok_def)

lemma decode_pin_Some: "decode_pin db s = Some pin \<Longrightarrow> is_valid_spki_sha256 s \<and> length pin = 32"
  by (auto simp: decode_pin_def split: if_splits option.splits)

lemma connect_True:
  assumes "connect db u th c t = (True, t0)"
  shows "\<exists>uuid pin. parse_uuid (tc_device_id c) = Some uuid \<and> decode_pin db (tc_spki_sha256_base64 c) = Some pin \<and>
    t0 = t\<lparr>t_uuid := uuid, t_pin := pin, t_device_id := tc_device_id c, t_started := True\<rparr>"
  using assms by (auto simp: connect_def Let_def split: if_splits option.splits)

lemma connect_run_inv:
  assumes "connect db u th c new_transport = (True, t0)"
  shows "run_inv (t0, [])"
proof -
  obtain uuid pin where t0: "parse_uuid (tc_device_id c) = Some uuid"
      "t0 = new_transport\<lparr>t_uuid := uuid, t_pin := pin, t_device_id := tc_device_id c, t_started := True\<rparr>"
    using connect_True [OF assms] by blast
  have "length uuid = 16" using t0(1) by (auto simp: parse_uuid_def split: if_splits option.splits)
  then show ?thesis using run_inv_init
    by (simp add: t0(2) run_inv_def session_inv_def turn_log_inv_def epochs_ok_def)
qed

lemma run_from_connect:
  assumes "connect db u th c new_transport = (True, t0)" and "transport_run p deliver es t0 = (t, lg)"
  shows "session_inv t" "turn_log_inv t (since_start lg)" "epochs_ok t lg"
  using transport_runs.inv_fold [OF connect_run_inv [OF assms(1)], of p deliver es] assms(2)
  by (simp_all add: transport_run_def run_inv_def)

text \<open>A connected transport and a short conversation, for the witnesses below.\<close>

definition sample_decode :: "string \<Rightarrow> bytes option" where
  "sample_decode s = Some (replicate 33 7)"

definition sample_transport_config :: transport_config where
  "sample_transport_config = \<lparr>tc_host = ''voice.local'', tc_port = 17806,
     tc_device_id = ''00112233-4455-6677-8899-aabbccddeeff'',
     tc_spki_sha256_base64 = replicate 43 (CHR ''A'') @ ''=''\<rparr>"

definition sample_start :: transport where
  "sample_start = snd (connect sample_decode True True sample_transport_config new_transport)"

lemma sample_pin: "is_valid_spki_sha256 (replicate 43 (CHR ''A'') @ ''='')"
  by (simp add: is_valid_spki_sha256_def base64_value_def byte_of_def numeral_eq_Suc)

lemma sample_connect: "connect sample_decode True True sample_transport_config new_transport = (True, sample_start)"
proof -
  obtain u where "parse_uuid ''00112233-4455-6677-8899-aabbccddeeff'' = Some u"
    using parse_uuid_valid(1) [OF sample_device_id] by blast
  then show ?thesis
    by (simp add: sample_start_def connect_def sample_transport_config_def decode_pin_def sample_decode_def
        sample_pin new_transport_def)
qed

lemma sample_start_fields:
  "t_uplink_sequence sample_start = 0" "\<not> t_committed sample_start" "\<not> t_uplink_ended sample_start"
  "t_session sample_start = 0" "t_turn sample_start = no_ids" "\<not> t_active sample_start" "\<not> t_closing sample_start"
  "t_device_id sample_start = ''00112233-4455-6677-8899-aabbccddeeff''" "length (t_uuid sample_start) = 16"
proof -
  obtain uuid pin where s: "sample_start = new_transport\<lparr>t_uuid := uuid, t_pin := pin,
      t_device_id := tc_device_id sample_transport_config, t_started := True\<rparr>"
      and u: "parse_uuid (tc_device_id sample_transport_config) = Some uuid"
    using connect_True [OF sample_connect] by blast
  show "t_uplink_sequence sample_start = 0" "\<not> t_committed sample_start" "\<not> t_uplink_ended sample_start"
    "t_session sample_start = 0" "t_turn sample_start = no_ids" "\<not> t_active sample_start" "\<not> t_closing sample_start"
    "t_device_id sample_start = ''00112233-4455-6677-8899-aabbccddeeff''"
    unfolding s new_transport_def by (simp_all add: sample_transport_config_def)
  show "length (t_uuid sample_start) = 16"
    unfolding s using u by (auto simp: parse_uuid_def split: if_splits option.splits)
qed

definition sample_ids :: wire_ids where
  "sample_ids = \<lparr>session = 7, turn = 1, stream = 1, epoch = 3\<rparr>"

definition quiet_env :: send_env where
  "quiet_env = \<lparr>buffered = Some 0, send_error = False\<rparr>"

definition sample_control :: "control_kind \<Rightarrow> control" where
  "sample_control k = \<lparr>ctl_kind = k, ctl_message_id = ''client-1'', ctl_ids = sample_ids, ctl_device_token = []\<rparr>"

definition sample_pcm :: "u32 \<Rightarrow> u16 \<Rightarrow> pcm64_header" where
  "sample_pcm n f = \<lparr>pcm_flags = f, pcm_sequence = n, pcm_timestamp_us = 5, pcm_ids = sample_ids\<rparr>"

definition sample_events :: "event list" where
  "sample_events = [Ev_Open, Ev_Message (Text_Message sample_ack_json), Ev_Control quiet_env (sample_control Ctl_TurnStart),
     Ev_Pcm quiet_env (sample_pcm 0 1) [1, 2], Ev_Pcm quiet_env (sample_pcm 1 2) [3, 4],
     Ev_Control quiet_env (sample_control Ctl_TurnCancel)]"

lemma sample_ack: "handle_envelope t sample_ack_envelope =
    Inr (t\<lparr>t_session := 7, t_session_epoch := 3\<rparr>, Some (no_inbound\<lparr>in_kind := In_HelloAck,
      in_ids := \<lparr>session = 7, turn = 0, stream = 0, epoch = 3\<rparr>\<rparr>))"
  if "t_session t = 0" "t_device_id t = ''00112233-4455-6677-8899-aabbccddeeff''"
  using that
  by (simp add: handle_envelope_def sample_ack_envelope_def on_hello_ack_def sample_ack_payload_def
      require_exact_object_def Let_def require_u32_def require_item_def j_num_def)

lemma control_json_length:
  "length (control_json t c type payload) \<le>
     200 + 6 * length (ctl_message_id c) + 6 * length (t_device_id t) + length type + length payload"
  using length_quote [of "ctl_message_id c"] length_quote [of "t_device_id t"]
    length_decimal_u32 [of "session (ctl_ids c)"] length_decimal_u32 [of "turn (ctl_ids c)"]
    length_decimal_u32 [of "stream (ctl_ids c)"] length_decimal_u32 [of "epoch (ctl_ids c)"]
  by (simp add: control_json_def json_member_def)

definition sample_open :: transport where
  "sample_open = sample_start\<lparr>t_connected := True, t_session := 7, t_session_epoch := 3\<rparr>"

definition sample_turn :: "u32 \<Rightarrow> bool \<Rightarrow> bool \<Rightarrow> transport" where
  "sample_turn n ended cancelled = (after_control sample_open (sample_control Ctl_TurnStart))
     \<lparr>t_uplink_sequence := n, t_uplink_ended := ended, t_response_cancel_sent := cancelled\<rparr>"

lemma sample_ack_step:
  "logged_step sample_parser (\<lambda>_. True) (Ev_Message (Text_Message sample_ack_json))
     (sample_start\<lparr>t_connected := True\<rparr>, []) =
   (sample_open, [Out_Inbound (no_inbound\<lparr>in_kind := In_HelloAck, in_ids := \<lparr>session = 7, turn = 0, stream = 0, epoch = 3\<rparr>\<rparr>)])"
proof -
  have "\<not> k_max_message_bytes < length sample_ack_json"
    using sample_ack_guards(5) by (simp add: k_defs)
  moreover have "sample_start\<lparr>t_connected := True, t_session := 7, t_session_epoch := 3\<rparr> = sample_open"
    by (simp add: sample_open_def)
  ultimately show ?thesis
    by (simp add: logged_step_def on_message_def on_text_def sample_ack_parses sample_ack emit_def sample_start_fields)
qed

lemma sample_send:
  assumes "control_body t (sample_control k) = Inr (type, payload)" "t_connected t" "length (t_device_id t) = 36"
    "length type \<le> 100" "length payload \<le> 100"
  shows "send_control quiet_env (sample_control k) t =
    (True, after_control t (sample_control k), [Out_Text (sample_control k) (control_json t (sample_control k) type payload)])"
proof -
  have "length (control_json t (sample_control k) type payload) \<le> 1000"
    using control_json_length [of t "sample_control k" type payload] assms(3-5) by (simp add: sample_control_def)
  moreover have "control_json t (sample_control k) type payload \<noteq> []" by (simp add: control_json_def)
  ultimately show ?thesis
    using assms(1,2)
    by (simp add: send_control_def sample_control_def [THEN arg_cong, of ctl_message_id] send_text_def
        quiet_env_def check_queue_capacity_def k_defs Let_def)
qed

lemma sample_turn_fields:
  "t_connected (sample_turn n e x)" "t_device_id (sample_turn n e x) = ''00112233-4455-6677-8899-aabbccddeeff''"
  "t_active (sample_turn n e x)" "t_turn (sample_turn n e x) = sample_ids" "\<not> t_committed (sample_turn n e x)"
  "t_uplink_sequence (sample_turn n e x) = n" "t_uplink_ended (sample_turn n e x) = e"
  "t_response_cancel_sent (sample_turn n e x) = x" "t_uuid (sample_turn n e x) = t_uuid sample_start"
  by (simp_all add: sample_turn_def after_control_def sample_control_def sample_open_def sample_start_fields)

lemma sample_start_step:
  "\<exists>j. transport_step sample_parser (\<lambda>_. True) (Ev_Control quiet_env (sample_control Ctl_TurnStart)) sample_open =
     (sample_turn 0 False False, [Out_Text (sample_control Ctl_TurnStart) j])"
proof -
  have "after_control sample_open (sample_control Ctl_TurnStart) = sample_turn 0 False False"
    by (simp add: sample_turn_def after_control_def sample_control_def)
  moreover have "control_body sample_open (sample_control Ctl_TurnStart) =
      Inr (''turn.start'', ''{'' @ [CHR 0x22] @ ''sample_rate_hz'' @ [CHR 0x22] @ '':16000}'')"
    by (simp add: control_body_def sample_control_def sample_ids_def valid_ids_def sample_open_def
        sample_start_fields no_ids_def)
  ultimately show ?thesis
    using sample_send [of sample_open Ctl_TurnStart] by (simp add: sample_open_def sample_start_fields)
qed

lemma sample_pcm_step:
  assumes "n \<noteq> - 1" "(n = 0) = flag_start f" "f AND NOT 7 = 0"
  shows "transport_step sample_parser (\<lambda>_. True) (Ev_Pcm quiet_env (sample_pcm n f) [a, b]) (sample_turn n False False) =
     (sample_turn (n + 1) (flag_end f) False, [Out_Frame (encode_pcm64 (t_uuid sample_start) (sample_pcm n f) [a, b])])"
proof -
  have "pcm_acceptable (sample_turn n False False) (sample_pcm n f) [a, b]"
    using assms by (simp add: pcm_acceptable_def sample_turn_fields sample_pcm_def k_defs)
  moreover have "sample_turn n False False\<lparr>t_uplink_sequence := n + 1, t_uplink_ended := flag_end f\<rparr> =
      sample_turn (n + 1) (flag_end f) False"
    by (simp add: sample_turn_def)
  ultimately show ?thesis
    by (simp add: send_pcm_def check_queue_capacity_def quiet_env_def k_defs sample_turn_fields sample_pcm_def)
qed

lemma sample_cancel_step:
  "\<exists>j. transport_step sample_parser (\<lambda>_. True) (Ev_Control quiet_env (sample_control Ctl_TurnCancel)) (sample_turn n e False) =
     (sample_turn n e True, [Out_Text (sample_control Ctl_TurnCancel) j])"
proof -
  have "after_control (sample_turn n e False) (sample_control Ctl_TurnCancel) = sample_turn n e True"
    by (simp add: after_control_def sample_control_def sample_turn_def)
  moreover have "control_body (sample_turn n e False) (sample_control Ctl_TurnCancel) = Inr (''turn.cancel'', ''{}'')"
    by (simp add: control_body_def sample_control_def sample_turn_fields same_ids_eq)
  ultimately show ?thesis
    using sample_send [of "sample_turn n e False" Ctl_TurnCancel] by (simp add: sample_turn_fields)
qed

text \<open>The whole conversation: two frames and one cancellation leave, one message is heard.\<close>

lemma sample_run:
  "\<exists>j1 j2. transport_run sample_parser (\<lambda>_. True) sample_events sample_start = (sample_turn 2 True True,
     [Out_Inbound (no_inbound\<lparr>in_kind := In_HelloAck, in_ids := \<lparr>session = 7, turn = 0, stream = 0, epoch = 3\<rparr>\<rparr>),
      Out_Text (sample_control Ctl_TurnStart) j1,
      Out_Frame (encode_pcm64 (t_uuid sample_start) (sample_pcm 0 1) [1, 2]),
      Out_Frame (encode_pcm64 (t_uuid sample_start) (sample_pcm 1 2) [3, 4]),
      Out_Text (sample_control Ctl_TurnCancel) j2])"
proof -
  obtain j1 where j1: "transport_step sample_parser (\<lambda>_. True) (Ev_Control quiet_env (sample_control Ctl_TurnStart)) sample_open =
     (sample_turn 0 False False, [Out_Text (sample_control Ctl_TurnStart) j1])"
    using sample_start_step by blast
  obtain j2 where j2: "transport_step sample_parser (\<lambda>_. True) (Ev_Control quiet_env (sample_control Ctl_TurnCancel))
      (sample_turn 2 True False) = (sample_turn 2 True True, [Out_Text (sample_control Ctl_TurnCancel) j2])"
    using sample_cancel_step by blast
  have p: "transport_step sample_parser (\<lambda>_. True) (Ev_Pcm quiet_env (sample_pcm 0 1) [1, 2]) (sample_turn 0 False False) =
     (sample_turn 1 False False, [Out_Frame (encode_pcm64 (t_uuid sample_start) (sample_pcm 0 1) [1, 2])])"
    "transport_step sample_parser (\<lambda>_. True) (Ev_Pcm quiet_env (sample_pcm 1 2) [3, 4]) (sample_turn 1 False False) =
     (sample_turn 2 True False, [Out_Frame (encode_pcm64 (t_uuid sample_start) (sample_pcm 1 2) [3, 4])])"
    using sample_pcm_step [of 0 1 1 2] sample_pcm_step [of 1 2 3 4] by (simp_all add: flag_start_def flag_end_def)
  have o: "logged_step sample_parser (\<lambda>_. True) Ev_Open (sample_start, []) = (sample_start\<lparr>t_connected := True\<rparr>, [])"
    by (simp add: logged_step_def on_open_def sample_start_fields)
  have st: "logged_step sample_parser (\<lambda>_. True) ev (t, lg) = (t', lg @ os)"
    if "transport_step sample_parser (\<lambda>_. True) ev t = (t', os)" for ev t lg t' os
    using that by (simp add: logged_step_def)
  show ?thesis
    unfolding transport_run_def sample_events_def fold_simps comp_def o sample_ack_step st [OF j1] st [OF p(1)]
      st [OF p(2)] st [OF j2]
    by simp
qed

lemma sample_run_turn:
  "frames (since_start (snd (transport_run sample_parser (\<lambda>_. True) sample_events sample_start))) =
     [sample_pcm 0 1, sample_pcm 1 2]"
  "cancel_count (since_start (snd (transport_run sample_parser (\<lambda>_. True) sample_events sample_start))) = 1"
  "sent (snd (transport_run sample_parser (\<lambda>_. True) sample_events sample_start)) =
     [sample_control Ctl_TurnStart, sample_control Ctl_TurnCancel]"
  using sample_run header_of_encode [of "t_uuid sample_start"]
  by (auto simp: since_start_def starts_turn_def sample_control_def frames_def cancel_count_def cancels_def
      is_cancel_def sent_def sample_start_fields(9))

subsection \<open>A sample response\<close>

text \<open>What each message of a spoken response does to a transport that waits for it.\<close>

lemma sample_start_arrives:
  assumes "t_active t" "t_committed t" "t_response t = no_ids" "t_turn t = sample_ids" "t_session t = 7"
    "t_device_id t = ''00112233-4455-6677-8899-aabbccddeeff''" "\<not> t_response_cancel_sent t"
  shows "transport_step sample_parser (\<lambda>_. True) (Ev_Message (Text_Message sample_start_json)) t =
    (t\<lparr>t_response_id := ''r1'', t_response := sample_ids, t_downlink_sequence := 0, t_audio_started := False,
       t_audio_ended := False, t_response_done := False, t_discard_downlink := False\<rparr>,
     [Out_Inbound (no_inbound\<lparr>in_kind := In_ResponseStart, in_ids := sample_ids\<rparr>)])"
proof -
  have "handle_envelope t (sample_reply_envelope ''response.start'' sample_start_payload) =
    Inr (t\<lparr>t_response_id := ''r1'', t_response := sample_ids, t_downlink_sequence := 0, t_audio_started := False,
       t_audio_ended := False, t_response_done := False, t_discard_downlink := False\<rparr>,
     Some (no_inbound\<lparr>in_kind := In_ResponseStart, in_ids := sample_ids\<rparr>))"
    using assms
    by (simp add: handle_envelope_def sample_reply_envelope_def on_response_start_def sample_start_payload_def
        require_exact_object_def require_string_def require_item_def is_stale_def valid_ids_def no_ids_def sample_ids_def
        same_turn_def visible_ascii_def byte_of_def Let_def)
  moreover have "\<not> k_max_message_bytes < length sample_start_json" using sample_reply_guards(5) by (simp add: k_defs)
  ultimately show ?thesis by (simp add: on_message_def on_text_def sample_reply_parses emit_def)
qed

lemma sample_audio_arrives:
  assumes "t_active t" "t_response t = sample_ids" "t_response_id t = ''r1''" "t_turn t = sample_ids" "t_session t = 7"
    "t_device_id t = ''00112233-4455-6677-8899-aabbccddeeff''" "\<not> t_response_cancel_sent t" "\<not> t_discard_downlink t"
    "\<not> t_audio_started t"
  shows "transport_step sample_parser (\<lambda>_. True) (Ev_Message (Text_Message sample_audio_json)) t =
    (t\<lparr>t_audio_started := True\<rparr>, [Out_Inbound (no_inbound\<lparr>in_kind := In_AudioStart, in_ids := sample_ids\<rparr>)])"
proof -
  have "handle_envelope t (sample_reply_envelope ''response.audio_start'' sample_audio_payload) =
    Inr (t\<lparr>t_audio_started := True\<rparr>, Some (no_inbound\<lparr>in_kind := In_AudioStart, in_ids := sample_ids\<rparr>))"
    using assms
    by (simp add: handle_envelope_def sample_reply_envelope_def on_response_message_def on_audio_start_def
        sample_audio_payload_def require_exact_object_def require_string_def require_u32_def require_item_def is_stale_def
        valid_ids_def sample_ids_def discarding_def visible_ascii_def byte_of_def j_num_def Let_def)
  moreover have "\<not> k_max_message_bytes < length sample_audio_json" using sample_reply_guards(10) by (simp add: k_defs)
  ultimately show ?thesis by (simp add: on_message_def on_text_def sample_reply_parses emit_def)
qed

text \<open>The first PCM message of the response: two samples, 1 and 2.\<close>

definition sample_speech :: bytes where
  "sample_speech = [1, 0, 2, 0]"

definition sample_downlink :: bytes where
  "sample_downlink = magic @ [1, 2] @ put16 1 @ put16 64 @ [1, 1] @ put32 24000 @ put32 4 @ put32 0 @ put64 5 @ put32 3 @
     t_uuid sample_start @ put32 7 @ put32 1 @ put32 1 @ sample_speech"

lemma sample_downlink_fields:
  "header_of sample_downlink = sample_pcm 0 1" "take 4 sample_downlink = magic" "sample_downlink ! 4 = 1" "sample_downlink ! 5 = 2"
  "get16 (sub sample_downlink 8) = 64" "sample_downlink ! 10 = 1" "sample_downlink ! 11 = 1"
  "get32 (sub sample_downlink 12) = 24000" "get32 (sub sample_downlink 16) = 4" "take 16 (sub sample_downlink 36) = t_uuid sample_start"
  "sub sample_downlink 64 = sample_speech" "length sample_downlink = 68" "get16 (sub sample_downlink 6) = 1"
  by (simp_all add: sample_downlink_def sample_pcm_def sample_ids_def header_of_def sub_def wire_simps magic_def nth_append
      sample_start_fields sample_speech_def)

definition sample_speech_event :: inbound where
  "sample_speech_event = no_inbound\<lparr>in_kind := In_Pcm, in_ids := sample_ids, in_pcm := sample_pcm 0 1, in_audio := sample_speech\<rparr>"

lemma sample_downlink_arrives:
  assumes "t_active t" "t_response t = sample_ids" "t_turn t = sample_ids" "t_session t = 7" "t_uuid t = t_uuid sample_start"
    "\<not> t_response_cancel_sent t" "\<not> t_discard_downlink t" "t_audio_started t" "\<not> t_audio_ended t" "t_downlink_sequence t = 0"
  shows "transport_step sample_parser (\<lambda>_. True) (Ev_Message (Binary_Message sample_downlink)) t =
    (t\<lparr>t_downlink_sequence := 1, t_audio_ended := False\<rparr>, [Out_Inbound sample_speech_event])"
proof -
  have "\<not> bad_pcm_header sample_downlink" "\<not> bad_pcm_framing t sample_downlink"
    by (simp_all add: bad_pcm_header_def bad_pcm_framing_def sample_downlink_fields assms(5) k_defs)
  moreover have "\<not> is_stale t sample_ids" "\<not> discarding t sample_ids"
    using assms by (simp_all add: is_stale_def discarding_def sample_ids_def)
  moreover have "\<not> bad_pcm_order t (sample_pcm 0 1)"
    using assms by (simp add: bad_pcm_order_def sample_pcm_def flag_start_def)
  moreover have "pcm_ids (sample_pcm 0 1) = sample_ids" "\<not> flag_discontinuity (pcm_flags (sample_pcm 0 1))"
    "\<not> flag_end (pcm_flags (sample_pcm 0 1))"
    by (simp_all add: sample_pcm_def flag_discontinuity_def flag_end_def)
  moreover have "take (unat (4 :: u32)) sample_speech = sample_speech" by (simp add: sample_speech_def)
  moreover have "sub sample_downlink k_header_bytes = sample_speech" "\<not> k_max_message_bytes < length sample_downlink"
    by (simp_all add: sample_downlink_fields k_defs)
  ultimately have "on_binary (\<lambda>_. True) sample_downlink t =
      (t\<lparr>t_downlink_sequence := 1, t_audio_ended := False\<rparr>, [Out_Inbound sample_speech_event])"
    using assms(10) unfolding on_binary_def Let_def sample_downlink_fields(1,9)
    by (simp only: if_False emit_def if_True simp_thms sample_speech_event_def inbound.update_convs o_def) simp
  then show ?thesis using \<open>\<not> k_max_message_bytes < length sample_downlink\<close> by (simp add: on_message_def)
qed

definition sample_reply_events :: "event list" where
  "sample_reply_events = [Ev_Open, Ev_Message (Text_Message sample_ack_json), Ev_Control quiet_env (sample_control Ctl_TurnStart),
     Ev_Pcm quiet_env (sample_pcm 0 3) [1, 2], Ev_Control quiet_env (sample_control Ctl_TurnCommit),
     Ev_Message (Text_Message sample_start_json), Ev_Message (Text_Message sample_audio_json),
     Ev_Message (Binary_Message sample_downlink)]"

lemma sample_turn_reply: "t_response (sample_turn n e x) = no_ids" "t_session (sample_turn n e x) = 7"
  "\<not> t_discard_downlink (sample_turn n e x)"
  by (simp_all add: sample_turn_def after_control_def sample_control_def sample_open_def)

lemma sample_commit_step:
  "\<exists>j. transport_step sample_parser (\<lambda>_. True) (Ev_Control quiet_env (sample_control Ctl_TurnCommit)) (sample_turn 1 True False) =
     ((sample_turn 1 True False)\<lparr>t_committed := True\<rparr>, [Out_Text (sample_control Ctl_TurnCommit) j])"
proof -
  have "control_body (sample_turn 1 True False) (sample_control Ctl_TurnCommit) = Inr (''turn.commit'', ''{}'')"
    by (simp add: control_body_def sample_control_def sample_turn_fields same_ids_eq)
  from sample_send [OF this] show ?thesis
    by (simp add: sample_turn_fields after_control_def sample_control_def [THEN arg_cong, of ctl_kind])
qed

lemma sample_reply_run:
  obtains t lg where "transport_run sample_parser (\<lambda>_. True) sample_reply_events sample_start = (t, lg)"
    "pcm_heard (since_start lg) = [sample_speech_event]" "t_response t = sample_ids" "t_downlink_sequence t = 1"
proof -
  obtain j1 where j1: "transport_step sample_parser (\<lambda>_. True) (Ev_Control quiet_env (sample_control Ctl_TurnStart)) sample_open =
     (sample_turn 0 False False, [Out_Text (sample_control Ctl_TurnStart) j1])"
    using sample_start_step by blast
  have p: "transport_step sample_parser (\<lambda>_. True) (Ev_Pcm quiet_env (sample_pcm 0 3) [1, 2]) (sample_turn 0 False False) =
     (sample_turn 1 True False, [Out_Frame (encode_pcm64 (t_uuid sample_start) (sample_pcm 0 3) [1, 2])])"
    using sample_pcm_step [of 0 3 1 2] by (simp add: flag_start_def flag_end_def)
  define t1 where "t1 = (sample_turn 1 True False)\<lparr>t_committed := True\<rparr>"
  obtain j2 where j2: "transport_step sample_parser (\<lambda>_. True) (Ev_Control quiet_env (sample_control Ctl_TurnCommit))
      (sample_turn 1 True False) = (t1, [Out_Text (sample_control Ctl_TurnCommit) j2])"
    using sample_commit_step by (auto simp: t1_def)
  have t1: "t_response t1 = no_ids" "t_session t1 = 7" "\<not> t_discard_downlink t1"
    by (simp_all add: t1_def sample_turn_reply)
  define t2 where "t2 = t1\<lparr>t_response_id := ''r1'', t_response := sample_ids, t_downlink_sequence := 0, t_audio_started := False,
     t_audio_ended := False, t_response_done := False, t_discard_downlink := False\<rparr>"
  have r: "transport_step sample_parser (\<lambda>_. True) (Ev_Message (Text_Message sample_start_json)) t1 =
      (t2, [Out_Inbound (no_inbound\<lparr>in_kind := In_ResponseStart, in_ids := sample_ids\<rparr>)])"
    unfolding t2_def by (rule sample_start_arrives) (simp_all add: t1_def sample_turn_fields sample_turn_reply)
  define t3 where "t3 = t2\<lparr>t_audio_started := True\<rparr>"
  have a: "transport_step sample_parser (\<lambda>_. True) (Ev_Message (Text_Message sample_audio_json)) t2 =
      (t3, [Out_Inbound (no_inbound\<lparr>in_kind := In_AudioStart, in_ids := sample_ids\<rparr>)])"
    unfolding t3_def by (rule sample_audio_arrives) (simp_all add: t2_def t1_def sample_turn_fields sample_turn_reply)
  define t4 where "t4 = t3\<lparr>t_downlink_sequence := 1, t_audio_ended := False\<rparr>"
  have d: "transport_step sample_parser (\<lambda>_. True) (Ev_Message (Binary_Message sample_downlink)) t3 = (t4, [Out_Inbound sample_speech_event])"
    unfolding t4_def
    by (rule sample_downlink_arrives) (simp_all add: t3_def t2_def t1_def sample_turn_fields sample_turn_reply)
  have o: "logged_step sample_parser (\<lambda>_. True) Ev_Open (sample_start, []) = (sample_start\<lparr>t_connected := True\<rparr>, [])"
    by (simp add: logged_step_def on_open_def sample_start_fields)
  have st: "logged_step sample_parser (\<lambda>_. True) ev (t, lg) = (t', lg @ os)"
    if "transport_step sample_parser (\<lambda>_. True) ev t = (t', os)" for ev t lg t' os
    using that by (simp add: logged_step_def)
  have run: "\<exists>lg. transport_run sample_parser (\<lambda>_. True) sample_reply_events sample_start = (t4, lg) \<and>
      pcm_heard (since_start lg) = [sample_speech_event]"
    unfolding transport_run_def sample_reply_events_def fold_simps comp_def o sample_ack_step st [OF j1] st [OF p]
      st [OF j2] st [OF r] st [OF a] st [OF d]
    by (intro exI conjI, rule refl)
      (simp add: since_start_def starts_turn_def sample_control_def pcm_heard_def heard_def sample_speech_event_def)
  have "t_response t4 = sample_ids" "t_downlink_sequence t4 = 1" by (simp_all add: t4_def t3_def t2_def)
  then show thesis using run that by blast
qed

subsection \<open>Properties\<close>

text \<open>C4: on every run after a successful \<^verbatim>\<open>Connect\<close>, whatever the application calls and the server
  sends, the PCM frames sent for the current turn carry its identity, are numbered 0, 1, 2, ... without
  a gap, the first and only the first has START, and END is on the last frame only.\<close>

theorem uplink_contiguous:
  assumes "connect db u th c new_transport = (True, t0)" and "transport_run p deliver es t0 = (t, lg)"
  shows "stream_ok (t_turn t) (t_uplink_sequence t) (t_uplink_ended t) (frames (since_start lg))"
  using run_from_connect(2) [OF assms] by (simp add: turn_log_inv_def)

theorem uplink_contiguous_witness:
  "let t = fst (transport_run sample_parser (\<lambda>_. True) sample_events sample_start) in
   stream_ok (t_turn t) (t_uplink_sequence t) (t_uplink_ended t) [sample_pcm 0 1, sample_pcm 1 2]"
  using uplink_contiguous [OF sample_connect prod.collapse [symmetric], of sample_parser "\<lambda>_. True" sample_events]
  by (simp add: sample_run_turn Let_def)

text \<open>C5: the PCM the application hears of the current turn belongs to its response, is numbered without
  a gap from 0 with START on the first frame and END on the last at most, and every payload is a
  non-empty, even number of bytes, at most the 960 bytes of one 20 ms frame.\<close>

theorem downlink_contiguous:
  assumes "connect db u th c new_transport = (True, t0)" and "transport_run p deliver es t0 = (t, lg)"
  shows "stream_ok (t_response t) (t_downlink_sequence t) (t_audio_ended t)
      (map in_pcm (pcm_heard (since_start lg))) \<and> list_all audio_fits (pcm_heard (since_start lg))"
  using run_from_connect(2) [OF assms] by (simp add: turn_log_inv_def)

theorem downlink_contiguous_witness:
  "let (t, lg) = transport_run sample_parser (\<lambda>_. True) sample_reply_events sample_start in
   stream_ok sample_ids 1 (t_audio_ended t) [sample_pcm 0 1] \<and> list_all audio_fits (pcm_heard (since_start lg)) \<and>
   pcm_heard (since_start lg) = [sample_speech_event]"
proof -
  obtain t lg where run: "transport_run sample_parser (\<lambda>_. True) sample_reply_events sample_start = (t, lg)"
    "pcm_heard (since_start lg) = [sample_speech_event]" "t_response t = sample_ids" "t_downlink_sequence t = 1"
    by (rule sample_reply_run)
  show ?thesis using downlink_contiguous [OF sample_connect run(1)] run
    by (simp add: sample_speech_event_def)
qed



text \<open>C6: the turns started on one connection all have complete identities of the acknowledged session,
  and their epochs increase strictly, so an old packet can never look like one of a later turn.\<close>

theorem turn_epochs_increase:
  assumes "connect db u th c new_transport = (True, t0)" and "transport_run p deliver es t0 = (t, lg)"
  shows "let starts = filter (\<lambda>c. ctl_kind c = Ctl_TurnStart) (sent lg) in
    sorted_wrt (<) (map (epoch \<circ> ctl_ids) starts) \<and>
    list_all (\<lambda>c. valid_ids (ctl_ids c) \<and> session (ctl_ids c) = t_session t) starts"
  using run_from_connect(3) [OF assms] by (auto simp: epochs_ok_def Let_def list_all_iff)

theorem turn_epochs_increase_witness:
  "session sample_ids = t_session (fst (transport_run sample_parser (\<lambda>_. True) sample_events sample_start))"
  using turn_epochs_increase [OF sample_connect prod.collapse [symmetric], of sample_parser "\<lambda>_. True" sample_events]
  by (simp add: sample_run_turn sample_control_def)

lemma message_cases:
  assumes "on_message p deliver m t = res"
  obtains why where "res = protocol_error t why"
  | t' where "res = (t', [])"
  | t' e where "res = emit deliver t' e"
proof (cases m)
  case (Text_Message s)
  show ?thesis
  proof (cases "k_max_message_bytes < length s")
    case True
    then show ?thesis using assms Text_Message
      by (intro that(1) [of "''message too large''"]) (simp add: on_message_def)
  next
    case False
    then have "on_text p deliver s t = res" using assms Text_Message by (simp add: on_message_def)
    then show ?thesis by (cases rule: on_text_cases) (use that in blast)+
  qed
next
  case (Binary_Message q)
  show ?thesis
  proof (cases "k_max_message_bytes < length q")
    case True
    then show ?thesis using assms Binary_Message
      by (intro that(1) [of "''message too large''"]) (simp add: on_message_def)
  next
    case False
    then have "on_binary deliver q t = res" using assms Binary_Message by (simp add: on_message_def)
    then show ?thesis by (cases rule: on_binary_cases) (use that in blast)+
  qed
next
  case (Other_Message n)
  then show ?thesis using assms
    by (intro that(1) [of "if k_max_message_bytes < n then ''message too large'' else ''unsupported WebSocket opcode''"])
      (auto simp: on_message_def)
qed



lemma stale_hello: "on_hello_ack t i body = Inr (t', r) \<Longrightarrow> \<exists>e. r = Some e \<and> in_kind e = In_HelloAck"
  by (auto simp: on_hello_ack_def)

text \<open>Traffic of an older epoch, or of a response that is over, is dropped without a trace: once the
  identities are stale, PCM leaves state and application untouched, and the only accepted text message
  that is not silently dropped is an answer to \<^verbatim>\<open>hello\<close> or a cancellation's acknowledgement.\<close>

theorem stale_traffic_ignored:
  assumes "is_stale t i"
  shows "(\<not> bad_pcm_header q \<longrightarrow> \<not> bad_pcm_framing t q \<longrightarrow> pcm_ids (header_of q) = i \<longrightarrow>
      on_binary deliver q t = (t, [])) \<and>
    (handle_envelope t e = Inr (t', r) \<longrightarrow> env_ids e = i \<longrightarrow> env_type e \<noteq> ''hello.ack'' \<longrightarrow>
      env_type e \<noteq> ''response.cancelled'' \<longrightarrow> t' = t \<and> r = None)"
  using assms
  by (auto simp: on_binary_def Let_def handle_envelope_def on_response_start_def on_error_message_def
      on_response_message_def split: if_splits)

definition stale_transport :: transport where
  "stale_transport = sample_start\<lparr>t_session := 7, t_session_epoch := 3, t_turn := sample_ids\<lparr>epoch := 5\<rparr>\<rparr>"

theorem stale_traffic_ignored_witness:
  "is_stale stale_transport sample_ids \<and>
   (handle_envelope stale_transport \<lparr>env_type = ''error'', env_device_id = t_device_id stale_transport,
       env_ids = sample_ids, env_payload = J_Object [(''code'', J_Null), (''message'', J_Null)]\<rparr> = Inr (stale_transport, None))"
proof -
  have s: "is_stale stale_transport sample_ids"
    by (simp add: is_stale_def stale_transport_def sample_ids_def)
  define env where "env = \<lparr>env_type = ''error'', env_device_id = t_device_id stale_transport,
       env_ids = sample_ids, env_payload = J_Object [(''code'', J_Null), (''message'', J_Null)]\<rparr>"
  have "\<exists>t' r. handle_envelope stale_transport env = Inr (t', r)"
    using s by (simp add: env_def handle_envelope_def on_error_message_def require_exact_object_def Let_def)
  then show ?thesis
    using stale_traffic_ignored [OF s, of "[]" "\<lambda>_. True" env] s by (auto simp: env_def)
qed

text \<open>A full send queue is not a failure: the PCM frame is refused with \<^verbatim>\<open>kBackpressure\<close> and the same
  frame is still the next acceptable one, while the turn's cancellation goes through the full queue and
  no other control does.\<close>

theorem backpressure_keeps_turn:
  assumes "buffered env = Some n" and "k_max_buffered_bytes < n" and "\<not> send_error env" and "t_connected t"
  shows "(pcm_acceptable t h pcm \<longrightarrow> send_pcm env h pcm t = (Send_Backpressure, t, [])) \<and>
    (ctl_message_id c \<noteq> [] \<longrightarrow> length (ctl_message_id c) \<le> 64 \<longrightarrow>
      control_body t c = Inr (type, payload) \<longrightarrow>
      length (control_json t c type payload) \<le> 64 * 1024 \<longrightarrow>
      (fst (send_control env c t) \<longleftrightarrow> is_cancel (ctl_kind c)))"
proof -
  have full: "check_queue_capacity env k = Queue_Full" for k
    using assms(1,2) by (simp add: check_queue_capacity_def)
  have ne: "control_json t c type payload \<noteq> []" by (simp add: control_json_def)
  show ?thesis
    using assms(3,4) ne by (auto simp: send_pcm_def send_control_def send_text_def Let_def full)
qed

theorem backpressure_keeps_turn_witness:
  "send_pcm \<lparr>buffered = Some 30000, send_error = False\<rparr> (sample_pcm 0 1) [1, 2]
     (sample_start\<lparr>t_connected := True, t_active := True, t_turn := sample_ids\<rparr>) =
   (Send_Backpressure, sample_start\<lparr>t_connected := True, t_active := True, t_turn := sample_ids\<rparr>, [])"
proof -
  define t where "t = sample_start\<lparr>t_connected := True, t_active := True, t_turn := sample_ids\<rparr>"
  have "pcm_acceptable t (sample_pcm 0 1) [1, 2]"
    by (simp add: pcm_acceptable_def t_def sample_start_fields sample_pcm_def k_defs flag_start_def same_turn_def)
  then show ?thesis
    using backpressure_keeps_turn [of "\<lparr>buffered = Some 30000, send_error = False\<rparr>" 30000 t "sample_pcm 0 1" "[1, 2]"]
    by (simp add: t_def k_defs)
qed



end
