(* ===== verification/Buffers.thy ===== *)
theory Buffers
  imports Prelude
begin

section \<open>Fixed buffers and bounded queues\<close>

text \<open>
  Fixed C++ arrays are lists of constant length. The three ways the client moves data in them are
  \<^verbatim>\<open>std::copy_n\<close> into a position, \<^verbatim>\<open>std::memmove\<close> to the front and reading a prefix; the interface of a
  bounded FIFO is a locale that each queue of the client instantiates on its own operations.
\<close>

subsection \<open>Array operations\<close>

text \<open>\<^verbatim>\<open>std::copy_n(ys, buf + pos)\<close>\<close>

definition overwrite :: "nat \<Rightarrow> 'a list \<Rightarrow> 'a list \<Rightarrow> 'a list" where
  "overwrite pos ys buf = take pos buf @ ys @ drop (pos + length ys) buf"

text \<open>\<^verbatim>\<open>std::memmove(buf, buf + off, n)\<close>\<close>

definition move_front :: "nat \<Rightarrow> nat \<Rightarrow> 'a list \<Rightarrow> 'a list" where
  "move_front off n buf = take n (drop off buf) @ drop n buf"

lemma length_overwrite [simp]: "pos + length ys \<le> length buf \<Longrightarrow> length (overwrite pos ys buf) = length buf"
  by (simp add: overwrite_def)

lemma length_move_front [simp]: "off + n \<le> length buf \<Longrightarrow> length (move_front off n buf) = length buf"
  by (simp add: move_front_def)

lemma take_overwrite [ring_simps]:
  "pos + length ys \<le> length buf \<Longrightarrow> take (pos + length ys) (overwrite pos ys buf) = take pos buf @ ys"
  by (simp add: overwrite_def)

lemma take_move_front [ring_simps]:
  "off + n \<le> length buf \<Longrightarrow> take n (move_front off n buf) = drop off (take (off + n) buf)"
  by (simp add: move_front_def take_drop add.commute)

subsection \<open>Ring buffers\<close>

text \<open>The elements of a ring of \<open>length xs\<close> slots, oldest first: \<open>c\<close> elements from index \<open>h\<close> on.\<close>

definition ring_list :: "'a list \<Rightarrow> nat \<Rightarrow> nat \<Rightarrow> 'a list" where
  "ring_list xs h c = map (\<lambda>k. xs ! ((h + k) mod length xs)) [0..<c]"

lemma length_ring_list [simp]: "length (ring_list xs h c) = c"
  by (simp add: ring_list_def)

lemma ring_list_0 [simp]: "ring_list xs h 0 = []"
  by (simp add: ring_list_def)

lemma ring_index_inject:
  assumes "i < n" "j < n" "(h + i) mod n = (h + j) mod (n :: nat)"
  shows "i = j"
proof -
  have *: "i = j" if "i \<le> j" "j < n" "(h + i) mod n = (h + j) mod n" for i j
  proof -
    have "n dvd (h + j) - (h + i)"
      using that(3) by (metis mod_eq_dvd_iff_nat le_add_diff_inverse nat_le_linear add_le_cancel_left that(1))
    then have "n dvd j - i" by simp
    then show ?thesis using that(1,2) by (auto dest: dvd_imp_le)
  qed
  show ?thesis
    using * [of i j] * [of j i] assms by (cases "i \<le> j") auto
qed

lemma ring_list_push [ring_simps]:
  assumes "c < length xs"
  shows "ring_list (xs[(h + c) mod length xs := x]) h (Suc c) = ring_list xs h c @ [x]"
proof -
  have "length xs > 0" using assms by linarith
  then have "(h + c) mod length xs < length xs" by (rule mod_less_divisor)
  moreover have "(h + c) mod length xs \<noteq> (h + k) mod length xs" if "k < c" for k
    using ring_index_inject [of k "length xs" c h] that assms by auto
  ultimately show ?thesis by (auto simp: ring_list_def intro!: map_cong)
qed

lemma ring_list_pop [ring_simps]:
  assumes "h < length xs" "0 < c" "c \<le> length xs"
  shows "ring_list xs h c = xs ! h # ring_list (xs[h := z]) ((h + 1) mod length xs) (c - 1)"
proof -
  have ne: "h \<noteq> (h + Suc k) mod length xs" if "k < c - 1" for k
  proof
    assume "h = (h + Suc k) mod length xs"
    then have "(h + Suc k) mod length xs = (h + 0) mod length xs" using assms(1) by simp
    moreover have "Suc k < length xs" "0 < length xs" using that assms by linarith+
    ultimately have "Suc k = 0" by (rule ring_index_inject [of "Suc k" "length xs" 0 h, rotated 2])
    then show False by simp
  qed
  have "[0..<c] = 0 # map Suc [0..<c - 1]"
    using assms(2) by (simp add: upt_conv_Cons map_Suc_upt)
  then have "ring_list xs h c = xs ! h # map (\<lambda>k. xs ! ((h + Suc k) mod length xs)) [0..<c - 1]"
    using assms(1) by (simp add: ring_list_def comp_def)
  also have "map (\<lambda>k. xs ! ((h + Suc k) mod length xs)) [0..<c - 1] =
      ring_list (xs[h := z]) ((h + 1) mod length xs) (c - 1)"
    unfolding ring_list_def using ne by (auto simp: mod_add_left_eq)
  finally show ?thesis .
qed

lemma ring_list_last [ring_simps]:
  assumes "0 < c" "c \<le> length xs"
  shows "ring_list (xs[(h + (c - 1)) mod length xs := y]) h c = ring_list xs h (c - 1) @ [y]"
  using ring_list_push [of "c - 1" xs h y] assms by simp

lemma ring_list_Suc: "ring_list xs h (Suc c) = ring_list xs h c @ [xs ! ((h + c) mod length xs)]"
  by (simp add: ring_list_def)

lemma ring_previous:
  assumes "0 < c" "c \<le> n" "t = (h + c) mod n"
  shows "(t + n - 1) mod n = (h + (c - 1)) mod (n :: nat)"
proof -
  have "(t + n - 1) mod n = (t + (n - 1)) mod n" using assms by simp
  also have "\<dots> = (h + c + (n - 1)) mod n" unfolding assms(3) by (rule mod_add_left_eq)
  also have "h + c + (n - 1) = h + (c - 1) + n" using assms by simp
  finally show ?thesis by simp
qed

subsection \<open>Bounded FIFO queues\<close>

text \<open>
  A queue of type \<open>'q\<close> with capacity \<open>cap\<close>: \<open>put\<close> appends when there is room and otherwise reports
  failure without a change, \<open>get\<close> removes the oldest element. \<open>contents\<close> reads a queue as a list.
\<close>

locale bounded_fifo =
  fixes valid :: "'q \<Rightarrow> bool"
    and contents :: "'q \<Rightarrow> 'a list"
    and cap :: nat
    and put :: "'a \<Rightarrow> 'q \<Rightarrow> 'q option"
    and get :: "'q \<Rightarrow> ('a \<times> 'q) option"
  assumes bounded: "valid q \<Longrightarrow> length (contents q) \<le> cap"
    and put_room: "valid q \<Longrightarrow> length (contents q) < cap \<Longrightarrow>
      \<exists>q'. put x q = Some q' \<and> valid q' \<and> contents q' = contents q @ [x]"
    and put_full: "valid q \<Longrightarrow> length (contents q) = cap \<Longrightarrow> put x q = None"
    and get_none: "valid q \<Longrightarrow> get q = None \<longleftrightarrow> contents q = []"
    and get_some: "valid q \<Longrightarrow> get q = Some (x, q') \<Longrightarrow> valid q' \<and> contents q = x # contents q'"
begin

text \<open>A client that puts what it can and drops the rest, and one that drains.\<close>

fun put_all :: "'a list \<Rightarrow> 'q \<Rightarrow> 'q" where
  "put_all [] q = q"
| "put_all (x # xs) q = put_all xs (case put x q of Some q' \<Rightarrow> q' | None \<Rightarrow> q)"

fun drain :: "nat \<Rightarrow> 'q \<Rightarrow> 'a list \<times> 'q" where
  "drain 0 q = ([], q)"
| "drain (Suc n) q = (case get q of None \<Rightarrow> ([], q) | Some (x, q') \<Rightarrow>
     (case drain n q' of (xs, q'') \<Rightarrow> (x # xs, q'')))"

lemma put_all_contents:
  "valid q \<Longrightarrow> valid (put_all xs q) \<and> contents (put_all xs q) = contents q @ take (cap - length (contents q)) xs"
proof (induction xs arbitrary: q)
  case (Cons x xs)
  show ?case
  proof (cases "length (contents q) < cap")
    case True
    then obtain q' where q': "put x q = Some q'" "valid q'" "contents q' = contents q @ [x]"
      using put_room Cons.prems by blast
    moreover have "cap - length (contents q) = Suc (cap - length (contents q'))" using True q' by simp
    ultimately show ?thesis using Cons.IH [of q'] by simp
  next
    case False
    then have "length (contents q) = cap" using bounded Cons.prems by (simp add: le_antisym)
    then show ?thesis using put_full Cons by simp
  qed
qed simp

lemma drain_contents:
  "valid q \<Longrightarrow> drain n q = (xs, q') \<Longrightarrow> valid q' \<and> xs = take n (contents q) \<and> contents q' = drop n (contents q)"
proof (induction n arbitrary: q xs q')
  case (Suc n)
  show ?case
  proof (cases "get q")
    case None
    then have "contents q = []" using get_none [OF Suc.prems(1)] by simp
    then show ?thesis using Suc.prems None by auto
  next
    case (Some p)
    obtain x r where p: "p = (x, r)" by fastforce
    obtain ys q'' where d: "drain n r = (ys, q'')" by fastforce
    have r: "valid r" "contents q = x # contents r" using get_some Suc.prems(1) Some p by blast+
    then show ?thesis using Suc.IH [OF r(1) d] Suc.prems(2) Some p d by simp
  qed
qed simp

text \<open>First in, first out: what is put in an empty queue within its capacity comes out in the same order.\<close>

lemma fifo_order:
  assumes "valid q" "contents q = []" "length xs \<le> cap"
  shows "fst (drain (length xs) (put_all xs q)) = xs"
proof -
  obtain ys q' where d: "drain (length xs) (put_all xs q) = (ys, q')" by fastforce
  have "valid (put_all xs q)" "contents (put_all xs q) = xs"
    using put_all_contents [OF assms(1), of xs] assms(2,3) by simp_all
  then show ?thesis using drain_contents [OF _ d] d by simp
qed

end

subsection \<open>Queues that keep the newest\<close>

text \<open>A queue that makes room: when it is full, \<open>put\<close> drops the oldest element.\<close>

locale newest_queue =
  fixes valid :: "'q \<Rightarrow> bool"
    and contents :: "'q \<Rightarrow> 'a list"
    and cap :: nat
    and put :: "'a \<Rightarrow> 'q \<Rightarrow> 'q"
    and get :: "'q \<Rightarrow> ('a \<times> 'q) option"
  assumes cap_pos: "0 < cap"
    and bounded: "valid q \<Longrightarrow> length (contents q) \<le> cap"
    and put_valid: "valid q \<Longrightarrow> valid (put x q)"
    and put_contents: "valid q \<Longrightarrow>
      contents (put x q) = (if length (contents q) = cap then tl (contents q) else contents q) @ [x]"
    and get_none: "valid q \<Longrightarrow> get q = None \<longleftrightarrow> contents q = []"
    and get_some: "valid q \<Longrightarrow> get q = Some (x, q') \<Longrightarrow> valid q' \<and> contents q = x # contents q'"
begin

lemma put_all_newest:
  "valid q \<Longrightarrow> valid (fold put xs q) \<and>
   contents (fold put xs q) = drop (length (contents q @ xs) - cap) (contents q @ xs)"
proof (induction xs arbitrary: q)
  case Nil
  then show ?case using bounded [of q] by simp
next
  case (Cons x xs)
  have c: "contents (put x q) = drop (length (contents q) + 1 - cap) (contents q) @ [x]"
    using put_contents [OF Cons.prems, of x] bounded [OF Cons.prems] cap_pos
    by (cases "length (contents q) = cap") (simp_all add: drop_Suc [symmetric] drop_Suc)
  have "contents (fold put xs (put x q)) =
      drop (length (contents (put x q) @ xs) - cap) (contents (put x q) @ xs)"
    using Cons.IH put_valid Cons.prems by blast
  also have "\<dots> = drop (length (contents q @ x # xs) - cap) (contents q @ x # xs)"
  proof (cases "length (contents q) = cap")
    case True
    then obtain y ys where "contents q = y # ys" using cap_pos by (cases "contents q") auto
    then show ?thesis using True c cap_pos by (simp add: Suc_diff_le)
  next
    case False
    then show ?thesis using bounded [OF Cons.prems] c by simp
  qed
  finally show ?case using Cons.IH put_valid Cons.prems by simp
qed

fun drain :: "nat \<Rightarrow> 'q \<Rightarrow> 'a list" where
  "drain 0 q = []"
| "drain (Suc n) q = (case get q of None \<Rightarrow> [] | Some (x, q') \<Rightarrow> x # drain n q')"

lemma drain_contents: "valid q \<Longrightarrow> drain n q = take n (contents q)"
proof (induction n arbitrary: q)
  case (Suc n)
  show ?case
  proof (cases "get q")
    case None
    then show ?thesis using get_none [OF Suc.prems] by simp
  next
    case (Some p)
    obtain x r where p: "p = (x, r)" by fastforce
    then show ?thesis using get_some [OF Suc.prems, of x r] Suc.IH [of r] Some by simp
  qed
qed simp

lemma newest_out:
  assumes "valid q" "contents q = []"
  shows "drain cap (fold put xs q) = drop (length xs - cap) xs"
  using put_all_newest [OF assms(1), of xs] drain_contents [of "fold put xs q" cap] assms(2) by simp

end

end
