(* ===== verification/VoiceDsp.thy ===== *)
theory VoiceDsp
  imports Buffers
begin

section \<open>The Rockchip 3A adapter: 320-sample frames over 256-sample vendor blocks\<close>

text \<open>
  \<^verbatim>\<open>RockchipVoiceDsp\<close> of \<^verbatim>\<open>client/src/platform/rv1106/rockchip_voice_dsp.cpp\<close> and its header, in the
  production configuration of one reference channel. The vendor library is a parameter: \<open>init\<close> is the
  outcome of the parameter allocation and \<^verbatim>\<open>rkaudio_preprocess_init\<close> (\<open>None\<close>: a step failed), and
  \<open>vendor\<close> is \<^verbatim>\<open>rkaudio_preprocess_short\<close> with its internal state \<open>'v\<close> made explicit: the new state, the
  returned byte count and the 256 output samples.
\<close>

definition k_frame_samples :: nat where "k_frame_samples = 320"
definition k_vendor_block :: nat where "k_vendor_block = 256"
definition k_channels :: nat where "k_channels = 3"
definition k_input_fifo_frames :: nat where "k_input_fifo_frames = 512"
definition k_output_fifo_samples :: nat where "k_output_fifo_samples = 640"
definition k_vendor_output_bytes :: int where "k_vendor_output_bytes = 512"

lemmas dsp_consts = k_frame_samples_def k_vendor_block_def k_channels_def k_input_fifo_frames_def
  k_output_fifo_samples_def k_vendor_output_bytes_def

type_synonym 'v vendor = "'v \<Rightarrow> sample list \<Rightarrow> 'v \<times> int \<times> sample list"

record 'v dsp =
  dsp_handle :: "'v option"
  input_fifo :: "sample list"
  output_fifo :: "sample list"
  vendor_output :: "sample list"
  input_count :: nat
  output_count :: nat

definition new_dsp :: "'v dsp" where
  "new_dsp = \<lparr>dsp_handle = None, input_fifo = replicate (k_input_fifo_frames * k_channels) 0,
     output_fifo = replicate k_output_fifo_samples 0, vendor_output = replicate k_vendor_block 0,
     input_count = 0, output_count = 0\<rparr>"

definition reset_fifos :: "bool \<Rightarrow> 'v dsp \<Rightarrow> 'v dsp" where
  "reset_fifos prime_output d = d\<lparr>input_fifo := replicate (k_input_fifo_frames * k_channels) 0,
     output_fifo := replicate k_output_fifo_samples 0, vendor_output := replicate k_vendor_block 0,
     input_count := 0, output_count := (if prime_output then k_frame_samples else 0)\<rparr>"

definition dsp_open :: "'v option \<Rightarrow> 'v dsp \<Rightarrow> bool \<times> 'v dsp" where
  "dsp_open init d = (if dsp_handle d \<noteq> None then (False, d)
     else case init of
       None \<Rightarrow> (False, d)
     | Some v \<Rightarrow> (True, reset_fifos True (d\<lparr>dsp_handle := Some v\<rparr>)))"

definition dsp_close :: "'v dsp \<Rightarrow> 'v dsp" where
  "dsp_close d = reset_fifos False (d\<lparr>dsp_handle := None\<rparr>)"

text \<open>The interleaved vendor input of one frame: left, right, left reference; the right one is dropped.\<close>

definition interleave :: "sample list \<Rightarrow> sample list \<Rightarrow> sample list \<Rightarrow> sample list" where
  "interleave mic_left mic_right reference_left =
     concat (map (\<lambda>i. [mic_left ! i, mic_right ! i, reference_left ! i]) [0..<k_frame_samples])"

text \<open>The \<^verbatim>\<open>while\<close> loop: one vendor call per full block; a wrong result or a full output FIFO closes.\<close>

definition feed_block :: "'v \<Rightarrow> sample list \<Rightarrow> 'v dsp \<Rightarrow> 'v dsp" where
  "feed_block v block d = (let n = input_count d - k_vendor_block in
     d\<lparr>dsp_handle := Some v, vendor_output := block, input_count := n,
       input_fifo := move_front (k_vendor_block * k_channels) (n * k_channels) (input_fifo d),
       output_fifo := overwrite (output_count d) block (output_fifo d),
       output_count := output_count d + k_vendor_block\<rparr>)"

function vendor_loop :: "'v vendor \<Rightarrow> 'v \<Rightarrow> 'v dsp \<Rightarrow> bool \<times> 'v dsp" where
  "vendor_loop vendor v d =
     (if input_count d < k_vendor_block then (True, d)
      else case vendor v (take (k_vendor_block * k_channels) (input_fifo d)) of (v', result, block) \<Rightarrow>
        if result \<noteq> k_vendor_output_bytes \<or> k_output_fifo_samples - k_vendor_block < output_count d
        then (False, dsp_close d)
        else vendor_loop vendor v' (feed_block v' block d))"
  by pat_completeness auto
termination
  by (relation "measure (\<lambda>(_, _, d). input_count d)") (auto simp: feed_block_def Let_def dsp_consts)

declare vendor_loop.simps [simp del]

definition dsp_process ::
  "'v vendor \<Rightarrow> sample list \<Rightarrow> sample list \<Rightarrow> sample list \<Rightarrow> 'v dsp \<Rightarrow> bool \<times> sample list \<times> 'v dsp" where
  "dsp_process vendor mic_left mic_right reference_left d =
     (let silence = replicate k_frame_samples 0 in
      case dsp_handle d of
        None \<Rightarrow> (False, silence, d)
      | Some v \<Rightarrow>
          if k_input_fifo_frames - k_frame_samples < input_count d then (False, silence, d)
          else let d1 = d\<lparr>input_fifo := overwrite (input_count d * k_channels)
                            (interleave mic_left mic_right reference_left) (input_fifo d),
                          input_count := input_count d + k_frame_samples\<rparr> in
            (case vendor_loop vendor v d1 of
               (False, d2) \<Rightarrow> (False, silence, d2)
             | (True, d2) \<Rightarrow>
                 if output_count d2 < k_frame_samples then (False, silence, dsp_close d2)
                 else let n = output_count d2 - k_frame_samples in
                   (True, take k_frame_samples (output_fifo d2),
                    d2\<lparr>output_count := n, output_fifo := move_front k_frame_samples n (output_fifo d2)\<rparr>)))"

subsection \<open>The FIFOs as sequences\<close>

definition pending_in :: "'v dsp \<Rightarrow> sample list" where
  "pending_in d = take (input_count d * k_channels) (input_fifo d)"

definition pending_out :: "'v dsp \<Rightarrow> sample list" where
  "pending_out d = take (output_count d) (output_fifo d)"

definition dsp_arrays :: "'v dsp \<Rightarrow> bool" where
  "dsp_arrays d \<longleftrightarrow> length (input_fifo d) = k_input_fifo_frames * k_channels \<and>
     length (output_fifo d) = k_output_fifo_samples \<and>
     input_count d \<le> k_input_fifo_frames \<and> output_count d \<le> k_output_fifo_samples"

text \<open>Between calls an open adapter holds 320 samples in all, in one of four phases.\<close>

definition dsp_phase :: "'v dsp \<Rightarrow> bool" where
  "dsp_phase d \<longleftrightarrow> dsp_arrays d \<and> input_count d \<in> {0, 64, 128, 192} \<and>
     input_count d + output_count d = k_frame_samples"

text \<open>The vendor block contract: 768 shorts in, 256 shorts (512 bytes) out.\<close>

definition vendor_contract :: "'v vendor \<Rightarrow> bool" where
  "vendor_contract vendor \<longleftrightarrow> (\<forall>v block. length block = k_vendor_block * k_channels \<longrightarrow>
     (case vendor v block of (v', result, out') \<Rightarrow> result = k_vendor_output_bytes \<and> length out' = k_vendor_block))"

text \<open>The specification: the vendor applied block by block to a whole sequence; the rest stays pending.\<close>

function vendor_stream :: "'v vendor \<Rightarrow> 'v \<Rightarrow> sample list \<Rightarrow> sample list \<times> 'v \<times> sample list" where
  "vendor_stream vendor v xs =
     (if length xs < k_vendor_block * k_channels then ([], v, xs)
      else case vendor v (take (k_vendor_block * k_channels) xs) of (v', _, block) \<Rightarrow>
        (case vendor_stream vendor v' (drop (k_vendor_block * k_channels) xs) of
           (ys, v'', rest) \<Rightarrow> (block @ ys, v'', rest)))"
  by pat_completeness auto
termination
  by (relation "measure (\<lambda>(_, _, xs). length xs)") (auto simp: dsp_consts)

declare vendor_stream.simps [simp del]

lemma length_interleave: "length (interleave l r f) = k_frame_samples * k_channels"
proof -
  have "length (concat (map (\<lambda>i. [l ! i, r ! i, f ! i]) xs)) = length xs * 3" for xs
    by (induction xs) auto
  then show ?thesis by (simp add: interleave_def k_channels_def)
qed

lemma vendor_contractD:
  assumes "vendor_contract vendor" "length block = k_vendor_block * k_channels" "vendor v block = (v', result, o')"
  shows "result = k_vendor_output_bytes" "length o' = k_vendor_block"
  using assms by (auto simp: vendor_contract_def split: prod.splits)

lemma feed_block_pending:
  assumes "dsp_arrays d" "k_vendor_block \<le> input_count d" "output_count d \<le> k_output_fifo_samples - k_vendor_block"
    and "length block = k_vendor_block"
  shows "dsp_arrays (feed_block v block d)"
    and "pending_in (feed_block v block d) = drop (k_vendor_block * k_channels) (pending_in d)"
    and "pending_out (feed_block v block d) = pending_out d @ block"
    and "take (k_vendor_block * k_channels) (input_fifo d) = take (k_vendor_block * k_channels) (pending_in d)"
proof -
  define n where "n = input_count d - k_vendor_block"
  have n: "input_count d = k_vendor_block + n" using assms(2) by (simp add: n_def)
  have len: "k_vendor_block * k_channels + n * k_channels \<le> length (input_fifo d)"
    using assms(1) n by (simp add: dsp_arrays_def dsp_consts)
  have out: "output_count d + length block \<le> length (output_fifo d)"
    using assms(1,3,4) by (simp add: dsp_arrays_def dsp_consts)
  show "dsp_arrays (feed_block v block d)"
    using assms n len out by (simp add: dsp_arrays_def feed_block_def Let_def dsp_consts)
  show "pending_in (feed_block v block d) = drop (k_vendor_block * k_channels) (pending_in d)"
    using len take_move_front [of "k_vendor_block * k_channels" "n * k_channels" "input_fifo d"]
    by (simp add: pending_in_def feed_block_def Let_def n add_mult_distrib)
  show "pending_out (feed_block v block d) = pending_out d @ block"
    using take_overwrite [OF out] assms(4) by (simp add: pending_out_def feed_block_def Let_def)
  show "take (k_vendor_block * k_channels) (input_fifo d) = take (k_vendor_block * k_channels) (pending_in d)"
    using assms(2) by (simp add: pending_in_def min_absorb1 mult_le_mono1)
qed

lemma length_pending_in: "dsp_arrays d \<Longrightarrow> length (pending_in d) = input_count d * k_channels"
  by (simp add: pending_in_def dsp_arrays_def)

lemma length_pending_out: "dsp_arrays d \<Longrightarrow> length (pending_out d) = output_count d"
  by (simp add: pending_out_def dsp_arrays_def)

text \<open>With room for every block the loop is the specification on the pending input.\<close>

lemma vendor_loop_stream:
  assumes "vendor_contract vendor" and "dsp_arrays d" and "dsp_handle d = Some v"
    and "output_count d + input_count d div k_vendor_block * k_vendor_block \<le> k_output_fifo_samples"
    and "vendor_stream vendor v (pending_in d) = (ys, v', rest)"
  shows "\<exists>d'. vendor_loop vendor v d = (True, d') \<and> dsp_arrays d' \<and> dsp_handle d' = Some v' \<and>
    pending_in d' = rest \<and> pending_out d' = pending_out d @ ys \<and>
    input_count d' = input_count d mod k_vendor_block \<and>
    output_count d' = output_count d + input_count d div k_vendor_block * k_vendor_block"
  using assms(2-)
proof (induction "input_count d" arbitrary: d v ys rule: less_induct)
  case less
  have len: "length (pending_in d) = input_count d * k_channels" using length_pending_in less.prems(1) .
  show ?case
  proof (cases "input_count d < k_vendor_block")
    case True
    then have "length (pending_in d) < k_vendor_block * k_channels" using len by (simp add: dsp_consts)
    then have "ys = []" "v' = v" "rest = pending_in d"
      using less.prems(4) by (simp_all add: vendor_stream.simps [of vendor v])
    then show ?thesis using True less.prems by (simp add: vendor_loop.simps [of vendor v])
  next
    case False
    then have ge: "k_vendor_block \<le> input_count d" by simp
    define block where "block = take (k_vendor_block * k_channels) (pending_in d)"
    have lb: "length block = k_vendor_block * k_channels"
      using len ge by (simp add: block_def dsp_consts)
    obtain v1 result out' where v1: "vendor v block = (v1, result, out')" by (cases "vendor v block") auto
    note c = vendor_contractD [OF assms(1) lb v1]
    obtain zs v2 rest2 where st: "vendor_stream vendor v1 (drop (k_vendor_block * k_channels) (pending_in d)) = (zs, v2, rest2)"
      by (cases "vendor_stream vendor v1 (drop (k_vendor_block * k_channels) (pending_in d))") auto
    have "\<not> length (pending_in d) < k_vendor_block * k_channels" using len ge by (simp add: dsp_consts)
    then have eq: "ys = out' @ zs" "v' = v2" "rest = rest2"
      using less.prems(4) v1 st by (simp_all add: vendor_stream.simps [of vendor v] flip: block_def)
    have q: "input_count d div k_vendor_block = Suc ((input_count d - k_vendor_block) div k_vendor_block)"
      using ge by (simp add: k_vendor_block_def le_div_geq)
    then have room: "output_count d + k_vendor_block + (input_count d - k_vendor_block) div k_vendor_block * k_vendor_block
        \<le> k_output_fifo_samples"
      using less.prems(3) by simp
    then have room1: "output_count d \<le> k_output_fifo_samples - k_vendor_block" by simp
    note f = feed_block_pending [OF less.prems(1) ge room1 c(2)]
    have fc: "input_count (feed_block v1 out' d) = input_count d - k_vendor_block"
      "output_count (feed_block v1 out' d) = output_count d + k_vendor_block"
      "dsp_handle (feed_block v1 out' d) = Some v1"
      by (simp_all add: feed_block_def Let_def)
    have "\<exists>d'. vendor_loop vendor v1 (feed_block v1 out' d) = (True, d') \<and> dsp_arrays d' \<and> dsp_handle d' = Some v' \<and>
        pending_in d' = rest \<and> pending_out d' = pending_out (feed_block v1 out' d) @ zs \<and>
        input_count d' = (input_count d - k_vendor_block) mod k_vendor_block \<and>
        output_count d' = output_count d + k_vendor_block +
          (input_count d - k_vendor_block) div k_vendor_block * k_vendor_block"
      using less.hyps [of "feed_block v1 out' d" v1 zs] f room ge st eq fc
      by (simp add: k_vendor_block_def)
    moreover have "vendor_loop vendor v d = vendor_loop vendor v1 (feed_block v1 out' d)"
      using False v1 c(1) room1 f(4) by (simp add: vendor_loop.simps [of vendor v] block_def)
    moreover have "(input_count d - k_vendor_block) mod k_vendor_block = input_count d mod k_vendor_block"
      using ge by (simp add: k_vendor_block_def le_mod_geq)
    ultimately show ?thesis using q f(3) eq(1) by (auto simp: add.assoc)
  qed
qed

text \<open>One call, from one of the four phases.\<close>

lemma dsp_process_phase:
  assumes "vendor_contract vendor" and "dsp_phase d" and "dsp_handle d = Some v"
    and "vendor_stream vendor v (pending_in d @ interleave l r f) = (ys, v', rest)"
  shows "\<exists>out' d'. dsp_process vendor l r f d = (True, out', d') \<and> dsp_phase d' \<and> dsp_handle d' = Some v' \<and>
    length out' = k_frame_samples \<and> pending_in d' = rest \<and> out' @ pending_out d' = pending_out d @ ys"
proof -
  have ph: "dsp_arrays d" "input_count d \<in> {0, 64, 128, 192}" "output_count d = 320 - input_count d"
    using assms(2) by (auto simp: dsp_phase_def dsp_consts)
  define d1 where "d1 = d\<lparr>input_fifo := overwrite (input_count d * k_channels) (interleave l r f) (input_fifo d),
      input_count := input_count d + k_frame_samples\<rparr>"
  have len: "input_count d * k_channels + length (interleave l r f) \<le> length (input_fifo d)"
    using ph by (auto simp: length_interleave dsp_arrays_def dsp_consts)
  have a1: "dsp_arrays d1" using ph len by (auto simp: d1_def dsp_arrays_def dsp_consts)
  have p1: "pending_in d1 = pending_in d @ interleave l r f"
    using take_overwrite [OF len] by (simp add: pending_in_def d1_def length_interleave add_mult_distrib)
  have o1: "pending_out d1 = pending_out d" "output_count d1 = output_count d" "dsp_handle d1 = Some v"
    using assms(3) by (simp_all add: pending_out_def d1_def)
  have i1: "input_count d1 = input_count d + 320" by (simp add: d1_def dsp_consts)
  have room: "output_count d1 + input_count d1 div k_vendor_block * k_vendor_block \<le> k_output_fifo_samples"
    using ph unfolding i1 o1 by (auto simp: dsp_consts)
  obtain d2 where d2: "vendor_loop vendor v d1 = (True, d2)" "dsp_arrays d2" "dsp_handle d2 = Some v'"
      "pending_in d2 = rest" "pending_out d2 = pending_out d @ ys"
      "input_count d2 = input_count d1 mod k_vendor_block"
      "output_count d2 = output_count d1 + input_count d1 div k_vendor_block * k_vendor_block"
    using vendor_loop_stream [OF assms(1) a1 o1(3) room] assms(4) unfolding p1 o1 by blast
  have c2: "input_count d2 \<in> {0, 64, 128, 192}" "input_count d2 + output_count d2 = 640" "320 \<le> output_count d2"
    using ph unfolding d2(6,7) i1 o1 by (auto simp: dsp_consts)
  define n where "n = output_count d2 - k_frame_samples"
  define d3 where "d3 = d2\<lparr>output_count := n, output_fifo := move_front k_frame_samples n (output_fifo d2)\<rparr>"
  have ln: "k_frame_samples + n \<le> length (output_fifo d2)" "k_frame_samples + n = output_count d2"
    using d2(2) c2(3) by (simp_all add: n_def dsp_arrays_def dsp_consts)
  have "dsp_process vendor l r f d = (True, take k_frame_samples (output_fifo d2), d3)"
    using assms(3) ph c2(3) d2(1)
    by (auto simp: dsp_process_def Let_def d3_def n_def k_frame_samples_def k_input_fifo_frames_def
        simp flip: d1_def [unfolded k_frame_samples_def])
  moreover have "take k_frame_samples (output_fifo d2) @ pending_out d3 = pending_out d @ ys"
  proof -
    have "pending_out d3 = drop k_frame_samples (pending_out d2)"
      using take_move_front [OF ln(1)] ln(2) by (simp add: pending_out_def d3_def)
    moreover have "take k_frame_samples (output_fifo d2) = take k_frame_samples (pending_out d2)"
      using c2(3) by (simp add: pending_out_def dsp_consts min_absorb1)
    ultimately have "take k_frame_samples (output_fifo d2) @ pending_out d3 = pending_out d2"
      by (simp only: append_take_drop_id)
    then show ?thesis using d2(5) by simp
  qed
  moreover have "length (take k_frame_samples (output_fifo d2)) = k_frame_samples"
    using ln(1) by simp
  moreover have "dsp_phase d3"
    using d2(2) c2 ln by (auto simp: dsp_phase_def d3_def dsp_arrays_def n_def dsp_consts)
  ultimately show ?thesis
    using d2(3,4) by (intro exI [of _ "take k_frame_samples (output_fifo d2)"] exI [of _ d3])
      (simp add: d3_def pending_in_def)
qed

text \<open>A run of calls: the outputs in order, and whether every call succeeded.\<close>

fun dsp_run :: "'v vendor \<Rightarrow> (sample list \<times> sample list \<times> sample list) list \<Rightarrow> 'v dsp \<Rightarrow> bool \<times> sample list list \<times> 'v dsp" where
  "dsp_run vendor [] d = (True, [], d)"
| "dsp_run vendor ((l, r, f) # fs) d = (case dsp_process vendor l r f d of (ok, out', d1) \<Rightarrow>
     (case dsp_run vendor fs d1 of (oks, outs, d2) \<Rightarrow> (ok \<and> oks, out' # outs, d2)))"

definition interleave_all :: "(sample list \<times> sample list \<times> sample list) list \<Rightarrow> sample list" where
  "interleave_all fs = concat (map (\<lambda>(l, r, f). interleave l r f) fs)"

lemma vendor_stream_append:
  "vendor_stream vendor v xs = (ys, v1, rest) \<Longrightarrow> vendor_stream vendor v1 (rest @ zs) = (ws, v2, rest2) \<Longrightarrow>
   vendor_stream vendor v (xs @ zs) = (ys @ ws, v2, rest2)"
proof (induction vendor v xs arbitrary: ys rule: vendor_stream.induct)
  case (1 vendor v xs)
  let ?n = "k_vendor_block * k_channels"
  show ?case
  proof (cases "length xs < ?n")
    case True
    then have "ys = []" "v1 = v" "rest = xs" using "1.prems"(1) by (simp_all add: vendor_stream.simps [of vendor v xs])
    then show ?thesis using "1.prems"(2) by simp
  next
    case False
    obtain v' res block where b: "vendor v (take ?n xs) = (v', res, block)" by (cases "vendor v (take ?n xs)") auto
    obtain us v3 rest3 where u: "vendor_stream vendor v' (drop ?n xs) = (us, v3, rest3)"
      by (cases "vendor_stream vendor v' (drop ?n xs)") auto
    have eq: "ys = block @ us" "v3 = v1" "rest3 = rest"
      using "1.prems"(1) False b u by (simp_all add: vendor_stream.simps [of vendor v xs])
    have "vendor_stream vendor v' (drop ?n xs @ zs) = (us @ ws, v2, rest2)"
      using "1.IH" [OF False b [symmetric] refl _ "1.prems"(2), of us] u eq by simp
    then show ?thesis using False b eq by (simp add: vendor_stream.simps [of vendor v "xs @ zs"])
  qed
qed

lemma dsp_run_phase:
  assumes "vendor_contract vendor" and "dsp_phase d" and "dsp_handle d = Some v"
    and "vendor_stream vendor v (pending_in d @ interleave_all fs) = (ys, v', rest)"
  shows "\<exists>outs d'. dsp_run vendor fs d = (True, outs, d') \<and> dsp_phase d' \<and> length outs = length fs \<and>
    list_all (\<lambda>x. length x = k_frame_samples) outs \<and> pending_in d' = rest \<and>
    concat outs @ pending_out d' = pending_out d @ ys"
  using assms(2-)
proof (induction fs arbitrary: d v ys)
  case Nil
  have "length (pending_in d) < k_vendor_block * k_channels"
    using Nil.prems(1) length_pending_in [of d] by (auto simp: dsp_phase_def dsp_consts)
  then show ?case using Nil by (simp add: vendor_stream.simps [of vendor v] interleave_all_def)
next
  case (Cons x fs)
  obtain l r f where x: "x = (l, r, f)" by (cases x) auto
  obtain zs v1 rest1 where z: "vendor_stream vendor v (pending_in d @ interleave l r f) = (zs, v1, rest1)"
    by (cases "vendor_stream vendor v (pending_in d @ interleave l r f)") auto
  obtain out' d1 where d1: "dsp_process vendor l r f d = (True, out', d1)" "dsp_phase d1" "dsp_handle d1 = Some v1"
      "length out' = k_frame_samples" "pending_in d1 = rest1" "out' @ pending_out d1 = pending_out d @ zs"
    using dsp_process_phase [OF assms(1) Cons.prems(1,2) z] by blast
  obtain ws v2 rest2 where w: "vendor_stream vendor v1 (rest1 @ interleave_all fs) = (ws, v2, rest2)"
    by (cases "vendor_stream vendor v1 (rest1 @ interleave_all fs)") auto
  have "ys = zs @ ws" "v' = v2" "rest = rest2"
    using vendor_stream_append [OF z w] Cons.prems(3) by (simp_all add: x interleave_all_def)
  moreover obtain outs d' where "dsp_run vendor fs d1 = (True, outs, d')" "dsp_phase d'" "length outs = length fs"
      "list_all (\<lambda>x. length x = k_frame_samples) outs" "pending_in d' = rest2" "concat outs @ pending_out d' = pending_out d1 @ ws"
    using Cons.IH [OF d1(2,3), of ws] w d1(5) calculation by auto
  ultimately show ?case using d1 by (auto simp: x)
qed

text \<open>C19: the adapter never fails on a vendor that keeps its block contract: after \<^verbatim>\<open>Open\<close> any number of
  20 ms frames all succeed with exactly 320 samples each, and the outputs in order are 320 samples of
  silence followed by the vendor's output on the interleaved input cut in 256-sample blocks: no sample
  is lost, repeated or reordered, with one frame of delay.\<close>

theorem dsp_streams:
  assumes "vendor_contract vendor" and "dsp_open (Some v) d = (True, d0)"
    and "dsp_run vendor fs d0 = (ok, outs, d')"
    and "vendor_stream vendor v (interleave_all fs) = (ys, v', rest)"
  shows "ok \<and> length outs = length fs \<and> list_all (\<lambda>x. length x = 320) outs \<and>
    concat outs = take (320 * length fs) (replicate 320 0 @ ys)"
proof -
  have d0: "dsp_phase d0" "dsp_handle d0 = Some v" "pending_in d0 = []" "pending_out d0 = replicate 320 0"
    using assms(2) by (auto simp: dsp_open_def reset_fifos_def dsp_phase_def dsp_arrays_def pending_in_def
        pending_out_def dsp_consts split: if_splits)
  obtain outs2 d2 where r: "dsp_run vendor fs d0 = (True, outs2, d2)" "length outs2 = length fs"
      "list_all (\<lambda>x. length x = k_frame_samples) outs2" "concat outs2 @ pending_out d2 = pending_out d0 @ ys"
    using dsp_run_phase [OF assms(1) d0(1,2), of fs ys v' rest] assms(4) d0(3) by auto
  have "length (concat outs2) = 320 * length outs2"
    using r(3) by (induction outs2) (auto simp: dsp_consts)
  then have "concat outs2 = take (320 * length fs) (pending_out d0 @ ys)"
    using r(2,4) by (metis append_eq_conv_conj)
  then show ?thesis using r assms(3) d0(4) by (auto simp: dsp_consts)
qed

definition echo_vendor :: "nat vendor" where
  "echo_vendor n block = (n + 1, 512, map (\<lambda>i. block ! (i * 3)) [0..<256])"

theorem dsp_streams_witness:
  "fst (dsp_run echo_vendor (replicate 5 (replicate 320 3, replicate 320 4, replicate 320 5))
     (snd (dsp_open (Some 0) new_dsp)))"
proof -
  obtain ok outs d' where r: "dsp_run echo_vendor (replicate 5 (replicate 320 3, replicate 320 4, replicate 320 5))
     (snd (dsp_open (Some 0) new_dsp)) = (ok, outs, d')" by (metis prod_cases3)
  obtain ys v' rest where s: "vendor_stream echo_vendor 0 (interleave_all (replicate 5 (replicate 320 3, replicate 320 4, replicate 320 5)))
      = (ys, v', rest)" by (metis prod_cases3)
  have vc: "vendor_contract echo_vendor" by (simp add: vendor_contract_def echo_vendor_def dsp_consts)
  have op: "dsp_open (Some 0) new_dsp = (True, snd (dsp_open (Some 0) new_dsp))"
    by (simp add: dsp_open_def new_dsp_def)
  show ?thesis using dsp_streams [OF vc op r s] r by simp
qed

text \<open>A call that returns false delivers silence, and unless the adapter was already closed or its
  input FIFO is full it leaves the adapter closed with empty FIFOs; a closed adapter stays as it is.\<close>

theorem dsp_failure_closes:
  assumes "dsp_process vendor l r f d = (False, out', d')"
  shows "out' = replicate 320 0 \<and>
    (d' = d \<and> (dsp_handle d = None \<or> 192 < input_count d) \<or>
     dsp_handle d' = None \<and> input_count d' = 0 \<and> output_count d' = 0)"
proof -
  have loop: "dsp_handle d2 = None \<and> input_count d2 = 0 \<and> output_count d2 = 0"
    if "vendor_loop vendor v d1 = (False, d2)" for v d1 d2
    using that
  proof (induction vendor v d1 rule: vendor_loop.induct)
    case (1 vendor v d)
    obtain v' res block where b: "vendor v (take (k_vendor_block * k_channels) (input_fifo d)) = (v', res, block)"
      by (metis prod_cases3)
    from "1.prems" b show ?case
      using "1.IH" [OF _ b [symmetric] refl]
      by (subst (asm) vendor_loop.simps) (auto simp: dsp_close_def reset_fifos_def split: if_splits)
  qed
  show ?thesis
    using assms loop
    by (auto simp: dsp_process_def Let_def dsp_close_def reset_fifos_def dsp_consts
        split: option.splits if_splits prod.splits bool.splits)
qed

theorem dsp_failure_closes_witness:
  "dsp_handle (snd (snd (dsp_process (\<lambda>v b. (v, - 1, [])) (replicate 320 0) (replicate 320 0) (replicate 320 0)
     (snd (dsp_open (Some (0 :: nat)) new_dsp))))) = None"
proof -
  define d where "d = snd (dsp_open (Some (0 :: nat)) new_dsp)"
  obtain out' d' where r: "dsp_process (\<lambda>v b. (v, - 1, [])) (replicate 320 0) (replicate 320 0) (replicate 320 0) d = (False, out', d')"
    by (simp add: d_def dsp_open_def new_dsp_def reset_fifos_def dsp_process_def Let_def vendor_loop.simps dsp_consts)
  have "dsp_handle d = Some 0" "input_count d = 0"
    by (simp_all add: d_def dsp_open_def new_dsp_def reset_fifos_def)
  then show ?thesis using dsp_failure_closes [OF r] r by (simp add: d_def)
qed

end
