(* ===== verification/DspParameters.thy ===== *)
theory DspParameters
  imports VoiceDsp "HOL-Library.Word"
begin

unbundle bit_operations_syntax

section \<open>The vendor objects of the 3A adapter\<close>

text \<open>
  \<^verbatim>\<open>PrepareParameters\<close>, \<^verbatim>\<open>ReleaseParameters\<close>, \<^verbatim>\<open>Open\<close> and \<^verbatim>\<open>Close\<close> of
  \<^verbatim>\<open>client/src/platform/rv1106/rockchip_voice_dsp.cpp\<close> seen from the vendor library: which objects are
  allocated, with what content, and when they are given back. A vendor structure is a record of the fields the
  program writes; a pointer to one is an \<open>option\<close>. What the library's allocators return and the value of
  its two feature bits are arguments. A \<^verbatim>\<open>float\<close> is its 32-bit pattern.
\<close>

type_synonym float32 = "32 word"

record dtd_param =
  ksiThd_high :: float32
  ksiThd_low :: float32

record dereverb_param =
  curveLg :: int
  T60 :: float32

record aes_param =
  Beta_Up_Low :: float32
  THD_Flag :: int
  HARD_Flag :: int

record anr_param =
  swU :: int
  fGmin :: float32
  InterV :: int

record aec_param =
  delay_para :: bool
  aec_pos :: int
  model_aec_en :: int
  aec_drop_ref_channel :: int
  delay_len :: int

record bf_param =
  model_bf_en :: "32 word"
  Targ :: int
  ref_pos :: int
  num_ref_channel :: int
  bf_drop_ref_channel :: int
  dereverb_para :: "dereverb_param option"
  aes_para :: "aes_param option"
  anr_para :: "anr_param option"
  dtd_para :: "dtd_param option"

record audio_param =
  model_en :: "32 word"
  read_size :: int
  aec_tree :: "aec_param option"
  bf_tree :: "bf_param option"
  rx_param :: "unit option"

text \<open>The feature masks; the source asserts the value 1109 of the second one in the production build.\<close>

definition k_beamforming_feature_mask :: "32 word" where
  "k_beamforming_feature_mask = 1109"

definition k_main_feature_mask :: "32 word \<Rightarrow> 32 word \<Rightarrow> 32 word" where
  "k_main_feature_mask en_aec en_bf = en_aec OR en_bf"

definition k_reference_channels :: int where "k_reference_channels = 1"
definition k_delay_samples :: int where "k_delay_samples = 0"

text \<open>The answers of the vendor's allocators to one call of \<^verbatim>\<open>Open\<close>.\<close>

record 'v vendor_answers =
  va_new :: bool
  va_aec :: "aec_param option"
  va_bf :: "bf_param option"
  va_init :: "audio_param \<Rightarrow> 'v option"
  va_en_aec :: "32 word"
  va_en_bf :: "32 word"

definition new_audio_param :: audio_param where
  "new_audio_param = \<lparr>model_en = 0, read_size = 0, aec_tree = None, bf_tree = None, rx_param = None\<rparr>"

definition tune_aec :: "aec_param \<Rightarrow> aec_param" where
  "tune_aec a = a\<lparr>aec_pos := 1, model_aec_en := 0, aec_drop_ref_channel := 0, delay_len := k_delay_samples\<rparr>"

definition tune_beamforming :: "bf_param \<Rightarrow> bf_param" where
  "tune_beamforming b = b\<lparr>model_bf_en := k_beamforming_feature_mask, Targ := 4, ref_pos := 1,
     num_ref_channel := k_reference_channels, bf_drop_ref_channel := 0\<rparr>"

definition tune_filters :: "bf_param \<Rightarrow> bf_param" where
  "tune_filters b = b\<lparr>
     dtd_para := map_option (\<lambda>x. x\<lparr>ksiThd_high := 0x3F333333, ksiThd_low := 0x3F000000\<rparr>) (dtd_para b),
     dereverb_para := map_option (\<lambda>x. x\<lparr>curveLg := 20, T60 := 0x3ECCCCCD\<rparr>) (dereverb_para b),
     aes_para := map_option (\<lambda>x. x\<lparr>Beta_Up_Low := 0x3BA3D70A, THD_Flag := 0, HARD_Flag := 0\<rparr>) (aes_para b),
     anr_para := map_option (\<lambda>x. x\<lparr>swU := 1, fGmin := 0x3C23D70A, InterV := 1\<rparr>) (anr_para b)\<rparr>"

definition prepare_parameters :: "'v vendor_answers \<Rightarrow> audio_param \<Rightarrow> bool \<times> audio_param" where
  "prepare_parameters va p =
     (let p1 = p\<lparr>model_en := k_main_feature_mask (va_en_aec va) (va_en_bf va), read_size := int k_vendor_block,
               aec_tree := va_aec va, bf_tree := va_bf va, rx_param := None\<rparr> in
      case (aec_tree p1, bf_tree p1) of
        (Some a, Some b) \<Rightarrow>
          if \<not> delay_para a then (False, p1)
          else let p2 = p1\<lparr>aec_tree := Some (tune_aec a), bf_tree := Some (tune_beamforming b)\<rparr> in
            if dereverb_para b = None \<or> aes_para b = None \<or> anr_para b = None \<or> dtd_para b = None
            then (False, p2)
            else (True, p2\<lparr>bf_tree := Some (tune_filters (tune_beamforming b))\<rparr>)
      | _ \<Rightarrow> (False, p1))"

text \<open>The calls that create or give back a vendor object, and the two pointers the adapter keeps.\<close>

datatype vendor_call =
  New_parameters
| Deinit_parameters
| Init_handle int int int int
| Destroy_handle

record 'v dsp_objects =
  obj_handle :: "'v option"
  obj_parameters :: "audio_param option"

definition release_parameters :: "audio_param option \<Rightarrow> vendor_call list" where
  "release_parameters p = (case p of None \<Rightarrow> [] | Some _ \<Rightarrow> [Deinit_parameters])"

definition objects_open :: "'v vendor_answers \<Rightarrow> 'v dsp_objects \<Rightarrow> bool \<times> 'v dsp_objects \<times> vendor_call list" where
  "objects_open va ob =
     (if obj_handle ob \<noteq> None \<or> obj_parameters ob \<noteq> None then (False, ob, [])
      else if \<not> va_new va then (False, ob, [])
      else case prepare_parameters va new_audio_param of
          (False, q) \<Rightarrow> (False, ob, New_parameters # release_parameters (Some q))
        | (True, q) \<Rightarrow> (case va_init va q of
            None \<Rightarrow> (False, ob, New_parameters # release_parameters (Some q))
          | Some h \<Rightarrow> (True, \<lparr>obj_handle = Some h, obj_parameters = Some q\<rparr>,
                      [New_parameters, Init_handle 16000 16 2 k_reference_channels])))"

definition objects_close :: "'v dsp_objects \<Rightarrow> 'v dsp_objects \<times> vendor_call list" where
  "objects_close ob =
     (\<lparr>obj_handle = None, obj_parameters = None\<rparr>,
      (case obj_handle ob of None \<Rightarrow> [] | Some _ \<Rightarrow> [Destroy_handle]) @ release_parameters (obj_parameters ob))"

text \<open>The owner's calls in any order. The destructor is a last \<open>Close\<close>.\<close>

datatype 'v objects_event = Open_objects "'v vendor_answers" | Close_objects

fun objects_step :: "'v objects_event \<Rightarrow> 'v dsp_objects \<times> vendor_call list \<Rightarrow> 'v dsp_objects \<times> vendor_call list" where
  "objects_step (Open_objects va) (ob, calls) = (case objects_open va ob of (_, ob', new) \<Rightarrow> (ob', calls @ new))"
| "objects_step Close_objects (ob, calls) = (case objects_close ob of (ob', new) \<Rightarrow> (ob', calls @ new))"

definition no_objects :: "'v dsp_objects" where
  "no_objects = \<lparr>obj_handle = None, obj_parameters = None\<rparr>"

text \<open>
  What the vendor library may be asked: a handle is created over a live parameter tree and destroyed before that
  tree is; nothing is created twice or given back twice. The state is (trees alive, handles alive).
\<close>

fun vendor_use :: "vendor_call list \<Rightarrow> bool \<times> bool \<Rightarrow> (bool \<times> bool) option" where
  "vendor_use [] s = Some s"
| "vendor_use (New_parameters # cs) (t, h) = (if t then None else vendor_use cs (True, h))"
| "vendor_use (Deinit_parameters # cs) (t, h) = (if t \<and> \<not> h then vendor_use cs (False, h) else None)"
| "vendor_use (Init_handle r b m c # cs) (t, h) = (if t \<and> \<not> h then vendor_use cs (t, True) else None)"
| "vendor_use (Destroy_handle # cs) (t, h) = (if h then vendor_use cs (t, False) else None)"

definition objects_inv :: "'v dsp_objects \<times> vendor_call list \<Rightarrow> bool" where
  "objects_inv s \<longleftrightarrow> (obj_handle (fst s) = None \<longleftrightarrow> obj_parameters (fst s) = None) \<and>
     vendor_use (snd s) (False, False) = Some (obj_parameters (fst s) \<noteq> None, obj_handle (fst s) \<noteq> None)"

lemma vendor_use_append:
  "vendor_use (xs @ ys) s = (case vendor_use xs s of None \<Rightarrow> None | Some s' \<Rightarrow> vendor_use ys s')"
  by (induction xs s rule: vendor_use.induct) auto

lemma objects_inv_step: "objects_inv s \<Longrightarrow> objects_inv (objects_step e s)"
  by (cases s; cases e)
    (auto simp: objects_inv_def objects_open_def objects_close_def release_parameters_def vendor_use_append
      split: option.splits prod.splits bool.splits)

interpretation objects_runs: invariant_system objects_step objects_inv
  by unfold_locales (rule objects_inv_step)

lemma objects_inv_start: "objects_inv (no_objects, [])"
  by (simp add: objects_inv_def no_objects_def)

lemma objects_closed_end:
  assumes "objects_inv s"
  shows "vendor_use (snd (objects_step Close_objects s)) (False, False) = Some (False, False)"
  using objects_inv_step [OF assms, of Close_objects] by (cases s) (simp add: objects_inv_def objects_close_def)

text \<open>Whatever the vendor library answers and in whatever order the owner opens and closes the adapter, every
  vendor object is created over live ones, the handle is destroyed before its parameters, nothing is given back
  twice, and after a final close nothing is left.\<close>
theorem vendor_objects_balanced:
  "vendor_use (snd (fold objects_step es (no_objects, []))) (False, False) \<noteq> None \<and>
   vendor_use (snd (objects_step Close_objects (fold objects_step es (no_objects, [])))) (False, False)
     = Some (False, False)"
proof
  have i: "objects_inv (fold objects_step es (no_objects, []))"
    by (rule objects_runs.inv_fold [OF objects_inv_start])
  then show "vendor_use (snd (fold objects_step es (no_objects, []))) (False, False) \<noteq> None"
    by (simp add: objects_inv_def)
  show "vendor_use (snd (objects_step Close_objects (fold objects_step es (no_objects, [])))) (False, False)
     = Some (False, False)"
    by (rule objects_closed_end [OF i])
qed

subsection \<open>The tree handed to the vendor, and the adapter of the audio model\<close>

definition complete_bf :: "bf_param \<Rightarrow> bool" where
  "complete_bf b \<longleftrightarrow> dereverb_para b \<noteq> None \<and> aes_para b \<noteq> None \<and> anr_para b \<noteq> None \<and> dtd_para b \<noteq> None"

lemma prepare_parameters_True:
  assumes "prepare_parameters va p = (True, q)"
  shows "\<exists>a b. va_aec va = Some a \<and> delay_para a \<and> va_bf va = Some b \<and> complete_bf b \<and>
    aec_tree q = Some (tune_aec a) \<and> bf_tree q = Some (tune_filters (tune_beamforming b))"
  using assms by (auto simp: prepare_parameters_def Let_def complete_bf_def split: option.splits if_splits)

lemma prepared_tree:
  assumes "prepare_parameters va p = (True, q)"
  shows "read_size q = 256" "rx_param q = None"
    "\<exists>a. aec_tree q = Some a \<and> delay_para a \<and> delay_len a = 0"
    "\<exists>b. bf_tree q = Some b \<and> complete_bf b \<and> num_ref_channel b + 2 = int k_channels"
proof -
  show "read_size q = 256" "rx_param q = None"
    using assms by (auto simp: prepare_parameters_def Let_def k_vendor_block_def split: option.splits if_splits)
  show "\<exists>a. aec_tree q = Some a \<and> delay_para a \<and> delay_len a = 0"
    using prepare_parameters_True [OF assms] by (auto simp: tune_aec_def k_delay_samples_def)
  show "\<exists>b. bf_tree q = Some b \<and> complete_bf b \<and> num_ref_channel b + 2 = int k_channels"
    using prepare_parameters_True [OF assms]
    by (auto simp: tune_filters_def tune_beamforming_def complete_bf_def k_reference_channels_def k_channels_def)
qed

text \<open>The argument \<open>init\<close> of \<^const>\<open>dsp_open\<close>, computed from the vendor's answers.\<close>

definition vendor_init :: "'v vendor_answers \<Rightarrow> 'v option" where
  "vendor_init va = (if \<not> va_new va then None
     else case prepare_parameters va new_audio_param of (False, _) \<Rightarrow> None | (True, q) \<Rightarrow> va_init va q)"

definition same_handle :: "'v dsp \<Rightarrow> 'v dsp_objects \<Rightarrow> bool" where
  "same_handle d ob \<longleftrightarrow> dsp_handle d = obj_handle ob \<and> (obj_handle ob = None \<longleftrightarrow> obj_parameters ob = None)"

lemma dsp_open_objects:
  assumes "same_handle d ob" "objects_open va ob = (ok, ob', calls)" "dsp_open (vendor_init va) d = (ok', d')"
  shows "ok' = ok \<and> same_handle d' ob'"
  using assms by (auto simp: same_handle_def objects_open_def dsp_open_def vendor_init_def reset_fifos_def
      split: if_splits option.splits prod.splits bool.splits)

lemma dsp_close_objects: "same_handle (dsp_close d) (fst (objects_close ob))"
  by (simp add: same_handle_def dsp_close_def objects_close_def reset_fifos_def)

end
