(* ===== verification/SnowboyBridge.thy ===== *)
theory SnowboyBridge
  imports Prelude "HOL-Library.Word"
begin

section \<open>The bridge to the keyword library\<close>

text \<open>
  \<^verbatim>\<open>client/src/platform/rv1106/snowboy_legacy_bridge.cpp\<close>: the C functions through which the audio backend
  uses \<^verbatim>\<open>snowboy::SnowboyDetect\<close>. The class is a parameter: a record of its methods over a state
  \<open>'d\<close>, each giving \<open>None\<close> where it throws
  (the object a throwing method leaves behind is whatever the parameter says). A pointer that may be null is an \<open>option\<close>; a C
  string is its bytes before the final zero.
\<close>

record 'd snowboy_class =
  sd_construct :: "string \<Rightarrow> string \<Rightarrow> 'd option"
  sd_set_sensitivity :: "string \<Rightarrow> 'd \<Rightarrow> 'd option"
  sd_set_audio_gain :: "32 word \<Rightarrow> 'd \<Rightarrow> 'd option"
  sd_apply_frontend :: "bool \<Rightarrow> 'd \<Rightarrow> 'd option"
  sd_sample_rate :: "'d \<Rightarrow> int option"
  sd_num_channels :: "'d \<Rightarrow> int option"
  sd_bits_per_sample :: "'d \<Rightarrow> int option"
  sd_num_hotwords :: "'d \<Rightarrow> int option"
  sd_reset :: "'d \<Rightarrow> bool option \<times> 'd"
  sd_run_detection :: "16 word list \<Rightarrow> int \<Rightarrow> bool \<Rightarrow> 'd \<Rightarrow> int option \<times> 'd"

text \<open>\<^verbatim>\<open>BoompiSnowboyLegacyHandle\<close>: one pointer.\<close>

record 'd bridge_handle =
  bh_detector :: "'d option"

definition null_or_empty :: "string option \<Rightarrow> bool" where
  "null_or_empty s \<longleftrightarrow> s = None \<or> s = Some []"

text \<open>The four tests of the format, with the short circuit of \<^verbatim>\<open>||\<close>: \<open>None\<close> if one throws.\<close>

definition wrong_format :: "'d snowboy_class \<Rightarrow> 'd \<Rightarrow> bool option" where
  "wrong_format k d = Option.bind (sd_sample_rate k d) (\<lambda>r. if r \<noteq> 16000 then Some True
     else Option.bind (sd_num_channels k d) (\<lambda>c. if c \<noteq> 1 then Some True
     else Option.bind (sd_bits_per_sample k d) (\<lambda>b. if b \<noteq> 16 then Some True
     else map_option (\<lambda>n. n < 1) (sd_num_hotwords k d))))"

definition configured_detector :: "'d snowboy_class \<Rightarrow> string \<Rightarrow> string \<Rightarrow> string \<Rightarrow> 32 word \<Rightarrow> 'd option" where
  "configured_detector k resource model sensitivity gain =
     Option.bind (sd_construct k resource model) (\<lambda>d.
     Option.bind (sd_set_sensitivity k sensitivity d) (\<lambda>d.
     Option.bind (sd_set_audio_gain k gain d) (sd_apply_frontend k False)))"

text \<open>
  \<open>slot\<close> is what the caller's handle pointer points to, \<open>None\<close> for a null pointer, and the result holds
  what is written there; \<open>room\<close> is whether the handle can be allocated.
\<close>

definition snowboy_create ::
  "'d snowboy_class \<Rightarrow> bool \<Rightarrow> string option \<Rightarrow> string option \<Rightarrow> string option \<Rightarrow> 32 word \<Rightarrow>
   'd bridge_handle option option \<Rightarrow> int \<times> 'd bridge_handle option option" where
  "snowboy_create k room resource model sensitivity gain slot =
     (if null_or_empty resource \<or> null_or_empty model \<or> null_or_empty sensitivity \<or> slot = None then (0, slot)
      else case configured_detector k (the resource) (the model) (the sensitivity) gain of
        None \<Rightarrow> (0, Some None)
      | Some d \<Rightarrow> if wrong_format k d \<noteq> Some False \<or> \<not> room then (0, Some None)
                  else (1, Some (Some \<lparr>bh_detector = Some d\<rparr>)))"

definition snowboy_reset :: "'d snowboy_class \<Rightarrow> 'd bridge_handle option \<Rightarrow> int \<times> 'd bridge_handle option" where
  "snowboy_reset k h = (case h of None \<Rightarrow> (0, h) | Some hd' \<Rightarrow> (case bh_detector hd' of None \<Rightarrow> (0, h)
     | Some d \<Rightarrow> (case sd_reset k d of (ok, d') \<Rightarrow> (if ok = Some True then 1 else 0, Some \<lparr>bh_detector = Some d'\<rparr>))))"

text \<open>\<open>cell\<close> is the integer the result pointer points to, \<open>None\<close> for a null pointer.\<close>

definition snowboy_process ::
  "'d snowboy_class \<Rightarrow> 'd bridge_handle option \<Rightarrow> 16 word list option \<Rightarrow> 32 word \<Rightarrow> int option \<Rightarrow>
   int \<times> 'd bridge_handle option \<times> int option" where
  "snowboy_process k h samples count cell =
     (case h of None \<Rightarrow> (0, h, cell) | Some hd' \<Rightarrow> (case bh_detector hd' of None \<Rightarrow> (0, h, cell)
     | Some d \<Rightarrow>
        if samples = None \<or> count = 0 \<or> 2147483647 < uint count \<or> cell = None then (0, h, cell)
        else case sd_run_detection k (the samples) (uint count) False d of
          (None, d') \<Rightarrow> (0, Some \<lparr>bh_detector = Some d'\<rparr>, Some 0)
        | (Some r, d') \<Rightarrow> (1, Some \<lparr>bh_detector = Some d'\<rparr>, Some r)))"

text \<open>The number of objects deleted; deleting a null detector deletes nothing.\<close>

definition snowboy_destroy :: "'d bridge_handle option \<Rightarrow> nat" where
  "snowboy_destroy h = (case h of None \<Rightarrow> 0 | Some hd' \<Rightarrow> (if bh_detector hd' = None then 1 else 2))"

subsection \<open>What the backend relies on\<close>

lemma snowboy_create_result:
  assumes "snowboy_create k room resource model sensitivity gain (Some old) = (r, out)"
    and "\<not> null_or_empty resource" "\<not> null_or_empty model" "\<not> null_or_empty sensitivity"
  shows "r = 1 \<and> (\<exists>d. out = Some (Some \<lparr>bh_detector = Some d\<rparr>)) \<or> r = 0 \<and> out = Some None"
  using assms by (auto simp: snowboy_create_def split: option.splits if_splits)

lemma snowboy_create_format:
  assumes "snowboy_create k room resource model sensitivity gain slot = (1, Some (Some \<lparr>bh_detector = Some d\<rparr>))"
  shows "sd_sample_rate k d = Some 16000 \<and> sd_num_channels k d = Some 1 \<and> sd_bits_per_sample k d = Some 16 \<and>
    (\<exists>n\<ge>1. sd_num_hotwords k d = Some n)"
proof -
  from assms have "wrong_format k d = Some False"
    by (auto simp: snowboy_create_def split: option.splits if_splits)
  then show ?thesis
    by (auto simp: wrong_format_def bind_eq_Some_conv split: if_splits)
qed

text \<open>A failed call never leaves a detection: the result is the caller's own value or zero.\<close>

lemma snowboy_process_failed:
  assumes "snowboy_process k h samples count cell = (0, h', out)"
  shows "out = cell \<or> out = Some 0"
  using assms by (auto simp: snowboy_process_def split: option.splits if_splits prod.splits)

lemma snowboy_process_count:
  assumes "snowboy_process k h samples count cell = (1, h', out)"
  shows "0 < uint count \<and> uint count \<le> 2147483647 \<and> out \<noteq> None"
proof -
  from assms have "count \<noteq> 0" "uint count \<le> 2147483647" "out \<noteq> None"
    by (auto simp: snowboy_process_def split: option.splits if_splits prod.splits)
  moreover have "0 \<le> uint count" "uint count \<noteq> 0" using \<open>count \<noteq> 0\<close> by (simp_all add: unsigned_eq_0_iff)
  ultimately show ?thesis by linarith
qed

text \<open>Handles stay usable: a reset or a detection keeps a handle with a detector one with a detector.\<close>

definition usable :: "'d bridge_handle option \<Rightarrow> bool" where
  "usable h \<longleftrightarrow> (case h of None \<Rightarrow> False | Some hd' \<Rightarrow> bh_detector hd' \<noteq> None)"

lemma usable_snowboy_reset: "usable h \<Longrightarrow> usable (snd (snowboy_reset k h))"
  by (auto simp: usable_def snowboy_reset_def split: option.splits prod.splits)

lemma usable_snowboy_process: "usable h \<Longrightarrow> usable (fst (snd (snowboy_process k h samples count cell)))"
  by (auto simp: usable_def snowboy_process_def split: option.splits prod.splits)

lemma destroy_usable: "usable h \<Longrightarrow> snowboy_destroy h = 2"
  by (auto simp: usable_def snowboy_destroy_def split: option.splits)

end
