(* ===== verification/AudioEngine.thy ===== *)
theory AudioEngine
  imports Buffers Config
begin

section \<open>The audio engine: TTS ring, capture ring and the playback state machine\<close>

text \<open>
  \<^verbatim>\<open>AudioEngine::Impl\<close> of \<^verbatim>\<open>client/src/audio/audio_engine.cpp\<close>. Each critical section of the code is one
  definition; the capture thread, the playback thread and the application interleave at their borders.
  The board backend is a parameter: what a backend call returned is an argument of the section that
  follows it. Gains are rationals, as the configuration reads them.
\<close>

subsection \<open>State\<close>

definition k_tts_frame :: nat where "k_tts_frame = 480"
definition k_tts_slots :: nat where "k_tts_slots = 75"
definition k_initial_slots :: nat where "k_initial_slots = 9"
definition k_rebuffer_slots :: nat where "k_rebuffer_slots = 2"
definition k_capture_slots :: nat where "k_capture_slots = 4"

lemmas audio_consts = k_tts_frame_def k_tts_slots_def k_initial_slots_def k_rebuffer_slots_def k_capture_slots_def

record capture_frame =
  cf_pcm :: "sample list"
  cf_sequence :: u64
  cf_input_dbfs :: rat
  cf_voice_dbfs :: rat
  cf_wake :: bool
  cf_vad_now :: bool
  cf_vad_started :: bool
  cf_vad_ended :: bool
  cf_discontinuity :: bool
  cf_actor_overrun :: bool
  cf_near_voice :: bool
  cf_reference_active :: bool

definition no_frame :: capture_frame where
  "no_frame = \<lparr>cf_pcm = replicate 320 0, cf_sequence = 0, cf_input_dbfs = - 120, cf_voice_dbfs = - 120,
     cf_wake = False, cf_vad_now = False, cf_vad_started = False, cf_vad_ended = False,
     cf_discontinuity = False, cf_actor_overrun = False, cf_near_voice = False, cf_reference_active = False\<rparr>"

record tts_slot =
  slot_pcm :: "sample list"
  slot_used :: nat

definition empty_slot :: tts_slot where
  "empty_slot = \<lparr>slot_pcm = replicate k_tts_frame 0, slot_used = 0\<rparr>"

datatype capture_command = Cmd_None | Cmd_ResetListener | Cmd_PreparePlayback

record engine =
  e_open :: bool
  e_stop :: bool
  e_capture_failed :: bool
  e_error :: string
  e_capture :: "capture_frame list"
  e_capture_head :: nat
  e_capture_count :: nat
  e_command :: capture_command
  e_command_succeeded :: bool
  e_capture_sequence :: u64
  e_tts :: "tts_slot list"
  e_tts_head :: nat
  e_tts_tail :: nat
  e_tts_count :: nat
  e_queued_samples :: nat
  e_next_tts_sequence :: u64
  e_rebuffer_events :: u64
  e_active :: bool
  e_ending :: bool
  e_playback_started :: bool
  e_rebuffering :: bool
  e_drop :: bool
  e_sequence_set :: bool
  e_playback_gain :: rat
  e_playback_scale :: rat
  e_is_done :: bool
  e_playback_failed :: bool

definition new_engine :: engine where
  "new_engine = \<lparr>e_open = False, e_stop = False, e_capture_failed = False, e_error = [],
     e_capture = replicate k_capture_slots no_frame, e_capture_head = 0, e_capture_count = 0,
     e_command = Cmd_None, e_command_succeeded = False, e_capture_sequence = 0,
     e_tts = replicate k_tts_slots empty_slot, e_tts_head = 0, e_tts_tail = 0, e_tts_count = 0,
     e_queued_samples = 0, e_next_tts_sequence = 0, e_rebuffer_events = 0, e_active = False, e_ending = False,
     e_playback_started = False, e_rebuffering = False, e_drop = False, e_sequence_set = False,
     e_playback_gain = 1, e_playback_scale = 1, e_is_done = True, e_playback_failed = False\<rparr>"

definition clear_queue :: "engine \<Rightarrow> engine" where
  "clear_queue e = e\<lparr>e_tts := replicate k_tts_slots empty_slot, e_tts_head := 0, e_tts_tail := 0,
     e_tts_count := 0, e_queued_samples := 0\<rparr>"

definition clear_capture_queue :: "engine \<Rightarrow> engine" where
  "clear_capture_queue e = e\<lparr>e_capture := replicate k_capture_slots no_frame, e_capture_head := 0,
     e_capture_count := 0\<rparr>"

subsection \<open>Capture side\<close>

definition clear_decisions :: "capture_frame \<Rightarrow> capture_frame" where
  "clear_decisions f = f\<lparr>cf_wake := False, cf_vad_now := False, cf_vad_started := False, cf_vad_ended := False,
     cf_near_voice := False\<rparr>"

text \<open>\<^verbatim>\<open>ClearQueuedListenerDecisions\<close>: the loop over the queued frames.\<close>

definition clear_queued_decisions :: "engine \<Rightarrow> engine" where
  "clear_queued_decisions e = fold (\<lambda>offset e.
     let i = (e_capture_head e + offset) mod k_capture_slots in
     e\<lparr>e_capture := (e_capture e)[i := clear_decisions (e_capture e ! i)]\<rparr>) [0..<e_capture_count e] e"

text \<open>
  \<^verbatim>\<open>RunCaptureCommand\<close> up to the wait: \<open>None\<close> when it returns false at once. After the wait,
  \<open>command_result\<close> on the state then; \<open>timed_out\<close>: the predicate still did not hold after 100 ms.
\<close>

definition post_command :: "capture_command \<Rightarrow> engine \<Rightarrow> engine option" where
  "post_command c e = (if e_stop e \<or> e_capture_failed e \<or> e_command e \<noteq> Cmd_None then None
     else Some (e\<lparr>e_command := c\<rparr>))"

definition command_settled :: "engine \<Rightarrow> bool" where
  "command_settled e \<longleftrightarrow> e_stop e \<or> e_capture_failed e \<or> e_command e = Cmd_None"

definition command_result :: "engine \<Rightarrow> bool \<times> engine" where
  "command_result e =
     (if \<not> command_settled e
      then (False, e\<lparr>e_capture_failed := True, e_error := ''capture control timed out''\<rparr>)
      else (\<not> e_stop e \<and> \<not> e_capture_failed e \<and> e_command e = Cmd_None \<and> e_command_succeeded e, e))"

text \<open>\<^verbatim>\<open>ApplyCaptureCommand\<close> with the backend's answer; a false result fails the capture thread.\<close>

definition apply_capture_command :: "bool \<Rightarrow> engine \<Rightarrow> bool \<times> engine" where
  "apply_capture_command succeeded e =
     (if e_capture_failed e then (False, e)
      else if e_command e = Cmd_None then (True, e)
      else let e1 = (if e_command e = Cmd_ResetListener then clear_queued_decisions e else e) in
        (succeeded, e1\<lparr>e_command_succeeded := succeeded, e_command := Cmd_None\<rparr>))"

text \<open>A frame enters the ring; a gap or a full ring restarts it with the discontinuity marked.\<close>

definition push_capture :: "capture_frame \<Rightarrow> engine \<Rightarrow> engine" where
  "push_capture f e =
     (let f1 = f\<lparr>cf_sequence := e_capture_sequence e\<rparr>;
          e1 = e\<lparr>e_capture_sequence := e_capture_sequence e + 1\<rparr>;
          (f2, e2) = (if cf_discontinuity f1 \<or> e_capture_count e1 = k_capture_slots
             then (f1\<lparr>cf_discontinuity := True, cf_actor_overrun := \<not> cf_discontinuity f1\<rparr>, clear_capture_queue e1)
             else (f1, e1));
          tail = (e_capture_head e2 + e_capture_count e2) mod k_capture_slots
      in e2\<lparr>e_capture := (e_capture e2)[tail := f2], e_capture_count := e_capture_count e2 + 1\<rparr>)"

text \<open>
  One round of \<^verbatim>\<open>CaptureLoop\<close> after the command was applied: \<open>Some f\<close> is the frame read and processed,
  \<open>None\<close> a backend failure. The flag says whether the thread goes on.
\<close>

definition capture_round :: "capture_frame option \<Rightarrow> engine \<Rightarrow> bool \<times> engine" where
  "capture_round result e =
     (if e_stop e then (False, e)
      else case result of
        Some f \<Rightarrow> (True, push_capture f e)
      | None \<Rightarrow> (False, e\<lparr>e_capture_failed := True\<rparr>))"

definition capture_iteration :: "bool \<Rightarrow> capture_frame option \<Rightarrow> engine \<Rightarrow> bool \<times> engine" where
  "capture_iteration command_ok result e = (case apply_capture_command command_ok e of
     (False, e1) \<Rightarrow> (False, e1\<lparr>e_capture_failed := True\<rparr>)
   | (True, e1) \<Rightarrow> capture_round result e1)"

datatype capture_result = Cap_Frame capture_frame | Cap_Timeout | Cap_Failed

text \<open>\<^verbatim>\<open>Capture\<close> when the wait has ended: nothing arrived in time, or the predicate holds.\<close>

definition capture_take :: "int \<Rightarrow> engine \<Rightarrow> capture_result \<times> engine" where
  "capture_take timeout e =
     (if \<not> e_open e \<or> timeout < 0 then (Cap_Failed, e)
      else if \<not> (e_stop e \<or> e_capture_failed e \<or> e_capture_count e \<noteq> 0) then (Cap_Timeout, e)
      else if e_stop e \<or> e_capture_failed e then (Cap_Failed, e)
      else (Cap_Frame (e_capture e ! e_capture_head e),
            e\<lparr>e_capture := (e_capture e)[e_capture_head e := no_frame],
              e_capture_head := (e_capture_head e + 1) mod k_capture_slots,
              e_capture_count := e_capture_count e - 1\<rparr>))"

subsection \<open>TTS queue\<close>

text \<open>Little-endian 16-bit samples.\<close>

fun le_samples :: "bytes \<Rightarrow> sample list" where
  "le_samples (lo # hi # r) = (ucast lo OR push_bit 8 (ucast hi)) # le_samples r"
| "le_samples _ = []"

definition tail_slot :: "engine \<Rightarrow> nat" where
  "tail_slot e = (e_tts_tail e + k_tts_slots - 1) mod k_tts_slots"

text \<open>A new slot when the ring is empty or its last slot is full.\<close>

definition open_slot :: "engine \<Rightarrow> engine" where
  "open_slot e =
     (if e_tts_count e = 0 \<or> slot_used (e_tts e ! tail_slot e) = k_tts_frame
      then e\<lparr>e_tts_tail := (e_tts_tail e + 1) mod k_tts_slots, e_tts_count := e_tts_count e + 1\<rparr>
      else e)"

text \<open>
  The copy loop; \<open>xs\<close> are the samples from \<^verbatim>\<open>source\<close> on. A slot that reports no room would make the C++
  loop run forever, so the recursion is partial; \<open>fill_slots_total\<close> below shows it never does.
\<close>

partial_function (option) fill_slots :: "sample list \<Rightarrow> engine \<Rightarrow> engine option" where
  "fill_slots xs e =
     (if xs = [] then Some e
      else let e1 = open_slot e; i = tail_slot e1; s = e_tts e1 ! i;
               copied = min (length xs) (k_tts_frame - slot_used s);
               s' = s\<lparr>slot_pcm := overwrite (slot_used s) (take copied xs) (slot_pcm s),
                      slot_used := slot_used s + copied\<rparr>
           in fill_slots (drop copied xs) (e1\<lparr>e_tts := (e_tts e1)[i := s']\<rparr>))"

definition k_queue_error :: string where
  "k_queue_error = ''TTS queue is full, closed, or discontinuous''"

definition queue_tts24k :: "bytes \<Rightarrow> u64 \<Rightarrow> engine \<Rightarrow> (bool \<times> engine) option" where
  "queue_tts24k pcm sequence e =
     (if \<not> e_open e \<or> length pcm = 0 \<or> length pcm mod 2 \<noteq> 0 then Some (False, e)
      else let samples = length pcm div 2 in
        if \<not> e_active e \<or> e_ending e \<or> k_tts_slots * k_tts_frame - e_queued_samples e < samples \<or>
           (e_sequence_set e \<and> sequence \<noteq> e_next_tts_sequence e)
        then Some (False, e\<lparr>e_error := k_queue_error\<rparr>)
        else map_option (\<lambda>e1. (True, e1\<lparr>e_queued_samples := e_queued_samples e1 + samples,
               e_sequence_set := True, e_next_tts_sequence := sequence + 1\<rparr>)) (fill_slots (le_samples pcm) e))"

subsection \<open>Playback control\<close>

text \<open>\<^verbatim>\<open>BeginPlayback\<close>; \<open>prepared\<close> is the result of the capture-thread handshake.\<close>

definition begin_playback :: "bool \<Rightarrow> engine \<Rightarrow> bool \<times> engine" where
  "begin_playback prepared e =
     (if \<not> e_open e \<or> e_active e then (False, e)
      else let e1 = clear_queue e in
        if \<not> prepared then (False, e1)
        else (True, e1\<lparr>e_sequence_set := False, e_ending := False, e_drop := False, e_playback_started := False,
               e_rebuffering := False, e_rebuffer_events := 0, e_active := True, e_playback_scale := 1,
               e_playback_failed := False, e_is_done := False\<rparr>))"

definition end_playback :: "engine \<Rightarrow> bool \<times> engine" where
  "end_playback e = (if \<not> e_open e \<or> \<not> e_active e \<or> e_ending e then (False, e) else (True, e\<lparr>e_ending := True\<rparr>))"

definition drop_playback :: "engine \<Rightarrow> engine" where
  "drop_playback e = (if \<not> e_open e \<or> \<not> e_active e then e else clear_queue (e\<lparr>e_drop := True\<rparr>))"

definition set_playback_gain :: "rat \<Rightarrow> engine \<Rightarrow> engine" where
  "set_playback_gain gain e = e\<lparr>e_playback_gain := max 0 gain\<rparr>"

definition set_playback_scale :: "rat \<Rightarrow> engine \<Rightarrow> engine" where
  "set_playback_scale scale e = e\<lparr>e_playback_scale := (if scale < 0 then 0 else if 1 < scale then 1 else scale)\<rparr>"

subsection \<open>The playback thread\<close>

text \<open>The 30 ms grace ran out without PCM.\<close>

definition may_rebuffer :: "engine \<Rightarrow> bool" where
  "may_rebuffer e \<longleftrightarrow> e_active e \<and> e_playback_started e \<and> e_tts_count e = 0 \<and> \<not> e_ending e \<and> \<not> e_drop e \<and>
     \<not> e_rebuffering e"

definition start_rebuffering :: "engine \<Rightarrow> engine" where
  "start_rebuffering e = (if may_rebuffer e \<and> \<not> e_stop e
     then e\<lparr>e_rebuffering := True, e_rebuffer_events := e_rebuffer_events e + 1\<rparr> else e)"

text \<open>The predicate of the second wait.\<close>

definition playback_ready :: "engine \<Rightarrow> bool" where
  "playback_ready e \<longleftrightarrow> (let
     initial_ready = k_initial_slots * k_tts_frame \<le> e_queued_samples e;
     resume_ready = k_rebuffer_slots * k_tts_frame \<le> e_queued_samples e;
     buffer_ready = (if e_playback_started e then \<not> e_rebuffering e \<or> resume_ready \<or> e_ending e
                     else initial_ready \<or> e_ending e)
   in e_stop e \<or> e_drop e \<or>
      (e_active e \<and> ((e_tts_count e \<noteq> 0 \<and> (slot_used (e_tts e ! e_tts_head e) = k_tts_frame \<or> e_ending e) \<and> buffer_ready) \<or>
        (e_ending e \<and> e_tts_count e = 0))))"

text \<open>
  The rest of the critical section after the wait: the slot taken, \<^verbatim>\<open>must_drop\<close> and \<^verbatim>\<open>finish\<close>.
\<close>

definition take_slot :: "engine \<Rightarrow> tts_slot option \<times> bool \<times> bool \<times> engine" where
  "take_slot e =
     (let must_drop = e_drop e;
          (slot, e1) = (if \<not> must_drop \<and> e_tts_count e \<noteq> 0
             then (Some (e_tts e ! e_tts_head e),
                   e\<lparr>e_rebuffering := False, e_playback_started := True,
                     e_queued_samples := e_queued_samples e - slot_used (e_tts e ! e_tts_head e),
                     e_tts := (e_tts e)[e_tts_head e := empty_slot],
                     e_tts_head := (e_tts_head e + 1) mod k_tts_slots,
                     e_tts_count := e_tts_count e - 1\<rparr>)
             else (None, e))
      in (slot, must_drop, must_drop \<or> (e_ending e1 \<and> e_tts_count e1 = 0), e1))"

text \<open>\<^verbatim>\<open>Render\<close>: the samples and the gain handed to the backend.\<close>

definition render_input :: "tts_slot \<Rightarrow> engine \<Rightarrow> sample list \<times> rat" where
  "render_input s e = (take (slot_used s) (slot_pcm s), e_playback_gain e * e_playback_scale e)"

text \<open>\<^verbatim>\<open>FinishPlayback\<close>: the first critical section, and the second one with the answer of the drain.\<close>

definition finish_decide :: "bool \<Rightarrow> bool \<Rightarrow> engine \<Rightarrow> bool \<times> bool" where
  "finish_decide discard failed e = (if e_drop e then (True, False) else (discard, failed))"

definition finish_playback :: "bool \<Rightarrow> bool \<Rightarrow> bool \<Rightarrow> engine \<Rightarrow> engine" where
  "finish_playback discard failed drained e =
     (let failed1 = (if discard \<or> failed then failed else \<not> drained);
          failed2 = (if e_drop e \<and> \<not> discard then False else failed1)
      in (clear_queue (e\<lparr>e_active := False, e_ending := False, e_drop := False, e_playback_started := False,
            e_rebuffering := False, e_rebuffer_events := 0\<rparr>))
         \<lparr>e_playback_scale := 1, e_playback_failed := failed2, e_is_done := True\<rparr>)"

subsection \<open>Open and Close\<close>

definition close_engine :: "engine \<Rightarrow> engine" where
  "close_engine e = (clear_queue (clear_capture_queue (e\<lparr>e_open := False, e_active := False, e_ending := False,
       e_drop := False, e_playback_started := False, e_rebuffering := False, e_rebuffer_events := 0,
       e_stop := False, e_capture_failed := False, e_command := Cmd_None, e_command_succeeded := False,
       e_sequence_set := False, e_capture_sequence := 0\<rparr>)))
     \<lparr>e_playback_failed := False, e_playback_scale := 1, e_is_done := True\<rparr>"

definition open_engine :: "bool \<Rightarrow> bool \<Rightarrow> rat \<Rightarrow> engine \<Rightarrow> bool \<times> engine" where
  "open_engine backend_ok threads_ok gain e =
     (if e_open e then (False, e\<lparr>e_error := ''audio is already open''\<rparr>)
      else if gain < 0 then (False, e\<lparr>e_error := ''invalid playback gain configuration''\<rparr>)
      else if \<not> backend_ok then (False, e)
      else let e1 = (clear_capture_queue (e\<lparr>e_playback_gain := gain, e_stop := False, e_capture_failed := False,
             e_command := Cmd_None, e_command_succeeded := False, e_capture_sequence := 0\<rparr>))\<lparr>e_open := True\<rparr> in
        if threads_ok then (True, e1)
        else (False, close_engine (e1\<lparr>e_error := ''audio realtime thread creation failed''\<rparr>)))"


subsection \<open>The TTS ring as a queue of samples\<close>

definition slot_shape :: "tts_slot \<Rightarrow> bool" where
  "slot_shape s \<longleftrightarrow> length (slot_pcm s) = k_tts_frame \<and> slot_used s \<le> k_tts_frame"

definition slots :: "engine \<Rightarrow> tts_slot list" where
  "slots e = ring_list (e_tts e) (e_tts_head e) (e_tts_count e)"

definition slot_samples :: "tts_slot \<Rightarrow> sample list" where
  "slot_samples s = take (slot_used s) (slot_pcm s)"

definition queued :: "engine \<Rightarrow> sample list" where
  "queued e = concat (map slot_samples (slots e))"

text \<open>Every slot but the last is full, the last is not empty.\<close>

definition packed :: "tts_slot list \<Rightarrow> bool" where
  "packed ss \<longleftrightarrow> list_all (\<lambda>s. slot_used s = k_tts_frame) (butlast ss) \<and> (ss \<noteq> [] \<longrightarrow> 0 < slot_used (last ss))"

definition slots_ok :: "engine \<Rightarrow> bool" where
  "slots_ok e \<longleftrightarrow> length (e_tts e) = k_tts_slots \<and> e_tts_head e < k_tts_slots \<and> e_tts_count e \<le> k_tts_slots \<and>
     e_tts_tail e = (e_tts_head e + e_tts_count e) mod k_tts_slots \<and> list_all slot_shape (e_tts e) \<and>
     packed (slots e) \<and>
     (\<forall>k. e_tts_count e \<le> k \<longrightarrow> k < k_tts_slots \<longrightarrow> slot_used (e_tts e ! ((e_tts_head e + k) mod k_tts_slots)) = 0)"

definition ring_inv :: "engine \<Rightarrow> bool" where
  "ring_inv e \<longleftrightarrow> slots_ok e \<and> e_queued_samples e = length (queued e)"

lemma empty_slot_shape [simp]: "slot_shape empty_slot" "slot_used empty_slot = 0"
  by (simp_all add: slot_shape_def empty_slot_def)

lemma clear_queue_ring: "ring_inv (clear_queue e)" "queued (clear_queue e) = []"
  by (simp_all add: ring_inv_def slots_ok_def clear_queue_def slots_def queued_def packed_def list_all_iff audio_consts)

lemma ring_list_set: "c \<le> length xs \<Longrightarrow> 0 < length xs \<Longrightarrow> set (ring_list xs h c) \<subseteq> set xs"
  by (auto simp: ring_list_def)

lemma slots_shape: "slots_ok e \<Longrightarrow> list_all slot_shape (slots e)"
  using ring_list_set [of "e_tts_count e" "e_tts e" "e_tts_head e"]
  by (auto simp: slots_ok_def slots_def list_all_iff k_tts_slots_def)

lemma length_slot_samples: "slot_shape s \<Longrightarrow> length (slot_samples s) = slot_used s"
  by (simp add: slot_shape_def slot_samples_def)

lemma packed_snoc: "packed (ss @ [s]) \<longleftrightarrow> list_all (\<lambda>s. slot_used s = k_tts_frame) ss \<and> 0 < slot_used s"
  by (simp add: packed_def)

lemma full_length:
  assumes "list_all slot_shape ss" "list_all (\<lambda>s. slot_used s = k_tts_frame) ss"
  shows "length (concat (map slot_samples ss)) = k_tts_frame * length ss"
  using assms by (induction ss) (simp_all add: length_slot_samples)

lemma queued_bound:
  assumes "slots_ok e"
  shows "length (queued e) \<le> k_tts_slots * k_tts_frame"
proof -
  have "list_all slot_shape ss \<Longrightarrow> length (concat (map slot_samples ss)) \<le> length ss * k_tts_frame" for ss
    by (induction ss) (auto simp: length_slot_samples slot_shape_def)
  from this [OF slots_shape [OF assms]] have "length (queued e) \<le> e_tts_count e * k_tts_frame"
    by (simp add: queued_def slots_def)
  also have "\<dots> \<le> k_tts_slots * k_tts_frame" using assms by (intro mult_le_mono1) (simp add: slots_ok_def)
  finally show ?thesis .
qed

text \<open>Writing samples behind those a slot has.\<close>

definition fill_slot :: "tts_slot \<Rightarrow> sample list \<Rightarrow> tts_slot" where
  "fill_slot s ys = s\<lparr>slot_pcm := overwrite (slot_used s) ys (slot_pcm s), slot_used := slot_used s + length ys\<rparr>"

lemma fill_slot_samples:
  assumes "slot_shape s" "slot_used s + length ys \<le> k_tts_frame"
  shows "slot_shape (fill_slot s ys)" "slot_samples (fill_slot s ys) = slot_samples s @ ys"
  using assms take_overwrite [of "slot_used s" ys "slot_pcm s"]
  by (simp_all add: slot_shape_def fill_slot_def slot_samples_def)

text \<open>One round of the copy loop.\<close>

definition fill_round :: "sample list \<Rightarrow> engine \<Rightarrow> nat \<times> engine" where
  "fill_round xs e = (let e1 = open_slot e; i = tail_slot e1; s = e_tts e1 ! i;
     copied = min (length xs) (k_tts_frame - slot_used s)
   in (copied, e1\<lparr>e_tts := (e_tts e1)[i := fill_slot s (take copied xs)]\<rparr>))"

lemma fill_slots_step:
  "xs \<noteq> [] \<Longrightarrow> fill_slots xs e = fill_slots (drop (fst (fill_round xs e)) xs) (snd (fill_round xs e))"
  by (subst fill_slots.simps) (simp add: fill_round_def fill_slot_def Let_def min_def)

lemma packed_last_lt:
  assumes "slots_ok e" "e_tts_count e \<noteq> 0"
  shows "tail_slot e = (e_tts_head e + (e_tts_count e - 1)) mod k_tts_slots"
    and "slots e = ring_list (e_tts e) (e_tts_head e) (e_tts_count e - 1) @ [e_tts e ! tail_slot e]"
proof -
  show t: "tail_slot e = (e_tts_head e + (e_tts_count e - 1)) mod k_tts_slots"
    unfolding tail_slot_def using assms
    by (intro ring_previous) (auto simp: slots_ok_def)
  show "slots e = ring_list (e_tts e) (e_tts_head e) (e_tts_count e - 1) @ [e_tts e ! tail_slot e]"
    using assms ring_list_Suc [of "e_tts e" "e_tts_head e" "e_tts_count e - 1"]
    by (simp add: slots_def t slots_ok_def)
qed

lemma fill_round_ok:
  assumes ok: "slots_ok e" and ne: "xs \<noteq> []" and room: "length (queued e) + length xs \<le> k_tts_slots * k_tts_frame"
    and r: "fill_round xs e = (n, e')"
  shows "0 < n \<and> n \<le> length xs \<and> slots_ok e' \<and> queued e' = queued e @ take n xs \<and>
    e' = e\<lparr>e_tts := e_tts e', e_tts_tail := e_tts_tail e', e_tts_count := e_tts_count e'\<rparr> \<and>
    e_tts_head e' = e_tts_head e"
proof -
  define h c where "h = e_tts_head e" and "c = e_tts_count e"
  have len: "length (e_tts e) = k_tts_slots" and sh: "list_all slot_shape (e_tts e)" and cc: "c \<le> k_tts_slots"
    and pk: "packed (slots e)" and hh: "h < k_tts_slots"
    using ok by (auto simp: slots_ok_def c_def h_def)
  have pos: "0 < k_tts_slots" by (simp add: k_tts_slots_def)
  show ?thesis
  proof (cases "c = 0 \<or> slot_used (e_tts e ! tail_slot e) = k_tts_frame")
    case True
    have full: "list_all (\<lambda>s. slot_used s = k_tts_frame) (slots e)"
    proof (cases "c = 0")
      case False
      then show ?thesis using True pk packed_last_lt(2) [OF ok] by (simp add: c_def packed_snoc)
    qed (simp add: slots_def c_def)
    have "length (queued e) = k_tts_frame * c"
      using full_length [OF slots_shape [OF ok] full] by (simp add: queued_def slots_def c_def)
    moreover have "0 < length xs" using ne by simp
    ultimately have c75: "c < k_tts_slots" using room unfolding audio_consts by linarith
    define e1 where "e1 = e\<lparr>e_tts_tail := (e_tts_tail e + 1) mod k_tts_slots, e_tts_count := c + 1\<rparr>"
    have os: "open_slot e = e1" using True by (simp add: open_slot_def e1_def c_def)
    define i where "i = (h + c) mod k_tts_slots"
    have "e_tts_tail e1 = (h + (c + 1)) mod k_tts_slots"
      using ok by (simp add: e1_def slots_ok_def h_def c_def mod_Suc_eq)
    then have ti: "tail_slot e1 = i"
      using ring_previous [of "c + 1" k_tts_slots "e_tts_tail e1" h] c75 by (simp add: tail_slot_def i_def)
    have il: "i < length (e_tts e)" using pos by (simp add: i_def len)
    have s0: "slot_used (e_tts e ! i) = 0" using ok c75 by (auto simp: slots_ok_def i_def h_def c_def)
    have shi: "slot_shape (e_tts e ! i)" using sh il by (simp add: list_all_length)
    define m where "m = min (length xs) k_tts_frame"
    define s' where "s' = fill_slot (e_tts e ! i) (take m xs)"
    have t1: "e_tts e1 = e_tts e" by (simp add: e1_def)
    have "fill_round xs e = (m, e1\<lparr>e_tts := (e_tts e)[i := s']\<rparr>)"
      unfolding fill_round_def os Let_def ti t1 s0 by (simp add: m_def s'_def)
    then have n: "n = m" and e': "e' = e1\<lparr>e_tts := (e_tts e)[i := s']\<rparr>" using r by simp_all
    have lm: "length (take m xs) = m" by (simp add: m_def)
    have sf: "slot_shape s'" "slot_samples s' = take m xs"
      using fill_slot_samples [OF shi, of "take m xs"] s0 lm by (simp_all add: s'_def m_def slot_samples_def)
    have us: "0 < slot_used s'" using ne s0 lm by (simp add: s'_def fill_slot_def m_def k_tts_frame_def)
    have sl: "slots e' = slots e @ [s']"
      using ring_list_push [of c "e_tts e" h s'] c75
      by (simp add: slots_def e' e1_def len h_def c_def i_def)
    have ne_i: "(h + k) mod k_tts_slots \<noteq> i" if "c + 1 \<le> k" "k < k_tts_slots" for k
      using ring_index_inject [of k k_tts_slots c h] that c75 by (auto simp: i_def)
    have "slots_ok e'"
      unfolding slots_ok_def
    proof (intro conjI allI impI)
      show "list_all slot_shape (e_tts e')"
        using sh sf(1) il by (simp add: e' list_all_length nth_list_update)
      show "packed (slots e')" unfolding sl packed_snoc using full us by simp
      show "e_tts_tail e' = (e_tts_head e' + e_tts_count e') mod k_tts_slots"
        using \<open>e_tts_tail e1 = (h + (c + 1)) mod k_tts_slots\<close> by (simp add: e' e1_def h_def)
      fix k assume "e_tts_count e' \<le> k" "k < k_tts_slots"
      then show "slot_used (e_tts e' ! ((e_tts_head e' + k) mod k_tts_slots)) = 0"
        using ok ne_i [of k] by (auto simp: e' e1_def slots_ok_def h_def c_def)
    qed (use len hh c75 in \<open>simp_all add: e' e1_def h_def\<close>)
    moreover have "queued e' = queued e @ take n xs" by (simp add: queued_def sl sf(2) n)
    moreover have "0 < n" "n \<le> length xs" using ne by (simp_all add: n m_def k_tts_frame_def)
    ultimately show ?thesis by (simp add: e' e1_def)
  next
    case False
    define i where "i = tail_slot e"
    define s where "s = e_tts e ! i"
    have c0: "0 < c" using False by simp
    have os: "open_slot e = e" using False by (simp add: open_slot_def c_def)
    have ip: "i = (h + (c - 1)) mod k_tts_slots"
      using packed_last_lt(1) [OF ok] c0 by (simp add: i_def h_def c_def)
    have il: "i < length (e_tts e)" using pos by (simp add: ip len)
    have sho: "slot_shape s" using sh il by (simp add: list_all_length s_def)
    define m where "m = min (length xs) (k_tts_frame - slot_used s)"
    define s' where "s' = fill_slot s (take m xs)"
    have "fill_round xs e = (m, e\<lparr>e_tts := (e_tts e)[i := s']\<rparr>)"
      unfolding fill_round_def os Let_def i_def [symmetric] s_def [symmetric] by (simp add: m_def s'_def)
    then have n: "n = m" and e': "e' = e\<lparr>e_tts := (e_tts e)[i := s']\<rparr>" using r by simp_all
    have lm: "length (take m xs) = m" by (simp add: m_def)
    have su: "slot_used s < k_tts_frame"
      using False sho by (simp add: slot_shape_def s_def i_def)
    have sf: "slot_shape s'" "slot_samples s' = slot_samples s @ take m xs"
      using fill_slot_samples [OF sho, of "take m xs"] su lm by (simp_all add: s'_def m_def)
    have sl: "slots e = ring_list (e_tts e) h (c - 1) @ [s]"
      using packed_last_lt(2) [OF ok] c0 by (simp add: h_def c_def s_def i_def)
    have sl': "slots e' = ring_list (e_tts e) h (c - 1) @ [s']"
      using ring_list_last [of c "e_tts e" h s'] c0 cc
      by (simp add: slots_def e' len h_def c_def ip)
    have ne_i: "(h + k) mod k_tts_slots \<noteq> i" if "c \<le> k" "k < k_tts_slots" for k
    proof
      assume "(h + k) mod k_tts_slots = i"
      then have "(h + k) mod k_tts_slots = (h + (c - 1)) mod k_tts_slots" by (simp only: ip)
      moreover have "c - 1 < k_tts_slots" using that c0 by linarith
      ultimately have "k = c - 1" using that(2) by (intro ring_index_inject [of k k_tts_slots "c - 1" h])
      then show False using that(1) c0 by linarith
    qed
    have "slots_ok e'"
      unfolding slots_ok_def
    proof (intro conjI allI impI)
      show "list_all slot_shape (e_tts e')"
        using sh sf(1) il by (simp add: e' list_all_length nth_list_update)
      show "packed (slots e')"
        using pk ne su unfolding sl sl' packed_snoc by (simp add: s'_def fill_slot_def m_def)
      fix k assume "e_tts_count e' \<le> k" "k < k_tts_slots"
      then show "slot_used (e_tts e' ! ((e_tts_head e' + k) mod k_tts_slots)) = 0"
        using ok ne_i [of k] by (auto simp: e' slots_ok_def h_def c_def)
    qed (use ok len in \<open>simp_all add: e' slots_ok_def\<close>)
    moreover have "queued e' = queued e @ take n xs" by (simp add: queued_def sl sl' sf(2) n)
    moreover have "0 < n" "n \<le> length xs" using ne su by (simp_all add: n m_def)
    ultimately show ?thesis by (simp add: e')
  qed
qed

text \<open>The whole copy loop: it ends, appends all samples in order and touches the ring only.\<close>

lemma fill_slots_total:
  assumes "slots_ok e" and "length (queued e) + length xs \<le> k_tts_slots * k_tts_frame"
  shows "\<exists>e'. fill_slots xs e = Some e' \<and> slots_ok e' \<and> queued e' = queued e @ xs \<and>
    e' = e\<lparr>e_tts := e_tts e', e_tts_tail := e_tts_tail e', e_tts_count := e_tts_count e'\<rparr>"
  using assms
proof (induction "length xs" arbitrary: xs e rule: less_induct)
  case less
  show ?case
  proof (cases "xs = []")
    case True
    then show ?thesis using less.prems by (simp add: fill_slots.simps)
  next
    case False
    obtain n e1 where r: "fill_round xs e = (n, e1)" by fastforce
    have o: "0 < n" "n \<le> length xs" "slots_ok e1" "queued e1 = queued e @ take n xs"
      "e1 = e\<lparr>e_tts := e_tts e1, e_tts_tail := e_tts_tail e1, e_tts_count := e_tts_count e1\<rparr>"
      using fill_round_ok [OF less.prems(1) False less.prems(2) r] by auto
    obtain e' where e': "fill_slots (drop n xs) e1 = Some e'" "slots_ok e'" "queued e' = queued e1 @ drop n xs"
      "e' = e1\<lparr>e_tts := e_tts e', e_tts_tail := e_tts_tail e', e_tts_count := e_tts_count e'\<rparr>"
      using less.hyps [OF _ o(3), of "drop n xs"] o(1,2,4) less.prems(2) False by auto
    have "e' = e\<lparr>e_tts := e_tts e', e_tts_tail := e_tts_tail e', e_tts_count := e_tts_count e'\<rparr>"
      by (subst e'(4), subst o(5)) simp
    then show ?thesis using fill_slots_step [OF False, of e] r e' o by auto
  qed
qed

lemma length_le_samples: "length (le_samples pcm) = length pcm div 2"
  by (induction pcm rule: le_samples.induct) auto

text \<open>Queueing as a whole: accepted exactly when open, in sequence, even and within 1.5 s; nothing is
  overwritten.\<close>

definition tts_acceptable :: "bytes \<Rightarrow> u64 \<Rightarrow> engine \<Rightarrow> bool" where
  "tts_acceptable pcm sequence e \<longleftrightarrow> e_open e \<and> pcm \<noteq> [] \<and> even (length pcm) \<and> e_active e \<and> \<not> e_ending e \<and>
     length (queued e) + length pcm div 2 \<le> k_tts_slots * k_tts_frame \<and>
     (e_sequence_set e \<longrightarrow> sequence = e_next_tts_sequence e)"

lemma queue_total:
  assumes "ring_inv e"
  shows "\<exists>e'. queue_tts24k pcm sequence e = Some (tts_acceptable pcm sequence e, e') \<and> ring_inv e' \<and>
    queued e' = queued e @ (if tts_acceptable pcm sequence e then le_samples pcm else []) \<and>
    e_active e' = e_active e \<and> e_ending e' = e_ending e \<and> e_drop e' = e_drop e \<and> e_open e' = e_open e \<and>
    e_is_done e' = e_is_done e \<and> e_stop e' = e_stop e \<and> e_playback_started e' = e_playback_started e \<and>
    (\<not> tts_acceptable pcm sequence e \<longrightarrow> e_tts_count e' = e_tts_count e)"
proof (cases "tts_acceptable pcm sequence e")
  case False
  have "queue_tts24k pcm sequence e = Some (False, e) \<or>
      queue_tts24k pcm sequence e = Some (False, e\<lparr>e_error := k_queue_error\<rparr>)"
    using False assms queued_bound [of e]
    by (auto simp: queue_tts24k_def tts_acceptable_def ring_inv_def Let_def even_iff_mod_2_eq_zero)
  moreover have "ring_inv (e\<lparr>e_error := k_queue_error\<rparr>)" "queued (e\<lparr>e_error := k_queue_error\<rparr>) = queued e"
    using assms by (simp_all add: ring_inv_def slots_ok_def queued_def slots_def)
  ultimately show ?thesis using False assms by auto
next
  case True
  have len: "length (le_samples pcm) = length pcm div 2" by (rule length_le_samples)
  obtain e' where e': "fill_slots (le_samples pcm) e = Some e'" "slots_ok e'" "queued e' = queued e @ le_samples pcm"
      "e' = e\<lparr>e_tts := e_tts e', e_tts_tail := e_tts_tail e', e_tts_count := e_tts_count e'\<rparr>"
    using fill_slots_total [of e "le_samples pcm"] assms True len by (auto simp: ring_inv_def tts_acceptable_def)
  define e2 where "e2 = e'\<lparr>e_queued_samples := e_queued_samples e' + length pcm div 2, e_sequence_set := True,
      e_next_tts_sequence := sequence + 1\<rparr>"
  have f: "e_queued_samples e' = e_queued_samples e" "e_active e' = e_active e" "e_ending e' = e_ending e"
    "e_drop e' = e_drop e" "e_open e' = e_open e" "e_is_done e' = e_is_done e" "e_stop e' = e_stop e"
    "e_playback_started e' = e_playback_started e"
    by (subst e'(4), simp)+
  have q2: "queued e2 = queued e'" "slots_ok e2" using e'(2) by (simp_all add: e2_def queued_def slots_def slots_ok_def)
  have "queue_tts24k pcm sequence e = Some (True, e2)"
    using True e'(1) assms by (auto simp: queue_tts24k_def tts_acceptable_def ring_inv_def Let_def e2_def)
  moreover have "ring_inv e2" using q2 e'(3) f(1) assms len by (simp add: ring_inv_def e2_def)
  ultimately show ?thesis using True q2 e'(3) f by (simp add: e2_def)
qed

text \<open>Taking the oldest slot.\<close>

lemma take_slot_some:
  assumes "ring_inv e" "\<not> e_drop e" "e_tts_count e \<noteq> 0"
  shows "\<exists>s e'. take_slot e = (Some s, False, e_ending e \<and> e_tts_count e = 1, e') \<and> ring_inv e' \<and>
    queued e = slot_samples s @ queued e' \<and> slot_samples s \<noteq> [] \<and> e_tts_count e' = e_tts_count e - 1 \<and>
    e_active e' = e_active e \<and> e_ending e' = e_ending e \<and> e_drop e' = e_drop e \<and> e_open e' = e_open e \<and>
    e_is_done e' = e_is_done e \<and> e_stop e' = e_stop e"
proof -
  define h c where "h = e_tts_head e" and "c = e_tts_count e"
  define s where "s = e_tts e ! h"
  define e' where "e' = e\<lparr>e_rebuffering := False, e_playback_started := True,
      e_queued_samples := e_queued_samples e - slot_used s, e_tts := (e_tts e)[h := empty_slot],
      e_tts_head := (h + 1) mod k_tts_slots, e_tts_count := c - 1\<rparr>"
  have ok: "slots_ok e" "length (e_tts e) = k_tts_slots" "h < k_tts_slots" "c \<le> k_tts_slots" "0 < c"
    "list_all slot_shape (e_tts e)" "packed (slots e)"
    using assms by (auto simp: ring_inv_def slots_ok_def h_def c_def)
  have sl: "slots e = s # slots e'"
    using ring_list_pop [of h "e_tts e" c empty_slot] ok by (simp add: slots_def e'_def h_def c_def s_def)
  have shs: "slot_shape s" using ok by (simp add: list_all_length s_def)
  have us: "0 < slot_used s"
    using ok(7) unfolding sl packed_def by (cases "slots e'") (auto simp: k_tts_frame_def)
  have q: "queued e = slot_samples s @ queued e'" by (simp add: queued_def sl)
  have pk: "packed (slots e')" using ok(7) unfolding sl packed_def by (cases "slots e'") auto
  have "slots_ok e'"
    unfolding slots_ok_def
  proof (intro conjI allI impI)
    show "list_all slot_shape (e_tts e')" using ok by (simp add: e'_def list_all_length nth_list_update)
    show "packed (slots e')" by (fact pk)
    have "((h + 1) mod k_tts_slots + (c - 1)) mod k_tts_slots = (h + 1 + (c - 1)) mod k_tts_slots"
      by (rule mod_add_left_eq)
    also have "h + 1 + (c - 1) = h + c" using ok(5) by simp
    finally show "e_tts_tail e' = (e_tts_head e' + e_tts_count e') mod k_tts_slots"
      using ok(1) by (simp add: e'_def slots_ok_def flip: h_def c_def)
    fix k assume k: "e_tts_count e' \<le> k" "k < k_tts_slots"
    have idx: "(e_tts_head e' + k) mod k_tts_slots = (h + Suc k) mod k_tts_slots"
      by (simp add: e'_def mod_add_left_eq)
    show "slot_used (e_tts e' ! ((e_tts_head e' + k) mod k_tts_slots)) = 0"
    proof (cases "Suc k < k_tts_slots")
      case True
      have "e_tts_count e \<le> Suc k" using k(1) by (simp add: e'_def c_def)
      then have "slot_used (e_tts e ! ((h + Suc k) mod k_tts_slots)) = 0"
        using ok(1) True unfolding slots_ok_def h_def by blast
      then show ?thesis using ok(2,3) unfolding idx
        by (cases "(h + Suc k) mod k_tts_slots = h") (simp_all add: e'_def)
    next
      case False
      then have "Suc k = k_tts_slots" using k by simp
      then show ?thesis using ok(2,3) unfolding idx by (simp add: e'_def)
    qed
  qed (use ok in \<open>simp_all add: e'_def k_tts_slots_def\<close>)
  moreover have "e_queued_samples e' = length (queued e')"
  proof -
    have "e_queued_samples e' = e_queued_samples e - slot_used s" by (simp add: e'_def)
    also have "e_queued_samples e = length (queued e)" using assms(1) by (simp add: ring_inv_def)
    also have "\<dots> = slot_used s + length (queued e')" unfolding q by (simp add: length_slot_samples [OF shs])
    finally show ?thesis by simp
  qed
  ultimately have "ring_inv e'" by (simp add: ring_inv_def)
  moreover have "slot_samples s \<noteq> []" using us length_slot_samples [OF shs] by (metis length_0_conv less_irrefl)
  moreover have "take_slot e = (Some s, False, e_ending e \<and> e_tts_count e = 1, e')"
    using assms(2,3) by (auto simp: take_slot_def Let_def e'_def s_def h_def c_def)
  ultimately show ?thesis using q by (simp add: e'_def c_def)
qed

lemma take_slot_none:
  "e_drop e \<or> e_tts_count e = 0 \<Longrightarrow> take_slot e = (None, e_drop e, e_drop e \<or> (e_ending e \<and> e_tts_count e = 0), e)"
  by (auto simp: take_slot_def Let_def)

end
