(* ===== verification/Playback.thy ===== *)
theory Playback
  imports AudioEngine
begin

section \<open>Playback and capture as interleaved threads\<close>

text \<open>
  The application calls and the critical sections of the playback thread of
  \<^verbatim>\<open>client/src/audio/audio_engine.cpp\<close> as one transition function, in any interleaving. \<open>pl_accepted\<close> and
  \<open>pl_rendered\<close> are history: the samples accepted and rendered since the last \<^verbatim>\<open>BeginPlayback\<close>. The
  second half does the same for the capture ring.
\<close>

subsection \<open>Steps\<close>

text \<open>Where the playback thread is: waiting, inside \<^verbatim>\<open>Render\<close>, or inside \<^verbatim>\<open>FinishPlayback\<close>.\<close>

datatype playback_pc = P_Wait | P_Render tts_slot bool bool | P_Finish bool bool

record player =
  pl_engine :: engine
  pl_pc :: playback_pc
  pl_accepted :: "sample list"
  pl_rendered :: "sample list"

datatype player_event =
    A_Queue bytes u64 | A_Begin bool | A_End | A_Drop | A_Scale rat | A_Gain rat
  | T_Grace | T_Take | T_Rendered bool | T_Finished bool

fun player_step :: "player_event \<Rightarrow> player \<Rightarrow> player" where
  "player_step (A_Queue pcm sequence) p = (case queue_tts24k pcm sequence (pl_engine p) of
     None \<Rightarrow> p
   | Some (ok, e) \<Rightarrow> p\<lparr>pl_engine := e, pl_accepted := pl_accepted p @ (if ok then le_samples pcm else [])\<rparr>)"
| "player_step (A_Begin prepared) p = (case begin_playback prepared (pl_engine p) of
     (ok, e) \<Rightarrow> if ok then p\<lparr>pl_engine := e, pl_accepted := [], pl_rendered := []\<rparr> else p\<lparr>pl_engine := e\<rparr>)"
| "player_step A_End p = p\<lparr>pl_engine := snd (end_playback (pl_engine p))\<rparr>"
| "player_step A_Drop p = p\<lparr>pl_engine := drop_playback (pl_engine p)\<rparr>"
| "player_step (A_Scale scale) p = p\<lparr>pl_engine := set_playback_scale scale (pl_engine p)\<rparr>"
| "player_step (A_Gain gain) p = p\<lparr>pl_engine := set_playback_gain gain (pl_engine p)\<rparr>"
| "player_step T_Grace p = (if pl_pc p = P_Wait then p\<lparr>pl_engine := start_rebuffering (pl_engine p)\<rparr> else p)"
| "player_step T_Take p =
     (if pl_pc p \<noteq> P_Wait \<or> e_stop (pl_engine p) \<or> \<not> playback_ready (pl_engine p) then p
      else case take_slot (pl_engine p) of (slot, must_drop, finish, e) \<Rightarrow>
        (case slot of
           Some s \<Rightarrow> p\<lparr>pl_engine := e, pl_pc := P_Render s must_drop finish\<rparr>
         | None \<Rightarrow> if finish
             then (case finish_decide must_drop False e of (d, f) \<Rightarrow> p\<lparr>pl_engine := e, pl_pc := P_Finish d f\<rparr>)
             else p\<lparr>pl_engine := e\<rparr>))"
| "player_step (T_Rendered ok) p = (case pl_pc p of
     P_Render s must_drop finish \<Rightarrow>
       let p1 = (if ok then p\<lparr>pl_rendered := pl_rendered p @ fst (render_input s (pl_engine p))\<rparr> else p) in
       if finish \<or> \<not> ok
       then (case finish_decide must_drop (\<not> ok) (pl_engine p) of (d, f) \<Rightarrow> p1\<lparr>pl_pc := P_Finish d f\<rparr>)
       else p1\<lparr>pl_pc := P_Wait\<rparr>
   | _ \<Rightarrow> p)"
| "player_step (T_Finished drained) p = (case pl_pc p of
     P_Finish d f \<Rightarrow> p\<lparr>pl_engine := finish_playback d f drained (pl_engine p), pl_pc := P_Wait\<rparr>
   | _ \<Rightarrow> p)"

text \<open>The samples that still have to reach the backend: in the thread's hand, then in the ring.\<close>

definition in_flight :: "player \<Rightarrow> sample list" where
  "in_flight p = (case pl_pc p of P_Render s _ _ \<Rightarrow> slot_samples s | _ \<Rightarrow> []) @ queued (pl_engine p)"

definition player_inv :: "player \<Rightarrow> bool" where
  "player_inv p \<longleftrightarrow> (let e = pl_engine p in
     ring_inv e \<and> (e_is_done e \<longleftrightarrow> \<not> e_active e) \<and>
     (\<not> e_active e \<longrightarrow> queued e = [] \<and> e_tts_count e = 0 \<and> pl_pc p = P_Wait \<and> \<not> e_drop e \<and> \<not> e_ending e) \<and>
     (e_active e \<and> \<not> e_drop e \<longrightarrow> (case pl_pc p of
        P_Wait \<Rightarrow> pl_accepted p = pl_rendered p @ in_flight p
      | P_Render s must_drop finish \<Rightarrow> \<not> must_drop \<and> (finish \<longrightarrow> e_ending e \<and> queued e = []) \<and>
          pl_accepted p = pl_rendered p @ in_flight p
      | P_Finish d f \<Rightarrow> \<not> d \<and> (\<not> f \<longrightarrow> pl_accepted p = pl_rendered p) \<and>
          (\<not> f \<longrightarrow> e_ending e \<and> queued e = []))))"

text \<open>The other fields do not matter to the ring.\<close>

lemma ring_frame [simp, frame_simps]:
  "ring_inv (e\<lparr>e_open := x_open\<rparr>) = ring_inv e" "queued (e\<lparr>e_open := x_open\<rparr>) = queued e"
  "ring_inv (e\<lparr>e_stop := x_stop\<rparr>) = ring_inv e" "queued (e\<lparr>e_stop := x_stop\<rparr>) = queued e"
  "ring_inv (e\<lparr>e_active := x_active\<rparr>) = ring_inv e" "queued (e\<lparr>e_active := x_active\<rparr>) = queued e"
  "ring_inv (e\<lparr>e_ending := x_ending\<rparr>) = ring_inv e" "queued (e\<lparr>e_ending := x_ending\<rparr>) = queued e"
  "ring_inv (e\<lparr>e_playback_started := x_playback_started\<rparr>) = ring_inv e" "queued (e\<lparr>e_playback_started := x_playback_started\<rparr>) = queued e"
  "ring_inv (e\<lparr>e_rebuffering := x_rebuffering\<rparr>) = ring_inv e" "queued (e\<lparr>e_rebuffering := x_rebuffering\<rparr>) = queued e"
  "ring_inv (e\<lparr>e_rebuffer_events := x_rebuffer_events\<rparr>) = ring_inv e" "queued (e\<lparr>e_rebuffer_events := x_rebuffer_events\<rparr>) = queued e"
  "ring_inv (e\<lparr>e_drop := x_drop\<rparr>) = ring_inv e" "queued (e\<lparr>e_drop := x_drop\<rparr>) = queued e"
  "ring_inv (e\<lparr>e_sequence_set := x_sequence_set\<rparr>) = ring_inv e" "queued (e\<lparr>e_sequence_set := x_sequence_set\<rparr>) = queued e"
  "ring_inv (e\<lparr>e_playback_gain := x_playback_gain\<rparr>) = ring_inv e" "queued (e\<lparr>e_playback_gain := x_playback_gain\<rparr>) = queued e"
  "ring_inv (e\<lparr>e_playback_scale := x_playback_scale\<rparr>) = ring_inv e" "queued (e\<lparr>e_playback_scale := x_playback_scale\<rparr>) = queued e"
  "ring_inv (e\<lparr>e_is_done := x_is_done\<rparr>) = ring_inv e" "queued (e\<lparr>e_is_done := x_is_done\<rparr>) = queued e"
  "ring_inv (e\<lparr>e_playback_failed := x_playback_failed\<rparr>) = ring_inv e" "queued (e\<lparr>e_playback_failed := x_playback_failed\<rparr>) = queued e"
  "ring_inv (e\<lparr>e_error := x_error\<rparr>) = ring_inv e" "queued (e\<lparr>e_error := x_error\<rparr>) = queued e"
  "ring_inv (e\<lparr>e_next_tts_sequence := x_next_tts_sequence\<rparr>) = ring_inv e" "queued (e\<lparr>e_next_tts_sequence := x_next_tts_sequence\<rparr>) = queued e"
  by (simp_all add: ring_inv_def slots_ok_def slots_def queued_def)

lemma player_same [simp]: "p\<lparr>pl_engine := pl_engine p\<rparr> = p"
  by simp

lemma clear_queue_fields [simp]:
  "e_active (clear_queue e) = e_active e" "e_is_done (clear_queue e) = e_is_done e" "e_drop (clear_queue e) = e_drop e"
  "e_ending (clear_queue e) = e_ending e" "e_open (clear_queue e) = e_open e" "e_stop (clear_queue e) = e_stop e"
  "e_tts_count (clear_queue e) = 0" "e_playback_failed (clear_queue e) = e_playback_failed e"
  by (simp_all add: clear_queue_def)

lemma player_inv_begin: "player_inv p \<Longrightarrow> player_inv (player_step (A_Begin ok) p)"
    by (auto simp: clear_queue_ring player_inv_def begin_playback_def Let_def in_flight_def split: playback_pc.splits)

lemma player_inv_finish: "player_inv p \<Longrightarrow> player_inv (player_step (T_Finished ok) p)"
    by (auto simp: clear_queue_ring player_inv_def finish_playback_def Let_def split: playback_pc.splits)

lemma player_inv_drop: "player_inv p \<Longrightarrow> player_inv (player_step A_Drop p)"
proof (cases "\<not> e_open (pl_engine p) \<or> \<not> e_active (pl_engine p)")
  case True
  then have "player_step A_Drop p = p" by (simp add: drop_playback_def)
  then show "player_inv p \<Longrightarrow> ?thesis" by simp
next
  case False
  then show "player_inv p \<Longrightarrow> ?thesis" by (simp add: clear_queue_ring player_inv_def drop_playback_def Let_def)
qed

lemma player_inv_end: "player_inv p \<Longrightarrow> player_inv (player_step A_End p)"
proof (cases "\<not> e_open (pl_engine p) \<or> \<not> e_active (pl_engine p) \<or> e_ending (pl_engine p)")
  case True
  then show "player_inv p \<Longrightarrow> ?thesis" by (simp add: end_playback_def)
next
  case False
  then show "player_inv p \<Longrightarrow> ?thesis"
    by (simp add: player_inv_def end_playback_def in_flight_def Let_def split: playback_pc.splits)
qed

lemma player_inv_grace: "player_inv p \<Longrightarrow> player_inv (player_step T_Grace p)"
proof (cases "pl_pc p = P_Wait \<and> may_rebuffer (pl_engine p) \<and> \<not> e_stop (pl_engine p)")
  case True
  then show "player_inv p \<Longrightarrow> ?thesis"
    by (simp add: player_inv_def start_rebuffering_def in_flight_def Let_def)
next
  case False
  then have "player_step T_Grace p = p" by (auto simp: start_rebuffering_def)
  then show "player_inv p \<Longrightarrow> ?thesis" by simp
qed

lemma player_inv_gains:
  "player_inv p \<Longrightarrow> player_inv (player_step (A_Scale x) p)"
  "player_inv p \<Longrightarrow> player_inv (player_step (A_Gain x) p)"
  by (simp_all add: player_inv_def set_playback_scale_def set_playback_gain_def in_flight_def Let_def
      split: playback_pc.splits)

lemmas player_inv_controls = player_inv_end player_inv_grace player_inv_gains

lemma player_inv_queue:
  assumes "player_inv p"
  shows "player_inv (player_step (A_Queue pcm n) p)"
proof -
  define e where "e = pl_engine p"
  have inv: "ring_inv e" using assms by (simp add: player_inv_def e_def Let_def)
  obtain e' where q: "queue_tts24k pcm n e = Some (tts_acceptable pcm n e, e')" "ring_inv e'"
    "queued e' = queued e @ (if tts_acceptable pcm n e then le_samples pcm else [])"
    "e_active e' = e_active e" "e_ending e' = e_ending e" "e_drop e' = e_drop e" "e_is_done e' = e_is_done e"
    "\<not> tts_acceptable pcm n e \<longrightarrow> e_tts_count e' = e_tts_count e"
    using queue_total [OF inv, of pcm n] by blast
  have "tts_acceptable pcm n e \<Longrightarrow> e_active e \<and> \<not> e_ending e" by (simp add: tts_acceptable_def)
  then show ?thesis
    using assms q unfolding player_inv_def e_def [symmetric] Let_def
    by (auto simp: in_flight_def simp flip: e_def split: playback_pc.splits)
qed

lemma player_inv_take:
  assumes "player_inv p"
  shows "player_inv (player_step T_Take p)"
proof (cases "pl_pc p \<noteq> P_Wait \<or> e_stop (pl_engine p) \<or> \<not> playback_ready (pl_engine p)")
  case True
  then show ?thesis using assms by simp
next
  case False
  define e where "e = pl_engine p"
  have pc: "pl_pc p = P_Wait" and ready: "playback_ready e" and ns: "\<not> e_stop e" using False by (simp_all add: e_def)
  have inv: "ring_inv e" using assms by (simp add: player_inv_def e_def Let_def)
  show ?thesis
  proof (cases "e_drop e \<or> e_tts_count e = 0")
    case True
    then have fin: "e_drop e \<or> e_ending e" using ready ns by (auto simp: playback_ready_def Let_def)
    have z: "queued e = []" if "\<not> e_drop e" using True that by (simp add: queued_def slots_def)
    show ?thesis using assms take_slot_none [OF True] fin pc z False True
      by (auto simp: player_inv_def finish_decide_def in_flight_def Let_def e_def)
  next
    case nd: False
    then have act: "e_active e" using ready ns by (auto simp: playback_ready_def Let_def)
    obtain s e' where t: "take_slot e = (Some s, False, e_ending e \<and> e_tts_count e = 1, e')" "ring_inv e'"
      "queued e = slot_samples s @ queued e'" "e_tts_count e' = e_tts_count e - 1" "e_active e' = e_active e"
      "e_ending e' = e_ending e" "e_drop e' = e_drop e" "e_is_done e' = e_is_done e"
      using take_slot_some [OF inv] nd by blast
    have z: "queued e' = []" if "e_tts_count e = 1" using t(4) that by (simp add: queued_def slots_def)
    show ?thesis using assms t nd pc False act z
      by (auto simp: player_inv_def in_flight_def Let_def e_def)
  qed
qed

lemma player_inv_rendered:
  assumes "player_inv p"
  shows "player_inv (player_step (T_Rendered ok) p)"
proof (cases "pl_pc p")
  case (P_Render s must_drop finish)
  then show ?thesis using assms
    by (auto simp: player_inv_def Let_def in_flight_def finish_decide_def render_input_def slot_samples_def)
qed (use assms in auto)

lemma player_inv_step: "player_inv p \<Longrightarrow> player_inv (player_step ev p)"
  by (cases ev) (auto simp only: player_inv_begin player_inv_finish player_inv_drop player_inv_controls
      player_inv_queue player_inv_take player_inv_rendered)

interpretation playback_runs: invariant_system player_step player_inv
  by unfold_locales (rule player_inv_step)

definition start_player :: "engine \<Rightarrow> player" where
  "start_player e = \<lparr>pl_engine = e, pl_pc = P_Wait, pl_accepted = [], pl_rendered = []\<rparr>"

definition player_run :: "player_event list \<Rightarrow> engine \<Rightarrow> player" where
  "player_run es e = fold player_step es (start_player e)"

lemma new_engine_ring: "ring_inv new_engine" "queued new_engine = []"
proof -
  have "new_engine = clear_queue new_engine" by (simp add: new_engine_def clear_queue_def)
  then show "ring_inv new_engine" "queued new_engine = []" using clear_queue_ring by metis+
qed

lemma start_player_inv:
  assumes "open_engine True True gain new_engine = (True, e)"
  shows "player_inv (start_player e)"
proof -
  have e: "e_tts e = e_tts new_engine" "e_tts_head e = e_tts_head new_engine" "e_tts_tail e = e_tts_tail new_engine"
    "e_tts_count e = e_tts_count new_engine" "e_queued_samples e = e_queued_samples new_engine"
    "e_active e = False" "e_is_done e = True" "e_drop e = False" "e_ending e = False" "e_tts_count e = 0"
    using assms by (auto simp: open_engine_def new_engine_def clear_capture_queue_def Let_def split: if_splits)
  then have "ring_inv e \<and> queued e = []"
    using new_engine_ring by (simp add: ring_inv_def slots_ok_def slots_def queued_def)
  then show ?thesis using e by (simp add: player_inv_def start_player_def Let_def)
qed

lemma player_run_inv:
  "open_engine True True gain new_engine = (True, e) \<Longrightarrow> player_inv (player_run es e)"
  unfolding player_run_def by (rule playback_runs.inv_fold [OF start_player_inv])

subsection \<open>No sample lost, repeated or reordered\<close>

text \<open>C16: in every interleaving of application calls and playback thread, as long as no drop is pending,
  the accepted samples are those already handed to the backend, then the slot in the thread's hand, then
  the ring, in this order; and when the thread finishes without drop or failure, exactly the accepted
  samples have been rendered. The ring never holds more than its 36000 samples.\<close>

theorem playback_conserves_samples:
  assumes "open_engine True True gain new_engine = (True, e)" and "p = player_run es e"
    and "e_active (pl_engine p)" and "\<not> e_drop (pl_engine p)"
  shows "(case pl_pc p of
      P_Finish d f \<Rightarrow> \<not> d \<and> (\<not> f \<longrightarrow> pl_accepted p = pl_rendered p)
    | _ \<Rightarrow> pl_accepted p = pl_rendered p @ in_flight p) \<and>
    length (queued (pl_engine p)) \<le> 36000 \<and> e_queued_samples (pl_engine p) = length (queued (pl_engine p))"
proof -
  have inv: "player_inv p" using player_run_inv [OF assms(1)] assms(2) by simp
  then have "ring_inv (pl_engine p)" by (simp add: player_inv_def Let_def)
  then show ?thesis using inv assms(3,4) queued_bound [of "pl_engine p"]
    by (auto simp: player_inv_def Let_def ring_inv_def audio_consts split: playback_pc.splits)
qed

definition sample_engine :: engine where
  "sample_engine = snd (open_engine True True 1 new_engine)"

lemma sample_engine_open: "open_engine True True 1 new_engine = (True, sample_engine)"
  by (simp add: sample_engine_def open_engine_def new_engine_def Let_def)

theorem playback_conserves_samples_witness:
  "pl_accepted (player_run [A_Begin True, A_Queue [1, 2, 3, 4] 7, A_End, T_Take] sample_engine) =
   pl_rendered (player_run [A_Begin True, A_Queue [1, 2, 3, 4] 7, A_End, T_Take] sample_engine) @
   in_flight (player_run [A_Begin True, A_Queue [1, 2, 3, 4] 7, A_End, T_Take] sample_engine)"
proof -
  define p where "p = player_run [A_Begin True, A_Queue [1, 2, 3, 4] 7, A_End, T_Take] sample_engine"
  have run: "e_active (pl_engine p) \<and> \<not> e_drop (pl_engine p) \<and> (\<exists>s a b. pl_pc p = P_Render s a b)"
    by (simp add: p_def player_run_def start_player_def sample_engine_def open_engine_def new_engine_def Let_def
        begin_playback_def clear_queue_def clear_capture_queue_def queue_tts24k_def fill_slots.simps open_slot_def
        tail_slot_def audio_consts end_playback_def playback_ready_def take_slot_def empty_slot_def) auto
  then show ?thesis
    using playback_conserves_samples [OF sample_engine_open p_def] unfolding p_def [symmetric] by auto
qed

subsection \<open>Playback comes to its end\<close>

definition drain_steps :: "nat \<Rightarrow> player_event list" where
  "drain_steps n = concat (replicate n [T_Take, T_Rendered True]) @ [T_Finished True]"

lemma drain_lemma:
  assumes "player_inv p" "pl_pc p = P_Wait" "e_active (pl_engine p)" "e_ending (pl_engine p)"
    "\<not> e_drop (pl_engine p)" "\<not> e_stop (pl_engine p)" "e_tts_count (pl_engine p) = Suc n"
  shows "let p' = fold player_step (concat (replicate (Suc n) [T_Take, T_Rendered True])) p in
    pl_pc p' = P_Finish False False \<and> player_inv p' \<and> pl_accepted p' = pl_accepted p \<and>
    e_active (pl_engine p') \<and> \<not> e_drop (pl_engine p')"
  using assms
proof (induction n arbitrary: p)
  case (0 p)
  have inv: "ring_inv (pl_engine p)" using 0 by (simp add: player_inv_def Let_def)
  obtain s e' where t: "take_slot (pl_engine p) = (Some s, False, True, e')" "e_active e'" "\<not> e_drop e'"
    using take_slot_some [OF inv] 0 by fastforce
  have r: "playback_ready (pl_engine p)" using 0 by (simp add: playback_ready_def Let_def)
  define p1 where "p1 = player_step (T_Rendered True) (player_step T_Take p)"
  have "player_inv p1" unfolding p1_def by (intro player_inv_step 0(1))
  moreover have "pl_pc p1 = P_Finish False False" "pl_accepted p1 = pl_accepted p"
    "e_active (pl_engine p1)" "\<not> e_drop (pl_engine p1)"
    using 0 r t by (simp_all add: p1_def Let_def finish_decide_def)
  ultimately show ?case by (simp add: p1_def Let_def del: player_step.simps)
next
  case (Suc n p)
  have inv: "ring_inv (pl_engine p)" using Suc.prems by (simp add: player_inv_def Let_def)
  obtain s e' where t: "take_slot (pl_engine p) = (Some s, False, False, e')" "e_active e'" "\<not> e_drop e'" "e_ending e'"
    "\<not> e_stop e'" "e_tts_count e' = Suc n"
    using take_slot_some [OF inv] Suc.prems by fastforce
  have r: "playback_ready (pl_engine p)" using Suc.prems by (simp add: playback_ready_def Let_def)
  define p1 where "p1 = player_step (T_Rendered True) (player_step T_Take p)"
  have i1: "player_inv p1" unfolding p1_def by (intro player_inv_step Suc.prems(1))
  moreover have p1: "pl_pc p1 = P_Wait" "pl_accepted p1 = pl_accepted p" "pl_engine p1 = e'"
    using Suc.prems r t by (simp_all add: p1_def Let_def)
  ultimately have "let p' = fold player_step (concat (replicate (Suc n) [T_Take, T_Rendered True])) p1 in
    pl_pc p' = P_Finish False False \<and> player_inv p' \<and> pl_accepted p' = pl_accepted p1 \<and>
    e_active (pl_engine p') \<and> \<not> e_drop (pl_engine p')"
    using t by (intro Suc.IH) simp_all
  then show ?case using p1(2) by (simp add: p1_def Let_def del: player_step.simps)
qed

text \<open>C17: once \<^verbatim>\<open>EndPlayback\<close> was accepted nothing can block the playback thread: from its waiting state
  it takes at most one round per slot left (at most 75) and, with a backend that renders and drains,
  ends done and not failed, having rendered every accepted sample.\<close>

theorem ended_playback_completes:
  assumes "open_engine True True gain new_engine = (True, e)" and "p = player_run es e"
    and "pl_pc p = P_Wait" and "e_active (pl_engine p)" and "e_ending (pl_engine p)"
    and "\<not> e_drop (pl_engine p)" and "\<not> e_stop (pl_engine p)"
  shows "let p' = fold player_step (drain_steps (max 1 (e_tts_count (pl_engine p)))) p in
    e_is_done (pl_engine p') \<and> \<not> e_playback_failed (pl_engine p') \<and> pl_rendered p' = pl_accepted p \<and>
    e_tts_count (pl_engine p) \<le> 75"
proof -
  have inv: "player_inv p" using player_run_inv [OF assms(1)] assms(2) by simp
  define n where "n = max 1 (e_tts_count (pl_engine p))"
  define q where "q = fold player_step (concat (replicate n [T_Take, T_Rendered True])) p"
  have q: "pl_pc q = P_Finish False False \<and> player_inv q \<and> pl_accepted q = pl_accepted p \<and>
      e_active (pl_engine q) \<and> \<not> e_drop (pl_engine q)"
  proof (cases "e_tts_count (pl_engine p)")
    case 0
    then have "take_slot (pl_engine p) = (None, False, True, pl_engine p)" "playback_ready (pl_engine p)"
      using take_slot_none [of "pl_engine p"] assms by (simp_all add: playback_ready_def Let_def)
    then have "q = player_step T_Take p" "pl_pc q = P_Finish False False \<and> pl_accepted q = pl_accepted p \<and>
        e_active (pl_engine q) \<and> \<not> e_drop (pl_engine q)"
      using assms 0 by (simp_all add: q_def n_def finish_decide_def)
    then show ?thesis using player_inv_step [OF inv] by metis
  next
    case (Suc m)
    then show ?thesis using drain_lemma [OF inv assms(3-7), of m] by (simp add: q_def n_def Let_def)
  qed
  then have pcq: "pl_pc q = P_Finish False False" and act: "e_active (pl_engine q)" "\<not> e_drop (pl_engine q)"
    and iq: "player_inv q" by blast+
  have "pl_accepted q = pl_rendered q"
    using iq act unfolding player_inv_def Let_def pcq by (simp only: playback_pc.case simp_thms)
  moreover have "fold player_step (drain_steps n) p = player_step (T_Finished True) q"
    by (simp add: drain_steps_def q_def)
  moreover have "e_tts_count (pl_engine p) \<le> 75"
    using inv by (simp add: player_inv_def ring_inv_def slots_ok_def Let_def k_tts_slots_def)
  ultimately show ?thesis using pcq act conjunct1 [OF conjunct2 [OF conjunct2 [OF q]]]
    unfolding n_def [symmetric] Let_def by (simp add: finish_playback_def Let_def)
qed

theorem ended_playback_completes_witness:
  "let p = player_run [A_Begin True, A_Queue [1, 2, 3, 4] 7, A_End] sample_engine;
       p' = fold player_step (drain_steps (max 1 (e_tts_count (pl_engine p)))) p in
   e_is_done (pl_engine p') \<and> pl_rendered p' = [0x0201, 0x0403]"
proof -
  define p where "p = player_run [A_Begin True, A_Queue [1, 2, 3, 4] 7, A_End] sample_engine"
  have run: "e_active (pl_engine p) \<and> \<not> e_drop (pl_engine p) \<and> pl_pc p = P_Wait \<and> e_ending (pl_engine p) \<and>
      \<not> e_stop (pl_engine p) \<and> pl_accepted p = [0x0201, 0x0403]"
    by (simp add: p_def player_run_def start_player_def sample_engine_def open_engine_def new_engine_def Let_def
        begin_playback_def clear_queue_def clear_capture_queue_def queue_tts24k_def fill_slots.simps open_slot_def
        tail_slot_def audio_consts end_playback_def empty_slot_def)
  then show ?thesis
    using ended_playback_completes [OF sample_engine_open p_def] unfolding p_def [symmetric] Let_def by auto
qed

text \<open>Playback starts only with 180 ms queued or after the end of the stream, resumes after a declared
  underrun only with 40 ms or the end, and after \<^verbatim>\<open>DropPlayback\<close> the thread takes no further slot: its next
  round goes straight to finishing, as a drop and not as a failure.\<close>

theorem prebuffer_and_drop:
  assumes "open_engine True True gain new_engine = (True, e)" and "p = player_run es e"
    and "pl_pc p = P_Wait" and "\<not> e_stop (pl_engine p)" and "playback_ready (pl_engine p)"
  shows "(\<not> e_drop (pl_engine p) \<and> \<not> e_ending (pl_engine p) \<and> \<not> e_playback_started (pl_engine p) \<longrightarrow>
      9 * 480 \<le> length (queued (pl_engine p))) \<and>
    (\<not> e_drop (pl_engine p) \<and> \<not> e_ending (pl_engine p) \<and> e_rebuffering (pl_engine p) \<and>
      e_playback_started (pl_engine p) \<longrightarrow> 2 * 480 \<le> length (queued (pl_engine p))) \<and>
    (e_drop (pl_engine p) \<longrightarrow> pl_pc (player_step T_Take p) = P_Finish True False \<and>
      pl_rendered (player_step T_Take p) = pl_rendered p)"
proof -
  have inv: "player_inv p" using player_run_inv [OF assms(1)] assms(2) by simp
  then have "e_queued_samples (pl_engine p) = length (queued (pl_engine p))"
    by (simp add: player_inv_def ring_inv_def Let_def)
  then show ?thesis using assms(3-5) take_slot_none [of "pl_engine p"]
    by (auto simp: playback_ready_def Let_def audio_consts finish_decide_def)
qed

theorem prebuffer_and_drop_witness:
  "pl_pc (player_step T_Take (player_run [A_Begin True, A_Queue [1, 2] 0, A_Drop] sample_engine)) = P_Finish True False"
proof -
  define p where "p = player_run [A_Begin True, A_Queue [1, 2] 0, A_Drop] sample_engine"
  have "e_drop (pl_engine p) \<and> pl_pc p = P_Wait \<and> \<not> e_stop (pl_engine p) \<and> playback_ready (pl_engine p)"
    by (simp add: p_def player_run_def start_player_def sample_engine_def open_engine_def new_engine_def Let_def
        begin_playback_def clear_queue_def clear_capture_queue_def queue_tts24k_def fill_slots.simps open_slot_def
        tail_slot_def audio_consts drop_playback_def empty_slot_def playback_ready_def)
  then show ?thesis using prebuffer_and_drop [OF sample_engine_open p_def] unfolding p_def [symmetric] by blast
qed

subsection \<open>The capture ring\<close>

text \<open>
  The capture thread and the application on the ring of four frames. \<open>cp_delivered\<close> is history: the
  frames \<^verbatim>\<open>Capture\<close> has returned.
\<close>

record capturer =
  cp_engine :: engine
  cp_delivered :: "capture_frame list"

datatype capturer_event =
  C_Post capture_command | C_Settle | C_Iterate bool "capture_frame option" | C_Take int

fun capturer_step :: "capturer_event \<Rightarrow> capturer \<Rightarrow> capturer" where
  "capturer_step (C_Post c) p = (case post_command c (cp_engine p) of
     None \<Rightarrow> p | Some e \<Rightarrow> p\<lparr>cp_engine := e\<rparr>)"
| "capturer_step C_Settle p = p\<lparr>cp_engine := snd (command_result (cp_engine p))\<rparr>"
| "capturer_step (C_Iterate ok r) p =
     (if e_stop (cp_engine p) \<or> e_capture_failed (cp_engine p) then p
      else p\<lparr>cp_engine := snd (capture_iteration ok r (cp_engine p))\<rparr>)"
| "capturer_step (C_Take timeout) p = (case capture_take timeout (cp_engine p) of (r, e) \<Rightarrow>
     p\<lparr>cp_engine := e, cp_delivered := cp_delivered p @ (case r of Cap_Frame f \<Rightarrow> [f] | _ \<Rightarrow> [])\<rparr>)"

definition captured :: "engine \<Rightarrow> capture_frame list" where
  "captured e = ring_list (e_capture e) (e_capture_head e) (e_capture_count e)"

text \<open>A frame continues the one before it unless it says that the stream was cut.\<close>

definition continues :: "capture_frame \<Rightarrow> capture_frame \<Rightarrow> bool" where
  "continues f g \<longleftrightarrow> cf_discontinuity g \<or> cf_sequence g = cf_sequence f + 1"

definition capture_shape :: "engine \<Rightarrow> bool" where
  "capture_shape e \<longleftrightarrow> length (e_capture e) = k_capture_slots \<and> e_capture_head e < k_capture_slots \<and>
     e_capture_count e \<le> k_capture_slots"

definition capturer_inv :: "capturer \<Rightarrow> bool" where
  "capturer_inv p \<longleftrightarrow> capture_shape (cp_engine p) \<and>
     successively continues (cp_delivered p @ captured (cp_engine p)) \<and>
     (cp_delivered p @ captured (cp_engine p) = [] \<or>
      e_capture_sequence (cp_engine p) = cf_sequence (last (cp_delivered p @ captured (cp_engine p))) + 1)"

lemma clear_decisions_fold:
  assumes "length (e_capture e) = k_capture_slots" "n \<le> k_capture_slots"
  shows "\<exists>xs. fold (\<lambda>offset e. let i = (e_capture_head e + offset) mod k_capture_slots in
      e\<lparr>e_capture := (e_capture e)[i := clear_decisions (e_capture e ! i)]\<rparr>) [0..<n] e = e\<lparr>e_capture := xs\<rparr> \<and>
    length xs = k_capture_slots \<and>
    (\<forall>k < k_capture_slots. xs ! ((e_capture_head e + k) mod k_capture_slots) =
      (if k < n then clear_decisions else id) (e_capture e ! ((e_capture_head e + k) mod k_capture_slots)))"
  using assms(2)
proof (induction n)
  case 0
  show ?case using assms(1) by (intro exI [of _ "e_capture e"]) simp
next
  case (Suc n)
  obtain xs where xs: "fold (\<lambda>offset e. let i = (e_capture_head e + offset) mod k_capture_slots in
      e\<lparr>e_capture := (e_capture e)[i := clear_decisions (e_capture e ! i)]\<rparr>) [0..<n] e = e\<lparr>e_capture := xs\<rparr>"
    "length xs = k_capture_slots"
    "\<And>k. k < k_capture_slots \<Longrightarrow> xs ! ((e_capture_head e + k) mod k_capture_slots) =
      (if k < n then clear_decisions else id) (e_capture e ! ((e_capture_head e + k) mod k_capture_slots))"
    using Suc by auto
  define i where "i = (e_capture_head e + n) mod k_capture_slots"
  have i: "i < k_capture_slots" by (simp add: i_def k_capture_slots_def)
  have "xs[i := clear_decisions (xs ! i)] ! ((e_capture_head e + k) mod k_capture_slots) =
      (if k < Suc n then clear_decisions else id) (e_capture e ! ((e_capture_head e + k) mod k_capture_slots))"
    if k: "k < k_capture_slots" for k
  proof (cases "k = n")
    case True
    then show ?thesis using i xs(2) xs(3) [OF k] by (simp add: i_def)
  next
    case False
    then have "i \<noteq> (e_capture_head e + k) mod k_capture_slots"
      using ring_index_inject [of n k_capture_slots k "e_capture_head e"] k Suc.prems by (auto simp: i_def)
    then show ?thesis using False xs(3) [OF k] by auto
  qed
  then show ?case using xs(1,2)
    by (intro exI [of _ "xs[i := clear_decisions (xs ! i)]"]) (simp add: i_def Let_def)
qed

lemma clear_queued_decisions_ring:
  assumes "capture_shape e"
  obtains xs where "clear_queued_decisions e = e\<lparr>e_capture := xs\<rparr>" "capture_shape (e\<lparr>e_capture := xs\<rparr>)"
    "captured (e\<lparr>e_capture := xs\<rparr>) = map clear_decisions (captured e)"
proof -
  from clear_decisions_fold [of e "e_capture_count e"] assms obtain xs where xs:
    "clear_queued_decisions e = e\<lparr>e_capture := xs\<rparr>" "length xs = k_capture_slots"
    "\<forall>k < k_capture_slots. xs ! ((e_capture_head e + k) mod k_capture_slots) =
      (if k < e_capture_count e then clear_decisions else id) (e_capture e ! ((e_capture_head e + k) mod k_capture_slots))"
    unfolding clear_queued_decisions_def capture_shape_def by blast
  then show ?thesis
    using assms that [of xs] by (auto simp: capture_shape_def captured_def ring_list_def)
qed

lemma clear_decisions_fields [simp]:
  "cf_sequence (clear_decisions f) = cf_sequence f" "cf_discontinuity (clear_decisions f) = cf_discontinuity f"
  "cf_pcm (clear_decisions f) = cf_pcm f" "cf_actor_overrun (clear_decisions f) = cf_actor_overrun f"
  by (simp_all add: clear_decisions_def)

lemma clear_capture_ring: "capture_shape (clear_capture_queue e)" "captured (clear_capture_queue e) = []"
  "e_capture_sequence (clear_capture_queue e) = e_capture_sequence e"
  "e_capture_head (clear_capture_queue e) = 0" "e_capture_count (clear_capture_queue e) = 0"
  "length (e_capture (clear_capture_queue e)) = k_capture_slots"
  by (simp_all add: capture_shape_def captured_def clear_capture_queue_def audio_consts)

lemma captured_frame [simp]:
  "captured (e\<lparr>e_command := c\<rparr>) = captured e" "captured (e\<lparr>e_command_succeeded := b\<rparr>) = captured e"
  "captured (e\<lparr>e_capture_failed := b\<rparr>) = captured e" "captured (e\<lparr>e_error := x\<rparr>) = captured e"
  "captured (e\<lparr>e_capture_sequence := n\<rparr>) = captured e"
  "capture_shape (e\<lparr>e_command := c\<rparr>) = capture_shape e" "capture_shape (e\<lparr>e_command_succeeded := b\<rparr>) = capture_shape e"
  "capture_shape (e\<lparr>e_capture_failed := b\<rparr>) = capture_shape e" "capture_shape (e\<lparr>e_error := x\<rparr>) = capture_shape e"
  "capture_shape (e\<lparr>e_capture_sequence := n\<rparr>) = capture_shape e"
  by (simp_all add: captured_def capture_shape_def)

text \<open>What a push does to the ring: it appends, or restarts it with a marked frame.\<close>

lemma push_capture_ring:
  fixes f :: capture_frame
  assumes "capture_shape e"
  defines "f1 \<equiv> f\<lparr>cf_sequence := e_capture_sequence e\<rparr>"
  defines "gap \<equiv> cf_discontinuity f \<or> e_capture_count e = k_capture_slots"
  shows "capture_shape (push_capture f e)" and "e_capture_sequence (push_capture f e) = e_capture_sequence e + 1"
    and "captured (push_capture f e) = (if gap
      then [f1\<lparr>cf_discontinuity := True, cf_actor_overrun := \<not> cf_discontinuity f\<rparr>]
      else captured e @ [f1])"
proof -
  define e1 where "e1 = e\<lparr>e_capture_sequence := e_capture_sequence e + 1\<rparr>"
  define e2 where "e2 = (if gap then clear_capture_queue e1 else e1)"
  define f2 where "f2 = (if gap then f1\<lparr>cf_discontinuity := True, cf_actor_overrun := \<not> cf_discontinuity f\<rparr> else f1)"
  have shape: "length (e_capture e2) = k_capture_slots" "e_capture_head e2 < k_capture_slots"
    "e_capture_count e2 < k_capture_slots" "e_capture_sequence e2 = e_capture_sequence e + 1"
    "captured e2 = (if gap then [] else captured e)"
    using assms(1) by (auto simp: e2_def e1_def gap_def clear_capture_ring capture_shape_def k_capture_slots_def)
  have p: "push_capture f e = e2\<lparr>e_capture := (e_capture e2)[(e_capture_head e2 + e_capture_count e2) mod k_capture_slots := f2],
      e_capture_count := e_capture_count e2 + 1\<rparr>"
    by (simp add: push_capture_def Let_def e2_def f2_def e1_def f1_def gap_def)
  show "capture_shape (push_capture f e)" "e_capture_sequence (push_capture f e) = e_capture_sequence e + 1"
    using shape by (simp_all add: p capture_shape_def)
  have "captured (push_capture f e) = captured e2 @ [f2]"
    using ring_list_push [of "e_capture_count e2" "e_capture e2" "e_capture_head e2" f2] shape
    by (simp add: p captured_def)
  then show "captured (push_capture f e) = (if gap
      then [f1\<lparr>cf_discontinuity := True, cf_actor_overrun := \<not> cf_discontinuity f\<rparr>] else captured e @ [f1])"
    by (simp add: shape f2_def)
qed

lemma successively_map_decisions:
  "successively continues (xs @ map clear_decisions ys) = successively continues (xs @ ys)"
proof -
  have *: "successively continues (map clear_decisions ys) = successively continues ys" for ys
    by (induction ys rule: induct_list012) (simp_all add: continues_def)
  have "continues f (clear_decisions g) = continues f g" for f g by (simp add: continues_def)
  then show ?thesis by (cases "ys = []") (simp_all add: successively_append_iff * hd_map)
qed

lemma capturer_inv_push:
  assumes "capturer_inv p"
  shows "capturer_inv (p\<lparr>cp_engine := push_capture f (cp_engine p)\<rparr>)"
proof -
  define e where "e = cp_engine p"
  have s: "capture_shape e" using assms by (simp add: capturer_inv_def e_def)
  note r = push_capture_ring [OF s, of f]
  have pre: "successively continues (cp_delivered p)"
    using assms by (auto simp: capturer_inv_def successively_append_iff)
  show ?thesis
  proof (cases "cf_discontinuity f \<or> e_capture_count e = k_capture_slots")
    case True
    then show ?thesis using r pre
      by (auto simp: capturer_inv_def successively_append_iff continues_def simp flip: e_def)
  next
    case False
    have "capturer_inv p" by (rule assms)
    then have "successively continues ((cp_delivered p @ captured e) @ [f\<lparr>cf_sequence := e_capture_sequence e\<rparr>])"
      unfolding capturer_inv_def e_def [symmetric]
      by (subst successively_append_iff) (auto simp: continues_def)
    then show ?thesis using r False by (simp add: capturer_inv_def flip: e_def)
  qed
qed

lemma capturer_inv_decisions:
  assumes "capturer_inv p"
  shows "capturer_inv (p\<lparr>cp_engine := clear_queued_decisions (cp_engine p)\<rparr>)"
proof -
  have s: "capture_shape (cp_engine p)" using assms by (simp add: capturer_inv_def)
  obtain xs where xs: "clear_queued_decisions (cp_engine p) = cp_engine p\<lparr>e_capture := xs\<rparr>"
    "capture_shape (cp_engine p\<lparr>e_capture := xs\<rparr>)"
    "captured (cp_engine p\<lparr>e_capture := xs\<rparr>) = map clear_decisions (captured (cp_engine p))"
    by (rule clear_queued_decisions_ring [OF s])
  then show ?thesis using assms
    by (auto simp: capturer_inv_def successively_map_decisions last_append last_map)
qed

lemma capturer_inv_flags:
  assumes "capturer_inv p"
  shows "capturer_inv (p\<lparr>cp_engine := (cp_engine p)\<lparr>e_command := c\<rparr>\<rparr>)"
    "capturer_inv (p\<lparr>cp_engine := (cp_engine p)\<lparr>e_command_succeeded := b\<rparr>\<rparr>)"
    "capturer_inv (p\<lparr>cp_engine := (cp_engine p)\<lparr>e_capture_failed := b\<rparr>\<rparr>)"
    "capturer_inv (p\<lparr>cp_engine := (cp_engine p)\<lparr>e_error := x\<rparr>\<rparr>)"
  using assms by (simp_all add: capturer_inv_def)

lemma capturer_same: "p\<lparr>cp_engine := cp_engine p\<rparr> = p" "p\<lparr>cp_engine := x, cp_engine := y\<rparr> = p\<lparr>cp_engine := y\<rparr>"
  by simp_all

lemma capturer_inv_apply:
  assumes "capturer_inv p"
  shows "capturer_inv (p\<lparr>cp_engine := snd (apply_capture_command ok (cp_engine p))\<rparr>)"
proof -
  define p1 where "p1 = (if e_command (cp_engine p) = Cmd_ResetListener
    then p\<lparr>cp_engine := clear_queued_decisions (cp_engine p)\<rparr> else p)"
  have p1: "capturer_inv p1" using capturer_inv_decisions [OF assms] assms by (simp add: p1_def)
  have "p\<lparr>cp_engine := snd (apply_capture_command ok (cp_engine p))\<rparr> = p \<or>
    p\<lparr>cp_engine := snd (apply_capture_command ok (cp_engine p))\<rparr> =
      p1\<lparr>cp_engine := (cp_engine p1)\<lparr>e_command_succeeded := ok\<rparr>\<rparr>
        \<lparr>cp_engine := (cp_engine p1)\<lparr>e_command_succeeded := ok\<rparr>\<lparr>e_command := Cmd_None\<rparr>\<rparr>"
    by (simp add: apply_capture_command_def p1_def Let_def)
  then show ?thesis
    using assms capturer_inv_flags(1) [OF capturer_inv_flags(2) [OF p1, of ok], of Cmd_None] by auto
qed

lemma capturer_inv_iterate:
  assumes "capturer_inv p"
  shows "capturer_inv (p\<lparr>cp_engine := snd (capture_iteration ok r (cp_engine p))\<rparr>)"
proof -
  obtain go e1 where a: "apply_capture_command ok (cp_engine p) = (go, e1)" by fastforce
  define p1 where "p1 = p\<lparr>cp_engine := e1\<rparr>"
  have p1: "capturer_inv p1" using capturer_inv_apply [OF assms, of ok] a by (simp add: p1_def)
  show ?thesis
    using a p1 capturer_inv_flags(3) [OF p1, of True] capturer_inv_push [OF p1]
    by (auto simp: capture_iteration_def capture_round_def p1_def split: bool.splits option.splits)
qed

lemma capturer_inv_take:
  assumes "capturer_inv p"
  shows "capturer_inv (capturer_step (C_Take timeout) p)"
proof (cases "fst (capture_take timeout (cp_engine p))")
  case (Cap_Frame f)
  define e where "e = cp_engine p"
  have s: "capture_shape e" using assms by (simp add: capturer_inv_def e_def)
  obtain e' where t: "capture_take timeout e = (Cap_Frame f, e')" "f = e_capture e ! e_capture_head e"
    "e_capture_count e \<noteq> 0"
    "e' = e\<lparr>e_capture := (e_capture e)[e_capture_head e := no_frame],
              e_capture_head := (e_capture_head e + 1) mod k_capture_slots,
              e_capture_count := e_capture_count e - 1\<rparr>"
    using Cap_Frame unfolding e_def [symmetric] by (auto simp: capture_take_def split: if_splits)
  have "captured e = f # captured e'"
    using ring_list_pop [of "e_capture_head e" "e_capture e" "e_capture_count e" no_frame] s t(2-)
    by (simp add: captured_def capture_shape_def)
  moreover have "capture_shape e'" "e_capture_sequence e' = e_capture_sequence e"
    using s t(4) by (auto simp: capture_shape_def k_capture_slots_def)
  ultimately show ?thesis using assms t(1) by (simp add: capturer_inv_def flip: e_def)
next
  case Cap_Timeout
  then show ?thesis using assms
    by (auto simp: capture_take_def capturer_inv_def split: if_splits)
next
  case Cap_Failed
  then show ?thesis using assms
    by (auto simp: capture_take_def capturer_inv_def split: if_splits)
qed

lemma capturer_inv_step: "capturer_inv p \<Longrightarrow> capturer_inv (capturer_step ev p)"
proof (cases ev)
  case (C_Post c)
  then show "capturer_inv p \<Longrightarrow> ?thesis" using capturer_inv_flags(1) [of p c]
    by (auto simp: post_command_def)
next
  case C_Settle
  then show "capturer_inv p \<Longrightarrow> ?thesis"
    using capturer_inv_flags(4) [OF capturer_inv_flags(3) [of p True], of "''capture control timed out''"]
    by (auto simp: command_result_def capturer_inv_def)
next
  case (C_Iterate ok r)
  then show "capturer_inv p \<Longrightarrow> ?thesis" using capturer_inv_iterate [of p ok r] by auto
next
  case (C_Take timeout)
  then show "capturer_inv p \<Longrightarrow> ?thesis" by (simp only: capturer_inv_take)
qed

interpretation capture_runs: invariant_system capturer_step capturer_inv
  by unfold_locales (rule capturer_inv_step)

definition capturer_run :: "capturer_event list \<Rightarrow> engine \<Rightarrow> capturer" where
  "capturer_run es e = fold capturer_step es \<lparr>cp_engine = e, cp_delivered = []\<rparr>"

lemma capturer_run_inv:
  assumes "open_engine True True gain new_engine = (True, e)"
  shows "capturer_inv (capturer_run es e)"
proof -
  have "capture_shape e" "captured e = []"
    using assms by (auto simp: open_engine_def new_engine_def clear_capture_queue_def capture_shape_def captured_def
        audio_consts Let_def split: if_splits)
  then show ?thesis unfolding capturer_run_def by (intro capture_runs.inv_fold) (simp add: capturer_inv_def)
qed

text \<open>C18: whatever the interleaving of the capture thread, the application's \<^verbatim>\<open>Capture\<close> calls and its
  commands, each frame the application gets has the sequence number after that of the frame before it,
  unless it carries the discontinuity mark, and the ring never holds more than four frames.\<close>

theorem capture_gaps_are_marked:
  assumes "open_engine True True gain new_engine = (True, e)"
  shows "successively (\<lambda>f g. cf_discontinuity g \<or> cf_sequence g = cf_sequence f + 1)
      (cp_delivered (capturer_run es e)) \<and>
    length (captured (cp_engine (capturer_run es e))) \<le> 4"
proof -
  have "capturer_inv (capturer_run es e)" by (rule capturer_run_inv [OF assms])
  then have "successively continues (cp_delivered (capturer_run es e))"
    "capture_shape (cp_engine (capturer_run es e))"
    by (auto simp: capturer_inv_def successively_append_iff)
  then show ?thesis by (auto simp: continues_def [abs_def] capture_shape_def captured_def k_capture_slots_def)
qed

theorem capture_gaps_are_marked_witness:
  "let p = capturer_run [C_Iterate True (Some no_frame), C_Iterate True (Some (no_frame\<lparr>cf_discontinuity := True\<rparr>)),
       C_Take 0] sample_engine in
   successively (\<lambda>f g. cf_discontinuity g \<or> cf_sequence g = cf_sequence f + 1) (cp_delivered p) \<and>
   map cf_sequence (cp_delivered p) = [1] \<and> map cf_discontinuity (cp_delivered p) = [True]"
proof -
  let ?es = "[C_Iterate True (Some no_frame), C_Iterate True (Some (no_frame\<lparr>cf_discontinuity := True\<rparr>)), C_Take 0]"
  have "map cf_sequence (cp_delivered (capturer_run ?es sample_engine)) = [1] \<and>
    map cf_discontinuity (cp_delivered (capturer_run ?es sample_engine)) = [True]"
    by (simp add: capturer_run_def sample_engine_def open_engine_def new_engine_def Let_def
        clear_capture_queue_def capture_iteration_def apply_capture_command_def capture_round_def push_capture_def
        capture_take_def audio_consts no_frame_def)
  then show ?thesis
    using conjunct1 [OF capture_gaps_are_marked [OF sample_engine_open, of ?es]] by (simp only: Let_def)
qed

text \<open>Once the capture thread has applied a listener reset, no queued frame carries a wake or
  voice-activity decision made before it, while PCM, numbering and gap marks of the queue are untouched.\<close>

theorem reset_clears_decisions:
  assumes "open_engine True True gain new_engine = (True, e)"
    and "e1 = cp_engine (capturer_run es e)" and "e_command e1 = Cmd_ResetListener" and "\<not> e_capture_failed e1"
    and "apply_capture_command ok e1 = (go, e2)"
  shows "list_all (\<lambda>f. \<not> cf_wake f \<and> \<not> cf_vad_now f \<and> \<not> cf_vad_started f \<and> \<not> cf_vad_ended f \<and> \<not> cf_near_voice f) (captured e2) \<and>
    map (\<lambda>f. (cf_pcm f, cf_sequence f, cf_discontinuity f)) (captured e2) =
      map (\<lambda>f. (cf_pcm f, cf_sequence f, cf_discontinuity f)) (captured e1) \<and>
    go = ok \<and> e_command e2 = Cmd_None"
proof -
  have "capture_shape e1" using capturer_run_inv [OF assms(1), of es] assms(2) by (simp add: capturer_inv_def)
  then obtain xs where xs: "clear_queued_decisions e1 = e1\<lparr>e_capture := xs\<rparr>"
    "captured (e1\<lparr>e_capture := xs\<rparr>) = map clear_decisions (captured e1)"
    by (rule clear_queued_decisions_ring)
  have e2: "e2 = e1\<lparr>e_capture := xs\<rparr>\<lparr>e_command_succeeded := ok, e_command := Cmd_None\<rparr>" "go = ok"
    using assms(3-) xs(1) by (auto simp: apply_capture_command_def Let_def)
  have "captured e2 = map clear_decisions (captured e1)" unfolding e2 using xs(2) by (simp add: captured_def)
  then show ?thesis using e2 by (auto simp: list_all_iff clear_decisions_def)
qed

theorem reset_clears_decisions_witness:
  "let e1 = cp_engine (capturer_run [C_Iterate True (Some (no_frame\<lparr>cf_wake := True\<rparr>)), C_Post Cmd_ResetListener] sample_engine) in
   map cf_wake (captured e1) = [True] \<and>
   list_all (\<lambda>f. \<not> cf_wake f) (captured (snd (apply_capture_command True e1)))"
proof -
  define e1 where "e1 = cp_engine (capturer_run [C_Iterate True (Some (no_frame\<lparr>cf_wake := True\<rparr>)), C_Post Cmd_ResetListener] sample_engine)"
  obtain go e2 where e2: "apply_capture_command True e1 = (go, e2)" by fastforce
  have "e_command e1 = Cmd_ResetListener \<and> \<not> e_capture_failed e1 \<and> map cf_wake (captured e1) = [True]"
    by (simp add: e1_def capturer_run_def sample_engine_def open_engine_def new_engine_def Let_def post_command_def
        clear_capture_queue_def capture_iteration_def apply_capture_command_def capture_round_def push_capture_def
        captured_def ring_list_def audio_consts)
  moreover from this have "list_all (\<lambda>f. \<not> cf_wake f) (captured e2)"
    using reset_clears_decisions [OF sample_engine_open e1_def _ _ e2] by (auto simp: list_all_iff)
  ultimately show ?thesis using e2 by (simp add: e1_def [symmetric])
qed

end
