(* ===== verification/VoiceClient.thy ===== *)
theory VoiceClient
  imports Playback Session
begin

section \<open>The voice client: event queue, actor state and conversation steps\<close>

text \<open>
  \<^verbatim>\<open>VoiceClient\<close> and \<^verbatim>\<open>EventQueue\<close> of \<^verbatim>\<open>client/src/application/voice_client.cpp\<close>. The class is one actor;
  its methods are functions on one record that holds its fields, the audio engine and the transport it
  owns (the models of \<open>AudioEngine\<close> and \<open>Transport\<close>). Console output is left out.

  \<^item> \<open>c_ui\<close> is the sequence of calls made on the display, \<open>c_wire\<close> everything that left the current
    transport, \<open>c_settings\<close> what the last \<^verbatim>\<open>SaveUiSettings\<close> wrote.
  \<^item> \<open>c_playback_pc\<close> is where the playback thread is, \<open>c_accepted\<close> and \<open>c_rendered\<close> the samples the
    engine accepted and the backend rendered since the last \<^verbatim>\<open>BeginPlayback\<close>, \<open>c_taken\<close> the capture
    frames the actor has dealt with. The last three are history: no operation reads them.
  \<^item> \<open>c_now\<close>, \<open>c_sends\<close> and \<open>c_handshakes\<close> are what the environment answers during one phase of the
    loop: the clock in ms (read once per phase), websocketpp's answer to each send, the capture
    thread's answer to each handshake. A missing answer is a failure.
\<close>

subsection \<open>Constants\<close>

definition k_pre_roll_frames :: nat where "k_pre_roll_frames = 25"
definition k_barge_buffer_frames :: nat where "k_barge_buffer_frames = 67"
definition k_barge_candidate_frames :: nat where "k_barge_candidate_frames = 6"
definition k_barge_reference_low_frames :: nat where "k_barge_reference_low_frames = 3"
definition k_barge_reference_wait_frames :: nat where "k_barge_reference_wait_frames = 15"
definition k_barge_echo_clear_frames :: nat where "k_barge_echo_clear_frames = 3"
definition k_barge_confirm_frames :: nat where "k_barge_confirm_frames = 3"
definition k_barge_tail_freeze_frames :: nat where "k_barge_tail_freeze_frames = 10"
definition k_barge_retry_cooldown_frames :: nat where "k_barge_retry_cooldown_frames = 15"
definition k_maximum_turn_frames :: u32 where "k_maximum_turn_frames = 3000"
definition k_follow_up_near_frames :: nat where "k_follow_up_near_frames = 20"
definition k_events_per_capture_frame :: nat where "k_events_per_capture_frame = 8"
definition k_connect_wait :: nat where "k_connect_wait = 6000"
definition k_hello_ack_wait :: nat where "k_hello_ack_wait = 5000"
definition k_heartbeat_wait :: nat where "k_heartbeat_wait = 30000"
definition k_speech_start_wait :: nat where "k_speech_start_wait = 6000"
definition k_maximum_turn_wait :: nat where "k_maximum_turn_wait = 60000"
definition k_first_response_hint :: nat where "k_first_response_hint = 15000"
definition k_response_wait :: nat where "k_response_wait = 30000"
definition k_cancel_ack_wait :: nat where "k_cancel_ack_wait = 3000"
definition k_drain_playback_wait :: nat where "k_drain_playback_wait = 30000"
definition k_follow_up_wait :: nat where "k_follow_up_wait = 3000"
definition k_actor_poll_interval :: int where "k_actor_poll_interval = 100"

lemmas frame_consts = k_pre_roll_frames_def k_barge_buffer_frames_def k_barge_candidate_frames_def
  k_barge_reference_low_frames_def k_barge_reference_wait_frames_def k_barge_echo_clear_frames_def
  k_barge_confirm_frames_def k_barge_tail_freeze_frames_def k_barge_retry_cooldown_frames_def
  k_maximum_turn_frames_def k_follow_up_near_frames_def k_events_per_capture_frame_def

lemmas wait_consts = k_connect_wait_def k_hello_ack_wait_def k_heartbeat_wait_def k_speech_start_wait_def
  k_maximum_turn_wait_def k_first_response_hint_def k_response_wait_def k_cancel_ack_wait_def
  k_drain_playback_wait_def k_follow_up_wait_def

subsection \<open>The event queue\<close>

record event_queue =
  q_slots :: "inbound list"
  q_head :: nat
  q_tail :: nat
  q_count :: nat
  q_overflow :: bool

definition event_capacity :: nat where "event_capacity = 64"

definition empty_queue :: event_queue where
  "empty_queue = \<lparr>q_slots = replicate event_capacity no_inbound, q_head = 0, q_tail = 0, q_count = 0, q_overflow = False\<rparr>"

definition event_push :: "inbound \<Rightarrow> event_queue \<Rightarrow> bool \<times> event_queue" where
  "event_push e q =
     (if q_count q = length (q_slots q) then (False, q\<lparr>q_overflow := True\<rparr>)
      else (True, q\<lparr>q_slots := (q_slots q)[q_tail q := e], q_tail := (q_tail q + 1) mod length (q_slots q),
                    q_count := q_count q + 1\<rparr>))"

text \<open>The moved-from slot keeps its old value here: no slot is read before it is written again.\<close>

definition event_pop :: "event_queue \<Rightarrow> (inbound \<times> event_queue) option" where
  "event_pop q =
     (if q_count q = 0 then None
      else Some (q_slots q ! q_head q,
                 q\<lparr>q_head := (q_head q + 1) mod length (q_slots q), q_count := q_count q - 1\<rparr>))"

definition event_clear :: "event_queue \<Rightarrow> event_queue" where
  "event_clear q = q\<lparr>q_slots := replicate (length (q_slots q)) no_inbound, q_head := 0, q_tail := 0, q_count := 0,
     q_overflow := False\<rparr>"

subsection \<open>Actor state\<close>

datatype client_state =
    St_WaitingForWake | St_WaitingForSpeech | St_CapturingSpeech | St_WaitingForResponse
  | St_PlayingResponse | St_CancelPending | St_DrainingPlayback | St_WaitingForFollowUp

datatype barge_probe = Probe_Idle | Probe_WaitReferenceLow | Probe_Clear | Probe_Verify

datatype device_ui_state =
  Ui_Idle | Ui_Listening | Ui_Thinking | Ui_Speaking | Ui_Happy | Ui_Offline | Ui_Error | Ui_SpeakingTail

datatype device_ui_action =
  Act_Wake | Act_Interrupt | Act_VolumeUp | Act_VolumeDown | Act_BrightnessUp | Act_BrightnessDown

datatype ui_call = Call_State device_ui_state | Call_Text string string | Call_Volume u8 | Call_Brightness u8

text \<open>How the capture thread answers a handshake: within 100 ms with a result, or not.\<close>

datatype handshake = Hs_Done bool | Hs_Timeout

record endpoint =
  ep_host :: string
  ep_port :: u16
  ep_spki :: string

record client =
  c_config :: voice_client_config
  c_endpoint :: endpoint
  c_error :: string
  c_audio :: engine
  c_ui :: "ui_call list"
  c_settings :: "(u8 \<times> bool) option"
  c_transport :: "transport option"
  c_wire :: "effect list"
  c_events :: event_queue
  c_endpoint_ready :: bool
  c_network_needed :: bool
  c_pre :: "capture_frame list"
  c_pre_head :: nat
  c_pre_count :: nat
  c_turn_ids :: wire_ids
  c_response_ids :: wire_ids
  c_state :: client_state
  c_state_deadline :: nat
  c_next_connect :: nat
  c_heartbeat_deadline :: nat
  c_await_hint_at :: nat
  c_audio_origin_us :: u64
  c_next_capture_sequence :: u64
  c_message :: u32
  c_uplink_sequence :: u32
  c_subtitle :: string
  c_reconnect_attempt :: nat
  c_follow_up_near_frames :: nat
  c_barge_probe_frames :: nat
  c_barge_cooldown_frames :: nat
  c_barge_quiet_frames :: nat
  c_barge_silence_frames :: nat
  c_volume :: u8
  c_brightness :: bool
  c_await_hint_pending :: bool
  c_await_hint_visible :: bool
  c_barge_probe :: barge_probe
  c_hello_sent :: bool
  c_barge_ended :: bool
  c_barge_turn_admitted :: bool
  c_barge_buffer_overflow :: bool
  c_manual_wake_pending :: bool
  c_finish_after_cancel_ack :: bool
  c_listener_failed :: bool
  c_playback_pc :: playback_pc
  c_accepted :: "sample list"
  c_rendered :: "sample list"
  c_taken :: "capture_frame list"
  c_now :: nat
  c_sends :: "send_env list"
  c_handshakes :: "handshake list"

definition new_client :: "voice_client_config \<Rightarrow> client" where
  "new_client cfg = \<lparr>c_config = cfg,
     c_endpoint = \<lparr>ep_host = server_ip cfg, ep_port = server_port cfg, ep_spki = server_spki_sha256 cfg\<rparr>,
     c_error = [], c_audio = new_engine, c_ui = [], c_settings = None, c_transport = None, c_wire = [],
     c_events = empty_queue, c_endpoint_ready = False, c_network_needed = True,
     c_pre = replicate k_barge_buffer_frames no_frame, c_pre_head = 0, c_pre_count = 0,
     c_turn_ids = no_ids, c_response_ids = no_ids, c_state = St_WaitingForWake, c_state_deadline = 0,
     c_next_connect = 0, c_heartbeat_deadline = 0, c_await_hint_at = 0, c_audio_origin_us = 0,
     c_next_capture_sequence = 0, c_message = 1, c_uplink_sequence = 0, c_subtitle = [],
     c_reconnect_attempt = 0, c_follow_up_near_frames = 0, c_barge_probe_frames = 0, c_barge_cooldown_frames = 0,
     c_barge_quiet_frames = 0, c_barge_silence_frames = 0, c_volume = 60, c_brightness = True,
     c_await_hint_pending = False, c_await_hint_visible = False, c_barge_probe = Probe_Idle, c_hello_sent = False,
     c_barge_ended = False, c_barge_turn_admitted = False, c_barge_buffer_overflow = False,
     c_manual_wake_pending = False, c_finish_after_cancel_ack = False, c_listener_failed = False,
     c_playback_pc = P_Wait, c_accepted = [], c_rendered = [], c_taken = [],
     c_now = 0, c_sends = [], c_handshakes = []\<rparr>"

subsection \<open>Calls on the parts the client owns\<close>

definition ui_call :: "ui_call \<Rightarrow> client \<Rightarrow> client" where
  "ui_call u c = c\<lparr>c_ui := c_ui c @ [u]\<rparr>"

definition on_audio :: "(engine \<Rightarrow> engine) \<Rightarrow> client \<Rightarrow> client" where
  "on_audio f c = c\<lparr>c_audio := f (c_audio c)\<rparr>"

text \<open>\<^verbatim>\<open>RunCaptureCommand\<close> as the caller sees it: post, the capture thread's frame boundary, result.\<close>

definition run_capture_command :: "capture_command \<Rightarrow> handshake \<Rightarrow> engine \<Rightarrow> bool \<times> engine" where
  "run_capture_command cmd h e = (case post_command cmd e of
     None \<Rightarrow> (False, e)
   | Some e1 \<Rightarrow> (case h of
       Hs_Timeout \<Rightarrow> command_result e1
     | Hs_Done ok \<Rightarrow> (case apply_capture_command ok e1 of (go, e2) \<Rightarrow>
         command_result (if go then e2 else e2\<lparr>e_capture_failed := True\<rparr>))))"

definition take_handshake :: "client \<Rightarrow> handshake \<times> client" where
  "take_handshake c = (case c_handshakes c of
     [] \<Rightarrow> (Hs_Timeout, c) | h # hs \<Rightarrow> (h, c\<lparr>c_handshakes := hs\<rparr>))"

definition audio_command :: "capture_command \<Rightarrow> client \<Rightarrow> bool \<times> client" where
  "audio_command cmd c = (case take_handshake c of (h, c1) \<Rightarrow>
     (case run_capture_command cmd h (c_audio c1) of (ok, e) \<Rightarrow> (ok, c1\<lparr>c_audio := e\<rparr>)))"

text \<open>\<^verbatim>\<open>ResetListener\<close>\<close>

definition reset_listener :: "client \<Rightarrow> client" where
  "reset_listener c =
     (if \<not> e_open (c_audio c) \<or> e_stop (c_audio c) then c\<lparr>c_listener_failed := True\<rparr>
      else case audio_command Cmd_ResetListener c of
        (True, c1) \<Rightarrow> c1 | (False, c1) \<Rightarrow> c1\<lparr>c_listener_failed := True\<rparr>)"

text \<open>\<^verbatim>\<open>audio_.BeginPlayback()\<close>\<close>

definition audio_begin :: "client \<Rightarrow> bool \<times> client" where
  "audio_begin c =
     (if \<not> e_open (c_audio c) \<or> e_active (c_audio c) then (False, c)
      else case audio_command Cmd_PreparePlayback c of (prepared, c1) \<Rightarrow>
        (case begin_playback prepared (c_audio c1) of
           (False, e) \<Rightarrow> (False, c1\<lparr>c_audio := e\<rparr>)
         | (True, e) \<Rightarrow> (True, c1\<lparr>c_audio := e, c_accepted := [], c_rendered := []\<rparr>)))"

definition next_send :: "client \<Rightarrow> send_env \<times> client" where
  "next_send c = (case c_sends c of
     [] \<Rightarrow> (\<lparr>buffered = None, send_error = True\<rparr>, c)
   | s # ss \<Rightarrow> (s, c\<lparr>c_sends := ss\<rparr>))"

text \<open>\<^verbatim>\<open>SendControl\<close>\<close>

definition make_control :: "control_kind \<Rightarrow> wire_ids \<Rightarrow> client \<Rightarrow> control" where
  "make_control kind ids c = \<lparr>ctl_kind = kind, ctl_message_id = ''client-'' @ decimal (unat (c_message c)), ctl_ids = ids,
     ctl_device_token = (if kind = Ctl_Hello then cfg_device_token (c_config c) else [])\<rparr>"

definition client_send :: "control_kind \<Rightarrow> wire_ids \<Rightarrow> client \<Rightarrow> bool \<times> client" where
  "client_send kind ids c = (let ctl = make_control kind ids c; c0 = c\<lparr>c_message := c_message c + 1\<rparr> in
     case c_transport c0 of
       None \<Rightarrow> (False, c0)
     | Some t \<Rightarrow> (case next_send c0 of (env, c1) \<Rightarrow> (case send_control env ctl t of
         (ok, t', os) \<Rightarrow> (ok, c1\<lparr>c_transport := Some t', c_wire := c_wire c1 @ os\<rparr>))))"

subsection \<open>Subtitle and display\<close>

definition show_text :: "string \<Rightarrow> client \<Rightarrow> client" where
  "show_text delta c = (let s = append_subtitle (c_subtitle c) delta in
     case subtitle_lines s of (first, second) \<Rightarrow> ui_call (Call_Text first second) (c\<lparr>c_subtitle := s\<rparr>))"

definition clear_subtitle :: "client \<Rightarrow> client" where
  "clear_subtitle c = ui_call (Call_Text [] []) (c\<lparr>c_subtitle := []\<rparr>)"

definition mark_first_response_progress :: "client \<Rightarrow> client" where
  "mark_first_response_progress c = (let c1 = c\<lparr>c_await_hint_pending := False\<rparr> in
     if \<not> c_await_hint_visible c1 then c1
     else clear_subtitle (c1\<lparr>c_await_hint_visible := False\<rparr>))"

text \<open>\<^verbatim>\<open>SaveUiSettings\<close>: what it writes; the file itself is in \<open>Settings\<close>.\<close>

definition save_ui_settings :: "client \<Rightarrow> client" where
  "save_ui_settings c = c\<lparr>c_settings := Some (c_volume c, c_brightness c)\<rparr>"

definition playback_gain :: "voice_client_config \<Rightarrow> u8 \<Rightarrow> rat" where
  "playback_gain cfg volume = of_nat (unat volume) * of_nat (unat (speaker_gain_percent cfg)) / 10000"

definition apply_volume :: "u8 \<Rightarrow> bool \<Rightarrow> client \<Rightarrow> client" where
  "apply_volume percent persist c =
     (let c1 = c\<lparr>c_volume := min percent 100\<rparr>;
          c2 = on_audio (set_playback_gain (playback_gain (c_config c) (c_volume c1))) c1;
          c3 = ui_call (Call_Volume (c_volume c2)) c2
      in if persist then save_ui_settings c3 else c3)"

subsection \<open>Barge-in bookkeeping\<close>

definition reset_barge_probe :: "client \<Rightarrow> client" where
  "reset_barge_probe c = on_audio (set_playback_scale 1)
     (c\<lparr>c_barge_probe_frames := 0, c_barge_cooldown_frames := 0, c_barge_probe := Probe_Idle\<rparr>)"

definition reset_barge_turn :: "client \<Rightarrow> client" where
  "reset_barge_turn c = c\<lparr>c_barge_ended := False, c_barge_turn_admitted := False, c_barge_buffer_overflow := False,
     c_barge_quiet_frames := 0, c_barge_silence_frames := 0\<rparr>"

definition reject_barge_probe :: "client \<Rightarrow> client" where
  "reject_barge_probe c = (reset_barge_turn (reset_barge_probe c))
     \<lparr>c_barge_cooldown_frames := k_barge_retry_cooldown_frames\<rparr>"

definition begin_listening :: "client \<Rightarrow> client" where
  "begin_listening c = reset_listener (ui_call (Call_State Ui_Listening)
     (c\<lparr>c_state := St_WaitingForSpeech, c_state_deadline := c_now c + k_speech_start_wait\<rparr>))"

subsection \<open>Connection\<close>

definition retry_seconds :: "nat \<Rightarrow> nat" where
  "retry_seconds attempt = (if attempt < 5 then 2 ^ attempt else 30)"

definition close_wire :: "client \<Rightarrow> client" where
  "close_wire c = (case c_transport c of
     None \<Rightarrow> c
   | Some t \<Rightarrow> (case close_transport t of (t', os) \<Rightarrow> c\<lparr>c_transport := None, c_wire := c_wire c @ os\<rparr>))"

definition lose_connection :: "client \<Rightarrow> client" where
  "lose_connection c =
     (let c1 = close_wire c;
          c2 = on_audio drop_playback (c1\<lparr>c_events := event_clear (c_events c1)\<rparr>);
          c3 = ui_call (Call_State Ui_Offline)
                 ((clear_subtitle c2)\<lparr>c_await_hint_visible := False, c_await_hint_pending := False\<rparr>);
          c4 = reset_barge_turn (reset_barge_probe (c3\<lparr>c_state := St_WaitingForWake, c_turn_ids := no_ids,
                 c_response_ids := no_ids, c_pre_head := 0, c_pre_count := 0\<rparr>));
          c5 = reset_listener (c4\<lparr>c_finish_after_cancel_ack := False, c_manual_wake_pending := False\<rparr>);
          seconds = retry_seconds (c_reconnect_attempt c5)
      in c5\<lparr>c_reconnect_attempt := (if c_reconnect_attempt c5 < 5 then c_reconnect_attempt c5 + 1 else c_reconnect_attempt c5),
            c_next_connect := c_now c5 + 1000 * seconds, c_network_needed := True\<rparr>)"

text \<open>\<^verbatim>\<open>StartConnect\<close>; \<open>no_throw\<close>: allocation and copies succeed.\<close>

definition start_connect ::
  "(string \<Rightarrow> bytes option) \<Rightarrow> bool \<Rightarrow> bool \<Rightarrow> bool \<Rightarrow> client \<Rightarrow> client" where
  "start_connect decode_block uri_ok thread_ok no_throw c =
     (if \<not> no_throw then lose_connection c
      else let c1 = c\<lparr>c_hello_sent := False, c_state_deadline := c_now c + k_connect_wait, c_wire := []\<rparr>;
               tc = \<lparr>tc_host = ep_host (c_endpoint c1), tc_port = ep_port (c_endpoint c1),
                     tc_device_id = cfg_device_id (c_config c1), tc_spki_sha256_base64 = ep_spki (c_endpoint c1)\<rparr>
           in case connect decode_block uri_ok thread_ok tc new_transport of
                (True, t) \<Rightarrow> c1\<lparr>c_transport := Some t\<rparr>
              | (False, t) \<Rightarrow> lose_connection (c1\<lparr>c_transport := Some t\<rparr>))"

definition finish_connect :: "client \<Rightarrow> client" where
  "finish_connect c = (case c_transport c of
     None \<Rightarrow> c
   | Some t \<Rightarrow> if c_hello_sent c \<or> \<not> t_connected t then c
       else (case client_send Ctl_Hello no_ids c of
         (False, c1) \<Rightarrow> lose_connection c1
       | (True, c1) \<Rightarrow> c1\<lparr>c_hello_sent := True, c_state_deadline := c_now c1 + k_hello_ack_wait\<rparr>))"

text \<open>\<^verbatim>\<open>AbortCurrent\<close>\<close>

definition abort_current :: "client \<Rightarrow> client" where
  "abort_current c =
     (let c1 = (reset_barge_turn (reset_barge_probe (on_audio drop_playback c)))\<lparr>c_finish_after_cancel_ack := True\<rparr>;
          has_response = session (c_response_ids c1) \<noteq> 0
      in case client_send (if has_response then Ctl_ResponseCancel else Ctl_TurnCancel)
                (if has_response then c_response_ids c1 else c_turn_ids c1) c1 of
           (False, c2) \<Rightarrow> lose_connection c2
         | (True, c2) \<Rightarrow> c2\<lparr>c_state := St_CancelPending, c_state_deadline := c_now c2 + k_cancel_ack_wait\<rparr>)"

subsection \<open>Turns\<close>

definition advance_turn :: "client \<Rightarrow> client" where
  "advance_turn c = c\<lparr>c_turn_ids := \<lparr>session = session (c_turn_ids c), turn = turn (c_turn_ids c) + 1,
       stream = stream (c_turn_ids c) + 1, epoch = epoch (c_turn_ids c) + 1\<rparr>, c_response_ids := no_ids\<rparr>"

definition finish_turn :: "bool \<Rightarrow> client \<Rightarrow> client" where
  "finish_turn normal c =
     (let c1 = (reset_barge_turn (reset_barge_probe c))\<lparr>c_follow_up_near_frames := 0, c_finish_after_cancel_ack := False,
                 c_await_hint_visible := False, c_await_hint_pending := False\<rparr>;
          c2 = (if normal then c1 else clear_subtitle (on_audio drop_playback c1));
          c3 = reset_listener (advance_turn c2)
      in ui_call (Call_State Ui_Happy) (c3\<lparr>c_state := St_WaitingForFollowUp,
           c_state_deadline := c_now c3 + k_follow_up_wait\<rparr>))"

text \<open>The PCM of a frame as the bytes of the array: 16-bit little endian.\<close>

definition sample_bytes :: "sample list \<Rightarrow> bytes" where
  "sample_bytes xs = concat (map (\<lambda>s. [ucast s, ucast (drop_bit 8 s)]) xs)"

definition audio_header :: "capture_frame \<Rightarrow> bool \<Rightarrow> client \<Rightarrow> pcm64_header" where
  "audio_header f is_end c = \<lparr>pcm_flags = (if c_uplink_sequence c = 0 then 1 else 0) OR (if is_end then 2 else 0),
     pcm_sequence = c_uplink_sequence c, pcm_timestamp_us = c_audio_origin_us c + cf_sequence f * 20000,
     pcm_ids = c_turn_ids c\<rparr>"

text \<open>\<^verbatim>\<open>SendAudio\<close>; its callers have a transport (\<open>client_linked\<close> below).\<close>

definition send_audio :: "capture_frame \<Rightarrow> bool \<Rightarrow> client \<Rightarrow> send_outcome \<times> client" where
  "send_audio f is_end c = (case c_transport c of
     None \<Rightarrow> (Send_Rejected, c)
   | Some t \<Rightarrow> (case next_send c of (env, c1) \<Rightarrow>
       (case send_pcm env (audio_header f is_end c1) (sample_bytes (cf_pcm f)) t of
         (outcome, t', os) \<Rightarrow> (outcome, c1\<lparr>c_transport := Some t', c_wire := c_wire c1 @ os,
            c_uplink_sequence := (if outcome = Send_Ok then c_uplink_sequence c1 + 1 else c_uplink_sequence c1)\<rparr>))))"

definition send_audio_or_recover :: "capture_frame \<Rightarrow> bool \<Rightarrow> client \<Rightarrow> bool \<times> client" where
  "send_audio_or_recover f is_end c = (case send_audio f is_end c of (outcome, c1) \<Rightarrow>
     (case outcome of
        Send_Ok \<Rightarrow> (True, c1)
      | Send_Backpressure \<Rightarrow> (False, abort_current c1)
      | Send_Rejected \<Rightarrow> (False, lose_connection c1)))"

definition wait_for_response :: "client \<Rightarrow> client" where
  "wait_for_response c = ui_call (Call_State Ui_Thinking) (c\<lparr>c_state := St_WaitingForResponse,
     c_state_deadline := c_now c + k_response_wait, c_await_hint_at := c_now c + k_first_response_hint,
     c_await_hint_pending := True, c_await_hint_visible := False\<rparr>)"

definition pre_roll :: "client \<Rightarrow> capture_frame list" where
  "pre_roll c = map (\<lambda>i. c_pre c ! ((c_pre_head c + i) mod length (c_pre c))) [0..<c_pre_count c]"

text \<open>The upload loop of \<^verbatim>\<open>StartTurn\<close>; the last frame carries END when \<open>final\<close>.\<close>

fun upload :: "bool \<Rightarrow> capture_frame list \<Rightarrow> client \<Rightarrow> bool \<times> client" where
  "upload final [] c = (True, c)"
| "upload final (f # fs) c = (case send_audio_or_recover f (final \<and> fs = []) c of
     (False, c1) \<Rightarrow> (False, c1)
   | (True, c1) \<Rightarrow> upload final fs c1)"

definition send_commit :: "client \<Rightarrow> bool \<times> client" where
  "send_commit c = (case client_send Ctl_TurnCommit (c_turn_ids c) c of
     (False, c1) \<Rightarrow> (False, lose_connection c1)
   | (True, c1) \<Rightarrow> (True, wait_for_response c1))"

definition start_turn :: "bool \<Rightarrow> client \<Rightarrow> bool \<times> client" where
  "start_turn utterance_ended c =
     (if session (c_turn_ids c) = 0 then (False, lose_connection c)
      else case client_send Ctl_TurnStart (c_turn_ids c) c of
        (False, c1) \<Rightarrow> (False, lose_connection c1)
      | (True, c1) \<Rightarrow>
          let c2 = ui_call (Call_State Ui_Listening) (c1\<lparr>c_uplink_sequence := 0, c_state := St_CapturingSpeech,
                     c_state_deadline := c_now c1 + k_maximum_turn_wait\<rparr>)
          in if utterance_ended \<and> c_pre_count c2 = 0 then (False, lose_connection c2)
             else (case upload utterance_ended (pre_roll c2) c2 of
               (False, c3) \<Rightarrow> (False, c3)
             | (True, c3) \<Rightarrow>
                 let c4 = c3\<lparr>c_pre_head := 0, c_pre_count := 0\<rparr>
                 in if utterance_ended then send_commit c4 else (True, c4)))"

definition commit :: "capture_frame \<Rightarrow> client \<Rightarrow> client" where
  "commit f c = (case send_audio_or_recover f True c of
     (False, c1) \<Rightarrow> c1
   | (True, c1) \<Rightarrow> snd (send_commit c1))"

definition resume_after_barge :: "client \<Rightarrow> client" where
  "resume_after_barge c =
     (if \<not> c_barge_turn_admitted c then finish_turn False c
      else let ended = c_barge_ended c;
               c1 = on_audio drop_playback (c\<lparr>c_barge_turn_admitted := False, c_barge_ended := False\<rparr>)
           in snd (start_turn ended (advance_turn (c1\<lparr>c_finish_after_cancel_ack := False\<rparr>))))"

definition complete_cancel :: "client \<Rightarrow> client" where
  "complete_cancel c =
     (if c_finish_after_cancel_ack c then finish_turn False c
      else if c_barge_turn_admitted c \<and> \<not> c_barge_buffer_overflow c then resume_after_barge c
      else finish_turn False (c\<lparr>c_pre_head := 0, c_pre_count := 0\<rparr>))"

subsection \<open>Deadlines\<close>

text \<open>The two lines of the first-response hint, as the bytes of the source.\<close>

definition k_hint_title :: string where
  "k_hint_title = map char_of [0xE8, 0xBF, 0x98, 0xE5, 0x9C, 0xA8, 0xE6, 0x80, 0x9D, 0xE8, 0x80, 0x83 :: nat]"

definition k_hint_detail :: string where
  "k_hint_detail = map char_of [0xE4, 0xBA, 0x91, 0xE7, 0xAB, 0xAF, 0xE6, 0xAD, 0xA3, 0xE5, 0x9C, 0xA8, 0xE7, 0xBB, 0x84,
     0xE7, 0xBB, 0x87, 0xE5, 0x9B, 0x9E, 0xE7, 0xAD, 0x94, 0xEF, 0xBC, 0x8C, 0xE8, 0xAF, 0xB7, 0xE7, 0xA8, 0x8D,
     0xE5, 0x80, 0x99 :: nat]"

definition advance_deadlines :: "client \<Rightarrow> bool \<times> client" where
  "advance_deadlines c =
     (if session (c_turn_ids c) = 0 then
        (if c_transport c = None \<or> c_now c < c_state_deadline c then (True, c) else (False, lose_connection c))
      else if c_heartbeat_deadline c \<le> c_now c then (False, lose_connection c)
      else if c_state c = St_DrainingPlayback \<and> e_is_done (c_audio c) then
        (False, if e_playback_failed (c_audio c) then c\<lparr>c_listener_failed := True\<rparr> else finish_turn True c)
      else if c_state c \<noteq> St_WaitingForWake \<and> c_state_deadline c \<le> c_now c then
        (False,
         if c_state c = St_WaitingForSpeech \<or> c_state c = St_WaitingForFollowUp then
           reset_listener (ui_call (Call_State Ui_Idle)
             (c\<lparr>c_state := St_WaitingForWake, c_pre_head := 0, c_pre_count := 0\<rparr>))
         else if c_state c = St_CancelPending then lose_connection c
         else abort_current c)
      else if c_state c = St_WaitingForResponse \<and> c_await_hint_pending c \<and> c_await_hint_at c \<le> c_now c then
        (True, ui_call (Call_Text k_hint_title k_hint_detail)
           (c\<lparr>c_await_hint_pending := False, c_await_hint_visible := True\<rparr>))
      else (True, c))"

subsection \<open>Events of the session\<close>

definition handle_error :: "inbound \<Rightarrow> client \<Rightarrow> client" where
  "handle_error e c = (let c1 = mark_first_response_progress c in
     if in_error_code e = ''transport'' \<or> session (c_turn_ids c1) = 0 then lose_connection c1
     else if turn (in_ids e) = 0 then lose_connection c1
     else if in_error_code e = ''downlink_discontinuity'' then
       (if c_state c1 \<noteq> St_CancelPending then abort_current c1 else c1)
     else if c_state c1 = St_CancelPending then complete_cancel c1
     else finish_turn False c1)"

definition handle_hello_ack :: "inbound \<Rightarrow> client \<Rightarrow> client" where
  "handle_hello_ack e c = ui_call (Call_State Ui_Idle) (reset_listener
     (c\<lparr>c_turn_ids := \<lparr>session = session (in_ids e), turn = 1, stream = 1, epoch = epoch (in_ids e)\<rparr>,
        c_reconnect_attempt := 0, c_heartbeat_deadline := c_now c + k_heartbeat_wait,
        c_pre_head := 0, c_pre_count := 0\<rparr>))"

definition handle_audio_start :: "client \<Rightarrow> client" where
  "handle_audio_start c = (case audio_begin (mark_first_response_progress c) of
     (False, c1) \<Rightarrow> lose_connection c1
   | (True, c1) \<Rightarrow> reset_barge_probe (ui_call (Call_State Ui_Speaking) (c1\<lparr>c_state := St_PlayingResponse\<rparr>)))"

text \<open>\<^verbatim>\<open>QueueTts24k\<close>; \<open>None\<close> would be a loop without end, which \<open>fill_slots_total\<close> excludes.\<close>

definition audio_queue :: "bytes \<Rightarrow> u64 \<Rightarrow> client \<Rightarrow> bool \<times> client" where
  "audio_queue pcm sequence c = (case queue_tts24k pcm sequence (c_audio c) of
     None \<Rightarrow> (False, c)
   | Some (ok, e) \<Rightarrow> (ok, c\<lparr>c_audio := e, c_accepted := c_accepted c @ (if ok then le_samples pcm else [])\<rparr>))"

definition handle_pcm :: "inbound \<Rightarrow> client \<Rightarrow> client" where
  "handle_pcm e c = (case audio_queue (in_audio e) (ucast (pcm_sequence (in_pcm e))) (mark_first_response_progress c) of
     (False, c1) \<Rightarrow> abort_current c1
   | (True, c1) \<Rightarrow> c1)"

definition handle_done :: "client \<Rightarrow> client" where
  "handle_done c = (let c1 = mark_first_response_progress c in
     case (if \<not> e_is_done (c_audio c1) then end_playback (c_audio c1) else (True, c_audio c1)) of
       (False, e) \<Rightarrow> lose_connection (c1\<lparr>c_audio := e\<rparr>)
     | (True, e) \<Rightarrow> ui_call (Call_State Ui_SpeakingTail) (c1\<lparr>c_audio := e, c_state := St_DrainingPlayback,
         c_state_deadline := c_now c1 + k_drain_playback_wait\<rparr>))"

definition handle_cancelled :: "client \<Rightarrow> client" where
  "handle_cancelled c = (let c1 = mark_first_response_progress c in
     if c_state c1 = St_CancelPending then complete_cancel c1 else finish_turn False c1)"

definition handle_event :: "inbound \<Rightarrow> client \<Rightarrow> client" where
  "handle_event e c =
     (if in_kind e = In_Error then handle_error e c
      else if in_kind e = In_Heartbeat then c\<lparr>c_heartbeat_deadline := c_now c + k_heartbeat_wait\<rparr>
      else if c_state c = St_CancelPending \<and> in_kind e = In_Done then c
      else if c_state c = St_CancelPending \<and> in_kind e \<noteq> In_Cancelled then c
      else let c1 = c\<lparr>c_state_deadline := c_now c + k_response_wait\<rparr> in
        case in_kind e of
          In_HelloAck \<Rightarrow> handle_hello_ack e c1
        | In_ResponseStart \<Rightarrow> (let c2 = c1\<lparr>c_response_ids := in_ids e\<rparr> in
            if c_await_hint_visible c2 then c2 else clear_subtitle c2)
        | In_TextDelta \<Rightarrow> show_text (in_text e) (mark_first_response_progress c1)
        | In_AudioStart \<Rightarrow> handle_audio_start c1
        | In_Pcm \<Rightarrow> handle_pcm e c1
        | In_Done \<Rightarrow> handle_done c1
        | In_Cancelled \<Rightarrow> handle_cancelled c1
        | _ \<Rightarrow> c1)"

subsection \<open>Pre-roll\<close>

definition save_pre_roll :: "capture_frame \<Rightarrow> client \<Rightarrow> client" where
  "save_pre_roll f c =
     (if c_state c = St_CancelPending \<and> c_barge_turn_admitted c \<and> c_pre_count c = length (c_pre c)
      then c\<lparr>c_barge_buffer_overflow := True\<rparr>
      else let c1 = c\<lparr>c_pre := (c_pre c)[(c_pre_head c + c_pre_count c) mod length (c_pre c) := f]\<rparr>;
               preserve_barge = (c_barge_probe c1 \<noteq> Probe_Idle \<or> (c_state c1 = St_CancelPending \<and> c_barge_turn_admitted c1));
               limit = (if preserve_barge then length (c_pre c1) else k_pre_roll_frames)
           in if c_pre_count c1 < limit then c1\<lparr>c_pre_count := c_pre_count c1 + 1\<rparr>
              else c1\<lparr>c_pre_head := (c_pre_head c1 + 1) mod length (c_pre c1)\<rparr>)"

definition keep_newest_pre_roll :: "nat \<Rightarrow> client \<Rightarrow> client" where
  "keep_newest_pre_roll count c = (let keep = min count (c_pre_count c) in
     c\<lparr>c_pre_head := (c_pre_head c + c_pre_count c - keep) mod length (c_pre c), c_pre_count := keep\<rparr>)"

definition is_barge_voice :: "capture_frame \<Rightarrow> client \<Rightarrow> bool" where
  "is_barge_voice f c \<longleftrightarrow> cf_near_voice f \<and> barge_min_dbfs (c_config c) \<le> cf_voice_dbfs f"

definition track_barge_utterance :: "capture_frame \<Rightarrow> client \<Rightarrow> client" where
  "track_barge_utterance f c =
     (let c1 = (if cf_near_voice f then c\<lparr>c_barge_silence_frames := 0\<rparr>
                else if c_barge_silence_frames c < k_barge_tail_freeze_frames
                then c\<lparr>c_barge_silence_frames := c_barge_silence_frames c + 1\<rparr> else c)
      in if cf_vad_ended f then c1\<lparr>c_barge_ended := True\<rparr> else c1)"

subsection \<open>Barge-in\<close>

definition confirm_barge :: "client \<Rightarrow> client" where
  "confirm_barge c =
     (let c1 = (clear_subtitle (reset_barge_probe (on_audio drop_playback c)))\<lparr>c_barge_turn_admitted := True,
                 c_barge_ended := False, c_barge_silence_frames := 0, c_barge_buffer_overflow := False,
                 c_finish_after_cancel_ack := False\<rparr>
      in case client_send Ctl_ResponseCancel (c_response_ids c1) c1 of
           (False, c2) \<Rightarrow> lose_connection c2
         | (True, c2) \<Rightarrow> c2\<lparr>c_state := St_CancelPending, c_state_deadline := c_now c2 + k_cancel_ack_wait\<rparr>)"

definition handle_barge :: "capture_frame \<Rightarrow> client \<Rightarrow> client" where
  "handle_barge f c =
     (if \<not> barge_in_enabled (c_config c) then reset_barge_probe c
      else case c_barge_probe c of
        Probe_Idle \<Rightarrow>
          if c_barge_cooldown_frames c \<noteq> 0 then c\<lparr>c_barge_cooldown_frames := c_barge_cooldown_frames c - 1\<rparr>
          else if \<not> is_barge_voice f c then c\<lparr>c_barge_probe_frames := 0\<rparr>
          else let c1 = c\<lparr>c_barge_probe_frames := c_barge_probe_frames c + 1\<rparr> in
            if c_barge_probe_frames c1 < k_barge_candidate_frames then c1
            else on_audio (set_playback_scale 0)
              ((reset_barge_turn (keep_newest_pre_roll k_barge_candidate_frames c1))
                 \<lparr>c_barge_probe_frames := 0, c_barge_probe := Probe_WaitReferenceLow\<rparr>)
      | Probe_WaitReferenceLow \<Rightarrow>
          let c1 = c\<lparr>c_barge_probe_frames := c_barge_probe_frames c + 1\<rparr> in
          if k_barge_reference_wait_frames < c_barge_probe_frames c1 then reject_barge_probe c1
          else let c2 = c1\<lparr>c_barge_quiet_frames := (if cf_reference_active f then 0 else c_barge_quiet_frames c1 + 1)\<rparr> in
            if c_barge_quiet_frames c2 < k_barge_reference_low_frames then c2
            else c2\<lparr>c_barge_probe_frames := 0, c_barge_probe := Probe_Clear\<rparr>
      | Probe_Clear \<Rightarrow>
          if cf_reference_active f then reject_barge_probe c
          else let c1 = c\<lparr>c_barge_probe_frames := c_barge_probe_frames c + 1\<rparr> in
            if c_barge_probe_frames c1 < k_barge_echo_clear_frames then c1
            else c1\<lparr>c_barge_probe_frames := 0, c_barge_probe := Probe_Verify\<rparr>
      | Probe_Verify \<Rightarrow>
          if cf_reference_active f \<or> \<not> is_barge_voice f c then reject_barge_probe c
          else let c1 = c\<lparr>c_barge_probe_frames := c_barge_probe_frames c + 1\<rparr> in
            if c_barge_probe_frames c1 < k_barge_confirm_frames then c1 else confirm_barge c1)"

subsection \<open>Frames\<close>

definition on_gap :: "client \<Rightarrow> client" where
  "on_gap c = (let c1 = c\<lparr>c_pre_count := 0\<rparr> in
     if c_state c1 = St_CancelPending then (reset_barge_turn c1)\<lparr>c_finish_after_cancel_ack := True\<rparr>
     else if c_state c1 = St_CapturingSpeech \<or> c_state c1 = St_WaitingForResponse \<or> c_state c1 = St_PlayingResponse \<or>
             c_state c1 = St_DrainingPlayback
     then abort_current c1
     else reset_listener (ui_call (Call_State Ui_Idle) ((on_audio drop_playback c1)\<lparr>c_state := St_WaitingForWake\<rparr>)))"

definition frame_in_state :: "capture_frame \<Rightarrow> client \<Rightarrow> client" where
  "frame_in_state f c = (case c_state c of
     St_WaitingForWake \<Rightarrow>
       if c_manual_wake_pending c then begin_listening (c\<lparr>c_manual_wake_pending := False\<rparr>)
       else if cf_wake f then begin_listening c else c
   | St_WaitingForSpeech \<Rightarrow> if cf_vad_started f then snd (start_turn False c) else c
   | St_WaitingForFollowUp \<Rightarrow>
       if \<not> cf_near_voice f then c\<lparr>c_follow_up_near_frames := 0\<rparr>
       else let c1 = c\<lparr>c_follow_up_near_frames := c_follow_up_near_frames c + 1\<rparr> in
         if k_follow_up_near_frames \<le> c_follow_up_near_frames c1 then snd (start_turn False c1) else c1
   | St_CapturingSpeech \<Rightarrow>
       if k_maximum_turn_frames \<le> c_uplink_sequence c + 1 then commit f c
       else if c_barge_ended c \<or> cf_vad_ended f then commit f (c\<lparr>c_barge_ended := False\<rparr>)
       else snd (send_audio_or_recover f False c)
   | St_PlayingResponse \<Rightarrow> handle_barge f c
   | St_CancelPending \<Rightarrow> track_barge_utterance f c
   | St_DrainingPlayback \<Rightarrow> handle_barge f c
   | St_WaitingForResponse \<Rightarrow> c)"

text \<open>The two statements of \<^verbatim>\<open>OnFrame\<close> between the gap check and the offline check.\<close>

definition thaw_barge :: "capture_frame \<Rightarrow> client \<Rightarrow> client" where
  "thaw_barge f c = (if c_state c = St_CancelPending \<and> \<not> c_barge_ended c \<and> cf_near_voice f
     then c\<lparr>c_barge_silence_frames := 0\<rparr> else c)"

definition store_frame :: "capture_frame \<Rightarrow> client \<Rightarrow> client" where
  "store_frame f c = (let freeze_barge_tail = (c_state c = St_CancelPending \<and>
       (c_barge_ended c \<or> k_barge_tail_freeze_frames \<le> c_barge_silence_frames c))
     in if c_state c \<noteq> St_CapturingSpeech \<and> \<not> freeze_barge_tail then save_pre_roll f c else c)"

definition on_frame :: "capture_frame \<Rightarrow> client \<Rightarrow> client" where
  "on_frame f c =
     (let sequence_gap = (cf_sequence f \<noteq> c_next_capture_sequence c);
          c1 = c\<lparr>c_next_capture_sequence := cf_sequence f + 1, c_taken := c_taken c @ [f]\<rparr>
      in if cf_discontinuity f \<or> sequence_gap then on_gap c1
         else let c2 = store_frame f (thaw_barge f c1)
              in if session (c_turn_ids c2) = 0 then (if cf_wake f then reset_listener c2 else c2)
                 else frame_in_state f c2)"

subsection \<open>Touch input\<close>

definition poll_ui :: "(u8 \<times> bool) option \<Rightarrow> device_ui_action option \<Rightarrow> client \<Rightarrow> client" where
  "poll_ui volume_change action c =
     (let c1 = (case volume_change of None \<Rightarrow> c | Some (percent, committed) \<Rightarrow> apply_volume percent committed c)
      in case action of
        None \<Rightarrow> c1
      | Some Act_Wake \<Rightarrow>
          if c_state c1 = St_WaitingForWake \<and> session (c_turn_ids c1) \<noteq> 0 then c1\<lparr>c_manual_wake_pending := True\<rparr> else c1
      | Some Act_Interrupt \<Rightarrow>
          if c_state c1 = St_PlayingResponse \<or> c_state c1 = St_DrainingPlayback
          then abort_current (clear_subtitle c1) else c1
      | Some Act_VolumeUp \<Rightarrow> apply_volume (word_of_int (min 100 (uint (c_volume c1) + 5))) True c1
      | Some Act_VolumeDown \<Rightarrow> apply_volume (word_of_int (max 0 (uint (c_volume c1) - 5))) True c1
      | Some Act_BrightnessUp \<Rightarrow> save_ui_settings (ui_call (Call_Brightness 100) (c1\<lparr>c_brightness := True\<rparr>))
      | Some Act_BrightnessDown \<Rightarrow> save_ui_settings (ui_call (Call_Brightness 0) (c1\<lparr>c_brightness := False\<rparr>)))"

end
