(* ===== verification/ClientLoop.thy ===== *)
theory ClientLoop
  imports VoiceClient
begin

section \<open>The client's loop and the threads around it\<close>

text \<open>
  \<^verbatim>\<open>VoiceClient::Run\<close> phase by phase, with the WSS, network and audio threads acting between the phases,
  and the event queue as a bounded FIFO.
\<close>

subsection \<open>Other threads\<close>

text \<open>
  What the WSS callbacks hand over: inbound messages and errors go to the event queue, and
  everything goes to the log. The callback never throws.
\<close>

definition push_event :: "inbound \<Rightarrow> client \<Rightarrow> client" where
  "push_event e c = c\<lparr>c_events := snd (event_push e (c_events c))\<rparr>"

definition transport_error :: "string \<Rightarrow> inbound" where
  "transport_error why = no_inbound\<lparr>in_kind := In_Error, in_error_code := ''transport'', in_text := why\<rparr>"

definition on_effect :: "effect \<Rightarrow> client \<Rightarrow> client" where
  "on_effect o' c = (case o' of
     Out_Inbound e \<Rightarrow> push_event e c
   | Out_Error why \<Rightarrow> push_event (transport_error why) c
   | _ \<Rightarrow> c)"

datatype wss_event = W_Open | W_Fail string | W_Closed string | W_Ping | W_Message payload

fun callback :: "wss_event \<Rightarrow> event" where
  "callback W_Open = Ev_Open"
| "callback (W_Fail why) = Ev_Fail why"
| "callback (W_Closed reason) = Ev_Closed reason"
| "callback W_Ping = Ev_Ping"
| "callback (W_Message m) = Ev_Message m"

definition wss_step :: "json_parser \<Rightarrow> wss_event \<Rightarrow> client \<Rightarrow> client" where
  "wss_step p ev c = (case c_transport c of
     None \<Rightarrow> c
   | Some t \<Rightarrow> (case transport_step p (\<lambda>_. True) (callback ev) t of (t', os) \<Rightarrow>
       fold on_effect os (c\<lparr>c_transport := Some t', c_wire := c_wire c @ os\<rparr>)))"

text \<open>
  \<open>Th_Player\<close>: a critical section of the playback thread; \<open>Th_Capture\<close>: a round of the capture thread. The
  properties that do not depend on what these threads do also admit \<open>Th_Audio e\<close>: the audio threads
  have left the engine in any state \<open>e\<close>. \<open>Th_Endpoint\<close>: \<^verbatim>\<open>NetworkLoop\<close> publishes what the bootstrap found.
\<close>

datatype thread_event =
    Th_Wss wss_event
  | Th_Player player_event
  | Th_Capture bool "capture_frame option"
  | Th_Audio engine
  | Th_Endpoint endpoint

text \<open>The engine with the history of the playback, as the playback model sees it.\<close>

definition player_of :: "client \<Rightarrow> player" where
  "player_of c = \<lparr>pl_engine = c_audio c, pl_pc = c_playback_pc c, pl_accepted = c_accepted c, pl_rendered = c_rendered c\<rparr>"

definition set_player :: "player \<Rightarrow> client \<Rightarrow> client" where
  "set_player pl c = c\<lparr>c_audio := pl_engine pl, c_playback_pc := pl_pc pl, c_accepted := pl_accepted pl,
     c_rendered := pl_rendered pl\<rparr>"

definition by_playback_thread :: "player_event \<Rightarrow> bool" where
  "by_playback_thread ev \<longleftrightarrow> (case ev of T_Grace \<Rightarrow> True | T_Take \<Rightarrow> True | T_Rendered _ \<Rightarrow> True
     | T_Finished _ \<Rightarrow> True | _ \<Rightarrow> False)"

fun thread_step :: "json_parser \<Rightarrow> thread_event \<Rightarrow> client \<Rightarrow> client" where
  "thread_step p (Th_Wss ev) c = wss_step p ev c"
| "thread_step p (Th_Player ev) c = (if by_playback_thread ev then set_player (player_step ev (player_of c)) c else c)"
| "thread_step p (Th_Capture ok r) c = c\<lparr>c_audio := snd (capture_iteration ok r (c_audio c))\<rparr>"
| "thread_step p (Th_Audio e) c = c\<lparr>c_audio := e\<rparr>"
| "thread_step p (Th_Endpoint ep) c =
     (if c_network_needed c then c\<lparr>c_endpoint := ep, c_endpoint_ready := True, c_network_needed := False\<rparr> else c)"

subsection \<open>The loop\<close>

text \<open>Before a phase: what the other threads did, and what the environment will answer during it.\<close>

record phase =
  ph_threads :: "thread_event list"
  ph_now :: nat
  ph_sends :: "send_env list"
  ph_handshakes :: "handshake list"

definition enter :: "json_parser \<Rightarrow> phase \<Rightarrow> client \<Rightarrow> client" where
  "enter p ph c = (fold (thread_step p) (ph_threads ph) c)
     \<lparr>c_now := ph_now ph, c_sends := ph_sends ph, c_handshakes := ph_handshakes ph\<rparr>"

text \<open>\<^verbatim>\<open>DrainEvents\<close>: at most \<open>length phs\<close> events.\<close>

fun drain_events :: "json_parser \<Rightarrow> phase list \<Rightarrow> client \<Rightarrow> client" where
  "drain_events p [] c = c"
| "drain_events p (ph # phs) c = (let c0 = enter p ph c in
     if c_transport c0 = None \<or> c_listener_failed c0 then c0
     else case event_pop (c_events c0) of
       None \<Rightarrow> c0
     | Some (e, q) \<Rightarrow> drain_events p phs (handle_event e (c0\<lparr>c_events := q\<rparr>)))"

text \<open>One pass through the loop of \<^verbatim>\<open>Run\<close>; \<open>in_drain\<close> is cut to the eight events of the code.\<close>

record pass_input =
  in_connect :: phase
  in_decode :: "string \<Rightarrow> bytes option"
  in_uri_ok :: bool
  in_thread_ok :: bool
  in_no_throw :: bool
  in_capture :: phase
  in_finish :: phase
  in_drain :: "phase list"
  in_ui :: phase
  in_volume_change :: "(u8 \<times> bool) option"
  in_action :: "device_ui_action option"
  in_overflow :: phase
  in_deadline :: phase
  in_frame :: phase

definition connect_phase :: "json_parser \<Rightarrow> pass_input \<Rightarrow> client \<Rightarrow> client" where
  "connect_phase p i c = (let c0 = enter p (in_connect i) c in
     if c_transport c0 = None \<and> c_endpoint_ready c0 \<and> c_next_connect c0 \<le> c_now c0
     then start_connect (in_decode i) (in_uri_ok i) (in_thread_ok i) (in_no_throw i) c0 else c0)"

definition capture_phase :: "json_parser \<Rightarrow> pass_input \<Rightarrow> client \<Rightarrow> capture_result \<times> client" where
  "capture_phase p i c = (let c0 = enter p (in_capture i) c in
     case capture_take k_actor_poll_interval (c_audio c0) of (r, e) \<Rightarrow> (r, c0\<lparr>c_audio := e\<rparr>))"

definition input_phase :: "json_parser \<Rightarrow> pass_input \<Rightarrow> client \<Rightarrow> client" where
  "input_phase p i c = (let
     c1 = finish_connect (enter p (in_finish i) c);
     c2 = drain_events p (take k_events_per_capture_frame (in_drain i)) c1
   in poll_ui (in_volume_change i) (in_action i) (enter p (in_ui i) c2))"

definition overflow_phase :: "json_parser \<Rightarrow> pass_input \<Rightarrow> client \<Rightarrow> client" where
  "overflow_phase p i c = (let c0 = enter p (in_overflow i) c in
     if q_overflow (c_events c0) then lose_connection c0 else c0)"

definition deadline_phase :: "json_parser \<Rightarrow> pass_input \<Rightarrow> client \<Rightarrow> bool \<times> client" where
  "deadline_phase p i c = advance_deadlines (enter p (in_deadline i) c)"

definition frame_phase :: "json_parser \<Rightarrow> pass_input \<Rightarrow> capture_frame \<Rightarrow> client \<Rightarrow> client" where
  "frame_phase p i f c = on_frame f (enter p (in_frame i) c)"

text \<open>\<open>Failed\<close>: \<^verbatim>\<open>Run\<close> returns \<^verbatim>\<open>Fail(audio_.last_error())\<close>.\<close>

datatype loop_result = Going client | Failed client

definition client_fail :: "client \<Rightarrow> loop_result" where
  "client_fail c = Failed ((ui_call (Call_State Ui_Error) c)\<lparr>c_error := e_error (c_audio c)\<rparr>)"

definition run_pass :: "json_parser \<Rightarrow> pass_input \<Rightarrow> client \<Rightarrow> loop_result" where
  "run_pass p i c = (let c1 = connect_phase p i c in
     if c_listener_failed c1 then client_fail c1
     else case capture_phase p i c1 of (capture, c2) \<Rightarrow>
       let c3 = input_phase p i c2 in
       if c_listener_failed c3 then client_fail c3
       else let c4 = overflow_phase p i c3 in
         if capture = Cap_Failed then client_fail c4
         else case deadline_phase p i c4 of (frame_still_current, c5) \<Rightarrow>
           if c_listener_failed c5 then client_fail c5
           else case capture of
             Cap_Frame f \<Rightarrow>
               if \<not> frame_still_current
               then Going (c5\<lparr>c_next_capture_sequence := cf_sequence f + 1, c_taken := c_taken c5 @ [f]\<rparr>)
               else let c6 = frame_phase p i f c5 in
                 if c_listener_failed c6 then client_fail c6 else Going c6
           | _ \<Rightarrow> Going c5)"

text \<open>The loop over a list of inputs; it ends early when a pass fails.\<close>

fun run_loop :: "json_parser \<Rightarrow> pass_input list \<Rightarrow> client \<Rightarrow> loop_result" where
  "run_loop p [] c = Going c"
| "run_loop p (i # is) c = (case run_pass p i c of Going c' \<Rightarrow> run_loop p is c' | Failed c' \<Rightarrow> Failed c')"

text \<open>
  What precedes the loop. \<open>settings\<close> is the result of the two extractions from the settings file: whether
  both succeeded, and the two variables afterwards.
\<close>

record saved_settings =
  ss_ok :: bool
  ss_volume :: nat
  ss_brightness :: nat

definition client_setup :: "voice_client_config \<Rightarrow> saved_settings \<Rightarrow> client" where
  "client_setup cfg s = (let
     c0 = (new_client cfg)\<lparr>c_volume := (if ss_ok s \<and> ss_volume s \<le> 100 then of_nat (ss_volume s) else volume_percent cfg)\<rparr>;
     c1 = c0\<lparr>c_brightness := (ss_brightness s \<noteq> 0)\<rparr>
   in ui_call (Call_State Ui_Offline) (ui_call (Call_Brightness (if c_brightness c1 then 100 else 0))
        (ui_call (Call_Volume (c_volume c1)) c1)))"

definition client_start ::
  "voice_client_config \<Rightarrow> saved_settings \<Rightarrow> bool \<Rightarrow> bool \<Rightarrow> bool \<Rightarrow> u64 \<Rightarrow> nat \<Rightarrow> loop_result" where
  "client_start cfg s backend_ok threads_ok network_ok origin now = (let c = client_setup cfg s in
     case open_engine backend_ok threads_ok (playback_gain cfg (c_volume c)) (c_audio c) of
       (False, e) \<Rightarrow> client_fail (c\<lparr>c_audio := e\<rparr>)
     | (True, e) \<Rightarrow>
         if \<not> network_ok
         then Failed ((ui_call (Call_State Ui_Error) (c\<lparr>c_audio := e\<rparr>))\<lparr>c_error := ''network thread creation failed''\<rparr>)
         else Going (c\<lparr>c_audio := e, c_audio_origin_us := origin, c_next_connect := now\<rparr>))"

definition run_client ::
  "json_parser \<Rightarrow> voice_client_config \<Rightarrow> saved_settings \<Rightarrow> bool \<Rightarrow> bool \<Rightarrow> bool \<Rightarrow> u64 \<Rightarrow> nat \<Rightarrow> pass_input list \<Rightarrow> loop_result" where
  "run_client p cfg s backend_ok threads_ok network_ok origin now is =
     (case client_start cfg s backend_ok threads_ok network_ok origin now of
        Going c \<Rightarrow> run_loop p is c | Failed c \<Rightarrow> Failed c)"

subsection \<open>The event queue as a bounded FIFO\<close>

definition queue_valid :: "event_queue \<Rightarrow> bool" where
  "queue_valid q \<longleftrightarrow> length (q_slots q) = event_capacity \<and> q_head q < event_capacity \<and> q_count q \<le> event_capacity \<and>
     q_tail q = (q_head q + q_count q) mod event_capacity"

definition queue_events :: "event_queue \<Rightarrow> inbound list" where
  "queue_events q = ring_list (q_slots q) (q_head q) (q_count q)"

definition event_put :: "inbound \<Rightarrow> event_queue \<Rightarrow> event_queue option" where
  "event_put e q = (case event_push e q of (True, q') \<Rightarrow> Some q' | (False, _) \<Rightarrow> None)"

lemma event_push_room:
  assumes "queue_valid q" "length (queue_events q) < event_capacity"
  shows "\<exists>q'. event_push e q = (True, q') \<and> queue_valid q' \<and> queue_events q' = queue_events q @ [e] \<and>
    q_overflow q' = q_overflow q"
  using assms ring_list_push [of "q_count q" "q_slots q" "q_head q" e]
  by (simp add: event_push_def queue_valid_def queue_events_def mod_Suc_eq)

lemma event_push_full:
  assumes "queue_valid q" "\<not> length (queue_events q) < event_capacity"
  shows "event_push e q = (False, q\<lparr>q_overflow := True\<rparr>)"
  using assms by (simp add: event_push_def queue_valid_def queue_events_def)

lemma event_pop_some:
  assumes "queue_valid q" "event_pop q = Some (e, q')"
  shows "queue_valid q' \<and> queue_events q = e # queue_events q' \<and> q_overflow q' = q_overflow q"
proof -
  have c: "0 < q_count q" and q': "q' = q\<lparr>q_head := (q_head q + 1) mod length (q_slots q), q_count := q_count q - 1\<rparr>"
    and e: "e = q_slots q ! q_head q"
    using assms(2) by (auto simp: event_pop_def split: if_splits)
  have v: "length (q_slots q) = event_capacity" "q_head q < event_capacity" "q_count q \<le> event_capacity"
    "q_tail q = (q_head q + q_count q) mod event_capacity"
    using assms(1) by (simp_all add: queue_valid_def)
  have "queue_events q = e # queue_events q'"
    using ring_list_pop [of "q_head q" "q_slots q" "q_count q" "q_slots q ! q_head q"] c v
    by (simp add: queue_events_def q' e)
  moreover have "((q_head q + 1) mod event_capacity + (q_count q - 1)) mod event_capacity = q_tail q"
  proof -
    have "((q_head q + 1) mod event_capacity + (q_count q - 1)) mod event_capacity =
        (q_head q + 1 + (q_count q - 1)) mod event_capacity" by (rule mod_add_left_eq)
    also have "q_head q + 1 + (q_count q - 1) = q_head q + q_count q" using c by simp
    finally show ?thesis using v(4) by simp
  qed
  ultimately show ?thesis using v by (simp add: q' queue_valid_def event_capacity_def)
qed

interpretation eq: bounded_fifo queue_valid queue_events event_capacity event_put event_pop
proof unfold_locales
  fix q :: event_queue and x
  assume v: "queue_valid q"
  show "length (queue_events q) \<le> event_capacity" using v by (simp add: queue_valid_def queue_events_def)
  show "\<exists>q'. event_put x q = Some q' \<and> queue_valid q' \<and> queue_events q' = queue_events q @ [x]"
    if "length (queue_events q) < event_capacity"
    using event_push_room [OF v that, of x] by (auto simp: event_put_def)
  show "event_put x q = None" if "length (queue_events q) = event_capacity"
    using event_push_full [OF v, of x] that by (simp add: event_put_def)
  show "event_pop q = None \<longleftrightarrow> queue_events q = []"
    by (auto simp: event_pop_def queue_events_def ring_list_def)
  show "queue_valid q' \<and> queue_events q = x # queue_events q'" if "event_pop q = Some (x, q')" for q'
    using event_pop_some [OF v that] by blast
qed

lemma empty_queue_valid [simp]: "queue_valid empty_queue" "queue_events empty_queue = []" "\<not> q_overflow empty_queue"
  by (simp_all add: queue_valid_def empty_queue_def queue_events_def event_capacity_def)

lemma event_clear_valid [simp]: "queue_valid q \<Longrightarrow> queue_valid (event_clear q)" "queue_events (event_clear q) = []"
  "\<not> q_overflow (event_clear q)"
  by (simp_all add: queue_valid_def event_clear_def queue_events_def event_capacity_def)

text \<open>The producer and the consumer of the queue, in any interleaving; history of both ends.\<close>

datatype queue_op = Q_Push inbound | Q_Pop

record queue_run =
  qr_queue :: event_queue
  qr_accepted :: "inbound list"
  qr_popped :: "inbound list"
  qr_refused :: bool

fun queue_step :: "queue_op \<Rightarrow> queue_run \<Rightarrow> queue_run" where
  "queue_step (Q_Push e) r = (case event_push e (qr_queue r) of
     (True, q) \<Rightarrow> r\<lparr>qr_queue := q, qr_accepted := qr_accepted r @ [e]\<rparr>
   | (False, q) \<Rightarrow> r\<lparr>qr_queue := q, qr_refused := True\<rparr>)"
| "queue_step Q_Pop r = (case event_pop (qr_queue r) of
     None \<Rightarrow> r | Some (e, q) \<Rightarrow> r\<lparr>qr_queue := q, qr_popped := qr_popped r @ [e]\<rparr>)"

definition queue_inv :: "queue_run \<Rightarrow> bool" where
  "queue_inv r \<longleftrightarrow> queue_valid (qr_queue r) \<and> qr_accepted r = qr_popped r @ queue_events (qr_queue r) \<and>
     (qr_refused r \<longleftrightarrow> q_overflow (qr_queue r))"

lemma queue_inv_step: "queue_inv r \<Longrightarrow> queue_inv (queue_step op r)"
proof (cases op)
  case (Q_Push e)
  assume "queue_inv r"
  then have v: "queue_valid (qr_queue r)" by (simp add: queue_inv_def)
  show ?thesis
  proof (cases "length (queue_events (qr_queue r)) < event_capacity")
    case True
    then show ?thesis using event_push_room [OF v True, of e] \<open>queue_inv r\<close> Q_Push by (auto simp: queue_inv_def)
  next
    case False
    have "queue_valid (qr_queue r\<lparr>q_overflow := True\<rparr>) \<and>
        queue_events (qr_queue r\<lparr>q_overflow := True\<rparr>) = queue_events (qr_queue r)"
      using v by (simp add: queue_valid_def queue_events_def)
    then show ?thesis using event_push_full [OF v False, of e] \<open>queue_inv r\<close> Q_Push by (simp add: queue_inv_def)
  qed
next
  case Q_Pop
  assume r: "queue_inv r"
  then have v: "queue_valid (qr_queue r)" by (simp add: queue_inv_def)
  show ?thesis
  proof (cases "event_pop (qr_queue r)")
    case None
    then show ?thesis using r Q_Pop by simp
  next
    case (Some x)
    obtain e q where x: "x = (e, q)" by fastforce
    then show ?thesis using event_pop_some [OF v, of e q] Some r Q_Pop by (auto simp: queue_inv_def)
  qed
qed

interpretation queue_runs: invariant_system queue_step queue_inv
  by unfold_locales (rule queue_inv_step)

text \<open>The queue between the WSS thread and the actor is a FIFO in every interleaving: the events
  popped are, in order and without loss or repetition, the first of those accepted, the rest is still
  queued, at most 64 of them; an event is refused only with 64 queued, and this is always visible as overflow.\<close>

theorem event_queue_fifo:
  "let r = fold queue_step ops \<lparr>qr_queue = empty_queue, qr_accepted = [], qr_popped = [], qr_refused = False\<rparr> in
   qr_accepted r = qr_popped r @ queue_events (qr_queue r) \<and> length (queue_events (qr_queue r)) \<le> 64 \<and>
   qr_refused r = q_overflow (qr_queue r) \<and>
   (fst (event_push e (qr_queue r)) \<longleftrightarrow> length (queue_events (qr_queue r)) < 64)"
proof -
  define r where "r = fold queue_step ops \<lparr>qr_queue = empty_queue, qr_accepted = [], qr_popped = [], qr_refused = False\<rparr>"
  have inv: "queue_inv r" unfolding r_def by (rule queue_runs.inv_fold) (simp add: queue_inv_def)
  then have v: "queue_valid (qr_queue r)" by (simp add: queue_inv_def)
  have "fst (event_push e (qr_queue r)) \<longleftrightarrow> length (queue_events (qr_queue r)) < event_capacity"
    using event_push_room [OF v, of e] event_push_full [OF v, of e] by fastforce
  then show ?thesis using inv eq.bounded [OF v]
    unfolding r_def [symmetric] Let_def by (simp add: queue_inv_def event_capacity_def)
qed

end
