(* ===== verification/ClientRuns.thy ===== *)
theory ClientRuns
  imports ClientLoop
begin

section \<open>What holds in every run of the client\<close>

text \<open>
  The rule by which a property of the client is carried through its loop: it has to survive each operation of
  the actor and each step of another thread, alone. What survives these holds as long as the loop goes on
  (\<open>client_steps\<close>); what also survives the failure of \<^verbatim>\<open>Run\<close> holds of every run
  (\<open>client_invariant\<close>). Every invariant of the client is an interpretation of one of the two.
\<close>

definition client_of :: "loop_result \<Rightarrow> client" where
  "client_of r = (case r of Going c \<Rightarrow> c | Failed c \<Rightarrow> c)"

lemma client_of_simps [simp]: "client_of (Going c) = c" "client_of (Failed c) = c"
  by (simp_all add: client_of_def)

definition pass_threads :: "pass_input \<Rightarrow> thread_event list" where
  "pass_threads i = concat (map ph_threads ([in_connect i, in_capture i, in_finish i] @ in_drain i @
     [in_ui i, in_overflow i, in_deadline i, in_frame i]))"

text \<open>Every step of the audio threads is one the engine takes.\<close>

definition real_audio :: "thread_event \<Rightarrow> bool" where
  "real_audio th \<longleftrightarrow> (case th of Th_Audio e \<Rightarrow> False | _ \<Rightarrow> True)"

locale client_steps =
  fixes p :: json_parser
    and allowed :: "thread_event \<Rightarrow> bool"
    and inv :: "client \<Rightarrow> bool"
  assumes inv_thread: "allowed th \<Longrightarrow> inv c \<Longrightarrow> inv (thread_step p th c)"
    and inv_answers: "inv c \<Longrightarrow> inv (c\<lparr>c_now := now, c_sends := ss, c_handshakes := hs\<rparr>)"
    and inv_connect: "inv c \<Longrightarrow> c_transport c = None \<Longrightarrow> inv (start_connect decode uri_ok thread_ok no_throw c)"
    and inv_capture: "inv c \<Longrightarrow> capture_take k_actor_poll_interval (c_audio c) = (r, e) \<Longrightarrow> inv (c\<lparr>c_audio := e\<rparr>)"
    and inv_hello: "inv c \<Longrightarrow> inv (finish_connect c)"
    and inv_event: "inv c \<Longrightarrow> c_transport c = Some t \<Longrightarrow> event_pop (c_events c) = Some (ev, q) \<Longrightarrow>
      inv (handle_event ev (c\<lparr>c_events := q\<rparr>))"
    and inv_ui: "inv c \<Longrightarrow> inv (poll_ui volume action c)"
    and inv_lose: "inv c \<Longrightarrow> inv (lose_connection c)"
    and inv_deadline: "inv c \<Longrightarrow> inv (snd (advance_deadlines c))"
    and inv_skip: "inv c \<Longrightarrow> advance_deadlines c = (False, d) \<Longrightarrow>
      inv (d\<lparr>c_next_capture_sequence := cf_sequence f + 1, c_taken := c_taken d @ [f]\<rparr>)"
    and inv_frame: "inv c \<Longrightarrow> inv (on_frame f c)"
begin

lemma inv_enter: "list_all allowed (ph_threads ph) \<Longrightarrow> inv c \<Longrightarrow> inv (enter p ph c)"
proof -
  have "list_all allowed ths \<Longrightarrow> inv c \<Longrightarrow> inv (fold (thread_step p) ths c)" for ths
    by (induction ths arbitrary: c) (auto intro: inv_thread)
  then show "list_all allowed (ph_threads ph) \<Longrightarrow> inv c \<Longrightarrow> ?thesis" by (simp add: enter_def inv_answers)
qed

lemma inv_drain: "list_all (\<lambda>ph. list_all allowed (ph_threads ph)) phs \<Longrightarrow> inv c \<Longrightarrow> inv (drain_events p phs c)"
proof (induction phs arbitrary: c)
  case (Cons ph phs)
  define c0 where "c0 = enter p ph c"
  have c0: "inv c0" using inv_enter Cons.prems by (simp add: c0_def)
  show ?case
  proof (cases "c_transport c0 = None \<or> c_listener_failed c0 \<or> event_pop (c_events c0) = None")
    case True
    then show ?thesis using c0 by (auto simp: Let_def c0_def [symmetric])
  next
    case False
    then obtain t e q where t: "c_transport c0 = Some t" "event_pop (c_events c0) = Some (e, q)" by auto
    have "inv (handle_event e (c0\<lparr>c_events := q\<rparr>))" by (rule inv_event [OF c0 t])
    then show ?thesis using Cons t False by (simp add: Let_def c0_def [symmetric])
  qed
qed simp

text \<open>A pass either goes on, or stops at a client \<open>d\<close> that still has the property.\<close>

lemma pass_cases:
  assumes "list_all allowed (pass_threads i)" and "inv c"
  shows "(\<exists>d. inv d \<and> run_pass p i c = Going d) \<or> (\<exists>d. inv d \<and> run_pass p i c = client_fail d)"
proof -
  have th: "list_all allowed (ph_threads (in_connect i))" "list_all allowed (ph_threads (in_capture i))"
    "list_all allowed (ph_threads (in_finish i))" "list_all allowed (ph_threads (in_ui i))"
    "list_all allowed (ph_threads (in_overflow i))" "list_all allowed (ph_threads (in_deadline i))"
    "list_all allowed (ph_threads (in_frame i))"
    "list_all (\<lambda>ph. list_all allowed (ph_threads ph)) (take k_events_per_capture_frame (in_drain i))"
    using assms(1) by (auto simp: pass_threads_def list_all_iff dest: in_set_takeD)
  have c1: "inv (connect_phase p i c)"
    using inv_enter [OF th(1) assms(2)] by (simp add: connect_phase_def Let_def inv_connect)
  obtain r c2 where c2: "capture_phase p i (connect_phase p i c) = (r, c2)" by fastforce
  have "inv c2"
    using inv_enter [OF th(2) c1] inv_capture c2 by (auto simp: capture_phase_def Let_def split: prod.splits)
  then have c3: "inv (input_phase p i c2)"
    unfolding input_phase_def Let_def by (intro inv_ui inv_enter inv_drain inv_hello th)
  then have c4: "inv (overflow_phase p i (input_phase p i c2))"
    using inv_enter [OF th(5) c3] by (simp add: overflow_phase_def Let_def inv_lose)
  obtain cur c5 where c5: "deadline_phase p i (overflow_phase p i (input_phase p i c2)) = (cur, c5)" by fastforce
  have i5: "inv c5"
    using inv_deadline [OF inv_enter [OF th(6) c4]] c5 by (simp add: deadline_phase_def)
  have skip: "\<not> cur \<Longrightarrow> inv (c5\<lparr>c_next_capture_sequence := cf_sequence f + 1, c_taken := c_taken c5 @ [f]\<rparr>)" for f
    using inv_skip [OF inv_enter [OF th(6) c4], of c5 f] c5 by (simp add: deadline_phase_def)
  have c6: "inv (frame_phase p i f c5)" for f
    using inv_frame [OF inv_enter [OF th(7) i5]] by (simp add: frame_phase_def)
  show ?thesis
    unfolding run_pass_def Let_def c2 prod.case c5
    using c1 c3 c4 i5 c6 skip by (auto split: capture_result.split)
qed

lemma loop_going: "list_all (\<lambda>i. list_all allowed (pass_threads i)) is \<Longrightarrow> inv c \<Longrightarrow> run_loop p is c = Going d \<Longrightarrow> inv d"
proof (induction "is" arbitrary: c)
  case (Cons i "is")
  then show ?case using pass_cases [of i c] by (auto simp: client_fail_def split: loop_result.splits)
qed simp

lemma run_going:
  assumes "list_all (\<lambda>i. list_all allowed (pass_threads i)) is"
    and "\<And>c. client_start cfg s backend_ok threads_ok network_ok origin now = Going c \<Longrightarrow> inv c"
    and "run_client p cfg s backend_ok threads_ok network_ok origin now is = Going d"
  shows "inv d"
  using assms loop_going by (auto simp: run_client_def split: loop_result.splits)

end

locale client_invariant = client_steps +
  assumes inv_fail: "inv c \<Longrightarrow> inv ((ui_call (Call_State Ui_Error) c)\<lparr>c_error := why\<rparr>)"
begin

lemma inv_pass:
  assumes "list_all allowed (pass_threads i)" and "inv c"
  shows "inv (client_of (run_pass p i c))"
proof -
  have "inv d \<Longrightarrow> inv (client_of (client_fail d))" for d
    using inv_fail [of d] by (simp add: client_fail_def)
  then show ?thesis using pass_cases [OF assms] by fastforce
qed

lemma inv_loop: "list_all (\<lambda>i. list_all allowed (pass_threads i)) is \<Longrightarrow> inv c \<Longrightarrow> inv (client_of (run_loop p is c))"
proof (induction "is" arbitrary: c)
  case (Cons i "is")
  then show ?case using inv_pass [of i c] by (cases "run_pass p i c") auto
qed simp

lemma inv_run:
  assumes "list_all (\<lambda>i. list_all allowed (pass_threads i)) is"
    and "inv (client_of (client_start cfg s backend_ok threads_ok network_ok origin now))"
  shows "inv (client_of (run_client p cfg s backend_ok threads_ok network_ok origin now is))"
  using assms inv_loop by (auto simp: run_client_def split: loop_result.split)

end

end
