(* ===== verification/ClientInv.thy ===== *)
theory ClientInv
  imports ClientLoop
begin

section \<open>Invariants of every run of the client\<close>

text \<open>
  \<open>shape\<close> bounds the fixed buffers and counters, \<open>proto\<close> ties the actor's idea of the conversation to
  the state of the transport it talks to. Both hold after any number of passes, whatever the other
  threads and the environment do.
\<close>

subsection \<open>Bounds\<close>

text \<open>\<open>buffers\<close> leaves the barge-in probe aside; \<open>probe_ok\<close> bounds its counters, state by state.\<close>

definition buffers :: "client \<Rightarrow> bool" where
  "buffers c \<longleftrightarrow> length (c_pre c) = k_barge_buffer_frames \<and> c_pre_head c < k_barge_buffer_frames \<and>
     c_pre_count c \<le> k_barge_buffer_frames \<and> c_reconnect_attempt c \<le> 5 \<and>
     c_barge_cooldown_frames c \<le> k_barge_retry_cooldown_frames \<and>
     c_barge_silence_frames c \<le> k_barge_tail_freeze_frames \<and> c_volume c \<le> 100 \<and>
     length (c_subtitle c) \<le> 126 \<and> queue_valid (c_events c)"

definition probe_ok :: "barge_probe \<Rightarrow> nat \<Rightarrow> nat \<Rightarrow> bool" where
  "probe_ok b n q \<longleftrightarrow> (case b of Probe_Idle \<Rightarrow> n < k_barge_candidate_frames
     | Probe_WaitReferenceLow \<Rightarrow> n \<le> k_barge_reference_wait_frames \<and> q < k_barge_reference_low_frames
     | Probe_Clear \<Rightarrow> n < k_barge_echo_clear_frames | Probe_Verify \<Rightarrow> n < k_barge_confirm_frames)"

definition shape :: "client \<Rightarrow> bool" where
  "shape c \<longleftrightarrow> buffers c \<and> probe_ok (c_barge_probe c) (c_barge_probe_frames c) (c_barge_quiet_frames c)"

lemma shape_frame [simp]:
  "shape (c\<lparr>c_endpoint := x1\<rparr>) = shape c" "shape (c\<lparr>c_error := x2\<rparr>) = shape c" "shape (c\<lparr>c_audio := x3\<rparr>) = shape c"
  "shape (c\<lparr>c_ui := x4\<rparr>) = shape c" "shape (c\<lparr>c_settings := x5\<rparr>) = shape c" "shape (c\<lparr>c_transport := x6\<rparr>) = shape c"
  "shape (c\<lparr>c_wire := x7\<rparr>) = shape c" "shape (c\<lparr>c_endpoint_ready := x8\<rparr>) = shape c"
  "shape (c\<lparr>c_network_needed := x9\<rparr>) = shape c" "shape (c\<lparr>c_turn_ids := x10\<rparr>) = shape c"
  "shape (c\<lparr>c_response_ids := x11\<rparr>) = shape c" "shape (c\<lparr>c_state := x12\<rparr>) = shape c"
  "shape (c\<lparr>c_state_deadline := x13\<rparr>) = shape c" "shape (c\<lparr>c_next_connect := x14\<rparr>) = shape c"
  "shape (c\<lparr>c_heartbeat_deadline := x15\<rparr>) = shape c" "shape (c\<lparr>c_await_hint_at := x16\<rparr>) = shape c"
  "shape (c\<lparr>c_audio_origin_us := x17\<rparr>) = shape c" "shape (c\<lparr>c_next_capture_sequence := x18\<rparr>) = shape c"
  "shape (c\<lparr>c_message := x19\<rparr>) = shape c" "shape (c\<lparr>c_uplink_sequence := x20\<rparr>) = shape c"
  "shape (c\<lparr>c_follow_up_near_frames := x21\<rparr>) = shape c" "shape (c\<lparr>c_brightness := x22\<rparr>) = shape c"
  "shape (c\<lparr>c_await_hint_pending := x23\<rparr>) = shape c" "shape (c\<lparr>c_await_hint_visible := x24\<rparr>) = shape c"
  "shape (c\<lparr>c_hello_sent := x25\<rparr>) = shape c" "shape (c\<lparr>c_barge_ended := x26\<rparr>) = shape c"
  "shape (c\<lparr>c_barge_turn_admitted := x27\<rparr>) = shape c" "shape (c\<lparr>c_barge_buffer_overflow := x28\<rparr>) = shape c"
  "shape (c\<lparr>c_manual_wake_pending := x29\<rparr>) = shape c" "shape (c\<lparr>c_finish_after_cancel_ack := x30\<rparr>) = shape c"
  "shape (c\<lparr>c_listener_failed := x31\<rparr>) = shape c" "shape (c\<lparr>c_now := x32\<rparr>) = shape c"
  "shape (c\<lparr>c_sends := x33\<rparr>) = shape c" "shape (c\<lparr>c_handshakes := x34\<rparr>) = shape c"
  "shape (c\<lparr>c_playback_pc := x35\<rparr>) = shape c" "shape (c\<lparr>c_accepted := x36\<rparr>) = shape c"
  "shape (c\<lparr>c_rendered := x37\<rparr>) = shape c" "shape (c\<lparr>c_taken := x38\<rparr>) = shape c"
  by (simp_all add: shape_def buffers_def)

text \<open>Fields the calls on the parts leave alone.\<close>

lemma take_handshake_form: "\<exists>h hs. take_handshake c = (h, c\<lparr>c_handshakes := hs\<rparr>)"
proof (cases "c_handshakes c")
  case Nil
  then have "take_handshake c = (Hs_Timeout, c\<lparr>c_handshakes := c_handshakes c\<rparr>)" by (simp add: take_handshake_def)
  then show ?thesis by blast
qed (auto simp: take_handshake_def)

lemma reset_listener_form: "\<exists>hs e b. reset_listener c = c\<lparr>c_handshakes := hs, c_audio := e, c_listener_failed := b\<rparr>"
proof -
  have "\<exists>hs e. snd (audio_command k c) = c\<lparr>c_handshakes := hs, c_audio := e\<rparr>" for k
    using take_handshake_form [of c] by (auto simp: audio_command_def split: prod.splits) blast
  then obtain hs e where a: "snd (audio_command Cmd_ResetListener c) = c\<lparr>c_handshakes := hs, c_audio := e\<rparr>" by blast
  show ?thesis
  proof (cases "\<not> e_open (c_audio c) \<or> e_stop (c_audio c)")
    case True
    have "c = c\<lparr>c_handshakes := c_handshakes c, c_audio := c_audio c\<rparr>" by simp
    then have "reset_listener c = c\<lparr>c_handshakes := c_handshakes c, c_audio := c_audio c, c_listener_failed := True\<rparr>"
      using True by (simp add: reset_listener_def)
    then show ?thesis by blast
  next
    case False
    obtain ok c1 where c1: "audio_command Cmd_ResetListener c = (ok, c1)" by fastforce
    have c1': "c1 = c\<lparr>c_handshakes := hs, c_audio := e\<rparr>" using a c1 by simp
    have "reset_listener c = c\<lparr>c_handshakes := hs, c_audio := e,
        c_listener_failed := (if ok then c_listener_failed c else True)\<rparr>"
      using False c1 by (cases ok) (simp_all add: reset_listener_def c1')
    then show ?thesis by blast
  qed
qed

lemma audio_begin_form: "\<exists>hs e a r. snd (audio_begin c) = c\<lparr>c_handshakes := hs, c_audio := e, c_accepted := a, c_rendered := r\<rparr>"
proof (cases "\<not> e_open (c_audio c) \<or> e_active (c_audio c)")
  case True
  then have "snd (audio_begin c) = c\<lparr>c_handshakes := c_handshakes c, c_audio := c_audio c, c_accepted := c_accepted c,
      c_rendered := c_rendered c\<rparr>"
    by (simp add: audio_begin_def)
  then show ?thesis by blast
next
  case False
  obtain ok c1 where c1: "audio_command Cmd_PreparePlayback c = (ok, c1)" by fastforce
  then obtain hs e1 where f: "c1 = c\<lparr>c_handshakes := hs, c_audio := e1\<rparr>"
    using take_handshake_form [of c] by (auto simp: audio_command_def split: prod.splits)
  obtain b e where b: "begin_playback ok e1 = (b, e)" by fastforce
  have "snd (audio_begin c) = c\<lparr>c_handshakes := hs, c_audio := e,
      c_accepted := (if b then [] else c_accepted c), c_rendered := (if b then [] else c_rendered c)\<rparr>"
    using False c1 b by (cases b) (simp_all add: audio_begin_def f)
  then show ?thesis by blast
qed

lemma reset_listener_fields [simp]:
  "c_now (reset_listener c) = c_now c" "c_state (reset_listener c) = c_state c"
  "c_turn_ids (reset_listener c) = c_turn_ids c" "c_transport (reset_listener c) = c_transport c"
  "c_wire (reset_listener c) = c_wire c" "c_events (reset_listener c) = c_events c"
  "c_reconnect_attempt (reset_listener c) = c_reconnect_attempt c" "c_ui (reset_listener c) = c_ui c"
  "c_response_ids (reset_listener c) = c_response_ids c" "c_pre_count (reset_listener c) = c_pre_count c"
  "c_pre (reset_listener c) = c_pre c" "c_pre_head (reset_listener c) = c_pre_head c"
  "c_subtitle (reset_listener c) = c_subtitle c" "c_uplink_sequence (reset_listener c) = c_uplink_sequence c"
  "c_state_deadline (reset_listener c) = c_state_deadline c" "c_next_connect (reset_listener c) = c_next_connect c"
  "c_heartbeat_deadline (reset_listener c) = c_heartbeat_deadline c"
  "c_barge_turn_admitted (reset_listener c) = c_barge_turn_admitted c"
  "c_barge_probe (reset_listener c) = c_barge_probe c"
  using reset_listener_form [of c] by auto

lemma shape_reset_listener [simp]: "shape (reset_listener c) = shape c"
  using reset_listener_form [of c] by auto

lemma next_send_form: "\<exists>env ss. next_send c = (env, c\<lparr>c_sends := ss\<rparr>)"
proof (cases "c_sends c")
  case Nil
  then have "next_send c = (\<lparr>buffered = None, send_error = True\<rparr>, c\<lparr>c_sends := c_sends c\<rparr>)" by (simp add: next_send_def)
  then show ?thesis by blast
qed (auto simp: next_send_def)

lemma client_send_form:
  "client_send k ids c = (ok, c') \<Longrightarrow>
   \<exists>ss t w. c' = c\<lparr>c_message := c_message c + 1, c_sends := ss, c_transport := t, c_wire := w\<rparr>"
proof -
  assume a: "client_send k ids c = (ok, c')"
  show ?thesis
  proof (cases "c_transport c")
    case None
    then have "c' = c\<lparr>c_message := c_message c + 1, c_sends := c_sends c, c_transport := None, c_wire := c_wire c\<rparr>"
      using a by (auto simp: client_send_def Let_def)
    then show ?thesis by blast
  next
    case (Some t)
    define c0 where "c0 = c\<lparr>c_message := c_message c + 1\<rparr>"
    obtain env ss where n: "next_send c0 = (env, c0\<lparr>c_sends := ss\<rparr>)" using next_send_form by blast
    obtain ok' t' os where s: "send_control env (make_control k ids c) t = (ok', t', os)" by (cases "send_control env (make_control k ids c) t") auto
    show ?thesis using a Some n s by (auto simp: client_send_def Let_def c0_def)
  qed
qed

lemma shape_client_send: "client_send k ids c = (ok, c') \<Longrightarrow> shape c' = shape c"
  using client_send_form [of k ids c ok c'] by auto

subsection \<open>Every operation keeps the bounds\<close>

lemma shape_simple [simp]:
  "shape (ui_call u c) = shape c" "shape (on_audio f c) = shape c"
  "shape (save_ui_settings c) = shape c"
  by (simp_all add: ui_call_def on_audio_def save_ui_settings_def)

lemma shape_close_wire [simp]: "shape (close_wire c) = shape c"
  by (simp add: close_wire_def split: option.splits prod.splits)

lemma shape_subtitle [inv_intros]:
  "shape c \<Longrightarrow> shape (clear_subtitle c)" "shape c \<Longrightarrow> shape (show_text s c)"
  using append_subtitle_length [of "c_subtitle c" s]
  by (simp_all add: clear_subtitle_def show_text_def Let_def shape_def buffers_def ui_call_def split: prod.splits)

lemma shape_hint [inv_intros]: "shape c \<Longrightarrow> shape (mark_first_response_progress c)"
  by (simp add: mark_first_response_progress_def Let_def shape_subtitle)

lemma buffers_reset: "buffers c \<Longrightarrow> shape (reset_barge_probe c)" "buffers c \<Longrightarrow> shape (reject_barge_probe c)"
  by (simp_all add: reset_barge_probe_def reset_barge_turn_def reject_barge_probe_def on_audio_def shape_def
      buffers_def probe_ok_def frame_consts)

lemma shape_buffers: "shape c \<Longrightarrow> buffers c"
  by (simp add: shape_def)

lemma shape_barge [inv_intros]:
  "shape c \<Longrightarrow> shape (reset_barge_probe c)" "shape c \<Longrightarrow> shape (reset_barge_turn c)"
  "shape c \<Longrightarrow> shape (reject_barge_probe c)"
  by (simp_all add: buffers_reset shape_buffers)
    (auto simp: reset_barge_turn_def shape_def buffers_def probe_ok_def frame_consts split: barge_probe.splits)

lemma shape_pre_reset [inv_intros]: "shape c \<Longrightarrow> shape (c\<lparr>c_pre_head := 0, c_pre_count := 0\<rparr>)"
  "shape c \<Longrightarrow> shape (c\<lparr>c_pre_count := 0\<rparr>)"
  by (simp_all add: shape_def buffers_def frame_consts)

lemma shape_lose_connection [inv_intros]:
  assumes "shape c"
  shows "shape (lose_connection c)"
proof -
  have queue: "shape (c1\<lparr>c_events := event_clear (c_events c1)\<rparr>)" if "shape c1" for c1
    using that by (simp add: shape_def buffers_def)
  have pre: "shape (c1\<lparr>c_state := s, c_turn_ids := i, c_response_ids := r, c_pre_head := 0, c_pre_count := 0\<rparr>)"
    if "shape c1" for c1 s i r
    using that by (simp add: shape_def buffers_def frame_consts)
  have retry: "shape (c1\<lparr>c_reconnect_attempt := (if c_reconnect_attempt c1 < 5 then c_reconnect_attempt c1 + 1 else c_reconnect_attempt c1),
      c_next_connect := n, c_network_needed := b\<rparr>)" if "shape c1" for c1 n b
    using that by (simp add: shape_def buffers_def)
  show ?thesis
    unfolding lose_connection_def Let_def
    by (rule retry) (simp add: pre queue shape_barge shape_subtitle assms)
qed

lemma shape_abort [inv_intros]: "shape c \<Longrightarrow> shape (abort_current c)"
  unfolding abort_current_def Let_def
  by (split prod.split, intro allI impI, drule shape_client_send)
    (auto simp: shape_barge shape_lose_connection split: bool.splits)

lemma shape_advance [simp]: "shape (advance_turn c) = shape c"
  by (simp add: advance_turn_def)

lemma shape_finish_turn [inv_intros]: "shape c \<Longrightarrow> shape (finish_turn n c)"
  by (simp add: finish_turn_def Let_def shape_barge shape_subtitle)

lemma send_audio_form:
  "send_audio f b c = (out, c') \<Longrightarrow>
   \<exists>ss t w n. c' = c\<lparr>c_sends := ss, c_transport := t, c_wire := w, c_uplink_sequence := n\<rparr>"
proof -
  assume a: "send_audio f b c = (out, c')"
  show ?thesis
  proof (cases "c_transport c")
    case None
    then have "c' = c\<lparr>c_sends := c_sends c, c_transport := None, c_wire := c_wire c, c_uplink_sequence := c_uplink_sequence c\<rparr>"
      using a by (auto simp: send_audio_def)
    then show ?thesis by blast
  next
    case (Some t)
    obtain env ss where n: "next_send c = (env, c\<lparr>c_sends := ss\<rparr>)" using next_send_form by blast
    obtain o' t' os where s: "send_pcm env (audio_header f b (c\<lparr>c_sends := ss\<rparr>)) (sample_bytes (cf_pcm f)) t = (o', t', os)"
      using prod_cases3 by blast
    have "c' = (c\<lparr>c_sends := ss\<rparr>)\<lparr>c_transport := Some t', c_wire := c_wire c @ os,
        c_uplink_sequence := (if o' = Send_Ok then c_uplink_sequence c + 1 else c_uplink_sequence c)\<rparr>"
      using a by (auto simp: send_audio_def Some n s)
    then have "c' = c\<lparr>c_sends := ss, c_transport := Some t', c_wire := c_wire c @ os,
        c_uplink_sequence := (if o' = Send_Ok then c_uplink_sequence c + 1 else c_uplink_sequence c)\<rparr>" by simp
    then show ?thesis by blast
  qed
qed

lemma shape_send_audio: "send_audio f b c = (out, c') \<Longrightarrow> shape c' = shape c"
  using send_audio_form [of f b c out c'] by auto

lemma shape_send_recover: "shape c \<Longrightarrow> send_audio_or_recover f b c = (ok, c') \<Longrightarrow> shape c'"
  unfolding send_audio_or_recover_def
  by (cases "send_audio f b c") (auto simp: shape_send_audio shape_abort shape_lose_connection split: send_outcome.splits)

lemma shape_wait [simp]: "shape (wait_for_response c) = shape c"
  by (simp add: wait_for_response_def)

lemma shape_commit_sent: "shape c \<Longrightarrow> shape (snd (send_commit c))"
  unfolding send_commit_def
  by (cases "client_send Ctl_TurnCommit (c_turn_ids c) c")
    (auto simp: shape_client_send shape_lose_connection split: bool.splits)

lemma shape_upload: "shape c \<Longrightarrow> upload b fs c = (ok, c') \<Longrightarrow> shape c'"
proof (induction fs arbitrary: c)
  case (Cons f fs)
  obtain ok1 c1 where s: "send_audio_or_recover f (b \<and> fs = []) c = (ok1, c1)" by fastforce
  then have "shape c1" by (rule shape_send_recover [OF Cons.prems(1)])
  then show ?case using Cons s by (cases ok1) auto
qed simp

lemma shape_start_turn [inv_intros]:
  assumes "shape c"
  shows "shape (snd (start_turn b c))"
proof -
  obtain ok c1 where c1: "client_send Ctl_TurnStart (c_turn_ids c) c = (ok, c1)" by fastforce
  have s1: "shape c1" using shape_client_send [OF c1] assms by simp
  define c2 where "c2 = ui_call (Call_State Ui_Listening) (c1\<lparr>c_uplink_sequence := 0, c_state := St_CapturingSpeech,
                     c_state_deadline := c_now c1 + k_maximum_turn_wait\<rparr>)"
  have s2: "shape c2" using s1 by (simp add: c2_def)
  obtain ok3 c3 where c3: "upload b (pre_roll c2) c2 = (ok3, c3)" by fastforce
  have s3: "shape c3" by (rule shape_upload [OF s2 c3])
  then have "shape (snd (send_commit (c3\<lparr>c_pre_head := 0, c_pre_count := 0\<rparr>)))"
    by (intro shape_commit_sent shape_pre_reset)
  moreover have "shape (lose_connection c)" "shape (lose_connection c1)" "shape (lose_connection c2)"
    "shape (c3\<lparr>c_pre_head := 0, c_pre_count := 0\<rparr>)"
    using assms s1 s2 s3 by (simp_all add: shape_lose_connection shape_pre_reset)
  ultimately show ?thesis using s3
    by (simp add: start_turn_def c1 Let_def c2_def [symmetric] c3 split: bool.split)
qed

lemma shape_commit [inv_intros]: "shape c \<Longrightarrow> shape (commit f c)"
  unfolding commit_def
  by (cases "send_audio_or_recover f True c") (auto simp: shape_commit_sent dest: shape_send_recover split: bool.splits)

lemma shape_cancel [inv_intros]: "shape c \<Longrightarrow> shape (complete_cancel c)"
  by (simp add: complete_cancel_def resume_after_barge_def Let_def shape_finish_turn shape_start_turn shape_pre_reset)

lemma shape_begin_listening [simp]: "shape (begin_listening c) = shape c"
  by (simp add: begin_listening_def)

lemma buffers_confirm: "buffers c \<Longrightarrow> shape (confirm_barge c)"
proof -
  assume b: "buffers c"
  define c1 where "c1 = (clear_subtitle (reset_barge_probe (on_audio drop_playback c)))\<lparr>c_barge_turn_admitted := True,
                 c_barge_ended := False, c_barge_silence_frames := 0, c_barge_buffer_overflow := False,
                 c_finish_after_cancel_ack := False\<rparr>"
  have quiet: "shape (d\<lparr>c_barge_turn_admitted := x1, c_barge_ended := x2, c_barge_silence_frames := 0,
      c_barge_buffer_overflow := x3, c_finish_after_cancel_ack := x4\<rparr>)" if "shape d" for d x1 x2 x3 x4
    using that by (simp add: shape_def buffers_def)
  have "buffers (on_audio drop_playback c)" using b by (simp add: buffers_def on_audio_def)
  then have s1: "shape c1" unfolding c1_def by (intro quiet shape_subtitle buffers_reset)
  obtain ok c2 where c2: "client_send Ctl_ResponseCancel (c_response_ids c1) c1 = (ok, c2)" by fastforce
  show ?thesis
    using shape_client_send [OF c2] s1
    by (simp add: confirm_barge_def c1_def [symmetric] Let_def c2 shape_lose_connection split: bool.split)
qed

lemma shape_candidate:
  assumes "buffers c"
  shows "shape (reset_barge_turn (keep_newest_pre_roll n (c\<lparr>c_barge_probe_frames := m\<rparr>))
    \<lparr>c_barge_probe_frames := 0, c_barge_probe := Probe_WaitReferenceLow\<rparr>)"
  using assms
  by (simp add: shape_def buffers_def probe_ok_def reset_barge_turn_def keep_newest_pre_roll_def Let_def frame_consts
      min.coboundedI2)

lemma buffers_probe [simp]:
  "buffers (c\<lparr>c_barge_probe_frames := n\<rparr>) = buffers c" "buffers (c\<lparr>c_barge_quiet_frames := q\<rparr>) = buffers c"
  "buffers (c\<lparr>c_barge_probe := b\<rparr>) = buffers c"
  by (simp_all add: buffers_def)

lemma shape_handle_barge [inv_intros]:
  assumes "shape c"
  shows "shape (handle_barge f c)"
proof -
  have b: "buffers c" and p: "probe_ok (c_barge_probe c) (c_barge_probe_frames c) (c_barge_quiet_frames c)"
    using assms by (simp_all add: shape_def)
  note buf = buffers_reset buffers_confirm shape_candidate
  have cool: "buffers (c\<lparr>c_barge_cooldown_frames := c_barge_cooldown_frames c - 1\<rparr>)"
    using b by (auto simp: buffers_def)
  consider "\<not> barge_in_enabled (c_config c)" | "barge_in_enabled (c_config c)" "c_barge_probe c = Probe_Idle"
    | "barge_in_enabled (c_config c)" "c_barge_probe c = Probe_WaitReferenceLow"
    | "barge_in_enabled (c_config c)" "c_barge_probe c = Probe_Clear"
    | "barge_in_enabled (c_config c)" "c_barge_probe c = Probe_Verify"
    by (cases "c_barge_probe c") auto
  then show ?thesis
  proof cases
    case 1
    then show ?thesis using b by (simp add: handle_barge_def buf)
  next
    case 2
    then show ?thesis using b p cool
      by (simp add: handle_barge_def Let_def buf) (auto simp: shape_def probe_ok_def frame_consts)
  next
    case 3
    then show ?thesis using b p
      by (simp add: handle_barge_def Let_def buf) (auto simp: shape_def probe_ok_def frame_consts)
  next
    case 4
    then show ?thesis using b p
      by (simp add: handle_barge_def Let_def buf) (auto simp: shape_def probe_ok_def frame_consts)
  next
    case 5
    then show ?thesis using b p
      by (simp add: handle_barge_def Let_def buf) (auto simp: shape_def probe_ok_def frame_consts)
  qed
qed

lemma shape_save [inv_intros]: "shape c \<Longrightarrow> shape (save_pre_roll f c)"
  by (auto simp: save_pre_roll_def Let_def shape_def buffers_def frame_consts)

lemma shape_track [inv_intros]: "shape c \<Longrightarrow> shape (track_barge_utterance f c)"
  by (auto simp: track_barge_utterance_def Let_def shape_def buffers_def frame_consts)

lemma shape_gap [inv_intros]: "shape c \<Longrightarrow> shape (on_gap c)"
  by (simp add: on_gap_def Let_def shape_barge shape_abort shape_pre_reset)

lemma shape_frame_state [inv_intros]: "shape c \<Longrightarrow> shape (frame_in_state f c)"
  by (cases "c_state c")
    (auto simp: frame_in_state_def Let_def shape_start_turn shape_commit shape_handle_barge shape_track
      intro: shape_send_recover [OF _ prod.collapse [symmetric]])

lemma shape_store: "shape c \<Longrightarrow> shape (store_frame f (thaw_barge f c))"
proof -
  assume "shape c"
  then have "shape (thaw_barge f c)" by (simp add: thaw_barge_def shape_def buffers_def)
  then show ?thesis by (simp add: store_frame_def Let_def shape_save)
qed

lemma shape_on_frame [inv_intros]: "shape c \<Longrightarrow> shape (on_frame f c)"
  by (simp add: on_frame_def Let_def shape_gap shape_frame_state shape_store)

lemma shape_volume [inv_intros]: "shape c \<Longrightarrow> shape (apply_volume v b c)"
  by (simp add: apply_volume_def Let_def) (simp add: shape_def buffers_def)

lemma shape_poll_ui [inv_intros]: "shape c \<Longrightarrow> shape (poll_ui v a c)"
  by (simp add: poll_ui_def Let_def shape_volume shape_abort shape_subtitle split: option.splits device_ui_action.splits prod.splits)

lemma shape_deadlines [inv_intros]: "shape c \<Longrightarrow> shape (snd (advance_deadlines c))"
  by (simp add: advance_deadlines_def shape_lose_connection shape_finish_turn shape_abort shape_pre_reset)

lemma shape_handle_event [inv_intros]:
  assumes "shape c"
  shows "shape (handle_event e c)"
proof -
  have ack: "shape (handle_hello_ack e d)" if "shape d" for d
    using that by (simp add: handle_hello_ack_def) (simp add: shape_def buffers_def frame_consts)
  have start: "shape (handle_audio_start d)" if "shape d" for d
  proof -
    obtain ok c1 where c1: "audio_begin (mark_first_response_progress d) = (ok, c1)" by fastforce
    have "shape c1" using audio_begin_form [of "mark_first_response_progress d"] shape_hint [OF that] c1 by auto
    then show ?thesis by (simp add: handle_audio_start_def c1 shape_lose_connection shape_barge split: bool.split)
  qed
  have pcm: "shape (handle_pcm e d)" if "shape d" for d
    using shape_hint [OF that]
    by (simp add: handle_pcm_def audio_queue_def shape_abort split: option.split prod.split bool.split)
  have fin: "shape (handle_done d)" if "shape d" for d
    using shape_hint [OF that]
    by (simp add: handle_done_def Let_def shape_lose_connection split: prod.split bool.split)
  have cancelled: "shape (handle_cancelled d)" if "shape d" for d
    using shape_hint [OF that] by (simp add: handle_cancelled_def Let_def shape_cancel shape_finish_turn)
  have err: "shape (handle_error e d)" if "shape d" for d
    using shape_hint [OF that]
    by (simp add: handle_error_def Let_def shape_cancel shape_finish_turn shape_lose_connection shape_abort)
  show ?thesis using assms
    by (simp add: handle_event_def Let_def err ack start pcm fin cancelled shape_subtitle shape_hint split: inbound_kind.split)
qed

lemma shape_finish_connect [inv_intros]:
  assumes "shape c"
  shows "shape (finish_connect c)"
proof -
  obtain ok c1 where c1: "client_send Ctl_Hello no_ids c = (ok, c1)" by fastforce
  then show ?thesis using assms shape_client_send [OF c1]
    by (simp add: finish_connect_def shape_lose_connection split: option.split bool.split)
qed

lemma shape_start_connect [inv_intros]: "shape c \<Longrightarrow> shape (start_connect d u t n c)"
  by (simp add: start_connect_def Let_def shape_lose_connection split: prod.split bool.split)

lemma shape_push: "shape c \<Longrightarrow> shape (push_event e c)"
proof -
  assume s: "shape c"
  then have v: "queue_valid (c_events c)" by (simp add: shape_def buffers_def)
  have "queue_valid (snd (event_push e (c_events c)))"
  proof (cases "length (queue_events (c_events c)) < event_capacity")
    case True
    then show ?thesis using event_push_room [OF v True, of e] by auto
  next
    case False
    then show ?thesis using event_push_full [OF v False, of e] v by (simp add: queue_valid_def)
  qed
  then show ?thesis using s by (simp add: push_event_def shape_def buffers_def)
qed

lemma shape_thread [inv_intros]: "shape c \<Longrightarrow> shape (thread_step p th c)"
proof -
  assume s: "shape c"
  have one: "shape (on_effect o' d)" if "shape d" for o' d
    using that by (simp add: on_effect_def shape_push split: effect.split)
  have effects: "shape d \<Longrightarrow> shape (fold on_effect os d)" for os d
    by (induction os arbitrary: d) (auto intro: one)
  show ?thesis
    by (cases th) (simp_all add: s wss_step_def effects set_player_def split: option.split prod.split)
qed

lemma shape_enter [inv_intros]: "shape c \<Longrightarrow> shape (enter p ph c)"
proof -
  have "shape c \<Longrightarrow> shape (fold (thread_step p) ths c)" for ths
    by (induction ths arbitrary: c) (auto intro: shape_thread)
  then show "shape c \<Longrightarrow> ?thesis" by (simp add: enter_def)
qed

end
