(* ===== verification/ClientProto.thy ===== *)
theory ClientProto
  imports ClientInv ClientRuns
begin

section \<open>The actor and its transport agree\<close>

text \<open>
  \<open>proto\<close> ties the actor's view of the conversation to the protocol state of the transport: what was
  sent, who owns the current turn, and that the session is acknowledged exactly once.
\<close>

subsection \<open>The invariant\<close>

definition acks :: "inbound list \<Rightarrow> inbound list" where
  "acks es = filter (\<lambda>e. in_kind e = In_HelloAck) es"

text \<open>While speech is captured, the transport is in the same turn, at the same sequence number, not yet ended.\<close>

definition capture_link :: "transport \<Rightarrow> wire_ids \<Rightarrow> u32 \<Rightarrow> bool" where
  "capture_link t ids n \<longleftrightarrow> t_turn t = ids \<and> session ids \<noteq> 0 \<and> \<not> t_committed t \<and> \<not> t_uplink_ended t \<and>
     t_uplink_sequence t = n \<and> n + 1 \<le> k_maximum_turn_frames"

definition wire_ok :: "client \<Rightarrow> bool" where
  "wire_ok c \<longleftrightarrow> (case c_transport c of
     None \<Rightarrow> session (c_turn_ids c) = 0 \<and> acks (queue_events (c_events c)) = []
   | Some t \<Rightarrow> run_inv (t, c_wire c) \<and>
       (session (c_turn_ids c) \<noteq> 0 \<longrightarrow> acks (queue_events (c_events c)) = [] \<and> t_session t \<noteq> 0) \<and>
       (acks (queue_events (c_events c)) \<noteq> [] \<longrightarrow> t_session t \<noteq> 0) \<and>
       length (acks (queue_events (c_events c))) \<le> 1 \<and> t_uplink_sequence t \<le> k_maximum_turn_frames)"

definition link :: "client \<Rightarrow> bool" where
  "link c \<longleftrightarrow> (c_state c = St_CapturingSpeech \<longrightarrow>
     (\<exists>t. c_transport c = Some t \<and> capture_link t (c_turn_ids c) (c_uplink_sequence c)))"

definition proto :: "client \<Rightarrow> bool" where
  "proto c \<longleftrightarrow> wire_ok c \<and> link c"

lemma wire_ok_frame [simp]:
  "wire_ok (c\<lparr>c_endpoint := x0\<rparr>) = wire_ok c" "wire_ok (c\<lparr>c_error := x1\<rparr>) = wire_ok c"
  "wire_ok (c\<lparr>c_audio := x2\<rparr>) = wire_ok c" "wire_ok (c\<lparr>c_ui := x3\<rparr>) = wire_ok c"
  "wire_ok (c\<lparr>c_settings := x4\<rparr>) = wire_ok c" "wire_ok (c\<lparr>c_endpoint_ready := x5\<rparr>) = wire_ok c"
  "wire_ok (c\<lparr>c_network_needed := x6\<rparr>) = wire_ok c" "wire_ok (c\<lparr>c_pre := x7\<rparr>) = wire_ok c"
  "wire_ok (c\<lparr>c_pre_head := x8\<rparr>) = wire_ok c" "wire_ok (c\<lparr>c_pre_count := x9\<rparr>) = wire_ok c"
  "wire_ok (c\<lparr>c_response_ids := x10\<rparr>) = wire_ok c"
  "wire_ok (c\<lparr>c_state_deadline := x11\<rparr>) = wire_ok c"
  "wire_ok (c\<lparr>c_next_connect := x12\<rparr>) = wire_ok c"
  "wire_ok (c\<lparr>c_heartbeat_deadline := x13\<rparr>) = wire_ok c"
  "wire_ok (c\<lparr>c_await_hint_at := x14\<rparr>) = wire_ok c"
  "wire_ok (c\<lparr>c_audio_origin_us := x15\<rparr>) = wire_ok c"
  "wire_ok (c\<lparr>c_next_capture_sequence := x16\<rparr>) = wire_ok c"
  "wire_ok (c\<lparr>c_message := x17\<rparr>) = wire_ok c" "wire_ok (c\<lparr>c_subtitle := x18\<rparr>) = wire_ok c"
  "wire_ok (c\<lparr>c_reconnect_attempt := x19\<rparr>) = wire_ok c"
  "wire_ok (c\<lparr>c_follow_up_near_frames := x20\<rparr>) = wire_ok c"
  "wire_ok (c\<lparr>c_barge_probe_frames := x21\<rparr>) = wire_ok c"
  "wire_ok (c\<lparr>c_barge_cooldown_frames := x22\<rparr>) = wire_ok c"
  "wire_ok (c\<lparr>c_barge_quiet_frames := x23\<rparr>) = wire_ok c"
  "wire_ok (c\<lparr>c_barge_silence_frames := x24\<rparr>) = wire_ok c"
  "wire_ok (c\<lparr>c_volume := x25\<rparr>) = wire_ok c" "wire_ok (c\<lparr>c_brightness := x26\<rparr>) = wire_ok c"
  "wire_ok (c\<lparr>c_await_hint_pending := x27\<rparr>) = wire_ok c"
  "wire_ok (c\<lparr>c_await_hint_visible := x28\<rparr>) = wire_ok c"
  "wire_ok (c\<lparr>c_barge_probe := x29\<rparr>) = wire_ok c" "wire_ok (c\<lparr>c_hello_sent := x30\<rparr>) = wire_ok c"
  "wire_ok (c\<lparr>c_barge_ended := x31\<rparr>) = wire_ok c"
  "wire_ok (c\<lparr>c_barge_turn_admitted := x32\<rparr>) = wire_ok c"
  "wire_ok (c\<lparr>c_barge_buffer_overflow := x33\<rparr>) = wire_ok c"
  "wire_ok (c\<lparr>c_manual_wake_pending := x34\<rparr>) = wire_ok c"
  "wire_ok (c\<lparr>c_finish_after_cancel_ack := x35\<rparr>) = wire_ok c"
  "wire_ok (c\<lparr>c_listener_failed := x36\<rparr>) = wire_ok c" "wire_ok (c\<lparr>c_now := x37\<rparr>) = wire_ok c"
  "wire_ok (c\<lparr>c_sends := x38\<rparr>) = wire_ok c" "wire_ok (c\<lparr>c_handshakes := x39\<rparr>) = wire_ok c"
  "wire_ok (c\<lparr>c_playback_pc := x42\<rparr>) = wire_ok c" "wire_ok (c\<lparr>c_accepted := x43\<rparr>) = wire_ok c"
  "wire_ok (c\<lparr>c_rendered := x44\<rparr>) = wire_ok c" "wire_ok (c\<lparr>c_taken := x45\<rparr>) = wire_ok c"
  "wire_ok (c\<lparr>c_state := x40\<rparr>) = wire_ok c" "wire_ok (c\<lparr>c_uplink_sequence := x41\<rparr>) = wire_ok c"
  by (simp_all add: wire_ok_def cong: option.case_cong)

lemma proto_frame [simp]:
  "proto (c\<lparr>c_endpoint := x0\<rparr>) = proto c" "proto (c\<lparr>c_error := x1\<rparr>) = proto c"
  "proto (c\<lparr>c_audio := x2\<rparr>) = proto c" "proto (c\<lparr>c_ui := x3\<rparr>) = proto c"
  "proto (c\<lparr>c_settings := x4\<rparr>) = proto c" "proto (c\<lparr>c_endpoint_ready := x5\<rparr>) = proto c"
  "proto (c\<lparr>c_network_needed := x6\<rparr>) = proto c" "proto (c\<lparr>c_pre := x7\<rparr>) = proto c"
  "proto (c\<lparr>c_pre_head := x8\<rparr>) = proto c" "proto (c\<lparr>c_pre_count := x9\<rparr>) = proto c"
  "proto (c\<lparr>c_response_ids := x10\<rparr>) = proto c" "proto (c\<lparr>c_state_deadline := x11\<rparr>) = proto c"
  "proto (c\<lparr>c_next_connect := x12\<rparr>) = proto c" "proto (c\<lparr>c_heartbeat_deadline := x13\<rparr>) = proto c"
  "proto (c\<lparr>c_await_hint_at := x14\<rparr>) = proto c" "proto (c\<lparr>c_audio_origin_us := x15\<rparr>) = proto c"
  "proto (c\<lparr>c_next_capture_sequence := x16\<rparr>) = proto c" "proto (c\<lparr>c_message := x17\<rparr>) = proto c"
  "proto (c\<lparr>c_subtitle := x18\<rparr>) = proto c" "proto (c\<lparr>c_reconnect_attempt := x19\<rparr>) = proto c"
  "proto (c\<lparr>c_follow_up_near_frames := x20\<rparr>) = proto c"
  "proto (c\<lparr>c_barge_probe_frames := x21\<rparr>) = proto c"
  "proto (c\<lparr>c_barge_cooldown_frames := x22\<rparr>) = proto c"
  "proto (c\<lparr>c_barge_quiet_frames := x23\<rparr>) = proto c"
  "proto (c\<lparr>c_barge_silence_frames := x24\<rparr>) = proto c" "proto (c\<lparr>c_volume := x25\<rparr>) = proto c"
  "proto (c\<lparr>c_brightness := x26\<rparr>) = proto c" "proto (c\<lparr>c_await_hint_pending := x27\<rparr>) = proto c"
  "proto (c\<lparr>c_await_hint_visible := x28\<rparr>) = proto c" "proto (c\<lparr>c_barge_probe := x29\<rparr>) = proto c"
  "proto (c\<lparr>c_hello_sent := x30\<rparr>) = proto c" "proto (c\<lparr>c_barge_ended := x31\<rparr>) = proto c"
  "proto (c\<lparr>c_barge_turn_admitted := x32\<rparr>) = proto c"
  "proto (c\<lparr>c_barge_buffer_overflow := x33\<rparr>) = proto c"
  "proto (c\<lparr>c_manual_wake_pending := x34\<rparr>) = proto c"
  "proto (c\<lparr>c_finish_after_cancel_ack := x35\<rparr>) = proto c"
  "proto (c\<lparr>c_listener_failed := x36\<rparr>) = proto c" "proto (c\<lparr>c_now := x37\<rparr>) = proto c"
  "proto (c\<lparr>c_sends := x38\<rparr>) = proto c" "proto (c\<lparr>c_handshakes := x39\<rparr>) = proto c"
  "proto (c\<lparr>c_playback_pc := x42\<rparr>) = proto c" "proto (c\<lparr>c_accepted := x43\<rparr>) = proto c"
  "proto (c\<lparr>c_rendered := x44\<rparr>) = proto c" "proto (c\<lparr>c_taken := x45\<rparr>) = proto c"
  by (simp_all add: proto_def link_def)

lemma proto_wire: "proto c \<Longrightarrow> wire_ok c"
  by (simp add: proto_def)

lemma proto_state: "wire_ok c \<Longrightarrow> s \<noteq> St_CapturingSpeech \<Longrightarrow> proto (c\<lparr>c_state := s\<rparr>)"
  by (simp add: proto_def link_def)

lemma wire_ok_advance [simp]: "wire_ok (advance_turn c) = wire_ok c"
  by (simp add: wire_ok_def advance_turn_def cong: option.case_cong)

lemma proto_reset_listener [simp]: "proto (reset_listener c) = proto c" "wire_ok (reset_listener c) = wire_ok c"
  using reset_listener_form [of c] by auto

lemma proto_simple [simp]:
  "proto (ui_call u c) = proto c" "proto (on_audio g c) = proto c" "proto (save_ui_settings c) = proto c"
  "proto (clear_subtitle c) = proto c" "proto (mark_first_response_progress c) = proto c"
  "proto (reset_barge_probe c) = proto c" "proto (reset_barge_turn c) = proto c" "proto (reject_barge_probe c) = proto c"
  "proto (apply_volume v b c) = proto c" "proto (show_text s c) = proto c" "proto (keep_newest_pre_roll n c) = proto c"
  "proto (track_barge_utterance f c) = proto c" "proto (save_pre_roll f c) = proto c" "proto (thaw_barge f c) = proto c"
  "proto (store_frame f c) = proto c"
  "wire_ok (ui_call u c) = wire_ok c" "wire_ok (on_audio g c) = wire_ok c" "wire_ok (save_ui_settings c) = wire_ok c"
  "wire_ok (clear_subtitle c) = wire_ok c" "wire_ok (mark_first_response_progress c) = wire_ok c"
  "wire_ok (reset_barge_probe c) = wire_ok c" "wire_ok (reset_barge_turn c) = wire_ok c"
  "wire_ok (reject_barge_probe c) = wire_ok c" "wire_ok (apply_volume v b c) = wire_ok c"
  "wire_ok (show_text s c) = wire_ok c" "wire_ok (keep_newest_pre_roll n c) = wire_ok c"
  "wire_ok (track_barge_utterance f c) = wire_ok c" "wire_ok (save_pre_roll f c) = wire_ok c"
  "wire_ok (thaw_barge f c) = wire_ok c" "wire_ok (store_frame f c) = wire_ok c"
  by (simp_all add: ui_call_def on_audio_def save_ui_settings_def clear_subtitle_def mark_first_response_progress_def
      reset_barge_probe_def reset_barge_turn_def reject_barge_probe_def apply_volume_def show_text_def Let_def
      keep_newest_pre_roll_def track_barge_utterance_def save_pre_roll_def thaw_barge_def store_frame_def split: prod.split)

text \<open>What the actor's helpers leave of state, identities and sequence.\<close>

lemma helper_fields [simp]:
  "c_state (ui_call u c) = c_state c" "c_turn_ids (ui_call u c) = c_turn_ids c" "c_transport (ui_call u c) = c_transport c"
  "c_wire (ui_call u c) = c_wire c" "c_uplink_sequence (ui_call u c) = c_uplink_sequence c" "c_events (ui_call u c) = c_events c" "c_now (ui_call u c) = c_now c"
  "c_state (on_audio f c) = c_state c" "c_turn_ids (on_audio f c) = c_turn_ids c" "c_transport (on_audio f c) = c_transport c"
  "c_state (clear_subtitle c) = c_state c" "c_turn_ids (clear_subtitle c) = c_turn_ids c" "c_transport (clear_subtitle c) = c_transport c"
  "c_state (reset_barge_probe c) = c_state c" "c_turn_ids (reset_barge_probe c) = c_turn_ids c"
  "c_transport (reset_barge_probe c) = c_transport c"
  "c_state (reset_barge_turn c) = c_state c" "c_turn_ids (reset_barge_turn c) = c_turn_ids c"
  "c_transport (reset_barge_turn c) = c_transport c"
  "c_state (mark_first_response_progress c) = c_state c" "c_turn_ids (mark_first_response_progress c) = c_turn_ids c"
  "c_transport (mark_first_response_progress c) = c_transport c"
  "c_state (advance_turn c) = c_state c" "c_transport (advance_turn c) = c_transport c"
  "session (c_turn_ids (advance_turn c)) = session (c_turn_ids c)"
  "c_events (on_audio f c) = c_events c" "c_events (clear_subtitle c) = c_events c" "c_events (reset_barge_probe c) = c_events c"
  "c_events (reset_barge_turn c) = c_events c" "c_events (mark_first_response_progress c) = c_events c"
  by (simp_all add: ui_call_def on_audio_def clear_subtitle_def reset_barge_probe_def reset_barge_turn_def
      mark_first_response_progress_def Let_def advance_turn_def)

lemma lose_fields: "c_transport (lose_connection c) = None" "c_turn_ids (lose_connection c) = no_ids"
  "c_state (lose_connection c) = St_WaitingForWake" "queue_events (c_events (lose_connection c)) = []"
proof -
  have "c_transport (close_wire c) = None" by (simp add: close_wire_def split: option.split prod.split)
  then show "c_transport (lose_connection c) = None" "c_turn_ids (lose_connection c) = no_ids"
    "c_state (lose_connection c) = St_WaitingForWake" "queue_events (c_events (lose_connection c)) = []"
    by (simp_all add: lose_connection_def Let_def)
qed

lemma proto_lose [inv_intros, simp]: "proto (lose_connection c)"
  by (simp add: proto_def wire_ok_def link_def lose_fields acks_def no_ids_def)

subsection \<open>Sending a control\<close>

lemma run_inv_append:
  assumes "run_inv (t, lg)" and "transport_step p dl ev t = (t', os)"
  shows "run_inv (t', lg @ os)"
  using run_inv_step [OF assms(1), of p dl ev] assms(2) by (simp add: logged_step_def)

lemma client_send_cases:
  assumes "client_send k ids c = (ok, c')" and "wire_ok c"
  obtains "c_transport c = None" "\<not> ok" "c' = c\<lparr>c_message := c_message c + 1\<rparr>"
  | t t' os ss where "c_transport c = Some t" "run_inv (t', c_wire c @ os)"
      "c' = c\<lparr>c_message := c_message c + 1, c_sends := ss, c_transport := Some t', c_wire := c_wire c @ os\<rparr>"
      "t' = t \<or> t' = after_control t (make_control k ids c)" "\<not> ok \<longrightarrow> t' = t"
      "ok \<and> k \<noteq> Ctl_ResponseCancel \<longrightarrow> t' = after_control t (make_control k ids c)"
proof (cases "c_transport c")
  case None
  then show ?thesis using assms(1) that(1) by (simp add: client_send_def Let_def)
next
  case (Some t)
  define c0 where "c0 = c\<lparr>c_message := c_message c + 1\<rparr>"
  obtain env ss where n: "next_send c0 = (env, c0\<lparr>c_sends := ss\<rparr>)" using next_send_form by blast
  obtain res where res: "send_control env (make_control k ids c) t = res" by blast
  obtain b t' os where r: "res = (b, t', os)" by (cases res) auto
  have step: "transport_step undefined undefined (Ev_Control env (make_control k ids c)) t = (t', os)"
    using res r by simp
  have inv: "run_inv (t, c_wire c)" using assms(2) Some by (simp add: wire_ok_def)
  have c': "ok = b" "c' = c\<lparr>c_message := c_message c + 1, c_sends := ss, c_transport := Some t', c_wire := c_wire c @ os\<rparr>"
    using assms(1) Some n res r by (auto simp: client_send_def Let_def c0_def)
  have kind: "ctl_kind (make_control k ids c) = k" by (simp add: make_control_def)
  from res show ?thesis
  proof (cases rule: send_control_cases)
    case (1 b')
    have "control_body t ctl = Inl True \<Longrightarrow> ctl_kind ctl = Ctl_ResponseCancel" for ctl
      by (cases "ctl_kind ctl") (auto simp: control_body_def Let_def split: if_splits)
    then have "b \<Longrightarrow> k = Ctl_ResponseCancel"
      using res r 1 kind by (fastforce simp: send_control_def Let_def split: if_splits sum.splits prod.splits)
    then show ?thesis using that(2) [OF Some run_inv_append [OF inv step]] c' r 1 by blast
  next
    case (2 x json)
    then show ?thesis using that(2) [OF Some run_inv_append [OF inv step]] c' r by blast
  qed
qed

lemma after_control_fields:
  "t_session (after_control t ctl) = t_session t"
  "ctl_kind ctl \<noteq> Ctl_TurnStart \<Longrightarrow> t_turn (after_control t ctl) = t_turn t"
  "ctl_kind ctl \<noteq> Ctl_TurnStart \<Longrightarrow> t_uplink_sequence (after_control t ctl) = t_uplink_sequence t"
  "ctl_kind ctl \<noteq> Ctl_TurnStart \<Longrightarrow> t_uplink_ended (after_control t ctl) = t_uplink_ended t"
  "ctl_kind ctl \<noteq> Ctl_TurnStart \<Longrightarrow> ctl_kind ctl \<noteq> Ctl_TurnCommit \<Longrightarrow> t_committed (after_control t ctl) = t_committed t"
  "t_uplink_sequence (after_control t ctl) = 0 \<or> t_uplink_sequence (after_control t ctl) = t_uplink_sequence t"
  by (cases "ctl_kind ctl"; simp add: after_control_def)+

text \<open>Every control but a turn start in the middle of a turn keeps the agreement; a commit is never sent there.\<close>

lemma wire_ok_client_send:
  assumes "wire_ok c" and "client_send k ids c = (ok, c')"
  shows "wire_ok c'" and "c_state c' = c_state c" and "c_now c' = c_now c" and "c_turn_ids c' = c_turn_ids c"
    and "ok \<Longrightarrow> c_transport c' \<noteq> None" and "c_uplink_sequence c' = c_uplink_sequence c"
proof -
  have "wire_ok c' \<and> c_state c' = c_state c \<and> c_now c' = c_now c \<and> c_turn_ids c' = c_turn_ids c \<and>
      (ok \<longrightarrow> c_transport c' \<noteq> None) \<and> c_uplink_sequence c' = c_uplink_sequence c"
    using assms(2,1)
  proof (cases rule: client_send_cases)
    case 1
    then show ?thesis using assms(1) by simp
  next
    case (2 t t' os ss)
    have "t_session t' = t_session t" "t_uplink_sequence t' \<le> k_maximum_turn_frames"
      using 2(4) after_control_fields(1,6) [of t "make_control k ids c"] assms(1) 2(1)
      by (auto simp: wire_ok_def k_maximum_turn_frames_def)
    then show ?thesis using 2 assms(1) by (simp add: wire_ok_def)
  qed
  then show "wire_ok c'" "c_state c' = c_state c" "c_now c' = c_now c" "c_turn_ids c' = c_turn_ids c"
    "ok \<Longrightarrow> c_transport c' \<noteq> None" "c_uplink_sequence c' = c_uplink_sequence c"
    by blast+
qed

lemma proto_client_send:
  assumes "proto c" and "client_send k ids c = (ok, c')" and "k \<noteq> Ctl_TurnStart" and "k \<noteq> Ctl_TurnCommit"
  shows "proto c'"
proof -
  have "link c'" using assms(2) proto_wire [OF assms(1)]
  proof (cases rule: client_send_cases)
    case 1
    then show ?thesis using assms(1) by (simp add: proto_def link_def)
  next
    case (2 t t' os ss)
    have kind: "ctl_kind (make_control k ids c) = k" by (simp add: make_control_def)
    show ?thesis
      using 2 assms(1,3,4) after_control_fields(2-5) [of "make_control k ids c" t]
      by (auto simp: proto_def link_def capture_link_def kind)
  qed
  then show ?thesis using wire_ok_client_send(1) [OF proto_wire [OF assms(1)] assms(2)] by (simp add: proto_def)
qed

lemma proto_abort [inv_intros]:
  assumes "wire_ok c"
  shows "proto (abort_current c)"
proof -
  define c1 where "c1 = (reset_barge_turn (reset_barge_probe (on_audio drop_playback c)))\<lparr>c_finish_after_cancel_ack := True\<rparr>"
  define k where "k = (if session (c_response_ids c1) \<noteq> 0 then Ctl_ResponseCancel else Ctl_TurnCancel)"
  obtain ok c2 where c2: "client_send k (if session (c_response_ids c1) \<noteq> 0 then c_response_ids c1 else c_turn_ids c1) c1 = (ok, c2)"
    by fastforce
  have "wire_ok c2" by (rule wire_ok_client_send(1) [OF _ c2]) (use assms in \<open>simp add: c1_def\<close>)
  then show ?thesis
    unfolding abort_current_def Let_def c1_def [symmetric] k_def [symmetric] c2
    by (simp add: proto_state split: bool.split)
qed

lemma proto_finish_turn [inv_intros]: "wire_ok c \<Longrightarrow> proto (finish_turn n c)"
  by (simp add: finish_turn_def Let_def proto_state)

subsection \<open>Sending speech\<close>

lemma flag_end_header [simp]: "flag_end (pcm_flags (audio_header f b c)) = b"
  by (simp add: audio_header_def flag_end_def)

lemma send_audio_step:
  assumes "wire_ok c" and "c_transport c = Some t" and "capture_link t (c_turn_ids c) (c_uplink_sequence c)"
    and "send_audio f b c = (out, c')"
  obtains t' where "c_transport c' = Some t'" "wire_ok c'" "c_state c' = c_state c" "c_turn_ids c' = c_turn_ids c"
    "out = Send_Ok \<longrightarrow> c_uplink_sequence c' = c_uplink_sequence c + 1 \<and> t_turn t' = t_turn t \<and> \<not> t_committed t' \<and>
      t_uplink_ended t' = b \<and> t_uplink_sequence t' = c_uplink_sequence c + 1"
proof -
  obtain env ss where n: "next_send c = (env, c\<lparr>c_sends := ss\<rparr>)" using next_send_form by blast
  define h where "h = audio_header f b (c\<lparr>c_sends := ss\<rparr>)"
  obtain res where res: "send_pcm env h (sample_bytes (cf_pcm f)) t = res" by blast
  obtain o' t' os where r: "res = (o', t', os)" by (cases res) auto
  have step: "transport_step undefined undefined (Ev_Pcm env h (sample_bytes (cf_pcm f))) t = (t', os)"
    using res r by simp
  have inv: "run_inv (t', c_wire c @ os)"
    by (rule run_inv_append [OF _ step]) (use assms(1,2) in \<open>simp add: wire_ok_def\<close>)
  have c': "out = o'" "c' = c\<lparr>c_sends := ss, c_transport := Some t', c_wire := c_wire c @ os,
      c_uplink_sequence := (if o' = Send_Ok then c_uplink_sequence c + 1 else c_uplink_sequence c)\<rparr>"
    using assms(2,4) n res r by (auto simp: send_audio_def h_def)
  have lim: "t_uplink_sequence t = c_uplink_sequence c" "c_uplink_sequence c + 1 \<le> k_maximum_turn_frames"
    using assms(3) by (simp_all add: capture_link_def)
  from res consider "t' = t" | "t' = t\<lparr>t_uplink_sequence := t_uplink_sequence t + 1, t_uplink_ended := flag_end (pcm_flags h)\<rparr>" "o' = Send_Ok"
    by (cases rule: send_pcm_cases) (use r in auto)
  then have t'_all: "t_session t' = t_session t \<and> t_turn t' = t_turn t \<and> t_committed t' = t_committed t \<and>
      (t_uplink_sequence t' = t_uplink_sequence t \<or> t_uplink_sequence t' = t_uplink_sequence t + 1)"
    by cases simp_all
  then have t': "t_session t' = t_session t" "t_turn t' = t_turn t" "t_committed t' = t_committed t" by blast+
  have "t_uplink_sequence t' = t_uplink_sequence t \<or> t_uplink_sequence t' = c_uplink_sequence c + 1"
    using t'_all unfolding lim(1) by blast
  moreover have "t_uplink_sequence t \<le> k_maximum_turn_frames" using assms(1,2) by (simp add: wire_ok_def)
  ultimately have bound: "t_uplink_sequence t' \<le> k_maximum_turn_frames" using lim(2) by metis
  have w: "wire_ok c'" using assms(1,2) inv t' bound by (simp add: c' wire_ok_def)
  have ok: "o' = Send_Ok \<longrightarrow> t_uplink_sequence t' = c_uplink_sequence c + 1 \<and> t_uplink_ended t' = b"
  proof
    assume o: "o' = Send_Ok"
    from res show "t_uplink_sequence t' = c_uplink_sequence c + 1 \<and> t_uplink_ended t' = b"
    proof (cases rule: send_pcm_cases)
      case (1 b')
      have "fst (send_pcm env h (sample_bytes (cf_pcm f)) t) = Send_Ok \<Longrightarrow>
          snd (snd (send_pcm env h (sample_bytes (cf_pcm f)) t)) \<noteq> []"
        by (auto simp: send_pcm_def split: queue_capacity.splits if_splits)
      then show ?thesis using res r 1 o by simp
    next
      case 2
      then show ?thesis using r lim by (simp add: h_def)
    qed
  qed
  show ?thesis
  proof (rule that [of t'])
    show "c_transport c' = Some t'" "c_state c' = c_state c" "c_turn_ids c' = c_turn_ids c" by (simp_all add: c')
    show "out = Send_Ok \<longrightarrow> c_uplink_sequence c' = c_uplink_sequence c + 1 \<and> t_turn t' = t_turn t \<and> \<not> t_committed t' \<and>
      t_uplink_ended t' = b \<and> t_uplink_sequence t' = c_uplink_sequence c + 1"
      using ok t' assms(3) by (simp add: c' capture_link_def)
  qed (fact w)
qed

lemma send_recover_step:
  assumes "wire_ok c" and "c_transport c = Some t" and "capture_link t (c_turn_ids c) (c_uplink_sequence c)"
    and "send_audio_or_recover f b c = (ok, c')"
  obtains "\<not> ok" "proto c'"
  | t' where "ok" "c_transport c' = Some t'" "wire_ok c'" "c_state c' = c_state c" "c_turn_ids c' = c_turn_ids c"
    "c_uplink_sequence c' = c_uplink_sequence c + 1"
    "c_uplink_sequence c + 2 \<le> k_maximum_turn_frames \<Longrightarrow> \<not> b \<Longrightarrow>
      capture_link t' (c_turn_ids c') (c_uplink_sequence c')"
proof -
  obtain out c1 where s: "send_audio f b c = (out, c1)" by fastforce
  from assms(1-3) s obtain t' where t': "c_transport c1 = Some t'" "wire_ok c1" "c_state c1 = c_state c"
    "c_turn_ids c1 = c_turn_ids c"
    "out = Send_Ok \<longrightarrow> c_uplink_sequence c1 = c_uplink_sequence c + 1 \<and> t_turn t' = t_turn t \<and> \<not> t_committed t' \<and>
      t_uplink_ended t' = b \<and> t_uplink_sequence t' = c_uplink_sequence c + 1"
    by (rule send_audio_step)
  show ?thesis
  proof (cases "out = Send_Ok")
    case True
    then have c': "ok" "c' = c1" using assms(4) s by (simp_all add: send_audio_or_recover_def)
    have "capture_link t' (c_turn_ids c') (c_uplink_sequence c')"
      if "c_uplink_sequence c + 2 \<le> k_maximum_turn_frames" "\<not> b"
    proof -
      have "c_uplink_sequence c' + 1 = c_uplink_sequence c + 2" using t'(5) True c' by simp
      then have "c_uplink_sequence c' + 1 \<le> k_maximum_turn_frames" using that(1) by (simp add: add.commute)
      then show ?thesis using t' c' True assms(3) that(2) unfolding capture_link_def by simp
    qed
    then show ?thesis using c' t' True by (intro that(2) [of t']) simp_all
  next
    case False
    then have "\<not> ok" "proto c'"
      using assms(4) s t'(2) by (cases out; auto simp: send_audio_or_recover_def proto_abort)+
    then show ?thesis by (rule that(1))
  qed
qed

lemma upload_step:
  assumes "wire_ok c" and "c_state c = St_CapturingSpeech" and "c_transport c = Some t"
    and "capture_link t (c_turn_ids c) (c_uplink_sequence c)" and "unat (c_uplink_sequence c) + length fs \<le> 100"
    and "upload b fs c = (ok, c')"
  shows "(\<not> ok \<longrightarrow> proto c') \<and> (ok \<longrightarrow> wire_ok c' \<and> (\<not> b \<longrightarrow> proto c'))"
  using assms
proof (induction fs arbitrary: c t)
  case Nil
  then show ?case by (auto simp: proto_def link_def)
next
  case (Cons f fs)
  obtain ok1 c1 where s: "send_audio_or_recover f (b \<and> fs = []) c = (ok1, c1)" by fastforce
  from Cons.prems(1,3,4) s show ?case
  proof (cases rule: send_recover_step)
    case 1
    then show ?thesis using s Cons.prems(6) by simp
  next
    case (2 t')
    have lim: "unat (c_uplink_sequence c) + 1 \<le> 100" using Cons.prems(5) by simp
    then have "c_uplink_sequence c \<noteq> - 1" by (auto simp: unsigned_minus_1_eq_mask mask_eq_exp_minus_1)
    then have suc: "unat (c_uplink_sequence c + 1) = unat (c_uplink_sequence c) + 1"
      by (simp add: unat_Suc_not_max)
    have two: "c_uplink_sequence c + 2 \<le> k_maximum_turn_frames"
      using lim by (simp add: k_maximum_turn_frames_def) unat_arith
    show ?thesis
    proof (cases "fs = []")
      case True
      then show ?thesis using 2 s Cons.prems(2,6) two
        by (auto simp: proto_def link_def)
    next
      case False
      have u: "upload b fs c1 = (ok, c')" using Cons.prems(6) s 2(1) by simp
      show ?thesis
      proof (rule Cons.IH [OF 2(3) _ 2(2) _ _ u])
        show "c_state c1 = St_CapturingSpeech" using 2(4) Cons.prems(2) by simp
        show "capture_link t' (c_turn_ids c1) (c_uplink_sequence c1)"
          using 2(7) [OF two] False by simp
        show "unat (c_uplink_sequence c1) + length fs \<le> 100"
          using 2(6) Cons.prems(5) suc by simp
      qed
    qed
  qed
qed

lemma proto_commit_sent: "wire_ok c \<Longrightarrow> proto (snd (send_commit c))"
proof -
  assume w: "wire_ok c"
  obtain ok c1 where c1: "client_send Ctl_TurnCommit (c_turn_ids c) c = (ok, c1)" by fastforce
  have "wire_ok c1" by (rule wire_ok_client_send(1) [OF w c1])
  then show ?thesis by (simp add: send_commit_def c1 wait_for_response_def proto_state split: bool.split)
qed

lemma proto_start_turn [inv_intros]:
  assumes w: "wire_ok c" and pre: "c_pre_count c \<le> k_barge_buffer_frames"
  shows "proto (snd (start_turn b c))"
proof (cases "session (c_turn_ids c) = 0")
  case True
  then show ?thesis by (simp add: start_turn_def)
next
  case False
  obtain ok c1 where c1: "client_send Ctl_TurnStart (c_turn_ids c) c = (ok, c1)" by fastforce
  have w1: "wire_ok c1" "c_turn_ids c1 = c_turn_ids c"
    using wire_ok_client_send(1,4) [OF w c1] by simp_all
  define c2 where "c2 = ui_call (Call_State Ui_Listening) (c1\<lparr>c_uplink_sequence := 0, c_state := St_CapturingSpeech,
                     c_state_deadline := c_now c1 + k_maximum_turn_wait\<rparr>)"
  obtain ok3 c3 where c3: "upload b (pre_roll c2) c2 = (ok3, c3)" by fastforce
  have w2: "wire_ok c2" using w1 by (simp add: c2_def)
  show ?thesis
  proof (cases ok)
    case False
    then show ?thesis using \<open>session (c_turn_ids c) \<noteq> 0\<close> c1 by (simp add: start_turn_def)
  next
    case True
    from c1 w obtain t' where t': "c_transport c1 = Some t'" "t_turn t' = c_turn_ids c" "\<not> t_committed t'"
      "\<not> t_uplink_ended t'" "t_uplink_sequence t' = 0" "c_pre_count c1 = c_pre_count c"
      by (cases rule: client_send_cases) (use True in \<open>auto simp: after_control_def make_control_def\<close>)
    have "capture_link t' (c_turn_ids c2) (c_uplink_sequence c2)"
      using t' False w1 by (simp add: capture_link_def c2_def k_maximum_turn_frames_def ui_call_def)
    moreover have "c_state c2 = St_CapturingSpeech" "c_transport c2 = Some t'"
      "unat (c_uplink_sequence c2) + length (pre_roll c2) \<le> 100"
      using t' pre by (simp_all add: c2_def pre_roll_def ui_call_def k_barge_buffer_frames_def)
    ultimately have u: "(\<not> ok3 \<longrightarrow> proto c3) \<and> (ok3 \<longrightarrow> wire_ok c3 \<and> (\<not> b \<longrightarrow> proto c3))"
      using upload_step [OF w2 _ _ _ _ c3] by blast
    then show ?thesis
      using True \<open>session (c_turn_ids c) \<noteq> 0\<close>
      by (simp add: start_turn_def c1 Let_def c2_def [symmetric] c3 proto_commit_sent split: bool.split)
  qed
qed

lemma proto_commit [inv_intros]:
  assumes "proto c" and "c_state c = St_CapturingSpeech"
  shows "proto (commit f c)"
proof -
  obtain t where t: "c_transport c = Some t" "capture_link t (c_turn_ids c) (c_uplink_sequence c)"
    using assms by (auto simp: proto_def link_def)
  obtain ok c1 where s: "send_audio_or_recover f True c = (ok, c1)" by fastforce
  from proto_wire [OF assms(1)] t s show ?thesis
    by (cases rule: send_recover_step) (simp_all add: commit_def s proto_commit_sent)
qed

lemma proto_live_frame:
  assumes "proto c" and "c_state c = St_CapturingSpeech" and "\<not> k_maximum_turn_frames \<le> c_uplink_sequence c + 1"
  shows "proto (snd (send_audio_or_recover f False c))"
proof -
  obtain t where t: "c_transport c = Some t" "capture_link t (c_turn_ids c) (c_uplink_sequence c)"
    using assms by (auto simp: proto_def link_def)
  obtain ok c1 where s: "send_audio_or_recover f False c = (ok, c1)" by fastforce
  have two: "c_uplink_sequence c + 2 \<le> k_maximum_turn_frames"
    using assms(3) by (simp add: k_maximum_turn_frames_def) unat_arith
  from proto_wire [OF assms(1)] t s show ?thesis
  proof (cases rule: send_recover_step)
    case (2 t')
    have "capture_link t' (c_turn_ids c1) (c_uplink_sequence c1)" using 2(7) two by simp
    then show ?thesis using 2 s assms(2) by (auto simp: proto_def link_def)
  qed (simp add: s)
qed

subsection \<open>Events and frames\<close>

lemma shape_pre: "shape c \<Longrightarrow> c_pre_count c \<le> k_barge_buffer_frames"
  by (simp add: shape_def buffers_def)

lemma pre_count_fields [simp]: "c_pre_count (advance_turn c) = c_pre_count c" "c_pre_count (on_audio g c) = c_pre_count c"
  by (simp_all add: advance_turn_def on_audio_def)

lemma proto_cancel [inv_intros]: "wire_ok c \<Longrightarrow> shape c \<Longrightarrow> proto (complete_cancel c)"
  using shape_pre [of c]
  by (simp add: complete_cancel_def resume_after_barge_def Let_def proto_finish_turn proto_start_turn)

lemma proto_confirm [inv_intros]:
  assumes "wire_ok c"
  shows "proto (confirm_barge c)"
proof -
  define c1 where "c1 = (clear_subtitle (reset_barge_probe (on_audio drop_playback c)))\<lparr>c_barge_turn_admitted := True,
                 c_barge_ended := False, c_barge_silence_frames := 0, c_barge_buffer_overflow := False,
                 c_finish_after_cancel_ack := False\<rparr>"
  obtain ok c2 where c2: "client_send Ctl_ResponseCancel (c_response_ids c1) c1 = (ok, c2)" by fastforce
  have "wire_ok c2" by (rule wire_ok_client_send(1) [OF _ c2]) (simp add: c1_def assms)
  then show ?thesis
    by (simp add: confirm_barge_def c1_def [symmetric] Let_def c2 proto_state split: bool.split)
qed

lemma proto_handle_barge [inv_intros]: "proto c \<Longrightarrow> proto (handle_barge f c)"
  by (simp add: handle_barge_def Let_def proto_confirm proto_wire split: barge_probe.split)

lemma proto_gap [inv_intros]: "proto c \<Longrightarrow> proto (on_gap c)"
  by (simp add: on_gap_def Let_def proto_abort proto_wire proto_state)

lemma proto_frame_state [inv_intros]:
  assumes "proto c" "shape c"
  shows "proto (frame_in_state f c)"
proof (cases "c_state c = St_CapturingSpeech")
  case True
  then show ?thesis using assms
    by (simp add: frame_in_state_def proto_commit proto_live_frame)
next
  case False
  then show ?thesis using assms shape_pre [OF assms(2)]
    by (cases "c_state c")
      (simp_all add: frame_in_state_def Let_def begin_listening_def proto_state proto_wire proto_start_turn proto_handle_barge)
qed

lemma proto_on_frame [inv_intros]: "proto c \<Longrightarrow> shape c \<Longrightarrow> proto (on_frame f c)"
  by (simp add: on_frame_def Let_def proto_gap proto_frame_state shape_store)

lemma proto_deadlines [inv_intros]: "proto c \<Longrightarrow> proto (snd (advance_deadlines c))"
  by (simp add: advance_deadlines_def proto_wire proto_finish_turn proto_abort proto_state)

lemma proto_poll_ui [inv_intros]: "proto c \<Longrightarrow> proto (poll_ui v a c)"
  by (simp add: poll_ui_def Let_def proto_abort proto_wire split: option.splits device_ui_action.splits prod.splits)

text \<open>An event taken from the queue; an acknowledgement is only ever found while no session is open.\<close>

lemma proto_popped:
  assumes "proto c" and "queue_valid (c_events c)" and "event_pop (c_events c) = Some (e, q)" and "c_transport c = Some t"
  shows "proto (c\<lparr>c_events := q\<rparr>)"
    and "in_kind e = In_HelloAck \<Longrightarrow> c_state c \<noteq> St_CapturingSpeech \<and> t_session t \<noteq> 0 \<and> acks (queue_events q) = []"
proof -
  have q: "queue_events (c_events c) = e # queue_events q" using event_pop_some [OF assms(2,3)] by simp
  show "proto (c\<lparr>c_events := q\<rparr>)" using assms(1,4) q by (auto simp: proto_def wire_ok_def link_def acks_def split: if_splits)
  assume "in_kind e = In_HelloAck"
  then show "c_state c \<noteq> St_CapturingSpeech \<and> t_session t \<noteq> 0 \<and> acks (queue_events q) = []"
    using assms(1,4) q by (auto simp: proto_def wire_ok_def link_def capture_link_def acks_def)
qed

lemma proto_handle_event [inv_intros]:
  assumes p: "proto c" and s: "shape c"
    and ack: "in_kind e = In_HelloAck \<Longrightarrow> c_state c \<noteq> St_CapturingSpeech \<and>
      (\<exists>t. c_transport c = Some t \<and> t_session t \<noteq> 0) \<and> acks (queue_events (c_events c)) = []"
  shows "proto (handle_event e c)"
proof -
  define c1 where "c1 = c\<lparr>c_state_deadline := c_now c + k_response_wait\<rparr>"
  have p1: "proto c1" "wire_ok c1" "shape c1" using p s by (simp_all add: c1_def proto_wire)
  have "proto (handle_error e c)" using p s shape_hint [OF s]
    by (simp add: handle_error_def Let_def proto_wire proto_abort proto_cancel proto_finish_turn)
  moreover have "in_kind e = In_HelloAck \<Longrightarrow> proto (handle_hello_ack e c1)"
    using ack p1(2) by (auto simp: handle_hello_ack_def proto_def link_def wire_ok_def c1_def)
  moreover have "proto (handle_audio_start c1)"
  proof -
    obtain ok c2 where c2: "audio_begin (mark_first_response_progress c1) = (ok, c2)" by fastforce
    have "wire_ok c2" using audio_begin_form [of "mark_first_response_progress c1"] c2 p1(2) by auto
    then show ?thesis by (simp add: handle_audio_start_def c2 proto_state split: bool.split)
  qed
  moreover have "proto (handle_pcm e c1)"
    using p1 by (simp add: handle_pcm_def audio_queue_def proto_abort split: option.split prod.split bool.split)
  moreover have "proto (handle_done c1)"
    using p1 by (simp add: handle_done_def Let_def proto_state split: prod.split bool.split)
  moreover have "proto (handle_cancelled c1)"
    using p1 shape_hint [OF p1(3)] by (simp add: handle_cancelled_def Let_def proto_cancel proto_finish_turn)
  ultimately show ?thesis using p p1
    by (simp add: handle_event_def Let_def c1_def [symmetric] split: inbound_kind.split)
qed

subsection \<open>The WSS thread\<close>

definition inbound_of :: "effect list \<Rightarrow> inbound list" where
  "inbound_of os = concat (map (\<lambda>o'. case o' of Out_Inbound e \<Rightarrow> [e] | Out_Error why \<Rightarrow> [transport_error why] | _ \<Rightarrow> []) os)"

text \<open>What no callback changes, and when a session is acknowledged.\<close>

definition callback_ok :: "transport \<Rightarrow> transport \<Rightarrow> effect list \<Rightarrow> bool" where
  "callback_ok t t' os \<longleftrightarrow> t_turn t' = t_turn t \<and> t_committed t' = t_committed t \<and>
     t_uplink_ended t' = t_uplink_ended t \<and> t_uplink_sequence t' = t_uplink_sequence t \<and>
     (acks (inbound_of os) = [] \<and> t_session t' = t_session t \<or>
      length (acks (inbound_of os)) = 1 \<and> t_session t = 0 \<and> t_session t' \<noteq> 0)"

lemma callback_ok_quiet [simp]:
  "callback_ok t t []" "callback_ok t (t\<lparr>t_connected := b\<rparr>) []" "callback_ok t t [Out_Close s]"
  "callback_ok t (fst (transport_fail t why)) (snd (transport_fail t why))"
  "callback_ok t (fst (protocol_error t why)) (snd (protocol_error t why))"
  by (simp_all add: callback_ok_def acks_def inbound_of_def transport_fail_def protocol_error_def transport_error_def)

lemma callback_ok_emit: "in_kind e \<noteq> In_HelloAck \<Longrightarrow> t_turn t' = t_turn t \<Longrightarrow> t_committed t' = t_committed t \<Longrightarrow>
    t_uplink_ended t' = t_uplink_ended t \<Longrightarrow> t_uplink_sequence t' = t_uplink_sequence t \<Longrightarrow> t_session t' = t_session t \<Longrightarrow>
    callback_ok t (fst (emit (\<lambda>_. True) t' e)) (snd (emit (\<lambda>_. True) t' e))"
  by (simp add: callback_ok_def acks_def inbound_of_def emit_def)

lemma callback_ok_admits:
  "admits t i t' r \<Longrightarrow> (case r of None \<Rightarrow> callback_ok t t' [] | Some e \<Rightarrow> callback_ok t t' [Out_Inbound e])"
  by (induction rule: admits.induct) (simp_all add: callback_ok_def acks_def inbound_of_def)

lemma callback_ok_text: "callback_ok t (fst (on_text p (\<lambda>_. True) json t)) (snd (on_text p (\<lambda>_. True) json t))"
proof -
  obtain res where res: "on_text p (\<lambda>_. True) json t = res" by blast
  then show ?thesis
  proof (cases rule: on_text_cases)
    case (2 t' i)
    then show ?thesis using res callback_ok_admits [OF 2(1)] by simp
  next
    case (3 t' i e)
    then show ?thesis using res callback_ok_admits [OF 3(1)] by (simp add: emit_def)
  qed (use res in simp)
qed

lemma callback_ok_binary: "callback_ok t (fst (on_binary (\<lambda>_. True) m t)) (snd (on_binary (\<lambda>_. True) m t))"
proof -
  obtain res where res: "on_binary (\<lambda>_. True) m t = res" by blast
  then show ?thesis
    by (cases rule: on_binary_cases) (use res in \<open>auto intro!: callback_ok_emit\<close>)
qed

lemma callback_ok_step:
  assumes "transport_step p (\<lambda>_. True) (callback ev) t = (t', os)"
  shows "callback_ok t t' os"
proof -
  have message: "callback_ok t (fst (on_message p (\<lambda>_. True) m t)) (snd (on_message p (\<lambda>_. True) m t))" for m
    by (cases m) (simp_all add: on_message_def callback_ok_text callback_ok_binary)
  have close: "callback_ok t (fst (on_close reason t)) (snd (on_close reason t))" for reason
    by (simp add: on_close_def Let_def transport_fail_def callback_ok_def acks_def inbound_of_def transport_error_def)
  have ping: "callback_ok t (fst (on_ping (\<lambda>_. True) t)) (snd (on_ping (\<lambda>_. True) t))"
    unfolding on_ping_def by (rule callback_ok_emit) simp_all
  have fail: "callback_ok t (fst (transport_fail t why)) (snd (transport_fail t why))" for why by simp
  have "t' = fst (transport_step p (\<lambda>_. True) (callback ev) t)" "os = snd (transport_step p (\<lambda>_. True) (callback ev) t)"
    using assms by simp_all
  then show ?thesis using message close ping fail by (cases ev) (simp_all add: on_open_def)
qed

text \<open>The queue after the callbacks: some of the events handed over, in order, behind those it had.\<close>

lemma push_event_form:
  assumes "queue_valid q"
  shows "queue_valid (snd (event_push e q)) \<and>
    (queue_events (snd (event_push e q)) = queue_events q @ [e] \<or> queue_events (snd (event_push e q)) = queue_events q)"
proof (cases "length (queue_events q) < event_capacity")
  case True
  then show ?thesis using event_push_room [OF assms True, of e] by auto
next
  case False
  then show ?thesis using event_push_full [OF assms False, of e] assms by (simp add: queue_valid_def queue_events_def)
qed

lemma effects_form:
  "queue_valid (c_events c) \<Longrightarrow> \<exists>q es. fold on_effect os c = c\<lparr>c_events := q\<rparr> \<and> queue_valid q \<and>
     queue_events q = queue_events (c_events c) @ es \<and> length (acks es) \<le> length (acks (inbound_of os)) \<and>
     (acks (inbound_of os) = [] \<longrightarrow> acks es = [])"
proof (induction os arbitrary: c)
  case Nil
  have "fold on_effect [] c = c\<lparr>c_events := c_events c\<rparr>" by simp
  then show ?case using Nil by (intro exI [of _ "c_events c"] exI [of _ "[]"]) (simp add: acks_def)
next
  case (Cons o' os)
  have step: "\<exists>q es. on_effect o' c = c\<lparr>c_events := q\<rparr> \<and> queue_valid q \<and>
     queue_events q = queue_events (c_events c) @ es \<and> length (acks es) \<le> length (acks (inbound_of [o'])) \<and>
     (acks (inbound_of [o']) = [] \<longrightarrow> acks es = [])"
  proof -
    have push: "\<exists>q es. push_event e c = c\<lparr>c_events := q\<rparr> \<and> queue_valid q \<and>
        queue_events q = queue_events (c_events c) @ es \<and> length (acks es) \<le> length (acks [e]) \<and> (acks [e] = [] \<longrightarrow> acks es = [])" for e
    proof -
      define q where "q = snd (event_push e (c_events c))"
      have "push_event e c = c\<lparr>c_events := q\<rparr>" by (simp add: push_event_def q_def)
      moreover have "queue_valid q \<and> (queue_events q = queue_events (c_events c) @ [e] \<or> queue_events q = queue_events (c_events c) @ [])"
        using push_event_form [OF Cons.prems, of e] by (simp add: q_def)
      ultimately show ?thesis by (metis acks_def filter.simps(1) le0 list.size(3) order_refl)
    qed
    have same: "\<exists>q es. c = c\<lparr>c_events := q\<rparr> \<and> queue_valid q \<and> queue_events q = queue_events (c_events c) @ es \<and> acks es = []"
      using Cons.prems by (intro exI [of _ "c_events c"] exI [of _ "[]"]) (simp add: acks_def)
    show ?thesis
    proof (cases o')
      case (Out_Inbound e)
      then show ?thesis using push [of e] by (simp add: on_effect_def inbound_of_def)
    next
      case (Out_Error why)
      then show ?thesis using push [of "transport_error why"] by (simp add: on_effect_def inbound_of_def)
    qed (use same in \<open>auto simp: on_effect_def inbound_of_def\<close>)
  qed
  then obtain q es where q: "on_effect o' c = c\<lparr>c_events := q\<rparr>" "queue_valid q"
     "queue_events q = queue_events (c_events c) @ es" "length (acks es) \<le> length (acks (inbound_of [o']))"
     "acks (inbound_of [o']) = [] \<longrightarrow> acks es = []" by blast
  obtain q2 es2 where q2: "fold on_effect os (c\<lparr>c_events := q\<rparr>) = c\<lparr>c_events := q\<rparr>\<lparr>c_events := q2\<rparr>" "queue_valid q2"
     "queue_events q2 = queue_events q @ es2" "length (acks es2) \<le> length (acks (inbound_of os))"
     "acks (inbound_of os) = [] \<longrightarrow> acks es2 = []"
    using Cons.IH [of "c\<lparr>c_events := q\<rparr>"] q(2) by auto
  have split: "acks (inbound_of (o' # os)) = acks (inbound_of [o']) @ acks (inbound_of os)" "acks (es @ es2) = acks es @ acks es2"
    by (simp_all add: acks_def inbound_of_def)
  show ?case
    by (intro exI [of _ q2] exI [of _ "es @ es2"]) (use q q2 split in simp)
qed

lemma proto_wss:
  assumes "proto c" and "shape c"
  shows "proto (wss_step p ev c)"
proof (cases "c_transport c")
  case None
  then show ?thesis using assms by (simp add: wss_step_def)
next
  case (Some t)
  obtain t' os where st: "transport_step p (\<lambda>_. True) (callback ev) t = (t', os)" by fastforce
  have ok: "callback_ok t t' os" by (rule callback_ok_step [OF st])
  have inv: "run_inv (t', c_wire c @ os)"
    by (rule run_inv_append [OF _ st]) (use assms(1) Some in \<open>simp add: proto_def wire_ok_def\<close>)
  define c1 where "c1 = c\<lparr>c_transport := Some t', c_wire := c_wire c @ os\<rparr>"
  have "queue_valid (c_events c1)" using assms(2) by (simp add: c1_def shape_def buffers_def)
  from effects_form [OF this, of os] obtain q es where q: "fold on_effect os c1 = c1\<lparr>c_events := q\<rparr>"
     "queue_events q = queue_events (c_events c) @ es" "length (acks es) \<le> length (acks (inbound_of os))"
     "acks (inbound_of os) = [] \<longrightarrow> acks es = []"
    by (auto simp: c1_def)
  have a: "acks (queue_events q) = acks (queue_events (c_events c)) @ acks es" by (simp add: q(2) acks_def)
  have "wss_step p ev c = c1\<lparr>c_events := q\<rparr>" using Some st q(1) by (simp add: wss_step_def c1_def)
  moreover have "wire_ok (c1\<lparr>c_events := q\<rparr>)"
    using proto_wire [OF assms(1)] Some inv ok q(3,4) a by (auto simp: wire_ok_def c1_def callback_ok_def)
  moreover have "link (c1\<lparr>c_events := q\<rparr>)"
    using assms(1) Some ok by (auto simp: proto_def link_def capture_link_def c1_def callback_ok_def)
  ultimately show ?thesis by (simp add: proto_def)
qed

lemma proto_thread [inv_intros]: "proto c \<Longrightarrow> shape c \<Longrightarrow> proto (thread_step p th c)"
  by (cases th) (auto simp: set_player_def intro: proto_wss)

subsection \<open>The loop\<close>

definition client_inv :: "client \<Rightarrow> bool" where
  "client_inv c \<longleftrightarrow> proto c \<and> shape c"

lemma inv_finish_connect:
  assumes "client_inv c"
  shows "client_inv (finish_connect c)"
proof -
  obtain ok c1 where c1: "client_send Ctl_Hello no_ids c = (ok, c1)" by fastforce
  have "proto c1" by (rule proto_client_send [OF _ c1]) (use assms in \<open>simp_all add: client_inv_def\<close>)
  then have "proto (finish_connect c)" using assms
    by (simp add: finish_connect_def c1 client_inv_def split: option.split bool.split)
  then show ?thesis using assms shape_finish_connect [of c] by (simp add: client_inv_def)
qed

lemma inv_event:
  assumes "client_inv c" and "c_transport c = Some t" and "event_pop (c_events c) = Some (e, q)"
  shows "client_inv (handle_event e (c\<lparr>c_events := q\<rparr>))"
proof -
  have v: "queue_valid (c_events c)" using assms(1) by (simp add: client_inv_def shape_def buffers_def)
  have p: "proto (c\<lparr>c_events := q\<rparr>)" "in_kind e = In_HelloAck \<longrightarrow>
      c_state c \<noteq> St_CapturingSpeech \<and> t_session t \<noteq> 0 \<and> acks (queue_events q) = []"
    using proto_popped [OF _ v assms(3,2)] assms(1) by (auto simp: client_inv_def)
  have "queue_valid q" using event_pop_some [OF v assms(3)] by blast
  then have s: "shape (c\<lparr>c_events := q\<rparr>)" using assms(1) by (simp add: client_inv_def shape_def buffers_def)
  have "proto (handle_event e (c\<lparr>c_events := q\<rparr>))"
    by (rule proto_handle_event [OF p(1) s]) (use p(2) assms(2) in auto)
  then show ?thesis using shape_handle_event [OF s] by (simp add: client_inv_def)
qed

lemma inv_start_connect:
  assumes "client_inv c" and "c_transport c = None"
  shows "client_inv (start_connect db u th n c)"
proof -
  have "proto (start_connect db u th n c)"
  proof (cases n)
    case True
    define c1 where "c1 = c\<lparr>c_hello_sent := False, c_state_deadline := c_now c + k_connect_wait, c_wire := []\<rparr>"
    define tc where "tc = \<lparr>tc_host = ep_host (c_endpoint c1), tc_port = ep_port (c_endpoint c1),
                     tc_device_id = cfg_device_id (c_config c1), tc_spki_sha256_base64 = ep_spki (c_endpoint c1)\<rparr>"
    obtain ok t where t: "connect db u th tc new_transport = (ok, t)" by fastforce
    have "ok \<Longrightarrow> run_inv (t, [])" using connect_run_inv [of db u th tc t] t by simp
    moreover have "ok \<Longrightarrow> t_uplink_sequence t = 0 \<and> t_session t = 0"
      using connect_True [of db u th tc new_transport t] t by (auto simp: new_transport_def)
    ultimately have "ok \<Longrightarrow> proto (c1\<lparr>c_transport := Some t\<rparr>)"
      using assms by (auto simp: client_inv_def proto_def wire_ok_def link_def c1_def)
    then show ?thesis
      using True by (simp add: start_connect_def Let_def c1_def [symmetric] tc_def [symmetric] t split: bool.split)
  qed (simp add: start_connect_def)
  then show ?thesis using assms shape_start_connect [of c] by (simp add: client_inv_def)
qed

interpretation client_runs: client_invariant p "\<lambda>_. True" client_inv for p
proof unfold_locales
  fix c
  assume i: "client_inv c"
  then have c: "proto c" "shape c" by (simp_all add: client_inv_def)
  show "client_inv (thread_step p th c)" for th
    using c by (simp add: client_inv_def proto_thread shape_thread)
  show "client_inv (c\<lparr>c_audio := e\<rparr>)" for e using c by (simp add: client_inv_def)
  show "client_inv (handle_event ev (c\<lparr>c_events := q\<rparr>))"
    if "c_transport c = Some t" "event_pop (c_events c) = Some (ev, q)" for t ev q
    by (rule inv_event [OF i that])
  show "client_inv (d\<lparr>c_next_capture_sequence := cf_sequence f + 1, c_taken := c_taken d @ [f]\<rparr>)"
    if "advance_deadlines c = (False, d)" for d f
    using proto_deadlines [of c] shape_deadlines [of c] c that by (simp add: client_inv_def)
qed (auto simp: client_inv_def proto_poll_ui shape_poll_ui shape_lose_connection proto_deadlines shape_deadlines
    proto_on_frame shape_on_frame inv_finish_connect [unfolded client_inv_def] inv_start_connect [unfolded client_inv_def])

lemma inv_started:
  assumes "volume_percent cfg \<le> 100"
  shows "client_inv (client_of (client_start cfg s bo th ne origin now))"
proof -
  have vol: "of_nat v \<le> (100 :: u8)" if "v \<le> 100" for v
    using that by (simp add: word_le_nat_alt unat_of_nat)
  have "shape (client_setup cfg s)"
    using assms vol by (auto simp: client_setup_def Let_def new_client_def shape_def buffers_def probe_ok_def ui_call_def frame_consts)
  moreover have "proto (client_setup cfg s)"
    by (simp add: client_setup_def Let_def new_client_def proto_def wire_ok_def link_def ui_call_def acks_def no_ids_def)
  ultimately show ?thesis
    by (simp add: client_inv_def client_start_def Let_def client_fail_def split: prod.split bool.split)
qed

lemma run_inv_client:
  "volume_percent cfg \<le> 100 \<Longrightarrow> client_inv (client_of (run_client p cfg s bo th ne origin now is))"
  by (rule client_runs.inv_run) (simp_all add: list_all_iff inv_started)

end
