(* ===== verification/ClientSample.thy ===== *)
theory ClientSample
  imports ClientProto
begin

section \<open>A quiet network and a sample run\<close>

text \<open>
  Sends over a connection with an empty queue succeed; on it, a sample run of the whole client from
  its start to a turn in progress. The witnesses of the client's properties are read off that run.
\<close>

subsection \<open>Sends on a quiet connection\<close>

lemma quiet_control:
  assumes "control_body t c = Inr (type, payload)" "t_connected t" "length (t_device_id t) = 36"
    "ctl_message_id c \<noteq> []" "length (ctl_message_id c) \<le> 64" "length type \<le> 100" "length payload \<le> 1000"
  shows "send_control quiet_env c t = (True, after_control t c, [Out_Text c (control_json t c type payload)])"
proof -
  have "length (control_json t c type payload) \<le> 2000"
    using control_json_length [of t c type payload] assms(3,5-7) by simp
  moreover have "control_json t c type payload \<noteq> []" by (simp add: control_json_def)
  ultimately show ?thesis
    using assms(1,2,4,5)
    by (simp add: send_control_def send_text_def quiet_env_def check_queue_capacity_def k_defs Let_def)
qed

lemma client_send_quiet:
  assumes "control_body t (make_control k ids c) = Inr (type, payload)" "c_transport c = Some t" "t_connected t"
    "length (t_device_id t) = 36" "length type \<le> 100" "length payload \<le> 1000" "c_sends c = quiet_env # ss"
  shows "client_send k ids c = (True, c\<lparr>c_message := c_message c + 1, c_sends := ss,
    c_transport := Some (after_control t (make_control k ids c)),
    c_wire := c_wire c @ [Out_Text (make_control k ids c) (control_json t (make_control k ids c) type payload)]\<rparr>)"
proof -
  have "send_control quiet_env (make_control k ids c) t = (True, after_control t (make_control k ids c),
      [Out_Text (make_control k ids c) (control_json t (make_control k ids c) type payload)])"
    by (rule quiet_control [OF assms(1,3,4) _ _ assms(5,6)])
      (use length_decimal_u32 [of "c_message c"] in \<open>simp_all add: make_control_def\<close>)
  then show ?thesis using assms(2,7) by (simp add: client_send_def Let_def next_send_def)
qed


text \<open>While speech is captured, the header of the next frame is one the transport accepts.\<close>

lemma header_acceptable:
  assumes "capture_link t (c_turn_ids c) (c_uplink_sequence c)" and "t_connected t" "t_active t"
    and "0 < length (cf_pcm f)" "length (cf_pcm f) \<le> 320" "c_uplink_sequence c \<le> k_maximum_turn_frames"
  shows "pcm_acceptable t (audio_header f b c) (sample_bytes (cf_pcm f))"
proof -
  have len: "length (sample_bytes xs) = 2 * length xs" for xs
    by (induction xs) (simp_all add: sample_bytes_def)
  have flags: "((if z then 1 else 0) OR (if b then 2 else 0)) AND NOT k_known_flags = (0 :: u16)"
    "flag_start ((if z then 1 else 0) OR (if b then 2 else 0)) = z" for z
    by (cases z; cases b; simp add: k_defs flag_start_def)+
  have "c_uplink_sequence c \<noteq> - 1" using assms(6) by (auto simp: k_maximum_turn_frames_def word_le_nat_alt unsigned_minus_1_eq_mask mask_eq_exp_minus_1)
  then show ?thesis
    using assms by (simp add: pcm_acceptable_def audio_header_def capture_link_def len k_defs flags)
qed

lemma send_audio_quiet:
  assumes "c_transport c = Some t" "capture_link t (c_turn_ids c) (c_uplink_sequence c)" "t_connected t" "t_active t"
    and "0 < length (cf_pcm f)" "length (cf_pcm f) \<le> 320" "c_uplink_sequence c \<le> k_maximum_turn_frames" "c_sends c = quiet_env # ss"
  shows "send_audio f b c = (Send_Ok, c\<lparr>c_sends := ss,
     c_transport := Some (t\<lparr>t_uplink_sequence := t_uplink_sequence t + 1, t_uplink_ended := b\<rparr>),
     c_wire := c_wire c @ [Out_Frame (encode_pcm64 (t_uuid t) (audio_header f b c) (sample_bytes (cf_pcm f)))],
     c_uplink_sequence := c_uplink_sequence c + 1\<rparr>)"
proof -
  have h: "audio_header f b (c\<lparr>c_sends := ss\<rparr>) = audio_header f b c" by (simp add: audio_header_def)
  have "length (sample_bytes xs) = 2 * length xs" for xs
    by (induction xs) (simp_all add: sample_bytes_def)
  then have "send_pcm quiet_env (audio_header f b c) (sample_bytes (cf_pcm f)) t =
      (Send_Ok, t\<lparr>t_uplink_sequence := t_uplink_sequence t + 1, t_uplink_ended := flag_end (pcm_flags (audio_header f b c))\<rparr>,
       [Out_Frame (encode_pcm64 (t_uuid t) (audio_header f b c) (sample_bytes (cf_pcm f)))])"
    using header_acceptable [OF assms(2-7)] assms(6)
    by (simp add: send_pcm_def quiet_env_def check_queue_capacity_def k_defs)
  then show ?thesis using assms(1,8) by (simp add: send_audio_def next_send_def h)
qed

text \<open>The frames of an upload, as they leave: numbered on from the client's sequence, END on the last if asked.\<close>

definition upload_frames :: "bool \<Rightarrow> capture_frame list \<Rightarrow> transport \<Rightarrow> client \<Rightarrow> effect list" where
  "upload_frames final fs t c = map (\<lambda>k. Out_Frame (encode_pcm64 (t_uuid t)
     (audio_header (fs ! k) (final \<and> Suc k = length fs) (c\<lparr>c_uplink_sequence := c_uplink_sequence c + of_nat k\<rparr>))
     (sample_bytes (cf_pcm (fs ! k))))) [0..<length fs]"

lemma audio_header_cong:
  "c_uplink_sequence c = c_uplink_sequence c' \<Longrightarrow> c_audio_origin_us c = c_audio_origin_us c' \<Longrightarrow> c_turn_ids c = c_turn_ids c' \<Longrightarrow>
   audio_header f b c = audio_header f b c'"
  by (simp add: audio_header_def)

lemma upload_frames_Cons:
  assumes "t_uuid t' = t_uuid t" "c_uplink_sequence c' = c_uplink_sequence c + 1" "c_audio_origin_us c' = c_audio_origin_us c"
    "c_turn_ids c' = c_turn_ids c"
  shows "upload_frames final (f # fs) t c = Out_Frame (encode_pcm64 (t_uuid t) (audio_header f (final \<and> fs = []) c)
      (sample_bytes (cf_pcm f))) # upload_frames final fs t' c'"
proof -
  have h: "audio_header g b (c\<lparr>c_uplink_sequence := c_uplink_sequence c + of_nat (Suc k)\<rparr>) =
      audio_header g b (c'\<lparr>c_uplink_sequence := c_uplink_sequence c' + of_nat k\<rparr>)" for g b k
    by (rule audio_header_cong) (simp_all add: assms add.assoc)
  show ?thesis
    unfolding upload_frames_def list.size
    by (simp add: upt_conv_Cons map_Suc_upt [symmetric] comp_def h assms(1) del: upt_Suc of_nat_Suc)
qed

lemma send_recover_quiet:
  assumes "c_transport c = Some t" "capture_link t (c_turn_ids c) (c_uplink_sequence c)" "t_connected t" "t_active t"
    and "0 < length (cf_pcm f)" "length (cf_pcm f) \<le> 320" "c_uplink_sequence c \<le> k_maximum_turn_frames" "c_sends c = quiet_env # ss"
  shows "send_audio_or_recover f b c = (True, c\<lparr>c_sends := ss,
     c_transport := Some (t\<lparr>t_uplink_sequence := t_uplink_sequence t + 1, t_uplink_ended := b\<rparr>),
     c_wire := c_wire c @ [Out_Frame (encode_pcm64 (t_uuid t) (audio_header f b c) (sample_bytes (cf_pcm f)))],
     c_uplink_sequence := c_uplink_sequence c + 1\<rparr>)"
  by (simp add: send_audio_or_recover_def send_audio_quiet [OF assms])

text \<open>The transport after \<open>n\<close> more frames, the last of them with or without END.\<close>

definition uploaded :: "nat \<Rightarrow> bool \<Rightarrow> transport \<Rightarrow> transport" where
  "uploaded n ended t = t\<lparr>t_uplink_sequence := t_uplink_sequence t + of_nat n, t_uplink_ended := ended\<rparr>"

lemma upload_quiet:
  assumes "c_transport c = Some t" "capture_link t (c_turn_ids c) (c_uplink_sequence c)" "t_connected t" "t_active t"
    and "\<forall>f \<in> set fs. 0 < length (cf_pcm f) \<and> length (cf_pcm f) \<le> 320"
    and "unat (c_uplink_sequence c) + length fs < 3000" "c_sends c = replicate (length fs) quiet_env @ ss"
  shows "upload final fs c = (True, c\<lparr>c_sends := ss, c_transport := Some (uploaded (length fs) (final \<and> fs \<noteq> []) t),
      c_wire := c_wire c @ upload_frames final fs t c, c_uplink_sequence := c_uplink_sequence c + of_nat (length fs)\<rparr>)"
  using assms
proof (induction fs arbitrary: c t)
  case Nil
  have "uploaded 0 False t = t" using Nil.prems(2) by (simp add: uploaded_def capture_link_def)
  moreover have "c\<lparr>c_sends := ss, c_transport := Some t, c_wire := c_wire c @ upload_frames final [] t c,
      c_uplink_sequence := c_uplink_sequence c + of_nat 0\<rparr> = c"
    using Nil.prems by (simp add: upload_frames_def)
  ultimately show ?case by simp
next
  case (Cons f fs)
  define h where "h = Out_Frame (encode_pcm64 (t_uuid t) (audio_header f (final \<and> fs = []) c) (sample_bytes (cf_pcm f)))"
  define t1 where "t1 = t\<lparr>t_uplink_sequence := t_uplink_sequence t + 1, t_uplink_ended := (final \<and> fs = [])\<rparr>"
  define c1 where "c1 = c\<lparr>c_sends := replicate (length fs) quiet_env @ ss, c_transport := Some t1, c_wire := c_wire c @ [h],
      c_uplink_sequence := c_uplink_sequence c + 1\<rparr>"
  have small: "c_uplink_sequence c \<noteq> - 1" "c_uplink_sequence c \<le> k_maximum_turn_frames"
    using Cons.prems(6) by (auto simp: unsigned_minus_1_eq_mask mask_eq_exp_minus_1 k_maximum_turn_frames_def word_le_nat_alt)
  have n: "unat (c_uplink_sequence c + 1) = Suc (unat (c_uplink_sequence c))" by (rule unat_Suc_not_max [OF small(1)])
  have first: "send_audio_or_recover f (final \<and> fs = []) c = (True, c1)"
    using send_recover_quiet [OF Cons.prems(1-4) _ _ small(2), of f "replicate (length fs) quiet_env @ ss" "final \<and> fs = []"] Cons.prems(5,7)
    by (simp add: c1_def t1_def h_def)
  have frames: "upload_frames final (f # fs) t c = h # upload_frames final fs t1 c1"
    unfolding h_def by (rule upload_frames_Cons) (simp_all add: t1_def c1_def)
  have last: "uploaded (length fs) (final \<and> fs \<noteq> []) t1 = uploaded (length (f # fs)) final t" if "fs \<noteq> []"
    using that by (simp add: uploaded_def t1_def add.assoc)
  show ?case
  proof (cases "fs = []")
    case True
    then show ?thesis using first frames
      by (simp add: c1_def t1_def upload_frames_def uploaded_def)
  next
    case False
    have "c_uplink_sequence c + 1 + 1 \<le> k_maximum_turn_frames"
    proof -
      have "unat (- 1 :: u32) = 4294967295" by (simp add: unsigned_minus_1_eq_mask mask_eq_exp_minus_1)
      moreover have "unat (c_uplink_sequence c + 1) < 3000" using n Cons.prems(6) by simp
      ultimately have "c_uplink_sequence c + 1 \<noteq> - 1" by (intro notI) (simp only:)
      from unat_Suc_not_max [OF this] show ?thesis using n Cons.prems(6) False
        by (cases fs) (simp_all add: k_maximum_turn_frames_def word_le_nat_alt)
    qed
    then have link: "capture_link t1 (c_turn_ids c1) (c_uplink_sequence c1)"
      using Cons.prems(2) False by (simp add: capture_link_def t1_def c1_def)
    have "upload final fs c1 = (True, c1\<lparr>c_sends := ss, c_transport := Some (uploaded (length fs) (final \<and> fs \<noteq> []) t1),
      c_wire := c_wire c1 @ upload_frames final fs t1 c1, c_uplink_sequence := c_uplink_sequence c1 + of_nat (length fs)\<rparr>)"
      by (rule Cons.IH [OF _ link]) (use Cons.prems n in \<open>simp_all add: c1_def t1_def\<close>)
    then show ?thesis using first frames last [OF False] by (simp add: c1_def add.assoc)
  qed
qed

text \<open>A turn started over a quiet connection: the client afterwards, its pre-roll sent.\<close>

definition turn_started :: "string \<Rightarrow> string \<Rightarrow> transport \<Rightarrow> send_env list \<Rightarrow> client \<Rightarrow> client" where
  "turn_started type payload t ss c = (let ctl = make_control Ctl_TurnStart (c_turn_ids c) c; t' = after_control t ctl in
     c\<lparr>c_message := c_message c + 1, c_sends := ss, c_ui := c_ui c @ [Call_State Ui_Listening],
       c_transport := Some (uploaded (c_pre_count c) False t'),
       c_wire := c_wire c @ [Out_Text ctl (control_json t ctl type payload)] @
         upload_frames False (pre_roll c) t' (c\<lparr>c_uplink_sequence := 0\<rparr>),
       c_uplink_sequence := of_nat (c_pre_count c), c_state := St_CapturingSpeech,
       c_state_deadline := c_now c + k_maximum_turn_wait, c_pre_head := 0, c_pre_count := 0\<rparr>)"

lemma start_turn_quiet:
  assumes "c_transport c = Some t" "t_connected t" "length (t_device_id t) = 36" "session (c_turn_ids c) \<noteq> 0"
    and "control_body t (make_control Ctl_TurnStart (c_turn_ids c) c) = Inr (type, payload)"
    and "\<forall>f \<in> set (pre_roll c). 0 < length (cf_pcm f) \<and> length (cf_pcm f) \<le> 320" "c_pre_count c < 3000"
    and "c_sends c = replicate (Suc (c_pre_count c)) quiet_env @ ss"
  shows "start_turn False c = (True, turn_started type payload t ss c)"
proof -
  define ctl where "ctl = make_control Ctl_TurnStart (c_turn_ids c) c"
  define t' where "t' = after_control t ctl"
  have body: "type = ''turn.start'' \<and> length payload \<le> 1000"
    using assms(5) by (auto simp: control_body_def make_control_def Let_def split: if_splits)
  have "ctl_kind ctl = Ctl_TurnStart" "ctl_ids ctl = c_turn_ids c" by (simp_all add: ctl_def make_control_def)
  then have t': "t_connected t'" "t_active t'" "capture_link t' (c_turn_ids c) 0"
    using assms(2,4) by (simp_all add: t'_def after_control_def capture_link_def k_maximum_turn_frames_def)
  define c1 where "c1 = c\<lparr>c_message := c_message c + 1, c_sends := replicate (c_pre_count c) quiet_env @ ss, c_transport := Some t',
    c_wire := c_wire c @ [Out_Text ctl (control_json t ctl type payload)]\<rparr>"
  have send: "client_send Ctl_TurnStart (c_turn_ids c) c = (True, c1)"
    using client_send_quiet [OF assms(5,1-3), of "replicate (c_pre_count c) quiet_env @ ss"] body assms(8)
    by (simp add: c1_def ctl_def t'_def)
  define c2 where "c2 = ui_call (Call_State Ui_Listening) (c1\<lparr>c_uplink_sequence := 0, c_state := St_CapturingSpeech,
                     c_state_deadline := c_now c1 + k_maximum_turn_wait\<rparr>)"
  have pre: "pre_roll c2 = pre_roll c" by (simp add: pre_roll_def c2_def c1_def ui_call_def)
  have len: "length (pre_roll c) = c_pre_count c" by (simp add: pre_roll_def)
  have up: "upload False (pre_roll c) c2 = (True, c2\<lparr>c_sends := ss,
      c_transport := Some (uploaded (length (pre_roll c)) (False \<and> pre_roll c \<noteq> []) t'),
      c_wire := c_wire c2 @ upload_frames False (pre_roll c) t' c2,
      c_uplink_sequence := c_uplink_sequence c2 + of_nat (length (pre_roll c))\<rparr>)"
    by (rule upload_quiet) (use t' assms(6,7) len in \<open>simp_all add: c2_def c1_def ui_call_def\<close>)
  have fr: "upload_frames False (pre_roll c) t' c2 = upload_frames False (pre_roll c) t' (c\<lparr>c_uplink_sequence := 0\<rparr>)"
    unfolding upload_frames_def by (intro map_cong refl arg_cong [where f = Out_Frame] arg_cong2 [where f = "encode_pcm64 (t_uuid t')"] audio_header_cong)
      (simp_all add: c2_def c1_def ui_call_def)
  show ?thesis
    using assms(4) up fr len
    by (simp add: start_turn_def send c2_def [symmetric] pre Let_def turn_started_def ctl_def [symmetric] t'_def [symmetric])
      (simp add: c2_def c1_def ui_call_def)
qed

subsection \<open>A sample run\<close>

definition sample_client_config :: voice_client_config where
  "sample_client_config = \<lparr>server_ip = ''192.168.1.10'', server_spki_sha256 = replicate 43 (CHR ''A'') @ ''='', server_port = 17806,
     cfg_device_id = ''00112233-4455-6677-8899-aabbccddeeff'', cfg_device_token = default_device_token, capture_pcm = ''hw:0,0'',
     playback_pcm = ''hw:0,0'', volume_percent = 60, speaker_gain_percent = 100, snowboy_resource_path = ''/r'',
     snowboy_model_path = ''/m'', snowboy_sensitivity = ''0.5'', vad_min_dbfs = - 60, barge_min_dbfs = - 45,
     capture_left_polarity = 1, capture_right_polarity = 1, barge_in_enabled = True\<rparr>"

definition sample_phase :: "thread_event list \<Rightarrow> phase" where
  "sample_phase ths = \<lparr>ph_threads = ths, ph_now = 0, ph_sends = replicate 4 quiet_env, ph_handshakes = [Hs_Done True]\<rparr>"

definition sample_pass :: "thread_event list \<Rightarrow> thread_event list \<Rightarrow> thread_event list \<Rightarrow> capture_frame \<Rightarrow> pass_input" where
  "sample_pass a b e f = \<lparr>in_connect = sample_phase a, in_decode = sample_decode, in_uri_ok = True, in_thread_ok = True,
     in_no_throw = True, in_capture = sample_phase [Th_Capture True (Some f)], in_finish = sample_phase b, in_drain = [sample_phase e],
     in_ui = sample_phase [], in_volume_change = None, in_action = None, in_overflow = sample_phase [],
     in_deadline = sample_phase [], in_frame = sample_phase []\<rparr>"

definition sample_endpoint :: thread_event where
  "sample_endpoint = Th_Endpoint \<lparr>ep_host = ''voice.local'', ep_port = 17806, ep_spki = replicate 43 (CHR ''A'') @ ''=''\<rparr>"

definition sample_wake :: capture_frame where
  "sample_wake = no_frame\<lparr>cf_wake := True\<rparr>"

definition sample_voice :: capture_frame where
  "sample_voice = no_frame\<lparr>cf_sequence := 1, cf_vad_started := True\<rparr>"

lemma sample_frame_fields:
  "cf_sequence sample_wake = 0" "\<not> cf_discontinuity sample_wake" "cf_wake sample_wake" "\<not> cf_near_voice sample_wake"
  "length (cf_pcm sample_wake) = 320"
  "cf_sequence sample_voice = 1" "\<not> cf_discontinuity sample_voice" "cf_vad_started sample_voice" "\<not> cf_near_voice sample_voice"
  "length (cf_pcm sample_voice) = 320" "cf_pcm sample_wake \<noteq> []" "cf_pcm sample_voice \<noteq> []"
  "sample_wake\<lparr>cf_sequence := 0\<rparr> = sample_wake" "sample_voice\<lparr>cf_sequence := 1\<rparr> = sample_voice"
  by (simp_all add: sample_wake_def sample_voice_def no_frame_def)

abbreviation sample_pass1 :: pass_input where
  "sample_pass1 \<equiv> sample_pass [sample_endpoint] [Th_Wss W_Open] [Th_Wss (W_Message (Text_Message sample_ack_json))] sample_wake"

abbreviation sample_pass2 :: pass_input where
  "sample_pass2 \<equiv> sample_pass [] [] [] sample_voice"

definition sample_settings :: saved_settings where "sample_settings = \<lparr>ss_ok = False, ss_volume = 0, ss_brightness = 1\<rparr>"


definition sample_client :: client where
  "sample_client = client_of (client_start sample_client_config sample_settings True True True 0 0)"

lemma sample_client_start:
  "client_start sample_client_config sample_settings True True True 0 0 = Going sample_client"
  by (simp add: sample_client_def client_start_def open_engine_def client_setup_def Let_def ui_call_def
      new_client_def new_engine_def sample_settings_def sample_client_config_def playback_gain_def)

lemma sample_client_fields:
  "c_config sample_client = sample_client_config" "c_transport sample_client = None" "c_state sample_client = St_WaitingForWake"
  "c_events sample_client = empty_queue" "\<not> c_listener_failed sample_client" "c_network_needed sample_client"
  "c_turn_ids sample_client = no_ids" "c_next_connect sample_client = 0" "c_message sample_client = 1"
  "c_next_capture_sequence sample_client = 0" "c_manual_wake_pending sample_client = False"
  "c_pre sample_client = replicate 67 no_frame" "c_barge_probe sample_client = Probe_Idle"
  "c_ui sample_client = [Call_Volume 60, Call_Brightness 100, Call_State Ui_Offline]" "c_taken sample_client = []"
  by (simp_all add: sample_client_def client_start_def open_engine_def client_setup_def Let_def ui_call_def
      new_client_def new_engine_def sample_settings_def sample_client_config_def playback_gain_def k_barge_buffer_frames_def)


text \<open>The engine after \<open>n\<close> frames went through its ring; \<open>b\<close>: the answer to the last capture command.\<close>

definition sample_audio :: "nat \<Rightarrow> bool \<Rightarrow> engine" where
  "sample_audio n b = (c_audio sample_client)\<lparr>e_capture_head := n mod 4, e_capture_sequence := of_nat n, e_command_succeeded := b\<rparr>"

lemma sample_engine_fields:
  "e_open (c_audio sample_client)" "\<not> e_stop (c_audio sample_client)" "\<not> e_capture_failed (c_audio sample_client)"
  "e_command (c_audio sample_client) = Cmd_None" "e_is_done (c_audio sample_client)" "\<not> e_active (c_audio sample_client)"
  "e_capture_count (c_audio sample_client) = 0" "e_capture (c_audio sample_client) = replicate 4 no_frame"
  "e_capture_head (c_audio sample_client) = 0" "e_capture_sequence (c_audio sample_client) = 0"
  "\<not> e_command_succeeded (c_audio sample_client)"
  by (simp_all add: sample_client_def client_start_def open_engine_def client_setup_def Let_def ui_call_def clear_capture_queue_def
      new_client_def new_engine_def sample_settings_def sample_client_config_def playback_gain_def k_capture_slots_def)

lemma sample_audio_fields:
  "e_open (sample_audio n b)" "\<not> e_stop (sample_audio n b)" "\<not> e_capture_failed (sample_audio n b)"
  "e_command (sample_audio n b) = Cmd_None" "e_is_done (sample_audio n b)" "\<not> e_active (sample_audio n b)"
  "e_capture_count (sample_audio n b) = 0" "e_capture (sample_audio n b) = replicate 4 no_frame"
  "e_capture_head (sample_audio n b) = n mod 4" "e_capture_sequence (sample_audio n b) = of_nat n"
  by (simp_all add: sample_audio_def sample_engine_fields)

lemma sample_audio_start: "c_audio sample_client = sample_audio 0 False"
  using sample_engine_fields by (simp add: sample_audio_def)

lemma sample_take:
  assumes "\<not> cf_discontinuity f"
  shows "capture_take k_actor_poll_interval (snd (capture_iteration True (Some f) (sample_audio n b))) =
    (Cap_Frame (f\<lparr>cf_sequence := of_nat n\<rparr>), sample_audio (Suc n) b)"
proof -
  have same: "(replicate 4 no_frame)[n mod 4 := no_frame] = replicate 4 no_frame"
    by (rule list_update_same_conv [THEN iffD2]) simp_all
  have "snd (capture_iteration True (Some f) (sample_audio n b)) =
      (sample_audio n b)\<lparr>e_capture_sequence := of_nat n + 1,
        e_capture := (replicate 4 no_frame)[n mod 4 := f\<lparr>cf_sequence := of_nat n\<rparr>], e_capture_count := 1\<rparr>"
    using assms by (simp add: capture_iteration_def apply_capture_command_def capture_round_def push_capture_def Let_def
        sample_audio_fields k_capture_slots_def)
  then show ?thesis
    using same by (simp add: capture_take_def sample_audio_fields k_capture_slots_def k_actor_poll_interval_def)
      (simp add: sample_audio_def mod_Suc_eq sample_engine_fields add.commute)
qed

lemma sample_listener:
  "run_capture_command Cmd_ResetListener (Hs_Done True) (sample_audio n b) = (True, sample_audio n True)"
  by (simp add: run_capture_command_def post_command_def apply_capture_command_def command_result_def
     clear_queued_decisions_def command_settled_def sample_audio_fields Let_def)
    (simp add: sample_audio_def sample_engine_fields)

lemma sample_endpoint_config: "\<lparr>tc_host = ''voice.local'', tc_port = 17806,
     tc_device_id = ''00112233-4455-6677-8899-aabbccddeeff'',
     tc_spki_sha256_base64 = replicate 43 (CHR ''A'') @ ''=''\<rparr> = sample_transport_config"
  by (simp add: sample_transport_config_def)

lemma enter_sample [simp]: "enter p (sample_phase ths) c = (fold (thread_step p) ths c)
   \<lparr>c_now := 0, c_sends := replicate 4 quiet_env, c_handshakes := [Hs_Done True]\<rparr>"
  by (simp add: enter_def sample_phase_def)

lemma sample_pass_fields:
  "in_connect (sample_pass a b e f) = sample_phase a" "in_decode (sample_pass a b e f) = sample_decode"
  "in_uri_ok (sample_pass a b e f)" "in_thread_ok (sample_pass a b e f)" "in_no_throw (sample_pass a b e f)"
  "in_capture (sample_pass a b e f) = sample_phase [Th_Capture True (Some f)]"
  "in_finish (sample_pass a b e f) = sample_phase b" "in_drain (sample_pass a b e f) = [sample_phase e]"
  "in_ui (sample_pass a b e f) = sample_phase []" "in_volume_change (sample_pass a b e f) = None"
  "in_action (sample_pass a b e f) = None" "in_overflow (sample_pass a b e f) = sample_phase []"
  "in_deadline (sample_pass a b e f) = sample_phase []" "in_frame (sample_pass a b e f) = sample_phase []"
  by (simp_all add: sample_pass_def)

lemmas sample_parts = sample_pass_fields sample_endpoint_def sample_client_fields


lemma sample_connected: "capture_phase sample_parser sample_pass1 (connect_phase sample_parser sample_pass1 sample_client) =
   (Cap_Frame sample_wake, sample_client\<lparr>c_endpoint :=
         \<lparr>ep_host = ''voice.local'', ep_port = 17806, ep_spki = replicate 43 (CHR ''A'') @ ''=''\<rparr>,
         c_endpoint_ready := True, c_network_needed := False, c_hello_sent := False, c_state_deadline := k_connect_wait,
         c_wire := [], c_transport := Some sample_start, c_now := 0,
         c_sends := replicate 4 quiet_env, c_handshakes := [Hs_Done True], c_audio := sample_audio 1 False\<rparr>)"
  apply (simp add: connect_phase_def capture_phase_def sample_parts start_connect_def Let_def)
  apply (simp add: sample_client_config_def sample_endpoint_config sample_connect sample_audio_start
      sample_take [of sample_wake 0] sample_frame_fields)
  done

lemma hello_body: "control_body (sample_start\<lparr>t_connected := True\<rparr>) (make_control Ctl_Hello no_ids c) =
    Inr (''hello'', ''{'' @ [CHR 0x22] @ ''device_token'' @ [CHR 0x22] @ '':'' @ quote default_device_token @ ''}'')"
  if "cfg_device_token (c_config c) = default_device_token"
  using that by (simp add: control_body_def make_control_def no_ids_def default_device_token_def is_valid_device_token_def visible_ascii_byte_def byte_of_def)


lemma sample_hello:
  assumes "c_transport c = Some (sample_start\<lparr>t_connected := True\<rparr>)" "c_sends c = quiet_env # ss"
    "cfg_device_token (c_config c) = default_device_token"
  shows "\<exists>w. client_send Ctl_Hello no_ids c = (True, c\<lparr>c_message := c_message c + 1, c_sends := ss,
    c_transport := Some (sample_start\<lparr>t_connected := True\<rparr>), c_wire := w\<rparr>)"
proof -
  have "length (quote default_device_token) \<le> 900"
    using length_quote [of default_device_token] by (simp add: default_device_token_def)
  then have "client_send Ctl_Hello no_ids c = (True, c\<lparr>c_message := c_message c + 1, c_sends := ss,
    c_transport := Some (after_control (sample_start\<lparr>t_connected := True\<rparr>) (make_control Ctl_Hello no_ids c)),
    c_wire := c_wire c @ [Out_Text (make_control Ctl_Hello no_ids c) (control_json (sample_start\<lparr>t_connected := True\<rparr>)
      (make_control Ctl_Hello no_ids c) ''hello'' (''{'' @ [CHR 0x22] @ ''device_token'' @ [CHR 0x22] @ '':'' @ quote default_device_token @ ''}''))]\<rparr>)"
    by (intro client_send_quiet [OF hello_body [OF assms(3)] assms(1) _ _ _ _ assms(2)]) (simp_all add: sample_start_fields)
  moreover have "after_control (sample_start\<lparr>t_connected := True\<rparr>) (make_control Ctl_Hello no_ids c) = sample_start\<lparr>t_connected := True\<rparr>"
    by (simp add: after_control_def make_control_def)
  ultimately show ?thesis by (intro exI) (simp only:)
qed

definition sample_ack_event :: inbound where
  "sample_ack_event = no_inbound\<lparr>in_kind := In_HelloAck, in_ids := \<lparr>session = 7, turn = 0, stream = 0, epoch = 3\<rparr>\<rparr>"

definition sample_drained :: event_queue where
  "sample_drained = snd (the (event_pop (snd (event_push sample_ack_event empty_queue))))"

lemma sample_drain:
  "event_pop (snd (event_push sample_ack_event empty_queue)) = Some (sample_ack_event, sample_drained)"
  "q_overflow sample_drained = False" "event_pop sample_drained = None"
  by (simp_all add: sample_drained_def event_pop_def event_push_def empty_queue_def event_capacity_def)

lemma sample_ack_arrives: "c_transport c = Some (sample_start\<lparr>t_connected := True\<rparr>) \<Longrightarrow> c_events c = empty_queue \<Longrightarrow>
  wss_step sample_parser (W_Message (Text_Message sample_ack_json)) c = c\<lparr>c_transport := Some sample_open,
    c_events := snd (event_push sample_ack_event empty_queue), c_wire := c_wire c @ [Out_Inbound sample_ack_event]\<rparr>"
  using sample_ack_step
  by (simp add: wss_step_def on_effect_def push_event_def logged_step_def sample_ack_event_def split: prod.splits)


definition sample_linked :: "effect list \<Rightarrow> client" where
  "sample_linked w = sample_client\<lparr>c_endpoint :=
         \<lparr>ep_host = ''voice.local'', ep_port = 17806, ep_spki = replicate 43 (CHR ''A'') @ ''=''\<rparr>,
         c_endpoint_ready := True, c_network_needed := False, c_hello_sent := True, c_state_deadline := k_hello_ack_wait,
         c_wire := w, c_transport := Some (sample_start\<lparr>t_connected := True\<rparr>), c_now := 0,
         c_sends := replicate 3 quiet_env, c_handshakes := [Hs_Done True], c_audio := sample_audio 1 False, c_message := 2\<rparr>"

lemma sample_hello_phase:
  "\<exists>w. finish_connect (enter sample_parser (in_finish sample_pass1) (snd (capture_phase sample_parser sample_pass1 (connect_phase sample_parser sample_pass1 sample_client))))
    = sample_linked w"
proof -
  define c2 where "c2 = enter sample_parser (in_finish sample_pass1) (snd (capture_phase sample_parser sample_pass1 (connect_phase sample_parser sample_pass1 sample_client)))"
  have c2: "c2 = sample_client\<lparr>c_endpoint :=
         \<lparr>ep_host = ''voice.local'', ep_port = 17806, ep_spki = replicate 43 (CHR ''A'') @ ''=''\<rparr>,
         c_endpoint_ready := True, c_network_needed := False, c_hello_sent := False, c_state_deadline := k_connect_wait,
         c_wire := [], c_transport := Some (sample_start\<lparr>t_connected := True\<rparr>), c_now := 0,
         c_sends := replicate 4 quiet_env, c_handshakes := [Hs_Done True], c_audio := sample_audio 1 False\<rparr>"
   by (simp add: c2_def sample_connected sample_pass_fields wss_step_def on_open_def sample_start_fields)
  obtain w where "client_send Ctl_Hello no_ids c2 = (True, c2\<lparr>c_message := c_message c2 + 1, c_sends := replicate 3 quiet_env,
    c_transport := Some (sample_start\<lparr>t_connected := True\<rparr>), c_wire := w\<rparr>)"
    using sample_hello [of c2 "replicate 3 quiet_env"]
    by (auto simp: c2 sample_client_fields sample_client_config_def numeral_eq_Suc)
  then have "finish_connect c2 = sample_linked w"
    by (simp add: finish_connect_def c2 sample_linked_def sample_client_fields)
  then show ?thesis by (auto simp: c2_def)
qed


definition sample_ready :: "effect list \<Rightarrow> client" where
  "sample_ready w = sample_client\<lparr>c_endpoint :=
         \<lparr>ep_host = ''voice.local'', ep_port = 17806, ep_spki = replicate 43 (CHR ''A'') @ ''=''\<rparr>,
     c_endpoint_ready := True, c_network_needed := False, c_hello_sent := True, c_message := 2,
     c_transport := Some sample_open, c_wire := w, c_events := sample_drained, c_state_deadline := k_response_wait,
     c_turn_ids := \<lparr>session = 7, turn = 1, stream = 1, epoch = 3\<rparr>, c_reconnect_attempt := 0, c_heartbeat_deadline := k_heartbeat_wait,
     c_pre_head := 0, c_pre_count := 0, c_audio := sample_audio 1 True,
     c_ui := [Call_Volume 60, Call_Brightness 100, Call_State Ui_Offline, Call_State Ui_Idle],
     c_now := 0, c_sends := replicate 4 quiet_env, c_handshakes := [Hs_Done True]\<rparr>"

lemma sample_pass1_input:
  "\<exists>w. input_phase sample_parser sample_pass1 (snd (capture_phase sample_parser sample_pass1 (connect_phase sample_parser sample_pass1 sample_client))) = 
     sample_ready w"
proof -
  obtain w where w: "finish_connect (enter sample_parser (in_finish sample_pass1) (snd (capture_phase sample_parser sample_pass1 (connect_phase sample_parser sample_pass1 sample_client))))
    = sample_linked w" using sample_hello_phase by blast
  have d: "enter sample_parser (in_ui sample_pass1) (drain_events sample_parser (take k_events_per_capture_frame (in_drain sample_pass1)) (sample_linked w)) = sample_ready (w @ [Out_Inbound sample_ack_event])"
    by (simp add: sample_pass_fields sample_linked_def sample_ack_arrives sample_client_fields k_events_per_capture_frame_def sample_drain Let_def)
      (simp add: handle_event_def sample_ack_event_def handle_hello_ack_def reset_listener_def audio_command_def take_handshake_def sample_listener sample_audio_fields
      ui_call_def sample_client_fields sample_ready_def)
  show ?thesis
    unfolding input_phase_def w Let_def d
    by (intro exI) (simp add: sample_pass_fields poll_ui_def)
qed



definition sample_waiting :: "effect list \<Rightarrow> client" where
  "sample_waiting w = (sample_ready w)\<lparr>c_next_capture_sequence := 1, c_pre := (replicate 67 no_frame)[0 := sample_wake],
     c_pre_count := 1, c_state := St_WaitingForSpeech, c_state_deadline := k_speech_start_wait,
     c_ui := [Call_Volume 60, Call_Brightness 100, Call_State Ui_Offline, Call_State Ui_Idle, Call_State Ui_Listening],
     c_handshakes := [], c_taken := [sample_wake]\<rparr>"

lemma sample_pass1: "\<exists>w. run_pass sample_parser sample_pass1 sample_client = Going (sample_waiting w)"
proof -
  have a: "\<not> c_listener_failed (connect_phase sample_parser sample_pass1 sample_client)"
    by (simp add: connect_phase_def sample_parts start_connect_def Let_def) 
       (simp add: sample_client_config_def sample_endpoint_config sample_connect sample_client_fields)
  obtain cap c2 where cap: "capture_phase sample_parser sample_pass1 (connect_phase sample_parser sample_pass1 sample_client) = (cap, c2)"
    by fastforce
  then have cap': "cap = Cap_Frame sample_wake" using sample_connected by simp
  obtain w where w: "input_phase sample_parser sample_pass1 c2 = sample_ready w" using sample_pass1_input cap by auto
  have o: "overflow_phase sample_parser sample_pass1 (sample_ready w) = sample_ready w"
    by (simp add: overflow_phase_def sample_pass_fields sample_ready_def Let_def sample_drain)
  have d: "deadline_phase sample_parser sample_pass1 (sample_ready w) = (True, sample_ready w)"
    by (simp add: deadline_phase_def sample_pass_fields sample_ready_def advance_deadlines_def wait_consts sample_client_fields)
  have l: "\<not> c_listener_failed (sample_ready w)" "\<not> c_listener_failed (sample_waiting w)"
    by (simp_all add: sample_ready_def sample_waiting_def sample_client_fields)
  have "frame_phase sample_parser sample_pass1 sample_wake (sample_ready w) = sample_waiting w"
    by (simp add: frame_phase_def sample_pass_fields on_frame_def Let_def sample_ready_def sample_client_fields thaw_barge_def store_frame_def
      save_pre_roll_def k_pre_roll_frames_def frame_in_state_def begin_listening_def ui_call_def reset_listener_def audio_command_def take_handshake_def
      sample_frame_fields sample_audio_fields sample_listener sample_waiting_def)
  then have "run_pass sample_parser sample_pass1 sample_client = Going (sample_waiting w)"
    using a l unfolding run_pass_def Let_def cap prod.case w o d cap' by simp
  then show ?thesis by blast
qed

text \<open>A pass in which nothing arrives but a frame.\<close>

lemma sample_frame_pass:
  assumes "c_transport c = Some t" "\<not> c_listener_failed c" "c_hello_sent c" "event_pop (c_events c) = None"
    "\<not> q_overflow (c_events c)" "c_audio c = sample_audio n b" "session (c_turn_ids c) \<noteq> 0" "0 < c_heartbeat_deadline c"
    "0 < c_state_deadline c" "c_state c = St_WaitingForSpeech \<or> c_state c = St_CapturingSpeech" "\<not> cf_discontinuity f"
  shows "run_pass sample_parser (sample_pass [] [] [] f) c =
    (let d = on_frame (f\<lparr>cf_sequence := of_nat n\<rparr>) (c\<lparr>c_now := 0, c_sends := replicate 4 quiet_env, c_handshakes := [Hs_Done True],
         c_audio := sample_audio (Suc n) b\<rparr>)
     in if c_listener_failed d then client_fail d else Going d)"
proof -
  let ?i = "sample_pass [] [] [] f"
  define c1 where "c1 = c\<lparr>c_now := 0, c_sends := replicate 4 quiet_env, c_handshakes := [Hs_Done True]\<rparr>"
  define c2 where "c2 = c1\<lparr>c_audio := sample_audio (Suc n) b\<rparr>"
  have 1: "connect_phase sample_parser ?i c = c1"
    using assms(1) by (simp add: connect_phase_def sample_pass_fields Let_def c1_def)
  have 2: "capture_phase sample_parser ?i c1 = (Cap_Frame (f\<lparr>cf_sequence := of_nat n\<rparr>), c2)"
    using sample_take [OF assms(11), of n b] assms(6)
    by (simp add: capture_phase_def sample_pass_fields Let_def c1_def c2_def)
  have again: "c2\<lparr>c_now := 0, c_sends := replicate 4 quiet_env, c_handshakes := [Hs_Done True]\<rparr> = c2"
    by (simp add: c2_def c1_def)
  have f: "c_transport c2 = Some t" "c_hello_sent c2" "event_pop (c_events c2) = None" "\<not> q_overflow (c_events c2)"
    "\<not> c_listener_failed c2" "session (c_turn_ids c2) \<noteq> 0" "0 < c_heartbeat_deadline c2" "0 < c_state_deadline c2"
    "c_state c2 = St_WaitingForSpeech \<or> c_state c2 = St_CapturingSpeech" "c_now c2 = 0"
    using assms by (simp_all add: c2_def c1_def)
  have 3: "input_phase sample_parser ?i c2 = c2"
    using f by (simp add: input_phase_def sample_pass_fields Let_def finish_connect_def k_events_per_capture_frame_def poll_ui_def again)
  have 4: "overflow_phase sample_parser ?i c2 = c2" using f by (simp add: overflow_phase_def sample_pass_fields Let_def again)
  have 5: "deadline_phase sample_parser ?i c2 = (True, c2)"
    using f by (auto simp: deadline_phase_def sample_pass_fields advance_deadlines_def again)
  have 6: "frame_phase sample_parser ?i g c2 = on_frame g c2" for g by (simp add: frame_phase_def sample_pass_fields again)
  have 7: "\<not> c_listener_failed c1" using assms(2) by (simp add: c1_def)
  show ?thesis unfolding run_pass_def 1 2 Let_def prod.case 3 4 5 6
    using f(5) 7 by (simp add: c2_def c1_def)
qed

definition sample_turn_begins :: "effect list \<Rightarrow> client" where
  "sample_turn_begins w = (sample_waiting w)\<lparr>c_now := 0, c_sends := replicate 4 quiet_env,
      c_handshakes := [Hs_Done True], c_audio := sample_audio 2 True, c_next_capture_sequence := 2, c_taken := [sample_wake, sample_voice],
      c_pre := (replicate 67 no_frame)[0 := sample_wake, Suc 0 := sample_voice], c_pre_count := Suc (Suc 0)\<rparr>"

definition sample_captured :: "effect list \<Rightarrow> client" where
  "sample_captured w = turn_started ''turn.start'' (''{'' @ [CHR 0x22] @ ''sample_rate_hz'' @ [CHR 0x22] @ '':16000}'') sample_open
     [quiet_env] (sample_turn_begins w)"

lemma sample_turn_begins_fields:
  "c_transport (sample_turn_begins w) = Some sample_open" "session (c_turn_ids (sample_turn_begins w)) \<noteq> 0"
  "c_pre_count (sample_turn_begins w) = 2" "c_sends (sample_turn_begins w) = replicate 4 quiet_env"
  "\<not> c_listener_failed (sample_turn_begins w)" "pre_roll (sample_turn_begins w) = [sample_wake, sample_voice]"
  "c_turn_ids (sample_turn_begins w) = sample_ids"
  by (simp_all add: sample_turn_begins_def sample_waiting_def sample_ready_def sample_client_fields pre_roll_def upt_conv_Cons
      sample_ids_def)

lemma sample_pass2: "run_pass sample_parser sample_pass2 (sample_waiting w) = Going (sample_captured w)"
proof -
  have w: "c_transport (sample_waiting w) = Some sample_open" "\<not> c_listener_failed (sample_waiting w)" "c_hello_sent (sample_waiting w)"
    "event_pop (c_events (sample_waiting w)) = None" "\<not> q_overflow (c_events (sample_waiting w))"
    "c_audio (sample_waiting w) = sample_audio 1 True" "session (c_turn_ids (sample_waiting w)) \<noteq> 0"
    "0 < c_heartbeat_deadline (sample_waiting w)" "0 < c_state_deadline (sample_waiting w)"
    "c_state (sample_waiting w) = St_WaitingForSpeech \<or> c_state (sample_waiting w) = St_CapturingSpeech"
    by (simp_all add: sample_waiting_def sample_ready_def sample_client_fields sample_drain wait_consts)
  have pass: "run_pass sample_parser sample_pass2 (sample_waiting w) =
    (let d = on_frame sample_voice ((sample_waiting w)\<lparr>c_now := 0, c_sends := replicate 4 quiet_env, c_handshakes := [Hs_Done True],
         c_audio := sample_audio 2 True\<rparr>)
     in if c_listener_failed d then client_fail d else Going d)"
    using sample_frame_pass [OF w sample_frame_fields(7)] sample_frame_fields(14) by (simp add: numeral_2_eq_2)
  have frame: "on_frame sample_voice ((sample_waiting w)\<lparr>c_now := 0, c_sends := replicate 4 quiet_env, c_handshakes := [Hs_Done True],
         c_audio := sample_audio 2 True\<rparr>) = snd (start_turn False (sample_turn_begins w))"
    by (simp add: on_frame_def Let_def sample_waiting_def sample_ready_def sample_client_fields thaw_barge_def store_frame_def
      save_pre_roll_def k_pre_roll_frames_def frame_in_state_def sample_frame_fields sample_turn_begins_def)
  note b = sample_turn_begins_fields [of w]
  have body: "control_body sample_open (make_control Ctl_TurnStart (c_turn_ids (sample_turn_begins w)) (sample_turn_begins w)) =
      Inr (''turn.start'', ''{'' @ [CHR 0x22] @ ''sample_rate_hz'' @ [CHR 0x22] @ '':16000}'')"
    by (simp add: b control_body_def make_control_def sample_ids_def sample_open_def valid_ids_def sample_start_fields no_ids_def)
  have sends: "c_sends (sample_turn_begins w) = replicate (Suc (c_pre_count (sample_turn_begins w))) quiet_env @ [quiet_env]"
    unfolding b by (simp add: numeral_eq_Suc)
  have start: "start_turn False (sample_turn_begins w) = (True, sample_captured w)"
    unfolding sample_captured_def
    by (rule start_turn_quiet [OF b(1) _ _ b(2) body _ _ sends])
      (simp_all add: b(3,6) sample_open_def sample_start_fields sample_frame_fields)
  have "\<not> c_listener_failed (sample_captured w)"
    by (simp add: sample_captured_def turn_started_def Let_def b)
  then show ?thesis by (simp add: pass frame start)
qed

text \<open>The run: connect, hello and its answer, the wake word, the start of speech.\<close>

definition sample_passes :: "pass_input list" where
  "sample_passes = [sample_pass1, sample_pass2]"

definition sample_capturing :: client where
  "sample_capturing = client_of (run_client sample_parser sample_client_config sample_settings True True True 0 0 sample_passes)"

lemma sample_capturing_form:
  obtains w where "run_client sample_parser sample_client_config sample_settings True True True 0 0 sample_passes = Going sample_capturing"
    "sample_capturing = sample_captured w"
proof -
  obtain w where w: "run_pass sample_parser sample_pass1 sample_client = Going (sample_waiting w)" using sample_pass1 by blast
  have loop: "run_loop sample_parser sample_passes sample_client = Going (sample_captured w)"
    unfolding sample_passes_def run_loop.simps w loop_result.case sample_pass2 by (rule refl)
  have run: "run_client sample_parser sample_client_config sample_settings True True True 0 0 sample_passes = Going (sample_captured w)"
    unfolding run_client_def sample_client_start loop_result.case by (rule loop)
  then have "sample_capturing = sample_captured w" by (simp only: sample_capturing_def client_of_simps)
  with run show thesis by (intro that [of w]) simp_all
qed

lemma sample_captured_fields:
  "c_state (sample_captured w) = St_CapturingSpeech" "c_uplink_sequence (sample_captured w) = 2"
  "c_transport (sample_captured w) = Some (uploaded 2 False (after_control sample_open
     (make_control Ctl_TurnStart sample_ids (sample_turn_begins w))))"
  by (simp_all add: sample_captured_def turn_started_def Let_def sample_turn_begins_fields)

lemma sample_capturing_run:
  obtains t where "run_client sample_parser sample_client_config sample_settings True True True 0 0 sample_passes = Going sample_capturing"
    "c_state sample_capturing = St_CapturingSpeech" "c_transport sample_capturing = Some t" "t_connected t" "t_active t"
    "c_uplink_sequence sample_capturing = 2"
proof -
  obtain w where w: "run_client sample_parser sample_client_config sample_settings True True True 0 0 sample_passes = Going sample_capturing"
    "sample_capturing = sample_captured w" by (rule sample_capturing_form)
  show thesis
    by (rule that [OF w(1)], unfold w(2), rule sample_captured_fields, rule sample_captured_fields)
      (simp_all add: sample_captured_fields uploaded_def after_control_def make_control_def sample_open_def)
qed

end
