(* ===== verification/ClientSafety.thy ===== *)
theory ClientSafety
  imports ClientSample
begin

section \<open>What the client promises\<close>

text \<open>
  The properties of whole runs of \<^verbatim>\<open>VoiceClient::Run\<close>: bounds, the rules of the session on its wire,
  back-off, deadlines, and what the actor does while a cancellation is pending.
\<close>

subsection \<open>Every run\<close>

text \<open>C14: on every run, whatever the other threads, the server and the board do, the fixed buffers of the
  client are used within their bounds: the pre-roll ring, the event queue, the subtitle, the volume and
  the counters of the barge-in probe.\<close>

theorem client_bounds:
  assumes "volume_percent cfg \<le> 100" and "c = client_of (run_client p cfg s bo th ne origin now is)"
  shows "length (c_pre c) = 67 \<and> c_pre_head c < 67 \<and> c_pre_count c \<le> 67 \<and>
    length (q_slots (c_events c)) = 64 \<and> q_head (c_events c) < 64 \<and> q_tail (c_events c) < 64 \<and> q_count (c_events c) \<le> 64 \<and>
    length (c_subtitle c) \<le> 126 \<and> c_volume c \<le> 100 \<and> c_reconnect_attempt c \<le> 5 \<and>
    c_barge_probe_frames c \<le> 15 \<and> c_barge_cooldown_frames c \<le> 15 \<and> c_barge_silence_frames c \<le> 10"
proof -
  have s: "shape c" using run_inv_client [OF assms(1)] assms(2) by (simp add: client_inv_def)
  have "c_barge_probe_frames c \<le> 15"
    using s by (simp add: shape_def probe_ok_def frame_consts split: barge_probe.splits)
  then show ?thesis
    using s by (simp add: shape_def buffers_def queue_valid_def event_capacity_def frame_consts)
qed

theorem client_bounds_witness:
  "length (c_pre sample_capturing) = 67 \<and> c_pre_count sample_capturing \<le> 67 \<and> c_volume sample_capturing \<le> 100"
  using client_bounds [OF _ sample_capturing_def] by (simp add: sample_client_config_def)



text \<open>C3: actor and transport agree: whenever a run has the actor capturing speech, it has a transport, and
  while that is connected and the turn is active the very next frame of the microphone gets a header the
  transport accepts, so no frame of an utterance is ever refused for its numbering or identity.\<close>

theorem capture_frames_acceptable:
  assumes "volume_percent cfg \<le> 100" and "c = client_of (run_client p cfg s bo th ne origin now is)"
    and "c_state c = St_CapturingSpeech"
  shows "\<exists>t. c_transport c = Some t \<and> (t_connected t \<longrightarrow> t_active t \<longrightarrow>
    (\<forall>f is_end. length (cf_pcm f) = 320 \<longrightarrow> pcm_acceptable t (audio_header f is_end c) (sample_bytes (cf_pcm f))))"
proof -
  have p: "proto c" using run_inv_client [OF assms(1)] assms(2) by (simp add: client_inv_def)
  then obtain t where t: "c_transport c = Some t" "capture_link t (c_turn_ids c) (c_uplink_sequence c)"
    using assms(3) by (auto simp: proto_def link_def)
  have "c_uplink_sequence c \<le> k_maximum_turn_frames"
    using proto_wire [OF p] t by (simp add: wire_ok_def capture_link_def)
  then have "pcm_acceptable t (audio_header f b c) (sample_bytes (cf_pcm f))"
    if "t_connected t" "t_active t" "length (cf_pcm f) = 320" for f b
    using that header_acceptable [OF t(2), of f b] by (cases "cf_pcm f") simp_all
  then show ?thesis using t(1) by blast
qed

theorem capture_frames_acceptable_witness:
  "\<exists>t. c_transport sample_capturing = Some t \<and>
     pcm_acceptable t (audio_header no_frame False sample_capturing) (sample_bytes (cf_pcm no_frame))"
proof -
  obtain t where t: "c_transport sample_capturing = Some t" "t_connected t" "t_active t" "c_state sample_capturing = St_CapturingSpeech"
    using sample_capturing_run by metis
  have "volume_percent sample_client_config \<le> 100" by (simp add: sample_client_config_def)
  moreover have "length (cf_pcm no_frame) = 320" by (simp add: no_frame_def)
  ultimately show ?thesis using capture_frames_acceptable [OF _ sample_capturing_def t(4)] t(1-3)
    by (metis option.inject)
qed

text \<open>C9: a turn opened over a quiet connection sends \<^verbatim>\<open>turn.start\<close> and then the whole pre-roll, oldest
  frame first, each as the next PCM frame of the turn; nothing of it is left behind and nothing is sent
  twice.\<close>

theorem turn_starts_with_pre_roll:
  assumes "c_transport c = Some t" "t_connected t" "length (t_device_id t) = 36" "session (c_turn_ids c) \<noteq> 0"
    and "control_body t (make_control Ctl_TurnStart (c_turn_ids c) c) = Inr (type, payload)"
    and "\<forall>f \<in> set (pre_roll c). 0 < length (cf_pcm f) \<and> length (cf_pcm f) \<le> 320" "c_pre_count c < 3000"
    and "c_sends c = replicate (Suc (c_pre_count c)) quiet_env @ ss"
    and "t' = after_control t (make_control Ctl_TurnStart (c_turn_ids c) c)"
  shows "\<exists>c'. start_turn False c = (True, c') \<and> c_state c' = St_CapturingSpeech \<and> pre_roll c' = [] \<and>
    c_uplink_sequence c' = of_nat (length (pre_roll c)) \<and>
    c_wire c' = c_wire c @ [Out_Text (make_control Ctl_TurnStart (c_turn_ids c) c)
        (control_json t (make_control Ctl_TurnStart (c_turn_ids c) c) type payload)] @
      map (\<lambda>k. Out_Frame (encode_pcm64 (t_uuid t') (audio_header (pre_roll c ! k) False (c\<lparr>c_uplink_sequence := of_nat k\<rparr>))
        (sample_bytes (cf_pcm (pre_roll c ! k))))) [0..<length (pre_roll c)]"
proof -
  have len: "length (pre_roll c) = c_pre_count c" by (simp add: pre_roll_def)
  have "pre_roll (turn_started type payload t ss c) = []" by (simp add: pre_roll_def turn_started_def Let_def)
  then show ?thesis using start_turn_quiet [OF assms(1-8)] len
    by (intro exI [of _ "turn_started type payload t ss c"]) (simp add: turn_started_def Let_def upload_frames_def assms(9))
qed

definition sample_before_turn :: client where
  "sample_before_turn = (sample_ready [])\<lparr>c_pre := (replicate 67 no_frame)[0 := sample_wake], c_pre_count := 1\<rparr>"

theorem turn_starts_with_pre_roll_witness:
  "\<exists>c'. start_turn False sample_before_turn = (True, c') \<and> pre_roll sample_before_turn = [sample_wake] \<and> c_uplink_sequence c' = 1"
proof -
  have pre: "pre_roll sample_before_turn = [sample_wake]"
    by (simp add: pre_roll_def sample_before_turn_def sample_ready_def)
  have c: "c_transport sample_before_turn = Some sample_open" "session (c_turn_ids sample_before_turn) \<noteq> 0"
      "c_pre_count sample_before_turn < 3000"
    by (simp_all add: sample_before_turn_def sample_ready_def)
  have e: "c_sends sample_before_turn = replicate (Suc (c_pre_count sample_before_turn)) quiet_env @ [quiet_env, quiet_env]"
    by (simp add: sample_before_turn_def sample_ready_def) (simp add: numeral_eq_Suc)
  have o: "t_connected sample_open" "length (t_device_id sample_open) = 36"
    by (simp_all add: sample_open_def sample_start_fields)
  have body: "control_body sample_open (make_control Ctl_TurnStart (c_turn_ids sample_before_turn) sample_before_turn) =
      Inr (''turn.start'', ''{'' @ [CHR 0x22] @ ''sample_rate_hz'' @ [CHR 0x22] @ '':16000}'')"
    by (simp add: control_body_def make_control_def sample_before_turn_def sample_ready_def sample_open_def valid_ids_def
        sample_start_fields no_ids_def)
  have "\<forall>f \<in> set (pre_roll sample_before_turn). 0 < length (cf_pcm f) \<and> length (cf_pcm f) \<le> 320"
    by (simp add: pre sample_frame_fields)
  from turn_starts_with_pre_roll [OF c(1) o c(2) body this c(3) e refl] show ?thesis by (auto simp: pre)
qed

subsection \<open>Losing the connection\<close>

lemma lose_keeps [simp]:
  "c_now (lose_connection c) = c_now c"
  "c_reconnect_attempt (lose_connection c) = (if c_reconnect_attempt c < 5 then c_reconnect_attempt c + 1 else c_reconnect_attempt c)"
  "c_next_connect (lose_connection c) = c_now c + 1000 * retry_seconds (c_reconnect_attempt c)"
  "c_network_needed (lose_connection c)" "c_pre_count (lose_connection c) = 0"
  "c_response_ids (lose_connection c) = no_ids" "c_finish_after_cancel_ack (lose_connection c) = False"
  "c_barge_turn_admitted (lose_connection c) = False"
proof -
  have close: "c_now (close_wire c) = c_now c" "c_reconnect_attempt (close_wire c) = c_reconnect_attempt c"
    by (simp_all add: close_wire_def split: option.split prod.split)
  have listener: "c_finish_after_cancel_ack (reset_listener d) = c_finish_after_cancel_ack d" for d
    using reset_listener_form [of d] by auto
  show "c_now (lose_connection c) = c_now c"
    "c_reconnect_attempt (lose_connection c) = (if c_reconnect_attempt c < 5 then c_reconnect_attempt c + 1 else c_reconnect_attempt c)"
    "c_next_connect (lose_connection c) = c_now c + 1000 * retry_seconds (c_reconnect_attempt c)"
    "c_network_needed (lose_connection c)" "c_pre_count (lose_connection c) = 0"
    "c_response_ids (lose_connection c) = no_ids" "c_finish_after_cancel_ack (lose_connection c) = False"
    "c_barge_turn_admitted (lose_connection c) = False"
    by (simp_all add: lose_connection_def Let_def close listener ui_call_def on_audio_def clear_subtitle_def
        reset_barge_probe_def reset_barge_turn_def)
qed



subsection \<open>Deadlines\<close>

text \<open>The actor with nothing but its clock: time goes on to the deadline of the state and is checked.\<close>

definition expire :: "client \<Rightarrow> client" where
  "expire c = snd (advance_deadlines (c\<lparr>c_now := max (c_now c) (c_state_deadline c)\<rparr>))"

lemma client_send_state: "client_send k ids c = (ok, c') \<Longrightarrow> c_state c' = c_state c \<and> c_listener_failed c' = c_listener_failed c"
  using client_send_form [of k ids c ok c'] by auto

lemma abort_state: "c_state (abort_current c) \<in> {St_CancelPending, St_WaitingForWake}"
  by (simp add: abort_current_def Let_def lose_fields split: prod.split bool.split)

lemma finish_state: "c_state (finish_turn n c) = St_WaitingForFollowUp"
  by (simp add: finish_turn_def Let_def)

lemma no_session_rests: "session (c_turn_ids c) = 0 \<Longrightarrow> c_transport c = None \<Longrightarrow> expire c = c\<lparr>c_now := max (c_now c) (c_state_deadline c)\<rparr>"
  by (simp add: expire_def advance_deadlines_def)

lemma session_no_ids [simp]: "session no_ids = 0" by (simp add: no_ids_def)

text \<open>Where one expired deadline leads.\<close>

lemma expire_state:
  assumes "session (c_turn_ids c) \<noteq> 0"
  shows "c_state (expire c) = St_WaitingForWake \<or> c_listener_failed (expire c) \<or>
    (c_state (expire c) = St_CancelPending \<and>
      c_state c \<notin> {St_CancelPending, St_WaitingForWake, St_WaitingForSpeech, St_WaitingForFollowUp}) \<or>
    (c_state (expire c) = St_WaitingForFollowUp \<and> c_state c = St_DrainingPlayback)"
proof -
  define d where "d = c\<lparr>c_now := max (c_now c) (c_state_deadline c)\<rparr>"
  have d: "session (c_turn_ids d) \<noteq> 0" "c_state_deadline d \<le> c_now d" "c_state d = c_state c"
    using assms by (simp_all add: d_def)
  have "c_state (snd (advance_deadlines d)) = St_WaitingForWake \<or> c_listener_failed (snd (advance_deadlines d)) \<or>
    (c_state (snd (advance_deadlines d)) = St_CancelPending \<and>
      c_state d \<notin> {St_CancelPending, St_WaitingForWake, St_WaitingForSpeech, St_WaitingForFollowUp}) \<or>
    (c_state (snd (advance_deadlines d)) = St_WaitingForFollowUp \<and> c_state d = St_DrainingPlayback)"
    using d(1,2) abort_state [of d] by (auto simp: advance_deadlines_def lose_fields finish_state)
  then show ?thesis by (simp add: expire_def d_def)
qed

lemma expire_session:
  assumes "session (c_turn_ids c) \<noteq> 0"
  shows "session (c_turn_ids (expire c)) \<noteq> 0 \<or>
    (session (c_turn_ids (expire c)) = 0 \<and> c_transport (expire c) = None \<and> c_state (expire c) = St_WaitingForWake)"
proof -
  define d where "d = c\<lparr>c_now := max (c_now c) (c_state_deadline c)\<rparr>"
  have s: "session (c_turn_ids d) \<noteq> 0" using assms by (simp add: d_def)
  have send: "client_send k ids e = (ok, e') \<Longrightarrow> c_turn_ids e' = c_turn_ids e" for k ids e ok e'
    using client_send_form [of k ids e ok e'] by auto
  have "session (c_turn_ids (abort_current d)) \<noteq> 0 \<or> abort_current d = lose_connection (snd (client_send
      (if session (c_response_ids d) \<noteq> 0 then Ctl_ResponseCancel else Ctl_TurnCancel)
      (if session (c_response_ids d) \<noteq> 0 then c_response_ids d else c_turn_ids d)
      ((reset_barge_turn (reset_barge_probe (on_audio drop_playback d)))\<lparr>c_finish_after_cancel_ack := True\<rparr>)))"
  proof -
    have "c_response_ids ((reset_barge_turn (reset_barge_probe (on_audio drop_playback d)))\<lparr>c_finish_after_cancel_ack := True\<rparr>) = c_response_ids d"
      "c_turn_ids ((reset_barge_turn (reset_barge_probe (on_audio drop_playback d)))\<lparr>c_finish_after_cancel_ack := True\<rparr>) = c_turn_ids d"
      by (simp_all add: reset_barge_turn_def reset_barge_probe_def on_audio_def)
    then show ?thesis using s send by (auto simp: abort_current_def Let_def split: prod.split bool.split)
  qed
  then have abort: "session (c_turn_ids (abort_current d)) \<noteq> 0 \<or> (\<exists>e. abort_current d = lose_connection e)" by blast
  have finish: "session (c_turn_ids (finish_turn True d)) \<noteq> 0"
    using s by (simp add: finish_turn_def Let_def)
  show ?thesis
    unfolding expire_def d_def [symmetric] advance_deadlines_def
    using s abort finish lose_fields by (auto simp: lose_fields)
qed

text \<open>C12: a deaf client comes to rest: when nothing arrives any more, neither from the server nor from the
  microphone, at most two expired deadlines take an actor in a session from any state back to waiting
  for the wake word (or end \<^verbatim>\<open>Run\<close> because the audio has failed); no state can be kept for ever.\<close>

theorem deadlines_bring_rest:
  assumes "session (c_turn_ids c) \<noteq> 0"
  shows "c_state (expire (expire c)) = St_WaitingForWake \<or> c_listener_failed (expire c) \<or> c_listener_failed (expire (expire c))"
proof (cases "session (c_turn_ids (expire c)) = 0")
  case True
  then show ?thesis using expire_session [OF assms] no_session_rests by auto
next
  case False
  show ?thesis using expire_state [OF assms] expire_state [OF False] by auto
qed

theorem deadlines_bring_rest_witness:
  "let c = sample_before_turn\<lparr>c_state := St_WaitingForSpeech\<rparr> in
   c_state (expire (expire c)) = St_WaitingForWake \<or> c_listener_failed (expire c) \<or> c_listener_failed (expire (expire c))"
proof -
  have "session (c_turn_ids (sample_before_turn\<lparr>c_state := St_WaitingForSpeech\<rparr>)) \<noteq> 0"
    by (simp add: sample_before_turn_def sample_ready_def)
  from deadlines_bring_rest [OF this] show ?thesis by (simp add: Let_def)
qed

subsection \<open>While a cancellation is pending\<close>

text \<open>C11: from the cancellation to its acknowledgement the actor is deaf to the old response: any number of
  response starts, texts, audio starts, PCM frames and done messages changes nothing at all - no sound is
  queued, no text shown and no deadline prolonged.\<close>

theorem cancelled_response_is_mute:
  assumes "c_state c = St_CancelPending"
    and "\<forall>e \<in> set es. in_kind e \<in> {In_ResponseStart, In_TextDelta, In_AudioStart, In_Pcm, In_Done}"
  shows "fold handle_event es c = c"
  using assms(2) by (induction es) (auto simp: handle_event_def assms(1))

theorem cancelled_response_is_mute_witness:
  "fold handle_event [no_inbound\<lparr>in_kind := In_Pcm, in_audio := [1, 2]\<rparr>, no_inbound\<lparr>in_kind := In_Done\<rparr>]
     (sample_client\<lparr>c_state := St_CancelPending\<rparr>) = sample_client\<lparr>c_state := St_CancelPending\<rparr>"
  by (rule cancelled_response_is_mute) simp_all

subsection \<open>The pre-roll ring\<close>

lemma pre_roll_ring: "pre_roll c = ring_list (c_pre c) (c_pre_head c) (c_pre_count c)"
  by (simp add: pre_roll_def ring_list_def)

definition pre_roll_limit :: "client \<Rightarrow> nat" where
  "pre_roll_limit c = (if c_barge_probe c \<noteq> Probe_Idle \<or> (c_state c = St_CancelPending \<and> c_barge_turn_admitted c)
     then k_barge_buffer_frames else k_pre_roll_frames)"

text \<open>The newest \<open>n\<close> elements of a list.\<close>

definition newest :: "nat \<Rightarrow> 'a list \<Rightarrow> 'a list" where
  "newest n xs = drop (length xs - n) xs"

lemma ring_list_drop:
  assumes "k \<le> n"
  shows "ring_list xs ((h + k) mod length xs) (n - k) = drop k (ring_list xs h n)"
  by (rule nth_equalityI) (use assms in \<open>auto simp: ring_list_def mod_add_left_eq add.assoc\<close>)

lemma pre_roll_keep: "pre_roll (keep_newest_pre_roll n c) = newest n (pre_roll c)"
proof -
  define k where "k = c_pre_count c - min n (c_pre_count c)"
  have "c_pre_head c + c_pre_count c - min n (c_pre_count c) = c_pre_head c + k" by (simp add: k_def)
  moreover have "min n (c_pre_count c) = c_pre_count c - k" "k \<le> c_pre_count c" by (simp_all add: k_def)
  ultimately have "pre_roll (keep_newest_pre_roll n c) = drop k (pre_roll c)"
    using ring_list_drop [of k "c_pre_count c" "c_pre c" "c_pre_head c"]
    by (simp add: pre_roll_ring keep_newest_pre_roll_def Let_def)
  moreover have "k = length (pre_roll c) - n" by (simp add: k_def pre_roll_def)
  ultimately show ?thesis by (simp add: newest_def)
qed

lemma ring_list_slide:
  assumes "0 < c" "c \<le> length xs"
  shows "ring_list (xs[(h + c) mod length xs := x]) ((h + 1) mod length xs) c = tl (ring_list xs h c) @ [x]"
proof (rule nth_equalityI)
  show "length (ring_list (xs[(h + c) mod length xs := x]) ((h + 1) mod length xs) c) = length (tl (ring_list xs h c) @ [x])"
    using assms by simp
next
  fix i assume "i < length (ring_list (xs[(h + c) mod length xs := x]) ((h + 1) mod length xs) c)"
  then have i: "i < c" by simp
  have ne: "0 < length xs" using assms by linarith
  have l: "ring_list (xs[(h + c) mod length xs := x]) ((h + 1) mod length xs) c ! i = xs[(h + c) mod length xs := x] ! ((h + Suc i) mod length xs)"
  proof -
    have "((h + 1) mod length xs + i) mod length xs = (h + Suc i) mod length xs"
      using mod_add_left_eq [of "h + 1" "length xs" i] by simp
    then show ?thesis using i by (simp add: ring_list_def)
  qed
  show "ring_list (xs[(h + c) mod length xs := x]) ((h + 1) mod length xs) c ! i = (tl (ring_list xs h c) @ [x]) ! i"
  proof (cases "Suc i = c")
    case True
    then show ?thesis using l assms ne by (auto simp: nth_append)
  next
    case False
    then have "Suc i < c" using i by simp
    have "(h + c) mod length xs \<noteq> (h + Suc i) mod length xs"
    proof (cases "c = length xs")
      case True
      then have "(h + 0) mod length xs \<noteq> (h + Suc i) mod length xs"
        using ring_index_inject [of 0 "length xs" "Suc i" h] \<open>Suc i < c\<close> ne by (metis nat.distinct(1))
      then show ?thesis using True by simp
    next
      case False
      then show ?thesis using ring_index_inject [of "Suc i" "length xs" c h] \<open>Suc i < c\<close> assms by auto
    qed
    moreover have "i < c - 1" using \<open>Suc i < c\<close> by simp
    moreover have "tl (ring_list xs h c) ! i = xs ! ((h + Suc i) mod length xs)"
      using \<open>Suc i < c\<close> by (subst nth_tl) (simp_all add: ring_list_def)
    ultimately show ?thesis using l by (simp add: nth_append)
  qed
qed

lemma save_pre_roll_cases:
  assumes "\<not> (c_state c = St_CancelPending \<and> c_barge_turn_admitted c \<and> c_pre_count c = length (c_pre c))"
    and "length (c_pre c) = k_barge_buffer_frames"
  shows "save_pre_roll f c = (let c1 = c\<lparr>c_pre := (c_pre c)[(c_pre_head c + c_pre_count c) mod length (c_pre c) := f]\<rparr> in
     if c_pre_count c < pre_roll_limit c then c1\<lparr>c_pre_count := c_pre_count c + 1\<rparr>
     else c1\<lparr>c_pre_head := (c_pre_head c + 1) mod length (c_pre c)\<rparr>)"
  unfolding save_pre_roll_def if_not_P [OF assms(1)] Let_def by (simp add: pre_roll_limit_def assms(2))

lemma pre_roll_save:
  assumes "shape c" and "\<not> (c_state c = St_CancelPending \<and> c_barge_turn_admitted c \<and> c_pre_count c = length (c_pre c))"
  shows "pre_roll (save_pre_roll f c) = (if length (pre_roll c) < pre_roll_limit c then pre_roll c @ [f] else tl (pre_roll c) @ [f])"
proof -
  have l: "length (c_pre c) = k_barge_buffer_frames" "c_pre_head c < k_barge_buffer_frames" "c_pre_count c \<le> k_barge_buffer_frames"
    using assms(1) by (simp_all add: shape_def buffers_def)
  have lim: "pre_roll_limit c \<le> k_barge_buffer_frames" "0 < pre_roll_limit c" by (simp_all add: pre_roll_limit_def frame_consts)
  have len: "length (pre_roll c) = c_pre_count c" by (simp add: pre_roll_def)
  show ?thesis
  proof (cases "c_pre_count c < pre_roll_limit c")
    case True
    then have "c_pre_count c < length (c_pre c)" using lim l by simp
    then show ?thesis using True len ring_list_push [of "c_pre_count c" "c_pre c" "c_pre_head c" f]
      by (simp add: save_pre_roll_cases [OF assms(2) l(1)] Let_def pre_roll_ring)
  next
    case False
    then have "0 < c_pre_count c" "c_pre_count c \<le> length (c_pre c)" using lim l by simp_all
    then show ?thesis using False len ring_list_slide [of "c_pre_count c" "c_pre c" "c_pre_head c" f]
      by (simp add: save_pre_roll_cases [OF assms(2) l(1)] Let_def pre_roll_ring)
  qed
qed

lemma newest_snoc: "0 < n \<Longrightarrow> length xs \<le> n \<Longrightarrow> newest n (xs @ [x]) = (if length xs < n then xs @ [x] else tl xs @ [x])"
  by (cases "length xs < n") (auto simp: newest_def drop_Suc)

lemma newest_append: "newest n (newest n xs @ ys) = newest n (xs @ ys)"
  by (cases "length xs \<le> n") (simp_all add: newest_def add.commute)

text \<open>The ring refines a list: below its limit (25 frames, or all 67 while a barge-in is examined or
  admitted) saving a frame appends it and drops the oldest one only when the limit is reached, and
  \<^verbatim>\<open>KeepNewestPreRoll\<close> keeps exactly the newest frames; so after any number of frames the pre-roll is the
  newest ones of what was heard, in order.\<close>

theorem pre_roll_keeps_newest:
  assumes "shape c" and "c_barge_probe c = Probe_Idle" and "c_state c \<noteq> St_CancelPending" and "c_pre_count c \<le> 25"
  shows "pre_roll (fold save_pre_roll fs c) = newest 25 (pre_roll c @ fs) \<and>
    pre_roll (keep_newest_pre_roll n c) = newest n (pre_roll c)"
proof -
  have "pre_roll (fold save_pre_roll fs d) = newest 25 (pre_roll d @ fs) \<and> c_pre_count (fold save_pre_roll fs d) \<le> 25"
    if "shape d" "c_barge_probe d = Probe_Idle" "c_state d \<noteq> St_CancelPending" "c_pre_count d \<le> 25" for d
    using that
  proof (induction fs arbitrary: d)
    case Nil
    then show ?case by (simp add: newest_def pre_roll_def)
  next
    case (Cons f fs)
    have len: "length (pre_roll e) = c_pre_count e" for e by (simp add: pre_roll_def)
    have lim: "pre_roll_limit d = 25" using Cons.prems by (simp add: pre_roll_limit_def frame_consts)
    have save: "pre_roll (save_pre_roll f d) = newest 25 (pre_roll d @ [f])"
      using pre_roll_save [OF Cons.prems(1), of f] Cons.prems(3,4) newest_snoc [of 25 "pre_roll d" f] len [of d] by (simp add: lim)
    have "c_pre_count (save_pre_roll f d) \<le> 25" using save len [of "save_pre_roll f d"] Cons.prems(4) len [of d] by (simp add: newest_def)
    moreover have "shape (save_pre_roll f d)" by (rule shape_save [OF Cons.prems(1)])
    moreover have "c_barge_probe (save_pre_roll f d) = Probe_Idle" "c_state (save_pre_roll f d) \<noteq> St_CancelPending"
      using Cons.prems(2,3) by (simp_all add: save_pre_roll_def Let_def)
    ultimately show ?case using Cons.IH [of "save_pre_roll f d"] newest_append [of 25 "pre_roll d @ [f]" fs]
      by (simp add: save)
  qed
  then show ?thesis using assms pre_roll_keep by blast
qed

theorem pre_roll_keeps_newest_witness:
  "pre_roll (fold save_pre_roll (replicate 30 sample_wake) (new_client sample_client_config)) = replicate 25 sample_wake"
proof -
  have "shape (new_client sample_client_config)"
    by (simp add: new_client_def shape_def buffers_def probe_ok_def frame_consts)
  from pre_roll_keeps_newest [OF this, of "replicate 30 sample_wake" 0] show ?thesis
    by (simp add: new_client_def pre_roll_def newest_def)
qed

subsection \<open>What it takes to barge in\<close>

definition barge_voice :: "voice_client_config \<Rightarrow> capture_frame \<Rightarrow> bool" where
  "barge_voice cfg f \<longleftrightarrow> cf_near_voice f \<and> barge_min_dbfs cfg \<le> cf_voice_dbfs f"

definition echo_free :: "capture_frame \<Rightarrow> bool" where
  "echo_free f \<longleftrightarrow> \<not> cf_reference_active f"

text \<open>
  A history that has passed: candidates \<open>cand\<close>, the wait \<open>w\<close> for the attenuated loudspeaker to fall
  silent, the clear frames \<open>k\<close>, and \<open>n\<close> verified frames \<open>v\<close>, all with nothing in between.
\<close>

definition waited :: "voice_client_config \<Rightarrow> nat \<Rightarrow> nat \<Rightarrow> capture_frame list \<Rightarrow> bool" where
  "waited cfg n q hs \<longleftrightarrow> (\<exists>a cand w. hs = a @ cand @ w \<and> length cand = 6 \<and> list_all (barge_voice cfg) cand \<and>
     length w = n \<and> n \<le> 15 \<and> q \<le> n \<and> list_all echo_free (newest q w))"

definition verified :: "voice_client_config \<Rightarrow> nat \<Rightarrow> nat \<Rightarrow> capture_frame list \<Rightarrow> bool" where
  "verified cfg m n hs \<longleftrightarrow> (\<exists>b k v nw. hs = b @ k @ v \<and> waited cfg nw 3 b \<and> length k = m \<and> list_all echo_free k \<and>
     length v = n \<and> list_all (\<lambda>f. echo_free f \<and> barge_voice cfg f) v)"

definition probe_trace :: "client \<Rightarrow> capture_frame list \<Rightarrow> bool" where
  "probe_trace c hs \<longleftrightarrow> (case c_barge_probe c of
     Probe_Idle \<Rightarrow> c_barge_probe_frames c < 6 \<and> c_barge_probe_frames c \<le> length hs \<and>
       list_all (barge_voice (c_config c)) (newest (c_barge_probe_frames c) hs) \<and>
       (c_barge_cooldown_frames c \<noteq> 0 \<longrightarrow> c_barge_probe_frames c = 0)
   | Probe_WaitReferenceLow \<Rightarrow> c_barge_quiet_frames c < 3 \<and>
       waited (c_config c) (c_barge_probe_frames c) (c_barge_quiet_frames c) hs
   | Probe_Clear \<Rightarrow> c_barge_probe_frames c < 3 \<and> verified (c_config c) (c_barge_probe_frames c) 0 hs
   | Probe_Verify \<Rightarrow> c_barge_probe_frames c < 3 \<and> verified (c_config c) 3 (c_barge_probe_frames c) hs)"

lemma newest_Suc_snoc: "n \<le> length xs \<Longrightarrow> newest (Suc n) (xs @ [x]) = newest n xs @ [x]"
  by (simp add: newest_def)

lemma newest_0 [simp]: "newest 0 xs = []"
  by (simp add: newest_def)

lemma waited_snoc:
  assumes "waited cfg n q hs" "n < 15"
  shows "waited cfg (Suc n) (if echo_free f then Suc q else 0) (hs @ [f])"
proof -
  obtain a cand w where w: "hs = a @ cand @ w" "length cand = 6" "list_all (barge_voice cfg) cand" "length w = n" "q \<le> n"
      "list_all echo_free (newest q w)" using assms(1) by (auto simp: waited_def)
  then show ?thesis unfolding waited_def
    by (intro exI [of _ a] exI [of _ cand] exI [of _ "w @ [f]"]) (use assms(2) in \<open>simp add: newest_Suc_snoc\<close>)
qed

lemma verified_snoc_clear: "verified cfg m 0 hs \<Longrightarrow> echo_free f \<Longrightarrow> verified cfg (Suc m) 0 (hs @ [f])"
  unfolding verified_def by (elim exE conjE) (rule exI, rule_tac x = "k @ [f]" in exI, rule exI [of _ "[]"], auto)

lemma verified_snoc: "verified cfg m n hs \<Longrightarrow> echo_free f \<Longrightarrow> barge_voice cfg f \<Longrightarrow> verified cfg m (Suc n) (hs @ [f])"
  unfolding verified_def by (elim exE conjE) (rule exI, rule exI, rule_tac x = "v @ [f]" in exI, auto)

lemma waited_verified: "waited cfg n 3 hs \<Longrightarrow> verified cfg 0 0 hs"
  unfolding verified_def by (intro exI [of _ hs] exI [of _ "[]"] exI [of _ n]) simp

lemma candidate_waited:
  assumes "list_all (barge_voice cfg) (newest 6 hs)" "6 \<le> length hs"
  shows "waited cfg 0 0 hs"
  unfolding waited_def
  by (intro exI [of _ "take (length hs - 6) hs"] exI [of _ "newest 6 hs"] exI [of _ "[]"])
    (use assms in \<open>simp add: newest_def\<close>)

lemma lose_probe [simp]:
  "c_barge_probe (lose_connection c) = Probe_Idle" "c_barge_probe_frames (lose_connection c) = 0"
  "c_config (lose_connection c) = c_config c" "c_barge_cooldown_frames (lose_connection c) = 0"
proof -
  have "c_config (close_wire c) = c_config c" by (simp add: close_wire_def split: option.split prod.split)
  moreover have "c_config (reset_listener d) = c_config d" "c_barge_probe_frames (reset_listener d) = c_barge_probe_frames d"
     "c_barge_cooldown_frames (reset_listener d) = c_barge_cooldown_frames d" for d
    using reset_listener_form [of d] by auto
  ultimately show "c_barge_probe (lose_connection c) = Probe_Idle" "c_barge_probe_frames (lose_connection c) = 0"
    "c_config (lose_connection c) = c_config c" "c_barge_cooldown_frames (lose_connection c) = 0"
    by (simp_all add: lose_connection_def Let_def ui_call_def on_audio_def clear_subtitle_def
        reset_barge_probe_def reset_barge_turn_def)
qed

lemma confirm_fields:
  "c_barge_probe (confirm_barge c) = Probe_Idle" "c_barge_probe_frames (confirm_barge c) = 0"
  "c_config (confirm_barge c) = c_config c" "c_barge_cooldown_frames (confirm_barge c) = 0"
proof -
  define c1 where "c1 = (clear_subtitle (reset_barge_probe (on_audio drop_playback c)))\<lparr>c_barge_turn_admitted := True,
                 c_barge_ended := False, c_barge_silence_frames := 0, c_barge_buffer_overflow := False,
                 c_finish_after_cancel_ack := False\<rparr>"
  have c1: "c_barge_probe c1 = Probe_Idle" "c_barge_probe_frames c1 = 0" "c_config c1 = c_config c" "c_barge_cooldown_frames c1 = 0"
    by (simp_all add: c1_def clear_subtitle_def ui_call_def reset_barge_probe_def on_audio_def)
  obtain ok c2 where c2: "client_send Ctl_ResponseCancel (c_response_ids c1) c1 = (ok, c2)" by fastforce
  have "c_barge_probe c2 = c_barge_probe c1" "c_barge_probe_frames c2 = c_barge_probe_frames c1" "c_config c2 = c_config c1"
     "c_barge_cooldown_frames c2 = c_barge_cooldown_frames c1"
    using client_send_form [OF c2] by auto
  then show "c_barge_probe (confirm_barge c) = Probe_Idle" "c_barge_probe_frames (confirm_barge c) = 0"
    "c_config (confirm_barge c) = c_config c" "c_barge_cooldown_frames (confirm_barge c) = 0"
    using c1 c2 by (simp_all add: confirm_barge_def Let_def c1_def [symmetric] split: bool.split)
qed

lemma probe_simps [simp]:
  "c_config (reset_barge_probe c) = c_config c" "c_config (reset_barge_turn c) = c_config c" "c_config (on_audio g c) = c_config c"
  "c_config (reject_barge_probe c) = c_config c" "c_config (keep_newest_pre_roll n c) = c_config c"
  "c_barge_probe (reject_barge_probe c) = Probe_Idle" "c_barge_probe_frames (reject_barge_probe c) = 0"
  "c_barge_probe (reset_barge_probe c) = Probe_Idle" "c_barge_probe_frames (reset_barge_probe c) = 0"
  "c_barge_turn_admitted (reject_barge_probe c) = False" "c_barge_turn_admitted (reset_barge_turn c) = False"
  "c_barge_turn_admitted (reset_barge_probe c) = c_barge_turn_admitted c" "c_barge_turn_admitted (on_audio g c) = c_barge_turn_admitted c"
  "c_barge_probe (on_audio g c) = c_barge_probe c" "c_barge_probe_frames (on_audio g c) = c_barge_probe_frames c"
  "c_barge_quiet_frames (on_audio g c) = c_barge_quiet_frames c" "c_barge_quiet_frames (reset_barge_turn c) = 0"
  by (simp_all add: reset_barge_probe_def reset_barge_turn_def on_audio_def reject_barge_probe_def keep_newest_pre_roll_def Let_def)

lemma handle_barge_trace:
  assumes "probe_trace c hs"
  shows "probe_trace (handle_barge f c) (hs @ [f]) \<and> c_config (handle_barge f c) = c_config c \<and>
    (c_barge_turn_admitted (handle_barge f c) \<longrightarrow> c_barge_turn_admitted c \<or> verified (c_config c) 3 3 (hs @ [f]))"
proof -
  have idle: "probe_trace d (hs @ [f])" if "c_barge_probe d = Probe_Idle" "c_barge_probe_frames d = 0" for d
    using that by (simp add: probe_trace_def)
  have voice: "is_barge_voice f c = barge_voice (c_config c) f" by (simp add: is_barge_voice_def barge_voice_def)
  show ?thesis
  proof (cases "barge_in_enabled (c_config c)")
    case False
    then show ?thesis using idle by (simp add: handle_barge_def)
  next
    case True
    show ?thesis
    proof (cases "c_barge_probe c")
      case Probe_Idle
      have p: "c_barge_probe_frames c < 6" "c_barge_probe_frames c \<le> length hs"
         "list_all (barge_voice (c_config c)) (newest (c_barge_probe_frames c) hs)"
         "c_barge_cooldown_frames c \<noteq> 0 \<longrightarrow> c_barge_probe_frames c = 0"
        using assms by (simp_all add: probe_trace_def Probe_Idle)
      have more: "list_all (barge_voice (c_config c)) (newest (Suc (c_barge_probe_frames c)) (hs @ [f]))" if "barge_voice (c_config c) f"
        using p(2,3) that by (simp add: newest_Suc_snoc)
      show ?thesis
      proof (cases "c_barge_cooldown_frames c \<noteq> 0 \<or> \<not> barge_voice (c_config c) f")
        case True
        then show ?thesis using \<open>barge_in_enabled (c_config c)\<close> Probe_Idle p(4) idle
          by (cases "c_barge_cooldown_frames c = 0") (simp_all add: handle_barge_def voice)
      next
        case False
        show ?thesis
        proof (cases "Suc (c_barge_probe_frames c) < 6")
          case True
          then show ?thesis using False \<open>barge_in_enabled (c_config c)\<close> Probe_Idle p(2) more
            by (simp add: handle_barge_def voice probe_trace_def frame_consts Let_def)
        next
          case six: False
          then have n: "c_barge_probe_frames c = 5" using p(1) by simp
          have "waited (c_config c) 0 0 (hs @ [f])"
            by (rule candidate_waited) (use more False n p(2) in \<open>simp_all add: eval_nat_numeral\<close>)
          then show ?thesis using False \<open>barge_in_enabled (c_config c)\<close> Probe_Idle n
            by (simp add: handle_barge_def voice probe_trace_def frame_consts Let_def)
        qed
      qed
    next
      case Probe_WaitReferenceLow
      have p: "c_barge_quiet_frames c < 3" "waited (c_config c) (c_barge_probe_frames c) (c_barge_quiet_frames c) hs"
        using assms by (simp_all add: probe_trace_def Probe_WaitReferenceLow)
      show ?thesis
      proof (cases "c_barge_probe_frames c < 15")
        case False
        then show ?thesis using True Probe_WaitReferenceLow idle by (simp add: handle_barge_def Let_def frame_consts)
      next
        case low: True
        define q where "q = (if cf_reference_active f then 0 else c_barge_quiet_frames c + 1)"
        have w: "waited (c_config c) (Suc (c_barge_probe_frames c)) q (hs @ [f])"
          using waited_snoc [OF p(2) low, of f] by (cases "cf_reference_active f") (simp_all add: q_def echo_free_def)
        show ?thesis
        proof (cases "q < 3")
          case True
          then show ?thesis using \<open>barge_in_enabled (c_config c)\<close> Probe_WaitReferenceLow low w
            by (cases "cf_reference_active f") (simp_all add: handle_barge_def Let_def frame_consts q_def probe_trace_def)
        next
          case False
          then have "q = 3" using p(1) by (auto simp: q_def split: if_splits)
          then have "verified (c_config c) 0 0 (hs @ [f])" using w waited_verified by simp
          then show ?thesis using \<open>barge_in_enabled (c_config c)\<close> Probe_WaitReferenceLow low False
            by (cases "cf_reference_active f") (simp_all add: handle_barge_def Let_def frame_consts q_def probe_trace_def)
        qed
      qed
    next
      case Probe_Clear
      have p: "c_barge_probe_frames c < 3" "verified (c_config c) (c_barge_probe_frames c) 0 hs"
        using assms by (simp_all add: probe_trace_def Probe_Clear)
      show ?thesis
      proof (cases "cf_reference_active f")
        case active: True
        then show ?thesis using True Probe_Clear idle by (simp add: handle_barge_def)
      next
        case False
        then have v: "verified (c_config c) (Suc (c_barge_probe_frames c)) 0 (hs @ [f])"
          using verified_snoc_clear [OF p(2)] by (simp add: echo_free_def)
        show ?thesis
        proof (cases "Suc (c_barge_probe_frames c) < 3")
          case more: True
          then show ?thesis using True Probe_Clear False v
            by (simp add: handle_barge_def Let_def frame_consts probe_trace_def)
        next
          case full: False
          then have "Suc (c_barge_probe_frames c) = 3" using p(1) by simp
          then show ?thesis using True Probe_Clear False v
            by (simp add: handle_barge_def Let_def frame_consts probe_trace_def)
        qed
      qed
    next
      case Probe_Verify
      have p: "c_barge_probe_frames c < 3" "verified (c_config c) 3 (c_barge_probe_frames c) hs"
        using assms by (simp_all add: probe_trace_def Probe_Verify)
      show ?thesis
      proof (cases "cf_reference_active f \<or> \<not> barge_voice (c_config c) f")
        case reject: True
        then show ?thesis using True Probe_Verify idle by (simp add: handle_barge_def voice)
      next
        case False
        then have v: "verified (c_config c) 3 (Suc (c_barge_probe_frames c)) (hs @ [f])"
          using verified_snoc [OF p(2)] by (simp add: echo_free_def)
        show ?thesis
        proof (cases "Suc (c_barge_probe_frames c) < 3")
          case more: True
          then show ?thesis using True Probe_Verify False v
            by (simp add: handle_barge_def voice Let_def frame_consts probe_trace_def)
        next
          case full: False
          then have three: "Suc (c_barge_probe_frames c) = 3" using p(1) by simp
          then have "handle_barge f c = confirm_barge (c\<lparr>c_barge_probe_frames := 3\<rparr>)"
            using True Probe_Verify False by (simp add: handle_barge_def voice Let_def frame_consts)
          then show ?thesis using v three idle by (simp add: confirm_fields)
        qed
      qed
    qed
  qed
qed

text \<open>C15: the user interrupts an answer only on strong evidence: whenever the probe admits a barge-in, some
  prefix of the frames seen ends with six loud near-voice frames, a wait of 3 to 15 frames for the
  attenuated loudspeaker whose last three are echo free, three more echo-free frames and three frames that
  are both echo free and loud near voice - so the device never interrupts itself.\<close>

theorem barge_in_needs_evidence:
  assumes "c_barge_probe c = Probe_Idle" and "c_barge_probe_frames c = 0" and "\<not> c_barge_turn_admitted c"
    and "c_barge_turn_admitted (fold handle_barge fs c)"
  shows "\<exists>a cand w k v rest. fs = a @ cand @ w @ k @ v @ rest \<and>
    length cand = 6 \<and> list_all (barge_voice (c_config c)) cand \<and>
    3 \<le> length w \<and> length w \<le> 15 \<and> list_all echo_free (newest 3 w) \<and>
    length k = 3 \<and> list_all echo_free k \<and>
    length v = 3 \<and> list_all (\<lambda>f. echo_free f \<and> barge_voice (c_config c) f) v"
proof -
  have "probe_trace (fold handle_barge fs c) fs \<and> c_config (fold handle_barge fs c) = c_config c \<and>
      (c_barge_turn_admitted (fold handle_barge fs c) \<longrightarrow> (\<exists>n \<le> length fs. verified (c_config c) 3 3 (take n fs)))"
  proof (induction fs rule: rev_induct)
    case Nil
    then show ?case using assms(1-3) by (simp add: probe_trace_def)
  next
    case (snoc f fs)
    have step: "probe_trace (fold handle_barge (fs @ [f]) c) (fs @ [f])" "c_config (fold handle_barge (fs @ [f]) c) = c_config c"
      "c_barge_turn_admitted (fold handle_barge (fs @ [f]) c) \<Longrightarrow>
         c_barge_turn_admitted (fold handle_barge fs c) \<or> verified (c_config c) 3 3 (fs @ [f])"
      using handle_barge_trace [of "fold handle_barge fs c" fs f] snoc by simp_all
    have "\<exists>n \<le> length (fs @ [f]). verified (c_config c) 3 3 (take n (fs @ [f]))"
      if "c_barge_turn_admitted (fold handle_barge (fs @ [f]) c)"
      using step(3) [OF that]
    proof
      assume "c_barge_turn_admitted (fold handle_barge fs c)"
      then obtain n where "n \<le> length fs" "verified (c_config c) 3 3 (take n fs)" using snoc by blast
      then show ?thesis by (intro exI [of _ n]) simp
    qed (intro exI [of _ "length (fs @ [f])"], simp)
    then show ?case using step(1,2) by blast
  qed
  then obtain n where "verified (c_config c) 3 3 (take n fs)" using assms(4) by blast
  then obtain a cand w k v where "take n fs = a @ cand @ w @ k @ v" "length cand = 6" "list_all (barge_voice (c_config c)) cand"
    "3 \<le> length w" "length w \<le> 15" "list_all echo_free (newest 3 w)" "length k = 3" "list_all echo_free k"
    "length v = 3" "list_all (\<lambda>f. echo_free f \<and> barge_voice (c_config c) f) v"
    unfolding verified_def waited_def by auto
  moreover from this(1) have "fs = a @ cand @ w @ k @ v @ drop n fs" using append_take_drop_id [of n fs] by simp
  ultimately show ?thesis by blast
qed

definition sample_loud :: capture_frame where
  "sample_loud = no_frame\<lparr>cf_near_voice := True, cf_voice_dbfs := - 30\<rparr>"

definition sample_playing :: client where
  "sample_playing = (sample_ready [])\<lparr>c_transport := Some (sample_turn 2 True False), c_response_ids := sample_ids,
     c_state := St_PlayingResponse\<rparr>"

definition sample_interruption :: "capture_frame list" where
  "sample_interruption = replicate 6 sample_loud @ replicate 6 no_frame @ replicate 3 sample_loud"

lemma sample_frame_kinds: "cf_reference_active sample_loud = False" "cf_reference_active no_frame = False"
  "is_barge_voice sample_loud c = (barge_min_dbfs (c_config c) \<le> - 30)" "is_barge_voice no_frame c = False"
  by (simp_all add: sample_loud_def no_frame_def is_barge_voice_def)

definition sample_at :: "barge_probe \<Rightarrow> nat \<Rightarrow> nat \<Rightarrow> client \<Rightarrow> bool" where
  "sample_at b n q c \<longleftrightarrow> c_barge_probe c = b \<and> c_barge_probe_frames c = n \<and> c_barge_quiet_frames c = q \<and>
     c_barge_cooldown_frames c = 0 \<and> c_config c = sample_client_config \<and> c_transport c = Some (sample_turn 2 True False) \<and>
     c_response_ids c = sample_ids \<and> c_sends c = replicate 4 quiet_env"

lemma sample_probe_steps:
  "sample_at Probe_Idle n q c \<Longrightarrow> n < 5 \<Longrightarrow> sample_at Probe_Idle (Suc n) q (handle_barge sample_loud c)"
  "sample_at Probe_Idle 5 q c \<Longrightarrow> sample_at Probe_WaitReferenceLow 0 0 (handle_barge sample_loud c)"
  "sample_at Probe_WaitReferenceLow n q c \<Longrightarrow> n < 15 \<Longrightarrow> q < 2 \<Longrightarrow>
     sample_at Probe_WaitReferenceLow (Suc n) (Suc q) (handle_barge no_frame c)"
  "sample_at Probe_WaitReferenceLow (Suc (Suc 0)) (Suc (Suc 0)) c \<Longrightarrow> sample_at Probe_Clear 0 3 (handle_barge no_frame c)"
  "sample_at Probe_Clear n q c \<Longrightarrow> n < 2 \<Longrightarrow> sample_at Probe_Clear (Suc n) q (handle_barge no_frame c)"
  "sample_at Probe_Clear (Suc (Suc 0)) q c \<Longrightarrow> sample_at Probe_Verify 0 q (handle_barge no_frame c)"
  "sample_at Probe_Verify n q c \<Longrightarrow> n < 2 \<Longrightarrow> sample_at Probe_Verify (Suc n) q (handle_barge sample_loud c)"
  by (auto simp: sample_at_def handle_barge_def sample_frame_kinds frame_consts Let_def sample_client_config_def on_audio_def
      reset_barge_turn_def keep_newest_pre_roll_def)

lemma sample_confirms:
  assumes "sample_at Probe_Verify (Suc (Suc 0)) q c"
  shows "c_barge_turn_admitted (handle_barge sample_loud c)"
proof -
  define c1 where "c1 = (clear_subtitle (reset_barge_probe (on_audio drop_playback (c\<lparr>c_barge_probe_frames := Suc (Suc (Suc 0))\<rparr>))))
     \<lparr>c_barge_turn_admitted := True, c_barge_ended := False, c_barge_silence_frames := 0, c_barge_buffer_overflow := False,
      c_finish_after_cancel_ack := False\<rparr>"
  have c1: "c_transport c1 = Some (sample_turn 2 True False)" "c_response_ids c1 = sample_ids" "c_sends c1 = replicate 4 quiet_env"
      "c_barge_turn_admitted c1"
    using assms by (simp_all add: c1_def sample_at_def clear_subtitle_def ui_call_def reset_barge_probe_def on_audio_def)
  have body: "control_body (sample_turn 2 True False) (make_control Ctl_ResponseCancel sample_ids c1) = Inr (''response.cancel'', ''{}'')"
    by (simp add: control_body_def make_control_def sample_turn_def sample_open_def after_control_def sample_control_def)
  have s: "c_sends c1 = quiet_env # replicate 3 quiet_env" using c1(3) by (simp add: numeral_eq_Suc)
  have t: "t_connected (sample_turn 2 True False)" "length (t_device_id (sample_turn 2 True False)) = 36"
    by (simp_all add: sample_turn_fields)
  obtain c2 where c2: "client_send Ctl_ResponseCancel sample_ids c1 = (True, c2)" "c_barge_turn_admitted c2 = c_barge_turn_admitted c1"
    using client_send_quiet [OF body c1(1) t _ _ s] by simp
  have "handle_barge sample_loud c = confirm_barge (c\<lparr>c_barge_probe_frames := Suc (Suc (Suc 0))\<rparr>)"
    using assms by (simp add: sample_at_def handle_barge_def sample_frame_kinds frame_consts sample_client_config_def)
  then show ?thesis using c1(2,4) c2 by (simp add: confirm_barge_def Let_def c1_def [symmetric])
qed

lemma sample_playing_fields:
  "c_barge_probe sample_playing = Probe_Idle" "c_barge_probe_frames sample_playing = 0" "\<not> c_barge_turn_admitted sample_playing"
  "sample_at Probe_Idle 0 0 sample_playing"
proof -
  have c: "c_barge_probe_frames sample_client = 0" "\<not> c_barge_turn_admitted sample_client" "c_barge_quiet_frames sample_client = 0"
    "c_barge_cooldown_frames sample_client = 0"
    by (simp_all add: sample_client_def client_start_def open_engine_def client_setup_def Let_def ui_call_def
      new_client_def new_engine_def sample_settings_def sample_client_config_def playback_gain_def)
  then show "c_barge_probe sample_playing = Probe_Idle" "c_barge_probe_frames sample_playing = 0" "\<not> c_barge_turn_admitted sample_playing"
    "sample_at Probe_Idle 0 0 sample_playing"
    by (simp_all add: sample_at_def sample_playing_def sample_ready_def sample_client_fields)
qed

lemma sample_interrupts: "c_barge_turn_admitted (fold handle_barge sample_interruption sample_playing)"
proof -
  have loud: "sample_at Probe_Idle n q c \<Longrightarrow> n + k \<le> 5 \<Longrightarrow> sample_at Probe_Idle (n + k) q (fold handle_barge (replicate k sample_loud) c)" for n q c k
  proof (induction k arbitrary: n c)
    case (Suc k)
    then show ?case using Suc.IH [OF sample_probe_steps(1) [OF Suc.prems(1)]] by simp
  qed simp
  define c1 where "c1 = fold handle_barge (replicate 5 sample_loud) sample_playing"
  have "sample_at Probe_Idle 5 0 c1" using loud [OF sample_playing_fields(4), of 5] by (simp add: c1_def)
  from sample_probe_steps(2) [OF this] have "sample_at Probe_WaitReferenceLow 0 0 (handle_barge sample_loud c1)" .
  from sample_probe_steps(4) [OF sample_probe_steps(3) [OF sample_probe_steps(3) [OF this], simplified], simplified]
  have "sample_at Probe_Clear 0 3 (fold handle_barge (replicate 3 no_frame) (handle_barge sample_loud c1))"
    by (simp add: numeral_eq_Suc)
  from sample_probe_steps(6) [OF sample_probe_steps(5) [OF sample_probe_steps(5) [OF this], simplified], simplified]
  have "sample_at Probe_Verify 0 3 (fold handle_barge (replicate 6 no_frame) (handle_barge sample_loud c1))"
    by (simp add: numeral_eq_Suc)
  from sample_confirms [OF sample_probe_steps(7) [OF sample_probe_steps(7) [OF this], simplified], simplified]
  show ?thesis by (simp add: sample_interruption_def c1_def numeral_eq_Suc)
qed

theorem barge_in_needs_evidence_witness:
  "\<exists>a cand w k v rest. sample_interruption = a @ cand @ w @ k @ v @ rest \<and> length cand = 6 \<and> length k = 3 \<and> length v = 3"
  using barge_in_needs_evidence [OF sample_playing_fields(1-3) sample_interrupts] by blast

end
