(* ===== verification/ClientReply.thy ===== *)
theory ClientReply
  imports ClientSample
begin

section \<open>A sample run with a spoken response\<close>

text \<open>
  The sample run goes on: the end of speech commits the turn, the server answers with a response and its
  audio, and playback begins. The witnesses of what happens to a response are read off this run.
\<close>

subsection \<open>The commit over a quiet connection\<close>

definition turn_committed :: "capture_frame \<Rightarrow> transport \<Rightarrow> send_env list \<Rightarrow> client \<Rightarrow> client" where
  "turn_committed f t ss c = (let t1 = uploaded (Suc 0) True t; ctl = make_control Ctl_TurnCommit (c_turn_ids c) c in
     wait_for_response (c\<lparr>c_uplink_sequence := c_uplink_sequence c + 1, c_message := c_message c + 1, c_sends := ss,
       c_transport := Some (t1\<lparr>t_committed := True\<rparr>),
       c_wire := c_wire c @ [Out_Frame (encode_pcm64 (t_uuid t) (audio_header f True c) (sample_bytes (cf_pcm f))),
         Out_Text ctl (control_json t1 ctl ''turn.commit'' ''{}'')]\<rparr>))"

lemma commit_quiet:
  assumes "c_transport c = Some t" "capture_link t (c_turn_ids c) (c_uplink_sequence c)" "t_connected t" "t_active t"
    and "length (t_device_id t) = 36" "0 < length (cf_pcm f)" "length (cf_pcm f) \<le> 320"
    and "c_uplink_sequence c \<le> k_maximum_turn_frames" "c_sends c = quiet_env # quiet_env # ss"
  shows "commit f c = turn_committed f t ss c"
proof -
  define t1 where "t1 = uploaded (Suc 0) True t"
  define c1 where "c1 = c\<lparr>c_sends := quiet_env # ss, c_transport := Some t1,
     c_wire := c_wire c @ [Out_Frame (encode_pcm64 (t_uuid t) (audio_header f True c) (sample_bytes (cf_pcm f)))],
     c_uplink_sequence := c_uplink_sequence c + 1\<rparr>"
  define ctl where "ctl = make_control Ctl_TurnCommit (c_turn_ids c) c"
  have first: "send_audio_or_recover f True c = (True, c1)"
    using send_recover_quiet [OF assms(1-4,6-9), of True] by (simp add: c1_def t1_def uploaded_def)
  have t1: "t_connected t1" "length (t_device_id t1) = 36" "t_active t1" "\<not> t_committed t1" "t_uplink_ended t1" "t_turn t1 = c_turn_ids c"
    using assms(2-5) by (simp_all add: t1_def uploaded_def capture_link_def)
  have ctl: "make_control Ctl_TurnCommit (c_turn_ids c1) c1 = ctl" "c_turn_ids c1 = c_turn_ids c"
    by (simp_all add: ctl_def make_control_def c1_def)
  have kind: "ctl_kind ctl = Ctl_TurnCommit" "ctl_ids ctl = c_turn_ids c" by (simp_all add: ctl_def make_control_def)
  have body: "control_body t1 (make_control Ctl_TurnCommit (c_turn_ids c1) c1) = Inr (''turn.commit'', ''{}'')"
    unfolding ctl(1) using t1 kind by (simp add: control_body_def same_turn_def)
  have "client_send Ctl_TurnCommit (c_turn_ids c1) c1 = (True, c1\<lparr>c_message := c_message c1 + 1, c_sends := ss,
      c_transport := Some (after_control t1 ctl), c_wire := c_wire c1 @ [Out_Text ctl (control_json t1 ctl ''turn.commit'' ''{}'')]\<rparr>)"
    using client_send_quiet [OF body _ t1(1,2), of ss] by (simp add: ctl(1)) (simp add: c1_def)
  moreover have "after_control t1 ctl = t1\<lparr>t_committed := True\<rparr>" by (simp add: after_control_def kind)
  ultimately show ?thesis
    by (simp add: commit_def first send_commit_def turn_committed_def Let_def t1_def [symmetric] ctl_def [symmetric])
      (simp add: c1_def)
qed

definition sample_end :: capture_frame where
  "sample_end = no_frame\<lparr>cf_sequence := 2, cf_vad_ended := True\<rparr>"

definition sample_before_commit :: "effect list \<Rightarrow> client" where
  "sample_before_commit w = (sample_captured w)\<lparr>c_now := 0, c_sends := replicate 4 quiet_env, c_handshakes := [Hs_Done True],
     c_audio := sample_audio 3 True, c_next_capture_sequence := 3, c_taken := [sample_wake, sample_voice, sample_end],
     c_barge_ended := False\<rparr>"

definition sample_talked :: transport where
  "sample_talked = uploaded 2 False (after_control sample_open (sample_control Ctl_TurnStart))"

lemma sample_talked_fields:
  "t_connected sample_talked" "t_active sample_talked" "t_turn sample_talked = sample_ids" "\<not> t_committed sample_talked"
  "length (t_device_id sample_talked) = 36" "t_device_id sample_talked = ''00112233-4455-6677-8899-aabbccddeeff''"
  "t_uplink_sequence sample_talked = 2" "\<not> t_uplink_ended sample_talked" "t_session sample_talked = 7" "t_response sample_talked = no_ids"
  "t_uuid sample_talked = t_uuid sample_start" "\<not> t_response_cancel_sent sample_talked"
  by (simp_all add: sample_talked_def uploaded_def after_control_def sample_control_def sample_open_def sample_start_fields)

lemma sample_before_commit_fields:
  "c_transport (sample_before_commit w) = Some sample_talked" "c_turn_ids (sample_before_commit w) = sample_ids"
  "c_uplink_sequence (sample_before_commit w) = 2" "c_sends (sample_before_commit w) = quiet_env # quiet_env # replicate 2 quiet_env"
  "\<not> c_listener_failed (sample_before_commit w)"
proof -
  have "after_control sample_open (make_control Ctl_TurnStart sample_ids c) = after_control sample_open (sample_control Ctl_TurnStart)" for c
    by (simp add: after_control_def make_control_def sample_control_def)
  then show "c_transport (sample_before_commit w) = Some sample_talked"
    by (simp add: sample_before_commit_def sample_captured_fields sample_talked_def)
  show "c_turn_ids (sample_before_commit w) = sample_ids" "c_uplink_sequence (sample_before_commit w) = 2"
    "\<not> c_listener_failed (sample_before_commit w)"
    by (simp_all add: sample_before_commit_def sample_captured_def turn_started_def Let_def sample_turn_begins_fields)
  show "c_sends (sample_before_commit w) = quiet_env # quiet_env # replicate 2 quiet_env"
    by (simp add: sample_before_commit_def numeral_eq_Suc)
qed

definition sample_committed :: "effect list \<Rightarrow> client" where
  "sample_committed w = turn_committed sample_end sample_talked (replicate 2 quiet_env) (sample_before_commit w)"


lemma sample_commit_pass: "run_pass sample_parser (sample_pass [] [] [] sample_end) (sample_captured w) = Going (sample_committed w)"
proof -
  note parts = sample_captured_def turn_started_def Let_def sample_turn_begins_def sample_waiting_def sample_ready_def
    sample_client_fields
  have w: "c_transport (sample_captured w) \<noteq> None" "\<not> c_listener_failed (sample_captured w)" "c_hello_sent (sample_captured w)"
    "event_pop (c_events (sample_captured w)) = None" "\<not> q_overflow (c_events (sample_captured w))"
    "c_audio (sample_captured w) = sample_audio 2 True" "session (c_turn_ids (sample_captured w)) \<noteq> 0"
    "0 < c_heartbeat_deadline (sample_captured w)" "0 < c_state_deadline (sample_captured w)"
    "c_state (sample_captured w) = St_WaitingForSpeech \<or> c_state (sample_captured w) = St_CapturingSpeech"
    by (simp_all add: parts sample_drain wait_consts)
  obtain t where t: "c_transport (sample_captured w) = Some t" using w(1) by blast
  have f: "\<not> cf_discontinuity sample_end" "sample_end\<lparr>cf_sequence := of_nat 2\<rparr> = sample_end" "cf_sequence sample_end = 2"
    "cf_vad_ended sample_end" "length (cf_pcm sample_end) = 320"
    by (simp_all add: sample_end_def no_frame_def)
  have more: "c_next_capture_sequence (sample_captured w) = 2" "c_taken (sample_captured w) = [sample_wake, sample_voice]"
    by (simp_all add: parts)
  have pass: "run_pass sample_parser (sample_pass [] [] [] sample_end) (sample_captured w) =
    (let d = on_frame sample_end ((sample_captured w)\<lparr>c_now := 0, c_sends := replicate 4 quiet_env, c_handshakes := [Hs_Done True],
         c_audio := sample_audio 3 True\<rparr>)
     in if c_listener_failed d then client_fail d else Going d)"
    using sample_frame_pass [OF t w(2-) f(1)] f(2) by (simp add: numeral_3_eq_3)
  have frame: "on_frame sample_end ((sample_captured w)\<lparr>c_now := 0, c_sends := replicate 4 quiet_env, c_handshakes := [Hs_Done True],
         c_audio := sample_audio 3 True\<rparr>) = commit sample_end (sample_before_commit w)"
    using w(7) more f sample_captured_fields(1,2) [of w]
    by (simp add: on_frame_def Let_def thaw_barge_def store_frame_def frame_in_state_def sample_before_commit_def
        k_maximum_turn_frames_def)
  note b = sample_before_commit_fields [of w]
  have link: "capture_link sample_talked (c_turn_ids (sample_before_commit w)) (c_uplink_sequence (sample_before_commit w))"
    by (simp add: b capture_link_def sample_talked_fields sample_ids_def k_maximum_turn_frames_def)
  have "commit sample_end (sample_before_commit w) = sample_committed w"
    unfolding sample_committed_def
    by (rule commit_quiet [OF b(1) link _ _ _ _ _ _ b(4)])
      (simp_all add: sample_talked_fields f b(3) k_maximum_turn_frames_def)
  moreover have "\<not> c_listener_failed (sample_committed w)"
    by (simp add: sample_committed_def turn_committed_def Let_def wait_for_response_def ui_call_def b)
  ultimately show ?thesis by (simp add: pass frame)
qed

subsection \<open>The response arrives\<close>

definition sample_reply_pass :: pass_input where
  "sample_reply_pass = \<lparr>in_connect = sample_phase [], in_decode = sample_decode, in_uri_ok = True, in_thread_ok = True,
     in_no_throw = True, in_capture = sample_phase [], in_finish = sample_phase [],
     in_drain = [sample_phase [Th_Wss (W_Message (Text_Message sample_start_json)), Th_Wss (W_Message (Text_Message sample_audio_json)),
       Th_Wss (W_Message (Binary_Message sample_downlink))], sample_phase [], sample_phase []],
     in_ui = sample_phase [], in_volume_change = None, in_action = None, in_overflow = sample_phase [],
     in_deadline = sample_phase [], in_frame = sample_phase []\<rparr>"

definition sample_start_event :: inbound where
  "sample_start_event = no_inbound\<lparr>in_kind := In_ResponseStart, in_ids := sample_ids\<rparr>"

definition sample_audio_event :: inbound where
  "sample_audio_event = no_inbound\<lparr>in_kind := In_AudioStart, in_ids := sample_ids\<rparr>"

text \<open>The WSS thread delivers the three messages to a transport that waits for them.\<close>

lemma sample_reply_arrives:
  assumes "c_transport c = Some t" "t_active t" "t_committed t" "t_response t = no_ids" "t_turn t = sample_ids" "t_session t = 7"
    "t_device_id t = ''00112233-4455-6677-8899-aabbccddeeff''" "t_uuid t = t_uuid sample_start" "\<not> t_response_cancel_sent t"
    and "queue_valid (c_events c)" "queue_events (c_events c) = []" "\<not> q_overflow (c_events c)"
  obtains t' q where
    "fold (thread_step sample_parser) [Th_Wss (W_Message (Text_Message sample_start_json)),
       Th_Wss (W_Message (Text_Message sample_audio_json)), Th_Wss (W_Message (Binary_Message sample_downlink))] c =
     c\<lparr>c_transport := Some t', c_wire := c_wire c @ map Out_Inbound [sample_start_event, sample_audio_event, sample_speech_event],
       c_events := q\<rparr>"
    "queue_valid q" "queue_events q = [sample_start_event, sample_audio_event, sample_speech_event]" "\<not> q_overflow q"
proof -
  define t1 where "t1 = t\<lparr>t_response_id := ''r1'', t_response := sample_ids, t_downlink_sequence := 0, t_audio_started := False,
     t_audio_ended := False, t_response_done := False, t_discard_downlink := False\<rparr>"
  define t2 where "t2 = t1\<lparr>t_audio_started := True\<rparr>"
  define t3 where "t3 = t2\<lparr>t_downlink_sequence := 1, t_audio_ended := False\<rparr>"
  have s: "transport_step sample_parser (\<lambda>_. True) (Ev_Message (Text_Message sample_start_json)) t = (t1, [Out_Inbound sample_start_event])"
    unfolding t1_def sample_start_event_def by (rule sample_start_arrives) (use assms in simp_all)
  have a: "transport_step sample_parser (\<lambda>_. True) (Ev_Message (Text_Message sample_audio_json)) t1 = (t2, [Out_Inbound sample_audio_event])"
    unfolding t2_def sample_audio_event_def by (rule sample_audio_arrives) (use assms in \<open>simp_all add: t1_def\<close>)
  have d: "transport_step sample_parser (\<lambda>_. True) (Ev_Message (Binary_Message sample_downlink)) t2 = (t3, [Out_Inbound sample_speech_event])"
    unfolding t3_def by (rule sample_downlink_arrives) (use assms in \<open>simp_all add: t2_def t1_def\<close>)
  have room: "length (queue_events q) < 3 \<Longrightarrow> length (queue_events q) < event_capacity" for q by (simp add: event_capacity_def)
  obtain q1 where q1: "event_push sample_start_event (c_events c) = (True, q1)" "queue_valid q1"
    "queue_events q1 = [sample_start_event]" "\<not> q_overflow q1"
    using event_push_room [OF assms(10) room, of sample_start_event] assms(11,12) by auto
  obtain q2 where q2: "event_push sample_audio_event q1 = (True, q2)" "queue_valid q2"
    "queue_events q2 = [sample_start_event, sample_audio_event]" "\<not> q_overflow q2"
    using event_push_room [OF q1(2) room, of sample_audio_event] q1(3,4) by auto
  obtain q3 where q3: "event_push sample_speech_event q2 = (True, q3)" "queue_valid q3"
    "queue_events q3 = [sample_start_event, sample_audio_event, sample_speech_event]" "\<not> q_overflow q3"
    using event_push_room [OF q2(2) room, of sample_speech_event] q2(3,4) by auto
  have step: "wss_step sample_parser (W_Message m) x = x\<lparr>c_transport := Some u', c_wire := c_wire x @ [Out_Inbound e], c_events := q'\<rparr>"
    if "c_transport x = Some u" "transport_step sample_parser (\<lambda>_. True) (Ev_Message m) u = (u', [Out_Inbound e])"
      "event_push e (c_events x) = (True, q')" for m x u u' e q'
    using that by (simp add: wss_step_def on_effect_def push_event_def)
  define c1 where "c1 = c\<lparr>c_transport := Some t1, c_wire := c_wire c @ [Out_Inbound sample_start_event], c_events := q1\<rparr>"
  define c2 where "c2 = c1\<lparr>c_transport := Some t2, c_wire := c_wire c1 @ [Out_Inbound sample_audio_event], c_events := q2\<rparr>"
  have 1: "wss_step sample_parser (W_Message (Text_Message sample_start_json)) c = c1"
    unfolding c1_def by (rule step [OF assms(1) s q1(1)])
  have 2: "wss_step sample_parser (W_Message (Text_Message sample_audio_json)) c1 = c2"
    unfolding c2_def by (rule step [OF _ a]) (simp_all add: c1_def q2(1))
  have 3: "wss_step sample_parser (W_Message (Binary_Message sample_downlink)) c2 =
      c2\<lparr>c_transport := Some t3, c_wire := c_wire c2 @ [Out_Inbound sample_speech_event], c_events := q3\<rparr>"
    by (rule step [OF _ d]) (simp_all add: c2_def q3(1))
  show thesis
    by (rule that [of q3 t3]) (simp_all add: 1 2 3 q3, simp_all add: c2_def c1_def)
qed

lemma sample_prepare:
  "run_capture_command Cmd_PreparePlayback (Hs_Done True) (sample_audio n b) = (True, sample_audio n True)"
  by (simp add: run_capture_command_def post_command_def apply_capture_command_def command_result_def
     command_settled_def sample_audio_fields Let_def)
    (simp add: sample_audio_def sample_engine_fields)

lemma sample_pop:
  assumes "queue_valid q" "queue_events q = e # es" "\<not> q_overflow q"
  obtains q' where "event_pop q = Some (e, q')" "queue_valid q'" "queue_events q' = es" "\<not> q_overflow q'"
proof (cases "event_pop q")
  case None
  then have "queue_events q = []" by (simp add: event_pop_def queue_events_def ring_list_def split: if_splits)
  then show ?thesis using assms(2) by simp
next
  case (Some x)
  obtain e' q' where x: "x = (e', q')" by fastforce
  then show ?thesis using event_pop_some [OF assms(1), of e' q'] Some assms that by auto
qed

text \<open>The three handlers, one after the other, on an engine at rest.\<close>

lemma sample_play:
  assumes "c_state c = St_WaitingForResponse" "\<not> c_await_hint_visible c" "c_audio c = sample_audio n b"
    "c_handshakes c = [Hs_Done True]"
  obtains e ui where "handle_event sample_audio_event c = c\<lparr>c_state_deadline := c_now c + k_response_wait, c_await_hint_pending := False,
      c_handshakes := [], c_audio := e, c_accepted := [], c_rendered := [], c_state := St_PlayingResponse, c_ui := ui,
      c_barge_probe_frames := 0, c_barge_cooldown_frames := 0, c_barge_probe := Probe_Idle\<rparr>"
    "ring_inv e" "queued e = []" "e_open e" "e_active e" "\<not> e_ending e" "\<not> e_drop e" "\<not> e_sequence_set e"
proof -
  define e1 where "e1 = snd (begin_playback True (sample_audio n True))"
  define e where "e = set_playback_scale 1 e1"
  have b: "begin_playback True (sample_audio n True) = (True, e1)"
    by (simp add: e1_def begin_playback_def Let_def sample_audio_fields)
  have "ring_inv e1 \<and> queued e1 = [] \<and> e_open e1 \<and> e_active e1 \<and> \<not> e_ending e1 \<and> \<not> e_drop e1 \<and> \<not> e_sequence_set e1"
    by (simp add: e1_def begin_playback_def Let_def sample_audio_fields clear_queue_ring)
  then have e: "ring_inv e" "queued e = []" "e_open e" "e_active e" "\<not> e_ending e" "\<not> e_drop e" "\<not> e_sequence_set e"
    by (simp_all add: e_def set_playback_scale_def)
  have "handle_event sample_audio_event c = c\<lparr>c_state_deadline := c_now c + k_response_wait, c_await_hint_pending := False,
      c_handshakes := [], c_audio := e, c_accepted := [], c_rendered := [], c_state := St_PlayingResponse,
      c_ui := c_ui c @ [Call_State Ui_Speaking],
      c_barge_probe_frames := 0, c_barge_cooldown_frames := 0, c_barge_probe := Probe_Idle\<rparr>"
    using assms b
    by (simp add: handle_event_def sample_audio_event_def handle_audio_start_def mark_first_response_progress_def Let_def
        audio_begin_def audio_command_def take_handshake_def sample_prepare sample_audio_fields reset_barge_probe_def
        on_audio_def ui_call_def e_def)
  then show thesis using e by (rule that)
qed

lemma sample_hear:
  assumes "c_state c = St_PlayingResponse" "\<not> c_await_hint_visible c" "ring_inv (c_audio c)" "queued (c_audio c) = []"
    "e_open (c_audio c)" "e_active (c_audio c)" "\<not> e_ending (c_audio c)" "\<not> e_drop (c_audio c)" "\<not> e_sequence_set (c_audio c)"
  obtains e where "handle_event sample_speech_event c = c\<lparr>c_state_deadline := c_now c + k_response_wait, c_await_hint_pending := False,
      c_audio := e, c_accepted := c_accepted c @ [1, 2]\<rparr>" "e_active e" "\<not> e_drop e"
proof -
  have le: "le_samples sample_speech = [1, 2]" by (simp add: sample_speech_def)
  have ok: "tts_acceptable sample_speech n (c_audio c)" for n
    using assms by (simp add: tts_acceptable_def sample_speech_def audio_consts)
  obtain e where e: "queue_tts24k sample_speech (ucast (pcm_sequence (sample_pcm 0 1))) (c_audio c) = Some (True, e)"
    "e_active e" "\<not> e_drop e"
    using queue_total [OF assms(3), of sample_speech "ucast (pcm_sequence (sample_pcm 0 1))"] ok assms(6,8) by auto
  have "handle_event sample_speech_event c = c\<lparr>c_state_deadline := c_now c + k_response_wait, c_await_hint_pending := False,
      c_audio := e, c_accepted := c_accepted c @ [1, 2]\<rparr>"
    using assms(1,2) e(1)
    by (simp add: handle_event_def sample_speech_event_def handle_pcm_def mark_first_response_progress_def Let_def audio_queue_def le)
  then show thesis using e(2,3) by (rule that)
qed

lemma drain_step:
  "enter p ph c = c0 \<Longrightarrow> c_transport c0 \<noteq> None \<Longrightarrow> \<not> c_listener_failed c0 \<Longrightarrow> event_pop (c_events c0) = Some (e, q) \<Longrightarrow>
   drain_events p (ph # phs) c = drain_events p phs (handle_event e (c0\<lparr>c_events := q\<rparr>))"
  by auto

text \<open>The whole pass, from a client that waits for its response.\<close>

lemma sample_reply_run_pass:
  assumes "c_transport c = Some t" "t_active t" "t_committed t" "t_response t = no_ids" "t_turn t = sample_ids" "t_session t = 7"
    "t_device_id t = ''00112233-4455-6677-8899-aabbccddeeff''" "t_uuid t = t_uuid sample_start" "\<not> t_response_cancel_sent t"
    and "queue_valid (c_events c)" "queue_events (c_events c) = []" "\<not> q_overflow (c_events c)"
    and "c_state c = St_WaitingForResponse" "\<not> c_await_hint_visible c" "c_audio c = sample_audio n b" "\<not> c_listener_failed c"
    "c_hello_sent c" "session (c_turn_ids c) \<noteq> 0" "0 < c_heartbeat_deadline c" "c_playback_pc c = P_Wait"
  obtains d where "run_pass sample_parser sample_reply_pass c = Going d" "e_active (c_audio d)" "\<not> e_drop (c_audio d)"
    "\<not> q_overflow (c_events d)" "queue_events (c_events d) = []" "c_playback_pc d = P_Wait"
    "c_wire d = c_wire c @ map Out_Inbound [sample_start_event, sample_audio_event, sample_speech_event]"
proof -
  note pass = sample_reply_pass_def pass_input.simps
  define c1 where "c1 = c\<lparr>c_now := 0, c_sends := replicate 4 quiet_env, c_handshakes := [Hs_Done True]\<rparr>"
  have 1: "connect_phase sample_parser sample_reply_pass c = c1"
    using assms(1) by (simp add: connect_phase_def pass Let_def c1_def)
  have 2: "capture_phase sample_parser sample_reply_pass c1 = (Cap_Timeout, c1)"
    using assms(15) by (simp add: capture_phase_def pass Let_def c1_def capture_take_def sample_audio_fields k_actor_poll_interval_def)
  have 3: "finish_connect c1 = c1" using assms(1,17) by (simp add: finish_connect_def c1_def)
  have t1: "c_transport c1 = Some t" "queue_valid (c_events c1)" "queue_events (c_events c1) = []" "\<not> q_overflow (c_events c1)"
    using assms by (simp_all add: c1_def)
  obtain t' q where arr: "fold (thread_step sample_parser) [Th_Wss (W_Message (Text_Message sample_start_json)),
       Th_Wss (W_Message (Text_Message sample_audio_json)), Th_Wss (W_Message (Binary_Message sample_downlink))] c1 =
     c1\<lparr>c_transport := Some t', c_wire := c_wire c1 @ map Out_Inbound [sample_start_event, sample_audio_event, sample_speech_event],
       c_events := q\<rparr>"
    "queue_valid q" "queue_events q = [sample_start_event, sample_audio_event, sample_speech_event]" "\<not> q_overflow q"
    by (rule sample_reply_arrives [OF t1(1) assms(2-9) t1(2-4)])
  obtain q1 where q1: "event_pop q = Some (sample_start_event, q1)" "queue_valid q1"
    "queue_events q1 = [sample_audio_event, sample_speech_event]" "\<not> q_overflow q1"
    by (rule sample_pop [OF arr(2-4)])
  obtain q2 where q2: "event_pop q1 = Some (sample_audio_event, q2)" "queue_valid q2" "queue_events q2 = [sample_speech_event]"
    "\<not> q_overflow q2" by (rule sample_pop [OF q1(2-4)])
  obtain q3 where q3: "event_pop q2 = Some (sample_speech_event, q3)" "queue_valid q3" "queue_events q3 = []" "\<not> q_overflow q3"
    by (rule sample_pop [OF q2(2-4)])
  let ?again = "\<lambda>c :: client. c\<lparr>c_now := 0, c_sends := replicate 4 quiet_env, c_handshakes := [Hs_Done True]\<rparr>"
  define c2 where "c2 = ?again (c1\<lparr>c_transport := Some t', c_wire := c_wire c1 @ map Out_Inbound [sample_start_event, sample_audio_event,
     sample_speech_event], c_events := q\<rparr>)"
  define c3 where "c3 = ?again (handle_event sample_start_event (c2\<lparr>c_events := q1\<rparr>))"
  have c3: "c3 = ?again ((c2\<lparr>c_events := q1, c_state_deadline := c_now c2 + k_response_wait, c_response_ids := sample_ids,
      c_subtitle := [], c_ui := c_ui c2 @ [Call_Text [] []]\<rparr>))"
    using assms(13,14) by (simp add: c3_def handle_event_def sample_start_event_def Let_def clear_subtitle_def ui_call_def c2_def c1_def)
  have f3: "c_state (c3\<lparr>c_events := q2\<rparr>) = St_WaitingForResponse" "\<not> c_await_hint_visible (c3\<lparr>c_events := q2\<rparr>)"
    "c_audio (c3\<lparr>c_events := q2\<rparr>) = sample_audio n b" "c_handshakes (c3\<lparr>c_events := q2\<rparr>) = [Hs_Done True]"
    using assms(13-15) by (simp_all add: c3 c2_def c1_def)
  obtain e ui where play: "handle_event sample_audio_event (c3\<lparr>c_events := q2\<rparr>) = (c3\<lparr>c_events := q2\<rparr>)\<lparr>c_state_deadline := c_now (c3\<lparr>c_events := q2\<rparr>) + k_response_wait,
      c_await_hint_pending := False, c_handshakes := [], c_audio := e, c_accepted := [], c_rendered := [], c_state := St_PlayingResponse, c_ui := ui,
      c_barge_probe_frames := 0, c_barge_cooldown_frames := 0, c_barge_probe := Probe_Idle\<rparr>"
    "ring_inv e" "queued e = []" "e_open e" "e_active e" "\<not> e_ending e" "\<not> e_drop e" "\<not> e_sequence_set e"
    by (rule sample_play [OF f3])
  define c4 where "c4 = ?again (handle_event sample_audio_event (c3\<lparr>c_events := q2\<rparr>))"
  have f4: "c_state (c4\<lparr>c_events := q3\<rparr>) = St_PlayingResponse" "\<not> c_await_hint_visible (c4\<lparr>c_events := q3\<rparr>)"
    "c_audio (c4\<lparr>c_events := q3\<rparr>) = e"
    using f3(2) by (simp_all add: c4_def play(1))
  obtain e' where hear: "handle_event sample_speech_event (c4\<lparr>c_events := q3\<rparr>) = (c4\<lparr>c_events := q3\<rparr>)\<lparr>c_state_deadline :=
      c_now (c4\<lparr>c_events := q3\<rparr>) + k_response_wait, c_await_hint_pending := False, c_audio := e',
      c_accepted := c_accepted (c4\<lparr>c_events := q3\<rparr>) @ [1, 2]\<rparr>" "e_active e'" "\<not> e_drop e'"
    by (rule sample_hear [OF f4(1,2)]) (use f4(3) play in simp_all)
  define d where "d = ?again (handle_event sample_speech_event (c4\<lparr>c_events := q3\<rparr>))"
  note c4 = c4_def [unfolded play(1)]
  note d' = d_def [unfolded hear(1)]
  have link: "c_transport c2 = Some t'" "\<not> c_listener_failed c2" "c_events c2 = q"
    using assms(16) by (simp_all add: c2_def c1_def)
  have link3: "c_transport c3 = Some t'" "\<not> c_listener_failed c3" "c_events c3 = q1"
    using link by (simp_all add: c3)
  have link4: "c_transport c4 = Some t'" "\<not> c_listener_failed c4" "c_events c4 = q2"
    using link3 by (simp_all add: c4)
  have rest: "session (c_turn_ids c2) \<noteq> 0" "0 < c_heartbeat_deadline c2" "c_playback_pc c2 = P_Wait"
    "c_wire c2 = c_wire c @ map Out_Inbound [sample_start_event, sample_audio_event, sample_speech_event]"
    using assms(18-20) by (simp_all add: c2_def c1_def)
  have rest3: "c_turn_ids c3 = c_turn_ids c2" "c_heartbeat_deadline c3 = c_heartbeat_deadline c2" "c_playback_pc c3 = c_playback_pc c2"
    "c_wire c3 = c_wire c2" by (simp_all add: c3)
  have rest4: "c_turn_ids c4 = c_turn_ids c3" "c_heartbeat_deadline c4 = c_heartbeat_deadline c3" "c_playback_pc c4 = c_playback_pc c3"
    "c_wire c4 = c_wire c3" by (simp_all add: c4)
  define x3 where "x3 = handle_event sample_start_event (c2\<lparr>c_events := q1\<rparr>)"
  define x4 where "x4 = handle_event sample_audio_event (c3\<lparr>c_events := q2\<rparr>)"
  have e2: "enter sample_parser (sample_phase [Th_Wss (W_Message (Text_Message sample_start_json)),
       Th_Wss (W_Message (Text_Message sample_audio_json)), Th_Wss (W_Message (Binary_Message sample_downlink))]) c1 = c2"
    by (simp only: enter_sample arr(1) c2_def)
  have e3: "enter sample_parser (sample_phase []) x3 = c3" "enter sample_parser (sample_phase []) x4 = c4"
    by (simp_all add: x3_def x4_def c3_def c4_def)
  have tk: "take k_events_per_capture_frame (in_drain sample_reply_pass) = [sample_phase [Th_Wss (W_Message (Text_Message sample_start_json)),
       Th_Wss (W_Message (Text_Message sample_audio_json)), Th_Wss (W_Message (Binary_Message sample_downlink))], sample_phase [], sample_phase []]"
    by (simp add: k_events_per_capture_frame_def pass)
  have "drain_events sample_parser (take k_events_per_capture_frame (in_drain sample_reply_pass)) c1 =
      handle_event sample_speech_event (c4\<lparr>c_events := q3\<rparr>)"
    unfolding tk
    by (subst drain_step [OF e2, of sample_start_event q1], use link q1(1) in \<open>simp_all only: not_False_eq_True option.simps\<close>,
        unfold x3_def [symmetric], subst drain_step [OF e3(1), of sample_audio_event q2],
        use link3 q2(1) in \<open>simp_all only: not_False_eq_True option.simps\<close>,
        unfold x4_def [symmetric], subst drain_step [OF e3(2), of sample_speech_event q3],
        use link4 q3(1) in \<open>simp_all only: not_False_eq_True option.simps drain_events.simps\<close>)
  then have 4: "?again (drain_events sample_parser (take k_events_per_capture_frame (in_drain sample_reply_pass)) c1) = d"
    by (simp only: d_def)
  have d: "c_transport d = Some t'" "\<not> c_listener_failed d" "c_events d = q3" "c_audio d = e'" "c_state d = St_PlayingResponse"
    "session (c_turn_ids d) \<noteq> 0" "0 < c_heartbeat_deadline d" "c_now d = 0" "0 < c_state_deadline d" "c_playback_pc d = P_Wait"
    "c_wire d = c_wire c @ map Out_Inbound [sample_start_event, sample_audio_event, sample_speech_event]"
    using link4 rest rest3 rest4 f4 by (simp_all add: d' wait_consts)
  have again: "?again d = d" by (simp add: d_def)
  have 5: "input_phase sample_parser sample_reply_pass c1 = d"
    using 3 4 by (simp add: input_phase_def pass Let_def poll_ui_def c1_def)
  have 6: "overflow_phase sample_parser sample_reply_pass d = d" using q3(4) d again by (simp add: overflow_phase_def pass Let_def)
  have 7: "deadline_phase sample_parser sample_reply_pass d = (True, d)"
    using d again by (simp add: deadline_phase_def pass advance_deadlines_def)
  have 8: "\<not> c_listener_failed c1" using assms(16) by (simp add: c1_def)
  have "run_pass sample_parser sample_reply_pass c = Going d"
    unfolding run_pass_def 1 2 Let_def prod.case 5 6 7 using 8 d(2) by simp
  then show thesis by (rule that) (use d q3 hear in simp_all)
qed

text \<open>The whole run: connect, wake word, speech and its end, the response.\<close>

definition sample_talk_passes :: "pass_input list" where
  "sample_talk_passes = [sample_pass1, sample_pass2, sample_pass [] [] [] sample_end, sample_reply_pass]"

definition sample_answered :: client where
  "sample_answered = client_of (run_client sample_parser sample_client_config sample_settings True True True 0 0 sample_talk_passes)"

lemma sample_answered_run:
  obtains w where "e_active (c_audio sample_answered)" "\<not> e_drop (c_audio sample_answered)" "\<not> q_overflow (c_events sample_answered)"
    "queue_events (c_events sample_answered) = []" "c_playback_pc sample_answered = P_Wait"
    "c_wire sample_answered = w @ map Out_Inbound [sample_start_event, sample_audio_event, sample_speech_event]"
proof -
  obtain w where w: "run_pass sample_parser sample_pass1 sample_client = Going (sample_waiting w)" using sample_pass1 by blast
  note parts = sample_committed_def turn_committed_def Let_def wait_for_response_def ui_call_def sample_before_commit_def
    sample_captured_def turn_started_def sample_turn_begins_def sample_waiting_def sample_ready_def
  have pc: "c_playback_pc sample_client = P_Wait" "\<not> c_await_hint_visible sample_client"
    by (simp_all add: sample_client_def client_start_def open_engine_def client_setup_def Let_def ui_call_def
      new_client_def new_engine_def sample_settings_def sample_client_config_def playback_gain_def)
  have e: "queue_valid sample_drained" "queue_events sample_drained = []"
    by (simp_all add: sample_drained_def event_pop_def event_push_def empty_queue_def event_capacity_def queue_valid_def queue_events_def)
  let ?c = "sample_committed w"
  have c: "c_transport ?c = Some ((uploaded (Suc 0) True sample_talked)\<lparr>t_committed := True\<rparr>)" "queue_valid (c_events ?c)"
    "queue_events (c_events ?c) = []" "\<not> q_overflow (c_events ?c)" "c_state ?c = St_WaitingForResponse"
    "\<not> c_await_hint_visible ?c" "c_audio ?c = sample_audio 3 True" "\<not> c_listener_failed ?c" "c_hello_sent ?c"
    "session (c_turn_ids ?c) \<noteq> 0" "0 < c_heartbeat_deadline ?c" "c_playback_pc ?c = P_Wait"
    by (simp_all add: parts sample_client_fields pc e sample_drain wait_consts)
  obtain d where d: "run_pass sample_parser sample_reply_pass ?c = Going d" "e_active (c_audio d)" "\<not> e_drop (c_audio d)"
    "\<not> q_overflow (c_events d)" "queue_events (c_events d) = []" "c_playback_pc d = P_Wait"
    "c_wire d = c_wire ?c @ map Out_Inbound [sample_start_event, sample_audio_event, sample_speech_event]"
    by (rule sample_reply_run_pass [OF c(1) _ _ _ _ _ _ _ _ c(2-)])
      (simp_all add: uploaded_def sample_talked_fields)
  have loop: "run_loop sample_parser sample_talk_passes sample_client = Going d"
    unfolding sample_talk_passes_def run_loop.simps w loop_result.case sample_pass2 sample_commit_pass d(1) by (rule refl)
  have "run_client sample_parser sample_client_config sample_settings True True True 0 0 sample_talk_passes = Going d"
    unfolding run_client_def sample_client_start loop_result.case by (rule loop)
  then have "sample_answered = d" by (simp only: sample_answered_def client_of_simps)
  then show thesis using d(2-) that by simp
qed

end
