(* ===== verification/SpeechPath.thy ===== *)
theory SpeechPath
  imports ClientReply
begin

section \<open>From the server's voice to the speaker\<close>

text \<open>
  The whole way down: the PCM messages the transport delivers go through the event queue to the actor, which
  hands them to the engine, whose playback thread renders them. In a run in which the audio threads are
  those of the engine (no step leaves an arbitrary engine behind), what has been rendered and what is
  still in the engine is exactly the PCM of the messages the actor has dealt with since playback began.
\<close>

subsection \<open>What the actor's operations do to a playback\<close>

definition playing :: "client \<Rightarrow> bool" where
  "playing c \<longleftrightarrow> e_active (c_audio c) \<and> \<not> e_drop (c_audio c)"

definition sound :: "client \<Rightarrow> bool" where
  "sound c \<longleftrightarrow> player_inv (player_of c) \<and> (e_active (c_audio c) \<longrightarrow> e_open (c_audio c))"

definition lost :: "client \<Rightarrow> bool" where
  "lost c \<longleftrightarrow> c_transport c = None \<and> queue_events (c_events c) = [] \<and> \<not> q_overflow (c_events c) \<and> \<not> playing c"

definition same_link :: "client \<Rightarrow> client \<Rightarrow> bool" where
  "same_link c c' \<longleftrightarrow> (c_transport c' = None \<longleftrightarrow> c_transport c = None) \<and> c_events c' = c_events c \<and>
     inbound_of (c_wire c') = inbound_of (c_wire c)"

lemma same_link_refl [simp]: "same_link c c"
  by (simp add: same_link_def)

text \<open>
  \<open>follows c c'\<close>: on the way from \<open>c\<close> to \<open>c'\<close> playback is kept sound and is not begun, nothing is accepted into
  it, a cancellation is only begun without playback, and the event queue is left alone or the connection is lost.
\<close>

definition follows :: "client \<Rightarrow> client \<Rightarrow> bool" where
  "follows c c' \<longleftrightarrow> (sound c \<longrightarrow> sound c' \<and> (playing c' \<longrightarrow> playing c \<and> c_accepted c' = c_accepted c) \<and>
     (c_state c' = St_CancelPending \<longrightarrow> \<not> playing c' \<or> c_state c = St_CancelPending) \<and>
     (lost c' \<or> same_link c c'))"

lemma follows_refl [simp]: "follows c c"
  by (simp add: follows_def)

lemma follows_trans: "follows c d \<Longrightarrow> follows d e \<Longrightarrow> follows c e"
proof -
  assume a: "follows c d" and b: "follows d e"
  show "follows c e"
    unfolding follows_def
  proof (rule impI)
    assume s: "sound c"
    from a s have cd: "sound d" "playing d \<longrightarrow> playing c \<and> c_accepted d = c_accepted c"
      "c_state d = St_CancelPending \<longrightarrow> \<not> playing d \<or> c_state c = St_CancelPending"
      "lost d \<or> same_link c d" by (simp_all add: follows_def)
    from b cd(1) have de: "sound e" "playing e \<longrightarrow> playing d \<and> c_accepted e = c_accepted d"
      "c_state e = St_CancelPending \<longrightarrow> \<not> playing e \<or> c_state d = St_CancelPending"
      "lost e \<or> same_link d e" by (simp_all add: follows_def)
    have "lost d \<Longrightarrow> same_link d e \<Longrightarrow> lost e" using de(2) by (auto simp: lost_def same_link_def)
    moreover have "same_link c d \<Longrightarrow> same_link d e \<Longrightarrow> same_link c e" by (simp add: same_link_def)
    ultimately have "lost e \<or> same_link c e" using cd(4) de(4) by blast
    then show "sound e \<and> (playing e \<longrightarrow> playing c \<and> c_accepted e = c_accepted c) \<and>
        (c_state e = St_CancelPending \<longrightarrow> \<not> playing e \<or> c_state c = St_CancelPending) \<and> (lost e \<or> same_link c e)"
      using cd de by metis
  qed
qed

lemma follows_frame [simp]:
  "follows c (d\<lparr>c_endpoint := x0\<rparr>) = follows c d" "follows c (d\<lparr>c_error := x1\<rparr>) = follows c d"
  "follows c (d\<lparr>c_ui := x2\<rparr>) = follows c d" "follows c (d\<lparr>c_settings := x3\<rparr>) = follows c d"
  "follows c (d\<lparr>c_endpoint_ready := x4\<rparr>) = follows c d" "follows c (d\<lparr>c_network_needed := x5\<rparr>) = follows c d"
  "follows c (d\<lparr>c_pre := x6\<rparr>) = follows c d" "follows c (d\<lparr>c_pre_head := x7\<rparr>) = follows c d"
  "follows c (d\<lparr>c_pre_count := x8\<rparr>) = follows c d" "follows c (d\<lparr>c_turn_ids := x9\<rparr>) = follows c d"
  "follows c (d\<lparr>c_response_ids := x10\<rparr>) = follows c d" "follows c (d\<lparr>c_state_deadline := x11\<rparr>) = follows c d"
  "follows c (d\<lparr>c_next_connect := x12\<rparr>) = follows c d" "follows c (d\<lparr>c_heartbeat_deadline := x13\<rparr>) = follows c d"
  "follows c (d\<lparr>c_await_hint_at := x14\<rparr>) = follows c d" "follows c (d\<lparr>c_audio_origin_us := x15\<rparr>) = follows c d"
  "follows c (d\<lparr>c_next_capture_sequence := x16\<rparr>) = follows c d" "follows c (d\<lparr>c_message := x17\<rparr>) = follows c d"
  "follows c (d\<lparr>c_uplink_sequence := x18\<rparr>) = follows c d" "follows c (d\<lparr>c_subtitle := x19\<rparr>) = follows c d"
  "follows c (d\<lparr>c_reconnect_attempt := x20\<rparr>) = follows c d" "follows c (d\<lparr>c_follow_up_near_frames := x21\<rparr>) = follows c d"
  "follows c (d\<lparr>c_barge_probe_frames := x22\<rparr>) = follows c d" "follows c (d\<lparr>c_barge_cooldown_frames := x23\<rparr>) = follows c d"
  "follows c (d\<lparr>c_barge_quiet_frames := x24\<rparr>) = follows c d" "follows c (d\<lparr>c_barge_silence_frames := x25\<rparr>) = follows c d"
  "follows c (d\<lparr>c_volume := x26\<rparr>) = follows c d" "follows c (d\<lparr>c_brightness := x27\<rparr>) = follows c d"
  "follows c (d\<lparr>c_await_hint_pending := x28\<rparr>) = follows c d" "follows c (d\<lparr>c_await_hint_visible := x29\<rparr>) = follows c d"
  "follows c (d\<lparr>c_barge_probe := x30\<rparr>) = follows c d" "follows c (d\<lparr>c_hello_sent := x31\<rparr>) = follows c d"
  "follows c (d\<lparr>c_barge_ended := x32\<rparr>) = follows c d" "follows c (d\<lparr>c_barge_turn_admitted := x33\<rparr>) = follows c d"
  "follows c (d\<lparr>c_barge_buffer_overflow := x34\<rparr>) = follows c d" "follows c (d\<lparr>c_manual_wake_pending := x35\<rparr>) = follows c d"
  "follows c (d\<lparr>c_finish_after_cancel_ack := x36\<rparr>) = follows c d" "follows c (d\<lparr>c_listener_failed := x37\<rparr>) = follows c d"
  "follows c (d\<lparr>c_taken := x38\<rparr>) = follows c d" "follows c (d\<lparr>c_now := x39\<rparr>) = follows c d"
  "follows c (d\<lparr>c_sends := x40\<rparr>) = follows c d" "follows c (d\<lparr>c_handshakes := x41\<rparr>) = follows c d"
  by (simp_all add: follows_def sound_def player_of_def playing_def lost_def same_link_def)

lemma follows_state:
  "follows c d \<Longrightarrow> s \<noteq> St_CancelPending \<or> (sound c \<longrightarrow> \<not> playing d) \<Longrightarrow> follows c (d\<lparr>c_state := s\<rparr>)"
  by (auto simp: follows_def sound_def player_of_def playing_def lost_def same_link_def)

subsection \<open>Calls on the engine\<close>

text \<open>The part of the engine that playback depends on; the capture side leaves it alone.\<close>

definition playback_part :: "engine \<Rightarrow> _" where
  "playback_part e = (e_open e, e_tts e, e_tts_head e, e_tts_tail e, e_tts_count e, e_queued_samples e,
     e_active e, e_ending e, e_drop e, e_is_done e)"

lemma playback_part_inv: "playback_part e' = playback_part (pl_engine p) \<Longrightarrow> player_inv (p\<lparr>pl_engine := e'\<rparr>) = player_inv p"
proof -
  assume a: "playback_part e' = playback_part (pl_engine p)"
  then have f: "e_active e' = e_active (pl_engine p)" "e_is_done e' = e_is_done (pl_engine p)" "e_drop e' = e_drop (pl_engine p)"
    "e_ending e' = e_ending (pl_engine p)" "e_tts_count e' = e_tts_count (pl_engine p)"
    by (simp_all add: playback_part_def)
  have r: "ring_inv e' = ring_inv (pl_engine p)" "queued e' = queued (pl_engine p)"
    using a by (simp_all add: playback_part_def ring_inv_def slots_ok_def slots_def queued_def)
  have i: "in_flight (p\<lparr>pl_engine := e'\<rparr>) = in_flight p" by (simp add: in_flight_def r)
  show ?thesis unfolding player_inv_def Let_def i by (simp add: f r cong: playback_pc.case_cong)
qed

lemma follows_same_playback:
  assumes "playback_part e = playback_part (c_audio c)"
  shows "follows c (c\<lparr>c_audio := e\<rparr>)"
proof -
  have "player_of (c\<lparr>c_audio := e\<rparr>) = (player_of c)\<lparr>pl_engine := e\<rparr>" by (simp add: player_of_def)
  then have "player_inv (player_of (c\<lparr>c_audio := e\<rparr>)) = player_inv (player_of c)"
    using playback_part_inv [of e "player_of c"] assms by (simp add: player_of_def)
  then show ?thesis using assms by (simp add: follows_def sound_def playing_def playback_part_def lost_def same_link_def)
qed

lemma playback_part_decisions [simp]: "playback_part (clear_queued_decisions e) = playback_part e"
proof -
  have "playback_part (fold (\<lambda>offset e. let i = (e_capture_head e + offset) mod k_capture_slots in
     e\<lparr>e_capture := (e_capture e)[i := clear_decisions (e_capture e ! i)]\<rparr>) ks e) = playback_part e" for ks
    by (induction ks arbitrary: e) (simp_all add: Let_def playback_part_def)
  then show ?thesis by (simp add: clear_queued_decisions_def)
qed

lemma playback_part_fields [simp]:
  "playback_part (e\<lparr>e_command := x1\<rparr>) = playback_part e" "playback_part (e\<lparr>e_command_succeeded := x2\<rparr>) = playback_part e"
  "playback_part (e\<lparr>e_capture_failed := x3\<rparr>) = playback_part e" "playback_part (e\<lparr>e_error := x4\<rparr>) = playback_part e"
  "playback_part (e\<lparr>e_capture := x5\<rparr>) = playback_part e" "playback_part (e\<lparr>e_capture_head := x6\<rparr>) = playback_part e"
  "playback_part (e\<lparr>e_capture_count := x7\<rparr>) = playback_part e" "playback_part (e\<lparr>e_capture_sequence := x8\<rparr>) = playback_part e"
  by (simp_all add: playback_part_def)

lemma playback_part_apply [simp]: "playback_part (snd (apply_capture_command ok e)) = playback_part e"
  by (simp add: apply_capture_command_def Let_def)

lemma playback_part_result [simp]: "playback_part (snd (command_result e)) = playback_part e"
  by (simp add: command_result_def)

lemma playback_part_command: "playback_part (snd (run_capture_command k h e)) = playback_part e"
proof (cases "post_command k e")
  case None
  then show ?thesis by (simp add: run_capture_command_def)
next
  case (Some e1)
  then have "playback_part e1 = playback_part e" by (auto simp: post_command_def split: if_splits)
  have "playback_part (snd (apply_capture_command ok' e1)) = playback_part e1" for ok' by (rule playback_part_apply)
  then show ?thesis using Some \<open>playback_part e1 = playback_part e\<close>
    by (simp add: run_capture_command_def prod.case_eq_if split: handshake.split)
qed

lemma playback_part_iteration: "playback_part (snd (capture_iteration ok r e)) = playback_part e"
proof -
  have "playback_part (push_capture f e1) = playback_part e1" for f e1
    by (simp add: push_capture_def Let_def clear_capture_queue_def)
  then have "playback_part (snd (capture_round r e1)) = playback_part e1" for e1
    by (simp add: capture_round_def split: option.split)
  moreover obtain go e1 where a: "apply_capture_command ok e = (go, e1)" by fastforce
  ultimately show ?thesis using playback_part_apply [of ok e]
    by (simp add: capture_iteration_def a split: bool.split)
qed

lemma playback_part_take: "capture_take k e = (r, e') \<Longrightarrow> playback_part e' = playback_part e"
  by (auto simp: capture_take_def split: if_splits)

lemma follows_audio_command: "audio_command k c = (ok, c') \<Longrightarrow> follows c c'"
proof -
  assume a: "audio_command k c = (ok, c')"
  obtain h hs where t: "take_handshake c = (h, c\<lparr>c_handshakes := hs\<rparr>)" using take_handshake_form by blast
  obtain b e where r: "run_capture_command k h (c_audio c) = (b, e)" by fastforce
  have "c' = (c\<lparr>c_handshakes := hs\<rparr>)\<lparr>c_audio := e\<rparr>" using a t r by (simp add: audio_command_def)
  then have "c' = (c\<lparr>c_audio := e\<rparr>)\<lparr>c_handshakes := hs\<rparr>" by simp
  moreover have "follows c (c\<lparr>c_audio := e\<rparr>)"
    using playback_part_command [of k h "c_audio c"] r by (simp add: follows_same_playback)
  ultimately show ?thesis by simp
qed

subsection \<open>Operations of the actor\<close>

text \<open>In this form the simplifier walks down a chain of operations.\<close>

lemma follows_into: "(\<And>c. follows c (op c)) \<Longrightarrow> follows c d \<Longrightarrow> follows c (op d)"
  using follows_trans by blast

lemma follows_player:
  assumes "player_inv (player_of c) \<Longrightarrow> player_inv ((player_of c)\<lparr>pl_engine := e\<rparr>)"
    and "e_active e = e_active (c_audio c)" "e_open e = e_open (c_audio c)" "e_drop (c_audio c) \<Longrightarrow> e_drop e"
  shows "follows c (c\<lparr>c_audio := e\<rparr>)"
proof -
  have "player_of (c\<lparr>c_audio := e\<rparr>) = (player_of c)\<lparr>pl_engine := e\<rparr>" by (simp add: player_of_def)
  then show ?thesis using assms by (auto simp: follows_def sound_def playing_def lost_def same_link_def)
qed

lemma drop_fields [simp]: "e_active (drop_playback e) = e_active e" "e_open (drop_playback e) = e_open e"
  "e_drop e \<Longrightarrow> e_drop (drop_playback e)" "e_open e \<Longrightarrow> e_active e \<Longrightarrow> e_drop (drop_playback e)"
  by (simp_all add: drop_playback_def)

lemma follows_drop: "follows c (on_audio drop_playback c)"
  unfolding on_audio_def
  by (rule follows_player) (use player_inv_drop [of "player_of c"] in \<open>simp_all add: player_of_def\<close>)

lemma dropped: "sound c \<Longrightarrow> \<not> playing (on_audio drop_playback c)"
  by (auto simp: sound_def playing_def on_audio_def)

lemma follows_gains: "follows c (on_audio (set_playback_scale x) c)" "follows c (on_audio (set_playback_gain x) c)"
  unfolding on_audio_def
  by (rule follows_player;
      use player_inv_gains [of "player_of c"] in \<open>simp add: player_of_def set_playback_scale_def set_playback_gain_def\<close>)+

lemma follows_reset_listener: "follows c (reset_listener c)"
proof (cases "\<not> e_open (c_audio c) \<or> e_stop (c_audio c)")
  case False
  obtain ok c1 where a: "audio_command Cmd_ResetListener c = (ok, c1)" by fastforce
  show ?thesis using False follows_audio_command [OF a] by (cases ok) (simp_all add: reset_listener_def a)
qed (simp add: reset_listener_def)

lemma follows_wire: "t = None \<longleftrightarrow> c_transport c = None \<Longrightarrow> inbound_of w = inbound_of (c_wire c) \<Longrightarrow>
   follows c (c\<lparr>c_transport := t, c_wire := w\<rparr>)"
  by (simp add: follows_def sound_def player_of_def playing_def lost_def same_link_def)

lemma inbound_append [simp]: "inbound_of (xs @ ys) = inbound_of xs @ inbound_of ys" "inbound_of [] = []"
  by (simp_all add: inbound_of_def)

lemma follows_client_send: "client_send k ids c = (ok, c') \<Longrightarrow> follows c c'"
proof -
  assume a: "client_send k ids c = (ok, c')"
  show ?thesis
  proof (cases "c_transport c")
    case None
    then have "c' = c\<lparr>c_message := c_message c + 1\<rparr>" using a by (auto simp: client_send_def Let_def)
    then show ?thesis by simp
  next
    case (Some t)
    define c0 where "c0 = c\<lparr>c_message := c_message c + 1\<rparr>"
    obtain env ss where n: "next_send c0 = (env, c0\<lparr>c_sends := ss\<rparr>)" using next_send_form by blast
    obtain ok' t' os where s: "send_control env (make_control k ids c) t = (ok', t', os)"
      by (cases "send_control env (make_control k ids c) t") auto
    from s have "inbound_of os = []" by (cases rule: send_control_cases) (simp_all add: inbound_of_def)
    then have "follows c (c\<lparr>c_transport := Some t', c_wire := c_wire c @ os\<rparr>)" using Some by (intro follows_wire) simp_all
    moreover have "c' = (c\<lparr>c_transport := Some t', c_wire := c_wire c @ os\<rparr>)\<lparr>c_message := c_message c + 1, c_sends := ss\<rparr>"
      using a Some n s by (auto simp: client_send_def Let_def c0_def)
    ultimately show ?thesis by simp
  qed
qed

lemma follows_ops [simp]:
  "follows c d \<Longrightarrow> follows c (on_audio drop_playback d)" "follows c d \<Longrightarrow> follows c (on_audio (set_playback_scale x) d)"
  "follows c d \<Longrightarrow> follows c (on_audio (set_playback_gain x) d)" "follows c d \<Longrightarrow> follows c (reset_listener d)"
  "s \<noteq> St_CancelPending \<Longrightarrow> follows c d \<Longrightarrow> follows c (d\<lparr>c_state := s\<rparr>)"
  using follows_drop follows_gains follows_reset_listener
  by (auto intro: follows_trans follows_state)

lemma follows_simple [simp]:
  "follows c (ui_call u d) = follows c d" "follows c (save_ui_settings d) = follows c d"
  "follows c (clear_subtitle d) = follows c d" "follows c (mark_first_response_progress d) = follows c d"
  "follows c (show_text s d) = follows c d" "follows c (reset_barge_turn d) = follows c d"
  "follows c (advance_turn d) = follows c d" "follows c (keep_newest_pre_roll n d) = follows c d"
  "follows c (save_pre_roll f d) = follows c d" "follows c (track_barge_utterance f d) = follows c d"
  "follows c (thaw_barge f d) = follows c d" "follows c (store_frame f d) = follows c d"
  by (simp_all add: ui_call_def save_ui_settings_def clear_subtitle_def mark_first_response_progress_def show_text_def
      reset_barge_turn_def advance_turn_def keep_newest_pre_roll_def save_pre_roll_def track_barge_utterance_def
      thaw_barge_def store_frame_def Let_def split: prod.split)

lemma follows_barge [simp]:
  "follows c d \<Longrightarrow> follows c (reset_barge_probe d)" "follows c d \<Longrightarrow> follows c (reject_barge_probe d)"
  "follows c d \<Longrightarrow> follows c (apply_volume v b d)" "follows c d \<Longrightarrow> follows c (begin_listening d)"
  by (simp_all add: reset_barge_probe_def reject_barge_probe_def apply_volume_def begin_listening_def Let_def)

lemma sound_follows: "follows c d \<Longrightarrow> sound c \<Longrightarrow> sound d \<and> (\<not> playing c \<longrightarrow> \<not> playing d)"
  by (auto simp: follows_def)

lemma sound_fields [simp]: "sound (c\<lparr>c_events := q\<rparr>) = sound c" "sound (c\<lparr>c_transport := t\<rparr>) = sound c"
  "sound (c\<lparr>c_wire := w\<rparr>) = sound c" "sound (close_wire c) = sound c"
  by (simp_all add: sound_def player_of_def close_wire_def split: option.split prod.split)

lemma lose_events: "c_events (lose_connection c) = event_clear (c_events c)"
proof -
  have "c_events (close_wire c) = c_events c" by (simp add: close_wire_def split: option.split prod.split)
  then show ?thesis by (simp add: lose_connection_def Let_def)
qed

lemma lose_lost: "sound c \<Longrightarrow> sound (lose_connection c) \<and> lost (lose_connection c)"
proof -
  assume s: "sound c"
  define c1 where "c1 = (close_wire c)\<lparr>c_events := event_clear (c_events (close_wire c))\<rparr>"
  have s1: "sound c1" using s by (simp add: c1_def)
  have f: "follows (on_audio drop_playback c1) (lose_connection c)"
    by (simp add: lose_connection_def Let_def c1_def)
  have "sound (on_audio drop_playback c1)" using sound_follows [OF follows_drop s1] by blast
  then have "sound (lose_connection c) \<and> \<not> playing (lose_connection c)" using sound_follows [OF f] dropped [OF s1] by blast
  then show ?thesis by (simp add: lost_def lose_fields lose_events)
qed

lemma follows_lose [simp]: "follows c d \<Longrightarrow> follows c (lose_connection d)"
  using lose_lost [of d] by (auto simp: follows_def lose_fields lost_def)

lemma follows_pending:
  assumes "follows c d" and "client_send k ids (x d1) = (ok, d2)" and "follows d1 (x d1)" and "d1 = on_audio drop_playback d"
  shows "follows c (d2\<lparr>c_state := St_CancelPending\<rparr>)"
proof -
  have f: "follows d1 d2" using assms(3) follows_client_send [OF assms(2)] by (rule follows_trans)
  have "follows c d1" using assms(1,4) by simp
  then have "follows c d2" using f by (rule follows_trans)
  moreover have "sound c \<longrightarrow> \<not> playing d2"
  proof
    assume "sound c"
    then have "sound d" using assms(1) sound_follows by blast
    then have "sound d1 \<and> \<not> playing d1" using dropped [of d] sound_follows [OF follows_drop] assms(4) by blast
    then show "\<not> playing d2" using sound_follows [OF f] by blast
  qed
  ultimately show ?thesis by (intro follows_state) simp_all
qed

lemma follows_send:
  "follows c d \<Longrightarrow> client_send k ids d = (ok, d') \<Longrightarrow> follows c d'"
  using follows_client_send follows_trans by blast

lemma follows_abort [simp]:
  assumes "follows c d"
  shows "follows c (abort_current d)"
proof -
  define x where "x = (\<lambda>d1. (reset_barge_turn (reset_barge_probe d1))\<lparr>c_finish_after_cancel_ack := True\<rparr>)"
  define d1 where "d1 = on_audio drop_playback d"
  define k where "k = (if session (c_response_ids (x d1)) \<noteq> 0 then Ctl_ResponseCancel else Ctl_TurnCancel)"
  obtain ok d2 where d2: "client_send k (if session (c_response_ids (x d1)) \<noteq> 0 then c_response_ids (x d1) else c_turn_ids (x d1)) (x d1)
    = (ok, d2)" by fastforce
  have x: "follows d1 (x d1)" by (simp add: x_def)
  have "follows c (x d1)" using assms by (simp add: x_def d1_def)
  then have "follows c d2" using d2 by (rule follows_send)
  moreover have "follows c (d2\<lparr>c_state := St_CancelPending\<rparr>)" by (rule follows_pending [where x = x, OF assms d2 x d1_def])
  moreover have "abort_current d = (if ok then d2\<lparr>c_state := St_CancelPending, c_state_deadline := c_now d2 + k_cancel_ack_wait\<rparr>
      else lose_connection d2)"
  proof -
    have xd: "(reset_barge_turn (reset_barge_probe (on_audio drop_playback d)))\<lparr>c_finish_after_cancel_ack := True\<rparr> = x d1"
      by (simp add: x_def d1_def)
    show ?thesis unfolding abort_current_def Let_def xd k_def [symmetric] d2 by (simp split: bool.split)
  qed
  ultimately show ?thesis by simp
qed

lemma follows_confirm [simp]:
  assumes "follows c d"
  shows "follows c (confirm_barge d)"
proof -
  define x where "x = (\<lambda>d1. (clear_subtitle (reset_barge_probe d1))\<lparr>c_barge_turn_admitted := True,
                 c_barge_ended := False, c_barge_silence_frames := 0, c_barge_buffer_overflow := False,
                 c_finish_after_cancel_ack := False\<rparr>)"
  define d1 where "d1 = on_audio drop_playback d"
  obtain ok d2 where d2: "client_send Ctl_ResponseCancel (c_response_ids (x d1)) (x d1) = (ok, d2)" by fastforce
  have x: "follows d1 (x d1)" by (simp add: x_def)
  have "follows c (x d1)" using assms by (simp add: x_def d1_def)
  then have "follows c d2" using d2 by (rule follows_send)
  moreover have "follows c (d2\<lparr>c_state := St_CancelPending\<rparr>)" by (rule follows_pending [where x = x, OF assms d2 x d1_def])
  moreover have "confirm_barge d = (if ok then d2\<lparr>c_state := St_CancelPending, c_state_deadline := c_now d2 + k_cancel_ack_wait\<rparr>
      else lose_connection d2)"
    using d2 by (simp add: confirm_barge_def Let_def x_def d1_def split: bool.split)
  ultimately show ?thesis by simp
qed

lemma follows_finish_turn [simp]: "follows c d \<Longrightarrow> follows c (finish_turn n d)"
  by (simp add: finish_turn_def Let_def)

lemma follows_send_audio: "send_audio f b c = (out, c') \<Longrightarrow> follows c c'"
proof -
  assume a: "send_audio f b c = (out, c')"
  show ?thesis
  proof (cases "c_transport c")
    case None
    then show ?thesis using a by (simp add: send_audio_def)
  next
    case (Some t)
    obtain env ss where n: "next_send c = (env, c\<lparr>c_sends := ss\<rparr>)" using next_send_form by blast
    obtain o' t' os where s: "send_pcm env (audio_header f b (c\<lparr>c_sends := ss\<rparr>)) (sample_bytes (cf_pcm f)) t = (o', t', os)"
      using prod_cases3 by blast
    from s have "inbound_of os = []" by (cases rule: send_pcm_cases) (simp_all add: inbound_of_def)
    then have "follows c (c\<lparr>c_transport := Some t', c_wire := c_wire c @ os\<rparr>)" using Some by (intro follows_wire) simp_all
    moreover have "c' = (c\<lparr>c_transport := Some t', c_wire := c_wire c @ os\<rparr>)\<lparr>c_sends := ss,
        c_uplink_sequence := (if o' = Send_Ok then c_uplink_sequence c + 1 else c_uplink_sequence c)\<rparr>"
      using a by (auto simp: send_audio_def Some n s)
    ultimately show ?thesis by simp
  qed
qed

lemma follows_recover: "follows c d \<Longrightarrow> send_audio_or_recover f b d = (ok, d') \<Longrightarrow> follows c d'"
proof -
  assume c: "follows c d" and a: "send_audio_or_recover f b d = (ok, d')"
  obtain out d1 where s: "send_audio f b d = (out, d1)" by fastforce
  have "follows c d1" using c follows_send_audio [OF s] by (rule follows_trans)
  then show ?thesis using a s by (auto simp: send_audio_or_recover_def split: send_outcome.splits)
qed

lemma follows_upload: "follows c d \<Longrightarrow> upload b fs d = (ok, d') \<Longrightarrow> follows c d'"
proof (induction fs arbitrary: d)
  case (Cons f fs)
  obtain ok1 d1 where s: "send_audio_or_recover f (b \<and> fs = []) d = (ok1, d1)" by fastforce
  have "follows c d1" by (rule follows_recover [OF Cons.prems(1) s])
  then show ?case using Cons s by (cases ok1) auto
qed simp

lemma follows_commit_sent [simp]: "follows c d \<Longrightarrow> follows c (snd (send_commit d))"
proof -
  assume c: "follows c d"
  obtain ok d1 where s: "client_send Ctl_TurnCommit (c_turn_ids d) d = (ok, d1)" by fastforce
  have "follows c d1" by (rule follows_send [OF c s])
  then show ?thesis using s by (simp add: send_commit_def wait_for_response_def split: bool.split)
qed

lemma follows_start_turn [simp]:
  assumes "follows c d"
  shows "follows c (snd (start_turn b d))"
proof -
  obtain ok d1 where d1: "client_send Ctl_TurnStart (c_turn_ids d) d = (ok, d1)" by fastforce
  define d2 where "d2 = ui_call (Call_State Ui_Listening) (d1\<lparr>c_uplink_sequence := 0, c_state := St_CapturingSpeech,
                     c_state_deadline := c_now d1 + k_maximum_turn_wait\<rparr>)"
  obtain ok3 d3 where d3: "upload b (pre_roll d2) d2 = (ok3, d3)" by fastforce
  have f: "follows c d1" by (rule follows_send [OF assms d1])
  then have "follows c d2" by (simp add: d2_def)
  moreover from this d3 have "follows c d3" by (rule follows_upload)
  ultimately show ?thesis using f assms
    by (simp add: start_turn_def d1 Let_def d2_def [symmetric] d3 split: bool.split)
qed

lemma follows_commit [simp]: "follows c d \<Longrightarrow> follows c (commit f d)"
proof -
  assume c: "follows c d"
  obtain ok d1 where s: "send_audio_or_recover f True d = (ok, d1)" by fastforce
  have "follows c d1" by (rule follows_recover [OF c s])
  then show ?thesis using s by (simp add: commit_def split: bool.split)
qed

lemma follows_cancel [simp]: "follows c d \<Longrightarrow> follows c (complete_cancel d)"
  by (simp add: complete_cancel_def resume_after_barge_def Let_def)

lemma follows_deadlines [simp]: "follows c d \<Longrightarrow> follows c (snd (advance_deadlines d))"
  by (simp add: advance_deadlines_def)

lemma follows_handle_barge [simp]: "follows c d \<Longrightarrow> follows c (handle_barge f d)"
  by (simp add: handle_barge_def Let_def split: barge_probe.split)

lemma follows_gap [simp]: "follows c d \<Longrightarrow> follows c (on_gap d)"
  by (simp add: on_gap_def Let_def)

lemma follows_frame_state [simp]: "follows c d \<Longrightarrow> follows c (frame_in_state f d)"
proof -
  assume c: "follows c d"
  obtain ok d1 where s: "send_audio_or_recover f False d = (ok, d1)" by fastforce
  have "follows c d1" by (rule follows_recover [OF c s])
  then show ?thesis using c s by (simp add: frame_in_state_def Let_def split: client_state.split)
qed

lemma follows_on_frame: "follows c (on_frame f c)"
  by (simp add: on_frame_def Let_def)

lemma follows_poll_ui: "follows c (poll_ui v a c)"
  by (simp add: poll_ui_def Let_def split: option.split device_ui_action.split prod.split)

lemma follows_finish_connect: "follows c (finish_connect c)"
proof -
  obtain ok c1 where s: "client_send Ctl_Hello no_ids c = (ok, c1)" by fastforce
  then have "follows c c1" using follows_client_send by blast
  then show ?thesis using s by (simp add: finish_connect_def split: option.split bool.split)
qed

text \<open>Events, other than those that begin a playback or feed it.\<close>

lemma follows_end: "follows c (c\<lparr>c_audio := snd (end_playback (c_audio c))\<rparr>)"
  by (rule follows_player) (use player_inv_end [of "player_of c"] in \<open>simp_all add: player_of_def end_playback_def\<close>)

lemma follows_done [simp]: "follows c d \<Longrightarrow> follows c (handle_done d)"
proof -
  assume c: "follows c d"
  define d1 where "d1 = mark_first_response_progress d"
  have d1: "follows c d1" using c by (simp add: d1_def)
  obtain ok e where e: "end_playback (c_audio d1) = (ok, e)" by fastforce
  have "follows c (d1\<lparr>c_audio := e\<rparr>)" using follows_trans [OF d1 follows_end] e by simp
  then have "follows c (lose_connection (d1\<lparr>c_audio := e\<rparr>))"
    "follows c (ui_call (Call_State Ui_SpeakingTail) (d1\<lparr>c_audio := e, c_state := St_DrainingPlayback,
         c_state_deadline := c_now d1 + k_drain_playback_wait\<rparr>))" by simp_all
  moreover have "follows c (ui_call (Call_State Ui_SpeakingTail) (d1\<lparr>c_audio := c_audio d1, c_state := St_DrainingPlayback,
         c_state_deadline := c_now d1 + k_drain_playback_wait\<rparr>))" using d1 by simp
  ultimately show ?thesis
    by (simp add: handle_done_def Let_def d1_def [symmetric] e split: bool.split)
qed

lemma follows_events [simp]:
  "follows c d \<Longrightarrow> follows c (handle_error e d)" "follows c d \<Longrightarrow> follows c (handle_hello_ack e d)"
  "follows c d \<Longrightarrow> follows c (handle_cancelled d)"
  by (simp_all add: handle_error_def handle_hello_ack_def handle_cancelled_def Let_def)

lemma follows_handle_event:
  "in_kind e \<noteq> In_AudioStart \<Longrightarrow> in_kind e \<noteq> In_Pcm \<or> c_state c = St_CancelPending \<Longrightarrow> follows c (handle_event e c)"
  by (auto simp add: handle_event_def Let_def split: inbound_kind.split)

subsection \<open>The invariant\<close>

text \<open>The PCM a list of events asks to be played: what followed the last start of audio.\<close>

definition speech_step :: "sample list \<Rightarrow> inbound \<Rightarrow> sample list" where
  "speech_step xs e = (case in_kind e of In_AudioStart \<Rightarrow> [] | In_Pcm \<Rightarrow> xs @ le_samples (in_audio e) | _ \<Rightarrow> xs)"

definition speech :: "inbound list \<Rightarrow> sample list" where
  "speech es = foldl speech_step [] es"

lemma speech_snoc [simp]: "speech [] = []" "speech (es @ [e]) = speech_step (speech es) e"
  by (simp_all add: speech_def)

definition base :: "client \<Rightarrow> bool" where
  "base c \<longleftrightarrow> sound c \<and> (c_state c = St_CancelPending \<longrightarrow> \<not> playing c) \<and> (c_transport c = None \<longrightarrow> lost c)"

text \<open>The events handled on the connection, and those still in the queue, are those the transport delivered.\<close>

definition linked :: "inbound list \<Rightarrow> client \<Rightarrow> bool" where
  "linked h c \<longleftrightarrow> (c_transport c \<noteq> None \<and> \<not> q_overflow (c_events c) \<longrightarrow>
     inbound_of (c_wire c) = h @ queue_events (c_events c))"

definition voiced :: "inbound list \<Rightarrow> client \<Rightarrow> bool" where
  "voiced h c \<longleftrightarrow> base c \<and> linked h c \<and> (playing c \<longrightarrow> c_accepted c = speech h)"

definition speech_inv :: "client \<Rightarrow> bool" where
  "speech_inv c \<longleftrightarrow> (\<exists>h. voiced h c)"

lemma speech_lost: "sound c \<Longrightarrow> lost c \<Longrightarrow> speech_inv c"
  by (auto simp: speech_inv_def voiced_def base_def linked_def lost_def)

lemma voiced_follows:
  assumes "follows c d" and "voiced h c"
  shows "speech_inv d"
proof -
  have s: "sound c" using assms(2) by (simp add: voiced_def base_def)
  from assms(1) s have d: "sound d" "playing d \<longrightarrow> playing c \<and> c_accepted d = c_accepted c"
    "c_state d = St_CancelPending \<longrightarrow> \<not> playing d \<or> c_state c = St_CancelPending" "lost d \<or> same_link c d"
    by (simp_all add: follows_def)
  show ?thesis
  proof (cases "lost d")
    case True
    then show ?thesis using d(1) by (simp add: speech_lost)
  next
    case False
    then have l: "same_link c d" using d(4) by simp
    have "c_transport d \<noteq> None"
    proof
      assume "c_transport d = None"
      then have "lost c" using assms(2) l by (simp add: voiced_def base_def same_link_def)
      then show False using False l d(2) by (simp add: lost_def same_link_def)
    qed
    moreover have "c_state d = St_CancelPending \<longrightarrow> \<not> playing d"
      using d(2,3) assms(2) by (auto simp: voiced_def base_def)
    ultimately have "base d" using d(1) by (auto simp: base_def)
    moreover have "linked h d" using assms(2) l by (simp add: voiced_def linked_def same_link_def)
    moreover have "playing d \<longrightarrow> c_accepted d = speech h" using assms(2) d(2) by (simp add: voiced_def)
    ultimately show ?thesis unfolding speech_inv_def voiced_def by blast
  qed
qed

lemma speech_follows: "follows c d \<Longrightarrow> speech_inv c \<Longrightarrow> speech_inv d"
  unfolding speech_inv_def [of c] using voiced_follows by blast

subsection \<open>The events that begin a playback or feed it\<close>

lemma begin_sound:
  assumes "sound c" and "audio_begin c = (ok, c')"
  shows "sound c'" and "ok \<Longrightarrow> same_link c c' \<and> c_state c' = c_state c \<and> c_accepted c' = []"
proof -
  have "sound c' \<and> (ok \<longrightarrow> same_link c c' \<and> c_state c' = c_state c \<and> c_accepted c' = [])"
  proof (cases "\<not> e_open (c_audio c) \<or> e_active (c_audio c)")
    case True
    then show ?thesis using assms by (simp add: audio_begin_def)
  next
    case False
    obtain prepared c1 where a: "audio_command Cmd_PreparePlayback c = (prepared, c1)" by fastforce
    have s1: "sound c1" using sound_follows [OF follows_audio_command [OF a] assms(1)] by blast
    have c1: "same_link c c1 \<and> c_state c1 = c_state c"
      using a take_handshake_form [of c] by (auto simp: audio_command_def same_link_def split: prod.splits)
    obtain b e where b: "begin_playback prepared (c_audio c1) = (b, e)" by fastforce
    define d where "d = (if b then c1\<lparr>c_audio := e, c_accepted := [], c_rendered := []\<rparr> else c1\<lparr>c_audio := e\<rparr>)"
    have d: "(ok, c') = (b, d)" using assms(2) False a b by (cases b) (simp_all add: audio_begin_def d_def)
    have "player_of d = player_step (A_Begin prepared) (player_of c1)" using b by (simp add: d_def player_of_def)
    then have "player_inv (player_of d)" using player_inv_begin s1 by (simp add: sound_def)
    moreover have "e_active e \<longrightarrow> e_open e"
      using b s1 by (auto simp: begin_playback_def sound_def Let_def split: if_splits)
    ultimately have "sound d" by (simp add: sound_def d_def)
    then show ?thesis using d c1 by (simp add: d_def same_link_def split: if_splits)
  qed
  then show "sound c'" and "ok \<Longrightarrow> same_link c c' \<and> c_state c' = c_state c \<and> c_accepted c' = []" by blast+
qed

lemma queue_sound:
  assumes "sound c" and "audio_queue pcm n c = (ok, c')"
  shows "sound c'" and "playing c' \<longleftrightarrow> playing c" and "same_link c c' \<and> c_state c' = c_state c"
    and "c_accepted c' = c_accepted c @ (if ok then le_samples pcm else [])"
proof -
  have "ring_inv (c_audio c)" using assms(1) by (simp add: sound_def player_inv_def player_of_def Let_def)
  then obtain ok' e where q: "queue_tts24k pcm n (c_audio c) = Some (ok', e)" "e_active e = e_active (c_audio c)"
    "e_drop e = e_drop (c_audio c)" "e_open e = e_open (c_audio c)"
    using queue_total [of "c_audio c" pcm n] by blast
  have c': "ok' = ok" "c' = c\<lparr>c_audio := e, c_accepted := c_accepted c @ (if ok then le_samples pcm else [])\<rparr>"
    using assms(2) q(1) by (auto simp: audio_queue_def)
  have "player_of c' = player_step (A_Queue pcm n) (player_of c)" using q(1) c' by (simp add: player_of_def)
  then show "sound c'" using player_inv_queue [of "player_of c" pcm n] assms(1) q by (simp add: sound_def c'(2))
  show "playing c' \<longleftrightarrow> playing c" using q by (simp add: playing_def c'(2))
  show "same_link c c' \<and> c_state c' = c_state c" by (simp add: same_link_def c'(2))
  show "c_accepted c' = c_accepted c @ (if ok then le_samples pcm else [])" by (simp add: c'(2))
qed

text \<open>An abort leaves the engine silent.\<close>

lemma abort_silent:
  assumes "sound c" and "c_state c \<noteq> St_CancelPending"
  shows "sound (abort_current c) \<and> \<not> playing (abort_current c)"
proof -
  have f: "follows c (abort_current c)" by simp
  have "c_state (abort_current c) = St_CancelPending \<or> lost (abort_current c)"
  proof -
    define x where "x = (reset_barge_turn (reset_barge_probe (on_audio drop_playback c)))\<lparr>c_finish_after_cancel_ack := True\<rparr>"
    have x: "follows c x" by (simp add: x_def)
    obtain ok d where d: "client_send (if session (c_response_ids x) \<noteq> 0 then Ctl_ResponseCancel else Ctl_TurnCancel)
        (if session (c_response_ids x) \<noteq> 0 then c_response_ids x else c_turn_ids x) x = (ok, d)" by fastforce
    have "sound d" using sound_follows [OF follows_send [OF x d] assms(1)] by blast
    then show ?thesis
      using lose_lost [of d] unfolding abort_current_def Let_def x_def [symmetric] d by (cases ok) simp_all
  qed
  then show ?thesis using f assms by (auto simp: follows_def lost_def)
qed

lemma speech_audio_start:
  assumes "voiced h c" and "c_transport c = Some t" and "c_state c \<noteq> St_CancelPending" and "speech h = []"
  shows "speech_inv (handle_audio_start c)"
proof -
  define d where "d = mark_first_response_progress c"
  have f: "follows c d" by (simp add: d_def)
  have s: "sound d" using assms(1) sound_follows [OF f] by (simp add: voiced_def base_def)
  have l: "same_link c d" "c_state d = c_state c" by (simp_all add: same_link_def d_def mark_first_response_progress_def
        Let_def clear_subtitle_def ui_call_def)
  obtain ok c1 where b: "audio_begin d = (ok, c1)" by fastforce
  note s1 = begin_sound(1) [OF s b]
  show ?thesis
  proof (cases ok)
    case False
    then show ?thesis using lose_lost [OF s1] by (simp add: handle_audio_start_def d_def [symmetric] b speech_lost)
  next
    case True
    then have c1: "same_link d c1" "c_state c1 = c_state d" "c_accepted c1 = []" using begin_sound(2) [OF s b] by blast+
    have "voiced h c1" using s1 c1 l assms by (auto simp: voiced_def base_def linked_def same_link_def)
    then have "speech_inv (reset_barge_probe (ui_call (Call_State Ui_Speaking) (c1\<lparr>c_state := St_PlayingResponse\<rparr>)))"
      by (rule voiced_follows [rotated]) simp
    then show ?thesis using True
      by (simp add: handle_audio_start_def d_def [symmetric] b)
  qed
qed

lemma speech_pcm:
  assumes "voiced h c" and "c_transport c = Some t" and "c_state c \<noteq> St_CancelPending" and "linked (h @ [e]) c'"
    and "in_kind e = In_Pcm" and "c' = c\<lparr>c_events := q, c_state_deadline := n\<rparr>"
  shows "speech_inv (handle_pcm e c')"
proof -
  define d where "d = mark_first_response_progress c'"
  have s: "sound d" using assms(1,6) by (simp add: d_def mark_first_response_progress_def Let_def clear_subtitle_def ui_call_def
        voiced_def base_def sound_def player_of_def)
  have l: "same_link c' d" "c_state d = c_state c" "playing d = playing c" "c_accepted d = c_accepted c" "c_transport d = Some t"
    using assms(2) by (simp_all add: same_link_def d_def assms(6) playing_def mark_first_response_progress_def
        Let_def clear_subtitle_def ui_call_def)
  obtain ok c1 where a: "audio_queue (in_audio e) (ucast (pcm_sequence (in_pcm e))) d = (ok, c1)" by fastforce
  note s1 = queue_sound [OF s a]
  have t: "c_transport c1 \<noteq> None" using s1(3) l(5) by (simp add: same_link_def)
  have link: "linked (h @ [e]) c1" using assms(4) l(1) s1(3) by (simp add: linked_def same_link_def)
  show ?thesis
  proof (cases ok)
    case True
    have "voiced (h @ [e]) c1"
      using True s1 t link l assms(1,3,5) by (auto simp: voiced_def base_def speech_step_def)
    then show ?thesis using True by (auto simp: handle_pcm_def d_def [symmetric] a speech_inv_def)
  next
    case False
    have st: "c_state c1 \<noteq> St_CancelPending" using s1(3) l(2) assms(3) by simp
    have silent: "sound (abort_current c1) \<and> \<not> playing (abort_current c1)" by (rule abort_silent [OF s1(1) st])
    have "follows c1 (abort_current c1)" by simp
    then have "lost (abort_current c1) \<or> same_link c1 (abort_current c1)" using s1(1) by (auto simp: follows_def)
    then have "voiced (h @ [e]) (abort_current c1) \<or> lost (abort_current c1)"
      using silent link t by (auto simp: voiced_def base_def linked_def same_link_def)
    then show ?thesis using False silent speech_lost
      by (auto simp: handle_pcm_def d_def [symmetric] a speech_inv_def)
  qed
qed

lemma speech_event:
  assumes i: "client_inv c" "speech_inv c" and t: "c_transport c = Some t" and q: "event_pop (c_events c) = Some (e, q)"
  shows "speech_inv (handle_event e (c\<lparr>c_events := q\<rparr>))"
proof -
  obtain h where h: "voiced h c" using i(2) by (auto simp: speech_inv_def)
  have v: "queue_valid (c_events c)" using i(1) by (simp add: client_inv_def shape_def buffers_def)
  then have pop: "queue_events (c_events c) = e # queue_events q" "q_overflow q = q_overflow (c_events c)"
    using event_pop_some [OF v q] by blast+
  define c1 where "c1 = c\<lparr>c_events := q\<rparr>"
  have c1: "c_transport c1 = Some t" "c_state c1 = c_state c" "playing c1 = playing c" "c_accepted c1 = c_accepted c"
    "sound c1 = sound c" "c_wire c1 = c_wire c" "c_events c1 = q"
    using t by (simp_all add: c1_def playing_def)
  have link: "linked (h @ [e]) c1" using h pop c1 t by (simp add: voiced_def linked_def)
  have ordinary: "voiced (h @ [e]) c1"
    if "in_kind e \<noteq> In_AudioStart \<and> in_kind e \<noteq> In_Pcm \<or> c_state c = St_CancelPending"
    using that h link c1 by (auto simp: voiced_def base_def speech_step_def split: inbound_kind.splits)
  show ?thesis
  proof (cases "in_kind e \<noteq> In_AudioStart \<and> in_kind e \<noteq> In_Pcm \<or> c_state c = St_CancelPending")
    case True
    have "follows c1 (handle_event e c1)"
    proof (cases "in_kind e = In_AudioStart")
      case False
      then show ?thesis using True c1 by (intro follows_handle_event) auto
    next
      case start: True
      then show ?thesis using True c1 by (simp add: handle_event_def)
    qed
    then show ?thesis using voiced_follows ordinary [OF True] by (simp add: c1_def)
  next
    case False
    define c2 where "c2 = c1\<lparr>c_state_deadline := c_now c1 + k_response_wait\<rparr>"
    have c2: "handle_event e c1 = (if in_kind e = In_AudioStart then handle_audio_start c2 else handle_pcm e c2)"
      using False c1(2) by (auto simp: handle_event_def Let_def c2_def)
    have link2: "linked (h @ [e]) c2" using link by (simp add: linked_def c2_def)
    show ?thesis
    proof (cases "in_kind e = In_AudioStart")
      case True
      have silent: "speech (h @ [e]) = []" using True by (simp add: speech_step_def)
      show ?thesis
      proof (cases "playing c2")
        case playing: True
        define d where "d = mark_first_response_progress c2"
        have s: "sound d" using h by (simp add: d_def c2_def c1_def mark_first_response_progress_def Let_def
              clear_subtitle_def ui_call_def voiced_def base_def sound_def player_of_def)
        have "e_active (c_audio d)" using playing by (simp add: playing_def d_def mark_first_response_progress_def Let_def
              clear_subtitle_def ui_call_def)
        then have "audio_begin d = (False, d)" by (simp add: audio_begin_def)
        then show ?thesis using lose_lost [OF s] c2 True
          by (simp add: c1_def [symmetric] handle_audio_start_def d_def [symmetric] speech_lost)
      next
        case quiet: False
        have "voiced (h @ [e]) c2"
          using h link2 quiet c1 by (auto simp: voiced_def base_def c2_def sound_def player_of_def)
        from speech_audio_start [OF this _ _ silent] show ?thesis
          using c2 True False c1 by (simp add: c1_def [symmetric] c2_def)
      qed
    next
      case pcm: False
      then have k: "in_kind e = In_Pcm" using False by blast
      from speech_pcm [OF h t _ link2 k] show ?thesis
        using c2 pcm False by (simp add: c1_def c2_def)
    qed
  qed
qed

subsection \<open>The other threads\<close>

text \<open>Without overflow, everything a callback delivers is queued, in order.\<close>

lemma effects_queued:
  "queue_valid (c_events c) \<Longrightarrow> \<not> q_overflow (c_events (fold on_effect os c)) \<Longrightarrow>
   \<not> q_overflow (c_events c) \<and> queue_events (c_events (fold on_effect os c)) = queue_events (c_events c) @ inbound_of os"
proof (induction os arbitrary: c)
  case (Cons o' os)
  define c1 where "c1 = on_effect o' c"
  have push: "queue_valid (c_events (push_event e c)) \<and> (\<not> q_overflow (c_events (push_event e c)) \<longrightarrow>
      \<not> q_overflow (c_events c) \<and> queue_events (c_events (push_event e c)) = queue_events (c_events c) @ [e])" for e
  proof (cases "length (queue_events (c_events c)) < event_capacity")
    case True
    then show ?thesis using event_push_room [OF Cons.prems(1) True, of e] by (auto simp: push_event_def)
  next
    case False
    then show ?thesis using event_push_full [OF Cons.prems(1) False, of e] push_event_form [OF Cons.prems(1), of e]
      by (simp add: push_event_def)
  qed
  have one: "queue_valid (c_events c1) \<and> (\<not> q_overflow (c_events c1) \<longrightarrow>
      \<not> q_overflow (c_events c) \<and> queue_events (c_events c1) = queue_events (c_events c) @ inbound_of [o'])"
    using push Cons.prems(1) by (cases o') (simp_all add: c1_def on_effect_def inbound_of_def)
  have rest: "\<not> q_overflow (c_events c1) \<and> queue_events (c_events (fold on_effect os c1)) = queue_events (c_events c1) @ inbound_of os"
    using Cons.IH [of c1] Cons.prems(2) one by (simp add: c1_def)
  have "inbound_of (o' # os) = inbound_of [o'] @ inbound_of os" by (simp add: inbound_of_def)
  then show ?case using one rest by (simp add: c1_def)
qed simp

lemma speech_wss: "client_inv c \<Longrightarrow> speech_inv c \<Longrightarrow> speech_inv (wss_step p ev c)"
proof (cases "c_transport c")
  case (Some t)
  assume i: "client_inv c" "speech_inv c"
  obtain h where h: "voiced h c" using i(2) by (auto simp: speech_inv_def)
  have v: "queue_valid (c_events c)" using i(1) by (simp add: client_inv_def shape_def buffers_def)
  obtain t' os where st: "transport_step p (\<lambda>_. True) (callback ev) t = (t', os)" by fastforce
  define c1 where "c1 = c\<lparr>c_transport := Some t', c_wire := c_wire c @ os\<rparr>"
  have v1: "queue_valid (c_events c1)" using v by (simp add: c1_def)
  obtain q where q: "fold on_effect os c1 = c1\<lparr>c_events := q\<rparr>" using effects_form [OF v1, of os] by blast
  have w: "wss_step p ev c = c1\<lparr>c_events := q\<rparr>" using Some st q by (simp add: wss_step_def c1_def)
  have "\<not> q_overflow q \<Longrightarrow> \<not> q_overflow (c_events c) \<and> queue_events q = queue_events (c_events c) @ inbound_of os"
    using effects_queued [OF v1, of os] q by (simp add: c1_def)
  then have "linked h (c1\<lparr>c_events := q\<rparr>)" using h Some by (auto simp: voiced_def linked_def c1_def)
  then have "voiced h (c1\<lparr>c_events := q\<rparr>)"
    using h by (auto simp: voiced_def base_def c1_def sound_def player_of_def playing_def)
  then show ?thesis using w by (auto simp: speech_inv_def)
qed (simp add: wss_step_def)

lemma follows_playback_thread:
  assumes "by_playback_thread ev"
  shows "follows c (set_player (player_step ev (player_of c)) c)"
proof -
  define pl where "pl = player_step ev (player_of c)"
  have inv: "player_inv (player_of c) \<Longrightarrow> player_inv pl" unfolding pl_def by (rule player_inv_step)
  have e: "e_open (pl_engine pl) = e_open (c_audio c) \<and> (e_active (pl_engine pl) \<longrightarrow> e_active (c_audio c)) \<and>
      (e_active (pl_engine pl) \<longrightarrow> e_drop (pl_engine pl) = e_drop (c_audio c)) \<and> pl_accepted pl = c_accepted c"
    using assms
    by (cases ev) (auto simp: pl_def by_playback_thread_def player_of_def start_rebuffering_def take_slot_def
        finish_decide_def finish_playback_def clear_queue_def Let_def split: playback_pc.split option.split prod.split)
  have "player_of (set_player pl c) = pl" by (cases pl) (simp add: player_of_def set_player_def)
  then show ?thesis unfolding pl_def [symmetric] using inv e
    by (auto simp: follows_def sound_def playing_def lost_def same_link_def set_player_def)
qed

lemma speech_thread:
  "real_audio th \<Longrightarrow> client_inv c \<Longrightarrow> speech_inv c \<Longrightarrow> speech_inv (thread_step p th c)"
proof (cases th)
  case (Th_Player ev)
  then show "speech_inv c \<Longrightarrow> ?thesis" using speech_follows [OF follows_playback_thread] by simp
next
  case (Th_Capture ok r)
  then show "speech_inv c \<Longrightarrow> ?thesis"
    using speech_follows [OF follows_same_playback] playback_part_iteration by simp
next
  case (Th_Endpoint ep)
  have "follows c (c\<lparr>c_endpoint := ep, c_endpoint_ready := True, c_network_needed := False\<rparr>)" by simp
  from speech_follows [OF this] show "speech_inv c \<Longrightarrow> ?thesis" using Th_Endpoint by simp
qed (simp_all add: speech_wss real_audio_def)

subsection \<open>Every run\<close>

lemma speech_start_connect:
  assumes "speech_inv c" and "c_transport c = None"
  shows "speech_inv (start_connect db u th n c)"
proof -
  have b: "base c" using assms(1) by (auto simp: speech_inv_def voiced_def)
  have lose: "speech_inv (lose_connection d)" if "sound d" for d
    using lose_lost [OF that] speech_lost by blast
  show ?thesis
  proof (cases n)
    case False
    then show ?thesis using lose b by (simp add: start_connect_def base_def)
  next
    case True
    define c1 where "c1 = c\<lparr>c_hello_sent := False, c_state_deadline := c_now c + k_connect_wait, c_wire := []\<rparr>"
    define tc where "tc = \<lparr>tc_host = ep_host (c_endpoint c1), tc_port = ep_port (c_endpoint c1),
                     tc_device_id = cfg_device_id (c_config c1), tc_spki_sha256_base64 = ep_spki (c_endpoint c1)\<rparr>"
    obtain ok t where t: "connect db u th tc new_transport = (ok, t)" by fastforce
    have s: "sound (c1\<lparr>c_transport := Some t\<rparr>)" using b by (simp add: base_def c1_def sound_def player_of_def)
    have "voiced [] (c1\<lparr>c_transport := Some t\<rparr>)"
      using b assms(2) s by (auto simp: voiced_def base_def linked_def c1_def lost_def playing_def)
    then have "speech_inv (c1\<lparr>c_transport := Some t\<rparr>)" by (auto simp: speech_inv_def)
    then show ?thesis
      using True s lose by (simp add: start_connect_def Let_def c1_def [symmetric] tc_def [symmetric] t split: bool.split)
  qed
qed

definition voice_inv :: "client \<Rightarrow> bool" where
  "voice_inv c \<longleftrightarrow> client_inv c \<and> speech_inv c"

interpretation voice_runs: client_invariant p real_audio voice_inv for p
proof unfold_locales
  fix c
  assume i: "voice_inv c"
  then have c: "client_inv c" "speech_inv c" by (simp_all add: voice_inv_def)
  have step: "voice_inv d" if "client_inv d" "follows c d" for d
    using that speech_follows c(2) by (simp add: voice_inv_def)
  show "voice_inv (thread_step p th c)" if "real_audio th" for th
    using c that by (simp add: voice_inv_def speech_thread client_runs.inv_thread)
  show "voice_inv (c\<lparr>c_now := now, c_sends := ss, c_handshakes := hs\<rparr>)" for now ss hs
    by (rule step) (simp_all add: client_runs.inv_answers c)
  show "voice_inv (start_connect db u th n c)" if "c_transport c = None" for db u th n
    using c that by (simp add: voice_inv_def speech_start_connect client_runs.inv_connect)
  show "voice_inv (c\<lparr>c_audio := e\<rparr>)" if "capture_take k_actor_poll_interval (c_audio c) = (r, e)" for r e
    by (rule step [OF client_runs.inv_capture [OF c(1) that] follows_same_playback [OF playback_part_take [OF that]]])
  show "voice_inv (finish_connect c)" by (rule step [OF client_runs.inv_hello [OF c(1)] follows_finish_connect])
  show "voice_inv (handle_event ev (c\<lparr>c_events := q\<rparr>))"
    if "c_transport c = Some t" "event_pop (c_events c) = Some (ev, q)" for t ev q
    using c client_runs.inv_event [OF c(1) that] speech_event [OF c that] by (simp add: voice_inv_def)
  show "voice_inv (poll_ui v a c)" for v a by (rule step [OF client_runs.inv_ui [OF c(1)] follows_poll_ui])
  show "voice_inv (lose_connection c)" by (rule step [OF client_runs.inv_lose [OF c(1)]]) simp
  show "voice_inv (snd (advance_deadlines c))" by (rule step [OF client_runs.inv_deadline [OF c(1)]]) simp
  show "voice_inv (d\<lparr>c_next_capture_sequence := cf_sequence f + 1, c_taken := c_taken d @ [f]\<rparr>)"
    if "advance_deadlines c = (False, d)" for d f
  proof (rule step [OF client_runs.inv_skip [OF c(1) that]])
    have "follows c (snd (advance_deadlines c))" by simp
    then show "follows c (d\<lparr>c_next_capture_sequence := cf_sequence f + 1, c_taken := c_taken d @ [f]\<rparr>)" by (simp add: that)
  qed
  show "voice_inv (on_frame f c)" for f by (rule step [OF client_runs.inv_frame [OF c(1)] follows_on_frame])
  show "voice_inv ((ui_call (Call_State Ui_Error) c)\<lparr>c_error := why\<rparr>)" for why
    by (rule step [OF client_runs.inv_fail [OF c(1)]]) simp
qed

lemma open_quiet:
  assumes "open_engine bo th gain new_engine = (ok, e)"
  shows "player_inv (start_player e) \<and> \<not> e_active e"
proof -
  have ring: "ring_inv e' \<and> queued e' = []"
    if "e_tts e' = e_tts new_engine" "e_tts_head e' = e_tts_head new_engine" "e_tts_tail e' = e_tts_tail new_engine"
      "e_tts_count e' = e_tts_count new_engine" "e_queued_samples e' = e_queued_samples new_engine" for e'
    using new_engine_ring that by (simp add: ring_inv_def slots_ok_def slots_def queued_def)
  have "ring_inv e \<and> queued e = [] \<and> \<not> e_active e \<and> e_is_done e \<and> \<not> e_drop e \<and> \<not> e_ending e \<and> e_tts_count e = 0"
  proof (cases "\<exists>x. e = close_engine x")
    case True
    then obtain x where "e = close_engine x" by blast
    then show ?thesis by (simp add: close_engine_def clear_queue_ring clear_capture_queue_def)
  next
    case False
    then have "e_tts e = e_tts new_engine" "e_tts_head e = e_tts_head new_engine" "e_tts_tail e = e_tts_tail new_engine"
      "e_tts_count e = e_tts_count new_engine" "e_queued_samples e = e_queued_samples new_engine"
      "\<not> e_active e \<and> e_is_done e \<and> \<not> e_drop e \<and> \<not> e_ending e \<and> e_tts_count e = 0"
      using assms by (auto simp: open_engine_def new_engine_def clear_capture_queue_def Let_def split: if_splits)
    then show ?thesis using ring [of e] by blast
  qed
  then show ?thesis by (simp add: player_inv_def start_player_def Let_def)
qed

lemma voice_started:
  assumes "volume_percent cfg \<le> 100"
  shows "voice_inv (client_of (client_start cfg s bo th ne origin now))"
proof -
  define c where "c = client_setup cfg s"
  obtain ok e where o: "open_engine bo th (playback_gain cfg (c_volume c)) new_engine = (ok, e)" by fastforce
  have c: "c_audio c = new_engine" "c_playback_pc c = P_Wait" "c_accepted c = []" "c_rendered c = []" "c_transport c = None"
    "c_events c = empty_queue" "c_state c = St_WaitingForWake"
    by (simp_all add: c_def client_setup_def Let_def new_client_def ui_call_def)
  define d where "d = client_of (client_start cfg s bo th ne origin now)"
  have d: "c_audio d = e" "c_playback_pc d = P_Wait" "c_accepted d = []" "c_rendered d = []" "c_transport d = None"
    "c_events d = empty_queue" "c_state d = St_WaitingForWake"
    using o c by (auto simp: d_def client_start_def c_def [symmetric] Let_def client_fail_def ui_call_def split: bool.split)
  have "player_of d = start_player e" by (simp add: player_of_def start_player_def d)
  then have "sound d \<and> lost d" using open_quiet [OF o] d by (simp add: sound_def lost_def playing_def)
  then have "speech_inv d" using speech_lost by blast
  then show ?thesis using inv_started [OF assms] by (simp add: voice_inv_def d_def)
qed

text \<open>C7: whatever the server, the network and the threads do, what the speaker has rendered of a response,
  followed by what the playback thread and its ring still hold, is the PCM of the messages handled since
  its audio started; the messages handled and those waiting are all the transport delivered on the
  connection, in order. Of a playback that ends without failure, all has been rendered.\<close>

theorem speaker_plays_the_response:
  assumes "volume_percent cfg \<le> 100" and "\<forall>i \<in> set is. list_all real_audio (pass_threads i)"
    and "c = client_of (run_client p cfg s backend_ok threads_ok network_ok origin now is)"
    and "e_active (c_audio c)" and "\<not> e_drop (c_audio c)" and "\<not> q_overflow (c_events c)"
  shows "\<exists>handled. inbound_of (c_wire c) = handled @ queue_events (c_events c) \<and>
    (case c_playback_pc c of
       P_Finish discard failed \<Rightarrow> \<not> discard \<and> (\<not> failed \<longrightarrow> c_rendered c = speech handled)
     | _ \<Rightarrow> c_rendered c @ in_flight (player_of c) = speech handled)"
proof -
  have "voice_inv c" unfolding assms(3)
    by (rule voice_runs.inv_run) (use assms(2) voice_started [OF assms(1)] in \<open>simp_all add: list_all_iff\<close>)
  then obtain h where h: "voiced h c" by (auto simp: voice_inv_def speech_inv_def)
  have p: "playing c" using assms(4,5) by (simp add: playing_def)
  then have "c_transport c \<noteq> None" using h by (auto simp: voiced_def base_def lost_def)
  then have "inbound_of (c_wire c) = h @ queue_events (c_events c)" "c_accepted c = speech h"
    using h p assms(6) by (simp_all add: voiced_def linked_def)
  moreover have "player_inv (player_of c)" using h by (simp add: voiced_def base_def sound_def)
  ultimately show ?thesis using assms(4,5)
    by (intro exI [of _ h]) (auto simp: player_inv_def player_of_def Let_def split: playback_pc.splits)
qed

lemma sample_talk_threads: "\<forall>i \<in> set sample_talk_passes. list_all real_audio (pass_threads i)"
  by (simp add: sample_talk_passes_def sample_pass_def sample_reply_pass_def sample_phase_def pass_threads_def real_audio_def
      sample_endpoint_def)

theorem speaker_plays_the_response_witness:
  "c_rendered sample_answered @ in_flight (player_of sample_answered) = [1, 2]"
proof -
  obtain w where a: "e_active (c_audio sample_answered)" "\<not> e_drop (c_audio sample_answered)" "\<not> q_overflow (c_events sample_answered)"
    "queue_events (c_events sample_answered) = []" "c_playback_pc sample_answered = P_Wait"
    "c_wire sample_answered = w @ map Out_Inbound [sample_start_event, sample_audio_event, sample_speech_event]"
    by (rule sample_answered_run)
  have vol: "volume_percent sample_client_config \<le> 100" by (simp add: sample_client_config_def)
  obtain handled where h: "inbound_of (c_wire sample_answered) = handled"
    "c_rendered sample_answered @ in_flight (player_of sample_answered) = speech handled"
    using speaker_plays_the_response [OF vol sample_talk_threads sample_answered_def a(1-3)] a(4,5) by auto
  have "handled = ((inbound_of w @ [sample_start_event]) @ [sample_audio_event]) @ [sample_speech_event]"
    using h(1) a(6) by (simp add: inbound_of_def)
  then have "speech handled = speech_step (speech_step (speech (inbound_of w @ [sample_start_event])) sample_audio_event) sample_speech_event"
    by (simp only: speech_snoc)
  also have "\<dots> = [1, 2]"
    by (simp add: speech_step_def sample_audio_event_def sample_speech_event_def sample_speech_def no_inbound_def)
  finally show ?thesis using h(2) by simp
qed

end
