(* ===== verification/UplinkPath.thy ===== *)
theory UplinkPath
  imports ClientSafety ClientReply "HOL-Library.Sublist"
begin

section \<open>From the microphone to the server\<close>

text \<open>
  The whole way up: the frames the actor takes from the engine go through its pre-roll ring and
  \<^verbatim>\<open>SendAudio\<close> to the wire. What the server hears of a turn is, in any run, first some of the frames buffered
  before the turn and then every frame captured since, in order, none twice and none missing.
\<close>

subsection \<open>What leaves of a turn\<close>

definition payloads :: "effect list \<Rightarrow> bytes list" where
  "payloads lg = concat (map (\<lambda>o'. case o' of Out_Frame p \<Rightarrow> [drop k_header_bytes p] | _ \<Rightarrow> []) lg)"

definition turn_bytes :: "client \<Rightarrow> bytes list" where
  "turn_bytes c = payloads (since_start (c_wire c))"

definition frame_bytes :: "capture_frame \<Rightarrow> bytes" where
  "frame_bytes f = sample_bytes (cf_pcm f)"

lemma payloads_append [simp]: "payloads (xs @ ys) = payloads xs @ payloads ys" "payloads [] = []"
  by (simp_all add: payloads_def)

definition same_uuid :: "client \<Rightarrow> client \<Rightarrow> bool" where
  "same_uuid c d \<longleftrightarrow> (\<forall>t t'. c_transport c = Some t \<longrightarrow> c_transport d = Some t' \<longrightarrow> t_uuid t' = t_uuid t)"

text \<open>
  \<open>spoke gs c d\<close>: on the way from \<open>c\<close> to \<open>d\<close> exactly the frames \<open>gs\<close> left (or the connection is gone), no frame was taken
  from the engine, none put into the pre-roll, and no capture of speech began.
\<close>

definition spoke :: "capture_frame list \<Rightarrow> client \<Rightarrow> client \<Rightarrow> bool" where
  "spoke gs c d \<longleftrightarrow> c_taken d = c_taken c \<and> subseq (pre_roll d) (pre_roll c) \<and>
     c_next_capture_sequence d = c_next_capture_sequence c \<and>
     (c_state d = St_CapturingSpeech \<longrightarrow> c_state c = St_CapturingSpeech) \<and>
     (c_transport d = None \<or> c_transport c \<noteq> None \<and> same_uuid c d \<and> turn_bytes d = turn_bytes c @ map frame_bytes gs)"

lemma spoke_refl [simp]: "spoke [] c c"
  by (cases "c_transport c") (simp_all add: spoke_def same_uuid_def)

lemma spoke_trans: "spoke gs c d \<Longrightarrow> spoke hs d e \<Longrightarrow> spoke (gs @ hs) c e"
proof -
  assume a: "spoke gs c d" "spoke hs d e"
  have "same_uuid c d \<Longrightarrow> same_uuid d e \<Longrightarrow> c_transport d \<noteq> None \<Longrightarrow> same_uuid c e" by (fastforce simp: same_uuid_def)
  then show ?thesis using a subseq_order.trans [of "pre_roll e" "pre_roll d" "pre_roll c"] by (auto simp: spoke_def)
qed

lemma spoke_frame [simp]:
  "spoke gs c (d\<lparr>c_endpoint := x0\<rparr>) = spoke gs c d" "spoke gs c (d\<lparr>c_error := x1\<rparr>) = spoke gs c d"
  "spoke gs c (d\<lparr>c_ui := x2\<rparr>) = spoke gs c d" "spoke gs c (d\<lparr>c_settings := x3\<rparr>) = spoke gs c d"
  "spoke gs c (d\<lparr>c_endpoint_ready := x4\<rparr>) = spoke gs c d" "spoke gs c (d\<lparr>c_network_needed := x5\<rparr>) = spoke gs c d"
  "spoke gs c (d\<lparr>c_audio := x6\<rparr>) = spoke gs c d" "spoke gs c (d\<lparr>c_events := x7\<rparr>) = spoke gs c d"
  "spoke gs c (d\<lparr>c_playback_pc := x8\<rparr>) = spoke gs c d" "spoke gs c (d\<lparr>c_accepted := x9\<rparr>) = spoke gs c d"
  "spoke gs c (d\<lparr>c_rendered := y0\<rparr>) = spoke gs c d" "spoke gs c (d\<lparr>c_turn_ids := y1\<rparr>) = spoke gs c d"
  "spoke gs c (d\<lparr>c_response_ids := x10\<rparr>) = spoke gs c d" "spoke gs c (d\<lparr>c_state_deadline := x11\<rparr>) = spoke gs c d"
  "spoke gs c (d\<lparr>c_next_connect := x12\<rparr>) = spoke gs c d" "spoke gs c (d\<lparr>c_heartbeat_deadline := x13\<rparr>) = spoke gs c d"
  "spoke gs c (d\<lparr>c_await_hint_at := x14\<rparr>) = spoke gs c d" "spoke gs c (d\<lparr>c_audio_origin_us := x15\<rparr>) = spoke gs c d"
  "spoke gs c (d\<lparr>c_message := x17\<rparr>) = spoke gs c d"
  "spoke gs c (d\<lparr>c_uplink_sequence := x18\<rparr>) = spoke gs c d" "spoke gs c (d\<lparr>c_subtitle := x19\<rparr>) = spoke gs c d"
  "spoke gs c (d\<lparr>c_reconnect_attempt := x20\<rparr>) = spoke gs c d" "spoke gs c (d\<lparr>c_follow_up_near_frames := x21\<rparr>) = spoke gs c d"
  "spoke gs c (d\<lparr>c_barge_probe_frames := x22\<rparr>) = spoke gs c d" "spoke gs c (d\<lparr>c_barge_cooldown_frames := x23\<rparr>) = spoke gs c d"
  "spoke gs c (d\<lparr>c_barge_quiet_frames := x24\<rparr>) = spoke gs c d" "spoke gs c (d\<lparr>c_barge_silence_frames := x25\<rparr>) = spoke gs c d"
  "spoke gs c (d\<lparr>c_volume := x26\<rparr>) = spoke gs c d" "spoke gs c (d\<lparr>c_brightness := x27\<rparr>) = spoke gs c d"
  "spoke gs c (d\<lparr>c_await_hint_pending := x28\<rparr>) = spoke gs c d" "spoke gs c (d\<lparr>c_await_hint_visible := x29\<rparr>) = spoke gs c d"
  "spoke gs c (d\<lparr>c_barge_probe := x30\<rparr>) = spoke gs c d" "spoke gs c (d\<lparr>c_hello_sent := x31\<rparr>) = spoke gs c d"
  "spoke gs c (d\<lparr>c_barge_ended := x32\<rparr>) = spoke gs c d" "spoke gs c (d\<lparr>c_barge_turn_admitted := x33\<rparr>) = spoke gs c d"
  "spoke gs c (d\<lparr>c_barge_buffer_overflow := x34\<rparr>) = spoke gs c d" "spoke gs c (d\<lparr>c_manual_wake_pending := x35\<rparr>) = spoke gs c d"
  "spoke gs c (d\<lparr>c_finish_after_cancel_ack := x36\<rparr>) = spoke gs c d" "spoke gs c (d\<lparr>c_listener_failed := x37\<rparr>) = spoke gs c d"
  "spoke gs c (d\<lparr>c_now := x39\<rparr>) = spoke gs c d" "spoke gs c (d\<lparr>c_sends := x40\<rparr>) = spoke gs c d"
  "spoke gs c (d\<lparr>c_handshakes := x41\<rparr>) = spoke gs c d"
  by (simp_all add: spoke_def pre_roll_def turn_bytes_def same_uuid_def)

lemma spoke_state [simp]: "s \<noteq> St_CapturingSpeech \<Longrightarrow> spoke gs c d \<Longrightarrow> spoke gs c (d\<lparr>c_state := s\<rparr>)"
  by (simp add: spoke_def pre_roll_def turn_bytes_def same_uuid_def)

lemma spoke_forget [simp]: "spoke gs c d \<Longrightarrow> spoke gs c (d\<lparr>c_pre_head := h, c_pre_count := 0\<rparr>)"
  "spoke gs c d \<Longrightarrow> spoke gs c (d\<lparr>c_pre_count := 0\<rparr>)"
  by (simp_all add: spoke_def pre_roll_def turn_bytes_def same_uuid_def)

lemma spoke_simple [simp]:
  "spoke gs c (ui_call u d) = spoke gs c d" "spoke gs c (on_audio g d) = spoke gs c d"
  "spoke gs c (save_ui_settings d) = spoke gs c d" "spoke gs c (clear_subtitle d) = spoke gs c d"
  "spoke gs c (mark_first_response_progress d) = spoke gs c d" "spoke gs c (show_text s d) = spoke gs c d"
  "spoke gs c (reset_barge_turn d) = spoke gs c d" "spoke gs c (reset_barge_probe d) = spoke gs c d"
  "spoke gs c (reject_barge_probe d) = spoke gs c d" "spoke gs c (advance_turn d) = spoke gs c d"
  "spoke gs c (track_barge_utterance f d) = spoke gs c d" "spoke gs c (thaw_barge f d) = spoke gs c d"
  "spoke gs c (apply_volume v b d) = spoke gs c d"
  by (simp_all add: ui_call_def on_audio_def save_ui_settings_def clear_subtitle_def mark_first_response_progress_def show_text_def
      reset_barge_turn_def reset_barge_probe_def reject_barge_probe_def advance_turn_def track_barge_utterance_def
      thaw_barge_def apply_volume_def Let_def split: prod.split)

lemma spoke_listener [simp]: "spoke gs c (reset_listener d) = spoke gs c d"
  using reset_listener_form [of d] by auto

lemma spoke_begin [simp]: "spoke gs c d \<Longrightarrow> spoke gs c (begin_listening d)"
  by (simp add: begin_listening_def)

lemma spoke_keep [simp]: "spoke gs c d \<Longrightarrow> spoke gs c (keep_newest_pre_roll n d)"
proof -
  have "subseq (pre_roll (keep_newest_pre_roll n d)) (pre_roll d)"
    by (simp add: pre_roll_keep newest_def suffix_drop suffix_imp_subseq)
  moreover have "c_taken (keep_newest_pre_roll n d) = c_taken d" "c_transport (keep_newest_pre_roll n d) = c_transport d"
    "c_next_capture_sequence (keep_newest_pre_roll n d) = c_next_capture_sequence d" "c_state (keep_newest_pre_roll n d) = c_state d"
    "turn_bytes (keep_newest_pre_roll n d) = turn_bytes d"
    by (simp_all add: keep_newest_pre_roll_def Let_def turn_bytes_def)
  ultimately show "spoke gs c d \<Longrightarrow> ?thesis"
    using subseq_order.trans [of "pre_roll (keep_newest_pre_roll n d)" "pre_roll d" "pre_roll c"]
    by (auto simp: spoke_def same_uuid_def)
qed

lemma spoke_close [simp]: "spoke gs c d \<Longrightarrow> spoke gs c (close_wire d)"
  by (simp add: close_wire_def spoke_def pre_roll_def split: option.split prod.split)

lemma spoke_lose [simp]: "spoke gs c d \<Longrightarrow> spoke gs c (lose_connection d)"
  by (simp add: lose_connection_def Let_def)

subsection \<open>Sending\<close>

lemma spoke_wire:
  assumes "c_transport d = Some t" "t_uuid t' = t_uuid t" "\<forall>o' \<in> set os. \<not> starts_turn o'" "payloads os = map frame_bytes hs"
  shows "spoke hs d (d\<lparr>c_transport := Some t', c_wire := c_wire d @ os\<rparr>)"
  using assms since_start_quiet [of os "c_wire d"] by (simp add: spoke_def pre_roll_def turn_bytes_def same_uuid_def)

lemma after_control_uuid [simp]: "t_uuid (after_control t ctl) = t_uuid t"
  by (simp add: after_control_def split: control_kind.split)

lemma spoke_client_send:
  assumes "client_send k ids d = (ok, d')" and "k \<noteq> Ctl_TurnStart"
  shows "spoke [] d d'"
proof (cases "c_transport d")
  case None
  then have "d' = d\<lparr>c_message := c_message d + 1\<rparr>" using assms(1) by (auto simp: client_send_def Let_def)
  then show ?thesis by simp
next
  case (Some t)
  define c0 where "c0 = d\<lparr>c_message := c_message d + 1\<rparr>"
  obtain env ss where n: "next_send c0 = (env, c0\<lparr>c_sends := ss\<rparr>)" using next_send_form by blast
  obtain ok' t' os where s: "send_control env (make_control k ids d) t = (ok', t', os)"
    by (cases "send_control env (make_control k ids d) t") auto
  have kind: "ctl_kind (make_control k ids d) = k" by (simp add: make_control_def)
  from s have "t_uuid t' = t_uuid t \<and> (\<forall>o' \<in> set os. \<not> starts_turn o') \<and> payloads os = []"
    by (cases rule: send_control_cases) (use assms(2) kind in \<open>simp_all add: payloads_def starts_turn_def\<close>)
  then have "spoke [] d (d\<lparr>c_transport := Some t', c_wire := c_wire d @ os\<rparr>)" using Some by (intro spoke_wire) simp_all
  moreover have "d' = (d\<lparr>c_transport := Some t', c_wire := c_wire d @ os\<rparr>)\<lparr>c_message := c_message d + 1, c_sends := ss\<rparr>"
    using assms(1) Some n s by (auto simp: client_send_def Let_def c0_def)
  ultimately show ?thesis by simp
qed

lemma spoke_send: "spoke gs c d \<Longrightarrow> client_send k ids d = (ok, d') \<Longrightarrow> k \<noteq> Ctl_TurnStart \<Longrightarrow> spoke gs c d'"
  using spoke_trans [of gs c d "[]" d'] spoke_client_send by simp

lemma send_pcm_sent:
  "send_pcm env h pcm t = (out, t', os) \<Longrightarrow>
   t_uuid t' = t_uuid t \<and> os = (if out = Send_Ok then [Out_Frame (encode_pcm64 (t_uuid t) h pcm)] else [])"
  by (auto simp: send_pcm_def split: if_splits queue_capacity.splits)

definition uuid16 :: "client \<Rightarrow> bool" where
  "uuid16 c \<longleftrightarrow> (\<forall>t. c_transport c = Some t \<longrightarrow> length (t_uuid t) = 16)"

lemma spoke_uuid: "spoke gs c d \<Longrightarrow> uuid16 c \<Longrightarrow> uuid16 d"
  by (cases "c_transport c") (auto simp: spoke_def same_uuid_def uuid16_def)

lemma spoke_send_audio:
  assumes "uuid16 c" and "send_audio f b c = (out, c')"
  shows "spoke (if out = Send_Ok then [f] else []) c c' \<and> c_state c' = c_state c"
proof (cases "c_transport c")
  case None
  then show ?thesis using assms by (auto simp: send_audio_def)
next
  case (Some t)
  obtain env ss where n: "next_send c = (env, c\<lparr>c_sends := ss\<rparr>)" using next_send_form by blast
  define h where "h = audio_header f b (c\<lparr>c_sends := ss\<rparr>)"
  obtain o' t' os where s: "send_pcm env h (sample_bytes (cf_pcm f)) t = (o', t', os)" using prod_cases3 by blast
  have out: "o' = out" "c' = (c\<lparr>c_transport := Some t', c_wire := c_wire c @ os\<rparr>)\<lparr>c_sends := ss,
      c_uplink_sequence := (if o' = Send_Ok then c_uplink_sequence c + 1 else c_uplink_sequence c)\<rparr>"
    using assms(2) s by (auto simp: send_audio_def Some n h_def)
  have uuid: "length (t_uuid t) = 16" using assms(1) Some by (simp add: uuid16_def)
  have "payloads os = map frame_bytes (if out = Send_Ok then [f] else [])"
    using send_pcm_sent [OF s] encode_pcm64_fields(10) [OF uuid, of h "sample_bytes (cf_pcm f)"] out(1)
    by (simp add: payloads_def frame_bytes_def sub_def)
  then have "spoke (if out = Send_Ok then [f] else []) c (c\<lparr>c_transport := Some t', c_wire := c_wire c @ os\<rparr>)"
    using send_pcm_sent [OF s] Some by (intro spoke_wire) (simp_all add: starts_turn_def split: if_splits)
  then show ?thesis by (simp add: out(2))
qed

lemma spoke_abort [simp]: "spoke gs c d \<Longrightarrow> spoke gs c (abort_current d)"
proof -
  assume s: "spoke gs c d"
  define x where "x = (reset_barge_turn (reset_barge_probe (on_audio drop_playback d)))\<lparr>c_finish_after_cancel_ack := True\<rparr>"
  define k where "k = (if session (c_response_ids x) \<noteq> 0 then Ctl_ResponseCancel else Ctl_TurnCancel)"
  obtain ok d2 where d2: "client_send k (if session (c_response_ids x) \<noteq> 0 then c_response_ids x else c_turn_ids x) x = (ok, d2)"
    by fastforce
  have "spoke gs c x" using s by (simp add: x_def)
  then have "spoke gs c d2" by (rule spoke_send [OF _ d2]) (simp add: k_def)
  then show ?thesis unfolding abort_current_def Let_def x_def [symmetric] k_def [symmetric] d2 by (simp split: bool.split)
qed

lemma spoke_finish [simp]: "spoke gs c d \<Longrightarrow> spoke gs c (finish_turn n d)"
  by (simp add: finish_turn_def Let_def)

lemma spoke_confirm [simp]: "spoke gs c d \<Longrightarrow> spoke gs c (confirm_barge d)"
proof -
  assume s: "spoke gs c d"
  define x where "x = (clear_subtitle (reset_barge_probe (on_audio drop_playback d)))\<lparr>c_barge_turn_admitted := True,
                 c_barge_ended := False, c_barge_silence_frames := 0, c_barge_buffer_overflow := False,
                 c_finish_after_cancel_ack := False\<rparr>"
  obtain ok d2 where d2: "client_send Ctl_ResponseCancel (c_response_ids x) x = (ok, d2)" by fastforce
  have "spoke gs c x" using s by (simp add: x_def)
  then have "spoke gs c d2" by (rule spoke_send [OF _ d2]) simp
  then show ?thesis unfolding confirm_barge_def Let_def x_def [symmetric] d2 by (simp split: bool.split)
qed

lemma spoke_recover:
  assumes "uuid16 c" and "send_audio_or_recover f b c = (ok, c')"
  shows "ok \<Longrightarrow> spoke [f] c c' \<and> c_state c' = c_state c" and "\<not> ok \<Longrightarrow> spoke [] c c' \<and> c_state c' \<noteq> St_CapturingSpeech"
proof -
  obtain out c1 where s: "send_audio f b c = (out, c1)" by fastforce
  note one = spoke_send_audio [OF assms(1) s]
  show "ok \<Longrightarrow> spoke [f] c c' \<and> c_state c' = c_state c" using one assms(2) s
    by (cases out) (auto simp: send_audio_or_recover_def)
  have "c_state (abort_current c1) \<noteq> St_CapturingSpeech" using abort_state [of c1] by auto
  then show "\<not> ok \<Longrightarrow> spoke [] c c' \<and> c_state c' \<noteq> St_CapturingSpeech" using one assms(2) s
    by (cases out) (auto simp: send_audio_or_recover_def lose_fields)
qed

lemma spoke_upload:
  assumes "uuid16 c" and "upload b fs c = (ok, c')"
  shows "\<exists>n \<le> length fs. spoke (take n fs) c c' \<and> (ok \<longrightarrow> c_state c' = c_state c) \<and> (\<not> ok \<longrightarrow> c_state c' \<noteq> St_CapturingSpeech)"
  using assms
proof (induction fs arbitrary: c)
  case (Cons f fs)
  obtain ok1 c1 where s: "send_audio_or_recover f (b \<and> fs = []) c = (ok1, c1)" by fastforce
  show ?case
  proof (cases ok1)
    case True
    have one: "spoke [f] c c1 \<and> c_state c1 = c_state c" using spoke_recover(1) [OF Cons.prems(1) s True] .
    have "uuid16 c1" using one Cons.prems(1) spoke_uuid by blast
    moreover have "upload b fs c1 = (ok, c')" using Cons.prems(2) s True by simp
    ultimately obtain n where n: "n \<le> length fs" "spoke (take n fs) c1 c'" "ok \<longrightarrow> c_state c' = c_state c1"
      "\<not> ok \<longrightarrow> c_state c' \<noteq> St_CapturingSpeech" using Cons.IH by blast
    then show ?thesis using one spoke_trans [of "[f]" c c1 "take n fs" c']
      by (intro exI [of _ "Suc n"]) simp
  next
    case False
    have "spoke [] c c1 \<and> c_state c1 \<noteq> St_CapturingSpeech" using spoke_recover(2) [OF Cons.prems(1) s False] .
    then show ?thesis using Cons.prems(2) s False by (intro exI [of _ 0]) auto
  qed
qed simp

lemma spoke_commit_sent:
  assumes "spoke gs c d"
  shows "spoke gs c (snd (send_commit d)) \<and> c_state (snd (send_commit d)) \<noteq> St_CapturingSpeech"
proof -
  obtain ok d1 where s: "client_send Ctl_TurnCommit (c_turn_ids d) d = (ok, d1)" by fastforce
  have "spoke gs c d1" by (rule spoke_send [OF assms s]) simp
  then show ?thesis using s by (simp add: send_commit_def wait_for_response_def lose_fields split: bool.split)
qed

subsection \<open>The invariant\<close>

definition adjacent :: "capture_frame \<Rightarrow> capture_frame \<Rightarrow> bool" where
  "adjacent f g \<longleftrightarrow> cf_sequence g = cf_sequence f + 1 \<and> \<not> cf_discontinuity g"

text \<open>
  \<open>told pre live later c\<close>: of this turn the server was told the buffered frames \<open>pre\<close>, then \<open>live\<close>, an unbroken stretch of
  what was taken from the engine; \<open>later\<close> are the frames taken after it.
\<close>

definition told :: "capture_frame list \<Rightarrow> capture_frame list \<Rightarrow> capture_frame list \<Rightarrow> client \<Rightarrow> bool" where
  "told pre live later c \<longleftrightarrow> (\<exists>earlier. c_taken c = earlier @ live @ later \<and> subseq pre earlier) \<and>
     length pre \<le> k_barge_buffer_frames \<and> successively adjacent live \<and> turn_bytes c = map frame_bytes (pre @ live)"

definition loose :: "client \<Rightarrow> bool" where
  "loose c \<longleftrightarrow> subseq (pre_roll c) (c_taken c) \<and> (c_transport c \<noteq> None \<longrightarrow> (\<exists>pre live later. told pre live later c))"

definition capturing :: "capture_frame list \<Rightarrow> capture_frame list \<Rightarrow> client \<Rightarrow> bool" where
  "capturing live later c \<longleftrightarrow> later = [] \<and> (live \<noteq> [] \<longrightarrow> c_next_capture_sequence c = cf_sequence (last live) + 1)"

definition uplink_inv :: "client \<Rightarrow> bool" where
  "uplink_inv c \<longleftrightarrow> subseq (pre_roll c) (c_taken c) \<and> (c_transport c \<noteq> None \<longrightarrow>
     (\<exists>pre live later. told pre live later c \<and> (c_state c = St_CapturingSpeech \<longrightarrow> capturing live later c)))"

lemma inv_loose: "uplink_inv c \<Longrightarrow> loose c"
  by (auto simp: uplink_inv_def loose_def)

lemma loose_inv: "loose c \<Longrightarrow> c_state c \<noteq> St_CapturingSpeech \<Longrightarrow> uplink_inv c"
  by (auto simp: uplink_inv_def loose_def)

lemma told_spoke: "spoke [] c d \<Longrightarrow> c_transport d \<noteq> None \<Longrightarrow> told pre live later c \<Longrightarrow> c_transport c \<noteq> None \<and> told pre live later d"
  by (simp add: spoke_def told_def)

lemma loose_spoke: "spoke [] c d \<Longrightarrow> loose c \<Longrightarrow> loose d"
proof -
  assume s: "spoke [] c d" and l: "loose c"
  have "subseq (pre_roll d) (c_taken d)"
    using s l subseq_order.trans [of "pre_roll d" "pre_roll c" "c_taken c"] by (simp add: spoke_def loose_def)
  moreover have "\<exists>pre live later. told pre live later d" if "c_transport d \<noteq> None"
    using l told_spoke [OF s that] s that by (fastforce simp: loose_def spoke_def)
  ultimately show ?thesis by (simp add: loose_def)
qed

lemma inv_spoke: "spoke [] c d \<Longrightarrow> uplink_inv c \<Longrightarrow> uplink_inv d"
proof -
  assume s: "spoke [] c d" and i: "uplink_inv c"
  have l: "loose d" by (rule loose_spoke [OF s inv_loose [OF i]])
  show ?thesis
  proof (cases "c_state d = St_CapturingSpeech \<and> c_transport d \<noteq> None")
    case True
    then have c: "c_state c = St_CapturingSpeech" "c_transport c \<noteq> None" using s by (auto simp: spoke_def)
    then obtain pre live later where t: "told pre live later c" "capturing live later c" using i by (auto simp: uplink_inv_def)
    then have "told pre live later d" using told_spoke [OF s] True by blast
    moreover have "capturing live later d" using t(2) s by (simp add: capturing_def spoke_def)
    ultimately show ?thesis using l by (auto simp: uplink_inv_def loose_def)
  next
    case False
    then show ?thesis using l by (auto simp: uplink_inv_def loose_def)
  qed
qed

lemma quiet_inv: "spoke [] c d \<Longrightarrow> loose c \<Longrightarrow> c_state d \<noteq> St_CapturingSpeech \<Longrightarrow> uplink_inv d"
  using loose_spoke loose_inv by blast

lemma lose_inv: "uplink_inv (lose_connection c)"
proof -
  have "c_pre_count (lose_connection c) = 0" by (simp add: lose_connection_def Let_def reset_barge_probe_def reset_barge_turn_def on_audio_def)
  then show ?thesis by (simp add: uplink_inv_def lose_fields pre_roll_def)
qed

text \<open>A new turn tells what was buffered, or nothing if it fails.\<close>

lemma start_turn_inv:
  assumes "uuid16 c" and "loose c" and "length (pre_roll c) \<le> k_barge_buffer_frames"
  shows "uplink_inv (snd (start_turn b c))"
proof -
  obtain ok c1 where c1: "client_send Ctl_TurnStart (c_turn_ids c) c = (ok, c1)" by fastforce
  define c2 where "c2 = ui_call (Call_State Ui_Listening) (c1\<lparr>c_uplink_sequence := 0, c_state := St_CapturingSpeech,
                     c_state_deadline := c_now c1 + k_maximum_turn_wait\<rparr>)"
  obtain ok3 c3 where c3: "upload b (pre_roll c2) c2 = (ok3, c3)" by fastforce
  have rest: "uplink_inv c3" if ok
  proof -
    have sent: ok by (rule that)
    obtain t where t: "c_transport c = Some t" using c1 sent
      by (cases "c_transport c") (auto simp: client_send_def Let_def)
    define c0 where "c0 = c\<lparr>c_message := c_message c + 1\<rparr>"
    obtain env ss where n: "next_send c0 = (env, c0\<lparr>c_sends := ss\<rparr>)" using next_send_form by blast
    define ctl where "ctl = make_control Ctl_TurnStart (c_turn_ids c) c"
    obtain ok' t' os where s: "send_control env ctl t = (ok', t', os)" by (cases "send_control env ctl t") auto
    have c1': "ok' = ok" "c1 = (c\<lparr>c_message := c_message c + 1, c_sends := ss\<rparr>)\<lparr>c_transport := Some t', c_wire := c_wire c @ os\<rparr>"
      using c1 t n s by (auto simp: client_send_def Let_def c0_def ctl_def)
    have "ctl_kind ctl = Ctl_TurnStart" by (simp add: ctl_def make_control_def)
    then have kind: "control_body t ctl \<noteq> Inl True" by (simp add: control_body_def Let_def)
    from s have os: "t_uuid t' = t_uuid t \<and> (\<exists>json. os = [Out_Text ctl json])"
    proof (cases rule: send_control_cases)
      case (1 b')
      then show ?thesis using s kind sent c1'(1) by (auto simp: send_control_def Let_def split: if_splits sum.splits)
    qed simp
    then have bytes: "turn_bytes c2 = []" using \<open>ctl_kind ctl = Ctl_TurnStart\<close>
      by (auto simp: turn_bytes_def c2_def c1'(2) since_start_append starts_turn_def ui_call_def)
    have f: "c_taken c2 = c_taken c" "pre_roll c2 = pre_roll c" "c_transport c2 = Some t'"
      by (simp_all add: c2_def c1'(2) pre_roll_def ui_call_def)
    have u: "uuid16 c2" using assms(1) os t f(3) by (auto simp: uuid16_def)
    obtain n where n: "spoke (take n (pre_roll c)) c2 c3" using spoke_upload [OF u c3] f(2) by auto
    have sub: "subseq (take n (pre_roll c)) (c_taken c)" "subseq (pre_roll c) (c_taken c)"
    proof -
      show "subseq (pre_roll c) (c_taken c)" using assms(2) by (simp add: loose_def)
      moreover have "subseq (take n (pre_roll c)) (pre_roll c)" by (simp add: prefix_imp_subseq take_is_prefix)
      ultimately show "subseq (take n (pre_roll c)) (c_taken c)" using subseq_order.trans by blast
    qed
    have "told (take n (pre_roll c)) [] [] c3" if "c_transport c3 \<noteq> None"
      using n that bytes f(1) sub(1) assms(3) by (simp add: spoke_def told_def)
    moreover have "subseq (pre_roll c3) (c_taken c3)"
      using n f sub(2) subseq_order.trans [of "pre_roll c3" "pre_roll c" "c_taken c"] by (simp add: spoke_def)
    ultimately show ?thesis by (fastforce simp: uplink_inv_def capturing_def)
  qed
  have "uplink_inv (c3\<lparr>c_pre_head := 0, c_pre_count := 0\<rparr>)" if ok
    by (rule inv_spoke [OF _ rest [OF that]]) simp
  moreover have "uplink_inv (snd (send_commit (c3\<lparr>c_pre_head := 0, c_pre_count := 0\<rparr>)))" if ok
    using inv_spoke [OF _ rest [OF that]] spoke_commit_sent [of "[]" c3 "c3\<lparr>c_pre_head := 0, c_pre_count := 0\<rparr>"] by simp
  ultimately show ?thesis using rest lose_inv
    by (simp add: start_turn_def c1 Let_def c2_def [symmetric] c3 split: bool.split)
qed

subsection \<open>Operations of the actor\<close>

lemma spoke_deadlines [simp]: "spoke gs c d \<Longrightarrow> spoke gs c (snd (advance_deadlines d))"
  by (simp add: advance_deadlines_def)

lemma spoke_handle_barge [simp]: "spoke gs c d \<Longrightarrow> spoke gs c (handle_barge f d)"
  by (simp add: handle_barge_def Let_def split: barge_probe.split)

lemma spoke_gap: "spoke [] c (on_gap c)" "c_state (on_gap c) \<noteq> St_CapturingSpeech"
proof -
  show "spoke [] c (on_gap c)" by (simp add: on_gap_def Let_def)
  have "c_state (abort_current d) \<noteq> St_CapturingSpeech" for d using abort_state [of d] by auto
  then show "c_state (on_gap c) \<noteq> St_CapturingSpeech" by (simp add: on_gap_def Let_def reset_barge_turn_def)
qed

lemma spoke_poll_ui: "spoke [] c (poll_ui v a c)"
  by (simp add: poll_ui_def Let_def split: option.split device_ui_action.split prod.split)

lemma spoke_finish_connect: "spoke [] c (finish_connect c)"
proof -
  obtain ok c1 where s: "client_send Ctl_Hello no_ids c = (ok, c1)" by fastforce
  have "spoke [] c c1" by (rule spoke_client_send [OF s]) simp
  then show ?thesis using s by (simp add: finish_connect_def split: option.split bool.split)
qed

definition ready :: "client \<Rightarrow> bool" where
  "ready c \<longleftrightarrow> uuid16 c \<and> length (pre_roll c) \<le> k_barge_buffer_frames"

lemma ready_spoke: "spoke [] c d \<Longrightarrow> ready c \<Longrightarrow> ready d"
proof -
  assume s: "spoke [] c d" "ready c"
  then have "length (pre_roll d) \<le> length (pre_roll c)"
    using list_emb_length [of "(=)" "pre_roll d" "pre_roll c"] by (simp add: spoke_def)
  then show ?thesis using s spoke_uuid [OF s(1)] by (simp add: ready_def)
qed

lemma begin_turn_inv: "spoke [] c d \<Longrightarrow> ready c \<Longrightarrow> loose c \<Longrightarrow> uplink_inv (snd (start_turn b d))"
  using ready_spoke [of c d] loose_spoke [of c d] by (simp add: ready_def start_turn_inv)

lemma finish_turn_inv: "spoke [] c d \<Longrightarrow> loose c \<Longrightarrow> uplink_inv (finish_turn n d)"
  by (rule quiet_inv [of c]) (simp_all add: finish_turn_def Let_def)

lemma cancel_inv: "spoke [] c d \<Longrightarrow> ready c \<Longrightarrow> loose c \<Longrightarrow> uplink_inv (complete_cancel d)"
  by (simp add: complete_cancel_def resume_after_barge_def Let_def finish_turn_inv [of c] begin_turn_inv [of c])

lemma handle_event_inv:
  assumes "uplink_inv c" and "ready c"
  shows "uplink_inv (handle_event e c)"
proof -
  have l: "loose c" by (rule inv_loose [OF assms(1)])
  have quiet: "uplink_inv d" if "spoke [] c d" for d by (rule inv_spoke [OF that assms(1)])
  have err: "uplink_inv (handle_error e c)"
    using assms(2) l by (simp add: handle_error_def Let_def lose_inv quiet cancel_inv [of c] finish_turn_inv [of c])
  have cancelled: "uplink_inv (handle_cancelled d)" if "spoke [] c d" for d
    using assms(2) l that by (simp add: handle_cancelled_def Let_def cancel_inv [of c] finish_turn_inv [of c])
  have ack: "spoke [] c (handle_hello_ack e d)" if "spoke [] c d" for d
    using that by (simp add: handle_hello_ack_def)
  have audio: "uplink_inv (handle_audio_start d)" if "spoke [] c d" for d
  proof -
    define x where "x = mark_first_response_progress d"
    obtain ok y where y: "audio_begin x = (ok, y)" by fastforce
    have "spoke [] c x" using that by (simp add: x_def)
    then have "spoke [] c y" using audio_begin_form [of x] y by auto
    then show ?thesis by (simp add: handle_audio_start_def x_def [symmetric] y quiet lose_inv split: bool.split)
  qed
  have pcm: "uplink_inv (handle_pcm e d)" if "spoke [] c d" for d
  proof -
    define x where "x = mark_first_response_progress d"
    obtain ok y where y: "audio_queue (in_audio e) (ucast (pcm_sequence (in_pcm e))) x = (ok, y)" by fastforce
    have "spoke [] c x" using that by (simp add: x_def)
    then have "spoke [] c y" using y by (auto simp: audio_queue_def split: option.splits)
    then show ?thesis by (simp add: handle_pcm_def x_def [symmetric] y quiet split: bool.split)
  qed
  have fin: "uplink_inv (handle_done d)" if "spoke [] c d" for d
    using that by (simp add: handle_done_def Let_def lose_inv quiet split: prod.split bool.split)
  show ?thesis using err cancelled ack audio pcm fin
    by (simp add: handle_event_def Let_def quiet assms(1) split: inbound_kind.split)
qed

lemma deadlines_end_capture: "advance_deadlines c = (False, d) \<Longrightarrow> c_state d \<noteq> St_CapturingSpeech"
proof -
  have "c_state (abort_current e) \<noteq> St_CapturingSpeech" for e using abort_state [of e] by auto
  then show "advance_deadlines c = (False, d) \<Longrightarrow> ?thesis"
    by (auto simp: advance_deadlines_def lose_fields finish_turn_def Let_def split: if_splits)
qed

subsection \<open>A frame\<close>

lemma subseq_tl: "subseq (tl xs) xs"
  by (cases xs) (simp_all add: list_emb_Cons)

text \<open>Storing a frame, while speech is not being captured.\<close>

lemma store_sub:
  assumes "shape c" and "subseq (pre_roll c) taken"
  shows "subseq (pre_roll (save_pre_roll f c)) (taken @ [f])"
proof (cases "c_state c = St_CancelPending \<and> c_barge_turn_admitted c \<and> c_pre_count c = length (c_pre c)")
  case True
  then have "pre_roll (save_pre_roll f c) = pre_roll c" by (simp add: save_pre_roll_def pre_roll_def)
  then show ?thesis using assms(2) by (simp add: subseq_rev_drop_many)
next
  case False
  have "subseq (tl (pre_roll c)) taken" using subseq_tl subseq_order.trans assms(2) by blast
  then show ?thesis using assms(2) by (simp add: pre_roll_save [OF assms(1) False])
qed

lemma store_fields [simp]:
  "c_taken (store_frame f c) = c_taken c" "c_transport (store_frame f c) = c_transport c" "c_wire (store_frame f c) = c_wire c"
  "c_state (store_frame f c) = c_state c" "c_next_capture_sequence (store_frame f c) = c_next_capture_sequence c"
  "c_taken (thaw_barge f c) = c_taken c" "c_transport (thaw_barge f c) = c_transport c" "c_wire (thaw_barge f c) = c_wire c"
  "c_state (thaw_barge f c) = c_state c" "c_next_capture_sequence (thaw_barge f c) = c_next_capture_sequence c"
  "pre_roll (thaw_barge f c) = pre_roll c"
  by (simp_all add: store_frame_def save_pre_roll_def thaw_barge_def pre_roll_def Let_def)

lemma loose_taken:
  assumes "loose c" and "c1 = c\<lparr>c_next_capture_sequence := n, c_taken := c_taken c @ [f]\<rparr>"
  shows "loose c1"
proof -
  have "told pre live (later @ [f]) c1" if "told pre live later c" for pre live later
    using that assms(2) by (auto simp: told_def turn_bytes_def)
  moreover have "c_transport c1 = c_transport c" "pre_roll c1 = pre_roll c" "c_taken c1 = c_taken c @ [f]"
    by (simp_all add: assms(2) pre_roll_def)
  moreover have "subseq (pre_roll c) (c_taken c @ [f])"
    using assms(1) by (intro subseq_rev_drop_many) (simp add: loose_def)
  ultimately show ?thesis using assms(1) by (metis loose_def)
qed

lemma loose_store:
  assumes "shape c" and "loose c" and "c_state c \<noteq> St_CapturingSpeech"
  shows "loose (store_frame f (thaw_barge f (c\<lparr>c_next_capture_sequence := n, c_taken := c_taken c @ [f]\<rparr>)))"
proof -
  define c1 where "c1 = thaw_barge f (c\<lparr>c_next_capture_sequence := n, c_taken := c_taken c @ [f]\<rparr>)"
  have s1: "shape c1" using assms(1) by (simp add: c1_def thaw_barge_def shape_def buffers_def)
  have p1: "pre_roll c1 = pre_roll c" by (simp add: c1_def) (simp add: pre_roll_def)
  have sub: "subseq (pre_roll c1) (c_taken c)" using assms(2) p1 by (simp add: loose_def)
  have "subseq (pre_roll (store_frame f c1)) (c_taken c @ [f])"
    using store_sub [OF s1 sub, of f] subseq_rev_drop_many [OF sub, of "[f]"] by (simp add: store_frame_def Let_def)
  moreover have "told pre live (later @ [f]) (store_frame f c1)" if "told pre live later c" for pre live later
    using that by (auto simp: told_def turn_bytes_def c1_def)
  moreover have "c_taken (store_frame f c1) = c_taken c @ [f]" "c_transport (store_frame f c1) = c_transport c"
    by (simp_all add: c1_def)
  ultimately have "loose (store_frame f c1)" using assms(2) by (metis loose_def)
  then show ?thesis by (simp add: c1_def)
qed

lemma quiet_frame_inv:
  assumes "loose c" and "ready c" and "c_state c \<noteq> St_CapturingSpeech"
  shows "uplink_inv (frame_in_state f c)"
proof -
  have quiet: "uplink_inv d" if "spoke [] c d" for d
    by (rule inv_spoke [OF that loose_inv [OF assms(1,3)]])
  show ?thesis using assms
    by (simp add: frame_in_state_def Let_def quiet begin_turn_inv [OF _ assms(2,1)] split: client_state.split)
qed

text \<open>While speech is captured, the frame is the next one of the turn.\<close>

lemma told_more:
  assumes "spoke [f] c1 d" and "c_transport d \<noteq> None" and "c1 = c\<lparr>c_next_capture_sequence := n, c_taken := c_taken c @ [f]\<rparr>"
    and "told pre live later c" and "capturing live later c" and "cf_sequence f = c_next_capture_sequence c" "\<not> cf_discontinuity f"
  shows "told pre (live @ [f]) [] d"
proof -
  obtain earlier where e: "c_taken c = earlier @ live" "subseq pre earlier" "later = []"
    using assms(4,5) by (auto simp: told_def capturing_def)
  have "successively adjacent (live @ [f])"
    using assms(4-7) by (auto simp: told_def capturing_def successively_append_iff adjacent_def)
  moreover have "turn_bytes d = map frame_bytes (pre @ live @ [f])"
    using assms(1,2,3,4) by (simp add: spoke_def told_def turn_bytes_def)
  moreover have "c_taken d = earlier @ live @ [f]" using assms(1,3) e by (simp add: spoke_def)
  ultimately show ?thesis using assms(4) e(2) by (auto simp: told_def)
qed

lemma live_frame_inv:
  assumes "uplink_inv c" and "ready c" and "c_state c = St_CapturingSpeech"
    and "cf_sequence f = c_next_capture_sequence c" and "\<not> cf_discontinuity f"
    and "c1 = c\<lparr>c_next_capture_sequence := cf_sequence f + 1, c_taken := c_taken c @ [f]\<rparr>"
  shows "uplink_inv (frame_in_state f c1)"
proof -
  have r: "ready c1" using assms(2,6) by (simp add: ready_def uuid16_def pre_roll_def)
  have loose1: "loose c1" by (rule loose_taken [OF inv_loose [OF assms(1)] assms(6)])
  then have sub: "subseq (pre_roll c1) (c_taken c1)" by (simp add: loose_def)
  have sent: "\<exists>pre live. told pre (live @ [f]) [] d" if "spoke [f] c1 d" "c_transport d \<noteq> None" for d
  proof -
    have "c_transport c \<noteq> None" using that assms(6) by (auto simp: spoke_def)
    then obtain pre live later where t: "told pre live later c" "capturing live later c"
      using assms(1,3) by (auto simp: uplink_inv_def)
    show ?thesis using told_more [OF that assms(6) t assms(4,5)] by blast
  qed
  have subd: "subseq (pre_roll d) (c_taken d)" if "spoke gs c1 d" for gs d
    using that sub subseq_order.trans [of "pre_roll d" "pre_roll c1" "c_taken c1"] by (simp add: spoke_def)
  have recover: "uplink_inv (snd (send_audio_or_recover f False c1))"
  proof -
    obtain ok d where s: "send_audio_or_recover f False c1 = (ok, d)" by fastforce
    note u = r [unfolded ready_def, THEN conjunct1]
    show ?thesis
    proof (cases ok)
      case True
      then have d: "spoke [f] c1 d" using spoke_recover(1) [OF u s] by blast
      have "c_next_capture_sequence d = cf_sequence f + 1" using d assms(6) by (simp add: spoke_def)
      then have "capturing (live @ [f]) [] d" for live by (simp add: capturing_def)
      then show ?thesis using s subd [OF d] sent [OF d] by (fastforce simp: uplink_inv_def)
    next
      case False
      then have "spoke [] c1 d" "c_state d \<noteq> St_CapturingSpeech" using spoke_recover(2) [OF u s] by blast+
      then show ?thesis using s quiet_inv [OF _ loose1] by simp
    qed
  qed
  have commit: "uplink_inv (commit f x)" if x: "spoke [] c1 x" for x
  proof -
    obtain ok d where s: "send_audio_or_recover f True x = (ok, d)" by fastforce
    note u = ready_spoke [OF x r, unfolded ready_def, THEN conjunct1]
    show ?thesis
    proof (cases ok)
      case True
      then have d: "spoke [f] c1 d" using spoke_recover(1) [OF u s] spoke_trans [OF x, of "[f]" d] by simp
      define e where "e = snd (send_commit d)"
      have e: "spoke [f] c1 e" "c_state e \<noteq> St_CapturingSpeech" using spoke_commit_sent [OF d] by (simp_all add: e_def)
      have "uplink_inv e" using subd [OF e(1)] sent [OF e(1)] e(2) by (fastforce simp: uplink_inv_def)
      then show ?thesis using s True by (simp add: commit_def e_def)
    next
      case False
      then have "spoke [] x d" "c_state d \<noteq> St_CapturingSpeech" using spoke_recover(2) [OF u s] by blast+
      then show ?thesis using s False quiet_inv [OF _ loose1] spoke_trans [OF x, of "[]" d] by (simp add: commit_def)
    qed
  qed
  show ?thesis using assms(3,6) recover commit by (simp add: frame_in_state_def)
qed

lemma on_frame_inv:
  assumes "client_inv c" and "uplink_inv c" and "uuid16 c"
  shows "uplink_inv (on_frame f c)"
proof -
  have sh: "shape c" using assms(1) by (simp add: client_inv_def)
  have len: "length (pre_roll d) = c_pre_count d" for d by (simp add: pre_roll_def)
  have r: "ready c" using assms(3) shape_pre [OF sh] by (simp add: ready_def len)
  define c1 where "c1 = c\<lparr>c_next_capture_sequence := cf_sequence f + 1, c_taken := c_taken c @ [f]\<rparr>"
  have loose1: "loose c1" by (rule loose_taken [OF inv_loose [OF assms(2)] c1_def])
  show ?thesis
  proof (cases "cf_discontinuity f \<or> cf_sequence f \<noteq> c_next_capture_sequence c")
    case True
    then show ?thesis using quiet_inv [OF spoke_gap(1) loose1 spoke_gap(2)] by (simp add: on_frame_def Let_def c1_def)
  next
    case False
    define c2 where "c2 = store_frame f (thaw_barge f c1)"
    have s1: "shape c1" using sh by (simp add: c1_def)
    have s2: "shape c2" using shape_store [OF s1] by (simp add: c2_def)
    have f: "on_frame f c = (if session (c_turn_ids c2) = 0 then (if cf_wake f then reset_listener c2 else c2) else frame_in_state f c2)"
      using False by (simp add: on_frame_def Let_def c1_def c2_def)
    show ?thesis
    proof (cases "c_state c = St_CapturingSpeech")
      case True
      then have c2: "c2 = c1" by (simp add: c2_def c1_def store_frame_def thaw_barge_def)
      have "session (c_turn_ids c) \<noteq> 0"
        using assms(1) True by (auto simp: client_inv_def proto_def link_def capture_link_def)
      then show ?thesis using f live_frame_inv [OF assms(2) r True _ _ c1_def] False c2 by (simp add: c1_def)
    next
      case quiet: False
      have l2: "loose c2" unfolding c2_def c1_def by (rule loose_store [OF sh inv_loose [OF assms(2)] quiet])
      have st: "c_state c2 \<noteq> St_CapturingSpeech" using quiet by (simp add: c2_def c1_def)
      have r2: "ready c2" using assms(3) shape_pre [OF s2] by (simp add: ready_def len uuid16_def c2_def c1_def)
      have "uplink_inv (reset_listener c2)" by (rule quiet_inv [OF _ l2]) (simp_all add: st)
      then show ?thesis using f quiet_frame_inv [OF l2 r2 st] loose_inv [OF l2 st] by simp
    qed
  qed
qed

subsection \<open>The other threads\<close>

text \<open>A callback sends no audio, starts no turn and leaves the device identity alone.\<close>

definition mute :: "transport \<Rightarrow> transport \<times> effect list \<Rightarrow> bool" where
  "mute t r \<longleftrightarrow> t_uuid (fst r) = t_uuid t \<and> (\<forall>o' \<in> set (snd r). \<not> starts_turn o') \<and> payloads (snd r) = []"

lemma mute_simple [simp]:
  "t_uuid t' = t_uuid t \<Longrightarrow> mute t (t', [])" "mute t (t, [Out_Close s])" "mute t (transport_fail t why)" "mute t (protocol_error t why)"
  "t_uuid t' = t_uuid t \<Longrightarrow> mute t (emit (\<lambda>_. True) t' e)"
  by (simp_all add: mute_def transport_fail_def protocol_error_def emit_def payloads_def starts_turn_def)

lemma admits_uuid: "admits t i t' r \<Longrightarrow> t_uuid t' = t_uuid t"
  by (induction rule: admits.induct) simp_all

lemma mute_callback: "mute t (transport_step p (\<lambda>_. True) (callback ev) t)"
proof -
  have json: "mute t (on_text p (\<lambda>_. True) s t)" for s
  proof -
    obtain res where res: "on_text p (\<lambda>_. True) s t = res" by blast
    then show ?thesis by (cases rule: on_text_cases) (use res admits_uuid in auto)
  qed
  have binary: "mute t (on_binary (\<lambda>_. True) m t)" for m
  proof -
    obtain res where res: "on_binary (\<lambda>_. True) m t = res" by blast
    then show ?thesis by (cases rule: on_binary_cases) (use res in auto)
  qed
  have message: "mute t (on_message p (\<lambda>_. True) m t)" for m by (cases m) (simp_all add: on_message_def json binary)
  have close: "mute t (on_close reason t)" for reason
    by (simp add: on_close_def Let_def transport_fail_def) (simp add: mute_def payloads_def starts_turn_def)
  show ?thesis using message close by (cases ev) (simp_all add: on_open_def on_ping_def)
qed

lemma spoke_wss: "shape c \<Longrightarrow> spoke [] c (wss_step p ev c)"
proof (cases "c_transport c")
  case (Some t)
  assume sh: "shape c"
  obtain t' os where st: "transport_step p (\<lambda>_. True) (callback ev) t = (t', os)" by fastforce
  define c1 where "c1 = c\<lparr>c_transport := Some t', c_wire := c_wire c @ os\<rparr>"
  have "queue_valid (c_events c1)" using sh by (simp add: c1_def shape_def buffers_def)
  from effects_form [OF this, of os] obtain q where q: "fold on_effect os c1 = c1\<lparr>c_events := q\<rparr>" by blast
  have "spoke [] c c1" unfolding c1_def
    by (rule spoke_wire [OF Some]) (use mute_callback [of t p ev] st in \<open>simp_all add: mute_def\<close>)
  then show ?thesis using Some st q by (simp add: wss_step_def c1_def)
qed (simp add: wss_step_def)

lemma spoke_thread: "shape c \<Longrightarrow> spoke [] c (thread_step p th c)"
  by (cases th) (simp_all add: spoke_wss set_player_def)

lemma start_connect_inv:
  assumes "client_inv c" and "uplink_inv c" and "c_transport c = None"
  shows "uplink_inv (start_connect db u th n c)"
proof (cases n)
  case False
  then show ?thesis by (simp add: start_connect_def lose_inv)
next
  case True
  define c1 where "c1 = c\<lparr>c_hello_sent := False, c_state_deadline := c_now c + k_connect_wait, c_wire := []\<rparr>"
  define tc where "tc = \<lparr>tc_host = ep_host (c_endpoint c1), tc_port = ep_port (c_endpoint c1),
                     tc_device_id = cfg_device_id (c_config c1), tc_spki_sha256_base64 = ep_spki (c_endpoint c1)\<rparr>"
  obtain ok t where t: "connect db u th tc new_transport = (ok, t)" by fastforce
  have "c_state c \<noteq> St_CapturingSpeech" using assms(1,3) by (auto simp: client_inv_def proto_def link_def)
  moreover have "told [] [] (c_taken c) (c1\<lparr>c_transport := Some t\<rparr>)"
    by (simp add: told_def c1_def turn_bytes_def since_start_def)
  moreover have "subseq (pre_roll c1) (c_taken c1)" using assms(2) by (simp add: uplink_inv_def c1_def pre_roll_def)
  ultimately have "uplink_inv (c1\<lparr>c_transport := Some t\<rparr>)"
    unfolding uplink_inv_def by (auto simp: c1_def pre_roll_def)
  then show ?thesis
    using True lose_inv by (simp add: start_connect_def Let_def c1_def [symmetric] tc_def [symmetric] t split: bool.split)
qed

subsection \<open>Every run\<close>

definition told_inv :: "client \<Rightarrow> bool" where
  "told_inv c \<longleftrightarrow> client_inv c \<and> uplink_inv c"

lemma client_uuid: "client_inv c \<Longrightarrow> uuid16 c"
  by (auto simp: client_inv_def proto_def wire_ok_def run_inv_def session_inv_def uuid16_def)

lemma client_ready: "client_inv c \<Longrightarrow> ready c"
  using shape_pre [of c] client_uuid by (simp add: ready_def client_inv_def pre_roll_def)

interpretation told_runs: client_invariant p "\<lambda>_. True" told_inv for p
proof unfold_locales
  fix c
  assume i: "told_inv c"
  then have c: "client_inv c" "uplink_inv c" by (simp_all add: told_inv_def)
  have sh: "shape c" using c(1) by (simp add: client_inv_def)
  have step: "told_inv d" if "client_inv d" "spoke [] c d" for d
    using that inv_spoke c(2) by (simp add: told_inv_def)
  show "told_inv (thread_step p th c)" if True for th
    by (rule step [OF client_runs.inv_thread [OF _ c(1)] spoke_thread [OF sh]]) simp
  show "told_inv (c\<lparr>c_now := now, c_sends := ss, c_handshakes := hs\<rparr>)" for now ss hs
    by (rule step [OF client_runs.inv_answers [OF c(1)]]) simp
  show "told_inv (start_connect db u th n c)" if "c_transport c = None" for db u th n
    using c that by (simp add: told_inv_def start_connect_inv client_runs.inv_connect)
  show "told_inv (c\<lparr>c_audio := e\<rparr>)" if "capture_take k_actor_poll_interval (c_audio c) = (r, e)" for r e
    by (rule step [OF client_runs.inv_capture [OF c(1) that]]) simp
  show "told_inv (finish_connect c)" by (rule step [OF client_runs.inv_hello [OF c(1)] spoke_finish_connect])
  show "told_inv (handle_event ev (c\<lparr>c_events := q\<rparr>))"
    if "c_transport c = Some t" "event_pop (c_events c) = Some (ev, q)" for t ev q
  proof -
    have "spoke [] c (c\<lparr>c_events := q\<rparr>)" by simp
    then have "uplink_inv (c\<lparr>c_events := q\<rparr>)" "ready (c\<lparr>c_events := q\<rparr>)"
      using inv_spoke c(2) ready_spoke client_ready [OF c(1)] by blast+
    then show ?thesis using client_runs.inv_event [OF c(1) that] handle_event_inv by (simp add: told_inv_def)
  qed
  show "told_inv (poll_ui v a c)" for v a by (rule step [OF client_runs.inv_ui [OF c(1)] spoke_poll_ui])
  show "told_inv (lose_connection c)" by (rule step [OF client_runs.inv_lose [OF c(1)]]) simp
  show "told_inv (snd (advance_deadlines c))" by (rule step [OF client_runs.inv_deadline [OF c(1)]]) simp
  show "told_inv (d\<lparr>c_next_capture_sequence := cf_sequence f + 1, c_taken := c_taken d @ [f]\<rparr>)"
    if "advance_deadlines c = (False, d)" for d f
  proof -
    have "spoke [] c (snd (advance_deadlines c))" by simp
    then have "uplink_inv d" using inv_spoke c(2) that by simp
    then have "loose (d\<lparr>c_next_capture_sequence := cf_sequence f + 1, c_taken := c_taken d @ [f]\<rparr>)"
      using loose_taken inv_loose by blast
    then have "uplink_inv (d\<lparr>c_next_capture_sequence := cf_sequence f + 1, c_taken := c_taken d @ [f]\<rparr>)"
      by (rule loose_inv) (use deadlines_end_capture [OF that] in simp)
    then show ?thesis using client_runs.inv_skip [OF c(1) that] by (simp add: told_inv_def)
  qed
  show "told_inv (on_frame f c)" for f
    using client_runs.inv_frame [OF c(1)] on_frame_inv [OF c client_uuid [OF c(1)]] by (simp add: told_inv_def)
  show "told_inv ((ui_call (Call_State Ui_Error) c)\<lparr>c_error := why\<rparr>)" for why
    by (rule step [OF client_runs.inv_fail [OF c(1)]]) simp
qed

text \<open>C8: in every run, whatever the server, the network and the other threads do, the audio that has left of the
  current turn is that of frames taken from the engine: first at most 67 of those taken before, in their
  order and none twice, and then a stretch of consecutive ones, each numbered one above the last and none
  behind a gap. While speech is captured, this stretch reaches to the last frame taken.\<close>

theorem turn_is_what_was_captured:
  assumes "volume_percent cfg \<le> 100"
    and "c = client_of (run_client p cfg s backend_ok threads_ok network_ok origin now is)" and "c_transport c = Some t"
  shows "\<exists>buffered live earlier later.
    payloads (since_start (c_wire c)) = map (sample_bytes \<circ> cf_pcm) (buffered @ live) \<and>
    c_taken c = earlier @ live @ later \<and> subseq buffered earlier \<and> length buffered \<le> 67 \<and>
    successively (\<lambda>f g. cf_sequence g = cf_sequence f + 1 \<and> \<not> cf_discontinuity g) live \<and>
    (c_state c = St_CapturingSpeech \<longrightarrow> later = [])"
proof -
  have start: "told_inv (client_of (client_start cfg s backend_ok threads_ok network_ok origin now))"
  proof -
    have "c_pre_count d = 0 \<and> c_transport d = None" if "d = client_of (client_start cfg s backend_ok threads_ok network_ok origin now)" for d
      unfolding that by (simp add: client_start_def client_setup_def new_client_def client_fail_def ui_call_def Let_def
          split: prod.split bool.split)
    then show ?thesis using inv_started [OF assms(1)] by (simp add: told_inv_def uplink_inv_def pre_roll_def)
  qed
  have "told_inv c" unfolding assms(2) by (rule told_runs.inv_run [OF _ start]) (simp add: list_all_iff)
  then obtain pre live later where t: "told pre live later c" "c_state c = St_CapturingSpeech \<longrightarrow> capturing live later c"
    using assms(3) by (auto simp: told_inv_def uplink_inv_def)
  have adjacent: "adjacent = (\<lambda>f g. cf_sequence g = cf_sequence f + 1 \<and> \<not> cf_discontinuity g)"
    by (intro ext) (simp add: adjacent_def)
  have bytes: "frame_bytes = sample_bytes \<circ> cf_pcm" by (intro ext) (simp add: frame_bytes_def)
  obtain earlier where e: "c_taken c = earlier @ live @ later" "subseq pre earlier" using t(1) by (auto simp: told_def)
  have "payloads (since_start (c_wire c)) = map (sample_bytes \<circ> cf_pcm) (pre @ live)" "length pre \<le> 67"
    "successively (\<lambda>f g. cf_sequence g = cf_sequence f + 1 \<and> \<not> cf_discontinuity g) live"
    using t(1) unfolding told_def turn_bytes_def bytes adjacent k_barge_buffer_frames_def by blast+
  moreover have "c_state c = St_CapturingSpeech \<longrightarrow> later = []" using t(2) by (simp add: capturing_def)
  ultimately show ?thesis using e by blast
qed

text \<open>In the sample run, the two frames of the pre-roll and the one that ends the turn.\<close>

definition sample_spoken_passes :: "pass_input list" where
  "sample_spoken_passes = [sample_pass1, sample_pass2, sample_pass [] [] [] sample_end]"

lemma sample_spoken_run:
  obtains w where "client_of (run_client sample_parser sample_client_config sample_settings True True True 0 0 sample_spoken_passes) =
    sample_committed w"
proof -
  obtain w where w: "run_pass sample_parser sample_pass1 sample_client = Going (sample_waiting w)" using sample_pass1 by blast
  have loop: "run_loop sample_parser sample_spoken_passes sample_client = Going (sample_committed w)"
    unfolding sample_spoken_passes_def run_loop.simps w loop_result.case sample_pass2 sample_commit_pass by (rule refl)
  have "run_client sample_parser sample_client_config sample_settings True True True 0 0 sample_spoken_passes = Going (sample_committed w)"
    unfolding run_client_def sample_client_start loop_result.case by (rule loop)
  then show thesis by (intro that [of w]) (simp only: client_of_simps)
qed

lemma sample_spoken_fields:
  "c_taken (sample_committed w) = [sample_wake, sample_voice, sample_end]" "c_transport (sample_committed w) \<noteq> None"
  "length (payloads (since_start (c_wire (sample_committed w)))) = 3"
proof -
  have wire: "\<exists>w' ctl json p0 p1 p2 ctl' json'. c_wire (sample_committed w) = w' @ [Out_Text ctl json, Out_Frame p0, Out_Frame p1, Out_Frame p2, Out_Text ctl' json'] \<and>
      ctl_kind ctl = Ctl_TurnStart \<and> ctl_kind ctl' = Ctl_TurnCommit"
    by (simp add: sample_committed_def turn_committed_def Let_def wait_for_response_def ui_call_def sample_before_commit_def
        sample_captured_def turn_started_def sample_turn_begins_fields upload_frames_def upt_conv_Cons make_control_def)
  then show "length (payloads (since_start (c_wire (sample_committed w)))) = 3"
    by (auto simp: since_start_append starts_turn_def payloads_def)
  show "c_taken (sample_committed w) = [sample_wake, sample_voice, sample_end]" "c_transport (sample_committed w) \<noteq> None"
    by (simp_all add: sample_committed_def turn_committed_def Let_def wait_for_response_def ui_call_def sample_before_commit_def)
qed

theorem turn_is_what_was_captured_witness:
  "payloads (since_start (c_wire (client_of (run_client sample_parser sample_client_config sample_settings True True True 0 0
     sample_spoken_passes)))) = map (sample_bytes \<circ> cf_pcm) [sample_wake, sample_voice, sample_end]"
proof -
  obtain w where w: "client_of (run_client sample_parser sample_client_config sample_settings True True True 0 0 sample_spoken_passes) =
    sample_committed w" by (rule sample_spoken_run)
  obtain t where t: "c_transport (sample_committed w) = Some t" using sample_spoken_fields(2) by blast
  have vol: "volume_percent sample_client_config \<le> 100" by (simp add: sample_client_config_def)
  obtain buffered live earlier later where
    p: "payloads (since_start (c_wire (sample_committed w))) = map (sample_bytes \<circ> cf_pcm) (buffered @ live)"
      "[sample_wake, sample_voice, sample_end] = earlier @ live @ later" "subseq buffered earlier"
    using turn_is_what_was_captured [OF vol w [symmetric] t] unfolding sample_spoken_fields(1) by blast
  have "length (buffered @ live) = 3" using sample_spoken_fields(3) [of w] p(1) by simp
  moreover have "subseq (buffered @ live) [sample_wake, sample_voice, sample_end]"
    unfolding p(2) using p(3) by (intro list_emb_append_mono subseq_rev_drop_many) simp_all
  ultimately have "buffered @ live = [sample_wake, sample_voice, sample_end]"
    by (intro subseq_same_length) simp_all
  then show ?thesis unfolding w p(1) by simp
qed

end
