(* ===== verification/ClientDisplay.thy ===== *)
theory ClientDisplay
  imports ClientSample
begin

section \<open>What the user sees of the conversation\<close>

text \<open>
  The state the actor shows on the display (\<^verbatim>\<open>ui_.SetState\<close>) against the state it is in
  (\<^verbatim>\<open>state_\<close>): the calls are spread over a dozen methods of
  \<^verbatim>\<open>voice_client.cpp\<close>, and the display only knows the last one.
\<close>

subsection \<open>The face of a state\<close>

text \<open>What the display shows after the calls made on it; it starts with \<^verbatim>\<open>kIdle\<close>.\<close>

definition face :: "client \<Rightarrow> device_ui_state" where
  "face c = fold (\<lambda>u s. case u of Call_State x \<Rightarrow> x | _ \<Rightarrow> s) (c_ui c) Ui_Idle"

text \<open>While a cancellation is pending the display keeps what it showed.\<close>

definition faces :: "client_state \<Rightarrow> device_ui_state set" where
  "faces s = (case s of
     St_WaitingForWake \<Rightarrow> {Ui_Idle}
   | St_WaitingForSpeech \<Rightarrow> {Ui_Listening}
   | St_CapturingSpeech \<Rightarrow> {Ui_Listening}
   | St_WaitingForResponse \<Rightarrow> {Ui_Thinking}
   | St_PlayingResponse \<Rightarrow> {Ui_Speaking}
   | St_DrainingPlayback \<Rightarrow> {Ui_SpeakingTail}
   | St_WaitingForFollowUp \<Rightarrow> {Ui_Happy}
   | St_CancelPending \<Rightarrow> UNIV)"

lemma faces_simps [simp]:
  "faces St_WaitingForWake = {Ui_Idle}" "faces St_WaitingForSpeech = {Ui_Listening}"
  "faces St_CapturingSpeech = {Ui_Listening}" "faces St_WaitingForResponse = {Ui_Thinking}"
  "faces St_PlayingResponse = {Ui_Speaking}" "faces St_DrainingPlayback = {Ui_SpeakingTail}"
  "faces St_WaitingForFollowUp = {Ui_Happy}" "faces St_CancelPending = UNIV"
  by (simp_all add: faces_def)

text \<open>\<open>good n\<close>: in session \<open>n\<close>, with the face of the state. \<open>gone\<close>: the connection has been given up.\<close>

definition good :: "u32 \<Rightarrow> client \<Rightarrow> bool" where
  "good n c \<longleftrightarrow> session (c_turn_ids c) = n \<and> face c \<in> faces (c_state c)"

definition gone :: "client \<Rightarrow> bool" where
  "gone c \<longleftrightarrow> session (c_turn_ids c) = 0 \<and> c_state c = St_WaitingForWake \<and> face c = Ui_Offline \<and>
     c_transport c = None \<and> queue_events (c_events c) = []"

definition steady :: "u32 \<Rightarrow> client \<Rightarrow> bool" where
  "steady n c \<longleftrightarrow> good n c \<or> gone c"

text \<open>Most fields are not looked at.\<close>

lemma face_fields [simp]:
  "face (c\<lparr>c_endpoint := x0\<rparr>) = face c" "face (c\<lparr>c_error := x1\<rparr>) = face c"
  "face (c\<lparr>c_audio := x2\<rparr>) = face c" "face (c\<lparr>c_settings := x3\<rparr>) = face c"
  "face (c\<lparr>c_transport := x4\<rparr>) = face c" "face (c\<lparr>c_wire := x5\<rparr>) = face c"
  "face (c\<lparr>c_events := x6\<rparr>) = face c" "face (c\<lparr>c_endpoint_ready := x7\<rparr>) = face c"
  "face (c\<lparr>c_network_needed := x8\<rparr>) = face c" "face (c\<lparr>c_pre := x9\<rparr>) = face c"
  "face (c\<lparr>c_pre_head := x10\<rparr>) = face c" "face (c\<lparr>c_pre_count := x11\<rparr>) = face c"
  "face (c\<lparr>c_turn_ids := x12\<rparr>) = face c" "face (c\<lparr>c_response_ids := x13\<rparr>) = face c"
  "face (c\<lparr>c_state := x14\<rparr>) = face c" "face (c\<lparr>c_state_deadline := x15\<rparr>) = face c"
  "face (c\<lparr>c_next_connect := x16\<rparr>) = face c"
  "face (c\<lparr>c_heartbeat_deadline := x17\<rparr>) = face c"
  "face (c\<lparr>c_await_hint_at := x18\<rparr>) = face c"
  "face (c\<lparr>c_audio_origin_us := x19\<rparr>) = face c"
  "face (c\<lparr>c_next_capture_sequence := x20\<rparr>) = face c"
  "face (c\<lparr>c_message := x21\<rparr>) = face c" "face (c\<lparr>c_uplink_sequence := x22\<rparr>) = face c"
  "face (c\<lparr>c_subtitle := x23\<rparr>) = face c" "face (c\<lparr>c_reconnect_attempt := x24\<rparr>) = face c"
  "face (c\<lparr>c_follow_up_near_frames := x25\<rparr>) = face c"
  "face (c\<lparr>c_barge_probe_frames := x26\<rparr>) = face c"
  "face (c\<lparr>c_barge_cooldown_frames := x27\<rparr>) = face c"
  "face (c\<lparr>c_barge_quiet_frames := x28\<rparr>) = face c"
  "face (c\<lparr>c_barge_silence_frames := x29\<rparr>) = face c" "face (c\<lparr>c_volume := x30\<rparr>) = face c"
  "face (c\<lparr>c_brightness := x31\<rparr>) = face c"
  "face (c\<lparr>c_await_hint_pending := x32\<rparr>) = face c"
  "face (c\<lparr>c_await_hint_visible := x33\<rparr>) = face c"
  "face (c\<lparr>c_barge_probe := x34\<rparr>) = face c" "face (c\<lparr>c_hello_sent := x35\<rparr>) = face c"
  "face (c\<lparr>c_barge_ended := x36\<rparr>) = face c"
  "face (c\<lparr>c_barge_turn_admitted := x37\<rparr>) = face c"
  "face (c\<lparr>c_barge_buffer_overflow := x38\<rparr>) = face c"
  "face (c\<lparr>c_manual_wake_pending := x39\<rparr>) = face c"
  "face (c\<lparr>c_finish_after_cancel_ack := x40\<rparr>) = face c"
  "face (c\<lparr>c_listener_failed := x41\<rparr>) = face c" "face (c\<lparr>c_now := x42\<rparr>) = face c"
  "face (c\<lparr>c_sends := x43\<rparr>) = face c" "face (c\<lparr>c_handshakes := x44\<rparr>) = face c"
  "face (c\<lparr>c_playback_pc := x45\<rparr>) = face c" "face (c\<lparr>c_accepted := x46\<rparr>) = face c"
  "face (c\<lparr>c_rendered := x47\<rparr>) = face c" "face (c\<lparr>c_taken := x48\<rparr>) = face c"
  by (simp_all add: face_def)

lemma face_call [simp]: "face (ui_call u c) = (case u of Call_State x \<Rightarrow> x | _ \<Rightarrow> face c)"
  by (simp add: face_def ui_call_def split: ui_call.split)

lemma good_fields [simp]:
  "good n (c\<lparr>c_endpoint := x0\<rparr>) = good n c" "good n (c\<lparr>c_error := x1\<rparr>) = good n c"
  "good n (c\<lparr>c_audio := x2\<rparr>) = good n c" "good n (c\<lparr>c_settings := x3\<rparr>) = good n c"
  "good n (c\<lparr>c_wire := x4\<rparr>) = good n c" "good n (c\<lparr>c_endpoint_ready := x5\<rparr>) = good n c"
  "good n (c\<lparr>c_network_needed := x6\<rparr>) = good n c" "good n (c\<lparr>c_pre := x7\<rparr>) = good n c"
  "good n (c\<lparr>c_pre_head := x8\<rparr>) = good n c" "good n (c\<lparr>c_pre_count := x9\<rparr>) = good n c"
  "good n (c\<lparr>c_response_ids := x10\<rparr>) = good n c"
  "good n (c\<lparr>c_state_deadline := x11\<rparr>) = good n c"
  "good n (c\<lparr>c_next_connect := x12\<rparr>) = good n c"
  "good n (c\<lparr>c_heartbeat_deadline := x13\<rparr>) = good n c"
  "good n (c\<lparr>c_await_hint_at := x14\<rparr>) = good n c"
  "good n (c\<lparr>c_audio_origin_us := x15\<rparr>) = good n c"
  "good n (c\<lparr>c_next_capture_sequence := x16\<rparr>) = good n c"
  "good n (c\<lparr>c_message := x17\<rparr>) = good n c"
  "good n (c\<lparr>c_uplink_sequence := x18\<rparr>) = good n c"
  "good n (c\<lparr>c_subtitle := x19\<rparr>) = good n c"
  "good n (c\<lparr>c_reconnect_attempt := x20\<rparr>) = good n c"
  "good n (c\<lparr>c_follow_up_near_frames := x21\<rparr>) = good n c"
  "good n (c\<lparr>c_barge_probe_frames := x22\<rparr>) = good n c"
  "good n (c\<lparr>c_barge_cooldown_frames := x23\<rparr>) = good n c"
  "good n (c\<lparr>c_barge_quiet_frames := x24\<rparr>) = good n c"
  "good n (c\<lparr>c_barge_silence_frames := x25\<rparr>) = good n c"
  "good n (c\<lparr>c_volume := x26\<rparr>) = good n c" "good n (c\<lparr>c_brightness := x27\<rparr>) = good n c"
  "good n (c\<lparr>c_await_hint_pending := x28\<rparr>) = good n c"
  "good n (c\<lparr>c_await_hint_visible := x29\<rparr>) = good n c"
  "good n (c\<lparr>c_barge_probe := x30\<rparr>) = good n c"
  "good n (c\<lparr>c_hello_sent := x31\<rparr>) = good n c"
  "good n (c\<lparr>c_barge_ended := x32\<rparr>) = good n c"
  "good n (c\<lparr>c_barge_turn_admitted := x33\<rparr>) = good n c"
  "good n (c\<lparr>c_barge_buffer_overflow := x34\<rparr>) = good n c"
  "good n (c\<lparr>c_manual_wake_pending := x35\<rparr>) = good n c"
  "good n (c\<lparr>c_finish_after_cancel_ack := x36\<rparr>) = good n c"
  "good n (c\<lparr>c_listener_failed := x37\<rparr>) = good n c" "good n (c\<lparr>c_now := x38\<rparr>) = good n c"
  "good n (c\<lparr>c_sends := x39\<rparr>) = good n c" "good n (c\<lparr>c_handshakes := x40\<rparr>) = good n c"
  "good n (c\<lparr>c_playback_pc := x41\<rparr>) = good n c" "good n (c\<lparr>c_accepted := x42\<rparr>) = good n c"
  "good n (c\<lparr>c_rendered := x43\<rparr>) = good n c" "good n (c\<lparr>c_taken := x44\<rparr>) = good n c"
  by (simp_all add: good_def)

lemma gone_fields [simp]:
  "gone (c\<lparr>c_endpoint := x0\<rparr>) = gone c" "gone (c\<lparr>c_error := x1\<rparr>) = gone c"
  "gone (c\<lparr>c_audio := x2\<rparr>) = gone c" "gone (c\<lparr>c_settings := x3\<rparr>) = gone c"
  "gone (c\<lparr>c_wire := x4\<rparr>) = gone c" "gone (c\<lparr>c_endpoint_ready := x5\<rparr>) = gone c"
  "gone (c\<lparr>c_network_needed := x6\<rparr>) = gone c" "gone (c\<lparr>c_pre := x7\<rparr>) = gone c"
  "gone (c\<lparr>c_pre_head := x8\<rparr>) = gone c" "gone (c\<lparr>c_pre_count := x9\<rparr>) = gone c"
  "gone (c\<lparr>c_response_ids := x10\<rparr>) = gone c" "gone (c\<lparr>c_state_deadline := x11\<rparr>) = gone c"
  "gone (c\<lparr>c_next_connect := x12\<rparr>) = gone c"
  "gone (c\<lparr>c_heartbeat_deadline := x13\<rparr>) = gone c"
  "gone (c\<lparr>c_await_hint_at := x14\<rparr>) = gone c"
  "gone (c\<lparr>c_audio_origin_us := x15\<rparr>) = gone c"
  "gone (c\<lparr>c_next_capture_sequence := x16\<rparr>) = gone c"
  "gone (c\<lparr>c_message := x17\<rparr>) = gone c" "gone (c\<lparr>c_uplink_sequence := x18\<rparr>) = gone c"
  "gone (c\<lparr>c_subtitle := x19\<rparr>) = gone c" "gone (c\<lparr>c_reconnect_attempt := x20\<rparr>) = gone c"
  "gone (c\<lparr>c_follow_up_near_frames := x21\<rparr>) = gone c"
  "gone (c\<lparr>c_barge_probe_frames := x22\<rparr>) = gone c"
  "gone (c\<lparr>c_barge_cooldown_frames := x23\<rparr>) = gone c"
  "gone (c\<lparr>c_barge_quiet_frames := x24\<rparr>) = gone c"
  "gone (c\<lparr>c_barge_silence_frames := x25\<rparr>) = gone c" "gone (c\<lparr>c_volume := x26\<rparr>) = gone c"
  "gone (c\<lparr>c_brightness := x27\<rparr>) = gone c"
  "gone (c\<lparr>c_await_hint_pending := x28\<rparr>) = gone c"
  "gone (c\<lparr>c_await_hint_visible := x29\<rparr>) = gone c"
  "gone (c\<lparr>c_barge_probe := x30\<rparr>) = gone c" "gone (c\<lparr>c_hello_sent := x31\<rparr>) = gone c"
  "gone (c\<lparr>c_barge_ended := x32\<rparr>) = gone c"
  "gone (c\<lparr>c_barge_turn_admitted := x33\<rparr>) = gone c"
  "gone (c\<lparr>c_barge_buffer_overflow := x34\<rparr>) = gone c"
  "gone (c\<lparr>c_manual_wake_pending := x35\<rparr>) = gone c"
  "gone (c\<lparr>c_finish_after_cancel_ack := x36\<rparr>) = gone c"
  "gone (c\<lparr>c_listener_failed := x37\<rparr>) = gone c" "gone (c\<lparr>c_now := x38\<rparr>) = gone c"
  "gone (c\<lparr>c_sends := x39\<rparr>) = gone c" "gone (c\<lparr>c_handshakes := x40\<rparr>) = gone c"
  "gone (c\<lparr>c_playback_pc := x41\<rparr>) = gone c" "gone (c\<lparr>c_accepted := x42\<rparr>) = gone c"
  "gone (c\<lparr>c_rendered := x43\<rparr>) = gone c" "gone (c\<lparr>c_taken := x44\<rparr>) = gone c"
  by (simp_all add: gone_def)

lemma steady_fields [simp]:
  "steady n (c\<lparr>c_endpoint := x0\<rparr>) = steady n c" "steady n (c\<lparr>c_error := x1\<rparr>) = steady n c"
  "steady n (c\<lparr>c_audio := x2\<rparr>) = steady n c" "steady n (c\<lparr>c_settings := x3\<rparr>) = steady n c"
  "steady n (c\<lparr>c_wire := x4\<rparr>) = steady n c"
  "steady n (c\<lparr>c_endpoint_ready := x5\<rparr>) = steady n c"
  "steady n (c\<lparr>c_network_needed := x6\<rparr>) = steady n c"
  "steady n (c\<lparr>c_pre := x7\<rparr>) = steady n c" "steady n (c\<lparr>c_pre_head := x8\<rparr>) = steady n c"
  "steady n (c\<lparr>c_pre_count := x9\<rparr>) = steady n c"
  "steady n (c\<lparr>c_response_ids := x10\<rparr>) = steady n c"
  "steady n (c\<lparr>c_state_deadline := x11\<rparr>) = steady n c"
  "steady n (c\<lparr>c_next_connect := x12\<rparr>) = steady n c"
  "steady n (c\<lparr>c_heartbeat_deadline := x13\<rparr>) = steady n c"
  "steady n (c\<lparr>c_await_hint_at := x14\<rparr>) = steady n c"
  "steady n (c\<lparr>c_audio_origin_us := x15\<rparr>) = steady n c"
  "steady n (c\<lparr>c_next_capture_sequence := x16\<rparr>) = steady n c"
  "steady n (c\<lparr>c_message := x17\<rparr>) = steady n c"
  "steady n (c\<lparr>c_uplink_sequence := x18\<rparr>) = steady n c"
  "steady n (c\<lparr>c_subtitle := x19\<rparr>) = steady n c"
  "steady n (c\<lparr>c_reconnect_attempt := x20\<rparr>) = steady n c"
  "steady n (c\<lparr>c_follow_up_near_frames := x21\<rparr>) = steady n c"
  "steady n (c\<lparr>c_barge_probe_frames := x22\<rparr>) = steady n c"
  "steady n (c\<lparr>c_barge_cooldown_frames := x23\<rparr>) = steady n c"
  "steady n (c\<lparr>c_barge_quiet_frames := x24\<rparr>) = steady n c"
  "steady n (c\<lparr>c_barge_silence_frames := x25\<rparr>) = steady n c"
  "steady n (c\<lparr>c_volume := x26\<rparr>) = steady n c"
  "steady n (c\<lparr>c_brightness := x27\<rparr>) = steady n c"
  "steady n (c\<lparr>c_await_hint_pending := x28\<rparr>) = steady n c"
  "steady n (c\<lparr>c_await_hint_visible := x29\<rparr>) = steady n c"
  "steady n (c\<lparr>c_barge_probe := x30\<rparr>) = steady n c"
  "steady n (c\<lparr>c_hello_sent := x31\<rparr>) = steady n c"
  "steady n (c\<lparr>c_barge_ended := x32\<rparr>) = steady n c"
  "steady n (c\<lparr>c_barge_turn_admitted := x33\<rparr>) = steady n c"
  "steady n (c\<lparr>c_barge_buffer_overflow := x34\<rparr>) = steady n c"
  "steady n (c\<lparr>c_manual_wake_pending := x35\<rparr>) = steady n c"
  "steady n (c\<lparr>c_finish_after_cancel_ack := x36\<rparr>) = steady n c"
  "steady n (c\<lparr>c_listener_failed := x37\<rparr>) = steady n c"
  "steady n (c\<lparr>c_now := x38\<rparr>) = steady n c" "steady n (c\<lparr>c_sends := x39\<rparr>) = steady n c"
  "steady n (c\<lparr>c_handshakes := x40\<rparr>) = steady n c"
  "steady n (c\<lparr>c_playback_pc := x41\<rparr>) = steady n c"
  "steady n (c\<lparr>c_accepted := x42\<rparr>) = steady n c"
  "steady n (c\<lparr>c_rendered := x43\<rparr>) = steady n c"
  "steady n (c\<lparr>c_taken := x44\<rparr>) = steady n c"
  by (simp_all add: steady_def)

lemma good_link [simp]:
  "good n (c\<lparr>c_transport := t\<rparr>) = good n c" "good n (c\<lparr>c_events := q\<rparr>) = good n c"
  "good n (c\<lparr>c_state := s\<rparr>) \<longleftrightarrow> session (c_turn_ids c) = n \<and> face c \<in> faces s"
  by (simp_all add: good_def)

subsection \<open>Operations\<close>

lemma face_helpers [simp]:
  "face (on_audio g c) = face c" "face (save_ui_settings c) = face c" "face (clear_subtitle c) = face c"
  "face (mark_first_response_progress c) = face c" "face (show_text s c) = face c" "face (reset_barge_turn c) = face c"
  "face (reset_barge_probe c) = face c" "face (reject_barge_probe c) = face c" "face (advance_turn c) = face c"
  "face (apply_volume v b c) = face c" "face (keep_newest_pre_roll k c) = face c" "face (save_pre_roll f c) = face c"
  "face (track_barge_utterance f c) = face c" "face (thaw_barge f c) = face c" "face (store_frame f c) = face c"
  by (simp_all add: on_audio_def save_ui_settings_def clear_subtitle_def mark_first_response_progress_def show_text_def
      reset_barge_turn_def reset_barge_probe_def reject_barge_probe_def advance_turn_def apply_volume_def
      keep_newest_pre_roll_def save_pre_roll_def track_barge_utterance_def thaw_barge_def store_frame_def Let_def split: prod.split)

lemma face_listener [simp]: "face (reset_listener c) = face c"
  using reset_listener_form [of c] by auto

lemma face_close [simp]: "face (close_wire c) = face c"
  by (simp add: close_wire_def split: option.split prod.split)

lemma listener_events [simp]: "c_events (reset_listener c) = c_events c"
  using reset_listener_form [of c] by auto

text \<open>Operations without a call on the display, a change of state or of the connection.\<close>

lemma quiet_fields [simp]:
  "c_state (show_text s c) = c_state c" "c_turn_ids (show_text s c) = c_turn_ids c"
  "c_state (reject_barge_probe c) = c_state c" "c_turn_ids (reject_barge_probe c) = c_turn_ids c"
  "c_state (apply_volume v b c) = c_state c" "c_turn_ids (apply_volume v b c) = c_turn_ids c"
  "c_state (save_ui_settings c) = c_state c" "c_turn_ids (save_ui_settings c) = c_turn_ids c"
  "c_state (keep_newest_pre_roll k c) = c_state c" "c_turn_ids (keep_newest_pre_roll k c) = c_turn_ids c"
  "c_state (save_pre_roll f c) = c_state c" "c_turn_ids (save_pre_roll f c) = c_turn_ids c"
  "c_state (track_barge_utterance f c) = c_state c" "c_turn_ids (track_barge_utterance f c) = c_turn_ids c"
  "c_state (thaw_barge f c) = c_state c" "c_turn_ids (thaw_barge f c) = c_turn_ids c"
  "c_state (store_frame f c) = c_state c" "c_turn_ids (store_frame f c) = c_turn_ids c"
  by (simp_all add: ui_call_def show_text_def reject_barge_probe_def apply_volume_def save_ui_settings_def keep_newest_pre_roll_def
      save_pre_roll_def track_barge_utterance_def thaw_barge_def store_frame_def Let_def split: prod.split)

lemma good_helpers [simp]:
  "good n (on_audio g c) = good n c" "good n (save_ui_settings c) = good n c" "good n (clear_subtitle c) = good n c"
  "good n (mark_first_response_progress c) = good n c" "good n (show_text s c) = good n c"
  "good n (reset_barge_turn c) = good n c" "good n (reset_barge_probe c) = good n c" "good n (reject_barge_probe c) = good n c"
  "good n (advance_turn c) = good n c" "good n (apply_volume v b c) = good n c" "good n (keep_newest_pre_roll k c) = good n c"
  "good n (save_pre_roll f c) = good n c" "good n (track_barge_utterance f c) = good n c" "good n (thaw_barge f c) = good n c"
  "good n (store_frame f c) = good n c" "good n (reset_listener c) = good n c"
  by (simp_all add: good_def)

lemma good_call [simp]: "good n (ui_call u c) \<longleftrightarrow> session (c_turn_ids c) = n \<and> face (ui_call u c) \<in> faces (c_state c)"
  by (simp add: good_def)

lemma gone_lose [simp]: "gone (lose_connection c)"
  using lose_fields [of c] by (simp add: gone_def no_ids_def) (simp add: lose_connection_def Let_def)

lemma steady_lose [simp]: "steady n (lose_connection c)"
  by (simp add: steady_def)

lemma good_steady: "good n c \<Longrightarrow> steady n c"
  by (simp add: steady_def)

lemma good_send: "client_send k ids c = (ok, c') \<Longrightarrow> good n c' = good n c"
  using client_send_form [of k ids c ok c'] by (auto simp: good_def)

lemma good_send_fields: "client_send k ids c = (ok, c') \<Longrightarrow> face c' = face c \<and> c_state c' = c_state c \<and> c_turn_ids c' = c_turn_ids c"
  using client_send_form [of k ids c ok c'] by auto

lemma steady_abort: "good n c \<Longrightarrow> steady n (abort_current c)"
  by (auto simp: abort_current_def Let_def good_def steady_def dest: good_send_fields split: prod.split bool.split)

lemma steady_confirm: "good n c \<Longrightarrow> steady n (confirm_barge c)"
  by (auto simp: confirm_barge_def Let_def good_def steady_def dest: good_send_fields split: prod.split bool.split)

lemma good_finish: "good n c \<Longrightarrow> good n (finish_turn b c)"
  by (simp add: finish_turn_def Let_def good_def)

lemma good_begin: "good n c \<Longrightarrow> good n (begin_listening c)"
  by (simp add: begin_listening_def good_def)

lemma steady_recover:
  assumes "good n c" and "send_audio_or_recover f b c = (ok, c')"
  shows "if ok then good n c' else steady n c'"
proof -
  obtain out c1 where s: "send_audio f b c = (out, c1)" by fastforce
  have "good n c1" using send_audio_form [OF s] assms(1) by (auto simp: good_def)
  then show ?thesis
    using assms(2) steady_abort [of n c1] by (auto simp: send_audio_or_recover_def s split: send_outcome.splits)
qed

lemma steady_upload: "good n c \<Longrightarrow> upload b fs c = (ok, c') \<Longrightarrow> if ok then good n c' else steady n c'"
proof (induction fs arbitrary: c)
  case (Cons f fs)
  obtain ok1 c1 where s: "send_audio_or_recover f (b \<and> fs = []) c = (ok1, c1)" by fastforce
  show ?case using steady_recover [OF Cons.prems(1) s] Cons.prems(2) Cons.IH [of c1] s by (cases ok1) auto
qed simp

lemma good_wait: "good n c \<Longrightarrow> good n (wait_for_response c)"
  by (simp add: wait_for_response_def good_def)

lemma steady_send_commit: "good n c \<Longrightarrow> steady n (snd (send_commit c))"
  by (auto simp: send_commit_def good_send good_steady good_wait split: prod.split bool.split)

lemma steady_commit: "good n c \<Longrightarrow> steady n (commit f c)"
  using steady_recover [of n c f True] steady_send_commit by (auto simp: commit_def split: prod.split bool.split)

lemma steady_start_turn:
  assumes "good n c"
  shows "steady n (snd (start_turn b c))"
proof -
  obtain ok c1 where s: "client_send Ctl_TurnStart (c_turn_ids c) c = (ok, c1)" by fastforce
  define c2 where "c2 = ui_call (Call_State Ui_Listening) (c1\<lparr>c_uplink_sequence := 0, c_state := St_CapturingSpeech,
                     c_state_deadline := c_now c1 + k_maximum_turn_wait\<rparr>)"
  have "good n c2" using assms good_send_fields [OF s] by (simp add: c2_def good_def)
  moreover obtain ok' c3 where u: "upload b (pre_roll c2) c2 = (ok', c3)" by fastforce
  ultimately have "if ok' then good n c3 else steady n c3" by (rule steady_upload)
  then show ?thesis
    using steady_send_commit [of n "c3\<lparr>c_pre_head := 0, c_pre_count := 0\<rparr>"]
    by (simp add: start_turn_def Let_def s c2_def [symmetric] u good_steady split: bool.split)
qed

lemma steady_resume: "good n c \<Longrightarrow> steady n (resume_after_barge c)"
  by (simp add: resume_after_barge_def Let_def good_steady good_finish steady_start_turn)

lemma steady_cancel: "good n c \<Longrightarrow> steady n (complete_cancel c)"
  by (simp add: complete_cancel_def good_steady good_finish steady_resume)

lemma steady_deadlines: "good n c \<Longrightarrow> steady n (snd (advance_deadlines c))"
  by (auto simp: advance_deadlines_def good_steady good_finish steady_abort) (auto simp: steady_def good_def)

text \<open>Without a session, only what opens one can arrive.\<close>

definition dormant :: "transport \<Rightarrow> bool" where
  "dormant t \<longleftrightarrow> \<not> t_active t \<and> \<not> t_response_done t \<and> \<not> t_audio_started t"

definition greeting :: "inbound \<Rightarrow> bool" where
  "greeting e \<longleftrightarrow> in_kind e = In_HelloAck \<or> in_kind e = In_Heartbeat \<or> in_kind e = In_Error"

definition offline :: "client \<Rightarrow> bool" where
  "offline c \<longleftrightarrow> session (c_turn_ids c) = 0 \<and> c_state c = St_WaitingForWake \<and> (face c = Ui_Offline \<or> face c = Ui_Idle) \<and>
     (\<forall>t. c_transport c = Some t \<longrightarrow> dormant t) \<and> list_all greeting (queue_events (c_events c))"

definition display_inv :: "client \<Rightarrow> bool" where
  "display_inv c \<longleftrightarrow> (if session (c_turn_ids c) = 0 then offline c else face c \<in> faces (c_state c))"

lemma gone_offline: "gone c \<Longrightarrow> offline c"
  by (simp add: gone_def offline_def)

lemma display_steady: "n \<noteq> 0 \<Longrightarrow> steady n c \<Longrightarrow> display_inv c"
  using gone_offline [of c] by (auto simp: steady_def good_def display_inv_def offline_def)

lemma display_offline: "offline c \<Longrightarrow> display_inv c"
  by (simp add: display_inv_def offline_def)

lemma display_cases:
  assumes "display_inv c"
  obtains "offline c" | n where "n \<noteq> 0" "good n c"
  using assms that by (cases "session (c_turn_ids c) = 0") (auto simp: display_inv_def good_def)

lemma offline_fields [simp]:
  "offline (c\<lparr>c_endpoint := x0\<rparr>) = offline c" "offline (c\<lparr>c_error := x1\<rparr>) = offline c"
  "offline (c\<lparr>c_audio := x2\<rparr>) = offline c" "offline (c\<lparr>c_settings := x3\<rparr>) = offline c"
  "offline (c\<lparr>c_wire := x4\<rparr>) = offline c" "offline (c\<lparr>c_endpoint_ready := x5\<rparr>) = offline c"
  "offline (c\<lparr>c_network_needed := x6\<rparr>) = offline c" "offline (c\<lparr>c_pre := x7\<rparr>) = offline c"
  "offline (c\<lparr>c_pre_head := x8\<rparr>) = offline c" "offline (c\<lparr>c_pre_count := x9\<rparr>) = offline c"
  "offline (c\<lparr>c_response_ids := x10\<rparr>) = offline c" "offline (c\<lparr>c_state_deadline := x11\<rparr>) = offline c"
  "offline (c\<lparr>c_next_connect := x12\<rparr>) = offline c"
  "offline (c\<lparr>c_heartbeat_deadline := x13\<rparr>) = offline c"
  "offline (c\<lparr>c_await_hint_at := x14\<rparr>) = offline c"
  "offline (c\<lparr>c_audio_origin_us := x15\<rparr>) = offline c"
  "offline (c\<lparr>c_next_capture_sequence := x16\<rparr>) = offline c"
  "offline (c\<lparr>c_message := x17\<rparr>) = offline c" "offline (c\<lparr>c_uplink_sequence := x18\<rparr>) = offline c"
  "offline (c\<lparr>c_subtitle := x19\<rparr>) = offline c" "offline (c\<lparr>c_reconnect_attempt := x20\<rparr>) = offline c"
  "offline (c\<lparr>c_follow_up_near_frames := x21\<rparr>) = offline c"
  "offline (c\<lparr>c_barge_probe_frames := x22\<rparr>) = offline c"
  "offline (c\<lparr>c_barge_cooldown_frames := x23\<rparr>) = offline c"
  "offline (c\<lparr>c_barge_quiet_frames := x24\<rparr>) = offline c"
  "offline (c\<lparr>c_barge_silence_frames := x25\<rparr>) = offline c" "offline (c\<lparr>c_volume := x26\<rparr>) = offline c"
  "offline (c\<lparr>c_brightness := x27\<rparr>) = offline c"
  "offline (c\<lparr>c_await_hint_pending := x28\<rparr>) = offline c"
  "offline (c\<lparr>c_await_hint_visible := x29\<rparr>) = offline c"
  "offline (c\<lparr>c_barge_probe := x30\<rparr>) = offline c" "offline (c\<lparr>c_hello_sent := x31\<rparr>) = offline c"
  "offline (c\<lparr>c_barge_ended := x32\<rparr>) = offline c"
  "offline (c\<lparr>c_barge_turn_admitted := x33\<rparr>) = offline c"
  "offline (c\<lparr>c_barge_buffer_overflow := x34\<rparr>) = offline c"
  "offline (c\<lparr>c_manual_wake_pending := x35\<rparr>) = offline c"
  "offline (c\<lparr>c_finish_after_cancel_ack := x36\<rparr>) = offline c"
  "offline (c\<lparr>c_listener_failed := x37\<rparr>) = offline c" "offline (c\<lparr>c_now := x38\<rparr>) = offline c"
  "offline (c\<lparr>c_sends := x39\<rparr>) = offline c" "offline (c\<lparr>c_handshakes := x40\<rparr>) = offline c"
  "offline (c\<lparr>c_playback_pc := x41\<rparr>) = offline c" "offline (c\<lparr>c_accepted := x42\<rparr>) = offline c"
  "offline (c\<lparr>c_rendered := x43\<rparr>) = offline c" "offline (c\<lparr>c_taken := x44\<rparr>) = offline c"
  by (simp_all add: offline_def)

lemma offline_helpers [simp]:
  "offline (on_audio g c) = offline c" "offline (save_ui_settings c) = offline c" "offline (clear_subtitle c) = offline c"
  "offline (mark_first_response_progress c) = offline c" "offline (apply_volume v b c) = offline c"
  "offline (thaw_barge f c) = offline c" "offline (store_frame f c) = offline c" "offline (reset_listener c) = offline c"
proof -
  have a: "c_transport (apply_volume v b c) = c_transport c \<and> c_events (apply_volume v b c) = c_events c"
    by (simp add: apply_volume_def Let_def save_ui_settings_def)
  have t: "c_transport (thaw_barge f c) = c_transport c \<and> c_events (thaw_barge f c) = c_events c"
    by (simp add: thaw_barge_def)
  have s: "c_transport (store_frame f c) = c_transport c \<and> c_events (store_frame f c) = c_events c"
    by (simp add: store_frame_def save_pre_roll_def Let_def)
  show "offline (on_audio g c) = offline c" "offline (save_ui_settings c) = offline c" "offline (clear_subtitle c) = offline c"
    "offline (mark_first_response_progress c) = offline c" "offline (apply_volume v b c) = offline c"
    "offline (thaw_barge f c) = offline c" "offline (store_frame f c) = offline c" "offline (reset_listener c) = offline c"
    by (simp_all add: offline_def a t s) (simp_all add: save_ui_settings_def)
qed

lemma offline_call: "offline c \<Longrightarrow> x = Ui_Offline \<or> x = Ui_Idle \<Longrightarrow> offline (ui_call (Call_State x) c)"
  by (auto simp: offline_def)

lemma offline_other_call [simp]:
  "offline (ui_call (Call_Volume v) c) = offline c" "offline (ui_call (Call_Brightness v) c) = offline c"
  by (simp_all add: offline_def)

lemma offline_lose [simp]: "offline (lose_connection c)"
  by (rule gone_offline) simp

subsection \<open>The phases of a pass\<close>

lemma display_lose: "display_inv (lose_connection c)"
  by (rule display_offline) simp

lemma display_finish_connect:
  assumes "display_inv c"
  shows "display_inv (finish_connect c)"
proof -
  obtain ok c1 where s: "client_send Ctl_Hello no_ids c = (ok, c1)" by fastforce
  from assms show ?thesis
  proof (cases rule: display_cases)
    case 1
    have "offline c1"
    proof (cases "c_transport c")
      case None
      then have "c1 = c\<lparr>c_message := c_message c + 1\<rparr>" using s by (auto simp: client_send_def Let_def)
      then show ?thesis using 1 by simp
    next
      case (Some t)
      obtain env ss where n: "next_send (c\<lparr>c_message := c_message c + 1\<rparr>) = (env, c\<lparr>c_message := c_message c + 1\<rparr>\<lparr>c_sends := ss\<rparr>)"
        using next_send_form by blast
      obtain ok' t' os where r: "send_control env (make_control Ctl_Hello no_ids c) t = (ok', t', os)" by (metis prod_cases3)
      have "t' = t" using r
        by (cases rule: send_control_cases) (auto simp: after_control_def make_control_def)
      then have "c1 = c\<lparr>c_message := c_message c + 1, c_sends := ss, c_transport := Some t, c_wire := c_wire c @ os\<rparr>"
        using s Some n r by (auto simp: client_send_def Let_def)
      then show ?thesis using 1 Some by (simp add: offline_def)
    qed
    then show ?thesis using 1 s
      by (simp add: finish_connect_def display_offline display_lose split: option.split bool.split)
  next
    case (2 n)
    then show ?thesis using s good_send [OF s]
      by (auto simp: finish_connect_def good_steady intro!: display_steady [OF 2(1)] split: option.split bool.split)
  qed
qed

lemma display_start_connect:
  assumes "display_inv c" and "session (c_turn_ids c) = 0"
  shows "display_inv (start_connect db u th n c)"
proof -
  have c: "offline c" using assms by (simp add: display_inv_def)
  define c1 where "c1 = c\<lparr>c_hello_sent := False, c_state_deadline := c_now c + k_connect_wait, c_wire := []\<rparr>"
  define tc where "tc = \<lparr>tc_host = ep_host (c_endpoint c1), tc_port = ep_port (c_endpoint c1),
                     tc_device_id = cfg_device_id (c_config c1), tc_spki_sha256_base64 = ep_spki (c_endpoint c1)\<rparr>"
  obtain ok t where t: "connect db u th tc new_transport = (ok, t)" by fastforce
  have "ok \<Longrightarrow> dormant t"
    using connect_True [of db u th tc new_transport t] t by (auto simp: new_transport_def dormant_def)
  then have "ok \<Longrightarrow> offline (c1\<lparr>c_transport := Some t\<rparr>)" using c by (simp add: c1_def offline_def)
  then show ?thesis
    by (cases n) (simp_all add: start_connect_def Let_def c1_def [symmetric] tc_def [symmetric] t display_lose display_offline split: bool.split)
qed

text \<open>Events.\<close>

lemma begin_fields: "audio_begin c = (ok, c') \<Longrightarrow> c_turn_ids c' = c_turn_ids c \<and> face c' = face c \<and> c_state c' = c_state c"
  using audio_begin_form [of c] by auto

lemma steady_error: "good n c \<Longrightarrow> steady n (handle_error e c)"
  by (simp add: handle_error_def Let_def good_steady good_finish steady_abort steady_cancel)

lemma good_state: "session (c_turn_ids c) = n \<Longrightarrow> face c \<in> faces (c_state c) \<Longrightarrow> good n c"
  by (simp add: good_def)

lemma steady_event:
  assumes "good n c" and "in_kind e \<noteq> In_HelloAck"
  shows "steady n (handle_event e c)"
proof -
  define c1 where "c1 = c\<lparr>c_state_deadline := c_now c + k_response_wait\<rparr>"
  have g: "good n c1" using assms(1) by (simp add: c1_def)
  have "steady n (handle_audio_start c1)"
  proof -
    obtain ok c2 where c2: "audio_begin (mark_first_response_progress c1) = (ok, c2)" by fastforce
    have "session (c_turn_ids c2) = n" using begin_fields [OF c2] g by (simp add: good_def)
    then show ?thesis by (auto simp: handle_audio_start_def c2 intro!: good_steady split: bool.split)
  qed
  moreover have "steady n (handle_pcm e c1)"
    using g by (auto simp: handle_pcm_def audio_queue_def good_steady steady_abort split: option.split prod.split bool.split)
  moreover have "steady n (handle_done c1)"
    using g by (auto simp: handle_done_def Let_def good_def intro!: good_steady good_state split: prod.split bool.split)
  moreover have "steady n (handle_cancelled c1)"
    using g by (simp add: handle_cancelled_def Let_def good_steady good_finish steady_cancel)
  ultimately show ?thesis using assms g steady_error [OF assms(1)]
    by (simp add: handle_event_def Let_def c1_def [symmetric] good_steady split: inbound_kind.split)
qed

lemma display_event:
  assumes "display_inv c" and "in_kind e = In_HelloAck \<Longrightarrow> session (c_turn_ids c) = 0"
    and "session (c_turn_ids c) = 0 \<Longrightarrow> greeting e"
  shows "display_inv (handle_event e c)"
  using assms(1)
proof (cases rule: display_cases)
  case 1
  then have z: "session (c_turn_ids c) = 0" "c_state c = St_WaitingForWake" by (simp_all add: offline_def)
  consider "in_kind e = In_HelloAck" | "in_kind e = In_Heartbeat" | "in_kind e = In_Error"
    using assms(3) z(1) by (auto simp: greeting_def)
  then show ?thesis
  proof cases
    case 1
    define c1 where "c1 = c\<lparr>c_state_deadline := c_now c + k_response_wait\<rparr>"
    have "display_inv (handle_hello_ack e c1)"
      using \<open>offline c\<close> by (simp add: handle_hello_ack_def c1_def display_inv_def offline_def)
    then show ?thesis using 1 z by (simp add: handle_event_def c1_def)
  next
    case 2
    then show ?thesis using \<open>offline c\<close> by (simp add: handle_event_def display_offline)
  next
    case 3
    then show ?thesis using z by (simp add: handle_event_def handle_error_def Let_def display_lose)
  qed
next
  case (2 n)
  then have "in_kind e \<noteq> In_HelloAck" using assms(2) by (auto simp: good_def)
  from display_steady [OF 2(1) steady_event [OF 2(2) this]] show ?thesis .
qed

text \<open>Touches, deadlines and frames.\<close>

lemma display_poll_ui:
  assumes "display_inv c"
  shows "display_inv (poll_ui v a c)"
proof -
  define c1 where "c1 = (case v of None \<Rightarrow> c | Some (percent, committed) \<Rightarrow> apply_volume percent committed c)"
  have p: "poll_ui v a c = poll_ui None a c1" by (simp add: poll_ui_def Let_def c1_def)
  from assms show ?thesis
  proof (cases rule: display_cases)
    case 1
    then have c1: "offline c1" by (simp add: c1_def split: option.split)
    then have "session (c_turn_ids c1) = 0" "c_state c1 = St_WaitingForWake" by (simp_all add: offline_def)
    then have "offline (poll_ui None a c1)" using c1
      by (simp add: poll_ui_def Let_def split: option.split device_ui_action.split)
    then show ?thesis by (simp add: p display_offline)
  next
    case (2 n)
    then have "good n c1" by (simp add: c1_def split: option.split)
    then have "steady n (poll_ui None a c1)"
      by (simp add: poll_ui_def Let_def good_steady steady_abort split: option.split device_ui_action.split)
         (auto simp: good_def intro!: good_steady)
    then show ?thesis using display_steady [OF 2(1)] by (simp add: p)
  qed
qed

lemma display_deadlines:
  assumes "display_inv c"
  shows "display_inv (snd (advance_deadlines c))"
  using assms
proof (cases rule: display_cases)
  case 1
  then show ?thesis using assms by (auto simp: advance_deadlines_def display_lose offline_def)
next
  case (2 n)
  then show ?thesis using display_steady [OF 2(1) steady_deadlines [OF 2(2)]] by simp
qed

lemma steady_gap: "good n c \<Longrightarrow> steady n (on_gap c)"
  by (auto simp: on_gap_def Let_def good_steady steady_abort intro!: good_steady good_state) (simp_all add: good_def)

lemma steady_barge: "good n c \<Longrightarrow> steady n (handle_barge f c)"
  by (simp add: handle_barge_def Let_def good_steady steady_confirm split: barge_probe.split)

lemma steady_frame_state: "good n c \<Longrightarrow> steady n (frame_in_state f c)"
proof -
  assume g: "good n c"
  obtain ok d where s: "send_audio_or_recover f False c = (ok, d)" by fastforce
  have "steady n d" using steady_recover [OF g s] by (auto simp: good_steady split: if_splits)
  then show ?thesis using g s
    by (simp add: frame_in_state_def Let_def good_steady good_begin steady_start_turn steady_commit steady_barge split: client_state.split)
qed

lemma display_on_frame:
  assumes "display_inv c"
  shows "display_inv (on_frame f c)"
  using assms
proof (cases rule: display_cases)
  case 1
  have gap: "offline (on_gap d)" if "offline d" for d
  proof -
    have "c_state d = St_WaitingForWake" using that by (simp add: offline_def)
    then show ?thesis using that by (simp add: on_gap_def Let_def offline_call) (simp add: offline_def)
  qed
  have "offline d \<Longrightarrow> session (c_turn_ids d) = 0" for d by (simp add: offline_def)
  then show ?thesis using 1 gap by (intro display_offline) (simp add: on_frame_def Let_def)
next
  case (2 n)
  have n: "good n d \<Longrightarrow> session (c_turn_ids d) \<noteq> 0" for d using 2(1) by (simp add: good_def)
  show ?thesis using 2 n
    by (intro display_steady [OF 2(1)]) (simp add: on_frame_def Let_def steady_gap steady_frame_state)
qed

subsection \<open>The other threads\<close>

lemma dormant_admits: "admits t i t' r \<Longrightarrow> dormant t \<Longrightarrow> dormant t' \<and> (\<forall>e. r = Some e \<longrightarrow> greeting e)"
  by (induction rule: admits.induct) (simp_all add: dormant_def greeting_def)

lemma dormant_step:
  assumes "dormant t" and "transport_step p (\<lambda>_. True) (callback ev) t = (t', os)"
  shows "dormant t' \<and> list_all greeting (inbound_of os)"
proof -
  define ok where "ok = (\<lambda>r :: transport \<times> effect list. dormant (fst r) \<and> list_all greeting (inbound_of (snd r)))"
  have fail: "ok (transport_fail u why)" "ok (protocol_error u why)" if "dormant u" for u why
    using that by (simp_all add: ok_def transport_fail_def protocol_error_def transport_error_def dormant_def inbound_of_def greeting_def)
  have emit: "ok (emit (\<lambda>_. True) u e)" if "dormant u" "greeting e" for u e
    using that by (simp add: ok_def emit_def inbound_of_def)
  have text_ok: "ok (on_text p (\<lambda>_. True) json t)" for json
  proof -
    obtain res where res: "on_text p (\<lambda>_. True) json t = res" by blast
    then show ?thesis
    proof (cases rule: on_text_cases)
      case (1 why)
      then show ?thesis using res fail assms(1) by simp
    next
      case (2 u i)
      then show ?thesis using res dormant_admits [OF 2(1) assms(1)] by (simp add: ok_def inbound_of_def)
    next
      case (3 u i e)
      then show ?thesis using res dormant_admits [OF 3(1) assms(1)] emit by simp
    qed
  qed
  have bin: "ok (on_binary (\<lambda>_. True) m t)" for m
  proof -
    obtain res where res: "on_binary (\<lambda>_. True) m t = res" by blast
    then show ?thesis
      by (cases rule: on_binary_cases)
        (use res fail assms(1) in \<open>auto simp: bad_pcm_order_def dormant_def ok_def inbound_of_def\<close>)
  qed
  have "ok (on_message p (\<lambda>_. True) m t)" for m
    using text_ok bin fail(2) [OF assms(1)] by (simp add: on_message_def split: payload.split)
  moreover have "ok (on_open t)" "ok (on_close reason t)" "ok (on_ping (\<lambda>_. True) t)" for reason
  proof -
    show "ok (on_open t)" using assms(1) by (simp add: on_open_def ok_def dormant_def inbound_of_def)
    show "ok (on_ping (\<lambda>_. True) t)" unfolding on_ping_def by (rule emit [OF assms(1)]) (simp add: greeting_def)
    have "dormant (t\<lparr>t_connected := False\<rparr>)" using assms(1) by (simp add: dormant_def)
    then show "ok (on_close reason t)"
      using fail(1) by (simp add: on_close_def Let_def) (simp add: ok_def inbound_of_def)
  qed
  ultimately have "ok (transport_step p (\<lambda>_. True) (callback ev) t)"
    using fail(1) [OF assms(1)] by (cases ev) simp_all
  then show ?thesis by (simp add: assms(2) ok_def)
qed

lemma effects_set:
  "queue_valid (c_events c) \<Longrightarrow>
   set (queue_events (c_events (fold on_effect os c))) \<subseteq> set (queue_events (c_events c)) \<union> set (inbound_of os)"
proof (induction os arbitrary: c)
  case (Cons o' os)
  define es where "es = inbound_of [o']"
  have one: "queue_valid (c_events (on_effect o' c)) \<and> set (queue_events (c_events (on_effect o' c))) \<subseteq> set (queue_events (c_events c)) \<union> set es"
  proof (cases o')
    case (Out_Inbound e)
    then show ?thesis using push_event_form [OF Cons.prems, of e] by (auto simp: on_effect_def push_event_def inbound_of_def es_def)
  next
    case (Out_Error why)
    then show ?thesis using push_event_form [OF Cons.prems, of "transport_error why"]
      by (auto simp: on_effect_def push_event_def inbound_of_def es_def)
  qed (use Cons.prems in \<open>simp_all add: on_effect_def\<close>)
  have "inbound_of (o' # os) = es @ inbound_of os" by (simp add: es_def inbound_of_def)
  then show ?case using Cons.IH [of "on_effect o' c"] one by auto
qed simp

lemma display_thread:
  assumes "display_inv c" and "queue_valid (c_events c)"
  shows "display_inv (thread_step p th c)"
proof (cases th)
  case (Th_Wss ev)
  show ?thesis
  proof (cases "c_transport c")
    case None
    then show ?thesis using assms Th_Wss by (simp add: wss_step_def)
  next
    case (Some t)
    obtain t' os where st: "transport_step p (\<lambda>_. True) (callback ev) t = (t', os)" by fastforce
    define c1 where "c1 = c\<lparr>c_transport := Some t', c_wire := c_wire c @ os\<rparr>"
    have v: "queue_valid (c_events c1)" using assms(2) by (simp add: c1_def)
    obtain q where q: "fold on_effect os c1 = c1\<lparr>c_events := q\<rparr>" using effects_form [OF v, of os] by blast
    have w: "wss_step p ev c = c1\<lparr>c_events := q\<rparr>" using Some st q by (simp add: wss_step_def c1_def)
    have sub: "set (queue_events q) \<subseteq> set (queue_events (c_events c)) \<union> set (inbound_of os)"
      using effects_set [OF v, of os] by (simp add: q) (simp add: c1_def)
    from assms(1) show ?thesis
    proof (cases rule: display_cases)
      case 1
      then have "dormant t' \<and> list_all greeting (inbound_of os)"
        using dormant_step [OF _ st] Some by (simp add: offline_def)
      then have "offline (c1\<lparr>c_events := q\<rparr>)" using 1 sub by (auto simp: offline_def c1_def list_all_iff)
      then show ?thesis by (simp add: Th_Wss w display_offline)
    next
      case (2 n)
      then have "good n (c1\<lparr>c_events := q\<rparr>)" by (simp add: c1_def)
      then show ?thesis using display_steady [OF 2(1)] by (simp add: Th_Wss w good_steady)
    qed
  qed
next
  case (Th_Player ev)
  then show ?thesis using assms(1) by (simp add: set_player_def display_inv_def)
qed (use assms(1) in \<open>simp_all add: display_inv_def\<close>)

subsection \<open>Every run\<close>

definition shown_inv :: "client \<Rightarrow> bool" where
  "shown_inv c \<longleftrightarrow> client_inv c \<and> display_inv c"

lemma inv_wire_off: "client_inv c \<Longrightarrow> c_transport c = None \<Longrightarrow> session (c_turn_ids c) = 0"
  by (simp add: client_inv_def proto_def wire_ok_def)

interpretation shown_runs: client_steps p "\<lambda>_. True" shown_inv for p
proof unfold_locales
  fix c
  assume i: "shown_inv c"
  then have c: "client_inv c" "display_inv c" by (simp_all add: shown_inv_def)
  have v: "queue_valid (c_events c)" using c(1) by (simp add: client_inv_def shape_def buffers_def)
  show "shown_inv (thread_step p th c)" for th
    using c v by (simp add: shown_inv_def client_runs.inv_thread display_thread)
  show "shown_inv (c\<lparr>c_now := now, c_sends := ss, c_handshakes := hs\<rparr>)" for now ss hs
    using c by (simp add: shown_inv_def client_runs.inv_answers) (simp add: display_inv_def)
  show "shown_inv (start_connect db u th n c)" if "c_transport c = None" for db u th n
    using c that by (simp add: shown_inv_def client_runs.inv_connect display_start_connect inv_wire_off)
  show "shown_inv (c\<lparr>c_audio := e\<rparr>)" if "capture_take k_actor_poll_interval (c_audio c) = (r, e)" for r e
    using client_runs.inv_capture [OF c(1) that] c(2) by (simp add: shown_inv_def display_inv_def)
  show "shown_inv (finish_connect c)" using c by (simp add: shown_inv_def client_runs.inv_hello display_finish_connect)
  show "shown_inv (handle_event ev (c\<lparr>c_events := q\<rparr>))"
    if t: "c_transport c = Some t" "event_pop (c_events c) = Some (ev, q)" for t ev q
  proof -
    have q: "queue_events (c_events c) = ev # queue_events q" using event_pop_some [OF v t(2)] by simp
    have "display_inv (c\<lparr>c_events := q\<rparr>)" using c(2) q by (auto simp: display_inv_def offline_def)
    moreover have "in_kind ev = In_HelloAck \<Longrightarrow> session (c_turn_ids c) = 0"
      using c(1) t(1) q by (auto simp: client_inv_def proto_def wire_ok_def acks_def)
    moreover have "session (c_turn_ids c) = 0 \<Longrightarrow> greeting ev" using c(2) q by (simp add: display_inv_def offline_def)
    ultimately have "display_inv (handle_event ev (c\<lparr>c_events := q\<rparr>))" by (intro display_event) simp_all
    then show ?thesis using client_runs.inv_event [OF c(1) t] by (simp add: shown_inv_def)
  qed
  show "shown_inv (poll_ui v a c)" for v a using c by (simp add: shown_inv_def client_runs.inv_ui display_poll_ui)
  show "shown_inv (lose_connection c)" using c by (simp add: shown_inv_def client_runs.inv_lose display_lose)
  show "shown_inv (snd (advance_deadlines c))" using c by (simp add: shown_inv_def client_runs.inv_deadline display_deadlines)
  show "shown_inv (d\<lparr>c_next_capture_sequence := cf_sequence f + 1, c_taken := c_taken d @ [f]\<rparr>)"
    if "advance_deadlines c = (False, d)" for d f
    using client_runs.inv_skip [OF c(1) that] display_deadlines [OF c(2)] that by (simp add: shown_inv_def display_inv_def)
  show "shown_inv (on_frame f c)" for f using c by (simp add: shown_inv_def client_runs.inv_frame display_on_frame)
qed

lemma display_started:
  assumes "volume_percent cfg \<le> 100" and "client_start cfg s bo th ne origin now = Going c"
  shows "shown_inv c"
proof -
  have "client_inv c" using inv_started [OF assms(1), of s bo th ne origin now] by (simp add: assms(2))
  moreover have "offline (client_setup cfg s)"
    by (simp add: client_setup_def Let_def offline_def) (simp add: new_client_def no_ids_def)
  then have "offline c" using assms(2) by (auto simp: client_start_def Let_def client_fail_def split: prod.splits bool.splits if_splits)
  ultimately show ?thesis by (simp add: shown_inv_def display_offline)
qed

text \<open>What a run may show: ready while it waits for the wake word, listening until the turn is committed, and so on.\<close>

definition conversation_faces :: "client \<Rightarrow> device_ui_state set" where
  "conversation_faces c = (if session (c_turn_ids c) = 0 then {Ui_Offline, Ui_Idle} else faces (c_state c))"

lemma run_display:
  assumes "volume_percent cfg \<le> 100"
    and "run_client p cfg s backend_ok threads_ok network_ok origin now is = Going c"
  shows "face c \<in> conversation_faces c \<and> (session (c_turn_ids c) = 0 \<longrightarrow> c_state c = St_WaitingForWake)"
proof -
  have "shown_inv c"
    by (rule shown_runs.run_going [OF _ display_started [OF assms(1)] assms(2)]) (simp add: list_all_iff)
  then show ?thesis by (auto simp: shown_inv_def display_inv_def offline_def conversation_faces_def)
qed

text \<open>Without a connection a gap of the capture makes the client look ready, until the next loss of a connection.\<close>

lemma offline_gap_looks_ready:
  assumes "session (c_turn_ids c) = 0" "c_state c = St_WaitingForWake" and "cf_discontinuity f \<or> cf_sequence f \<noteq> c_next_capture_sequence c"
  shows "face (on_frame f c) = Ui_Idle \<and> session (c_turn_ids (on_frame f c)) = 0 \<and> c_transport (on_frame f c) = c_transport c"
  using assms by (auto simp: on_frame_def Let_def on_gap_def)

end
