(* ===== verification/ClientDials.thy ===== *)
theory ClientDials
  imports ClientSample
begin

section \<open>Volume, brightness and mute\<close>

text \<open>
  What the user sets is kept in four places: in the actor (\<^verbatim>\<open>volume_\<close>,
  \<^verbatim>\<open>brightness_\<close>), in the gain of the engine, on the display and in the settings file. And the
  barge-in probe mutes the loudspeaker by a second factor, the scale.
\<close>

subsection \<open>The places agree\<close>

definition shown_volume :: "client \<Rightarrow> u8 option" where
  "shown_volume c = fold (\<lambda>u s. case u of Call_Volume v \<Rightarrow> Some v | _ \<Rightarrow> s) (c_ui c) None"

definition shown_brightness :: "client \<Rightarrow> u8 option" where
  "shown_brightness c = fold (\<lambda>u s. case u of Call_Brightness b \<Rightarrow> Some b | _ \<Rightarrow> s) (c_ui c) None"

definition dials_ok :: "voice_client_config \<Rightarrow> client \<Rightarrow> bool" where
  "dials_ok cfg c \<longleftrightarrow> c_config c = cfg \<and> c_volume c \<le> 100 \<and> e_playback_gain (c_audio c) = playback_gain cfg (c_volume c) \<and>
     shown_volume c = Some (c_volume c) \<and> shown_brightness c = Some (if c_brightness c then 100 else 0) \<and>
     (\<forall>v b. c_settings c = Some (v, b) \<longrightarrow> v \<le> 100 \<and> b = c_brightness c) \<and>
     (c_barge_probe c = Probe_Idle \<longrightarrow> e_playback_scale (c_audio c) = 1)"

lemma shown_fields [simp]:
  "shown_volume (c\<lparr>c_endpoint := x0\<rparr>) = shown_volume c"
  "shown_volume (c\<lparr>c_error := x1\<rparr>) = shown_volume c"
  "shown_volume (c\<lparr>c_audio := x2\<rparr>) = shown_volume c"
  "shown_volume (c\<lparr>c_settings := x3\<rparr>) = shown_volume c"
  "shown_volume (c\<lparr>c_transport := x4\<rparr>) = shown_volume c"
  "shown_volume (c\<lparr>c_wire := x5\<rparr>) = shown_volume c"
  "shown_volume (c\<lparr>c_events := x6\<rparr>) = shown_volume c"
  "shown_volume (c\<lparr>c_endpoint_ready := x7\<rparr>) = shown_volume c"
  "shown_volume (c\<lparr>c_network_needed := x8\<rparr>) = shown_volume c"
  "shown_volume (c\<lparr>c_pre := x9\<rparr>) = shown_volume c"
  "shown_volume (c\<lparr>c_pre_head := x10\<rparr>) = shown_volume c"
  "shown_volume (c\<lparr>c_pre_count := x11\<rparr>) = shown_volume c"
  "shown_volume (c\<lparr>c_turn_ids := x12\<rparr>) = shown_volume c"
  "shown_volume (c\<lparr>c_response_ids := x13\<rparr>) = shown_volume c"
  "shown_volume (c\<lparr>c_state := x14\<rparr>) = shown_volume c"
  "shown_volume (c\<lparr>c_state_deadline := x15\<rparr>) = shown_volume c"
  "shown_volume (c\<lparr>c_next_connect := x16\<rparr>) = shown_volume c"
  "shown_volume (c\<lparr>c_heartbeat_deadline := x17\<rparr>) = shown_volume c"
  "shown_volume (c\<lparr>c_await_hint_at := x18\<rparr>) = shown_volume c"
  "shown_volume (c\<lparr>c_audio_origin_us := x19\<rparr>) = shown_volume c"
  "shown_volume (c\<lparr>c_next_capture_sequence := x20\<rparr>) = shown_volume c"
  "shown_volume (c\<lparr>c_message := x21\<rparr>) = shown_volume c"
  "shown_volume (c\<lparr>c_uplink_sequence := x22\<rparr>) = shown_volume c"
  "shown_volume (c\<lparr>c_subtitle := x23\<rparr>) = shown_volume c"
  "shown_volume (c\<lparr>c_reconnect_attempt := x24\<rparr>) = shown_volume c"
  "shown_volume (c\<lparr>c_follow_up_near_frames := x25\<rparr>) = shown_volume c"
  "shown_volume (c\<lparr>c_barge_probe_frames := x26\<rparr>) = shown_volume c"
  "shown_volume (c\<lparr>c_barge_cooldown_frames := x27\<rparr>) = shown_volume c"
  "shown_volume (c\<lparr>c_barge_quiet_frames := x28\<rparr>) = shown_volume c"
  "shown_volume (c\<lparr>c_barge_silence_frames := x29\<rparr>) = shown_volume c"
  "shown_volume (c\<lparr>c_volume := x30\<rparr>) = shown_volume c"
  "shown_volume (c\<lparr>c_brightness := x31\<rparr>) = shown_volume c"
  "shown_volume (c\<lparr>c_await_hint_pending := x32\<rparr>) = shown_volume c"
  "shown_volume (c\<lparr>c_await_hint_visible := x33\<rparr>) = shown_volume c"
  "shown_volume (c\<lparr>c_barge_probe := x34\<rparr>) = shown_volume c"
  "shown_volume (c\<lparr>c_hello_sent := x35\<rparr>) = shown_volume c"
  "shown_volume (c\<lparr>c_barge_ended := x36\<rparr>) = shown_volume c"
  "shown_volume (c\<lparr>c_barge_turn_admitted := x37\<rparr>) = shown_volume c"
  "shown_volume (c\<lparr>c_barge_buffer_overflow := x38\<rparr>) = shown_volume c"
  "shown_volume (c\<lparr>c_manual_wake_pending := x39\<rparr>) = shown_volume c"
  "shown_volume (c\<lparr>c_finish_after_cancel_ack := x40\<rparr>) = shown_volume c"
  "shown_volume (c\<lparr>c_listener_failed := x41\<rparr>) = shown_volume c"
  "shown_volume (c\<lparr>c_now := x42\<rparr>) = shown_volume c"
  "shown_volume (c\<lparr>c_sends := x43\<rparr>) = shown_volume c"
  "shown_volume (c\<lparr>c_handshakes := x44\<rparr>) = shown_volume c"
  "shown_volume (c\<lparr>c_playback_pc := x45\<rparr>) = shown_volume c"
  "shown_volume (c\<lparr>c_accepted := x46\<rparr>) = shown_volume c"
  "shown_volume (c\<lparr>c_rendered := x47\<rparr>) = shown_volume c"
  "shown_volume (c\<lparr>c_taken := x48\<rparr>) = shown_volume c"
  "shown_brightness (c\<lparr>c_endpoint := x0\<rparr>) = shown_brightness c"
  "shown_brightness (c\<lparr>c_error := x1\<rparr>) = shown_brightness c"
  "shown_brightness (c\<lparr>c_audio := x2\<rparr>) = shown_brightness c"
  "shown_brightness (c\<lparr>c_settings := x3\<rparr>) = shown_brightness c"
  "shown_brightness (c\<lparr>c_transport := x4\<rparr>) = shown_brightness c"
  "shown_brightness (c\<lparr>c_wire := x5\<rparr>) = shown_brightness c"
  "shown_brightness (c\<lparr>c_events := x6\<rparr>) = shown_brightness c"
  "shown_brightness (c\<lparr>c_endpoint_ready := x7\<rparr>) = shown_brightness c"
  "shown_brightness (c\<lparr>c_network_needed := x8\<rparr>) = shown_brightness c"
  "shown_brightness (c\<lparr>c_pre := x9\<rparr>) = shown_brightness c"
  "shown_brightness (c\<lparr>c_pre_head := x10\<rparr>) = shown_brightness c"
  "shown_brightness (c\<lparr>c_pre_count := x11\<rparr>) = shown_brightness c"
  "shown_brightness (c\<lparr>c_turn_ids := x12\<rparr>) = shown_brightness c"
  "shown_brightness (c\<lparr>c_response_ids := x13\<rparr>) = shown_brightness c"
  "shown_brightness (c\<lparr>c_state := x14\<rparr>) = shown_brightness c"
  "shown_brightness (c\<lparr>c_state_deadline := x15\<rparr>) = shown_brightness c"
  "shown_brightness (c\<lparr>c_next_connect := x16\<rparr>) = shown_brightness c"
  "shown_brightness (c\<lparr>c_heartbeat_deadline := x17\<rparr>) = shown_brightness c"
  "shown_brightness (c\<lparr>c_await_hint_at := x18\<rparr>) = shown_brightness c"
  "shown_brightness (c\<lparr>c_audio_origin_us := x19\<rparr>) = shown_brightness c"
  "shown_brightness (c\<lparr>c_next_capture_sequence := x20\<rparr>) = shown_brightness c"
  "shown_brightness (c\<lparr>c_message := x21\<rparr>) = shown_brightness c"
  "shown_brightness (c\<lparr>c_uplink_sequence := x22\<rparr>) = shown_brightness c"
  "shown_brightness (c\<lparr>c_subtitle := x23\<rparr>) = shown_brightness c"
  "shown_brightness (c\<lparr>c_reconnect_attempt := x24\<rparr>) = shown_brightness c"
  "shown_brightness (c\<lparr>c_follow_up_near_frames := x25\<rparr>) = shown_brightness c"
  "shown_brightness (c\<lparr>c_barge_probe_frames := x26\<rparr>) = shown_brightness c"
  "shown_brightness (c\<lparr>c_barge_cooldown_frames := x27\<rparr>) = shown_brightness c"
  "shown_brightness (c\<lparr>c_barge_quiet_frames := x28\<rparr>) = shown_brightness c"
  "shown_brightness (c\<lparr>c_barge_silence_frames := x29\<rparr>) = shown_brightness c"
  "shown_brightness (c\<lparr>c_volume := x30\<rparr>) = shown_brightness c"
  "shown_brightness (c\<lparr>c_brightness := x31\<rparr>) = shown_brightness c"
  "shown_brightness (c\<lparr>c_await_hint_pending := x32\<rparr>) = shown_brightness c"
  "shown_brightness (c\<lparr>c_await_hint_visible := x33\<rparr>) = shown_brightness c"
  "shown_brightness (c\<lparr>c_barge_probe := x34\<rparr>) = shown_brightness c"
  "shown_brightness (c\<lparr>c_hello_sent := x35\<rparr>) = shown_brightness c"
  "shown_brightness (c\<lparr>c_barge_ended := x36\<rparr>) = shown_brightness c"
  "shown_brightness (c\<lparr>c_barge_turn_admitted := x37\<rparr>) = shown_brightness c"
  "shown_brightness (c\<lparr>c_barge_buffer_overflow := x38\<rparr>) = shown_brightness c"
  "shown_brightness (c\<lparr>c_manual_wake_pending := x39\<rparr>) = shown_brightness c"
  "shown_brightness (c\<lparr>c_finish_after_cancel_ack := x40\<rparr>) = shown_brightness c"
  "shown_brightness (c\<lparr>c_listener_failed := x41\<rparr>) = shown_brightness c"
  "shown_brightness (c\<lparr>c_now := x42\<rparr>) = shown_brightness c"
  "shown_brightness (c\<lparr>c_sends := x43\<rparr>) = shown_brightness c"
  "shown_brightness (c\<lparr>c_handshakes := x44\<rparr>) = shown_brightness c"
  "shown_brightness (c\<lparr>c_playback_pc := x45\<rparr>) = shown_brightness c"
  "shown_brightness (c\<lparr>c_accepted := x46\<rparr>) = shown_brightness c"
  "shown_brightness (c\<lparr>c_rendered := x47\<rparr>) = shown_brightness c"
  "shown_brightness (c\<lparr>c_taken := x48\<rparr>) = shown_brightness c"
  by (simp_all add: shown_volume_def shown_brightness_def)

lemma shown_call [simp]:
  "shown_volume (ui_call u c) = (case u of Call_Volume v \<Rightarrow> Some v | _ \<Rightarrow> shown_volume c)"
  "shown_brightness (ui_call u c) = (case u of Call_Brightness b \<Rightarrow> Some b | _ \<Rightarrow> shown_brightness c)"
  by (simp_all add: shown_volume_def shown_brightness_def ui_call_def split: ui_call.split)

lemma dials_fields [simp]:
  "dials_ok cfg (c\<lparr>c_endpoint := x0\<rparr>) = dials_ok cfg c"
  "dials_ok cfg (c\<lparr>c_error := x1\<rparr>) = dials_ok cfg c"
  "dials_ok cfg (c\<lparr>c_transport := x2\<rparr>) = dials_ok cfg c"
  "dials_ok cfg (c\<lparr>c_wire := x3\<rparr>) = dials_ok cfg c"
  "dials_ok cfg (c\<lparr>c_events := x4\<rparr>) = dials_ok cfg c"
  "dials_ok cfg (c\<lparr>c_endpoint_ready := x5\<rparr>) = dials_ok cfg c"
  "dials_ok cfg (c\<lparr>c_network_needed := x6\<rparr>) = dials_ok cfg c"
  "dials_ok cfg (c\<lparr>c_pre := x7\<rparr>) = dials_ok cfg c"
  "dials_ok cfg (c\<lparr>c_pre_head := x8\<rparr>) = dials_ok cfg c"
  "dials_ok cfg (c\<lparr>c_pre_count := x9\<rparr>) = dials_ok cfg c"
  "dials_ok cfg (c\<lparr>c_turn_ids := x10\<rparr>) = dials_ok cfg c"
  "dials_ok cfg (c\<lparr>c_response_ids := x11\<rparr>) = dials_ok cfg c"
  "dials_ok cfg (c\<lparr>c_state := x12\<rparr>) = dials_ok cfg c"
  "dials_ok cfg (c\<lparr>c_state_deadline := x13\<rparr>) = dials_ok cfg c"
  "dials_ok cfg (c\<lparr>c_next_connect := x14\<rparr>) = dials_ok cfg c"
  "dials_ok cfg (c\<lparr>c_heartbeat_deadline := x15\<rparr>) = dials_ok cfg c"
  "dials_ok cfg (c\<lparr>c_await_hint_at := x16\<rparr>) = dials_ok cfg c"
  "dials_ok cfg (c\<lparr>c_audio_origin_us := x17\<rparr>) = dials_ok cfg c"
  "dials_ok cfg (c\<lparr>c_next_capture_sequence := x18\<rparr>) = dials_ok cfg c"
  "dials_ok cfg (c\<lparr>c_message := x19\<rparr>) = dials_ok cfg c"
  "dials_ok cfg (c\<lparr>c_uplink_sequence := x20\<rparr>) = dials_ok cfg c"
  "dials_ok cfg (c\<lparr>c_subtitle := x21\<rparr>) = dials_ok cfg c"
  "dials_ok cfg (c\<lparr>c_reconnect_attempt := x22\<rparr>) = dials_ok cfg c"
  "dials_ok cfg (c\<lparr>c_follow_up_near_frames := x23\<rparr>) = dials_ok cfg c"
  "dials_ok cfg (c\<lparr>c_barge_probe_frames := x24\<rparr>) = dials_ok cfg c"
  "dials_ok cfg (c\<lparr>c_barge_cooldown_frames := x25\<rparr>) = dials_ok cfg c"
  "dials_ok cfg (c\<lparr>c_barge_quiet_frames := x26\<rparr>) = dials_ok cfg c"
  "dials_ok cfg (c\<lparr>c_barge_silence_frames := x27\<rparr>) = dials_ok cfg c"
  "dials_ok cfg (c\<lparr>c_await_hint_pending := x28\<rparr>) = dials_ok cfg c"
  "dials_ok cfg (c\<lparr>c_await_hint_visible := x29\<rparr>) = dials_ok cfg c"
  "dials_ok cfg (c\<lparr>c_hello_sent := x30\<rparr>) = dials_ok cfg c"
  "dials_ok cfg (c\<lparr>c_barge_ended := x31\<rparr>) = dials_ok cfg c"
  "dials_ok cfg (c\<lparr>c_barge_turn_admitted := x32\<rparr>) = dials_ok cfg c"
  "dials_ok cfg (c\<lparr>c_barge_buffer_overflow := x33\<rparr>) = dials_ok cfg c"
  "dials_ok cfg (c\<lparr>c_manual_wake_pending := x34\<rparr>) = dials_ok cfg c"
  "dials_ok cfg (c\<lparr>c_finish_after_cancel_ack := x35\<rparr>) = dials_ok cfg c"
  "dials_ok cfg (c\<lparr>c_listener_failed := x36\<rparr>) = dials_ok cfg c"
  "dials_ok cfg (c\<lparr>c_now := x37\<rparr>) = dials_ok cfg c"
  "dials_ok cfg (c\<lparr>c_sends := x38\<rparr>) = dials_ok cfg c"
  "dials_ok cfg (c\<lparr>c_handshakes := x39\<rparr>) = dials_ok cfg c"
  "dials_ok cfg (c\<lparr>c_playback_pc := x40\<rparr>) = dials_ok cfg c"
  "dials_ok cfg (c\<lparr>c_accepted := x41\<rparr>) = dials_ok cfg c"
  "dials_ok cfg (c\<lparr>c_rendered := x42\<rparr>) = dials_ok cfg c"
  "dials_ok cfg (c\<lparr>c_taken := x43\<rparr>) = dials_ok cfg c"
  by (simp_all add: dials_ok_def)

lemma dials_call [simp]:
  "dials_ok cfg (ui_call (Call_State s) c) = dials_ok cfg c" "dials_ok cfg (ui_call (Call_Text a b) c) = dials_ok cfg c"
  by (simp_all add: dials_ok_def) (simp_all add: ui_call_def)

text \<open>The engine's other operations leave the gain alone, and the scale but for resetting it.\<close>

definition keeps_level :: "engine \<Rightarrow> engine \<Rightarrow> bool" where
  "keeps_level e e' \<longleftrightarrow> e_playback_gain e' = e_playback_gain e \<and> (e_playback_scale e' = e_playback_scale e \<or> e_playback_scale e' = 1)"

lemma keeps_refl [simp]: "keeps_level e e"
  by (simp add: keeps_level_def)

lemma keeps_trans: "keeps_level e f \<Longrightarrow> keeps_level f g \<Longrightarrow> keeps_level e g"
  by (auto simp: keeps_level_def)

lemma dials_audio: "keeps_level (c_audio c) e \<Longrightarrow> dials_ok cfg c \<Longrightarrow> dials_ok cfg (c\<lparr>c_audio := e\<rparr>)"
  by (auto simp: dials_ok_def keeps_level_def)

lemma keeps_decisions [simp]: "keeps_level e (clear_queued_decisions e)"
proof -
  have "keeps_level d (fold (\<lambda>offset e. let i = (e_capture_head e + offset) mod k_capture_slots in
     e\<lparr>e_capture := (e_capture e)[i := clear_decisions (e_capture e ! i)]\<rparr>) ks d)" for ks d
  proof (induction ks arbitrary: d)
    case (Cons k ks)
    define d1 where "d1 = d\<lparr>e_capture := (e_capture d)[(e_capture_head d + k) mod k_capture_slots :=
        clear_decisions (e_capture d ! ((e_capture_head d + k) mod k_capture_slots))]\<rparr>"
    have "keeps_level d d1" by (simp add: d1_def keeps_level_def)
    with Cons.IH [of d1] show ?case by (auto simp: Let_def d1_def intro: keeps_trans)
  qed simp
  then show ?thesis by (simp add: clear_queued_decisions_def)
qed

lemma keeps_apply: "keeps_level e (snd (apply_capture_command ok e))"
  using keeps_decisions [of e] by (simp add: apply_capture_command_def Let_def keeps_level_def)

lemma keeps_command: "keeps_level e (snd (run_capture_command k h e))"
proof (cases "post_command k e")
  case None
  then show ?thesis by (simp add: run_capture_command_def)
next
  case (Some e1)
  then have e1: "keeps_level e e1" by (auto simp: post_command_def keeps_level_def split: if_splits)
  have res: "keeps_level e1 d \<Longrightarrow> keeps_level e1 (snd (command_result d))" for d by (simp add: command_result_def keeps_level_def)
  have fail: "keeps_level e1 d \<Longrightarrow> keeps_level e1 (d\<lparr>e_capture_failed := b\<rparr>)" for d b by (simp add: keeps_level_def)
  have "keeps_level e1 (snd (apply_capture_command ok e1))" for ok by (rule keeps_apply)
  then have "keeps_level e1 (snd (run_capture_command k h e))" using Some res fail
    by (auto simp: run_capture_command_def prod.case_eq_if split: handshake.split)
  then show ?thesis by (rule keeps_trans [OF e1])
qed

lemma keeps_iteration: "keeps_level e (snd (capture_iteration ok r e))"
proof -
  have "keeps_level d (push_capture f d)" for f d
    by (simp add: push_capture_def Let_def clear_capture_queue_def keeps_level_def)
  then have "keeps_level d (snd (capture_round r d))" for d
    by (simp add: capture_round_def split: option.split) (simp add: keeps_level_def)
  moreover obtain go e1 where a: "apply_capture_command ok e = (go, e1)" by fastforce
  moreover have "keeps_level d (d\<lparr>e_capture_failed := True\<rparr>)" for d by (simp add: keeps_level_def)
  ultimately show ?thesis using keeps_apply [of e ok]
    by (auto simp: capture_iteration_def intro: keeps_trans split: bool.split)
qed

lemma keeps_take: "capture_take k e = (r, e') \<Longrightarrow> keeps_level e e'"
  by (auto simp: capture_take_def keeps_level_def split: if_splits)

lemma keeps_fill:
  assumes "fill_slots xs e = Some e'"
  shows "keeps_level e e'"
proof (rule fill_slots.raw_induct [OF _ assms, where P = "\<lambda>xs e e'. keeps_level e e'"])
  fix fill xs e e'
  assume ih: "\<And>xs e e'. fill xs e = Some e' \<Longrightarrow> keeps_level e e'"
    and step: "(if xs = [] then Some e
      else let e1 = open_slot e; i = tail_slot e1; s = e_tts e1 ! i;
               copied = min (length xs) (k_tts_frame - slot_used s);
               s' = s\<lparr>slot_pcm := overwrite (slot_used s) (take copied xs) (slot_pcm s),
                      slot_used := slot_used s + copied\<rparr>
           in fill (drop copied xs) (e1\<lparr>e_tts := (e_tts e1)[i := s']\<rparr>)) = Some e'"
  show "keeps_level e e'"
  proof (cases "xs = []")
    case False
    have "keeps_level e ((open_slot e)\<lparr>e_tts := tts\<rparr>)" for tts by (simp add: open_slot_def keeps_level_def)
    moreover from step False obtain ys tts where "fill ys ((open_slot e)\<lparr>e_tts := tts\<rparr>) = Some e'"
      by (auto simp: Let_def)
    ultimately show ?thesis using ih keeps_trans by blast
  qed (use step in simp)
qed

lemma keeps_playback:
  "queue_tts24k pcm n e = Some (ok, e') \<Longrightarrow> keeps_level e e'" "keeps_level e (snd (begin_playback b e))"
  "keeps_level e (snd (end_playback e))" "keeps_level e (drop_playback e)" "keeps_level e (clear_queue e)"
proof -
  have clear: "keeps_level e (clear_queue e)" for e by (simp add: clear_queue_def keeps_level_def)
  then show "keeps_level e (clear_queue e)" .
  show "keeps_level e e'" if "queue_tts24k pcm n e = Some (ok, e')"
  proof -
    have "keeps_level e z \<Longrightarrow> keeps_level e (z\<lparr>e_queued_samples := k, e_sequence_set := True, e_next_tts_sequence := m\<rparr>)" for z k m
      by (simp add: keeps_level_def)
    moreover have "keeps_level e (e\<lparr>e_error := k_queue_error\<rparr>)" by (simp add: keeps_level_def)
    ultimately show ?thesis using that keeps_fill by (auto simp: queue_tts24k_def Let_def split: if_splits)
  qed
  show "keeps_level e (snd (begin_playback b e))" by (simp add: begin_playback_def Let_def keeps_level_def clear_queue_def)
  show "keeps_level e (snd (end_playback e))" by (simp add: end_playback_def)  (simp add: keeps_level_def)
  show "keeps_level e (drop_playback e)" by (simp add: drop_playback_def clear_queue_def) (simp add: keeps_level_def)
qed

lemma keeps_player: "by_playback_thread ev \<Longrightarrow> keeps_level (pl_engine p) (pl_engine (player_step ev p))"
proof (cases ev)
  case T_Grace
  then show ?thesis by (simp add: start_rebuffering_def keeps_level_def)
next
  case T_Take
  have "keeps_level (pl_engine p) e" if "take_slot (pl_engine p) = (a, b, d, e)" for a b d e
    using that by (auto simp: take_slot_def Let_def keeps_level_def split: prod.splits if_splits)
  then show ?thesis using T_Take by (auto simp: finish_decide_def split: prod.split option.split)
next
  case (T_Rendered ok)
  then show ?thesis by (auto simp: finish_decide_def Let_def split: playback_pc.split)
next
  case (T_Finished drained)
  have "keeps_level (pl_engine p) (finish_playback d f drained (pl_engine p))" for d f
    by (simp add: finish_playback_def Let_def clear_queue_def keeps_level_def)
  then show ?thesis using T_Finished by (simp split: playback_pc.split)
qed (simp_all add: by_playback_thread_def)

subsection \<open>Operations of the actor\<close>

lemma dials_on_audio:
  "dials_ok cfg c \<Longrightarrow> dials_ok cfg (on_audio drop_playback c)"
  by (simp add: on_audio_def dials_audio keeps_playback)

lemma dials_simple [simp]:
  "dials_ok cfg (clear_subtitle c) = dials_ok cfg c" "dials_ok cfg (mark_first_response_progress c) = dials_ok cfg c"
  "dials_ok cfg (show_text s c) = dials_ok cfg c" "dials_ok cfg (reset_barge_turn c) = dials_ok cfg c"
  "dials_ok cfg (advance_turn c) = dials_ok cfg c" "dials_ok cfg (keep_newest_pre_roll n c) = dials_ok cfg c"
  "dials_ok cfg (save_pre_roll f c) = dials_ok cfg c" "dials_ok cfg (track_barge_utterance f c) = dials_ok cfg c"
  "dials_ok cfg (thaw_barge f c) = dials_ok cfg c" "dials_ok cfg (store_frame f c) = dials_ok cfg c"
  "dials_ok cfg (wait_for_response c) = dials_ok cfg c" "dials_ok cfg (close_wire c) = dials_ok cfg c"
  by (simp_all add: clear_subtitle_def mark_first_response_progress_def show_text_def reset_barge_turn_def advance_turn_def
      keep_newest_pre_roll_def save_pre_roll_def track_barge_utterance_def thaw_barge_def store_frame_def wait_for_response_def
      close_wire_def Let_def split: prod.split option.split)

lemma dials_command: "dials_ok cfg c \<Longrightarrow> audio_command k c = (ok, c') \<Longrightarrow> dials_ok cfg c'"
proof -
  assume c: "dials_ok cfg c" and a: "audio_command k c = (ok, c')"
  obtain h hs where t: "take_handshake c = (h, c\<lparr>c_handshakes := hs\<rparr>)" using take_handshake_form by blast
  obtain b e where r: "run_capture_command k h (c_audio c) = (b, e)" by fastforce
  have "c' = (c\<lparr>c_handshakes := hs\<rparr>)\<lparr>c_audio := e\<rparr>" using a t r by (simp add: audio_command_def)
  moreover have "keeps_level (c_audio c) e" using keeps_command [of "c_audio c" k h] by (simp add: r)
  ultimately show ?thesis using dials_audio [of "c\<lparr>c_handshakes := hs\<rparr>" e cfg] c by simp
qed

lemma dials_listener: "dials_ok cfg c \<Longrightarrow> dials_ok cfg (reset_listener c)"
  using dials_command [of cfg c Cmd_ResetListener] by (auto simp: reset_listener_def split: prod.split bool.split)

lemma dials_probe: "dials_ok cfg c \<Longrightarrow> dials_ok cfg (reset_barge_probe c)"
  by (simp add: reset_barge_probe_def on_audio_def set_playback_scale_def dials_ok_def)

lemmas dials_steps [simp] = dials_on_audio dials_listener dials_probe

lemma dials_more [simp]:
  "dials_ok cfg c \<Longrightarrow> dials_ok cfg (reject_barge_probe c)" "dials_ok cfg c \<Longrightarrow> dials_ok cfg (begin_listening c)"
  "dials_ok cfg c \<Longrightarrow> dials_ok cfg (lose_connection c)" "dials_ok cfg c \<Longrightarrow> dials_ok cfg (finish_turn b c)"
  by (simp_all add: reject_barge_probe_def begin_listening_def lose_connection_def finish_turn_def Let_def)

lemma dials_send: "client_send k ids c = (ok, c') \<Longrightarrow> dials_ok cfg c' = dials_ok cfg c"
  using client_send_form [of k ids c ok c'] by auto

lemma dials_abort [simp]: "dials_ok cfg c \<Longrightarrow> dials_ok cfg (abort_current c)"
  by (auto simp: abort_current_def Let_def dest: dials_send [where cfg = cfg] split: prod.split bool.split)

lemma dials_confirm [simp]: "dials_ok cfg c \<Longrightarrow> dials_ok cfg (confirm_barge c)"
  by (auto simp: confirm_barge_def Let_def dest: dials_send [where cfg = cfg] split: prod.split bool.split)

lemma dials_recover: "dials_ok cfg c \<Longrightarrow> send_audio_or_recover f b c = (ok, c') \<Longrightarrow> dials_ok cfg c'"
proof -
  assume c: "dials_ok cfg c" and a: "send_audio_or_recover f b c = (ok, c')"
  obtain out c1 where s: "send_audio f b c = (out, c1)" by fastforce
  have "dials_ok cfg c1" using send_audio_form [OF s] c by auto
  then show ?thesis using a by (auto simp: send_audio_or_recover_def s split: send_outcome.splits)
qed

lemma dials_upload: "dials_ok cfg c \<Longrightarrow> upload b fs c = (ok, c') \<Longrightarrow> dials_ok cfg c'"
proof (induction fs arbitrary: c)
  case (Cons f fs)
  obtain ok1 c1 where s: "send_audio_or_recover f (b \<and> fs = []) c = (ok1, c1)" by fastforce
  show ?case using dials_recover [OF Cons.prems(1) s] Cons.prems(2) Cons.IH [of c1] s by (cases ok1) auto
qed simp

lemma dials_send_commit [simp]: "dials_ok cfg c \<Longrightarrow> dials_ok cfg (snd (send_commit c))"
  by (auto simp: send_commit_def dest: dials_send [where cfg = cfg] split: prod.split bool.split)

lemma dials_commit [simp]: "dials_ok cfg c \<Longrightarrow> dials_ok cfg (commit f c)"
  using dials_recover [of cfg c f True] by (auto simp: commit_def split: prod.split bool.split)

lemma dials_start_turn [simp]:
  assumes "dials_ok cfg c"
  shows "dials_ok cfg (snd (start_turn b c))"
proof -
  obtain ok c1 where s: "client_send Ctl_TurnStart (c_turn_ids c) c = (ok, c1)" by fastforce
  define c2 where "c2 = ui_call (Call_State Ui_Listening) (c1\<lparr>c_uplink_sequence := 0, c_state := St_CapturingSpeech,
                     c_state_deadline := c_now c1 + k_maximum_turn_wait\<rparr>)"
  have c1: "dials_ok cfg c1" using dials_send [OF s] assms by simp
  then have c2: "dials_ok cfg c2" by (simp add: c2_def)
  obtain ok' c3 where u: "upload b (pre_roll c2) c2 = (ok', c3)" by fastforce
  have "dials_ok cfg c3" by (rule dials_upload [OF c2 u])
  then show ?thesis using assms c1 c2
    by (simp add: start_turn_def Let_def s c2_def [symmetric] u split: bool.split)
qed

lemma dials_cancel [simp]: "dials_ok cfg c \<Longrightarrow> dials_ok cfg (complete_cancel c)"
  by (simp add: complete_cancel_def resume_after_barge_def Let_def)

lemma dials_deadlines: "dials_ok cfg c \<Longrightarrow> dials_ok cfg (snd (advance_deadlines c))"
  by (simp add: advance_deadlines_def)

lemma dials_barge [simp]: "dials_ok cfg c \<Longrightarrow> dials_ok cfg (handle_barge f c)"
proof -
  assume c: "dials_ok cfg c"
  have mute: "dials_ok cfg (on_audio (set_playback_scale 0) (d\<lparr>c_barge_probe_frames := 0, c_barge_probe := Probe_WaitReferenceLow\<rparr>))"
    if "dials_ok cfg d" for d
    using that by (simp add: on_audio_def set_playback_scale_def dials_ok_def)
  have on: "dials_ok cfg (d\<lparr>c_barge_probe := pr\<rparr>)" if "dials_ok cfg d" "pr \<noteq> Probe_Idle" for d pr
    using that by (simp add: dials_ok_def)
  show ?thesis using c mute on by (simp add: handle_barge_def Let_def split: barge_probe.split)
qed

lemma dials_on_frame: "dials_ok cfg c \<Longrightarrow> dials_ok cfg (on_frame f c)"
proof -
  assume c: "dials_ok cfg c"
  have gap: "dials_ok cfg (on_gap d)" if "dials_ok cfg d" for d using that by (simp add: on_gap_def Let_def)
  have "dials_ok cfg (snd (send_audio_or_recover f False d))" if "dials_ok cfg d" for d
    using dials_recover [OF that, of f False] by (metis prod.collapse)
  then have "dials_ok cfg (frame_in_state f d)" if "dials_ok cfg d" for d
    using that by (simp add: frame_in_state_def Let_def split: client_state.split)
  then show ?thesis using c gap by (simp add: on_frame_def Let_def)
qed

lemma dials_begin: "dials_ok cfg c \<Longrightarrow> audio_begin c = (ok, c') \<Longrightarrow> dials_ok cfg c'"
proof -
  assume c: "dials_ok cfg c" and a: "audio_begin c = (ok, c')"
  show ?thesis
  proof (cases "\<not> e_open (c_audio c) \<or> e_active (c_audio c)")
    case False
    obtain ok1 d where d: "audio_command Cmd_PreparePlayback c = (ok1, d)" by fastforce
    have "dials_ok cfg d" by (rule dials_command [OF c d])
    then have "dials_ok cfg (d\<lparr>c_audio := snd (begin_playback ok1 (c_audio d))\<rparr>)" by (rule dials_audio [OF keeps_playback(2)])
    then show ?thesis using a d False by (auto simp: audio_begin_def split: prod.splits bool.splits)
  qed (use a c in \<open>auto simp: audio_begin_def\<close>)
qed

lemma dials_event: "dials_ok cfg c \<Longrightarrow> dials_ok cfg (handle_event e c)"
proof -
  assume c: "dials_ok cfg c"
  define c1 where "c1 = c\<lparr>c_state_deadline := c_now c + k_response_wait\<rparr>"
  have c1: "dials_ok cfg c1" using c by (simp add: c1_def)
  have "dials_ok cfg (handle_error e c)" using c by (simp add: handle_error_def Let_def)
  moreover have "dials_ok cfg (handle_audio_start c1)"
  proof -
    obtain ok c2 where a: "audio_begin (mark_first_response_progress c1) = (ok, c2)" by fastforce
    have "dials_ok cfg c2" by (rule dials_begin [OF _ a]) (simp add: c1)
    then show ?thesis by (simp add: handle_audio_start_def a split: bool.split)
  qed
  moreover have "dials_ok cfg (handle_pcm e c1)"
  proof -
    define d where "d = mark_first_response_progress c1"
    have d: "dials_ok cfg d" using c1 by (simp add: d_def)
    have "dials_ok cfg (d\<lparr>c_audio := e', c_accepted := x\<rparr>)" if "queue_tts24k pcm n (c_audio d) = Some (ok, e')" for pcm n ok e' x
      using dials_audio [OF keeps_playback(1) [OF that] d] by simp
    then show ?thesis using d
      by (auto simp: handle_pcm_def audio_queue_def d_def [symmetric] split: option.split prod.split bool.split)
  qed
  moreover have "dials_ok cfg (handle_done c1)"
  proof -
    define d where "d = mark_first_response_progress c1"
    have d: "dials_ok cfg d" using c1 by (simp add: d_def)
    have "dials_ok cfg (d\<lparr>c_audio := snd (end_playback (c_audio d))\<rparr>)" by (rule dials_audio [OF keeps_playback(3) d])
    then show ?thesis using d
      by (auto simp: handle_done_def Let_def d_def [symmetric] split: prod.split bool.split)
  qed
  moreover have "dials_ok cfg (handle_cancelled c1)" using c1 by (simp add: handle_cancelled_def Let_def)
  moreover have "dials_ok cfg (handle_hello_ack e c1)" using c1 by (simp add: handle_hello_ack_def)
  ultimately show ?thesis using c c1
    by (simp add: handle_event_def Let_def c1_def [symmetric] split: inbound_kind.split)
qed

text \<open>The one operation that turns the dials.\<close>

lemma gain_nonneg: "0 \<le> playback_gain cfg v"
  unfolding playback_gain_def by (intro divide_nonneg_pos mult_nonneg_nonneg of_nat_0_le_iff) simp

lemma dials_volume [simp]: "dials_ok cfg c \<Longrightarrow> dials_ok cfg (apply_volume v b c)"
  by (simp add: apply_volume_def Let_def on_audio_def set_playback_gain_def save_ui_settings_def dials_ok_def gain_nonneg max_absorb2)
    (auto simp: ui_call_def)

lemma dials_brightness:
  "dials_ok cfg c \<Longrightarrow> dials_ok cfg (save_ui_settings (ui_call (Call_Brightness (if b then 100 else 0)) (c\<lparr>c_brightness := b\<rparr>)))"
  by (simp add: save_ui_settings_def dials_ok_def) (simp add: ui_call_def)

lemma dials_poll_ui: "dials_ok cfg c \<Longrightarrow> dials_ok cfg (poll_ui v a c)"
proof -
  assume c: "dials_ok cfg c"
  define c1 where "c1 = (case v of None \<Rightarrow> c | Some (percent, committed) \<Rightarrow> apply_volume percent committed c)"
  have c1: "dials_ok cfg c1" using c by (simp add: c1_def split: option.split)
  then show ?thesis using dials_brightness [OF c1, of True] dials_brightness [OF c1, of False]
    by (simp add: poll_ui_def c1_def [symmetric] split: option.split device_ui_action.split)
qed

lemma dials_connect:
  assumes "dials_ok cfg c"
  shows "dials_ok cfg (finish_connect c)" "dials_ok cfg (start_connect db u th n c)"
proof -
  show "dials_ok cfg (finish_connect c)" using assms
    by (auto simp: finish_connect_def dest: dials_send [where cfg = cfg] split: option.split prod.split bool.split)
  show "dials_ok cfg (start_connect db u th n c)" using assms
    by (simp add: start_connect_def Let_def split: prod.split bool.split)
qed

lemma dials_thread:
  assumes "real_audio th" and "dials_ok cfg c" and "queue_valid (c_events c)"
  shows "dials_ok cfg (thread_step p th c)"
proof (cases th)
  case (Th_Wss ev)
  show ?thesis
  proof (cases "c_transport c")
    case None
    then show ?thesis using assms Th_Wss by (simp add: wss_step_def)
  next
    case (Some t)
    obtain t' os where st: "transport_step p (\<lambda>_. True) (callback ev) t = (t', os)" by fastforce
    have "queue_valid (c_events (c\<lparr>c_transport := Some t', c_wire := c_wire c @ os\<rparr>))" using assms(3) by simp
    then obtain q where "fold on_effect os (c\<lparr>c_transport := Some t', c_wire := c_wire c @ os\<rparr>) =
        c\<lparr>c_transport := Some t', c_wire := c_wire c @ os\<rparr>\<lparr>c_events := q\<rparr>"
      using effects_form [of "c\<lparr>c_transport := Some t', c_wire := c_wire c @ os\<rparr>" os] by blast
    then show ?thesis using Some st assms(2) Th_Wss by (simp add: wss_step_def)
  qed
next
  case (Th_Player ev)
  define pl where "pl = player_step ev (player_of c)"
  have "keeps_level (c_audio c) (pl_engine pl)" if "by_playback_thread ev"
    using keeps_player [OF that, of "player_of c"] by (simp add: pl_def player_of_def)
  then show ?thesis using assms(2) Th_Player dials_audio [of c "pl_engine pl" cfg]
    by (simp add: set_player_def pl_def [symmetric])
next
  case (Th_Capture ok r)
  then show ?thesis using dials_audio [OF keeps_iteration assms(2)] by simp
qed (use assms in \<open>simp_all add: real_audio_def\<close>)

subsection \<open>Every run\<close>

definition dial_inv :: "voice_client_config \<Rightarrow> client \<Rightarrow> bool" where
  "dial_inv cfg c \<longleftrightarrow> client_inv c \<and> dials_ok cfg c"

interpretation dial_runs: client_steps p real_audio "dial_inv cfg" for p cfg
proof unfold_locales
  fix c
  assume i: "dial_inv cfg c"
  then have c: "client_inv c" "dials_ok cfg c" by (simp_all add: dial_inv_def)
  have v: "queue_valid (c_events c)" using c(1) by (simp add: client_inv_def shape_def buffers_def)
  show "dial_inv cfg (thread_step p th c)" if "real_audio th" for th
    using c v that by (simp add: dial_inv_def client_runs.inv_thread dials_thread)
  show "dial_inv cfg (c\<lparr>c_now := now, c_sends := ss, c_handshakes := hs\<rparr>)" for now ss hs
    using c by (simp add: dial_inv_def client_runs.inv_answers)
  show "dial_inv cfg (start_connect db u th n c)" if "c_transport c = None" for db u th n
    using c that by (simp add: dial_inv_def client_runs.inv_connect dials_connect)
  show "dial_inv cfg (c\<lparr>c_audio := e\<rparr>)" if "capture_take k_actor_poll_interval (c_audio c) = (r, e)" for r e
    using client_runs.inv_capture [OF c(1) that] dials_audio [OF keeps_take [OF that] c(2)] by (simp add: dial_inv_def)
  show "dial_inv cfg (finish_connect c)" using c by (simp add: dial_inv_def client_runs.inv_hello dials_connect)
  show "dial_inv cfg (handle_event ev (c\<lparr>c_events := q\<rparr>))"
    if "c_transport c = Some t" "event_pop (c_events c) = Some (ev, q)" for t ev q
    using client_runs.inv_event [OF c(1) that] c(2) by (simp add: dial_inv_def dials_event)
  show "dial_inv cfg (poll_ui w a c)" for w a using c by (simp add: dial_inv_def client_runs.inv_ui dials_poll_ui)
  show "dial_inv cfg (lose_connection c)" using c by (simp add: dial_inv_def client_runs.inv_lose)
  show "dial_inv cfg (snd (advance_deadlines c))" using c by (simp add: dial_inv_def client_runs.inv_deadline dials_deadlines)
  show "dial_inv cfg (d\<lparr>c_next_capture_sequence := cf_sequence f + 1, c_taken := c_taken d @ [f]\<rparr>)"
    if "advance_deadlines c = (False, d)" for d f
    using client_runs.inv_skip [OF c(1) that] dials_deadlines [OF c(2)] that by (simp add: dial_inv_def)
  show "dial_inv cfg (on_frame f c)" for f using c by (simp add: dial_inv_def client_runs.inv_frame dials_on_frame)
qed

lemma dials_started:
  assumes "volume_percent cfg \<le> 100" and "client_start cfg s bo th ne origin now = Going c"
  shows "dial_inv cfg c"
proof -
  have "client_inv c" using inv_started [OF assms(1), of s bo th ne origin now] by (simp add: assms(2))
  moreover have "dials_ok cfg c"
  proof -
    define d where "d = client_setup cfg s"
    have d: "c_config d = cfg" "c_audio d = new_engine" "shown_volume d = Some (c_volume d)"
        "shown_brightness d = Some (if c_brightness d then 100 else 0)" "c_settings d = None"
      by (simp_all add: d_def client_setup_def Let_def) (simp_all add: ui_call_def new_client_def)
    have "c_volume d \<le> 100" using \<open>client_inv c\<close> assms(2)
      by (auto simp: client_inv_def shape_def buffers_def client_start_def Let_def d_def client_fail_def split: prod.splits bool.splits if_splits)
    then show ?thesis using assms(2) d
      by (auto simp: client_start_def Let_def d_def [symmetric] client_fail_def open_engine_def dials_ok_def new_engine_def
          clear_capture_queue_def split: if_splits)
  qed
  ultimately show ?thesis by (simp add: dial_inv_def)
qed

lemma run_dials:
  assumes "volume_percent cfg \<le> 100" and "\<forall>i \<in> set is. list_all real_audio (pass_threads i)"
    and "run_client p cfg s backend_ok threads_ok network_ok origin now is = Going c"
  shows "dials_ok cfg c"
proof -
  have "dial_inv cfg c"
    by (rule dial_runs.run_going [OF _ dials_started [OF assms(1)] assms(3)]) (use assms(2) in \<open>simp add: list_all_iff\<close>)
  then show ?thesis by (simp add: dial_inv_def)
qed

text \<open>C36: as long as the client runs, the places that hold the volume and the backlight agree, whatever is touched and
  whatever the other threads do: the volume is at most 100, the gain of the engine is the one configured for
  it, the display shows it and shows the backlight as it is, and what was last saved has that backlight. And
  the loudspeaker is never left muted: it is at full scale whenever no barge-in is being examined.\<close>

theorem dials_agree:
  assumes "volume_percent cfg \<le> 100" and "\<forall>i \<in> set is. list_all real_audio (pass_threads i)"
    and "run_client p cfg s backend_ok threads_ok network_ok origin now is = Going c"
  shows "c_volume c \<le> 100 \<and> e_playback_gain (c_audio c) = playback_gain cfg (c_volume c) \<and>
    shown_volume c = Some (c_volume c) \<and> shown_brightness c = Some (if c_brightness c then 100 else 0) \<and>
    (\<forall>v b. c_settings c = Some (v, b) \<longrightarrow> b = c_brightness c) \<and>
    (c_barge_probe c = Probe_Idle \<longrightarrow> e_playback_scale (c_audio c) = 1)"
  using run_dials [OF assms] by (simp add: dials_ok_def)

lemma sample_capturing_threads: "\<forall>i \<in> set sample_passes. list_all real_audio (pass_threads i)"
  by (simp add: sample_passes_def sample_pass_def sample_phase_def pass_threads_def real_audio_def sample_endpoint_def)

theorem dials_agree_witness:
  "e_playback_gain (c_audio sample_capturing) = playback_gain sample_client_config (c_volume sample_capturing) \<and>
   shown_volume sample_capturing = Some (c_volume sample_capturing)"
proof -
  have run: "run_client sample_parser sample_client_config sample_settings True True True 0 0 sample_passes = Going sample_capturing"
    by (rule sample_capturing_run)
  have "volume_percent sample_client_config \<le> 100" by (simp add: sample_client_config_def)
  from dials_agree [OF this sample_capturing_threads run] show ?thesis by simp
qed

end
