(* ===== verification/Network.thy ===== *)
theory Network
  imports VoiceClient
begin

section \<open>Bringing up the network\<close>

text \<open>
  \<^verbatim>\<open>src/client/src/network/network_bootstrap.cpp\<close>: what is accepted as a server and as Wi-Fi
  credentials, the atomic file writes, the helper processes, the saved server, discovery, and
  \<^verbatim>\<open>NetworkBootstrap::Start\<close>. System calls appear through their results; \<open>inet_pton\<close> is the libc function.
\<close>

subsection \<open>Files\<close>

type_synonym file_system = "string \<Rightarrow> string option"

definition k_wifi_config :: string where "k_wifi_config = ''/etc/wpa_supplicant.conf''"
definition k_server_config :: string where "k_server_config = ''/userdata/boompi/config/server.conf''"

text \<open>
  The results of the system calls of one \<^verbatim>\<open>AtomicWrite\<close>: whether each succeeds, and for each \<^verbatim>\<open>write\<close> the
  bytes taken. An \<^verbatim>\<open>unlink\<close> of the temporary file, which the code does not check, succeeds.
\<close>

datatype write_result = Wrote nat | Write_Interrupted | Write_Failed

record atomic_env =
  aw_open :: bool
  aw_fchmod :: bool
  aw_writes :: "write_result list"
  aw_fsync :: bool
  aw_close :: bool
  aw_rename :: bool

text \<open>The write loop; \<open>None\<close>: the results are used up before the loop ends.\<close>

fun write_all :: "write_result list \<Rightarrow> string \<Rightarrow> nat \<Rightarrow> (bool \<times> nat) option" where
  "write_all ws txt offset =
     (if length txt \<le> offset then Some (True, offset)
      else case ws of
        [] \<Rightarrow> None
      | Write_Interrupted # ws' \<Rightarrow> write_all ws' txt offset
      | Write_Failed # ws' \<Rightarrow> Some (False, offset)
      | Wrote count # ws' \<Rightarrow> if count = 0 then Some (False, offset) else write_all ws' txt (offset + count))"

definition atomic_write :: "atomic_env \<Rightarrow> string \<Rightarrow> string \<Rightarrow> file_system \<Rightarrow> (bool \<times> file_system) option" where
  "atomic_write e path txt fs = (let temporary = path @ ''.tmp'' in
     if \<not> aw_open e then Some (False, fs)
     else let fs1 = fs(temporary \<mapsto> []) in
       if \<not> aw_fchmod e then Some (False, fs1(temporary := None))
       else case write_all (aw_writes e) txt 0 of
         None \<Rightarrow> None
       | Some (written, offset) \<Rightarrow>
           let fs2 = fs1(temporary \<mapsto> take offset txt);
               ok1 = (written \<and> aw_fsync e \<and> aw_close e);
               ok2 = (ok1 \<and> aw_rename e);
               fs3 = (if ok2 then fs2(path := fs2 temporary, temporary := None) else fs2(temporary := None))
           in Some (ok2, fs3))"

subsection \<open>What is accepted\<close>

definition is_text :: "string \<Rightarrow> nat \<Rightarrow> nat \<Rightarrow> bool" where
  "is_text txt minimum maximum \<longleftrightarrow> minimum \<le> length txt \<and> length txt \<le> maximum \<and>
     list_all (\<lambda>c. \<not> (byte_of c < 0x20 \<or> byte_of c = 0x7F)) txt"

definition is_base64_char :: "char \<Rightarrow> bool" where
  "is_base64_char c \<longleftrightarrow> (byte_of CHR ''A'' \<le> byte_of c \<and> byte_of c \<le> byte_of CHR ''Z'') \<or>
     (byte_of CHR ''a'' \<le> byte_of c \<and> byte_of c \<le> byte_of CHR ''z'') \<or> is_digit c \<or> c = CHR ''+'' \<or> c = CHR ''/''"

definition is_spki :: "string \<Rightarrow> bool" where
  "is_spki txt \<longleftrightarrow> length txt = 44 \<and> last txt = CHR ''='' \<and> list_all is_base64_char (take 43 txt)"

definition is_endpoint :: "(string \<Rightarrow> bool) \<Rightarrow> endpoint \<Rightarrow> bool" where
  "is_endpoint inet_pton s \<longleftrightarrow> ep_port s \<noteq> 0 \<and> is_spki (ep_spki s) \<and> inet_pton (c_string (ep_host s))"

definition no_endpoint :: endpoint where
  "no_endpoint = \<lparr>ep_host = [], ep_port = 0, ep_spki = []\<rparr>"

subsection \<open>Helper processes\<close>

text \<open>The program the child executes, with its arguments.\<close>

definition tool_command :: "bool \<Rightarrow> string \<Rightarrow> string list" where
  "tool_command start_wifi interface =
     (if start_wifi then [''/usr/bin/wpa_supplicant'', ''wpa_supplicant'', ''-B'', ''-i'', interface, ''-c'', k_wifi_config]
      else [''/sbin/udhcpc'', ''udhcpc'', ''-n'', ''-q'', ''-t'', ''3'', ''-T'', ''2'', ''-i'', interface])"

text \<open>
  One poll of \<^verbatim>\<open>RunNetworkTool\<close>: was a stop requested, and what \<^verbatim>\<open>waitpid\<close> says. The child ends by
  exiting (\<open>Tool_Exited\<close> with success or not), because \<^verbatim>\<open>waitpid\<close> knows no such child, or killed and reaped.
  \<open>None\<close>: the answers are used up.
\<close>

datatype poll_result = Poll_Exited bool | Poll_Error bool | Poll_Running
datatype tool_end = Tool_Exited bool | Tool_Lost | Tool_Killed

definition k_tool_wait :: nat where "k_tool_wait = 12000"
definition k_tool_interval :: nat where "k_tool_interval = 100"

fun tool_loop :: "nat \<Rightarrow> (bool \<times> poll_result) list \<Rightarrow> tool_end option" where
  "tool_loop waited ps =
     (if k_tool_wait < waited then Some Tool_Killed
      else case ps of
        [] \<Rightarrow> None
      | (stop, r) # ps' \<Rightarrow>
          if stop then Some Tool_Killed
          else case r of
            Poll_Exited success \<Rightarrow> Some (Tool_Exited success)
          | Poll_Error interrupted \<Rightarrow> if \<not> interrupted then Some Tool_Lost else tool_loop (waited + k_tool_interval) ps'
          | Poll_Running \<Rightarrow> tool_loop (waited + k_tool_interval) ps')"

text \<open>The outer \<open>None\<close>: \<^verbatim>\<open>fork\<close> failed. At most 121 polls are made.\<close>

definition run_network_tool :: "(bool \<times> poll_result) list option \<Rightarrow> bool" where
  "run_network_tool ps = (case ps of None \<Rightarrow> False | Some polls \<Rightarrow> tool_loop 0 polls = Some (Tool_Exited True))"

subsection \<open>The saved server\<close>

text \<open>\<^verbatim>\<open>input >> string\<close>: the next word, or failure at the end of the input.\<close>

definition read_word :: "string \<Rightarrow> (string \<times> string) option" where
  "read_word txt = (let t = dropWhile c_isspace txt; w = takeWhile (\<lambda>c. \<not> c_isspace c) t in
     if w = [] then None else Some (w, dropWhile (\<lambda>c. \<not> c_isspace c) t))"

text \<open>\<^verbatim>\<open>input >> unsigned\<close>, with the conversion of \<^verbatim>\<open>strtoul\<close> and its range error as a failure.\<close>

definition read_unsigned :: "string \<Rightarrow> (nat \<times> string) option" where
  "read_unsigned txt = (case strtoul10 txt of (n, rest, erange) \<Rightarrow>
     if rest = txt \<or> erange then None else Some (n, rest))"

definition parse_server :: "string \<Rightarrow> endpoint option" where
  "parse_server txt = (case read_word txt of
     None \<Rightarrow> None
   | Some (host, t1) \<Rightarrow> (case read_unsigned t1 of
       None \<Rightarrow> None
     | Some (port, t2) \<Rightarrow> (case read_word t2 of
         None \<Rightarrow> None
       | Some (spki, t3) \<Rightarrow> if read_word t3 \<noteq> None \<or> 65535 < port then None
           else Some \<lparr>ep_host = host, ep_port = of_nat port, ep_spki = spki\<rparr>)))"

definition load_server :: "(string \<Rightarrow> bool) \<Rightarrow> file_system \<Rightarrow> endpoint option" where
  "load_server inet_pton fs = (case fs k_server_config of
     None \<Rightarrow> None
   | Some txt \<Rightarrow> (case parse_server txt of
       None \<Rightarrow> None
     | Some s \<Rightarrow> if is_endpoint inet_pton s then Some s else None))"

definition server_line :: "endpoint \<Rightarrow> string" where
  "server_line s = ep_host s @ '' '' @ decimal (unat (ep_port s)) @ '' '' @ ep_spki s @ [CHR 0x0A]"

text \<open>\<open>dir_ok\<close>: the directory exists or was made.\<close>

definition save_server :: "(string \<Rightarrow> bool) \<Rightarrow> bool \<Rightarrow> atomic_env \<Rightarrow> endpoint \<Rightarrow> file_system \<Rightarrow> (bool \<times> file_system) option" where
  "save_server inet_pton dir_ok e s fs =
     (if \<not> is_endpoint inet_pton s \<or> \<not> dir_ok then Some (False, fs)
      else atomic_write e k_server_config (server_line s) fs)"

subsection \<open>Wi-Fi credentials\<close>

definition wifi_quote :: "string \<Rightarrow> string" where
  "wifi_quote input = concat (map (\<lambda>c. if c = CHR 0x5C \<or> c = CHR 0x22 then [CHR 0x5C, c] else [c]) input)"

definition wifi_file :: "string \<Rightarrow> string \<Rightarrow> string" where
  "wifi_file ssid password =
     ''# boomPI-managed'' @ [CHR 0x0A] @ ''ctrl_interface=/var/run/wpa_supplicant'' @ [CHR 0x0A] @ ''network={'' @ [CHR 0x0A] @
     ''  ssid='' @ [CHR 0x22] @ wifi_quote ssid @ [CHR 0x22, CHR 0x0A] @ ''  psk='' @ [CHR 0x22] @ wifi_quote password @
     [CHR 0x22, CHR 0x0A] @ ''}'' @ [CHR 0x0A]"

definition save_wifi :: "atomic_env \<Rightarrow> string \<Rightarrow> string \<Rightarrow> file_system \<Rightarrow> (bool \<times> file_system) option" where
  "save_wifi e ssid password fs =
     (if \<not> is_text ssid 1 32 \<or> \<not> is_text password 8 63 then Some (False, fs)
      else atomic_write e k_wifi_config (wifi_file ssid password) fs)"

subsection \<open>Discovery\<close>

definition k_discover_prefix :: string where "k_discover_prefix = ''BOOMPI_SERVER_V1''"

text \<open>
  \<^verbatim>\<open>sscanf(response, "BOOMPI_SERVER_V1 %u %44s%c", ...)\<close> with result 2: port and key, and nothing after them.
  A blank in the format takes any white space, also none. \<^verbatim>\<open>%u\<close> converts as \<^verbatim>\<open>strtoul\<close> does and saturates.
\<close>

definition scan_response :: "string \<Rightarrow> (nat \<times> string) option" where
  "scan_response response =
     (if take (length k_discover_prefix) response \<noteq> k_discover_prefix then None
      else let t = drop (length k_discover_prefix) response in
        case strtoul10 t of (port, rest, _) \<Rightarrow>
          if rest = t then None
          else let u = dropWhile c_isspace rest; spki = take 44 (takeWhile (\<lambda>c. \<not> c_isspace c) u) in
            if spki = [] \<or> drop (length spki) u \<noteq> [] then None else Some (port, spki))"

text \<open>The answer to the broadcast: the bytes received, the sender's port and its address as text.\<close>

record discover_env =
  di_socket :: bool
  di_options :: bool
  di_sent :: bool
  di_received :: "(string \<times> nat \<times> string option) option"

definition discover :: "(string \<Rightarrow> bool) \<Rightarrow> discover_env \<Rightarrow> endpoint option" where
  "discover inet_pton e =
     (if \<not> di_socket e then None
      else case (if di_options e \<and> di_sent e then di_received e else None) of
        None \<Rightarrow> None
      | Some (response, peer_port, peer_host) \<Rightarrow>
          if response = [] \<or> peer_port \<noteq> 17807 then None
          else case scan_response (c_string (take 95 response)) of
            None \<Rightarrow> None
          | Some (port, spki) \<Rightarrow>
              if port = 0 \<or> 65535 < port then None
              else case peer_host of
                None \<Rightarrow> None
              | Some host \<Rightarrow>
                  let s = \<lparr>ep_host = c_string host, ep_port = of_nat port, ep_spki = spki\<rparr>
                  in if is_endpoint inet_pton s then Some s else None)"

subsection \<open>Start\<close>

text \<open>
  What the probes of the two interfaces answer, in the order they are asked: carrier and address of
  eth0, its DHCP run, the files of wlan0, its address, state, supplicant and DHCP run. \<open>st_stop\<close>: a stop was
  requested when it is checked.
\<close>

record start_env =
  st_eth_carrier :: bool
  st_eth_ip :: bool
  st_eth_dhcp :: "(bool \<times> poll_result) list option"
  st_eth_ip_after :: bool
  st_wlan_exists :: bool
  st_wifi_config :: bool
  st_wlan_ip :: bool
  st_wlan_up :: bool
  st_wlan_start :: "(bool \<times> poll_result) list option"
  st_wlan_dhcp :: "(bool \<times> poll_result) list option"
  st_wlan_ip_after :: bool
  st_stop :: bool
  st_discover :: "bool \<Rightarrow> discover_env"
  st_dir_ok :: bool
  st_save :: atomic_env

text \<open>The interface chosen: \<open>Some True\<close> is eth0, \<open>Some False\<close> wlan0.\<close>

definition select_interface :: "start_env \<Rightarrow> bool option" where
  "select_interface e =
     (if st_eth_carrier e \<and> (st_eth_ip e \<or> (run_network_tool (st_eth_dhcp e) \<and> st_eth_ip_after e)) then Some True
      else if \<not> st_wlan_exists e \<or> \<not> st_wifi_config e then None
      else if \<not> st_wlan_ip e \<and>
              ((\<not> st_wlan_up e \<and> \<not> run_network_tool (st_wlan_start e)) \<or>
               \<not> run_network_tool (st_wlan_dhcp e) \<or> \<not> st_wlan_ip_after e) then None
      else Some False)"

text \<open>\<open>None\<close>: the write of the server file does not end. The inner option is the result of \<^verbatim>\<open>Start\<close>.\<close>

definition start_network ::
  "(string \<Rightarrow> bool) \<Rightarrow> start_env \<Rightarrow> endpoint option \<Rightarrow> file_system \<Rightarrow> (endpoint option \<times> file_system) option" where
  "start_network inet_pton e explicit_server fs = (case select_interface e of
     None \<Rightarrow> Some (None, fs)
   | Some selected \<Rightarrow>
       if st_stop e then Some (None, fs)
       else case explicit_server of
         Some s \<Rightarrow> Some (if is_endpoint inet_pton s then Some s else None, fs)
       | None \<Rightarrow>
           let saved = load_server inet_pton fs in
           case discover inet_pton (st_discover e selected) of
             Some found \<Rightarrow>
               if saved = None \<or> ep_spki found = ep_spki (the saved)
               then (case save_server inet_pton (st_dir_ok e) (st_save e) found fs of
                       None \<Rightarrow> None
                     | Some (True, fs') \<Rightarrow> Some (Some found, fs')
                     | Some (False, fs') \<Rightarrow> Some (saved, fs'))
               else Some (saved, fs)
           | None \<Rightarrow> Some (saved, fs))"

end
