(* ===== verification/NetworkProps.thy ===== *)
theory NetworkProps
  imports Network
begin

section \<open>What the network bootstrap promises\<close>

text \<open>
  Files are written whole or not at all, what is saved is read back, credentials cannot escape their
  quotes, and the pinned key of a known server is never replaced by what the network says.
\<close>

subsection \<open>Atomic writes\<close>

declare write_all.simps [simp del]

lemma write_all_Cons: "\<not> length txt \<le> offset \<Longrightarrow> write_all (w # ws) txt offset =
    (case w of Write_Interrupted \<Rightarrow> write_all ws txt offset | Write_Failed \<Rightarrow> Some (False, offset)
     | Wrote count \<Rightarrow> if count = 0 then Some (False, offset) else write_all ws txt (offset + count))"
  by (subst write_all.simps) simp

lemma write_all_offset: "write_all ws txt offset = Some (True, n) \<Longrightarrow> length txt \<le> n"
proof (induction ws "txt" offset rule: write_all.induct)
  case (1 ws txt' offset)
  show ?case
  proof (cases "length txt' \<le> offset")
    case True
    then show ?thesis using 1(3) by (subst (asm) write_all.simps) simp
  next
    case False
    note steps = 1(1,2) [OF False]
    show ?thesis
    proof (cases ws)
      case Nil
      then show ?thesis using 1(3) False by (simp add: write_all.simps)
    next
      case (Cons w ws')
      then show ?thesis using 1(3) False steps
        by (cases w) (auto simp: write_all_Cons split: if_splits)
    qed
  qed
qed

lemma atomic_write_result:
  assumes "atomic_write e path txt fs = Some (ok, fs')" and "fs (path @ ''.tmp'') = None"
  shows "fs' = (if ok then fs(path \<mapsto> txt) else fs)"
proof -
  have ne: "path @ ''.tmp'' \<noteq> path" by simp
  have same: "fs(path @ ''.tmp'' := None) = fs" using assms(2) by auto
  show ?thesis
  proof (cases "aw_open e \<and> aw_fchmod e")
    case False
    then show ?thesis using assms(1) same by (auto simp: atomic_write_def Let_def split: if_splits)
  next
    case True
    then obtain written offset where w: "write_all (aw_writes e) txt 0 = Some (written, offset)"
      using assms(1) by (auto simp: atomic_write_def Let_def split: option.splits)
    show ?thesis
    proof (cases "written \<and> aw_fsync e \<and> aw_close e \<and> aw_rename e")
      case ok: True
      then have "take offset txt = txt" using write_all_offset w by auto
      then have "ok" "fs' = fs(path @ ''.tmp'' := None, path \<mapsto> txt)"
        using assms(1) True w ok ne by (auto simp: atomic_write_def Let_def fun_upd_twist)
      then show ?thesis using same by simp
    next
      case False
      then have "\<not> ok" "fs' = fs(path @ ''.tmp'' := None)"
        using assms(1) True w by (auto simp: atomic_write_def Let_def)
      then show ?thesis using same by simp
    qed
  qed
qed

text \<open>C37: \<^verbatim>\<open>AtomicWrite\<close> is all or nothing: however the writes are cut up, interrupted or fail, the file has
  its old content or the whole new text, the new text exactly when the call reports success; no temporary
  file stays behind and no other file is touched.\<close>

theorem atomic_write_all_or_nothing:
  assumes "atomic_write e path txt fs = Some (ok, fs')" and "fs (path @ ''.tmp'') = None"
  shows "fs' = (if ok then fs(path \<mapsto> txt) else fs)"
  by (rule atomic_write_result [OF assms])

definition sample_write :: atomic_env where
  "sample_write = \<lparr>aw_open = True, aw_fchmod = True, aw_writes = [Wrote 1, Write_Interrupted, Wrote 200], aw_fsync = True,
     aw_close = True, aw_rename = True\<rparr>"

theorem atomic_write_all_or_nothing_witness:
  "atomic_write sample_write ''f'' ''abc'' (\<lambda>_. None) = Some (True, [''f'' \<mapsto> ''abc''])"
proof -
  obtain fs' where w: "atomic_write sample_write ''f'' ''abc'' (\<lambda>_. None) = Some (True, fs')"
    by (simp add: atomic_write_def sample_write_def write_all.simps)
  from atomic_write_all_or_nothing [OF this] w show ?thesis by simp
qed

subsection \<open>The server file\<close>

text \<open>What the manual promises of \<^verbatim>\<open>inet_pton(AF_INET, ...)\<close>: it takes dotted decimals only.\<close>

definition dotted_only :: "(string \<Rightarrow> bool) \<Rightarrow> bool" where
  "dotted_only inet_pton \<longleftrightarrow> (\<forall>h. inet_pton h \<longrightarrow> h \<noteq> [] \<and> list_all (\<lambda>c. is_digit c \<or> c = CHR ''.'') h)"

lemma decimal_value_append: "decimal_value acc (xs @ ys) = decimal_value (decimal_value acc xs) ys"
  by (induction xs arbitrary: acc) auto

lemma decimal_char: "n < 10 \<Longrightarrow> is_digit (char_of (48 + n)) \<and> byte_of (char_of (48 + n)) = 48 + n"
  by (simp add: is_digit_def byte_of_def)

lemma decimal_facts: "decimal_value 0 (decimal n) = n \<and> list_all is_digit (decimal n) \<and> decimal n \<noteq> []"
proof (induction n rule: decimal.induct)
  case (1 n)
  show ?case
  proof (cases "n < 10")
    case True
    then show ?thesis using decimal_char [of n] by (subst (1 2 3) decimal.simps) simp
  next
    case False
    then show ?thesis using 1 decimal_char [of "n mod 10"]
      by (subst (1 2 3) decimal.simps) (simp add: decimal_value_append)
  qed
qed

lemma digit_not_space: "is_digit c \<Longrightarrow> \<not> c_isspace c \<and> c \<noteq> CHR ''-'' \<and> c \<noteq> CHR ''+''"
  by (auto simp: is_digit_def c_isspace_def byte_of_def)

lemma space_char: "c_isspace CHR '' ''" "c_isspace CHR 0x0A" "\<not> is_digit CHR '' ''"
  by (simp_all add: c_isspace_def is_digit_def byte_of_def)

lemma take_while_prefix: "list_all P xs \<Longrightarrow> \<not> P y \<Longrightarrow> takeWhile P (xs @ y # ys) = xs \<and> dropWhile P (xs @ y # ys) = y # ys"
  by (induction xs) auto

lemma strtoul10_decimal:
  assumes "n < 2 ^ 32"
  shows "strtoul10 (CHR '' '' # decimal n @ CHR '' '' # rest) = (n, CHR '' '' # rest, False)"
proof -
  obtain d ds where d: "decimal n = d # ds" using decimal_facts [of n] by (cases "decimal n") auto
  have dig: "is_digit d" "list_all is_digit (decimal n)" using decimal_facts [of n] d by auto
  have t: "dropWhile c_isspace (CHR '' '' # decimal n @ CHR '' '' # rest) = decimal n @ CHR '' '' # rest"
    using digit_not_space [OF dig(1)] by (simp add: d space_char)
  have "takeWhile is_digit (decimal n @ CHR '' '' # rest) = decimal n \<and> dropWhile is_digit (decimal n @ CHR '' '' # rest) = CHR '' '' # rest"
    by (rule take_while_prefix [OF dig(2)]) (simp add: space_char)
  moreover have "hd (decimal n @ CHR '' '' # rest) = d" by (simp add: d)
  ultimately show ?thesis
    using assms digit_not_space [OF dig(1)] decimal_facts [of n]
    unfolding strtoul10_def Let_def t by (simp add: ulong_modulus_def)
qed

lemma read_word_prefix:
  assumes "w \<noteq> []" "list_all (\<lambda>c. \<not> c_isspace c) w" "c_isspace s" "list_all c_isspace ws"
  shows "read_word (ws @ w @ s # rest) = Some (w, s # rest)"
proof -
  have "dropWhile c_isspace (ws @ w @ s # rest) = w @ s # rest"
    using assms by (induction ws) (cases w; auto)+
  moreover have "takeWhile (\<lambda>c. \<not> c_isspace c) (w @ s # rest) = w \<and> dropWhile (\<lambda>c. \<not> c_isspace c) (w @ s # rest) = s # rest"
    by (rule take_while_prefix) (use assms in simp_all)
  ultimately show ?thesis using assms(1) by (simp add: read_word_def)
qed

lemma spki_no_space: "is_spki k \<Longrightarrow> k \<noteq> [] \<and> list_all (\<lambda>c. \<not> c_isspace c) k"
proof -
  assume k: "is_spki k"
  then have len: "length k = 44" by (simp add: is_spki_def)
  then have ne: "k \<noteq> []" by auto
  have "butlast k = take 43 k" using len by (simp add: butlast_conv_take)
  then have split: "k = take 43 k @ [CHR ''='']" using k ne append_butlast_last_id [OF ne] by (simp add: is_spki_def)
  have "is_base64_char c \<Longrightarrow> \<not> c_isspace c" for c
    by (auto simp: is_base64_char_def is_digit_def c_isspace_def byte_of_def)
  then have "list_all (\<lambda>c. \<not> c_isspace c) (take 43 k)" using k by (auto simp: is_spki_def list_all_iff)
  moreover have "\<not> c_isspace CHR ''=''" by (simp add: c_isspace_def byte_of_def)
  ultimately show ?thesis using ne by (subst split) simp
qed

lemma server_line_loads:
  assumes "dotted_only inet_pton" and "is_endpoint inet_pton s" and "c_string (ep_host s) = ep_host s"
    and "fs k_server_config = Some (server_line s)"
  shows "load_server inet_pton fs = Some s"
proof -
  have h: "ep_host s \<noteq> []" "list_all (\<lambda>c. is_digit c \<or> c = CHR ''.'') (ep_host s)"
    using assms(1-3) by (auto simp: dotted_only_def is_endpoint_def)
  have "\<not> c_isspace CHR ''.''" by (simp add: c_isspace_def byte_of_def)
  then have host: "list_all (\<lambda>c. \<not> c_isspace c) (ep_host s)" using h(2) digit_not_space by (auto simp: list_all_iff)
  have spki: "ep_spki s \<noteq> []" "list_all (\<lambda>c. \<not> c_isspace c) (ep_spki s)"
    using spki_no_space [of "ep_spki s"] assms(2) by (auto simp: is_endpoint_def)
  define n where "n = unat (ep_port s)"
  have n: "n < 2 ^ 32" "n \<le> 65535" "of_nat n = ep_port s"
    using unsigned_less [of "ep_port s", where ?'a = nat] by (simp_all add: n_def)
  have w1: "read_word (server_line s) = Some (ep_host s, CHR '' '' # decimal n @ CHR '' '' # ep_spki s @ [CHR 0x0A])"
    using read_word_prefix [OF h(1) host space_char(1), of "[]" "decimal n @ CHR '' '' # ep_spki s @ [CHR 0x0A]"]
    by (simp add: server_line_def n_def)
  have w2: "read_unsigned (CHR '' '' # decimal n @ CHR '' '' # ep_spki s @ [CHR 0x0A]) = Some (n, CHR '' '' # ep_spki s @ [CHR 0x0A])"
    using decimal_facts [of n] by (simp add: read_unsigned_def strtoul10_decimal [OF n(1)])
  have w3: "read_word (CHR '' '' # ep_spki s @ [CHR 0x0A]) = Some (ep_spki s, [CHR 0x0A])"
    using read_word_prefix [OF spki space_char(2), of "'' ''" "[]"] space_char by simp
  have w4: "read_word [CHR 0x0A] = None" by (simp add: read_word_def space_char)
  have "\<lparr>ep_host = ep_host s, ep_port = ep_port s, ep_spki = ep_spki s\<rparr> = s" by (cases s) simp
  note eta = this
  show ?thesis using assms(2,4) n(2,3) by (simp add: load_server_def parse_server_def w1 w2 w3 w4 eta)
qed

text \<open>What \<^verbatim>\<open>SaveServer\<close> writes, \<^verbatim>\<open>LoadServer\<close> reads back unchanged: host, port and pinned key of every
  endpoint it accepts.\<close>

theorem server_file_roundtrip:
  assumes "dotted_only inet_pton" and "is_endpoint inet_pton s" and "c_string (ep_host s) = ep_host s"
    and "fs k_server_config = Some (server_line s)"
  shows "load_server inet_pton fs = Some s"
  using server_line_loads assms by blast

theorem server_file_roundtrip_witness:
  "load_server (\<lambda>h. h = ''192.168.1.10'')
     [k_server_config \<mapsto> server_line \<lparr>ep_host = ''192.168.1.10'', ep_port = 8443, ep_spki = replicate 43 CHR ''A'' @ ''=''\<rparr>] =
   Some \<lparr>ep_host = ''192.168.1.10'', ep_port = 8443, ep_spki = replicate 43 CHR ''A'' @ ''=''\<rparr>"
proof (rule server_file_roundtrip)
  show "dotted_only (\<lambda>h. h = ''192.168.1.10'')" by (simp add: dotted_only_def is_digit_def byte_of_def)
  show "is_endpoint (\<lambda>h. h = ''192.168.1.10'') \<lparr>ep_host = ''192.168.1.10'', ep_port = 8443, ep_spki = replicate 43 CHR ''A'' @ ''=''\<rparr>"
    by (simp add: is_endpoint_def is_spki_def is_base64_char_def list_all_iff c_string_def byte_of_def)
qed (simp_all add: c_string_def byte_of_def)

subsection \<open>The pinned key of a known server\<close>

lemma c_string_idem: "c_string (c_string h) = c_string h"
  by (simp add: c_string_def takeWhile_eq_all_conv)

lemma discover_endpoint: "discover inet_pton e = Some s \<Longrightarrow> is_endpoint inet_pton s \<and> c_string (ep_host s) = ep_host s"
  by (auto simp: discover_def Let_def c_string_idem split: if_splits option.splits prod.splits)

lemma load_server_endpoint: "load_server inet_pton fs = Some s \<Longrightarrow> is_endpoint inet_pton s"
  by (auto simp: load_server_def split: if_splits option.splits)

lemma save_server_result:
  assumes "save_server inet_pton dir_ok e s fs = Some (ok, fs')" and "fs (k_server_config @ ''.tmp'') = None"
  shows "fs' = (if ok then fs(k_server_config \<mapsto> server_line s) else fs)"
  using atomic_write_result [of e k_server_config "server_line s" fs ok fs'] assms
  by (auto simp: save_server_def split: if_splits)

lemma start_network_outcome:
  assumes "fs (k_server_config @ ''.tmp'') = None" and saved: "load_server inet_pton fs = Some saved"
    and start: "start_network inet_pton e None fs = Some (r, fs')"
  shows "(r = None \<and> fs' = fs) \<or> (r = Some saved \<and> fs' = fs) \<or>
    (\<exists>found. r = Some found \<and> is_endpoint inet_pton found \<and> c_string (ep_host found) = ep_host found \<and>
       ep_spki found = ep_spki saved \<and> fs' k_server_config = Some (server_line found))"
proof (cases "select_interface e = None \<or> st_stop e")
  case True
  then show ?thesis using start by (auto simp: start_network_def split: option.splits if_splits)
next
  case False
  then obtain selected where sel: "select_interface e = Some selected" "\<not> st_stop e" by auto
  show ?thesis
  proof (cases "discover inet_pton (st_discover e selected)")
    case None
    then show ?thesis using start sel saved by (simp add: start_network_def)
  next
    case (Some found)
    show ?thesis
    proof (cases "ep_spki found = ep_spki saved")
      case False
      then show ?thesis using start sel saved Some by (simp add: start_network_def)
    next
      case True
      then obtain ok f where sv: "save_server inet_pton (st_dir_ok e) (st_save e) found fs = Some (ok, f)"
        using start sel saved Some by (auto simp: start_network_def split: option.splits)
      have "r = (if ok then Some found else Some saved) \<and> fs' = f"
        using start sel saved Some True sv by (cases ok) (simp_all add: start_network_def)
      then show ?thesis
        using save_server_result [OF sv assms(1)] discover_endpoint [OF Some] True by (cases ok) simp_all
    qed
  qed
qed

text \<open>C20: the network cannot replace the key of a server the device knows: however discovery answers, \<^verbatim>\<open>Start\<close>
  returns an endpoint with the saved key or fails, and after it the file still holds that key, also when
  the address in it was updated.\<close>

theorem bootstrap_keeps_pin:
  assumes "dotted_only inet_pton" and "fs (k_server_config @ ''.tmp'') = None"
    and "load_server inet_pton fs = Some saved"
    and "start_network inet_pton e None fs = Some (r, fs')"
  shows "(case r of None \<Rightarrow> True | Some s \<Rightarrow> is_endpoint inet_pton s \<and> ep_spki s = ep_spki saved) \<and>
    (\<exists>s. load_server inet_pton fs' = Some s \<and> ep_spki s = ep_spki saved)"
proof -
  consider "r = None" "fs' = fs" | "r = Some saved" "fs' = fs"
    | found where "r = Some found" "is_endpoint inet_pton found" "c_string (ep_host found) = ep_host found"
        "ep_spki found = ep_spki saved" "fs' k_server_config = Some (server_line found)"
    using start_network_outcome [OF assms(2-4)] by blast
  then show ?thesis
  proof cases
    case 3
    then have "load_server inet_pton fs' = Some found" using server_line_loads assms(1) by blast
    then show ?thesis using 3 by simp
  qed (use assms(3) load_server_endpoint in auto)
qed

text \<open>A device whose server moved to another address and answers with its key.\<close>

definition sample_pin :: string where "sample_pin = replicate 43 CHR ''A'' @ ''=''"

definition sample_reply :: string where "sample_reply = ''BOOMPI_SERVER_V1 9443 '' @ sample_pin"

definition sample_inet :: "string \<Rightarrow> bool" where
  "sample_inet h \<longleftrightarrow> h = ''10.0.0.1'' \<or> h = ''10.0.0.2''"

definition sample_saved :: endpoint where
  "sample_saved = \<lparr>ep_host = ''10.0.0.1'', ep_port = 8443, ep_spki = sample_pin\<rparr>"

definition sample_bootstrap :: start_env where
  "sample_bootstrap = \<lparr>st_eth_carrier = True, st_eth_ip = True, st_eth_dhcp = None, st_eth_ip_after = False, st_wlan_exists = False,
     st_wifi_config = False, st_wlan_ip = False, st_wlan_up = False, st_wlan_start = None, st_wlan_dhcp = None,
     st_wlan_ip_after = False, st_stop = False,
     st_discover = (\<lambda>_. \<lparr>di_socket = True, di_options = True, di_sent = True,
       di_received = Some (sample_reply, 17807, Some ''10.0.0.2'')\<rparr>),
     st_dir_ok = True, st_save = sample_write\<lparr>aw_writes := [Wrote 1000]\<rparr>\<rparr>"

lemma sample_inet_dotted: "dotted_only sample_inet"
  by (simp add: dotted_only_def sample_inet_def is_digit_def byte_of_def)

lemma sample_saved_endpoint: "is_endpoint sample_inet sample_saved \<and> c_string (ep_host sample_saved) = ep_host sample_saved"
  by (simp add: sample_saved_def sample_pin_def sample_inet_def is_endpoint_def is_spki_def is_base64_char_def list_all_iff c_string_def byte_of_def)

lemma scan_response_form:
  assumes "n < 2 ^ 32" "is_spki k"
  shows "scan_response (k_discover_prefix @ CHR '' '' # decimal n @ CHR '' '' # k) = Some (n, k)"
proof -
  have k: "k \<noteq> []" "takeWhile (\<lambda>c. \<not> c_isspace c) k = k" "length k = 44" "\<not> c_isspace (hd k)"
    using spki_no_space [OF assms(2)] assms(2) by (auto simp: list_all_iff takeWhile_eq_all_conv is_spki_def)
  have d: "dropWhile c_isspace (CHR '' '' # k) = k" using k(1,4) space_char(1) by (cases k) auto
  have ne: "CHR '' '' # k \<noteq> CHR '' '' # decimal n @ CHR '' '' # k" by simp
  have t: "drop (length k_discover_prefix) (k_discover_prefix @ CHR '' '' # decimal n @ CHR '' '' # k) =
      CHR '' '' # decimal n @ CHR '' '' # k" by simp
  show ?thesis using k(1) ne
    unfolding scan_response_def t Let_def strtoul10_decimal [OF assms(1)] prod.case d by (simp add: k(2,3))
qed

lemma decimal_9443: "decimal 9443 = ''9443''"
  by (simp add: decimal.simps) (simp add: char_of_def bit_0)

lemma sample_response:
  "c_string (take 95 sample_reply) = k_discover_prefix @ CHR '' '' # decimal 9443 @ CHR '' '' # sample_pin \<and> sample_reply \<noteq> []"
  by (simp add: c_string_def sample_reply_def sample_pin_def k_discover_prefix_def decimal_9443 byte_of_def)

lemma sample_host: "c_string ''10.0.0.2'' = ''10.0.0.2''"
  by (simp add: c_string_def byte_of_def)

lemma sample_pin_is_spki: "is_spki sample_pin"
  by (simp add: sample_pin_def is_spki_def is_base64_char_def list_all_iff byte_of_def)

lemma sample_writes: "length v \<le> 1000 \<Longrightarrow> \<exists>n. write_all [Wrote 1000] v 0 = Some (True, n)"
  by (cases "v = []") (simp_all add: write_all.simps)

theorem bootstrap_keeps_pin_witness:
  "\<exists>fs'. start_network sample_inet sample_bootstrap None [k_server_config \<mapsto> server_line sample_saved] =
      Some (Some (sample_saved\<lparr>ep_host := ''10.0.0.2'', ep_port := 9443\<rparr>), fs') \<and>
     (\<exists>s. load_server sample_inet fs' = Some s \<and> ep_spki s = sample_pin)"
proof -
  define fs where "fs = [k_server_config \<mapsto> server_line sample_saved]"
  define found where "found = sample_saved\<lparr>ep_host := ''10.0.0.2'', ep_port := 9443\<rparr>"
  have ld: "load_server sample_inet fs = Some sample_saved"
    using server_line_loads [OF sample_inet_dotted, of sample_saved fs] sample_saved_endpoint by (simp add: fs_def)
  have ep: "is_endpoint sample_inet found"
    using sample_pin_is_spki
    by (simp add: is_endpoint_def found_def sample_saved_def sample_inet_def c_string_def byte_of_def)
  have dd: "discover sample_inet (st_discover sample_bootstrap True) = Some found"
    using ep sample_pin_is_spki
    by (simp add: discover_def sample_bootstrap_def found_def sample_saved_def sample_response scan_response_form
        sample_host)
  have len: "length (server_line found) \<le> 1000"
    by (simp add: server_line_def found_def sample_saved_def sample_pin_def decimal.simps)
  obtain fs' where sv: "save_server sample_inet True (st_save sample_bootstrap) found fs = Some (True, fs')"
    using ep sample_writes [OF len]
    by (auto simp: save_server_def atomic_write_def sample_bootstrap_def sample_write_def Let_def)
  have st: "start_network sample_inet sample_bootstrap None fs = Some (Some found, fs')"
    using ld dd sv
    by (simp add: start_network_def select_interface_def) (simp add: sample_bootstrap_def found_def sample_saved_def)
  have "fs (k_server_config @ ''.tmp'') = None" by (simp add: fs_def)
  from bootstrap_keeps_pin [OF sample_inet_dotted this ld st] st show ?thesis
    by (auto simp: fs_def found_def sample_saved_def)
qed

text \<open>
  The bootstrap checks the shape of a key only; \<^verbatim>\<open>IsValidSpkiSha256\<close>, which the transport asks before it
  connects, also checks that the padding bits are zero. Such an endpoint is saved and never connected to.
\<close>

lemma spki_checks_differ:
  "is_spki (replicate 42 CHR ''A'' @ ''B='') \<and> \<not> is_valid_spki_sha256 (replicate 42 CHR ''A'' @ ''B='')"
proof
  show "is_spki (replicate 42 CHR ''A'' @ ''B='')"
    by (simp add: is_spki_def is_base64_char_def list_all_iff byte_of_def)
  show "\<not> is_valid_spki_sha256 (replicate 42 CHR ''A'' @ ''B='')" by code_simp
qed

subsection \<open>Wi-Fi credentials stay in their quotes\<close>

text \<open>Reading a quoted value: a backslash stands for the next byte, a bare quote ends it.\<close>

fun unquote :: "string \<Rightarrow> (string \<times> string) option" where
  "unquote [] = None"
| "unquote (c # cs) =
     (if c = CHR 0x22 then Some ([], cs)
      else if c = CHR 0x5C then (case cs of [] \<Rightarrow> None | d # ds \<Rightarrow> map_option (\<lambda>(v, r). (d # v, r)) (unquote ds))
      else map_option (\<lambda>(v, r). (c # v, r)) (unquote cs))"

lemma unquote_quote: "unquote (wifi_quote v @ CHR 0x22 # rest) = Some (v, rest)"
  by (induction v) (auto simp: wifi_quote_def)

lemma newlines_in_quote: "is_text v lo hi \<Longrightarrow> CHR 0x0A \<notin> set (wifi_quote v)"
  by (auto simp: is_text_def list_all_iff wifi_quote_def byte_of_def)

text \<open>The file read back: the fixed lines around two quoted values.\<close>

definition wifi_head :: string where
  "wifi_head = ''# boomPI-managed'' @ [CHR 0x0A] @ ''ctrl_interface=/var/run/wpa_supplicant'' @ [CHR 0x0A] @
     ''network={'' @ [CHR 0x0A] @ ''  ssid='' @ [CHR 0x22]"

definition wifi_middle :: string where "wifi_middle = CHR 0x0A # ''  psk='' @ [CHR 0x22]"

definition wifi_tail :: string where "wifi_tail = CHR 0x0A # ''}'' @ [CHR 0x0A]"

definition read_credentials :: "string \<Rightarrow> (string \<times> string) option" where
  "read_credentials v = (if take (length wifi_head) v \<noteq> wifi_head then None
     else case unquote (drop (length wifi_head) v) of
       None \<Rightarrow> None
     | Some (ssid, r) \<Rightarrow> if take (length wifi_middle) r \<noteq> wifi_middle then None
         else case unquote (drop (length wifi_middle) r) of
           None \<Rightarrow> None
         | Some (password, r') \<Rightarrow> if r' = wifi_tail then Some (ssid, password) else None)"

lemma wifi_file_split:
  "wifi_file ssid password = wifi_head @ wifi_quote ssid @ CHR 0x22 # wifi_middle @ wifi_quote password @ CHR 0x22 # wifi_tail"
  by (simp add: wifi_file_def wifi_head_def wifi_middle_def wifi_tail_def)

lemma read_credentials_file: "read_credentials (wifi_file ssid password) = Some (ssid, password)"
  by (simp add: read_credentials_def wifi_file_split unquote_quote)

lemma wifi_file_lines:
  assumes "is_text ssid a b" "is_text password c d"
  shows "length (filter (\<lambda>x. x = CHR 0x0A) (wifi_file ssid password)) = 6"
proof -
  have "filter (\<lambda>x. x = CHR 0x0A) (wifi_quote ssid) = []" "filter (\<lambda>x. x = CHR 0x0A) (wifi_quote password) = []"
    using newlines_in_quote [OF assms(1)] newlines_in_quote [OF assms(2)] by (auto simp: filter_empty_conv)
  then show ?thesis unfolding wifi_file_split by (simp add: wifi_head_def wifi_middle_def wifi_tail_def)
qed



subsection \<open>Helper processes\<close>

text \<open>A poll that neither asks to stop nor ends the child; the end that the first other poll decides.\<close>

definition still_waiting :: "bool \<times> poll_result \<Rightarrow> bool" where
  "still_waiting q \<longleftrightarrow> q = (False, Poll_Running) \<or> q = (False, Poll_Error True)"

definition decided_end :: "(bool \<times> poll_result) option \<Rightarrow> tool_end" where
  "decided_end q = (case q of
     Some (False, Poll_Exited success) \<Rightarrow> Tool_Exited success
   | Some (False, Poll_Error _) \<Rightarrow> Tool_Lost
   | _ \<Rightarrow> Tool_Killed)"

declare tool_loop.simps [simp del]

lemma tool_loop_over: "k_tool_wait < waited \<Longrightarrow> tool_loop waited ps = Some Tool_Killed"
  by (subst tool_loop.simps) simp

lemma tool_loop_Cons:
  "waited \<le> k_tool_wait \<Longrightarrow> tool_loop waited (q # ps) =
     (if still_waiting q then tool_loop (waited + k_tool_interval) ps else Some (decided_end (Some q)))"
  by (subst tool_loop.simps)
    (auto simp: still_waiting_def decided_end_def split: prod.splits poll_result.splits bool.splits)

lemma tool_loop_decides:
  assumes "n \<le> 121" "121 \<le> n + length ps"
  shows "tool_loop (n * k_tool_interval) (ps @ qs) = Some (decided_end (find (\<lambda>q. \<not> still_waiting q) (take (121 - n) ps)))"
  using assms
proof (induction "121 - n" arbitrary: n ps)
  case 0
  then show ?case by (simp add: tool_loop_over k_tool_wait_def k_tool_interval_def decided_end_def)
next
  case (Suc m)
  then obtain q ps' where ps: "ps = q # ps'" by (cases ps) auto
  have le: "n * k_tool_interval \<le> k_tool_wait" and n: "121 - n = Suc (121 - Suc n)"
    using Suc.hyps(2) Suc.prems by (simp_all add: k_tool_wait_def k_tool_interval_def)
  have "tool_loop (Suc n * k_tool_interval) (ps' @ qs) = Some (decided_end (find (\<lambda>q. \<not> still_waiting q) (take (121 - Suc n) ps')))"
    using Suc.hyps(2) Suc.prems ps by (intro Suc.hyps(1)) auto
  then show ?case using le by (simp add: ps n tool_loop_Cons add.commute del: find.simps take_Suc) (simp add: ps n)
qed

text \<open>C38: \<^verbatim>\<open>RunNetworkTool\<close> always returns: it polls at most 121 times, the first poll that is not "still running"
  decides how the child ends, and when none of them does the child is killed and reaped. Success is exactly a
  clean exit seen before any request to stop.\<close>

theorem helper_processes_bounded:
  assumes "121 \<le> length ps"
  shows "tool_loop 0 (ps @ qs) = Some (decided_end (find (\<lambda>q. \<not> still_waiting q) (take 121 ps))) \<and>
    (run_network_tool (Some (ps @ qs)) \<longleftrightarrow> find (\<lambda>q. \<not> still_waiting q) (take 121 ps) = Some (False, Poll_Exited True))"
proof -
  have "tool_loop 0 (ps @ qs) = Some (decided_end (find (\<lambda>q. \<not> still_waiting q) (take 121 ps)))"
    using tool_loop_decides [of 0 ps qs] assms by simp
  then show ?thesis
    by (auto simp: run_network_tool_def decided_end_def split: option.splits prod.splits bool.splits poll_result.splits)
qed

theorem helper_processes_bounded_witness:
  "let ps = replicate 3 (False, Poll_Running) @ [(False, Poll_Exited True)] in
     run_network_tool (Some (ps @ replicate 117 (False, Poll_Running))) \<and>
     \<not> run_network_tool (Some (replicate 121 (False, Poll_Running) @ ps))"
proof -
  have a: "run_network_tool (Some ((replicate 3 (False, Poll_Running) @ (False, Poll_Exited True) # replicate 117 (False, Poll_Running)) @ []))"
    by (subst helper_processes_bounded [THEN conjunct2]) (simp_all add: numeral_eq_Suc still_waiting_def)
  have b: "\<not> run_network_tool (Some (replicate 121 (False, Poll_Running) @ qs))" for qs
  proof -
    have "find (\<lambda>q. \<not> still_waiting q) (replicate n (False, Poll_Running)) = None" for n
      by (simp add: find_None_iff still_waiting_def)
    then show ?thesis by (subst helper_processes_bounded [THEN conjunct2]) simp_all
  qed
  show ?thesis using a b by (simp add: Let_def)
qed

end
