(* ===== verification/Settings.thy ===== *)
theory Settings
  imports ClientDials NetworkProps
begin

section \<open>The settings file\<close>

text \<open>
  Volume and backlight outlive the client in \<^verbatim>\<open>/userdata/boompi/config/ui.settings\<close>:
  \<^verbatim>\<open>SaveUiSettings\<close> writes the file, the first lines of \<^verbatim>\<open>Run\<close> read it back. The
  results of the file operations are an argument; the two extractions follow the rules of
  \<^verbatim>\<open>std::istream\<close>.
\<close>

subsection \<open>Writing\<close>

definition k_ui_settings :: string where "k_ui_settings = ''/userdata/boompi/config/ui.settings''"

definition settings_text :: "u8 \<Rightarrow> bool \<Rightarrow> string" where
  "settings_text v b = decimal (unat v) @ '' '' @ (if b then ''100'' else ''0'') @ [CHR 0x0A]"

text \<open>\<open>so_written\<close>: how much reached the file when writing or closing it failed, \<open>None\<close> when all is well.\<close>

record settings_io =
  so_open :: bool
  so_written :: "nat option"
  so_rename :: bool

definition save_settings_file :: "settings_io \<Rightarrow> u8 \<Rightarrow> bool \<Rightarrow> file_system \<Rightarrow> file_system" where
  "save_settings_file io v b fs = (let temporary = k_ui_settings @ ''.tmp'' in
     if \<not> so_open io then fs
     else case so_written io of
       Some n \<Rightarrow> fs(temporary \<mapsto> take n (settings_text v b))
     | None \<Rightarrow> let fs1 = fs(temporary \<mapsto> settings_text v b) in
         if so_rename io then fs1(k_ui_settings := fs1 temporary, temporary := None) else fs1)"

definition settings_saved :: "settings_io \<Rightarrow> bool" where
  "settings_saved io \<longleftrightarrow> so_open io \<and> so_written io = None \<and> so_rename io"

subsection \<open>Reading\<close>

text \<open>
  \<^verbatim>\<open>input >> value\<close> for an \<^verbatim>\<open>unsigned\<close>: nothing happens on a stream that is not good; when
  white space is all there is, the value stays; without a digit it becomes 0; too large, the maximum; a minus
  sign negates.
\<close>

record istream =
  is_rest :: string
  is_eof :: bool
  is_fail :: bool

definition get_unsigned :: "istream \<Rightarrow> nat \<Rightarrow> nat \<times> istream" where
  "get_unsigned s old =
     (if is_eof s \<or> is_fail s then (old, s\<lparr>is_fail := True\<rparr>)
      else let t = dropWhile c_isspace (is_rest s) in
        if t = [] then (old, \<lparr>is_rest = [], is_eof = True, is_fail = True\<rparr>)
        else let u = (if hd t = CHR ''-'' \<or> hd t = CHR ''+'' then tl t else t);
                 ds = takeWhile is_digit u; rest = dropWhile is_digit u; n = decimal_value 0 ds;
                 bad = (ds = [] \<or> 2 ^ 32 \<le> n)
          in (if ds = [] then 0 else if 2 ^ 32 \<le> n then 2 ^ 32 - 1
              else if hd t = CHR ''-'' then (2 ^ 32 - n) mod 2 ^ 32 else n,
              \<lparr>is_rest = rest, is_eof = (rest = []), is_fail = bad\<rparr>))"

definition open_stream :: "string option \<Rightarrow> istream" where
  "open_stream file = (case file of None \<Rightarrow> \<lparr>is_rest = [], is_eof = False, is_fail = True\<rparr>
     | Some txt \<Rightarrow> \<lparr>is_rest = txt, is_eof = False, is_fail = False\<rparr>)"

definition read_settings :: "u8 \<Rightarrow> string option \<Rightarrow> saved_settings" where
  "read_settings volume file =
     (case get_unsigned (open_stream file) (unat volume) of (saved_volume, s1) \<Rightarrow>
       (case get_unsigned s1 100 of (saved_brightness, s2) \<Rightarrow>
         \<lparr>ss_ok = (\<not> is_fail s2), ss_volume = saved_volume, ss_brightness = saved_brightness\<rparr>))"

subsection \<open>What is written is read\<close>

lemma digits_prefix: "list_all is_digit ds \<Longrightarrow> rest = [] \<or> \<not> is_digit (hd rest) \<Longrightarrow>
   takeWhile is_digit (ds @ rest) = ds \<and> dropWhile is_digit (ds @ rest) = rest"
  by (induction ds) (cases rest; auto)+

lemma get_digits:
  assumes "list_all is_digit ds" "ds \<noteq> []" "decimal_value 0 ds < 2 ^ 32" "rest = [] \<or> \<not> is_digit (hd rest)" "list_all c_isspace sp"
  shows "get_unsigned \<lparr>is_rest = sp @ ds @ rest, is_eof = False, is_fail = False\<rparr> old =
    (decimal_value 0 ds, \<lparr>is_rest = rest, is_eof = (rest = []), is_fail = False\<rparr>)"
proof -
  obtain d ds' where d: "ds = d # ds'" using assms(2) by (cases ds) auto
  have dig: "\<not> c_isspace d" "d \<noteq> CHR ''-''" "d \<noteq> CHR ''+''" using digit_not_space [of d] assms(1) d by auto
  have drop: "dropWhile c_isspace (sp @ ds @ rest) = ds @ rest"
    using assms(5) dig(1) by (induction sp) (simp_all add: d)
  have take: "takeWhile is_digit (ds @ rest) = ds" "dropWhile is_digit (ds @ rest) = rest"
    using digits_prefix [OF assms(1,4)] by simp_all
  have "hd (ds @ rest) = d" "ds @ rest \<noteq> []" by (simp_all add: d)
  then show ?thesis using assms(2,3) dig(2,3) unfolding get_unsigned_def by (simp add: Let_def drop take del: append_is_Nil_conv dropWhile_eq_Nil_conv)
qed

lemma decimal_prefix:
  assumes "k \<le> length (decimal n)"
  shows "decimal_value 0 (take k (decimal n)) \<le> n"
proof -
  have "decimal_value a ds \<ge> a" for a ds
  proof (induction ds arbitrary: a)
    case (Cons c cs)
    show ?case using Cons.IH [of "10 * a + (byte_of c - 48)"] by simp
  qed simp
  then have "decimal_value 0 xs \<le> decimal_value 0 (xs @ ys)" for xs ys by (simp add: decimal_value_append)
  from this [of "take k (decimal n)" "drop k (decimal n)"] show ?thesis using decimal_facts [of n] by simp
qed

text \<open>Every prefix of the file gives either what was saved or, as a whole, the defaults.\<close>

lemma read_prefix:
  fixes v :: u8 and b :: bool
  assumes "s = read_settings volume (Some (take n (settings_text v b)))"
  shows "if length (decimal (unat v)) + 2 \<le> n then ss_ok s \<and> ss_volume s = unat v \<and> (ss_brightness s \<noteq> 0) = b
    else \<not> ss_ok s \<and> ss_brightness s = 100"
proof -
  define D where "D = decimal (unat v)"
  have D: "list_all is_digit D" "D \<noteq> []" "decimal_value 0 D = unat v" using decimal_facts [of "unat v"] by (simp_all add: D_def)
  have "unat v < 2 ^ LENGTH(8)" by (rule unsigned_less)
  then have small: "unat v < 2 ^ 32" by simp
  have space: "\<not> is_digit CHR '' ''" "c_isspace CHR '' ''" by (simp_all add: space_char)
  define T where "T = (if b then ''100'' else ''0'') @ [CHR 0x0A]"
  have written: "settings_text v b = D @ CHR '' '' # T" by (simp add: settings_text_def D_def T_def)
  consider (none) "n = 0" | (digits) "0 < n" "n \<le> length D" | (space) "n = length D + 1" | (more) k where "n = length D + 2 + k"
    by (metis One_nat_def Suc_eq_plus1 add_2_eq_Suc' le_Suc_ex le_antisym nat_le_linear not_gr_zero not_less_eq_eq)
  then show ?thesis
  proof cases
    case none
    then show ?thesis using assms by (simp add: read_settings_def open_stream_def get_unsigned_def)
  next
    case digits
    have "list_all is_digit (take n D)" using D(1) by (auto simp: list_all_iff dest: in_set_takeD)
    moreover have "take n D \<noteq> []" using digits D(2) by simp
    moreover have "decimal_value 0 (take n D) < 2 ^ 32"
      using decimal_prefix [of n "unat v"] digits(2) small by (simp add: D_def)
    ultimately have "get_unsigned \<lparr>is_rest = take n D, is_eof = False, is_fail = False\<rparr> old =
        (decimal_value 0 (take n D), \<lparr>is_rest = [], is_eof = True, is_fail = False\<rparr>)" for old
      using get_digits [of "take n D" "[]" "[]"] by simp
    then show ?thesis using digits assms by (simp add: read_settings_def open_stream_def written D_def [symmetric] get_unsigned_def)
  next
    case space
    have "get_unsigned \<lparr>is_rest = D @ '' '', is_eof = False, is_fail = False\<rparr> old =
        (unat v, \<lparr>is_rest = '' '', is_eof = False, is_fail = False\<rparr>)" for old
      using get_digits [of D "'' ''" "[]"] D small \<open>\<not> is_digit CHR '' ''\<close> by simp
    then show ?thesis using space assms \<open>c_isspace CHR '' ''\<close>
      by (simp add: read_settings_def open_stream_def written D_def [symmetric]) (simp add: get_unsigned_def)
  next
    case (more k)
    define U where "U = take (k + 1) T"
    have first: "get_unsigned \<lparr>is_rest = D @ CHR '' '' # U, is_eof = False, is_fail = False\<rparr> old =
        (unat v, \<lparr>is_rest = CHR '' '' # U, is_eof = False, is_fail = False\<rparr>)" for old
      using get_digits [of D "CHR '' '' # U" "[]"] D small space by simp
    have second: "\<exists>m s2. get_unsigned \<lparr>is_rest = CHR '' '' # U, is_eof = False, is_fail = False\<rparr> 100 = (m, s2) \<and>
        \<not> is_fail s2 \<and> (m \<noteq> 0) = b"
    proof -
      have "\<exists>ds r. U = ds @ r \<and> list_all is_digit ds \<and> ds \<noteq> [] \<and> (r = [] \<or> \<not> is_digit (hd r)) \<and>
          decimal_value 0 ds < 2 ^ 32 \<and> (decimal_value 0 ds \<noteq> 0) = b"
      proof (cases b)
        case True
        consider "k = 0" | "k = 1" | "k = 2" | "3 \<le> k" by linarith
        then show ?thesis
        proof cases
          case 1
          then show ?thesis using True by (intro exI [of _ "''1''"] exI [of _ "[]"]) (simp add: U_def T_def is_digit_def byte_of_def)
        next
          case 2
          then show ?thesis using True by (intro exI [of _ "''10''"] exI [of _ "[]"]) (simp add: U_def T_def is_digit_def byte_of_def)
        next
          case 3
          then show ?thesis using True by (intro exI [of _ "''100''"] exI [of _ "[]"]) (simp add: U_def T_def is_digit_def byte_of_def)
        next
          case 4
          then show ?thesis using True
            by (intro exI [of _ "''100''"] exI [of _ "[CHR 0x0A]"]) (simp add: U_def T_def is_digit_def byte_of_def)
        qed
      next
        case False
        then show ?thesis
          by (intro exI [of _ "''0''"] exI [of _ "take k [CHR 0x0A]"]) (cases k; simp add: U_def T_def is_digit_def byte_of_def)
      qed
      then obtain ds r where u: "U = ds @ r" "list_all is_digit ds" "ds \<noteq> []" "r = [] \<or> \<not> is_digit (hd r)"
          "decimal_value 0 ds < 2 ^ 32" "(decimal_value 0 ds \<noteq> 0) = b" by blast
      then show ?thesis using get_digits [OF u(2,3,5,4), of "'' ''"] space by simp
    qed
    have "take n (settings_text v b) = D @ CHR '' '' # U" by (simp add: written more U_def)
    then show ?thesis using assms first second more
      by (auto simp: read_settings_def open_stream_def D_def)
  qed
qed

subsection \<open>From one run to the next\<close>

lemma saved_file:
  "(save_settings_file io v b fs) k_ui_settings = (if settings_saved io then Some (settings_text v b) else fs k_ui_settings)"
  by (simp add: save_settings_file_def settings_saved_def Let_def k_ui_settings_def split: option.split)

lemma started_dials:
  assumes "client_start cfg s bo th ne origin now = Going d"
  shows "c_volume d = (if ss_ok s \<and> ss_volume s \<le> 100 then of_nat (ss_volume s) else volume_percent cfg)"
    "c_brightness d = (ss_brightness s \<noteq> 0)"
  using assms
  by (auto simp: client_start_def client_setup_def Let_def client_fail_def ui_call_def open_engine_def split: if_splits)

lemma start_succeeds: "\<exists>d. client_start cfg s True True True origin now = Going d"
proof -
  have "\<not> e_open (c_audio (client_setup cfg s))"
    by (simp add: client_setup_def Let_def ui_call_def new_client_def new_engine_def)
  moreover have "\<not> playback_gain cfg v < 0" for v using gain_nonneg [of cfg v] by linarith
  ultimately show ?thesis by (simp add: client_start_def open_engine_def Let_def)
qed

text \<open>C35: the volume and the backlight a run saved last are those the next run starts with, whatever run that is and
  whatever its configuration: the file has them when the save succeeded and is untouched when it failed, and
  when a loss of power cuts the file at any length, either both are read back or both are the defaults.\<close>

theorem settings_survive_restart:
  assumes "volume_percent cfg \<le> 100" and "\<forall>i \<in> set is. list_all real_audio (pass_threads i)"
    and "run_client p cfg s backend_ok threads_ok network_ok origin now is = Going c" and "c_settings c = Some (v, b)"
    and "fs' = save_settings_file io v b fs"
    and "client_start cfg' (read_settings (volume_percent cfg') (map_option (take n) (fs' k_ui_settings))) bo th ne origin' now' = Going d"
  shows "if \<not> settings_saved io then fs' k_ui_settings = fs k_ui_settings
    else b = c_brightness c \<and>
      (c_volume d, c_brightness d) = (if length (decimal (unat v)) + 2 \<le> n then (v, b) else (volume_percent cfg', True))"
proof (cases "settings_saved io")
  case True
  have vb: "v \<le> 100" "b = c_brightness c" using run_dials [OF assms(1-3)] assms(4) by (auto simp: dials_ok_def)
  define s' where "s' = read_settings (volume_percent cfg') (Some (take n (settings_text v b)))"
  have "unat v \<le> 100" using vb(1) by (simp add: word_le_nat_alt)
  moreover have start: "client_start cfg' s' bo th ne origin' now' = Going d"
    using assms(5,6) True by (simp add: saved_file s'_def)
  ultimately show ?thesis using True vb(2) read_prefix [OF s'_def] started_dials [OF start] by (auto split: if_splits)
qed (simp add: assms(5) saved_file)

text \<open>A run that saves: the user turns the backlight off while the client waits for its network.\<close>

definition sample_dark_pass :: pass_input where
  "sample_dark_pass = (sample_pass [] [] [] no_frame)\<lparr>in_capture := sample_phase [], in_action := Some Act_BrightnessDown\<rparr>"

lemma sample_dark:
  obtains c where "run_client sample_parser sample_client_config sample_settings True True True 0 0 [sample_dark_pass] = Going c"
    "c_settings c = Some (60, False)"
proof -
  define c0 where "c0 = sample_client\<lparr>c_now := 0, c_sends := replicate 4 quiet_env, c_handshakes := [Hs_Done True]\<rparr>"
  define c1 where "c1 = save_ui_settings (ui_call (Call_Brightness 0) (c0\<lparr>c_brightness := False\<rparr>))"
  have off: "\<not> c_endpoint_ready sample_client" "c_volume sample_client = 60"
    by (simp_all add: sample_client_def client_start_def open_engine_def client_setup_def Let_def ui_call_def
        new_client_def new_engine_def sample_settings_def sample_client_config_def playback_gain_def)
  have f0: "c_transport c0 = None" "\<not> c_listener_failed c0" "c_events c0 = empty_queue" "c_turn_ids c0 = no_ids"
    "\<not> c_endpoint_ready c0" "c_audio c0 = c_audio sample_client" "c_volume c0 = 60"
    by (simp_all add: c0_def sample_client_fields off)
  have same: "enter p (sample_phase []) d = d" if "d = c0 \<or> d = c1" for p d
    using that by (auto simp: c0_def c1_def save_ui_settings_def ui_call_def)
  have f1: "c_transport c1 = None" "\<not> c_listener_failed c1" "c_events c1 = empty_queue" "c_turn_ids c1 = no_ids"
    using f0 by (simp_all add: c1_def save_ui_settings_def ui_call_def)
  note pass = sample_dark_pass_def sample_pass_fields
  have connect: "connect_phase sample_parser sample_dark_pass sample_client = c0"
    using f0(5) by (simp add: connect_phase_def pass c0_def [symmetric] Let_def)
  have capture: "capture_phase sample_parser sample_dark_pass c0 = (Cap_Timeout, c0)"
    using f0(6) same by (simp add: capture_phase_def pass Let_def capture_take_def sample_engine_fields k_actor_poll_interval_def)
  have input: "input_phase sample_parser sample_dark_pass c0 = c1"
    using f0(1) same
    by (simp add: input_phase_def pass Let_def finish_connect_def k_events_per_capture_frame_def poll_ui_def c1_def)
  have overflow: "overflow_phase sample_parser sample_dark_pass c1 = c1"
    using f1(3) same by (simp add: overflow_phase_def pass Let_def empty_queue_def)
  have deadline: "deadline_phase sample_parser sample_dark_pass c1 = (True, c1)"
    using f1(1,4) same by (simp add: deadline_phase_def pass advance_deadlines_def no_ids_def)
  have run: "run_pass sample_parser sample_dark_pass sample_client = Going c1"
    using f0(2) f1(2) by (simp add: run_pass_def Let_def connect capture input overflow deadline)
  have "run_client sample_parser sample_client_config sample_settings True True True 0 0 [sample_dark_pass] = Going c1"
    by (simp add: run_client_def sample_client_start run)
  moreover have "c_settings c1 = Some (60, False)" using f0(7) by (simp add: c1_def save_ui_settings_def ui_call_def)
  ultimately show thesis by (rule that)
qed

definition sample_saved :: settings_io where
  "sample_saved = \<lparr>so_open = True, so_written = None, so_rename = True\<rparr>"

theorem settings_survive_restart_witness:
  "\<exists>d. client_start sample_client_config (read_settings 60 (save_settings_file sample_saved 60 False (\<lambda>_. None) k_ui_settings))
     True True True 0 0 = Going d \<and> c_volume d = 60 \<and> \<not> c_brightness d"
proof -
  define fs where "fs = save_settings_file sample_saved 60 False (\<lambda>_. None)"
  obtain c where c: "run_client sample_parser sample_client_config sample_settings True True True 0 0 [sample_dark_pass] = Going c"
    "c_settings c = Some (60, False)" by (rule sample_dark)
  have threads: "\<forall>i \<in> set [sample_dark_pass]. list_all real_audio (pass_threads i)"
    by (simp add: sample_dark_pass_def sample_pass_def sample_phase_def pass_threads_def)
  have vol: "volume_percent sample_client_config = 60" by (simp add: sample_client_config_def)
  have saved: "settings_saved sample_saved" by (simp add: sample_saved_def settings_saved_def)
  have len: "length (decimal (unat (60 :: u8))) = 2" by (simp add: decimal.simps)
  have size: "length (settings_text 60 False) = 5" using len by (simp add: settings_text_def)
  obtain d where d: "client_start sample_client_config (read_settings 60 (fs k_ui_settings)) True True True 0 0 = Going d"
    using start_succeeds by blast
  have "map_option (take 5) (fs k_ui_settings) = fs k_ui_settings"
    using saved size by (simp add: fs_def saved_file)
  then have "(c_volume d, c_brightness d) = (60, False)"
    using settings_survive_restart [OF _ threads c fs_def, of sample_client_config 5 True True True 0 0 d] d vol saved len by simp
  then show ?thesis using d by (auto simp: fs_def)
qed

text \<open>
  A file whose second word is damaged: the volume is ignored because not both extractions succeeded, but the
  failed extraction has set the brightness to 0, and \<^verbatim>\<open>Run\<close> takes that.
\<close>

lemma damaged_settings_darken:
  "read_settings volume (Some ''60 x'') = \<lparr>ss_ok = False, ss_volume = 60, ss_brightness = 0\<rparr>"
  "\<not> c_brightness (client_setup cfg (read_settings volume (Some ''60 x'')))"
  "c_volume (client_setup cfg (read_settings volume (Some ''60 x''))) = volume_percent cfg"
proof -
  show r: "read_settings volume (Some ''60 x'') = \<lparr>ss_ok = False, ss_volume = 60, ss_brightness = 0\<rparr>"
    by (simp add: read_settings_def open_stream_def get_unsigned_def Let_def c_isspace_def is_digit_def byte_of_def)
  show "\<not> c_brightness (client_setup cfg (read_settings volume (Some ''60 x'')))"
    "c_volume (client_setup cfg (read_settings volume (Some ''60 x''))) = volume_percent cfg"
    by (simp_all add: r client_setup_def Let_def ui_call_def)
qed

end
