(* ===== verification/Backend.thy ===== *)
theory Backend
  imports AudioEngine VoiceDsp
begin

section \<open>The RV1106 audio backend\<close>

text \<open>
  \<^verbatim>\<open>src/client/src/platform/rv1106/audio_backend.cpp\<close>: opening the board, the ALSA read and write loops
  with their recovery, the capture pipeline from four 48 kHz channels to a 16 kHz frame with wake, VAD and
  near-voice decisions, and the playback path with its headroom. ALSA, libswresample, Snowboy, WebRTC VAD
  and the vendor 3A are called through their results, which are arguments here.
\<close>

subsection \<open>Constants\<close>

definition k_capture_channels :: nat where "k_capture_channels = 4"
definition k_capture48_frames :: nat where "k_capture48_frames = 960"
definition k_voice_frame_samples :: nat where "k_voice_frame_samples = 320"
definition k_tts24_frames :: nat where "k_tts24_frames = 480"
definition k_maximum_playback48_frames :: nat where "k_maximum_playback48_frames = 2 * k_capture48_frames"
definition k_capture_buffer_periods :: nat where "k_capture_buffer_periods = 2"
definition k_playback_buffer_periods :: nat where "k_playback_buffer_periods = 4"
definition k_frame_ms :: nat where "k_frame_ms = 20"
definition k_vad_start_ms :: nat where "k_vad_start_ms = 120"
definition k_vad_end_ms :: nat where "k_vad_end_ms = 700"
definition k_aec_warmup_frames :: nat where "k_aec_warmup_frames = 30"
definition k_aec_tail_frames :: nat where "k_aec_tail_frames = 15"
definition k_reference_peak_threshold :: int where "k_reference_peak_threshold = 64"

lemmas backend_consts = k_capture_channels_def k_capture48_frames_def k_voice_frame_samples_def k_tts24_frames_def
  k_maximum_playback48_frames_def k_capture_buffer_periods_def k_playback_buffer_periods_def k_frame_ms_def
  k_vad_start_ms_def k_vad_end_ms_def k_aec_warmup_frames_def k_aec_tail_frames_def k_reference_peak_threshold_def

text \<open>The error numbers of Linux the code compares with.\<close>

definition e_intr :: int where "e_intr = 4"
definition e_pipe :: int where "e_pipe = 32"
definition e_strpipe :: int where "e_strpipe = 86"
definition e_badfd :: int where "e_badfd = 77"
definition e_inval :: int where "e_inval = 22"
definition e_noent :: int where "e_noent = 2"
definition e_io :: int where "e_io = 5"

lemmas errno_defs = e_intr_def e_pipe_def e_strpipe_def e_badfd_def e_inval_def e_noent_def e_io_def

subsection \<open>Negotiating with ALSA\<close>

text \<open>A chain of \<^verbatim>\<open>if (rc >= 0) { stage = ...; rc = call; }\<close>: the first failure stops it.\<close>

fun run_stages :: "(string \<times> int) list \<Rightarrow> int \<times> string \<Rightarrow> int \<times> string" where
  "run_stages [] r = r"
| "run_stages ((stage, rc) # ss) r = (if rc < 0 then (rc, stage) else run_stages ss (rc, stage))"

text \<open>The results of the calls of \<^verbatim>\<open>ConfigurePcm\<close>, in the order of the calls.\<close>

record pcm_env =
  pe_hw :: "int list"
  pe_period :: nat
  pe_period_count :: nat
  pe_buffer :: nat
  pe_sw :: "int list"

definition k_hw_stages :: "string list" where
  "k_hw_stages = [''ALSA hw params any'', ''ALSA interleaved access'', ''ALSA S16 format'', ''ALSA channel count'',
     ''ALSA 48 kHz rate'', ''ALSA period size'', ''ALSA period count'', ''ALSA buffer size'', ''ALSA apply hw params'']"

definition k_sw_stages :: "string list" where
  "k_sw_stages = replicate 4 ''ALSA current software params'' @ [''ALSA PCM prepare'']"

definition configure_pcm :: "bool \<Rightarrow> pcm_env \<Rightarrow> int \<times> string" where
  "configure_pcm capture e = (let periods = (if capture then k_capture_buffer_periods else k_playback_buffer_periods) in
     case run_stages (zip k_hw_stages (pe_hw e)) (0, []) of (rc, stage) \<Rightarrow>
       if rc < 0 then (rc, stage)
       else if pe_period e \<noteq> k_capture48_frames \<or> pe_period_count e \<noteq> periods \<or>
               pe_buffer e \<noteq> periods * k_capture48_frames
       then (- e_inval, ''ALSA exact period/buffer contract'')
       else run_stages (zip k_sw_stages (pe_sw e)) (rc, stage))"

subsection \<open>The loopback control\<close>

text \<open>
  \<open>le_items\<close>: per enumeration item the result of \<^verbatim>\<open>snd_ctl_elem_info\<close> and the item's name. \<open>le_read\<close>,
  \<open>le_readback\<close>: result and value of a read.
\<close>

record loopback_env =
  le_pcm_info :: int
  le_ctl_open :: int
  le_elem_info :: int
  le_single_enum :: bool
  le_items :: "(int \<times> string) list"
  le_read :: "int \<times> nat"
  le_write :: int
  le_readback :: "int \<times> nat"

definition k_loopback_mode :: string where "k_loopback_mode = ''Mode1''"

definition open_loopback_control :: "loopback_env \<Rightarrow> int" where
  "open_loopback_control e =
     (if le_ctl_open e < 0 then le_ctl_open e
      else if le_elem_info e \<ge> 0 \<and> \<not> le_single_enum e then - e_inval else le_elem_info e)"

text \<open>The item loop: it runs to the end, so the last item of that name is the target.\<close>

fun scan_items :: "nat \<Rightarrow> (int \<times> string) list \<Rightarrow> int \<times> nat \<Rightarrow> int \<times> nat" where
  "scan_items item [] r = r"
| "scan_items item ((rc, name) # xs) (r, target) =
     (if rc < 0 then (rc, target) else scan_items (item + 1) xs (rc, if name = k_loopback_mode then item else target))"

definition write_loopback_value :: "nat \<Rightarrow> loopback_env \<Rightarrow> int" where
  "write_loopback_value target e =
     (if le_write e < 0 then le_write e
      else case le_readback e of (rc, actual) \<Rightarrow> if rc \<ge> 0 \<and> actual \<noteq> target then - e_io else rc)"

definition configure_loopback_mode1 :: "loopback_env \<Rightarrow> int" where
  "configure_loopback_mode1 e =
     (if le_pcm_info e < 0 then le_pcm_info e
      else let rc0 = open_loopback_control e in
        if rc0 < 0 then rc0
        else case scan_items 0 (le_items e) (rc0, length (le_items e)) of (rc1, target) \<Rightarrow>
          if rc1 < 0 then rc1
          else if target = length (le_items e) then - e_noent
          else case le_read e of (rc2, current) \<Rightarrow>
            if rc2 \<ge> 0 \<and> current \<noteq> target then write_loopback_value target e else rc2)"

subsection \<open>Levels\<close>

definition reference_active :: "sample list \<Rightarrow> bool" where
  "reference_active xs \<longleftrightarrow> list_ex (\<lambda>s. k_reference_peak_threshold < sint s \<or> sint s < - k_reference_peak_threshold) xs"

text \<open>\<^verbatim>\<open>AcRmsDbfs\<close>; \<open>db m\<close> stands for the libm expression \<^verbatim>\<open>20 log10(sqrt(m) / 32768)\<close>.\<close>

definition ac_rms_dbfs :: "(rat \<Rightarrow> rat) \<Rightarrow> sample list \<Rightarrow> rat" where
  "ac_rms_dbfs db xs =
     (let mean = sum_list (map (\<lambda>s. of_int (sint s)) xs) / of_nat (length xs);
          energy = sum_list (map (\<lambda>s. (of_int (sint s) - mean) * (of_int (sint s) - mean)) xs)
      in if energy \<le> 0 then - 120 else db (energy / of_nat (length xs)))"

subsection \<open>State\<close>

text \<open>
  \<^verbatim>\<open>AudioBackend::Impl\<close>. \<open>b_capture_pcm\<close>, \<open>b_playback_pcm\<close>, \<open>b_snowboy\<close>, \<open>b_vad\<close>, \<open>b_capture_swr\<close>,
  \<open>b_playback_swr\<close>: the pointer is not null. \<open>b_error\<close>: text and code of the last \<^verbatim>\<open>SetError\<close>. The arrays used
  within one call only are values there. \<open>b_device\<close> logs the stereo frames the playback PCM accepted.
\<close>

record backend_config =
  bc_capture_pcm :: string
  bc_playback_pcm :: string
  bc_snowboy_resource :: string
  bc_snowboy_model :: string
  bc_vad_min_dbfs :: rat
  bc_left_polarity :: int
  bc_right_polarity :: int

record 'v backend =
  b_config :: backend_config
  b_capture_pcm :: bool
  b_playback_pcm :: bool
  b_capture_swr :: bool
  b_playback_swr :: bool
  b_snowboy :: bool
  b_vad :: bool
  b_dsp :: "'v dsp"
  b_error :: "string \<times> int"
  b_capture48 :: "sample list"
  b_vad_speech_ms :: nat
  b_vad_silence_ms :: nat
  b_aec_warmup_remaining :: nat
  b_aec_tail_remaining :: nat
  b_reference_wait_frames :: u32
  b_delayed_input_dbfs :: rat
  b_open :: bool
  b_vad_in_speech :: bool
  b_playback_session_active :: bool
  b_aec_warmup_armed :: bool
  b_delayed_reference_active :: bool
  b_capture_interrupted :: bool
  b_playback_render_started :: bool
  b_playback_interrupted :: bool
  b_playback_ended :: bool
  b_device :: "(sample \<times> sample) list"

definition no_backend_config :: backend_config where
  "no_backend_config = \<lparr>bc_capture_pcm = [], bc_playback_pcm = [], bc_snowboy_resource = [], bc_snowboy_model = [],
     bc_vad_min_dbfs = - 35, bc_left_polarity = 1, bc_right_polarity = 1\<rparr>"

definition new_backend :: "'v backend" where
  "new_backend = \<lparr>b_config = no_backend_config, b_capture_pcm = False, b_playback_pcm = False, b_capture_swr = False,
     b_playback_swr = False, b_snowboy = False, b_vad = False, b_dsp = new_dsp, b_error = ([], 0),
     b_capture48 = replicate (k_capture48_frames * k_capture_channels) 0, b_vad_speech_ms = 0, b_vad_silence_ms = 0,
     b_aec_warmup_remaining = 0, b_aec_tail_remaining = 0, b_reference_wait_frames = 0, b_delayed_input_dbfs = - 120,
     b_open = False, b_vad_in_speech = False, b_playback_session_active = False, b_aec_warmup_armed = False,
     b_delayed_reference_active = False, b_capture_interrupted = False, b_playback_render_started = False,
     b_playback_interrupted = False, b_playback_ended = False, b_device = []\<rparr>"

definition set_error :: "string \<Rightarrow> int \<Rightarrow> 'v backend \<Rightarrow> 'v backend" where
  "set_error why code b = b\<lparr>b_error := (why, code)\<rparr>"

text \<open>\<open>lib_ok\<close>: \<^verbatim>\<open>WebRtcVad_Init\<close> and \<^verbatim>\<open>WebRtcVad_set_mode\<close> return 0.\<close>

definition reset_vad :: "bool \<Rightarrow> 'v backend \<Rightarrow> bool \<times> 'v backend" where
  "reset_vad lib_ok b = (if \<not> b_vad b \<or> \<not> lib_ok then (False, b)
     else (True, b\<lparr>b_vad_speech_ms := 0, b_vad_silence_ms := 0, b_vad_in_speech := False\<rparr>))"

text \<open>Results of the libraries while the front end is reset; \<open>fe_dsp\<close> is what the vendor's init returns.\<close>

record 'v front_env =
  fe_swr :: bool
  fe_dsp :: "'v option"
  fe_snowboy :: bool
  fe_vad :: bool

definition reset_listener_impl :: "bool \<Rightarrow> bool \<Rightarrow> 'v backend \<Rightarrow> bool \<times> 'v backend" where
  "reset_listener_impl snowboy_ok vad_ok b =
     (if \<not> b_snowboy b \<or> \<not> snowboy_ok then (False, b) else reset_vad vad_ok b)"

definition reset_front_end :: "'v front_env \<Rightarrow> 'v backend \<Rightarrow> bool \<times> 'v backend" where
  "reset_front_end e b = (let b1 = b\<lparr>b_capture48 := replicate (k_capture48_frames * k_capture_channels) 0\<rparr> in
     if \<not> fe_swr e then (False, b1)
     else let b2 = b1\<lparr>b_delayed_input_dbfs := - 120, b_delayed_reference_active := False\<rparr> in
       case dsp_open (fe_dsp e) (dsp_close (b_dsp b2)) of (ok, d) \<Rightarrow>
         if \<not> ok then (False, b2\<lparr>b_dsp := d\<rparr>)
         else reset_listener_impl (fe_snowboy e) (fe_vad e) (b2\<lparr>b_dsp := d\<rparr>))"

subsection \<open>Opening and closing\<close>

definition close_backend :: "'v backend \<Rightarrow> 'v backend" where
  "close_backend b = b\<lparr>b_capture_pcm := False, b_playback_pcm := False, b_capture_swr := False, b_playback_swr := False,
     b_dsp := dsp_close (b_dsp b), b_snowboy := False, b_vad := False, b_open := False,
     b_playback_session_active := False, b_aec_warmup_armed := False, b_aec_warmup_remaining := 0,
     b_aec_tail_remaining := 0, b_reference_wait_frames := 0, b_delayed_input_dbfs := - 120,
     b_delayed_reference_active := False, b_capture_interrupted := False, b_playback_render_started := False,
     b_playback_ended := False, b_capture48 := replicate (k_capture48_frames * k_capture_channels) 0\<rparr>"

definition valid_backend_config :: "backend_config \<Rightarrow> bool" where
  "valid_backend_config c \<longleftrightarrow>
     \<not> (bc_capture_pcm c = [] \<or> bc_playback_pcm c = [] \<or> bc_snowboy_resource c = [] \<or> bc_snowboy_model c = [] \<or>
        (bc_left_polarity c \<noteq> 1 \<and> bc_left_polarity c \<noteq> - 1) \<or> (bc_right_polarity c \<noteq> 1 \<and> bc_right_polarity c \<noteq> - 1) \<or>
        bc_vad_min_dbfs c < - 90 \<or> 0 < bc_vad_min_dbfs c)"

record 'v open_env =
  oe_copy :: bool
  oe_capture_open :: int
  oe_loopback :: loopback_env
  oe_capture_reopen :: int
  oe_capture_hw :: pcm_env
  oe_playback_open :: int
  oe_playback_hw :: pcm_env
  oe_capture_swr :: bool
  oe_playback_swr :: bool
  oe_snowboy :: bool
  oe_vad_create :: bool
  oe_vad_setup :: bool
  oe_front :: "'v front_env"

text \<open>
  The PCM part of \<^verbatim>\<open>Open\<close>: result code, stage, and whether the two handles are held. The capture handle
  is opened to find the card, closed, and opened again after the switch to Mode1.
\<close>

definition open_pcms :: "'v open_env \<Rightarrow> int \<times> string \<times> bool \<times> bool" where
  "open_pcms e =
     (if oe_capture_open e < 0 then (oe_capture_open e, ''ALSA capture open'', False, False)
      else let rc1 = configure_loopback_mode1 (oe_loopback e) in
        if rc1 < 0 then (rc1, ''ALSA Mode1 hardware reference'', True, False)
        else if oe_capture_reopen e < 0 then (oe_capture_reopen e, ''ALSA capture reopen after Mode1'', False, False)
        else case configure_pcm True (oe_capture_hw e) of (rc2, stage2) \<Rightarrow>
          if rc2 < 0 then (rc2, stage2, True, False)
          else if oe_playback_open e < 0 then (oe_playback_open e, ''ALSA playback open'', True, False)
          else case configure_pcm False (oe_playback_hw e) of (rc3, stage3) \<Rightarrow> (rc3, stage3, True, True))"

text \<open>\<^verbatim>\<open>Open\<close> after the allocation of \<^verbatim>\<open>Impl\<close> succeeded.\<close>

definition open_backend :: "backend_config \<Rightarrow> 'v open_env \<Rightarrow> 'v backend \<Rightarrow> bool \<times> 'v backend" where
  "open_backend cfg e b =
     (if b_open b then (False, set_error ''audio backend is already open'' 0 b)
      else if \<not> valid_backend_config cfg then (False, set_error ''invalid audio backend configuration'' 0 b)
      else if \<not> oe_copy e then (False, set_error ''audio configuration allocation failed'' 0 b)
      else case open_pcms e of (rc, stage, cap, play) \<Rightarrow>
        let b1 = b\<lparr>b_config := cfg, b_capture_pcm := cap, b_playback_pcm := play\<rparr> in
        if rc < 0 then (False, set_error stage rc (close_backend b1))
        else let b2 = b1\<lparr>b_capture_swr := oe_capture_swr e, b_playback_swr := oe_playback_swr e,
                         b_snowboy := (oe_capture_swr e \<and> oe_playback_swr e \<and> oe_snowboy e)\<rparr> in
          if \<not> b_snowboy b2
          then (False, set_error ''audio DSP, resampler, or Snowboy initialization failed'' 0 (close_backend b2))
          else let b3 = b2\<lparr>b_vad := oe_vad_create e\<rparr> in
            case (if oe_vad_create e \<and> oe_vad_setup e then reset_front_end (oe_front e) b3 else (False, b3)) of (ok, b4) \<Rightarrow>
              if \<not> ok
              then (False, set_error ''WebRTC VAD or voice front end initialization failed'' 0 (close_backend b4))
              else (True, b4\<lparr>b_open := True, b_capture_interrupted := False\<rparr>))"

subsection \<open>Capture\<close>

text \<open>
  One turn of the read loop: the result of \<^verbatim>\<open>snd_pcm_readi\<close>, the samples it stored (four per frame), whether
  \<^verbatim>\<open>InterruptCapture\<close> ran meanwhile, and the result of a recovery.
\<close>

record read_answer =
  ra_rc :: int
  ra_data :: "sample list"
  ra_interrupt :: bool
  ra_recovered :: int

definition interrupt_capture :: "int \<Rightarrow> 'v backend \<Rightarrow> 'v backend" where
  "interrupt_capture aborted b = (if \<not> b_capture_pcm b then b
     else let b1 = b\<lparr>b_capture_interrupted := True\<rparr> in
       if aborted < 0 then set_error ''ALSA capture interrupt'' aborted b1 else b1)"

text \<open>\<open>None\<close>: the answers are used up and the thread is still in \<^verbatim>\<open>snd_pcm_readi\<close>.\<close>

fun read_loop :: "read_answer list \<Rightarrow> nat \<Rightarrow> bool \<Rightarrow> 'v backend \<Rightarrow> (bool \<times> bool \<times> 'v backend) option" where
  "read_loop as offset disc b =
     (if k_capture48_frames \<le> offset then Some (True, disc, b)
      else case as of
        [] \<Rightarrow> None
      | a # as' \<Rightarrow>
          let b1 = (if ra_interrupt a then interrupt_capture 0 b else b) in
          if 0 < ra_rc a then
            read_loop as' (offset + nat (ra_rc a)) disc
              (b1\<lparr>b_capture48 := overwrite (k_capture_channels * offset) (ra_data a) (b_capture48 b1)\<rparr>)
          else if b_capture_interrupted b1 then Some (False, disc, b1)
          else if ra_rc a = - e_intr then read_loop as' offset disc b1
          else if ra_rc a = - e_pipe \<or> ra_rc a = - e_strpipe then
            (if ra_recovered a < 0 then Some (False, disc, set_error ''ALSA capture recovery'' (ra_recovered a) b1)
             else read_loop as' 0 True b1)
          else Some (False, disc, set_error ''ALSA capture read'' (ra_rc a) b1))"

definition read_capture :: "read_answer list \<Rightarrow> 'v backend \<Rightarrow> (bool \<times> bool \<times> 'v backend) option" where
  "read_capture as b = (if \<not> b_open b then Some (False, False, b) else read_loop as 0 False b)"

text \<open>Truncation to the range of \<^verbatim>\<open>std::int16_t\<close>.\<close>

definition clamp16 :: "int \<Rightarrow> sample" where
  "clamp16 x = word_of_int (max (- 32768) (min 32767 x))"

text \<open>The polarity of the two microphones, in place; the two reference channels stay as they are.\<close>

definition apply_polarity :: "int \<Rightarrow> int \<Rightarrow> sample list \<Rightarrow> sample list" where
  "apply_polarity left right xs = map (\<lambda>i. if i mod k_capture_channels = 0 then clamp16 (sint (xs ! i) * left)
     else if i mod k_capture_channels = 1 then clamp16 (sint (xs ! i) * right) else xs ! i) [0..<length xs]"

definition channel :: "nat \<Rightarrow> sample list \<Rightarrow> sample list" where
  "channel k xs = map (\<lambda>i. xs ! (k_capture_channels * i + k)) [0..<k_voice_frame_samples]"

text \<open>\<open>speech\<close> is the result of \<^verbatim>\<open>WebRtcVad_Process\<close>.\<close>

definition update_vad :: "int \<Rightarrow> rat \<Rightarrow> capture_frame \<Rightarrow> 'v backend \<Rightarrow> bool \<times> capture_frame \<times> 'v backend" where
  "update_vad speech input_dbfs f b =
     (if speech < 0 then (False, f, b)
      else let webrtc_voice = (speech = 1);
               now = (if b_vad_in_speech b then webrtc_voice
                      else webrtc_voice \<and> bc_vad_min_dbfs (b_config b) \<le> input_dbfs);
               f1 = f\<lparr>cf_input_dbfs := input_dbfs, cf_vad_now := now\<rparr>;
               b1 = (if now then b\<lparr>b_vad_speech_ms := min (b_vad_speech_ms b + k_frame_ms) k_vad_start_ms, b_vad_silence_ms := 0\<rparr>
                     else b\<lparr>b_vad_silence_ms := min (b_vad_silence_ms b + k_frame_ms) k_vad_end_ms, b_vad_speech_ms := 0\<rparr>)
           in if \<not> b_vad_in_speech b1 \<and> k_vad_start_ms \<le> b_vad_speech_ms b1
              then (True, f1\<lparr>cf_vad_started := True\<rparr>, b1\<lparr>b_vad_in_speech := True\<rparr>)
              else if b_vad_in_speech b1 \<and> k_vad_end_ms \<le> b_vad_silence_ms b1
              then (True, f1\<lparr>cf_vad_ended := True\<rparr>, b1\<lparr>b_vad_in_speech := False\<rparr>)
              else (True, f1, b1))"

text \<open>\<^verbatim>\<open>UpdateNearVoice\<close> in two parts: what the playback events do to the suppression, and the two counters.\<close>

definition playback_events :: "capture_frame \<Rightarrow> 'v backend \<Rightarrow> bool \<times> 'v backend" where
  "playback_events f b =
     (if b_playback_ended b then
        let b1 = b\<lparr>b_playback_ended := False, b_playback_session_active := False, b_aec_warmup_armed := False,
                   b_aec_warmup_remaining := 0\<rparr>
        in if b_playback_interrupted b1 then (False, b1\<lparr>b_aec_tail_remaining := 0\<rparr>)
           else (True, b1\<lparr>b_aec_tail_remaining := k_aec_tail_frames\<rparr>)
      else if b_aec_warmup_armed b then
        (True, if \<not> b_playback_render_started b then b\<lparr>b_reference_wait_frames := 0\<rparr>
               else if cf_reference_active f
               then b\<lparr>b_aec_warmup_armed := False, b_aec_warmup_remaining := k_aec_warmup_frames, b_reference_wait_frames := 0\<rparr>
               else b\<lparr>b_reference_wait_frames := b_reference_wait_frames b + 1\<rparr>)
      else (False, b))"

text \<open>
  One countdown: it suppresses while it runs and resets the VAD when it reaches zero. \<open>None\<close>: that reset
  failed, with the counter already at zero.
\<close>

definition countdown ::
  "bool \<Rightarrow> bool \<Rightarrow> nat \<Rightarrow> (nat \<Rightarrow> 'v backend) \<Rightarrow> 'v backend \<Rightarrow> bool \<times> bool \<times> 'v backend" where
  "countdown vad_ok suppress remaining put b =
     (if remaining = 0 then (True, suppress, b)
      else if remaining - 1 = 0 then (case reset_vad vad_ok (put 0) of (ok, b1) \<Rightarrow> (ok, True, b1))
      else (True, True, put (remaining - 1)))"

definition update_near_voice :: "bool \<Rightarrow> capture_frame \<Rightarrow> 'v backend \<Rightarrow> bool \<times> capture_frame \<times> 'v backend" where
  "update_near_voice vad_ok f b =
     (case playback_events f b of (s0, b0) \<Rightarrow>
      case countdown vad_ok s0 (b_aec_warmup_remaining b0) (\<lambda>n. b0\<lparr>b_aec_warmup_remaining := n\<rparr>) b0 of (ok1, s1, b1) \<Rightarrow>
        if \<not> ok1 then (False, f, b1)
        else case countdown vad_ok s1 (b_aec_tail_remaining b1) (\<lambda>n. b1\<lparr>b_aec_tail_remaining := n\<rparr>) b1 of (ok2, s2, b2) \<Rightarrow>
          if \<not> ok2 then (False, f, b2)
          else (True, f\<lparr>cf_near_voice := (\<not> s2 \<and> cf_vad_now f)\<rparr>, b2))"

text \<open>
  What the libraries answer while one frame is processed: frames converted and their samples, the wake
  word detection (\<open>None\<close>: Snowboy failed), the VAD result, and whether a VAD reset succeeds.
\<close>

record 'v process_env =
  pr_converted :: int
  pr_capture16 :: "sample list"
  pr_detection :: "int option"
  pr_speech :: int
  pr_vad_ok :: bool
  pr_front :: "'v front_env"

definition process_discontinuity :: "'v process_env \<Rightarrow> 'v backend \<Rightarrow> bool \<times> capture_frame \<times> 'v backend" where
  "process_discontinuity e b = (let f = no_frame\<lparr>cf_discontinuity := True\<rparr>;
      b1 = (if b_playback_session_active b then b\<lparr>b_aec_warmup_armed := True, b_aec_warmup_remaining := 0\<rparr> else b)
    in case reset_front_end (pr_front e) b1 of
         (False, b2) \<Rightarrow> (False, f, set_error ''voice front end reset failed'' 0 b2)
       | (True, b2) \<Rightarrow> (True, f, b2))"

text \<open>The decisions on a frame after the 3A: Snowboy, VAD, near voice.\<close>

definition judge_frame ::
  "'v process_env \<Rightarrow> sample list \<Rightarrow> rat \<Rightarrow> capture_frame \<Rightarrow> 'v backend \<Rightarrow> bool \<times> capture_frame \<times> 'v backend" where
  "judge_frame e processed current_dbfs f b = (case pr_detection e of
     None \<Rightarrow> (False, f, set_error ''Snowboy processing failed'' 0 b)
   | Some detection \<Rightarrow>
       (case update_vad (pr_speech e) (b_delayed_input_dbfs b) (f\<lparr>cf_wake := (0 < detection)\<rparr>) b of
          (False, f1, b1) \<Rightarrow> (False, f1, set_error ''WebRTC VAD processing failed'' 0 b1)
        | (True, f1, b1) \<Rightarrow>
            (case update_near_voice (pr_vad_ok e) f1 (b1\<lparr>b_delayed_input_dbfs := current_dbfs\<rparr>) of
               (False, f2, b2) \<Rightarrow> (False, f2, set_error ''playback VAD reset failed'' 0 b2)
             | (True, f2, b2) \<Rightarrow> (True, f2\<lparr>cf_pcm := processed\<rparr>, b2))))"

definition process_capture ::
  "(rat \<Rightarrow> rat) \<Rightarrow> 'v vendor \<Rightarrow> 'v process_env \<Rightarrow> bool \<Rightarrow> 'v backend \<Rightarrow> bool \<times> capture_frame \<times> 'v backend" where
  "process_capture db vendor e discontinuity b =
     (if \<not> b_open b then (False, no_frame, b)
      else if discontinuity then process_discontinuity e b
      else let b1 = b\<lparr>b_capture48 := apply_polarity (bc_left_polarity (b_config b)) (bc_right_polarity (b_config b)) (b_capture48 b)\<rparr> in
        if pr_converted e \<noteq> int k_voice_frame_samples
        then (False, no_frame, set_error ''capture resampler lost frame alignment'' 0 b1)
        else let mic_left = channel 0 (pr_capture16 e); mic_right = channel 1 (pr_capture16 e);
                 reference_left = channel 2 (pr_capture16 e);
                 current_reference = reference_active reference_left;
                 current_dbfs = max (ac_rms_dbfs db mic_left) (ac_rms_dbfs db mic_right)
             in case dsp_process vendor mic_left mic_right reference_left (b_dsp b1) of
                  (False, _, d) \<Rightarrow> (False, no_frame, set_error ''Rockchip 3A rejected a frame'' 0 (b1\<lparr>b_dsp := d\<rparr>))
                | (True, processed, d) \<Rightarrow>
                    judge_frame e processed current_dbfs
                      (no_frame\<lparr>cf_voice_dbfs := ac_rms_dbfs db processed, cf_reference_active := b_delayed_reference_active b1\<rparr>)
                      (b1\<lparr>b_dsp := d, b_delayed_reference_active := current_reference\<rparr>))"

definition reset_listener_backend :: "bool \<Rightarrow> bool \<Rightarrow> 'v backend \<Rightarrow> bool \<times> 'v backend" where
  "reset_listener_backend snowboy_ok vad_ok b =
     (case (if b_open b then reset_listener_impl snowboy_ok vad_ok b else (False, b)) of
        (True, b1) \<Rightarrow> (True, b1) | (False, b1) \<Rightarrow> (False, set_error ''listener reset failed'' 0 b1))"

subsection \<open>Playback\<close>

definition prepare_playback :: "int \<Rightarrow> bool \<Rightarrow> 'v backend \<Rightarrow> bool \<times> 'v backend" where
  "prepare_playback prepared swr_ok b =
     (if \<not> b_open b then (False, b)
      else if prepared < 0 then (False, set_error ''ALSA playback prepare'' prepared b)
      else if \<not> swr_ok then (False, set_error ''playback resampler reset failed'' 0 b)
      else (True, b\<lparr>b_playback_session_active := True, b_aec_warmup_armed := True, b_aec_warmup_remaining := 0,
             b_reference_wait_frames := 0, b_aec_tail_remaining := 0, b_playback_ended := False,
             b_playback_interrupted := False, b_playback_render_started := False\<rparr>))"

definition interrupt_playback :: "int \<Rightarrow> 'v backend \<Rightarrow> 'v backend" where
  "interrupt_playback dropped b = (if \<not> b_playback_pcm b then b
     else let b1 = b\<lparr>b_playback_interrupted := True\<rparr>;
              b2 = (if dropped < 0 \<and> dropped \<noteq> - e_badfd then set_error ''ALSA playback interrupt'' dropped b1 else b1)
          in b2\<lparr>b_playback_ended := True, b_playback_render_started := False\<rparr>)"

text \<open>
  One turn of the write loop: the result of \<^verbatim>\<open>snd_pcm_writei\<close>, whether \<^verbatim>\<open>InterruptPlayback\<close> ran before the
  check at the top or during the write, and the result of a recovery.
\<close>

record write_answer =
  wa_rc :: int
  wa_before :: bool
  wa_during :: bool
  wa_recovered :: int

fun write_loop :: "write_answer list \<Rightarrow> (sample \<times> sample) list \<Rightarrow> nat \<Rightarrow> 'v backend \<Rightarrow> (bool \<times> 'v backend) option" where
  "write_loop as stereo offset b =
     (if length stereo \<le> offset then Some (True, b)
      else case as of
        [] \<Rightarrow> None
      | a # as' \<Rightarrow>
          let b1 = (if wa_before a then interrupt_playback 0 b else b) in
          if b_playback_interrupted b1 then Some (False, b1)
          else let b2 = (if wa_during a then interrupt_playback 0 b1 else b1) in
            if 0 < wa_rc a then
              write_loop as' stereo (offset + nat (wa_rc a))
                (b2\<lparr>b_device := b_device b2 @ take (nat (wa_rc a)) (drop offset stereo)\<rparr>)
            else if b_playback_interrupted b2 then Some (False, b2)
            else if wa_rc a = - e_intr then write_loop as' stereo offset b2
            else if wa_rc a = - e_pipe \<or> wa_rc a = - e_strpipe then
              (if wa_recovered a < 0 then Some (False, set_error ''ALSA playback recovery'' (wa_recovered a) b2)
               else write_loop as' stereo offset b2)
            else Some (False, set_error ''ALSA playback write'' (wa_rc a) b2))"

definition write_playback :: "write_answer list \<Rightarrow> sample list \<Rightarrow> 'v backend \<Rightarrow> (bool \<times> 'v backend) option" where
  "write_playback as pcm b = write_loop as (map (\<lambda>s. (s, s)) pcm) 0 b"

text \<open>\<^verbatim>\<open>std::lround\<close>: to the nearest integer, halves away from zero.\<close>

definition lround :: "rat \<Rightarrow> int" where
  "lround x = (if 0 \<le> x then \<lfloor>x + 1 / 2\<rfloor> else - \<lfloor>- x + 1 / 2\<rfloor>)"

definition peak_of :: "sample list \<Rightarrow> int" where
  "peak_of xs = foldl max 0 (map (\<lambda>s. \<bar>sint s\<bar>) xs)"

definition limit_gain :: "rat \<Rightarrow> int \<Rightarrow> rat" where
  "limit_gain gain peak = (if peak \<noteq> 0 \<and> 31128 < gain * of_int peak then 31128 / of_int peak else gain)"

definition scale_samples :: "rat \<Rightarrow> sample list \<Rightarrow> sample list" where
  "scale_samples gain xs = map (\<lambda>s. clamp16 (lround (of_int (sint s) * gain))) xs"

text \<open>\<open>converted\<close> and \<open>playback48\<close>: what \<^verbatim>\<open>swr_convert\<close> returns and stores.\<close>

definition render ::
  "write_answer list \<Rightarrow> int \<Rightarrow> sample list \<Rightarrow> sample list \<Rightarrow> rat \<Rightarrow> 'v backend \<Rightarrow> (bool \<times> 'v backend) option" where
  "render as converted playback48 pcm24 gain b =
     (if \<not> b_open b \<or> k_tts24_frames < length pcm24 \<or> gain < 0 then Some (False, b)
      else if converted \<le> 0 \<or> int k_maximum_playback48_frames < converted
      then Some (False, set_error ''TTS resampling failed'' 0 b)
      else let out48 = take (nat converted) playback48; peak = peak_of out48;
               b1 = (if peak \<noteq> 0 \<and> 0 < gain then b\<lparr>b_playback_render_started := True\<rparr> else b)
           in write_playback as (scale_samples (limit_gain gain peak) out48) b1)"

definition finish_device :: "'v backend \<Rightarrow> 'v backend" where
  "finish_device b = b\<lparr>b_playback_ended := True, b_playback_render_started := False\<rparr>"

definition drain_playback :: "int \<Rightarrow> int \<Rightarrow> 'v backend \<Rightarrow> bool \<times> 'v backend" where
  "drain_playback drained prepared b =
     (if \<not> b_open b then (False, b)
      else let b1 = (if drained < 0 \<and> \<not> b_playback_interrupted b then set_error ''ALSA playback drain'' drained b else b);
               b2 = (if prepared < 0 \<and> \<not> b_playback_interrupted b1 then set_error ''ALSA playback prepare'' prepared b1 else b1)
           in (0 \<le> drained \<and> 0 \<le> prepared, finish_device b2))"

definition drop_device :: "int \<Rightarrow> int \<Rightarrow> 'v backend \<Rightarrow> 'v backend" where
  "drop_device dropped prepared b =
     (if \<not> b_playback_pcm b then b
      else let b1 = (if dropped < 0 \<and> dropped \<noteq> - e_badfd then set_error ''ALSA playback drop'' dropped b else b);
               b2 = (if prepared < 0 then set_error ''ALSA playback prepare'' prepared b1 else b1)
           in finish_device b2)"

end
