(* ===== verification/BackendProps.thy ===== *)
theory BackendProps
  imports Backend
begin

section \<open>What the audio backend promises\<close>

text \<open>
  The write loop neither loses nor repeats a sample, the VAD has its hysteresis, playback keeps its
  headroom, and the near-voice decision is suppressed while an echo is still being learned.
\<close>

subsection \<open>The write loop\<close>

lemma device_fields [simp]:
  "b_device (interrupt_playback d b) = b_device b" "b_device (set_error w n b) = b_device b"
  by (simp_all add: interrupt_playback_def set_error_def Let_def)

declare write_loop.simps [simp del] read_loop.simps [simp del]

lemma write_loop_log:
  "write_loop as stereo offset b = Some (ok, b') \<Longrightarrow> offset \<le> length stereo \<Longrightarrow>
   \<exists>n. offset \<le> n \<and> n \<le> length stereo \<and> b_device b' = b_device b @ take (n - offset) (drop offset stereo) \<and>
     (ok \<longrightarrow> n = length stereo) \<and> (\<not> ok \<longrightarrow> n < length stereo)"
proof (induction "as" arbitrary: offset b)
  case Nil
  then show ?case by (subst (asm) write_loop.simps) (auto split: if_splits)
next
  case (Cons a "as")
  show ?case
  proof (cases "length stereo \<le> offset")
    case True
    then show ?thesis using Cons.prems by (subst (asm) write_loop.simps) auto
  next
    case False
    define b1 where "b1 = (if wa_before a then interrupt_playback 0 b else b)"
    define b2 where "b2 = (if wa_during a then interrupt_playback 0 b1 else b1)"
    have dev: "b_device b1 = b_device b" "b_device b2 = b_device b" by (simp_all add: b1_def b2_def)
    have stop: ?thesis if "ok = False" "b_device b' = b_device b"
      using that False Cons.prems(2) by (intro exI [of _ offset]) simp
    show ?thesis
    proof (cases "0 < wa_rc a \<and> \<not> b_playback_interrupted b1")
      case True
      define m where "m = nat (wa_rc a)"
      define b3 where "b3 = b2\<lparr>b_device := b_device b2 @ take m (drop offset stereo)\<rparr>"
      have step: "write_loop as stereo (offset + m) b3 = Some (ok, b')"
        using Cons.prems(1) True False
        by (subst (asm) write_loop.simps) (simp add: Let_def b1_def [symmetric] b2_def [symmetric] m_def [symmetric] b3_def)
      show ?thesis
      proof (cases "offset + m \<le> length stereo")
        case fits: True
        obtain n where n: "offset + m \<le> n" "n \<le> length stereo" "b_device b' = b_device b3 @ take (n - (offset + m)) (drop (offset + m) stereo)"
           "ok \<longrightarrow> n = length stereo" "\<not> ok \<longrightarrow> n < length stereo"
          using Cons.IH [OF step fits] by blast
        have "take (n - offset) (drop offset stereo) = take m (drop offset stereo) @ take (n - (offset + m)) (drop (offset + m) stereo)"
        proof -
          have "n - offset = m + (n - (offset + m))" using n(1) by simp
          then show ?thesis by (simp add: take_add add.commute)
        qed
        then show ?thesis using n dev by (intro exI [of _ n]) (simp add: b3_def)
      next
        case over: False
        then have "write_loop as stereo (offset + m) b3 = Some (True, b3)" by (subst write_loop.simps) simp
        then have "ok" "b' = b3" using step by simp_all
        then show ?thesis using over False dev by (intro exI [of _ "length stereo"]) (simp add: b3_def)
      qed
    next
      case False': False
      have "(ok = False \<and> b_device b' = b_device b) \<or> write_loop as stereo offset b2 = Some (ok, b')"
        using Cons.prems(1) False False' dev
        by (subst (asm) write_loop.simps) (auto simp: Let_def b1_def [symmetric] b2_def [symmetric] split: if_splits)
      then show ?thesis using stop Cons.IH [of offset b2] Cons.prems(2) dev by auto
    qed
  qed
qed

text \<open>Whatever ALSA answers - partial writes, signals, underruns with recovery, an interruption in the
  middle - the device gets a prefix of the frame's samples, each exactly once, in order and on both
  channels; the whole frame when the write succeeds. An underrun never makes a prefix heard twice.\<close>

theorem playback_written_once:
  assumes "write_playback as pcm b = Some (ok, b')"
  shows "\<exists>n. b_device b' = b_device b @ map (\<lambda>s. (s, s)) (take n pcm) \<and> (ok \<longleftrightarrow> length pcm \<le> n)"
proof -
  obtain n where n: "n \<le> length pcm" "b_device b' = b_device b @ take n (map (\<lambda>s. (s, s)) pcm)"
     "ok \<longrightarrow> n = length pcm" "\<not> ok \<longrightarrow> n < length pcm"
    using write_loop_log [of "as" "map (\<lambda>s. (s, s)) pcm" 0 b ok b'] assms by (auto simp: write_playback_def)
  then show ?thesis by (intro exI [of _ n]) (auto simp: take_map)
qed

theorem playback_written_once_witness:
  "\<exists>n b'. write_playback [\<lparr>wa_rc = 2, wa_before = False, wa_during = False, wa_recovered = 0\<rparr>,
       \<lparr>wa_rc = - 32, wa_before = False, wa_during = False, wa_recovered = 0\<rparr>,
       \<lparr>wa_rc = 1, wa_before = False, wa_during = False, wa_recovered = 0\<rparr>] [1, 2, 3] (new_backend :: nat backend) = Some (True, b') \<and>
     b_device b' = map (\<lambda>s. (s, s)) (take n [1, 2, 3]) \<and> 3 \<le> n"
proof -
  define as where "as = [\<lparr>wa_rc = 2, wa_before = False, wa_during = False, wa_recovered = 0\<rparr>,
       \<lparr>wa_rc = - 32, wa_before = False, wa_during = False, wa_recovered = 0\<rparr>,
       \<lparr>wa_rc = 1, wa_before = False, wa_during = False, wa_recovered = 0\<rparr>]"
  obtain b' where b': "write_playback as [1, 2, 3] (new_backend :: nat backend) = Some (True, b')"
    by (simp add: write_playback_def as_def write_loop.simps new_backend_def errno_defs)
  from playback_written_once [OF this] b' show ?thesis
    by (auto simp: as_def new_backend_def)
qed

subsection \<open>Voice activity\<close>

text \<open>How long a property has held at the end of a history.\<close>

definition trail :: "('a \<Rightarrow> bool) \<Rightarrow> 'a list \<Rightarrow> nat" where
  "trail P xs = length (takeWhile P (rev xs))"

lemma trail_simps [simp]: "trail P [] = 0" "trail P (xs @ [x]) = (if P x then Suc (trail P xs) else 0)"
  by (simp_all add: trail_def)

lemma trail_last: "n \<le> trail P xs \<Longrightarrow> n \<le> length xs \<and> (\<forall>i. length xs - n \<le> i \<and> i < length xs \<longrightarrow> P (xs ! i))"
proof (induction xs arbitrary: n rule: rev_induct)
  case Nil
  then show ?case by simp
next
  case (snoc x xs)
  show ?case
  proof (cases n)
    case (Suc m)
    then have P: "P x" and "m \<le> trail P xs" using snoc.prems by (auto split: if_splits)
    then have "m \<le> length xs" "\<forall>i. length xs - m \<le> i \<and> i < length xs \<longrightarrow> P (xs ! i)" using snoc.IH by blast+
    then show ?thesis using P Suc by (auto simp: nth_append less_Suc_eq)
  qed auto
qed

text \<open>The frames of a sequence of inputs, each the WebRTC result and the microphone level of one frame.\<close>

fun vad_run :: "(int \<times> rat) list \<Rightarrow> 'v backend \<Rightarrow> capture_frame list \<times> 'v backend" where
  "vad_run [] b = ([], b)"
| "vad_run ((speech, level) # xs) b = (case update_vad speech level no_frame b of (_, f, b1) \<Rightarrow>
     (case vad_run xs b1 of (fs, b2) \<Rightarrow> (f # fs, b2)))"

lemma vad_run_append: "vad_run (xs @ ys) b = (fst (vad_run xs b) @ fst (vad_run ys (snd (vad_run xs b))), snd (vad_run ys (snd (vad_run xs b))))"
  by (induction xs arbitrary: b) (auto split: prod.split)

definition count_flag :: "(capture_frame \<Rightarrow> bool) \<Rightarrow> capture_frame list \<Rightarrow> nat" where
  "count_flag P fs = length (filter P fs)"

text \<open>The counters are the lengths of the current runs, and the state counts starts against ends.\<close>

definition vad_inv :: "capture_frame list \<Rightarrow> 'v backend \<Rightarrow> bool" where
  "vad_inv fs b \<longleftrightarrow> b_vad_speech_ms b = 20 * min 6 (trail cf_vad_now fs) \<and>
     b_vad_silence_ms b = 20 * min 35 (trail (\<lambda>f. \<not> cf_vad_now f) fs) \<and>
     count_flag cf_vad_started fs = count_flag cf_vad_ended fs + (if b_vad_in_speech b then 1 else 0)"

lemma update_vad_step:
  assumes "vad_inv fs b" "0 \<le> speech" "update_vad speech level no_frame b = (ok, f, b')"
  shows "ok \<and> vad_inv (fs @ [f]) b' \<and>
    (cf_vad_started f \<longleftrightarrow> \<not> b_vad_in_speech b \<and> 6 \<le> trail cf_vad_now (fs @ [f])) \<and>
    (cf_vad_ended f \<longleftrightarrow> b_vad_in_speech b \<and> 35 \<le> trail (\<lambda>f. \<not> cf_vad_now f) (fs @ [f])) \<and>
    b_vad_in_speech b' = (if cf_vad_started f then True else if cf_vad_ended f then False else b_vad_in_speech b)"
proof -
  have z: "\<not> cf_vad_started no_frame" "\<not> cf_vad_ended no_frame" by (simp_all add: no_frame_def)
  have m: "min (20 * min 6 n + 20) 120 = 20 * min 6 (Suc n)" "120 \<le> 20 * min 6 n \<longleftrightarrow> 6 \<le> n"
    "min (20 * min 35 n + 20) 700 = 20 * min 35 (Suc n)" "700 \<le> 20 * min 35 n \<longleftrightarrow> 35 \<le> n" for n :: nat
    by (simp_all add: min_def)
  define w where "w = (if b_vad_in_speech b then speech = 1 else speech = 1 \<and> bc_vad_min_dbfs (b_config b) \<le> level)"
  define b1 where "b1 = (if w then b\<lparr>b_vad_speech_ms := min (b_vad_speech_ms b + k_frame_ms) k_vad_start_ms, b_vad_silence_ms := 0\<rparr>
                     else b\<lparr>b_vad_silence_ms := min (b_vad_silence_ms b + k_frame_ms) k_vad_end_ms, b_vad_speech_ms := 0\<rparr>)"
  define f1 where "f1 = no_frame\<lparr>cf_input_dbfs := level, cf_vad_now := w\<rparr>"
  have f1: "cf_vad_now f1 = w" "\<not> cf_vad_started f1" "\<not> cf_vad_ended f1" using z by (simp_all add: f1_def)
  have u: "update_vad speech level no_frame b = (if \<not> b_vad_in_speech b1 \<and> k_vad_start_ms \<le> b_vad_speech_ms b1
              then (True, f1\<lparr>cf_vad_started := True\<rparr>, b1\<lparr>b_vad_in_speech := True\<rparr>)
              else if b_vad_in_speech b1 \<and> k_vad_end_ms \<le> b_vad_silence_ms b1
              then (True, f1\<lparr>cf_vad_ended := True\<rparr>, b1\<lparr>b_vad_in_speech := False\<rparr>)
              else (True, f1, b1))"
    unfolding update_vad_def Let_def w_def [symmetric] b1_def [symmetric] f1_def [symmetric] using assms(2) by simp
  have t: "trail cf_vad_now (fs @ [g]) = (if w then Suc (trail cf_vad_now fs) else 0)"
    "trail (\<lambda>f. \<not> cf_vad_now f) (fs @ [g]) = (if w then 0 else Suc (trail (\<lambda>f. \<not> cf_vad_now f) fs))" if "cf_vad_now g = w" for g
    using that by simp_all
  have b1: "b_vad_speech_ms b1 = 20 * min 6 (if w then Suc (trail cf_vad_now fs) else 0)"
    "b_vad_silence_ms b1 = 20 * min 35 (if w then 0 else Suc (trail (\<lambda>f. \<not> cf_vad_now f) fs))"
    "b_vad_in_speech b1 = b_vad_in_speech b"
    using assms(1) m by (simp_all add: b1_def vad_inv_def backend_consts)
  have cond: "k_vad_start_ms \<le> b_vad_speech_ms b1 \<longleftrightarrow> w \<and> 6 \<le> Suc (trail cf_vad_now fs)"
    "k_vad_end_ms \<le> b_vad_silence_ms b1 \<longleftrightarrow> \<not> w \<and> 35 \<le> Suc (trail (\<lambda>f. \<not> cf_vad_now f) fs)"
    unfolding b1 k_vad_start_ms_def k_vad_end_ms_def by (simp_all add: m)
  have c: "count_flag cf_vad_started fs = count_flag cf_vad_ended fs + (if b_vad_in_speech b then 1 else 0)"
    using assms(1) by (simp add: vad_inv_def)
  show ?thesis
  proof (cases "\<not> b_vad_in_speech b \<and> w \<and> 6 \<le> Suc (trail cf_vad_now fs)")
    case True
    then have "ok" "f = f1\<lparr>cf_vad_started := True\<rparr>" "b' = b1\<lparr>b_vad_in_speech := True\<rparr>"
      using assms(3) unfolding u cond b1(3) by auto
    then show ?thesis using True c f1 b1(1,2) by (simp add: vad_inv_def count_flag_def)
  next
    case no_start: False
    show ?thesis
    proof (cases "b_vad_in_speech b \<and> \<not> w \<and> 35 \<le> Suc (trail (\<lambda>f. \<not> cf_vad_now f) fs)")
      case True
      then have "ok" "f = f1\<lparr>cf_vad_ended := True\<rparr>" "b' = b1\<lparr>b_vad_in_speech := False\<rparr>"
        using assms(3) no_start unfolding u cond b1(3) by auto
      then show ?thesis using True c f1 b1(1,2) by (simp add: vad_inv_def count_flag_def)
    next
      case False
      then have e: "ok" "f = f1" "b' = b1"
        using assms(3) no_start unfolding u cond b1(3) by auto
      show ?thesis unfolding e using e(1) no_start False c f1 b1 by (cases w) (auto simp: vad_inv_def count_flag_def)
    qed
  qed
qed

lemma vad_run_inv:
  assumes "\<forall>(s, l) \<in> set xs. 0 \<le> s" "vad_inv [] b"
  shows "vad_inv (fst (vad_run xs b)) (snd (vad_run xs b)) \<and> length (fst (vad_run xs b)) = length xs"
  using assms(1)
proof (induction xs rule: rev_induct)
  case Nil
  then show ?case using assms(2) by simp
next
  case (snoc x xs)
  obtain s l where x: "x = (s, l)" by fastforce
  obtain ok f b' where u: "update_vad s l no_frame (snd (vad_run xs b)) = (ok, f, b')" by (cases "update_vad s l no_frame (snd (vad_run xs b))") auto
  have "vad_inv (fst (vad_run xs b)) (snd (vad_run xs b))" "0 \<le> s" using snoc by (auto simp: x)
  from update_vad_step [OF this u] show ?case using snoc by (simp add: x vad_run_append u)
qed



subsection \<open>Headroom of the loudspeaker\<close>

lemma foldl_max: "x \<in> set xs \<Longrightarrow> x \<le> foldl max a (xs :: int list)" and foldl_max_base: "a \<le> foldl max a xs"
proof -
  have base: "a \<le> foldl max a xs" for a and xs :: "int list" 
  proof (induction xs arbitrary: a)
    case (Cons y ys)
    have "a \<le> max a y" by simp
    also have "\<dots> \<le> foldl max (max a y) ys" by (rule Cons.IH)
    finally show ?case by simp
  qed simp
  show "a \<le> foldl max a xs" by (rule base)
  show "x \<in> set xs \<Longrightarrow> x \<le> foldl max a xs"
  proof (induction xs arbitrary: a)
    case (Cons y ys)
    then show ?case using base [of "max a y" ys] by auto
  qed simp
qed

lemma lround_bound:
  assumes "\<bar>x\<bar> \<le> of_int n"
  shows "\<bar>lround x\<bar> \<le> n"
proof -
  have "\<lfloor>y + 1 / 2\<rfloor> \<le> n \<and> 0 \<le> \<lfloor>y + 1 / 2\<rfloor>" if "0 \<le> y" "y \<le> of_int n" for y :: rat
    using that by (auto simp: floor_le_iff)
  from this [of x] this [of "- x"] show ?thesis
    using assms by (cases "0 \<le> x") (auto simp: lround_def abs_le_iff)
qed

lemma sint_clamp16: "\<bar>v\<bar> \<le> 32767 \<Longrightarrow> sint (clamp16 v) = v"
  by (simp add: clamp16_def abs_le_iff int_word_sint)

lemma scaled_headroom:
  assumes "0 \<le> gain" and "s \<in> set (scale_samples (limit_gain gain (peak_of xs)) xs)"
  shows "\<bar>sint s\<bar> \<le> 31128"
proof -
  obtain x where x: "x \<in> set xs" "s = clamp16 (lround (of_int (sint x) * limit_gain gain (peak_of xs)))"
    using assms(2) by (auto simp: scale_samples_def)
  define p where "p = peak_of xs"
  have p: "\<bar>sint x\<bar> \<le> p" "0 \<le> p"
    using x(1) foldl_max [of "\<bar>sint x\<bar>" "map (\<lambda>s. \<bar>sint s\<bar>) xs" 0] foldl_max_base [of 0 "map (\<lambda>s. \<bar>sint s\<bar>) xs"]
    by (auto simp: p_def peak_of_def)
  have g: "0 \<le> limit_gain gain p" using assms(1) p(2) by (simp add: limit_gain_def)
  have "of_int p * limit_gain gain p \<le> 31128"
    using p(2) assms(1) by (cases "p = 0") (auto simp: limit_gain_def mult.commute)
  moreover have "\<bar>of_int (sint x) * limit_gain gain p\<bar> \<le> of_int p * limit_gain gain p"
  proof -
    have "\<bar>of_int (sint x) :: rat\<bar> \<le> of_int p" using p(1) by (metis of_int_abs of_int_le_iff)
    then show ?thesis using g by (simp add: abs_mult mult_right_mono)
  qed
  ultimately have "\<bar>of_int (sint x) * limit_gain gain p\<bar> \<le> of_int 31128" by simp
  then have "\<bar>lround (of_int (sint x) * limit_gain gain p)\<bar> \<le> 31128" by (rule lround_bound)
  then show ?thesis by (simp add: x(2) p_def sint_clamp16)
qed

text \<open>Whatever gain is set and whatever the resampler delivers, no sample reaches the loudspeaker above
  31128 (95 percent of full scale) in either direction, the amplifier's headroom for the echo canceller.\<close>

theorem render_headroom:
  assumes "render as converted playback48 pcm24 gain b = Some (ok, b')"
    and "(l, r) \<in> set (drop (length (b_device b)) (b_device b'))"
  shows "l = r \<and> \<bar>sint l\<bar> \<le> 31128"
proof -
  consider (none) "b_device b' = b_device b"
    | (some) b1 where "0 \<le> gain" "b_device b1 = b_device b" "write_playback as (scale_samples (limit_gain gain (peak_of (take (nat converted) playback48)))
        (take (nat converted) playback48)) b1 = Some (ok, b')"
  proof (cases "\<not> b_open b \<or> k_tts24_frames < length pcm24 \<or> gain < 0 \<or> converted \<le> 0 \<or> int k_maximum_playback48_frames < converted")
    case True
    then have "b_device b' = b_device b" using assms(1) by (auto simp: render_def split: if_splits)
    then show thesis by (rule that(1))
  next
    case False
    define b1 where "b1 = (if peak_of (take (nat converted) playback48) \<noteq> 0 \<and> 0 < gain then b\<lparr>b_playback_render_started := True\<rparr> else b)"
    have "render as converted playback48 pcm24 gain b = write_playback as
        (scale_samples (limit_gain gain (peak_of (take (nat converted) playback48))) (take (nat converted) playback48)) b1"
      unfolding render_def Let_def b1_def using False by simp
    moreover have "b_device b1 = b_device b" by (simp add: b1_def)
    ultimately show thesis using assms(1) that(2) [of b1] False by simp
  qed
  then show ?thesis
  proof cases
    case none
    then show ?thesis using assms(2) by simp
  next
    case some
    then obtain n where "b_device b' = b_device b @ take n (map (\<lambda>s. (s, s))
        (scale_samples (limit_gain gain (peak_of (take (nat converted) playback48))) (take (nat converted) playback48)))"
      using write_loop_log [of "as" _ 0 b1 ok b'] by (fastforce simp: write_playback_def)
    then show ?thesis using assms(2) scaled_headroom [OF some(1)] by (auto dest!: in_set_takeD)
  qed
qed

theorem render_headroom_witness:
  "\<exists>b'. render [\<lparr>wa_rc = 1, wa_before = False, wa_during = False, wa_recovered = 0\<rparr>] 1 [32767] [1] 4
     ((new_backend :: nat backend)\<lparr>b_open := True\<rparr>) = Some (True, b') \<and> b_device b' = [(31128, 31128)]"
proof -
  define as where "as = [\<lparr>wa_rc = 1, wa_before = False, wa_during = False, wa_recovered = 0\<rparr>]"
  define b where "b = (new_backend :: nat backend)\<lparr>b_open := True\<rparr>"
  have fl: "\<lfloor>62257 / (2 :: rat)\<rfloor> = 31128" by (simp add: floor_eq_iff)
  have s: "scale_samples (limit_gain 4 (peak_of [32767])) [32767] = [31128]"
    by (simp add: scale_samples_def limit_gain_def peak_of_def lround_def clamp16_def fl)
  have p: "peak_of [32767] \<noteq> 0" by (simp add: peak_of_def)
  define b' where "b' = b\<lparr>b_playback_render_started := True, b_device := [(31128, 31128)]\<rparr>"
  have r: "render as 1 [32767] [1] 4 b = Some (True, b')"
    using s p by (simp add: render_def b_def b'_def as_def new_backend_def backend_consts write_playback_def write_loop.simps)
  have "(31128 :: sample) = 31128 \<and> \<bar>sint (31128 :: sample)\<bar> \<le> 31128"
    by (rule render_headroom [OF r]) (simp add: b_def b'_def new_backend_def)
  then show ?thesis using r by (simp add: as_def b_def b'_def)
qed

subsection \<open>Near voice during playback\<close>

text \<open>
  Frames while an answer is played: per frame, whether the playback thread has begun to render, and the
  frame after the VAD. No end of playback comes in between.
\<close>

fun near_run :: "(bool \<times> capture_frame) list \<Rightarrow> 'v backend \<Rightarrow> capture_frame list \<times> 'v backend" where
  "near_run [] b = ([], b)"
| "near_run ((rendering, f) # xs) b =
     (case update_near_voice True f (b\<lparr>b_playback_render_started := rendering\<rparr>) of (_, g, b1) \<Rightarrow>
        (case near_run xs b1 of (gs, b2) \<Rightarrow> (g # gs, b2)))"

lemma near_run_append: "near_run (xs @ ys) b =
   (fst (near_run xs b) @ fst (near_run ys (snd (near_run xs b))), snd (near_run ys (snd (near_run xs b))))"
  by (induction xs arbitrary: b) (auto split: prod.split)

text \<open>The warm-up: armed until the first reference was heard \<open>n\<close> frames ago, then counting thirty frames down.\<close>

definition echo_evidence :: "bool \<times> capture_frame \<Rightarrow> bool" where
  "echo_evidence x \<longleftrightarrow> fst x \<and> cf_reference_active (snd x)"

definition warming :: "(bool \<times> capture_frame) list \<Rightarrow> 'v backend \<Rightarrow> bool" where
  "warming hs b \<longleftrightarrow> b_vad b \<and> \<not> b_playback_ended b \<and> b_aec_tail_remaining b = 0 \<and>
     (if b_aec_warmup_armed b then b_aec_warmup_remaining b = 0
      else \<exists>j < length hs. echo_evidence (hs ! j) \<and> 30 \<le> b_aec_warmup_remaining b + (length hs - j))"

lemma reset_vad_fields: "b_vad b \<Longrightarrow> reset_vad True b = (True, b\<lparr>b_vad_speech_ms := 0, b_vad_silence_ms := 0, b_vad_in_speech := False\<rparr>)"
  by (simp add: reset_vad_def)

lemma update_near_warming:
  assumes "warming hs b" and "update_near_voice True f (b\<lparr>b_playback_render_started := r\<rparr>) = (ok, g, b')"
  shows "warming (hs @ [(r, f)]) b' \<and> (cf_near_voice g \<longrightarrow> cf_vad_now f \<and> (\<exists>j. j + 30 \<le> length hs \<and> echo_evidence (hs ! j)))"
proof -
  have b: "b_vad b" "\<not> b_playback_ended b" "b_aec_tail_remaining b = 0" using assms(1) by (simp_all add: warming_def)
  show ?thesis
  proof (cases "b_aec_warmup_armed b")
    case armed: True
    then have z: "b_aec_warmup_remaining b = 0" using assms(1) by (simp add: warming_def)
    show ?thesis
    proof (cases "r \<and> cf_reference_active f")
      case True
      then have "b' = b\<lparr>b_playback_render_started := r, b_aec_warmup_armed := False, b_aec_warmup_remaining := 29, b_reference_wait_frames := 0\<rparr>"
        "\<not> cf_near_voice g"
        using assms(2) armed b z by (auto simp: update_near_voice_def playback_events_def countdown_def backend_consts)
      then show ?thesis using b True by (auto simp: warming_def echo_evidence_def nth_append intro!: exI [of _ "length hs"])
    next
      case False
      then have "b_vad b' \<and> \<not> b_playback_ended b' \<and> b_aec_tail_remaining b' = 0 \<and> b_aec_warmup_armed b' \<and> b_aec_warmup_remaining b' = 0"
        "\<not> cf_near_voice g"
        using assms(2) armed b z by (auto simp: update_near_voice_def playback_events_def countdown_def split: if_splits)
      then show ?thesis by (simp add: warming_def)
    qed
  next
    case False
    then obtain j where j: "j < length hs" "echo_evidence (hs ! j)" "30 \<le> b_aec_warmup_remaining b + (length hs - j)"
      using assms(1) by (auto simp: warming_def)
    show ?thesis
    proof (cases "b_aec_warmup_remaining b")
      case 0
      then have "b' = b\<lparr>b_playback_render_started := r\<rparr>" "cf_near_voice g \<longrightarrow> cf_vad_now f"
        using assms(2) False b by (auto simp: update_near_voice_def playback_events_def countdown_def)
      then show ?thesis using b False j 0
        by (auto simp: warming_def nth_append intro!: exI [of _ j])
    next
      case (Suc n)
      then have "b_vad b' \<and> \<not> b_playback_ended b' \<and> b_aec_tail_remaining b' = 0 \<and> \<not> b_aec_warmup_armed b' \<and> b_aec_warmup_remaining b' = n"
        "\<not> cf_near_voice g"
        using assms(2) False b by (auto simp: update_near_voice_def playback_events_def countdown_def reset_vad_fields split: if_splits)
      then show ?thesis using j Suc by (auto simp: warming_def nth_append intro!: exI [of _ j])
    qed
  qed
qed

text \<open>The device does not take its own answer for the user: after \<^verbatim>\<open>PreparePlayback\<close> no frame counts as
  near voice before thirty frames (600 ms) have passed since the echo reference was first heard of a
  playback that has really begun; and then only a frame the VAD calls voice.\<close>

theorem near_voice_after_warmup:
  assumes "prepare_playback prepared swr_ok b0 = (True, b)" and "b_vad b0"
    and "near_run xs b = (gs, b')" and "k < length xs" and "cf_near_voice (gs ! k)"
  shows "cf_vad_now (snd (xs ! k)) \<and> (\<exists>j. j + 30 \<le> k \<and> fst (xs ! j) \<and> cf_reference_active (snd (xs ! j)))"
proof -
  have start: "warming [] b" using assms(1,2) by (auto simp: prepare_playback_def warming_def split: if_splits)
  have run: "warming ys (snd (near_run ys b)) \<and> length (fst (near_run ys b)) = length ys" for ys
  proof (induction ys rule: rev_induct)
    case Nil
    then show ?case using start by simp
  next
    case (snoc y ys)
    obtain r f where y: "y = (r, f)" by fastforce
    obtain ok g c where u: "update_near_voice True f ((snd (near_run ys b))\<lparr>b_playback_render_started := r\<rparr>) = (ok, g, c)"
      by (cases "update_near_voice True f ((snd (near_run ys b))\<lparr>b_playback_render_started := r\<rparr>)") auto
    show ?case using update_near_warming [OF _ u] snoc by (simp add: near_run_append y u)
  qed
  obtain r f where x: "xs ! k = (r, f)" by fastforce
  define pre where "pre = take k xs"
  have xs: "xs = pre @ (r, f) # drop (Suc k) xs" using id_take_nth_drop [OF assms(4)] x by (simp add: pre_def)
  obtain ok g c where u: "update_near_voice True f ((snd (near_run pre b))\<lparr>b_playback_render_started := r\<rparr>) = (ok, g, c)"
    by (cases "update_near_voice True f ((snd (near_run pre b))\<lparr>b_playback_render_started := r\<rparr>)") auto
  have len: "length pre = k" using assms(4) by (simp add: pre_def)
  have "gs = fst (near_run pre b) @ g # fst (near_run (drop (Suc k) xs) c)"
    using assms(3) near_run_append [of pre "(r, f) # drop (Suc k) xs" b] xs u by (simp split: prod.splits)
  then have "gs ! k = g" using run [of pre] len by (simp add: nth_append)
  then obtain j where j: "cf_vad_now f" "j + 30 \<le> length pre" "echo_evidence (pre ! j)"
    using update_near_warming [OF _ u] run [of pre] assms(5) by blast
  then have "pre ! j = xs ! j" by (simp add: pre_def)
  then show ?thesis using j len x by (intro conjI exI [of _ j]) (simp_all add: echo_evidence_def)
qed

text \<open>Thirty-one frames of voice with the reference heard from the first one on.\<close>

theorem near_voice_after_warmup_witness:
  "\<exists>gs b'. near_run (replicate 31 (True, no_frame\<lparr>cf_vad_now := True, cf_reference_active := True\<rparr>))
      (snd (prepare_playback 0 True ((new_backend :: nat backend)\<lparr>b_open := True, b_vad := True\<rparr>))) = (gs, b') \<and> cf_near_voice (gs ! 30) \<and>
    (\<exists>j. j + 30 \<le> 30 \<and> fst (replicate 31 (True, no_frame\<lparr>cf_vad_now := True, cf_reference_active := True\<rparr>) ! j))"
proof -
  define f where "f = no_frame\<lparr>cf_vad_now := True, cf_reference_active := True\<rparr>"
  have f: "cf_vad_now f" "cf_reference_active f" by (simp_all add: f_def)
  define b0 where "b0 = (new_backend :: nat backend)\<lparr>b_open := True, b_vad := True\<rparr>"
  obtain b where b: "prepare_playback 0 True b0 = (True, b)" "b_aec_warmup_armed b" "\<not> b_playback_ended b" "b_vad b"
      "b_aec_tail_remaining b = 0" "b_aec_warmup_remaining b = 0"
    by (auto simp: prepare_playback_def b0_def new_backend_def)
  have quiet: "\<exists>gs c. near_run (replicate n (True, f)) d = (gs, c) \<and> length gs = n \<and> b_aec_warmup_remaining c = 0 \<and> b_vad c \<and>
      \<not> b_aec_warmup_armed c \<and> \<not> b_playback_ended c \<and> b_aec_tail_remaining c = 0"
    if "b_aec_warmup_remaining d = n" "b_vad d" "\<not> b_aec_warmup_armed d" "\<not> b_playback_ended d" "b_aec_tail_remaining d = 0" for n and d :: "nat backend"
    using that
  proof (induction n arbitrary: d)
    case (Suc n)
    obtain ok g d1 where u: "update_near_voice True f (d\<lparr>b_playback_render_started := True\<rparr>) = (ok, g, d1)"
      by (cases "update_near_voice True f (d\<lparr>b_playback_render_started := True\<rparr>)") auto
    then have d1: "b_aec_warmup_remaining d1 = n" "b_vad d1" "\<not> b_aec_warmup_armed d1" "\<not> b_playback_ended d1" "b_aec_tail_remaining d1 = 0"
      using Suc.prems by (auto simp: update_near_voice_def playback_events_def countdown_def reset_vad_fields split: if_splits)
    show ?case using Suc.IH [OF d1] u by auto
  qed auto
  define b1 where "b1 = b\<lparr>b_playback_render_started := True, b_aec_warmup_armed := False, b_aec_warmup_remaining := 29, b_reference_wait_frames := 0\<rparr>"
  have first: "near_run [(True, f)] b = ([f\<lparr>cf_near_voice := False\<rparr>], b1)"
    using b f by (simp add: update_near_voice_def playback_events_def countdown_def backend_consts b1_def)
  obtain gs c where gs: "near_run (replicate 29 (True, f)) b1 = (gs, c)" "length gs = 29" "b_aec_warmup_remaining c = 0" "b_vad c"
      "\<not> b_aec_warmup_armed c" "\<not> b_playback_ended c" "b_aec_tail_remaining c = 0"
    using quiet [of b1 29] b by (auto simp: b1_def)
  have last: "near_run [(True, f)] c = ([f\<lparr>cf_near_voice := True\<rparr>], c\<lparr>b_playback_render_started := True\<rparr>)"
    using gs f by (simp add: update_near_voice_def playback_events_def countdown_def)
  have split31: "replicate 31 (True, f) = [(True, f)] @ replicate 29 (True, f) @ [(True, f)]"
    by (simp add: numeral_eq_Suc)
  have run: "near_run (replicate 31 (True, f)) b = (f\<lparr>cf_near_voice := False\<rparr> # gs @ [f\<lparr>cf_near_voice := True\<rparr>], c\<lparr>b_playback_render_started := True\<rparr>)"
    unfolding split31 near_run_append first gs(1) last fst_conv snd_conv by (simp only: gs(1) last fst_conv snd_conv append.simps)
  have near: "cf_near_voice ((f\<lparr>cf_near_voice := False\<rparr> # gs @ [f\<lparr>cf_near_voice := True\<rparr>]) ! 30)"
    using gs(2) by (simp add: nth_append)
  have "b_vad b0" by (simp add: b0_def)
  from near_voice_after_warmup [OF b(1) this run _ near] have "\<exists>j. j + 30 \<le> 30 \<and> fst (replicate 31 (True, f) ! j)" by auto
  then show ?thesis using run near b(1) by (auto simp: f_def b0_def)
qed

end
