(* ===== verification/ScreenText.thy ===== *)
theory ScreenText
  imports VoiceClient
begin

section \<open>The texts of the screen\<close>

text \<open>
  The constant tables of \<^verbatim>\<open>src/client/src/ui/lvgl_screen.cpp\<close>: icons, the seven applications of the
  launcher and the eight views of the voice page. Strings are the UTF-8 bytes of the source file.
\<close>

definition k_icon_arrow_left :: string where "k_icon_arrow_left = [CHR 0xEE, CHR 0xA8, CHR 0x99]"
definition k_icon_camera :: string where "k_icon_camera = [CHR 0xEE, CHR 0xA9, CHR 0x94]"
definition k_icon_clock :: string where "k_icon_clock = [CHR 0xEE, CHR 0xA9, CHR 0xB0]"
definition k_icon_cloud :: string where "k_icon_cloud = [CHR 0xEE, CHR 0xA9, CHR 0xB6]"
definition k_icon_folder :: string where "k_icon_folder = [CHR 0xEE, CHR 0xAA, CHR 0xAD]"
definition k_icon_microphone :: string where "k_icon_microphone = [CHR 0xEE, CHR 0xAB, CHR 0xB0]"
definition k_icon_sun :: string where "k_icon_sun = [CHR 0xEE, CHR 0xAC, CHR 0xB0]"
definition k_icon_volume :: string where "k_icon_volume = [CHR 0xEE, CHR 0xAD, CHR 0x91]"
definition k_icon_wifi :: string where "k_icon_wifi = [CHR 0xEE, CHR 0xAD, CHR 0x92]"
definition k_icon_volume_off :: string where "k_icon_volume_off = [CHR 0xEF, CHR 0x87, CHR 0x83]"
definition k_icon_scan_eye :: string where "k_icon_scan_eye = [CHR 0xEF, CHR 0x87, CHR 0xBF]"

record app_info =
  app_name :: string
  app_icon :: string
  app_badge :: string
  app_primary :: string
  app_secondary :: string
  app_action :: string
  app_stat_titles :: "string list"
  app_stat_values :: "string list"
  app_accent :: nat

definition apps :: "app_info list" where
  "apps = [
    \<lparr>app_name = [CHR 0xE5, CHR 0xB0, CHR 0x8F, CHR 0xE6, CHR 0x99, CHR 0xBA], app_icon = k_icon_microphone,
      app_badge = [CHR 0xE8, CHR 0xAF, CHR 0xAD, CHR 0xE9, CHR 0x9F, CHR 0xB3, CHR 0xE5, CHR 0x9C, CHR 0xA8, CHR 0xE7, CHR 0xBA, CHR 0xBF],
      app_primary = [CHR 0xE9, CHR 0x9A, CHR 0x8F, CHR 0xE6, CHR 0x97, CHR 0xB6, CHR 0xE5, CHR 0x8F, CHR 0xAF, CHR 0xE4, CHR 0xBB, CHR 0xA5, CHR 0xE8, CHR 0xAF, CHR 0xB4, CHR 0xE8, CHR 0xAF, CHR 0x9D],
      app_secondary = [CHR 0xE4, CHR 0xBD, CHR 0x8E, CHR 0xE5, CHR 0xBB, CHR 0xB6, CHR 0xE8, CHR 0xBF, CHR 0x9F, CHR 0xE5, CHR 0x85, CHR 0xA8, CHR 0xE5, CHR 0x8F, CHR 0x8C, CHR 0xE5, CHR 0xB7, CHR 0xA5, CHR 0xE8, CHR 0xAF, CHR 0xAD, CHR 0xE9, CHR 0x9F, CHR 0xB3],
      app_action = [CHR 0xE5, CHR 0xBC, CHR 0x80, CHR 0xE5, CHR 0xA7, CHR 0x8B, CHR 0xE5, CHR 0xAF, CHR 0xB9, CHR 0xE8, CHR 0xAF, CHR 0x9D],
      app_stat_titles = [[CHR 0xE5, CHR 0x94, CHR 0xA4, CHR 0xE9, CHR 0x86, CHR 0x92],
        [CHR 0xE9, CHR 0xBA, CHR 0xA6, CHR 0xE5, CHR 0x85, CHR 0x8B, CHR 0xE9, CHR 0xA3, CHR 0x8E],
        [CHR 0xE7, CHR 0x8A, CHR 0xB6, CHR 0xE6, CHR 0x80, CHR 0x81]],
      app_stat_values = [''Snowboy'',
        [CHR 0xE5, CHR 0x8F, CHR 0x8C, CHR 0xE9, CHR 0xBA, CHR 0xA6] @ '' AEC'',
        [CHR 0xE5, CHR 0xBE, CHR 0x85, CHR 0xE5, CHR 0x91, CHR 0xBD]], app_accent = 0x3478F6\<rparr>,
     \<lparr>app_name = [CHR 0xE6, CHR 0x91, CHR 0x84, CHR 0xE5, CHR 0x83, CHR 0x8F, CHR 0xE5, CHR 0xA4, CHR 0xB4], app_icon = k_icon_camera,
      app_badge = ''BSP '' @ [CHR 0xE5, CHR 0xB7, CHR 0xB2, CHR 0xE9, CHR 0xAA, CHR 0x8C, CHR 0xE8, CHR 0xAF, CHR 0x81],
      app_primary = ''SC3336'',
      app_secondary = ''3MP '' @ [CHR 0xC2, CHR 0xB7] @ '' MIPI CSI'',
      app_action = [CHR 0xE8, CHR 0xBD, CHR 0xBB, CHR 0xE8, CHR 0xA7, CHR 0xA6, CHR 0xE5, CHR 0x90, CHR 0xAF, CHR 0xE5, CHR 0x8A, CHR 0xA8, CHR 0xE9, CHR 0xA2, CHR 0x84, CHR 0xE8, CHR 0xA7, CHR 0x88],
      app_stat_titles = [[CHR 0xE6, CHR 0x9B, CHR 0x9D, CHR 0xE5, CHR 0x85, CHR 0x89],
        [CHR 0xE5, CHR 0xB8, CHR 0xA7, CHR 0xE7, CHR 0x8E, CHR 0x87],
        [CHR 0xE9, CHR 0xA2, CHR 0x84, CHR 0xE8, CHR 0xA7, CHR 0x88]],
      app_stat_values = [[CHR 0xE8, CHR 0x87, CHR 0xAA, CHR 0xE5, CHR 0x8A, CHR 0xA8],
        ''4 FPS'',
        [CHR 0xE5, CHR 0xBE, CHR 0x85, CHR 0xE5, CHR 0x90, CHR 0xAF, CHR 0xE5, CHR 0x8A, CHR 0xA8]], app_accent = 0xC64F69\<rparr>,
     \<lparr>app_name = [CHR 0xE6, CHR 0x97, CHR 0xB6, CHR 0xE9, CHR 0x97, CHR 0xB4], app_icon = k_icon_clock,
      app_badge = [CHR 0xE6, CHR 0x9C, CHR 0xAC, CHR 0xE5, CHR 0x9C, CHR 0xB0, CHR 0xE6, CHR 0x97, CHR 0xB6, CHR 0xE9, CHR 0x97, CHR 0xB4],
      app_primary = ''--:--'',
      app_secondary = [CHR 0xE4, CHR 0xBD, CHR 0xBF, CHR 0xE7, CHR 0x94, CHR 0xA8, CHR 0xE7, CHR 0xB3, CHR 0xBB, CHR 0xE7, CHR 0xBB, CHR 0x9F, CHR 0xE6, CHR 0x9C, CHR 0xAC, CHR 0xE5, CHR 0x9C, CHR 0xB0, CHR 0xE6, CHR 0x97, CHR 0xB6, CHR 0xE5, CHR 0x8C, CHR 0xBA],
      app_action = [CHR 0xE6, CHR 0x97, CHR 0xB6, CHR 0xE9, CHR 0x92, CHR 0x9F, CHR 0xE9, CHR 0xA1, CHR 0xB5, CHR 0xE9, CHR 0x9D, CHR 0xA2],
      app_stat_titles = [[CHR 0xE9, CHR 0x97, CHR 0xB9, CHR 0xE9, CHR 0x92, CHR 0x9F],
        [CHR 0xE8, CHR 0xAE, CHR 0xA1, CHR 0xE6, CHR 0x97, CHR 0xB6, CHR 0xE5, CHR 0x99, CHR 0xA8],
        [CHR 0xE5, CHR 0x90, CHR 0x8C, CHR 0xE6, CHR 0xAD, CHR 0xA5]],
      app_stat_values = [[CHR 0xE5, CHR 0xBE, CHR 0x85, CHR 0xE6, CHR 0x8E, CHR 0xA5, CHR 0xE5, CHR 0x85, CHR 0xA5],
        [CHR 0xE5, CHR 0xBE, CHR 0x85, CHR 0xE6, CHR 0x8E, CHR 0xA5, CHR 0xE5, CHR 0x85, CHR 0xA5],
        [CHR 0xE7, CHR 0xB3, CHR 0xBB, CHR 0xE7, CHR 0xBB, CHR 0x9F, CHR 0xE6, CHR 0x97, CHR 0xB6, CHR 0xE9, CHR 0x97, CHR 0xB4]], app_accent = 0x5A687F\<rparr>,
     \<lparr>app_name = ''WiFi'', app_icon = k_icon_wifi,
      app_badge = [CHR 0xE9, CHR 0x85, CHR 0x8D, CHR 0xE7, CHR 0xBD, CHR 0x91, CHR 0xE5, CHR 0x85, CHR 0xA5, CHR 0xE5, CHR 0x8F, CHR 0xA3],
      app_primary = ''boomPI-Setup'',
      app_secondary = [CHR 0xE9, CHR 0xA6, CHR 0x96, CHR 0xE6, CHR 0xAC, CHR 0xA1, CHR 0xE8, CHR 0x81, CHR 0x94, CHR 0xE7, CHR 0xBD, CHR 0x91] @ '' '' @ [CHR 0xC2, CHR 0xB7] @ '' '' @ [CHR 0xE6, CHR 0x9C, CHR 0xAC, CHR 0xE5, CHR 0x9C, CHR 0xB0, CHR 0xE9, CHR 0x85, CHR 0x8D, CHR 0xE7, CHR 0xBD, CHR 0xAE],
      app_action = [CHR 0xE6, CHR 0x89, CHR 0x93, CHR 0xE5, CHR 0xBC, CHR 0x80, CHR 0xE9, CHR 0x85, CHR 0x8D, CHR 0xE7, CHR 0xBD, CHR 0x91, CHR 0xE5, CHR 0x90, CHR 0x91, CHR 0xE5, CHR 0xAF, CHR 0xBC],
      app_stat_titles = [[CHR 0xE7, CHR 0x83, CHR 0xAD, CHR 0xE7, CHR 0x82, CHR 0xB9],
        [CHR 0xE6, CHR 0x96, CHR 0xB9, CHR 0xE5, CHR 0xBC, CHR 0x8F],
        [CHR 0xE7, CHR 0x8A, CHR 0xB6, CHR 0xE6, CHR 0x80, CHR 0x81]],
      app_stat_values = [''boomPI-Setup'',
        [CHR 0xE4, CHR 0xBA, CHR 0x8C, CHR 0xE7, CHR 0xBB, CHR 0xB4, CHR 0xE7, CHR 0xA0, CHR 0x81],
        [CHR 0xE6, CHR 0x8C, CHR 0x89, CHR 0xE9, CHR 0x9C, CHR 0x80, CHR 0xE5, CHR 0x90, CHR 0xAF, CHR 0xE5, CHR 0x8A, CHR 0xA8]], app_accent = 0x2878C9\<rparr>,
     \<lparr>app_name = [CHR 0xE5, CHR 0xA4, CHR 0xA9, CHR 0xE6, CHR 0xB0, CHR 0x94], app_icon = k_icon_cloud,
      app_badge = [CHR 0xE6, CHR 0x95, CHR 0xB0, CHR 0xE6, CHR 0x8D, CHR 0xAE, CHR 0xE5, CHR 0xBE, CHR 0x85, CHR 0xE6, CHR 0x8E, CHR 0xA5, CHR 0xE5, CHR 0x85, CHR 0xA5],
      app_primary = ''--'' @ [CHR 0xC2, CHR 0xB0],
      app_secondary = [CHR 0xE5, CHR 0x9C, CHR 0xA8, CHR 0xE7, CHR 0xBA, CHR 0xBF, CHR 0xE5, CHR 0xA4, CHR 0xA9, CHR 0xE6, CHR 0xB0, CHR 0x94, CHR 0xE5, CHR 0xB0, CHR 0x9A, CHR 0xE6, CHR 0x9C, CHR 0xAA, CHR 0xE6, CHR 0x8E, CHR 0xA5, CHR 0xE5, CHR 0x85, CHR 0xA5],
      app_action = [CHR 0xE5, CHR 0x90, CHR 0x8E, CHR 0xE7, CHR 0xBB, CHR 0xAD, CHR 0xE6, CHR 0x8E, CHR 0xA5, CHR 0xE5, CHR 0x85, CHR 0xA5],
      app_stat_titles = [[CHR 0xE6, CHR 0xB9, CHR 0xBF, CHR 0xE5, CHR 0xBA, CHR 0xA6],
        [CHR 0xE9, CHR 0xA3, CHR 0x8E, CHR 0xE5, CHR 0x8A, CHR 0x9B],
        [CHR 0xE9, CHR 0x99, CHR 0x8D, CHR 0xE9, CHR 0x9B, CHR 0xA8]],
      app_stat_values = [''--'',
        ''--'',
        ''--''], app_accent = 0x2C8799\<rparr>,
     \<lparr>app_name = [CHR 0xE8, CHR 0xB5, CHR 0x84, CHR 0xE6, CHR 0xBA, CHR 0x90], app_icon = k_icon_folder,
      app_badge = [CHR 0xE9, CHR 0x87, CHR 0x87, CHR 0xE9, CHR 0x9B, CHR 0x86, CHR 0xE5, CHR 0xBE, CHR 0x85, CHR 0xE6, CHR 0x8E, CHR 0xA5, CHR 0xE5, CHR 0x85, CHR 0xA5],
      app_primary = ''RV1106'',
      app_secondary = [CHR 0xE7, CHR 0xB3, CHR 0xBB, CHR 0xE7, CHR 0xBB, CHR 0x9F, CHR 0xE7, CHR 0x9B, CHR 0x91, CHR 0xE6, CHR 0x8E, CHR 0xA7, CHR 0xE5, CHR 0xB0, CHR 0x9A, CHR 0xE6, CHR 0x9C, CHR 0xAA, CHR 0xE6, CHR 0x8E, CHR 0xA5, CHR 0xE5, CHR 0x85, CHR 0xA5],
      app_action = [CHR 0xE5, CHR 0x90, CHR 0x8E, CHR 0xE7, CHR 0xBB, CHR 0xAD, CHR 0xE6, CHR 0x8E, CHR 0xA5, CHR 0xE5, CHR 0x85, CHR 0xA5],
      app_stat_titles = [[CHR 0xE5, CHR 0x86, CHR 0x85, CHR 0xE5, CHR 0xAD, CHR 0x98],
        ''NPU'',
        [CHR 0xE6, CHR 0xB8, CHR 0xA9, CHR 0xE5, CHR 0xBA, CHR 0xA6]],
      app_stat_values = [''--'',
        ''--'',
        ''--''], app_accent = 0x397C60\<rparr>,
     \<lparr>app_name = ''YOLO'', app_icon = k_icon_scan_eye,
      app_badge = [CHR 0xE5, CHR 0x8D, CHR 0xB3, CHR 0xE5, CHR 0xB0, CHR 0x86, CHR 0xE5, CHR 0xBC, CHR 0x80, CHR 0xE6, CHR 0x94, CHR 0xBE],
      app_primary = ''NPU '' @ [CHR 0xE8, CHR 0xA7, CHR 0x86, CHR 0xE8, CHR 0xA7, CHR 0x89],
      app_secondary = [CHR 0xE6, CHR 0xA1, CHR 0x8C, CHR 0xE9, CHR 0x9D, CHR 0xA2, CHR 0xE5, CHR 0xAE, CHR 0x8C, CHR 0xE6, CHR 0x88, CHR 0x90, CHR 0xE5, CHR 0x90, CHR 0x8E, CHR 0xE5, CHR 0x86, CHR 0x8D, CHR 0xE6, CHR 0x8E, CHR 0xA5, CHR 0xE5, CHR 0x85, CHR 0xA5, CHR 0xE6, CHR 0x8E, CHR 0xA8, CHR 0xE7, CHR 0x90, CHR 0x86],
      app_action = [CHR 0xE6, CHR 0x9C, CHR 0x80, CHR 0xE5, CHR 0x90, CHR 0x8E, CHR 0xE9, CHR 0x98, CHR 0xB6, CHR 0xE6, CHR 0xAE, CHR 0xB5, CHR 0xE6, CHR 0x8E, CHR 0xA5, CHR 0xE5, CHR 0x85, CHR 0xA5],
      app_stat_titles = [[CHR 0xE6, CHR 0xA8, CHR 0xA1, CHR 0xE5, CHR 0x9E, CHR 0x8B],
        [CHR 0xE8, CHR 0xBE, CHR 0x93, CHR 0xE5, CHR 0x85, CHR 0xA5],
        [CHR 0xE7, CHR 0x8A, CHR 0xB6, CHR 0xE6, CHR 0x80, CHR 0x81]],
      app_stat_values = [''--'',
        ''--'',
        [CHR 0xE5, CHR 0xBE, CHR 0x85, CHR 0xE6, CHR 0x8E, CHR 0xA5, CHR 0xE5, CHR 0x85, CHR 0xA5]], app_accent = 0x7658D7\<rparr>]"

record voice_view =
  view_status :: string
  view_hint :: string
  view_amplitude :: int
  view_period :: nat

fun voice_of :: "device_ui_state \<Rightarrow> voice_view" where
  "voice_of Ui_Idle = \<lparr>view_status = [CHR 0xE9, CHR 0x9A, CHR 0x8F, CHR 0xE6, CHR 0x97, CHR 0xB6, CHR 0xE5, CHR 0x8F, CHR 0xAF, CHR 0xE4, CHR 0xBB, CHR 0xA5, CHR 0xE8, CHR 0xAF, CHR 0xB4, CHR 0xE8, CHR 0xAF, CHR 0x9D],
     view_hint = [CHR 0xE8, CHR 0xAF, CHR 0xB4, CHR 0xE5, CHR 0x87, CHR 0xBA, CHR 0xE5, CHR 0x94, CHR 0xA4, CHR 0xE9, CHR 0x86, CHR 0x92, CHR 0xE8, CHR 0xAF, CHR 0x8D, CHR 0xE5, CHR 0xBC, CHR 0x80, CHR 0xE5, CHR 0xA7, CHR 0x8B, CHR 0xE5, CHR 0xAF, CHR 0xB9, CHR 0xE8, CHR 0xAF, CHR 0x9D],
     view_amplitude = 2, view_period = 2200\<rparr>"
| "voice_of Ui_Listening = \<lparr>view_status = [CHR 0xE6, CHR 0xAD, CHR 0xA3, CHR 0xE5, CHR 0x9C, CHR 0xA8, CHR 0xE8, CHR 0x81, CHR 0x86, CHR 0xE5, CHR 0x90, CHR 0xAC],
     view_hint = [CHR 0xE6, CHR 0x88, CHR 0x91, CHR 0xE5, CHR 0x9C, CHR 0xA8, CHR 0xE5, CHR 0x90, CHR 0xAC, CHR 0xEF, CHR 0xBC, CHR 0x8C, CHR 0xE8, CHR 0xAF, CHR 0xB7, CHR 0xE7, CHR 0xBB, CHR 0xA7, CHR 0xE7, CHR 0xBB, CHR 0xAD],
     view_amplitude = 8, view_period = 760\<rparr>"
| "voice_of Ui_Thinking = \<lparr>view_status = [CHR 0xE6, CHR 0xAD, CHR 0xA3, CHR 0xE5, CHR 0x9C, CHR 0xA8, CHR 0xE6, CHR 0x80, CHR 0x9D, CHR 0xE8, CHR 0x80, CHR 0x83],
     view_hint = [CHR 0xE6, CHR 0xAD, CHR 0xA3, CHR 0xE5, CHR 0x9C, CHR 0xA8, CHR 0xE7, CHR 0xBB, CHR 0x84, CHR 0xE7, CHR 0xBB, CHR 0x87, CHR 0xE5, CHR 0x9B, CHR 0x9E, CHR 0xE7, CHR 0xAD, CHR 0x94],
     view_amplitude = 5, view_period = 1200\<rparr>"
| "voice_of Ui_Speaking = \<lparr>view_status = [CHR 0xE6, CHR 0xAD, CHR 0xA3, CHR 0xE5, CHR 0x9C, CHR 0xA8, CHR 0xE5, CHR 0x9B, CHR 0x9E, CHR 0xE7, CHR 0xAD, CHR 0x94],
     view_hint = [CHR 0xE8, CHR 0xBD, CHR 0xBB, CHR 0xE8, CHR 0xA7, CHR 0xA6, CHR 0xE5, CHR 0xB1, CHR 0x8F, CHR 0xE5, CHR 0xB9, CHR 0x95, CHR 0xE5, CHR 0x8D, CHR 0xB3, CHR 0xE5, CHR 0x8F, CHR 0xAF, CHR 0xE6, CHR 0x89, CHR 0x93, CHR 0xE6, CHR 0x96, CHR 0xAD],
     view_amplitude = 10, view_period = 620\<rparr>"
| "voice_of Ui_Happy = \<lparr>view_status = [CHR 0xE5, CHR 0x9B, CHR 0x9E, CHR 0xE7, CHR 0xAD, CHR 0x94, CHR 0xE5, CHR 0xAE, CHR 0x8C, CHR 0xE6, CHR 0x88, CHR 0x90],
     view_hint = [CHR 0xE9, CHR 0x9A, CHR 0x8F, CHR 0xE6, CHR 0x97, CHR 0xB6, CHR 0xE5, CHR 0x8F, CHR 0xAF, CHR 0xE4, CHR 0xBB, CHR 0xA5, CHR 0xE7, CHR 0xBB, CHR 0xA7, CHR 0xE7, CHR 0xBB, CHR 0xAD, CHR 0xE9, CHR 0x97, CHR 0xAE, CHR 0xE6, CHR 0x88, CHR 0x91],
     view_amplitude = 3, view_period = 1800\<rparr>"
| "voice_of Ui_Offline = \<lparr>view_status = [CHR 0xE6, CHR 0x9A, CHR 0x82, CHR 0xE6, CHR 0x97, CHR 0xB6, CHR 0xE7, CHR 0xA6, CHR 0xBB, CHR 0xE7, CHR 0xBA, CHR 0xBF],
     view_hint = [CHR 0xE7, CHR 0xAD, CHR 0x89, CHR 0xE5, CHR 0xBE, CHR 0x85, CHR 0xE7, CHR 0xBD, CHR 0x91, CHR 0xE7, CHR 0xBB, CHR 0x9C, CHR 0xE6, CHR 0x81, CHR 0xA2, CHR 0xE5, CHR 0xA4, CHR 0x8D],
     view_amplitude = 0, view_period = 2400\<rparr>"
| "voice_of Ui_Error = \<lparr>view_status = [CHR 0xE5, CHR 0x8F, CHR 0x91, CHR 0xE7, CHR 0x94, CHR 0x9F, CHR 0xE9, CHR 0x94, CHR 0x99, CHR 0xE8, CHR 0xAF, CHR 0xAF],
     view_hint = [CHR 0xE8, CHR 0xAF, CHR 0xB7, CHR 0xE6, CHR 0xA3, CHR 0x80, CHR 0xE6, CHR 0x9F, CHR 0xA5, CHR 0xE7, CHR 0xBD, CHR 0x91, CHR 0xE7, CHR 0xBB, CHR 0x9C, CHR 0xE5, CHR 0x90, CHR 0x8E, CHR 0xE9, CHR 0x87, CHR 0x8D, CHR 0xE8, CHR 0xAF, CHR 0x95],
     view_amplitude = 1, view_period = 2000\<rparr>"
| "voice_of Ui_SpeakingTail = \<lparr>view_status = [CHR 0xE5, CHR 0x8D, CHR 0xB3, CHR 0xE5, CHR 0xB0, CHR 0x86, CHR 0xE8, CHR 0xAF, CHR 0xB4, CHR 0xE5, CHR 0xAE, CHR 0x8C],
     view_hint = [CHR 0xE8, CHR 0xBD, CHR 0xBB, CHR 0xE8, CHR 0xA7, CHR 0xA6, CHR 0xE5, CHR 0xB1, CHR 0x8F, CHR 0xE5, CHR 0xB9, CHR 0x95, CHR 0xE4, CHR 0xBB, CHR 0x8D, CHR 0xE5, CHR 0x8F, CHR 0xAF, CHR 0xE6, CHR 0x89, CHR 0x93, CHR 0xE6, CHR 0x96, CHR 0xAD],
     view_amplitude = 4, view_period = 1500\<rparr>"

definition k_weekdays :: "string list" where
  "k_weekdays = [[CHR 0xE6, CHR 0x98, CHR 0x9F, CHR 0xE6, CHR 0x9C, CHR 0x9F, CHR 0xE6, CHR 0x97, CHR 0xA5],
     [CHR 0xE6, CHR 0x98, CHR 0x9F, CHR 0xE6, CHR 0x9C, CHR 0x9F, CHR 0xE4, CHR 0xB8, CHR 0x80],
     [CHR 0xE6, CHR 0x98, CHR 0x9F, CHR 0xE6, CHR 0x9C, CHR 0x9F, CHR 0xE4, CHR 0xBA, CHR 0x8C],
     [CHR 0xE6, CHR 0x98, CHR 0x9F, CHR 0xE6, CHR 0x9C, CHR 0x9F, CHR 0xE4, CHR 0xB8, CHR 0x89],
     [CHR 0xE6, CHR 0x98, CHR 0x9F, CHR 0xE6, CHR 0x9C, CHR 0x9F, CHR 0xE5, CHR 0x9B, CHR 0x9B],
     [CHR 0xE6, CHR 0x98, CHR 0x9F, CHR 0xE6, CHR 0x9C, CHR 0x9F, CHR 0xE4, CHR 0xBA, CHR 0x94],
     [CHR 0xE6, CHR 0x98, CHR 0x9F, CHR 0xE6, CHR 0x9C, CHR 0x9F, CHR 0xE5, CHR 0x85, CHR 0xAD]]"

lemma length_apps [simp]: "length apps = 7"
  by (simp add: apps_def)

end
