(* ===== verification/LvglScreen.thy ===== *)
theory LvglScreen
  imports ScreenText Utf8
begin

section \<open>The screen\<close>

text \<open>
  \<^verbatim>\<open>src/client/src/ui/lvgl_screen.cpp\<close>: the pages of the 320x240 shell, what they show, and the events
  of their widgets. The LVGL library keeps labels, flags, sliders and animations; here they are fields of
  the screen. What a handler registered by \<^verbatim>\<open>DeviceUi\<close> is called with is the list an operation returns.
  The calls that lay out the widgets are in \<open>ScreenBuild\<close>.
\<close>

subsection \<open>State\<close>

datatype page = Page_Home | Page_Voice | Page_Camera | Page_Wifi | Page_Generic

datatype volume_phase = Phase_Begin | Phase_Preview | Phase_Commit

datatype screen_call = On_Interrupt | On_App nat | On_Camera bool | On_Volume u8 volume_phase

datatype opacity = Opa_Transp | Opa nat | Opa_Cover

datatype anim_exec = Anim_Zoom | Anim_MoveX | Anim_MoveY | Anim_Rotate

record animation =
  an_exec :: anim_exec
  an_from :: int
  an_to :: int
  an_time :: nat
  an_playback :: nat

record orb_pose =
  po_x :: int
  po_y :: int
  po_zoom :: int
  po_angle :: int
  po_opacity :: opacity

record generic_labels =
  gl_title :: string
  gl_badge :: string
  gl_icon :: string
  gl_primary :: string
  gl_secondary :: string
  gl_action :: string
  gl_stat_titles :: "string list"
  gl_stat_values :: "string list"
  gl_icon_color :: nat

text \<open>\<open>s_built\<close>: the widgets exist; the code tests their pointers, which \<^verbatim>\<open>Create\<close> sets and \<^verbatim>\<open>Destroy\<close> clears together.\<close>

record screen =
  s_built :: bool
  s_freetype :: bool
  s_fonts :: "bool list"
  s_clock_timer :: bool
  s_visible :: "page \<Rightarrow> bool"
  s_page :: page
  s_current_app :: nat
  s_state :: device_ui_state
  s_has_text :: bool
  s_muted :: bool
  s_volume :: u8
  s_before_mute :: u8
  s_status :: string
  s_text :: string
  s_slider :: int
  s_volume_label :: string
  s_mute_icon :: string
  s_camera_status :: string
  s_camera_pixels :: "u16 list"
  s_generic :: generic_labels
  s_accent :: nat
  s_recolor :: opacity
  s_orbits :: "opacity \<times> opacity"
  s_orb :: orb_pose
  s_orb_anims :: "animation list"
  s_home_orb :: orb_pose
  s_home_anims :: "animation list"
  s_clock :: string
  s_date :: string
  s_year :: string
  s_on_interrupt :: bool
  s_on_app :: bool
  s_on_camera :: bool
  s_on_volume :: bool

definition k_app_count :: nat where "k_app_count = 7"
definition k_camera_pixels :: nat where "k_camera_pixels = 320 * 180"

subsection \<open>Motion of the two orbs\<close>

definition breathe :: "int \<Rightarrow> int \<Rightarrow> nat \<Rightarrow> nat \<Rightarrow> animation" where
  "breathe a b t p = \<lparr>an_exec = Anim_Zoom, an_from = a, an_to = b, an_time = t, an_playback = p\<rparr>"

definition stop_home_orb_motion :: "screen \<Rightarrow> screen" where
  "stop_home_orb_motion s = (if \<not> s_built s then s
     else s\<lparr>s_home_anims := filter (\<lambda>a. an_exec a \<notin> {Anim_Zoom, Anim_MoveX, Anim_Rotate}) (s_home_anims s),
            s_home_orb := (s_home_orb s)\<lparr>po_x := 0, po_zoom := 116, po_angle := 0\<rparr>\<rparr>)"

definition start_home_orb_motion :: "screen \<Rightarrow> screen" where
  "start_home_orb_motion s0 = (let s = stop_home_orb_motion s0 in if \<not> s_built s then s
     else let b = breathe 112 121 1900 1900
          in s\<lparr>s_home_anims := s_home_anims s @
                 [b, b\<lparr>an_exec := Anim_MoveX, an_from := - 1, an_to := 1, an_time := 2300, an_playback := 2100\<rparr>,
                  b\<lparr>an_exec := Anim_Rotate, an_from := - 45, an_to := 45, an_time := 2900, an_playback := 2700\<rparr>]\<rparr>)"

definition stop_orb_motion :: "screen \<Rightarrow> screen" where
  "stop_orb_motion s = (if \<not> s_built s then s
     else s\<lparr>s_orb_anims := filter (\<lambda>a. an_exec a \<notin> {Anim_Zoom, Anim_MoveX, Anim_MoveY, Anim_Rotate}) (s_orb_anims s),
            s_orb := \<lparr>po_x = 0, po_y = 0, po_zoom = 256, po_angle = 0, po_opacity = Opa_Cover\<rparr>\<rparr>)"

definition start_orb_motion :: "screen \<Rightarrow> screen" where
  "start_orb_motion s0 = (let s = stop_orb_motion s0 in if \<not> s_built s then s
     else let v = voice_of (s_state s); amp = view_amplitude v; period = view_period v in
       if amp = 0 then s\<lparr>s_orb := (s_orb s)\<lparr>po_zoom := 250, po_opacity := Opa 60\<rparr>\<rparr>
       else let drift = (if 8 \<le> amp then 3 else if 4 \<le> amp then 2 else 1);
                zoom = (if 8 \<le> amp then 10 else if 4 \<le> amp then 7 else 4);
                angle = 18 + amp * 5;
                b = breathe (256 - zoom) (256 + zoom) period period
            in s\<lparr>s_orb_anims := s_orb_anims s @
                 [b,
                  b\<lparr>an_exec := Anim_MoveX, an_from := - drift, an_to := drift, an_time := period + 230, an_playback := period + 170\<rparr>,
                  b\<lparr>an_exec := Anim_MoveY, an_from := drift, an_to := - drift, an_time := period + 410, an_playback := period + 290\<rparr>,
                  b\<lparr>an_exec := Anim_Rotate, an_from := - angle, an_to := angle, an_time := period + 530, an_playback := period + 430\<rparr>]\<rparr>)"

text \<open>\<^verbatim>\<open>MoveX\<close>, \<^verbatim>\<open>MoveY\<close>, \<^verbatim>\<open>Zoom\<close> and \<^verbatim>\<open>Rotate\<close>: what a running animation does to its orb.\<close>

fun anim_apply :: "anim_exec \<Rightarrow> int \<Rightarrow> orb_pose \<Rightarrow> orb_pose" where
  "anim_apply Anim_MoveX v p = p\<lparr>po_x := v\<rparr>"
| "anim_apply Anim_MoveY v p = p\<lparr>po_y := v\<rparr>"
| "anim_apply Anim_Zoom v p = p\<lparr>po_zoom := v mod 2 ^ 16\<rparr>"
| "anim_apply Anim_Rotate v p = p\<lparr>po_angle := sint (word_of_int v :: 16 word)\<rparr>"

subsection \<open>The voice page\<close>

fun state_accent :: "device_ui_state \<Rightarrow> nat \<times> opacity" where
  "state_accent Ui_Idle = (0x315F9D, Opa_Transp)"
| "state_accent Ui_Listening = (0x35C9FF, Opa 10)"
| "state_accent Ui_Thinking = (0x8B6CFF, Opa 20)"
| "state_accent Ui_Speaking = (0x36D9C0, Opa 10)"
| "state_accent Ui_Happy = (0x48CFA4, Opa 10)"
| "state_accent Ui_SpeakingTail = (0x48CFA4, Opa 10)"
| "state_accent Ui_Offline = (0x56657A, Opa 50)"
| "state_accent Ui_Error = (0xE9576C, Opa 30)"

definition update_voice :: "screen \<Rightarrow> screen" where
  "update_voice s = (if \<not> s_built s then s
     else let view = voice_of (s_state s);
              s1 = s\<lparr>s_status := view_status view\<rparr>;
              s2 = (if \<not> s_has_text s1 then s1\<lparr>s_text := view_hint view\<rparr> else s1);
              (accent, recolor) = state_accent (s_state s2);
              s3 = s2\<lparr>s_accent := accent, s_recolor := recolor, s_orbits := (Opa 50, Opa 20)\<rparr>
          in if s_page s3 = Page_Voice then start_orb_motion s3 else s3)"

text \<open>\<open>glyph\<close>: the code points \<^verbatim>\<open>HasGlyph\<close> finds in the small font.\<close>

definition set_text :: "(nat \<Rightarrow> bool) \<Rightarrow> string \<Rightarrow> string \<Rightarrow> screen \<Rightarrow> screen" where
  "set_text glyph first second s = (if \<not> s_built s then s
     else let joined = (if second = [] then first
                        else (if first = [] then second else first @ [CHR 0x0A] @ second));
              shown = supported_text glyph joined;
              s1 = s\<lparr>s_has_text := (shown \<noteq> [])\<rparr>
          in s1\<lparr>s_text := (if s_has_text s1 then c_string shown else view_hint (voice_of (s_state s1)))\<rparr>)"

definition set_volume :: "u8 \<Rightarrow> screen \<Rightarrow> screen" where
  "set_volume percent s = (let v = min percent 100;
       s1 = s\<lparr>s_volume := v\<rparr>;
       s2 = (if v \<noteq> 0 then s1\<lparr>s_before_mute := v\<rparr> else s1);
       s3 = s2\<lparr>s_muted := (v = 0)\<rparr>
     in if \<not> s_built s3 then s3
        else let s4 = (if s_slider s3 \<noteq> uint v then s3\<lparr>s_slider := uint v\<rparr> else s3)
             in s4\<lparr>s_volume_label := decimal (unat v) @ ''%'',
                   s_mute_icon := (if s_muted s4 then k_icon_volume_off else k_icon_volume)\<rparr>)"

subsection \<open>The clock\<close>

text \<open>The fields of \<^verbatim>\<open>std::tm\<close> the screen uses.\<close>

record local_time =
  tm_hour :: nat
  tm_min :: nat
  tm_mon :: nat
  tm_mday :: nat
  tm_wday :: nat
  tm_year :: nat

definition two_digits :: "nat \<Rightarrow> string" where
  "two_digits n = (if n < 10 then ''0'' @ decimal n else decimal n)"

definition clock_text :: "local_time \<Rightarrow> string" where
  "clock_text t = take 7 (two_digits (tm_hour t) @ '':'' @ two_digits (tm_min t))"

definition date_text :: "local_time \<Rightarrow> string" where
  "date_text t = take 31 (decimal (tm_mon t + 1) @ [CHR 0xE6, CHR 0x9C, CHR 0x88] @ decimal (tm_mday t) @
     [CHR 0xE6, CHR 0x97, CHR 0xA5] @ '' '' @ [CHR 0xC2, CHR 0xB7] @ '' '' @ k_weekdays ! tm_wday t)"

definition year_text :: "local_time \<Rightarrow> string" where
  "year_text t = take 15 (decimal (tm_year t + 1900) @ [CHR 0xE5, CHR 0xB9, CHR 0xB4])"

text \<open>A label that already shows a text is left alone; setting it is the same.\<close>

definition update_clock :: "local_time \<Rightarrow> screen \<Rightarrow> screen" where
  "update_clock t s = (if \<not> s_built s then s
     else let s1 = s\<lparr>s_clock := clock_text t, s_date := date_text t, s_year := year_text t\<rparr>
          in if s_page s1 = Page_Generic \<and> s_current_app s1 = 2
             then s1\<lparr>s_generic := (s_generic s1)\<lparr>gl_primary := clock_text t\<rparr>\<rparr> else s1)"

subsection \<open>Navigation\<close>

definition camera_call :: "bool \<Rightarrow> bool \<Rightarrow> screen \<Rightarrow> screen_call list" where
  "camera_call changed active s = (if changed \<and> s_on_camera s then [On_Camera active] else [])"

definition show_home :: "screen \<Rightarrow> screen_call list \<times> screen" where
  "show_home s = (let camera_was_active = (s_page s = Page_Camera);
       s1 = stop_orb_motion s;
       s2 = s1\<lparr>s_visible := (s_visible s1)(Page_Home := True, Page_Voice := False, Page_Camera := False,
                 Page_Wifi := False, Page_Generic := False), s_page := Page_Home\<rparr>;
       s3 = start_home_orb_motion s2
     in (camera_call camera_was_active False s3, s3))"

definition fill_generic :: "nat \<Rightarrow> screen \<Rightarrow> screen" where
  "fill_generic index s = (let app = apps ! index in
     s\<lparr>s_generic := \<lparr>gl_title = app_name app, gl_badge = app_badge app, gl_icon = app_icon app,
         gl_primary = app_primary app, gl_secondary = app_secondary app, gl_action = app_action app,
         gl_stat_titles = take 3 (app_stat_titles app), gl_stat_values = take 3 (app_stat_values app),
         gl_icon_color = (if index = 3 then 0x4DA6FF else if index = 6 then 0x667389 else 0xF3EEE6)\<rparr>\<rparr>)"

definition show_app :: "local_time \<Rightarrow> nat \<Rightarrow> screen \<Rightarrow> screen_call list \<times> screen" where
  "show_app now index s = (if k_app_count \<le> index then ([], s)
     else let camera_was_active = (s_page s = Page_Camera);
              s1 = stop_home_orb_motion s;
              s2 = s1\<lparr>s_current_app := index, s_visible := (s_visible s1)(Page_Home := False)\<rparr>
          in if index = 0 then
               let s3 = s2\<lparr>s_visible := (s_visible s2)(Page_Voice := True, Page_Camera := False, Page_Wifi := False,
                           Page_Generic := False), s_page := Page_Voice\<rparr>
               in (camera_call camera_was_active False s3, update_voice s3)
             else
               let s3 = stop_orb_motion s2; s4 = s3\<lparr>s_visible := (s_visible s3)(Page_Voice := False)\<rparr> in
               if index = 1 then
                 let s5 = s4\<lparr>s_visible := (s_visible s4)(Page_Camera := True, Page_Wifi := False, Page_Generic := False),
                             s_page := Page_Camera\<rparr>
                 in (camera_call (\<not> camera_was_active) True s5, s5)
               else
                 let s5 = s4\<lparr>s_visible := (s_visible s4)(Page_Camera := False)\<rparr>;
                     calls = camera_call camera_was_active False s5 in
                 if index = 3 then
                   (calls, s5\<lparr>s_visible := (s_visible s5)(Page_Wifi := True, Page_Generic := False), s_page := Page_Wifi\<rparr>)
                 else
                   let s6 = s5\<lparr>s_visible := (s_visible s5)(Page_Wifi := False, Page_Generic := True), s_page := Page_Generic\<rparr>
                   in (calls, update_clock now (fill_generic index s6)))"

definition open_app :: "local_time \<Rightarrow> nat \<Rightarrow> screen \<Rightarrow> screen_call list \<times> screen" where
  "open_app now index s = show_app now index s"

definition set_state :: "local_time \<Rightarrow> device_ui_state \<Rightarrow> screen \<Rightarrow> screen_call list \<times> screen" where
  "set_state now st s = (let s1 = s\<lparr>s_state := st\<rparr>;
       conversation = (st = Ui_Listening \<or> st = Ui_Thinking \<or> st = Ui_Speaking \<or> st = Ui_Happy \<or> st = Ui_SpeakingTail);
       (calls, s2) = (if conversation \<and> s_page s1 = Page_Home then show_app now 0 s1 else ([], s1))
     in (calls, update_voice s2))"

subsection \<open>Handlers and camera frames\<close>

definition set_voice_interrupt_handler :: "bool \<Rightarrow> screen \<Rightarrow> screen" where
  "set_voice_interrupt_handler h s = s\<lparr>s_on_interrupt := h\<rparr>"

definition set_app_action_handler :: "bool \<Rightarrow> screen \<Rightarrow> screen" where
  "set_app_action_handler h s = s\<lparr>s_on_app := h\<rparr>"

definition set_camera_activity_handler :: "bool \<Rightarrow> screen \<Rightarrow> screen" where
  "set_camera_activity_handler h s = s\<lparr>s_on_camera := h\<rparr>"

definition set_volume_change_handler :: "bool \<Rightarrow> screen \<Rightarrow> screen" where
  "set_volume_change_handler h s = s\<lparr>s_on_volume := h\<rparr>"

definition set_camera_frame :: "u16 list \<Rightarrow> screen \<Rightarrow> screen" where
  "set_camera_frame pixels s = (if \<not> s_built s \<or> length pixels \<noteq> k_camera_pixels then s
     else s\<lparr>s_camera_pixels := pixels, s_camera_status := ''LIVE''\<rparr>)"

subsection \<open>Widget events\<close>

text \<open>\<open>target\<close>: the launcher cell that was clicked, when it is one.\<close>

definition app_clicked :: "local_time \<Rightarrow> nat option \<Rightarrow> screen \<Rightarrow> screen_call list \<times> screen" where
  "app_clicked now target s = (case target of
     None \<Rightarrow> ([], s)
   | Some i \<Rightarrow> (case show_app now i s of (calls, s1) \<Rightarrow>
       (calls @ (if i = 0 \<and> s_on_app s1 then [On_App i] else []), s1)))"

definition back_clicked :: "screen \<Rightarrow> screen_call list \<times> screen" where
  "back_clicked s = show_home s"

definition mute_clicked :: "screen \<Rightarrow> screen_call list \<times> screen" where
  "mute_clicked s = (let target = (if s_volume s = 0 then s_before_mute s else 0); s1 = set_volume target s
     in (if s_on_volume s1 then [On_Volume target Phase_Commit] else [], s1))"

datatype slider_event = Slider_Pressed | Slider_Changed | Slider_Released | Slider_Lost

text \<open>LVGL has moved the slider to \<open>value\<close> when it reports the event.\<close>

definition volume_changed :: "slider_event \<Rightarrow> int \<Rightarrow> screen \<Rightarrow> screen_call list \<times> screen" where
  "volume_changed ev val s = (let s0 = s\<lparr>s_slider := val\<rparr>;
       v = word_of_int (max 0 (min (s_slider s0) 100)) :: u8;
       s1 = set_volume v s0;
       phase = (case ev of Slider_Pressed \<Rightarrow> Phase_Begin | Slider_Changed \<Rightarrow> Phase_Preview
                | Slider_Released \<Rightarrow> Phase_Commit | Slider_Lost \<Rightarrow> Phase_Commit)
     in (if s_on_volume s1 then [On_Volume v phase] else [], s1))"

definition voice_clicked :: "local_time \<Rightarrow> screen \<Rightarrow> screen_call list \<times> screen" where
  "voice_clicked now s = (if \<not> (s_state s = Ui_Speaking \<or> s_state s = Ui_SpeakingTail) then ([], s)
     else let calls = (if s_on_interrupt s then [On_Interrupt] else []) in
       if s_state s = Ui_Speaking then (case set_state now Ui_Listening s of (later, s1) \<Rightarrow> (calls @ later, s1))
       else (calls, s))"

definition app_action_clicked :: "screen \<Rightarrow> screen_call list \<times> screen" where
  "app_action_clicked s = (if s_on_app s then [On_App (s_current_app s)] else [], s)"

definition clock_tick :: "local_time \<Rightarrow> screen \<Rightarrow> screen" where
  "clock_tick now s = update_clock now s"

subsection \<open>Life cycle\<close>

definition no_generic :: generic_labels where
  "no_generic = \<lparr>gl_title = [], gl_badge = [], gl_icon = [], gl_primary = [], gl_secondary = [], gl_action = [],
     gl_stat_titles = [], gl_stat_values = [], gl_icon_color = 0\<rparr>"

definition resting_orb :: "int \<Rightarrow> orb_pose" where
  "resting_orb zoom = \<lparr>po_x = 0, po_y = 0, po_zoom = zoom, po_angle = 0, po_opacity = Opa_Cover\<rparr>"

definition new_screen :: screen where
  "new_screen = \<lparr>s_built = False, s_freetype = False, s_fonts = replicate 8 False, s_clock_timer = False,
     s_visible = (\<lambda>_. False), s_page = Page_Home, s_current_app = 0, s_state = Ui_Idle, s_has_text = False,
     s_muted = False, s_volume = 60, s_before_mute = 60, s_status = [], s_text = [], s_slider = 0, s_volume_label = [],
     s_mute_icon = [], s_camera_status = [], s_camera_pixels = replicate k_camera_pixels 0, s_generic = no_generic,
     s_accent = 0, s_recolor = Opa_Transp, s_orbits = (Opa_Transp, Opa_Transp), s_orb = resting_orb 256,
     s_orb_anims = [], s_home_orb = resting_orb 116, s_home_anims = [], s_clock = [], s_date = [], s_year = [],
     s_on_interrupt = False, s_on_app = False, s_on_camera = False, s_on_volume = False\<rparr>"

text \<open>\<^verbatim>\<open>Destroy\<close>; the pixels of the last camera frame stay in their array.\<close>

definition destroy_screen :: "screen \<Rightarrow> screen" where
  "destroy_screen s = new_screen\<lparr>s_camera_pixels := s_camera_pixels s\<rparr>"

text \<open>
  What \<^verbatim>\<open>Create\<close> finds: the two paths, FreeType, the eight fonts in the order they are loaded, and the three
  glyphs it asks for.
\<close>

record create_env =
  ce_paths :: bool
  ce_freetype :: bool
  ce_fonts :: "bool list"
  ce_glyphs :: "bool list"

text \<open>The widgets as the \<^verbatim>\<open>Build\<close> functions leave them; labels without a text show LVGL's default.\<close>

definition build_pages :: "screen \<Rightarrow> screen" where
  "build_pages s = set_volume (s_volume s) (s\<lparr>s_built := True, s_visible := (\<lambda>_. True), s_status := ''Text'', s_text := ''Text'',
     s_slider := 0, s_volume_label := ''Text'', s_mute_icon := k_icon_volume, s_camera_status := ''STARTING'',
     s_generic := no_generic\<lparr>gl_title := ''Text'', gl_badge := ''Text'', gl_icon := ''Text'', gl_primary := ''Text'',
       gl_secondary := ''Text'', gl_action := ''Text'', gl_stat_titles := replicate 3 ''Text'',
       gl_stat_values := replicate 3 ''Text''\<rparr>,
     s_orbits := (Opa 40, Opa 20), s_orb := resting_orb 256, s_orb_anims := [], s_home_orb := resting_orb 116, s_home_anims := [],
     s_clock := ''Text'', s_date := ''Text'', s_year := ''Text''\<rparr>)"

definition create_screen :: "create_env \<Rightarrow> local_time \<Rightarrow> screen \<Rightarrow> bool \<times> screen_call list \<times> screen" where
  "create_screen e now s = (if \<not> ce_paths e \<or> \<not> ce_freetype e then (False, [], s)
     else let s1 = s\<lparr>s_freetype := True, s_fonts := ce_fonts e\<rparr> in
       if \<not> (list_all (\<lambda>b. b) (ce_fonts e) \<and> list_all (\<lambda>b. b) (ce_glyphs e)) then (False, [], destroy_screen s1)
       else case show_home (update_clock now ((build_pages s1)\<lparr>s_clock_timer := True\<rparr>)) of
         (calls, s2) \<Rightarrow> (True, calls, s2))"

end
