(* ===== verification/ScreenBuild.thy ===== *)
theory ScreenBuild
  imports LvglScreen
begin

section \<open>The layout of the screen\<close>

text \<open>
  The \<^verbatim>\<open>Build\<close> functions of \<^verbatim>\<open>src/client/src/ui/lvgl_screen.cpp\<close>: every call of LVGL they make, in order, one constructor
  for each function of the library. A widget is the name the code gives it, with the index of the loop that makes it. What
  LVGL draws is not modelled; what the calls ask for is.
\<close>

type_synonym widget = "string \<times> nat"

datatype lv_kind = Kind_Obj | Kind_Label | Kind_Image | Kind_Line | Kind_Slider | Kind_Qr
datatype lv_flag = Flag_Scrollable | Flag_Clickable | Flag_Overflow
datatype lv_align = Align_TopMid | Align_TopRight | Align_BottomMid | Align_BottomLeft | Align_BottomRight
datatype lv_selector = Sel_Main | Sel_Pressed | Sel_Indicator | Sel_Knob
datatype lv_font = Font_Caption | Font_Desktop | Font_Small | Font_Body | Font_Title | Font_Clock | Font_Icon | Font_IconSmall
datatype lv_text_align = Text_Left | Text_Center | Text_Right
datatype lv_gradient = Grad_Ver | Grad_Hor
datatype lv_long = Long_Dot | Long_Wrap
datatype lv_image = Image_Orb | Image_Camera
datatype lv_handler = Cb_App | Cb_Back | Cb_Mute | Cb_Voice | Cb_Volume | Cb_Action
datatype lv_event = On_Clicked | On_Pressed | On_ValueChanged | On_Released | On_PressLost

datatype lv_style =
    Radius int | Radius_Circle | Border_Width int | Border_Color nat | Border_Opa opacity | Border_Side_Bottom | Pad_All int
  | Bg_Color nat | Bg_Grad_Color nat | Bg_Grad_Dir lv_gradient | Bg_Opa opacity | Text_Font lv_font | Text_Color nat
  | Text_Align lv_text_align | Line_Width int | Line_Color nat | Line_Opa opacity | Shadow_Width int | Shadow_Color nat
  | Shadow_Opa opacity | Translate_Y int

datatype lv_op =
    Op_Create lv_kind widget | Op_Clear lv_flag | Op_Add lv_flag | Op_Size int int | Op_Pos int int
  | Op_Align lv_align int int | Op_Center | Op_Style lv_style lv_selector | Op_Text string | Op_Long lv_long
  | Op_Event lv_handler lv_event | Op_Source lv_image | Op_Pivot int int | Op_Antialias bool | Op_Zoom int | Op_Range int int
  | Op_Points "(int \<times> int) list" | Op_Qr int nat nat | Op_QrText string

type_synonym lv_calls = "(widget \<times> lv_op) list"

definition on :: "widget \<Rightarrow> lv_op list \<Rightarrow> lv_calls" where
  "on w ops = map (Pair w) ops"

definition root_widget :: widget where "root_widget = (''root'', 0)"

subsection \<open>Helpers\<close>

definition configure_page :: "widget \<Rightarrow> nat \<Rightarrow> nat \<Rightarrow> lv_calls" where
  "configure_page w upper lower = on w [Op_Clear Flag_Scrollable, Op_Size 320 240, Op_Pos 0 0, Op_Style (Radius 0) Sel_Main,
     Op_Style (Border_Width 0) Sel_Main, Op_Style (Pad_All 0) Sel_Main, Op_Style (Bg_Color upper) Sel_Main,
     Op_Style (Bg_Grad_Color lower) Sel_Main, Op_Style (Bg_Grad_Dir Grad_Ver) Sel_Main, Op_Style (Bg_Opa Opa_Cover) Sel_Main]"

definition style_label :: "widget \<Rightarrow> lv_font \<Rightarrow> nat \<Rightarrow> lv_text_align \<Rightarrow> lv_calls" where
  "style_label label font color alignment = on label [Op_Style (Text_Font font) Sel_Main, Op_Style (Text_Color color) Sel_Main,
     Op_Style (Text_Align alignment) Sel_Main, Op_Long Long_Dot]"

definition configure_circle :: "widget \<Rightarrow> int \<Rightarrow> nat \<Rightarrow> opacity \<Rightarrow> lv_calls" where
  "configure_circle w side color opa = on w [Op_Clear Flag_Scrollable, Op_Size side side, Op_Style Radius_Circle Sel_Main,
     Op_Style (Border_Width 0) Sel_Main, Op_Style (Pad_All 0) Sel_Main, Op_Style (Bg_Color color) Sel_Main,
     Op_Style (Bg_Opa opa) Sel_Main]"

definition make_back_button :: "widget \<Rightarrow> lv_font \<Rightarrow> lv_handler \<Rightarrow> lv_calls" where
  "make_back_button parent icon_font callback =
     on (''button'', 0) [Op_Create Kind_Obj parent, Op_Clear Flag_Scrollable, Op_Size 44 44, Op_Pos 0 0,
      Op_Style (Border_Width 0) Sel_Main, Op_Style (Bg_Opa Opa_Transp) Sel_Main, Op_Style (Pad_All 0) Sel_Main,
      Op_Style (Translate_Y 1) Sel_Pressed, Op_Add Flag_Clickable, Op_Event callback On_Clicked] @
     on (''icon'', 0) [Op_Create Kind_Label (''button'', 0), Op_Text k_icon_arrow_left] @
     style_label (''icon'', 0) icon_font 0xF4F7FC Text_Center @
     on (''icon'', 0) [Op_Center]"

subsection \<open>The home page\<close>

definition divider_points :: "(int \<times> int) list" where
  "divider_points = [(167, 0), (159, 38), (154, 82), (153, 126), (148, 183), (130, 239)]"

definition make_orbit :: "nat \<Rightarrow> int \<Rightarrow> int \<Rightarrow> int \<Rightarrow> nat \<Rightarrow> opacity \<Rightarrow> lv_calls" where
  "make_orbit n side x y color opa = on (''orbit'', n) [Op_Create Kind_Obj (''home'', 0), Op_Clear Flag_Scrollable,
     Op_Clear Flag_Clickable, Op_Size side side, Op_Pos x y, Op_Style Radius_Circle Sel_Main,
     Op_Style (Border_Width 1) Sel_Main, Op_Style (Border_Color color) Sel_Main, Op_Style (Border_Opa opa) Sel_Main,
     Op_Style (Bg_Opa Opa_Transp) Sel_Main, Op_Style (Pad_All 0) Sel_Main]"

text \<open>\<^verbatim>\<open>app_buttons_\<close>: the widget of each application.\<close>

definition app_button :: "nat \<Rightarrow> widget" where
  "app_button i = (if i = 0 then (''voice_cell'', 0) else (''cell'', i))"

text \<open>The loop over the applications.\<close>

definition home_tile :: "nat \<Rightarrow> lv_calls" where
  "home_tile i = (let slot = int i - 1; column = slot mod 2; row = slot div 2; icon_color = (if i = 3 then 0x4DA6FF else if i = 6 then 0x667389 else 0xF3EEE6) in
    on (''cell'', i) [Op_Create Kind_Obj (''home'', 0), Op_Clear Flag_Scrollable, Op_Add Flag_Clickable, Op_Size 64 58,
          Op_Pos (178 + column * 64) (32 + row * 61), Op_Style (Border_Width 0) Sel_Main,
          Op_Style (Bg_Opa Opa_Transp) Sel_Main, Op_Style (Bg_Color 0x1A293C) Sel_Pressed,
          Op_Style (Bg_Opa (Opa 40)) Sel_Pressed, Op_Style (Radius 18) Sel_Pressed,
          Op_Style (Pad_All 0) Sel_Main, Op_Event Cb_App On_Clicked] @
    on (''icon'', i) [Op_Create Kind_Label (''cell'', i), Op_Text (app_icon (apps ! i))] @
    style_label (''icon'', i) Font_Icon icon_color Text_Center @
    on (''icon'', i) [Op_Size 48 36, Op_Align Align_TopMid 0 0] @
    (if i = 1 then on (''accent'', i) [Op_Create Kind_Obj (''cell'', i)] @
          configure_circle (''accent'', i) 4 0x4DA6FF Opa_Cover @
          on (''accent'', i) [Op_Clear Flag_Clickable, Op_Pos 42 7]
    else if i = 4 then on (''accent'', i) [Op_Create Kind_Label (''cell'', i), Op_Text k_icon_sun] @
          style_label (''accent'', i) Font_IconSmall 0x4DA6FF Text_Center @
          on (''accent'', i) [Op_Size 23 23, Op_Pos 38 (- 1)] else []) @
    on (''name'', i) [Op_Create Kind_Label (''cell'', i), Op_Text (app_name (apps ! i))] @
    style_label (''name'', i) Font_Caption (if i = 6 then 0x707A8B else 0xF3EEE6) Text_Center @
    on (''name'', i) [Op_Size 64 14, Op_Pos 0 (if row = 2 then 34 else 38)] @
    (if i = 6 then on (''hint'', i) [Op_Create Kind_Label (''cell'', i),
              Op_Text ([CHR 0xE5, CHR 0x8D, CHR 0xB3, CHR 0xE5, CHR 0xB0, CHR 0x86, CHR 0xE5, CHR 0xBC, CHR 0x80,
    CHR 0xE6, CHR 0x94, CHR 0xBE])] @
          style_label (''hint'', i) Font_Caption 0x657084 Text_Center @
          on (''hint'', i) [Op_Size 64 12, Op_Pos 0 45]
    else []))"

definition build_home :: lv_calls where
  "build_home =
     on (''home'', 0) [Op_Create Kind_Obj root_widget] @
     configure_page (''home'', 0) 0x0D1522 0x0D1422 @
     on (''home'', 0) [Op_Style (Bg_Grad_Dir Grad_Hor) Sel_Main] @
     on (''ambient'', 0) [Op_Create Kind_Obj (''home'', 0), Op_Clear Flag_Scrollable, Op_Clear Flag_Clickable, Op_Size 194 194,
      Op_Pos (- 54) 20, Op_Style Radius_Circle Sel_Main, Op_Style (Border_Width 0) Sel_Main,
      Op_Style (Bg_Color 0x17243A) Sel_Main, Op_Style (Bg_Opa (Opa 20)) Sel_Main,
      Op_Style (Pad_All 0) Sel_Main] @
     make_orbit 0 214 (- 64) 10 0x34445E (Opa 40) @
     make_orbit 1 194 (- 54) 20 0x3475C7 (Opa 50) @
     on (''divider_curve'', 0) [Op_Create Kind_Line (''home'', 0), Op_Points divider_points, Op_Clear Flag_Scrollable,
      Op_Clear Flag_Clickable, Op_Style (Line_Width 1) Sel_Main, Op_Style (Line_Color 0x344052) Sel_Main,
      Op_Style (Line_Opa (Opa 40)) Sel_Main] @
     on (''orbit_dot'', 0) [Op_Create Kind_Obj (''home'', 0)] @
     configure_circle (''orbit_dot'', 0) 7 0x4DA6FF Opa_Cover @
     on (''orbit_dot'', 0) [Op_Clear Flag_Clickable, Op_Style (Shadow_Width 6) Sel_Main,
      Op_Style (Shadow_Color 0x4DA6FF) Sel_Main, Op_Style (Shadow_Opa (Opa 40)) Sel_Main, Op_Pos 136 114] @
     on (''sun'', 0) [Op_Create Kind_Label (''home'', 0), Op_Text k_icon_sun] @
     style_label (''sun'', 0) Font_IconSmall 0xF3EEE6 Text_Left @
     on (''sun'', 0) [Op_Size 24 23, Op_Pos 16 39] @
     on (''temperature'', 0) [Op_Create Kind_Label (''home'', 0), Op_Text (''--'' @ [CHR 0xC2, CHR 0xB0])] @
     style_label (''temperature'', 0) Font_Body 0xF3EEE6 Text_Left @
     on (''temperature'', 0) [Op_Size 72 24, Op_Pos 43 42] @
     on (''weather'', 0) [Op_Create Kind_Label (''home'', 0),
      Op_Text ([CHR 0xE5, CHR 0xA4, CHR 0xA9, CHR 0xE6, CHR 0xB0, CHR 0x94, CHR 0xE5, CHR 0xBE, CHR 0x85, CHR 0xE6,
        CHR 0x8E, CHR 0xA5, CHR 0xE5, CHR 0x85, CHR 0xA5])] @
     style_label (''weather'', 0) Font_Caption 0xA5B0C0 Text_Left @
     on (''weather'', 0) [Op_Size 120 20, Op_Pos 42 64] @
     on (''home_clock'', 0) [Op_Create Kind_Label (''home'', 0)] @
     style_label (''home_clock'', 0) Font_Clock 0xF3EEE6 Text_Left @
     on (''home_clock'', 0) [Op_Size 144 43, Op_Pos 17 79] @
     on (''home_date'', 0) [Op_Create Kind_Label (''home'', 0)] @
     style_label (''home_date'', 0) Font_Desktop 0xD8D5D0 Text_Left @
     on (''home_date'', 0) [Op_Size 145 18, Op_Pos 19 120] @
     on (''home_year'', 0) [Op_Create Kind_Label (''home'', 0)] @
     style_label (''home_year'', 0) Font_Caption 0x78869A Text_Left @
     on (''home_year'', 0) [Op_Size 100 17, Op_Pos 19 136] @
     on (''voice_cell'', 0) [Op_Create Kind_Obj (''home'', 0), Op_Clear Flag_Scrollable, Op_Add Flag_Clickable, Op_Size 152 70,
      Op_Pos 0 154, Op_Style (Border_Width 0) Sel_Main, Op_Style (Bg_Opa Opa_Transp) Sel_Main,
      Op_Style (Pad_All 0) Sel_Main, Op_Style (Translate_Y 1) Sel_Pressed, Op_Event Cb_App On_Clicked] @
     on (''mini_orb'', 0) [Op_Create Kind_Obj (''voice_cell'', 0), Op_Clear Flag_Scrollable, Op_Clear Flag_Clickable,
      Op_Size 58 58, Op_Pos 13 3, Op_Style (Border_Width 0) Sel_Main,
      Op_Style (Bg_Opa Opa_Transp) Sel_Main, Op_Style (Pad_All 0) Sel_Main] @
     on (''home_orb_image'', 0) [Op_Create Kind_Image (''mini_orb'', 0), Op_Source Image_Orb, Op_Pivot 56 56, Op_Antialias True,
      Op_Zoom 116, Op_Clear Flag_Clickable, Op_Center] @
     on (''voice_name'', 0) [Op_Create Kind_Label (''voice_cell'', 0),
      Op_Text ([CHR 0xE5, CHR 0xB0, CHR 0x8F, CHR 0xE6, CHR 0x99, CHR 0xBA])] @
     style_label (''voice_name'', 0) Font_Caption 0xF3EEE6 Text_Left @
     on (''voice_name'', 0) [Op_Size 72 16, Op_Pos 70 16] @
     on (''voice_hint'', 0) [Op_Create Kind_Label (''voice_cell'', 0),
      Op_Text ([CHR 0xE7, CHR 0x82, CHR 0xB9, CHR 0xE6, CHR 0x88, CHR 0x91, CHR 0xE8, CHR 0xAF, CHR 0xB4, CHR 0xE8,
        CHR 0xAF, CHR 0x9D])] @
     style_label (''voice_hint'', 0) Font_Caption 0x738199 Text_Left @
     on (''voice_hint'', 0) [Op_Size 78 14, Op_Pos 70 31] @
     concat (map (\<lambda>i. on (''page_dot'', i) [Op_Create Kind_Obj (''home'', 0)] @
      configure_circle (''page_dot'', i) (if i = 0 then 5 else 4) (if i = 0 then 0x53657E else 0x39475A) (Opa 70) @
      on (''page_dot'', i) [Op_Clear Flag_Clickable, Op_Pos (86 + int i * 11) 217]) [0..<2]) @
     concat (map home_tile [1..<length apps])"

definition build_voice :: lv_calls where
  "build_voice =
     on (''voice'', 0) [Op_Create Kind_Obj root_widget] @
     configure_page (''voice'', 0) 0x0D1522 0x0D1422 @
     on (''voice'', 0) [Op_Style (Bg_Grad_Dir Grad_Hor) Sel_Main] @
     make_back_button (''voice'', 0) Font_IconSmall Cb_Back @
     on (''title'', 0) [Op_Create Kind_Label (''voice'', 0),
      Op_Text ([CHR 0xE5, CHR 0xB0, CHR 0x8F, CHR 0xE6, CHR 0x99, CHR 0xBA])] @
     style_label (''title'', 0) Font_Body 0xF3EEE6 Text_Center @
     on (''title'', 0) [Op_Size 120 23, Op_Align Align_TopMid 0 10] @
     on (''mute'', 0) [Op_Create Kind_Obj (''voice'', 0), Op_Clear Flag_Scrollable, Op_Size 44 44,
      Op_Align Align_TopRight 0 0, Op_Style (Border_Width 0) Sel_Main,
      Op_Style (Bg_Opa Opa_Transp) Sel_Main, Op_Style (Pad_All 0) Sel_Main, Op_Add Flag_Clickable,
      Op_Event Cb_Mute On_Clicked] @
     on (''voice_mute_icon'', 0) [Op_Create Kind_Label (''mute'', 0), Op_Text k_icon_volume] @
     style_label (''voice_mute_icon'', 0) Font_IconSmall 0xF3EEE6 Text_Center @
     on (''voice_mute_icon'', 0) [Op_Center] @
     concat (map (\<lambda>i. on (''voice_orbits'', i) [Op_Create Kind_Obj (''voice'', 0), Op_Clear Flag_Scrollable, Op_Clear Flag_Clickable,
          Op_Size (142 + int i * 28) (142 + int i * 28), Op_Align Align_TopMid 0 (27 - int i * 14),
          Op_Style Radius_Circle Sel_Main, Op_Style (Border_Width 1) Sel_Main,
          Op_Style (Border_Color (if i = 0 then 0x315F9D else 0x34445E)) Sel_Main,
          Op_Style (Border_Opa (if i = 0 then (Opa 40) else (Opa 20))) Sel_Main,
          Op_Style (Bg_Color 0x17243A) Sel_Main,
          Op_Style (Bg_Opa (if i = 0 then (Opa 10) else Opa_Transp)) Sel_Main,
          Op_Style (Pad_All 0) Sel_Main]) [0..<2]) @
     on (''orb'', 0) [Op_Create Kind_Obj (''voice'', 0), Op_Clear Flag_Scrollable, Op_Add Flag_Overflow,
      Op_Add Flag_Clickable, Op_Event Cb_Voice On_Clicked, Op_Size 138 124, Op_Align Align_TopMid 0 35,
      Op_Style (Border_Width 0) Sel_Main, Op_Style (Bg_Opa Opa_Transp) Sel_Main,
      Op_Style (Pad_All 0) Sel_Main] @
     on (''voice_orb_image'', 0) [Op_Create Kind_Image (''orb'', 0), Op_Source Image_Orb, Op_Pivot 56 56, Op_Antialias True,
      Op_Zoom 256, Op_Clear Flag_Clickable, Op_Center] @
     on (''voice_status'', 0) [Op_Create Kind_Label (''voice'', 0)] @
     style_label (''voice_status'', 0) Font_Body 0xF3EEE6 Text_Center @
     on (''voice_status'', 0) [Op_Size 280 24, Op_Align Align_TopMid 0 160] @
     on (''voice_text'', 0) [Op_Create Kind_Label (''voice'', 0)] @
     style_label (''voice_text'', 0) Font_Small 0x8794A7 Text_Center @
     on (''voice_text'', 0) [Op_Long Long_Wrap, Op_Size 286 27, Op_Align Align_BottomMid 0 (- 25)] @
     on (''voice_volume_slider'', 0) [Op_Create Kind_Slider (''voice'', 0), Op_Range 0 100, Op_Size 214 8,
      Op_Align Align_BottomLeft 35 (- 8), Op_Style Radius_Circle Sel_Main,
      Op_Style (Bg_Color 0x263348) Sel_Main, Op_Style (Bg_Opa Opa_Cover) Sel_Main,
      Op_Style (Bg_Color 0x4DA6FF) Sel_Indicator, Op_Style (Bg_Opa Opa_Cover) Sel_Indicator,
      Op_Style (Bg_Color 0xF3EEE6) Sel_Knob, Op_Style (Pad_All 4) Sel_Knob, Op_Event Cb_Volume On_Pressed,
      Op_Event Cb_Volume On_ValueChanged, Op_Event Cb_Volume On_Released, Op_Event Cb_Volume On_PressLost] @
     on (''voice_volume_value'', 0) [Op_Create Kind_Label (''voice'', 0)] @
     style_label (''voice_volume_value'', 0) Font_Caption 0xAAB6C7 Text_Right @
     on (''voice_volume_value'', 0) [Op_Size 48 16, Op_Align Align_BottomRight (- 9) (- 3)]"

subsection \<open>The other pages\<close>

definition k_provisioning_qr :: string where "k_provisioning_qr = ''WIFI:T:WPA;S:boomPI-Setup;P:boompi-setup;;''"

definition k_step_titles :: "string list" where
  "k_step_titles = [[CHR 0xE6, CHR 0x89, CHR 0xAB, CHR 0xE7, CHR 0xA0, CHR 0x81, CHR 0xE8, CHR 0xBF, CHR 0x9E, CHR 0xE6,
        CHR 0x8E, CHR 0xA5],
     [CHR 0xE6, CHR 0x89, CHR 0x93, CHR 0xE5, CHR 0xBC, CHR 0x80, CHR 0xE9, CHR 0xA1, CHR 0xB5, CHR 0xE9, CHR 0x9D, CHR 0xA2],
     [CHR 0xE9, CHR 0x80, CHR 0x89, CHR 0xE6, CHR 0x8B, CHR 0xA9, CHR 0xE7, CHR 0xBD, CHR 0x91, CHR 0xE7, CHR 0xBB, CHR 0x9C]]"

definition k_step_details :: "string list" where
  "k_step_details = [[CHR 0xE8, CHR 0xBF, CHR 0x9E, CHR 0xE6, CHR 0x8E, CHR 0xA5] @ '' boomPI-Setup'',
     [CHR 0xE8, CHR 0x87, CHR 0xAA, CHR 0xE5, CHR 0x8A, CHR 0xA8, CHR 0xE8, CHR 0xBF, CHR 0x9B, CHR 0xE5, CHR 0x85,
        CHR 0xA5, CHR 0xE9, CHR 0x85, CHR 0x8D, CHR 0xE7, CHR 0xBD, CHR 0x91, CHR 0xE9, CHR 0xA1, CHR 0xB5],
     [CHR 0xE4, CHR 0xBF, CHR 0x9D, CHR 0xE5, CHR 0xAD, CHR 0x98, CHR 0xE5, CHR 0x90, CHR 0x8E, CHR 0xE8, CHR 0xAE,
        CHR 0xBE, CHR 0xE5, CHR 0xA4, CHR 0x87, CHR 0xE9, CHR 0x87, CHR 0x8D, CHR 0xE5, CHR 0x90, CHR 0xAF]]"

text \<open>Width, height and data bytes of the image the camera page shows.\<close>

definition camera_descriptor :: "nat \<times> nat \<times> nat" where
  "camera_descriptor = (320, 180, k_camera_pixels * 2)"

definition build_camera :: lv_calls where
  "build_camera =
     on (''camera'', 0) [Op_Create Kind_Obj root_widget] @
     configure_page (''camera'', 0) 0x05070B 0x05070B @
     on (''camera_image'', 0) [Op_Create Kind_Image (''camera'', 0), Op_Source Image_Camera, Op_Pos 0 30, Op_Clear Flag_Clickable] @
     on (''title'', 0) [Op_Create Kind_Label (''camera'', 0), Op_Text (''SC3336'')] @
     style_label (''title'', 0) Font_Small 0xF3EEE6 Text_Center @
     on (''title'', 0) [Op_Size 120 20, Op_Align Align_TopMid 0 7] @
     on (''camera_status'', 0) [Op_Create Kind_Label (''camera'', 0), Op_Text (''STARTING'')] @
     style_label (''camera_status'', 0) Font_Caption 0x4DA6FF Text_Right @
     on (''camera_status'', 0) [Op_Size 78 16, Op_Align Align_TopRight (- 10) 9] @
     on (''footer'', 0) [Op_Create Kind_Label (''camera'', 0), Op_Text (''320 x 180  |  LIVE'')] @
     style_label (''footer'', 0) Font_Caption 0x8A96A8 Text_Center @
     on (''footer'', 0) [Op_Size 180 16, Op_Align Align_BottomMid 0 (- 7)] @
     make_back_button (''camera'', 0) Font_IconSmall Cb_Back"

definition build_wifi :: lv_calls where
  "build_wifi =
     on (''wifi_provision'', 0) [Op_Create Kind_Obj root_widget] @
     configure_page (''wifi_provision'', 0) 0x0D1522 0x0D1422 @
     on (''wifi_provision'', 0) [Op_Style (Bg_Grad_Dir Grad_Hor) Sel_Main] @
     make_back_button (''wifi_provision'', 0) Font_IconSmall Cb_Back @
     on (''title'', 0) [Op_Create Kind_Label (''wifi_provision'', 0),
      Op_Text (''WiFi '' @ [CHR 0xE9, CHR 0x85, CHR 0x8D, CHR 0xE7, CHR 0xBD, CHR 0x91])] @
     style_label (''title'', 0) Font_Body 0xF3EEE6 Text_Center @
     on (''title'', 0) [Op_Size 150 23, Op_Align Align_TopMid 0 10] @
     on (''badge'', 0) [Op_Create Kind_Label (''wifi_provision'', 0),
      Op_Text ([CHR 0xE7, CHR 0xAD, CHR 0x89, CHR 0xE5, CHR 0xBE, CHR 0x85, CHR 0xE6, CHR 0x89, CHR 0xAB, CHR 0xE7,
        CHR 0xA0, CHR 0x81])] @
     style_label (''badge'', 0) Font_Caption 0x4DA6FF Text_Right @
     on (''badge'', 0) [Op_Size 76 18, Op_Align Align_TopRight (- 12) 13] @
     on (''orbit'', 0) [Op_Create Kind_Obj (''wifi_provision'', 0), Op_Clear Flag_Scrollable, Op_Clear Flag_Clickable,
      Op_Size 190 190, Op_Pos (- 38) 36, Op_Style Radius_Circle Sel_Main,
      Op_Style (Border_Width 1) Sel_Main, Op_Style (Border_Color 0x315F9D) Sel_Main,
      Op_Style (Border_Opa (Opa 40)) Sel_Main, Op_Style (Bg_Opa Opa_Transp) Sel_Main] @
     on (''qr_card'', 0) [Op_Create Kind_Obj (''wifi_provision'', 0), Op_Clear Flag_Scrollable, Op_Size 116 116, Op_Pos 18 54,
      Op_Style (Radius 10) Sel_Main, Op_Style (Border_Width 0) Sel_Main,
      Op_Style (Bg_Color 0xFFFFFF) Sel_Main, Op_Style (Bg_Opa Opa_Cover) Sel_Main,
      Op_Style (Pad_All 0) Sel_Main] @
     on (''qr'', 0) [Op_Create Kind_Qr (''qr_card'', 0), Op_Qr 104 0x08111C 0xFFFFFF, Op_Center,
      Op_QrText k_provisioning_qr] @
     on (''hotspot'', 0) [Op_Create Kind_Label (''wifi_provision'', 0), Op_Text (''boomPI-Setup'')] @
     style_label (''hotspot'', 0) Font_Small 0xF3EEE6 Text_Center @
     on (''hotspot'', 0) [Op_Size 126 20, Op_Pos 13 177] @
     on (''scan_hint'', 0) [Op_Create Kind_Label (''wifi_provision'', 0),
      Op_Text ([CHR 0xE6, CHR 0x89, CHR 0x8B, CHR 0xE6, CHR 0x9C, CHR 0xBA, CHR 0xE6, CHR 0x89, CHR 0xAB, CHR 0xE7,
        CHR 0xA0, CHR 0x81, CHR 0xE8, CHR 0xBF, CHR 0x9E, CHR 0xE6, CHR 0x8E, CHR 0xA5, CHR 0xE8, CHR 0xAE, CHR 0xBE,
        CHR 0xE5, CHR 0xA4, CHR 0x87])] @
     style_label (''scan_hint'', 0) Font_Caption 0x7D8BA0 Text_Center @
     on (''scan_hint'', 0) [Op_Size 132 16, Op_Pos 10 200] @
     on (''divider'', 0) [Op_Create Kind_Obj (''wifi_provision'', 0), Op_Clear Flag_Scrollable, Op_Clear Flag_Clickable,
      Op_Size 1 174, Op_Pos 154 50, Op_Style (Border_Width 0) Sel_Main,
      Op_Style (Bg_Color 0x2B3A4F) Sel_Main, Op_Style (Bg_Opa (Opa 60)) Sel_Main] @
     on (''guide_title'', 0) [Op_Create Kind_Label (''wifi_provision'', 0),
      Op_Text ([CHR 0xE4, CHR 0xB8, CHR 0x89, CHR 0xE6, CHR 0xAD, CHR 0xA5, CHR 0xE5, CHR 0xAE, CHR 0x8C, CHR 0xE6,
        CHR 0x88, CHR 0x90, CHR 0xE9, CHR 0x85, CHR 0x8D, CHR 0xE7, CHR 0xBD, CHR 0x91])] @
     style_label (''guide_title'', 0) Font_Small 0xF3EEE6 Text_Left @
     on (''guide_title'', 0) [Op_Size 146 20, Op_Pos 168 53] @
     concat (map (\<lambda>i. let y = 82 + int i * 45 in
      on (''number'', i) [Op_Create Kind_Label (''wifi_provision'', 0), Op_Text [char_of (byte_of CHR ''1'' + i)]] @
      style_label (''number'', i) Font_Small 0x4DA6FF Text_Left @
      on (''number'', i) [Op_Size 18 20, Op_Pos 168 y] @
      on (''step'', i) [Op_Create Kind_Label (''wifi_provision'', 0), Op_Text (k_step_titles ! i)] @
      style_label (''step'', i) Font_Desktop 0xF3EEE6 Text_Left @
      on (''step'', i) [Op_Size 118 18, Op_Pos 190 y] @
      on (''detail'', i) [Op_Create Kind_Label (''wifi_provision'', 0), Op_Text (k_step_details ! i)] @
      style_label (''detail'', i) Font_Caption 0x77859A Text_Left @
      on (''detail'', i) [Op_Size 122 15, Op_Pos 190 (y + 20)]) [0..<3])"

definition build_generic :: lv_calls where
  "build_generic =
     on (''generic'', 0) [Op_Create Kind_Obj root_widget] @
     configure_page (''generic'', 0) 0x0D1522 0x0D1422 @
     on (''generic'', 0) [Op_Style (Bg_Grad_Dir Grad_Hor) Sel_Main] @
     make_back_button (''generic'', 0) Font_IconSmall Cb_Back @
     on (''generic_title'', 0) [Op_Create Kind_Label (''generic'', 0)] @
     style_label (''generic_title'', 0) Font_Body 0xF3EEE6 Text_Center @
     on (''generic_title'', 0) [Op_Size 150 23, Op_Align Align_TopMid 0 10] @
     on (''generic_badge'', 0) [Op_Create Kind_Label (''generic'', 0)] @
     style_label (''generic_badge'', 0) Font_Desktop 0x77859A Text_Right @
     on (''generic_badge'', 0) [Op_Size 112 19, Op_Align Align_TopRight (- 10) 12] @
     concat (map (\<lambda>i. on (''orbit'', i) [Op_Create Kind_Obj (''generic'', 0), Op_Clear Flag_Scrollable, Op_Clear Flag_Clickable,
          Op_Size (190 + int i * 28) (190 + int i * 28), Op_Pos (- 58 - int i * 14) (43 - int i * 14),
          Op_Style Radius_Circle Sel_Main, Op_Style (Border_Width 1) Sel_Main,
          Op_Style (Border_Color (if i = 0 then 0x315F9D else 0x34445E)) Sel_Main,
          Op_Style (Border_Opa (if i = 0 then (Opa 50) else (Opa 30))) Sel_Main,
          Op_Style (Bg_Color 0x17243A) Sel_Main,
          Op_Style (Bg_Opa (if i = 0 then (Opa 20) else Opa_Transp)) Sel_Main,
          Op_Style (Pad_All 0) Sel_Main]) [0..<2]) @
     on (''generic_hero'', 0) [Op_Create Kind_Obj (''generic'', 0), Op_Clear Flag_Scrollable, Op_Add Flag_Clickable,
      Op_Event Cb_Action On_Clicked, Op_Size 158 188, Op_Pos 0 44, Op_Style (Border_Width 0) Sel_Main,
      Op_Style (Bg_Opa Opa_Transp) Sel_Main, Op_Style (Pad_All 0) Sel_Main] @
     on (''generic_icon'', 0) [Op_Create Kind_Label (''generic_hero'', 0)] @
     style_label (''generic_icon'', 0) Font_Icon 0xF3EEE6 Text_Center @
     on (''generic_icon'', 0) [Op_Size 64 42, Op_Pos 20 18] @
     on (''generic_primary'', 0) [Op_Create Kind_Label (''generic_hero'', 0)] @
     style_label (''generic_primary'', 0) Font_Title 0xF3EEE6 Text_Left @
     on (''generic_primary'', 0) [Op_Size 142 34, Op_Pos 18 68] @
     on (''generic_secondary'', 0) [Op_Create Kind_Label (''generic_hero'', 0)] @
     style_label (''generic_secondary'', 0) Font_Desktop 0x8B98AA Text_Left @
     on (''generic_secondary'', 0) [Op_Long Long_Wrap, Op_Size 132 42, Op_Pos 18 105] @
     on (''generic_action'', 0) [Op_Create Kind_Label (''generic_hero'', 0)] @
     style_label (''generic_action'', 0) Font_Desktop 0x4DA6FF Text_Left @
     on (''generic_action'', 0) [Op_Size 132 20, Op_Pos 18 158] @
     concat (map (\<lambda>i. on (''row'', i) [Op_Create Kind_Obj (''generic'', 0), Op_Clear Flag_Scrollable, Op_Clear Flag_Clickable,
          Op_Size 146 57, Op_Pos 166 (49 + int i * 59), Op_Style (Border_Width 0) Sel_Main,
          Op_Style Border_Side_Bottom Sel_Main, Op_Style (Bg_Opa Opa_Transp) Sel_Main,
          Op_Style (Pad_All 0) Sel_Main] @
      on (''generic_stat_titles'', i) [Op_Create Kind_Label (''row'', i)] @
      style_label (''generic_stat_titles'', i) Font_Desktop 0x6F7C90 Text_Left @
      on (''generic_stat_titles'', i) [Op_Size 130 18, Op_Pos 3 4] @
      on (''generic_stat_values'', i) [Op_Create Kind_Label (''row'', i)] @
      style_label (''generic_stat_values'', i) Font_Body 0xF3EEE6 Text_Left @
      on (''generic_stat_values'', i) [Op_Size 130 23, Op_Pos 3 26] @
      (if i < 2 then on (''divider'', i) [Op_Create Kind_Obj (''row'', i), Op_Clear Flag_Scrollable, Op_Clear Flag_Clickable,
              Op_Size 138 1, Op_Pos 3 55, Op_Style (Border_Width 0) Sel_Main,
              Op_Style (Bg_Color 0x283548) Sel_Main, Op_Style (Bg_Opa (Opa 60)) Sel_Main]
        else [])) [0..<3])"

definition build_page :: "page \<Rightarrow> lv_calls" where
  "build_page p = (case p of Page_Home \<Rightarrow> build_home | Page_Voice \<Rightarrow> build_voice | Page_Camera \<Rightarrow> build_camera
     | Page_Wifi \<Rightarrow> build_wifi | Page_Generic \<Rightarrow> build_generic)"

text \<open>\<^verbatim>\<open>Create\<close> builds the pages in this order.\<close>

definition build_screen :: lv_calls where
  "build_screen = build_home @ build_voice @ build_camera @ build_wifi @ build_generic"

end
