(* ===== verification/DeviceUi.thy ===== *)
theory DeviceUi
  imports LvglScreen Buffers
begin

section \<open>The device UI\<close>

text \<open>
  \<^verbatim>\<open>src/client/src/ui/device_ui.cpp\<close>: the SPI panel, the touch controller, the state shared between the
  actor and the UI thread, the camera process, and the life cycle of \<^verbatim>\<open>DeviceUi\<close>. Descriptors of the kernel answer
  each call with success or failure; the trace records what was sent to them.
\<close>

definition k_panel_width :: int where "k_panel_width = 240"
definition k_panel_height :: int where "k_panel_height = 320"
definition k_logical_width :: int where "k_logical_width = 320"
definition k_logical_height :: int where "k_logical_height = 240"
definition k_slider_left :: int where "k_slider_left = 24"
definition k_slider_right :: int where "k_slider_right = 264"
definition k_slider_top :: int where "k_slider_top = 200"
definition k_action_capacity :: nat where "k_action_capacity = 8"
definition k_camera_frame_bytes :: nat where "k_camera_frame_bytes = 320 * 180 * 2"
definition k_block_bytes :: nat where "k_block_bytes = 4096"

subsection \<open>Descriptors\<close>

text \<open>
  The loop of \<^verbatim>\<open>WriteAll\<close>: each \<^verbatim>\<open>write\<close> takes a prefix, is interrupted or fails. The result also says which
  bytes were written; \<open>None\<close>: the answers are used up.
\<close>

datatype fd_write = Fd_Wrote nat | Fd_Interrupted | Fd_Failed

fun fd_write_all :: "fd_write list \<Rightarrow> 'a list \<Rightarrow> (bool \<times> 'a list) option" where
  "fd_write_all ws data = (if data = [] then Some (True, [])
     else case ws of
       [] \<Rightarrow> None
     | Fd_Interrupted # ws' \<Rightarrow> fd_write_all ws' data
     | Fd_Failed # ws' \<Rightarrow> Some (False, [])
     | Fd_Wrote count # ws' \<Rightarrow> if count = 0 then Some (False, [])
         else map_option (\<lambda>(ok, sent). (ok, take count data @ sent)) (fd_write_all ws' (drop count data)))"

text \<open>What the UI does to its descriptors, in order. The answer of the n-th operation is \<open>env n\<close>.\<close>

datatype pin = Pin_Dc | Pin_Reset | Pin_Backlight | Pin_TouchReset | Pin_TouchInterrupt

datatype ui_io =
    Io_Gpio pin bool | Io_Spi bytes | Io_OpenGpio pin | Io_OpenSpi | Io_SpiSetup nat
  | Io_Exists pin | Io_Export pin | Io_Direction pin bool | Io_OpenEvent nat | Io_EventName nat | Io_OpenI2c | Io_I2cSlave
  | Io_I2cRead bytes nat | Io_I2cWrite bytes

type_synonym io_env = "nat \<Rightarrow> bool"
type_synonym io_trace = "ui_io list"

definition io_do :: "io_env \<Rightarrow> ui_io \<Rightarrow> io_trace \<Rightarrow> bool \<times> io_trace" where
  "io_do env op tr = (env (length tr), tr @ [op])"

definition set_gpio :: "io_env \<Rightarrow> pin \<Rightarrow> bool \<Rightarrow> io_trace \<Rightarrow> bool \<times> io_trace" where
  "set_gpio env p high tr = io_do env (Io_Gpio p high) tr"

definition ui_command :: "io_env \<Rightarrow> u8 \<Rightarrow> bytes \<Rightarrow> io_trace \<Rightarrow> bool \<times> io_trace" where
  "ui_command env cmd data tr = (case set_gpio env Pin_Dc False tr of
     (False, tr1) \<Rightarrow> (False, tr1)
   | (True, tr1) \<Rightarrow> (case io_do env (Io_Spi [cmd]) tr1 of
       (False, tr2) \<Rightarrow> (False, tr2)
     | (True, tr2) \<Rightarrow> if data = [] then (True, tr2)
         else (case set_gpio env Pin_Dc True tr2 of
             (False, tr3) \<Rightarrow> (False, tr3)
           | (True, tr3) \<Rightarrow> io_do env (Io_Spi data) tr3)))"

subsection \<open>The panel\<close>

definition be16 :: "int \<Rightarrow> bytes" where
  "be16 v = [word_of_int (v div 256), word_of_int v]"

definition set_window :: "io_env \<Rightarrow> int \<Rightarrow> int \<Rightarrow> int \<Rightarrow> int \<Rightarrow> io_trace \<Rightarrow> bool \<times> io_trace" where
  "set_window env column_start row_start column_end row_end tr =
     (case ui_command env 0x2A (be16 column_start @ be16 column_end) tr of
        (False, tr1) \<Rightarrow> (False, tr1)
      | (True, tr1) \<Rightarrow> (case ui_command env 0x2B (be16 row_start @ be16 row_end) tr1 of
          (False, tr2) \<Rightarrow> (False, tr2)
        | (True, tr2) \<Rightarrow> (case ui_command env 0x2C [] tr2 of
            (False, tr3) \<Rightarrow> (False, tr3)
          | (True, tr3) \<Rightarrow> set_gpio env Pin_Dc True tr3)))"

record area =
  ar_x1 :: int
  ar_y1 :: int
  ar_x2 :: int
  ar_y2 :: int

definition pixel_bytes :: "u16 \<Rightarrow> bytes" where
  "pixel_bytes p = [ucast (drop_bit 8 p), ucast p]"

definition source_index :: "area \<Rightarrow> int \<Rightarrow> int \<Rightarrow> nat" where
  "source_index a x y = nat ((y - ar_y1 a) * (ar_x2 a - ar_x1 a + 1) + x - ar_x1 a)"

text \<open>The two loops of the flush, in their order: \<^verbatim>\<open>logical_x\<close> downwards, \<^verbatim>\<open>logical_y\<close> upwards.\<close>

definition flush_cells :: "int \<Rightarrow> int \<Rightarrow> int \<Rightarrow> int \<Rightarrow> (int \<times> int) list" where
  "flush_cells x1 y1 x2 y2 = concat (map (\<lambda>x. map (\<lambda>y. (x, y)) [y1..y2]) (rev [x1..x2]))"

fun flush_loop :: "io_env \<Rightarrow> area \<Rightarrow> u16 list \<Rightarrow> (int \<times> int) list \<Rightarrow> bytes \<Rightarrow> io_trace \<Rightarrow> bool \<times> bytes \<times> io_trace" where
  "flush_loop env a pixels [] block tr = (True, block, tr)"
| "flush_loop env a pixels ((x, y) # cells) block tr =
     (let block1 = block @ pixel_bytes (pixels ! source_index a x y) in
      if length block1 = k_block_bytes then
        (case io_do env (Io_Spi block1) tr of
           (False, tr1) \<Rightarrow> (False, [], tr1)
         | (True, tr1) \<Rightarrow> flush_loop env a pixels cells [] tr1)
      else flush_loop env a pixels cells block1 tr)"

definition flush_area :: "io_env \<Rightarrow> area \<Rightarrow> u16 list \<Rightarrow> io_trace \<Rightarrow> bool \<times> io_trace" where
  "flush_area env a pixels tr =
     (let x1 = max 0 (ar_x1 a); y1 = max 0 (ar_y1 a);
          x2 = min (k_logical_width - 1) (ar_x2 a); y2 = min (k_logical_height - 1) (ar_y2 a);
          source_width = ar_x2 a - ar_x1 a + 1
      in if x1 \<le> x2 \<and> y1 \<le> y2 \<and> 0 < source_width then
           (case set_window env y1 (k_panel_height - 1 - x2) y2 (k_panel_height - 1 - x1) tr of
              (False, tr1) \<Rightarrow> (False, tr1)
            | (True, tr1) \<Rightarrow> (case flush_loop env a pixels (flush_cells x1 y1 x2 y2) [] tr1 of
                (False, _, tr2) \<Rightarrow> (False, tr2)
              | (True, block, tr2) \<Rightarrow> if block \<noteq> [] then io_do env (Io_Spi block) tr2 else (True, tr2)))
         else (True, tr))"

subsection \<open>State\<close>

datatype touch_backend = Touch_None | Touch_Event | Touch_I2c

record touch =
  t_slot :: int
  t_pointer_x :: int
  t_pointer_y :: int
  t_start_x :: int
  t_start_y :: int
  t_active :: bool
  t_have_x :: bool
  t_have_y :: bool
  t_started :: bool

record device_ui =
  u_io :: io_trace
  u_touch_backend :: touch_backend
  u_touch :: touch
  u_ready :: bool
  u_stop :: bool
  u_display_failed :: bool
  u_worker_started :: bool
  u_worker_succeeded :: bool
  u_state_dirty :: bool
  u_text_dirty :: bool
  u_volume_dirty :: bool
  u_camera_requested :: bool
  u_camera_request_dirty :: bool
  u_camera_frame_dirty :: bool
  u_state :: device_ui_state
  u_volume :: u8
  u_pending_volume :: u8
  u_volume_pending :: bool
  u_volume_committed :: bool
  u_slider_active :: bool
  u_lines :: "string \<times> string"
  u_actions :: "device_ui_action list"
  u_action_head :: nat
  u_action_count :: nat
  u_camera_frame :: "u16 list"
  u_camera_running :: bool
  u_screen :: screen
  u_display :: bool
  u_input :: bool

definition no_touch :: touch where
  "no_touch = \<lparr>t_slot = 0, t_pointer_x = 0, t_pointer_y = 0, t_start_x = 0, t_start_y = 0, t_active = False,
     t_have_x = False, t_have_y = False, t_started = False\<rparr>"

text \<open>The two lines are arrays of 64 bytes, padded with NUL.\<close>

definition k_line_bytes :: nat where "k_line_bytes = 64"

definition empty_line :: string where "empty_line = replicate k_line_bytes (char_of (0 :: nat))"

definition new_device_ui :: device_ui where
  "new_device_ui = \<lparr>u_io = [], u_touch_backend = Touch_None, u_touch = no_touch, u_ready = False, u_stop = False,
     u_display_failed = False, u_worker_started = False, u_worker_succeeded = False, u_state_dirty = True,
     u_text_dirty = True, u_volume_dirty = True, u_camera_requested = False, u_camera_request_dirty = False,
     u_camera_frame_dirty = False, u_state = Ui_Idle, u_volume = 60, u_pending_volume = 60, u_volume_pending = False,
     u_volume_committed = False, u_slider_active = False, u_lines = (empty_line, empty_line),
     u_actions = replicate k_action_capacity Act_Wake, u_action_head = 0, u_action_count = 0,
     u_camera_frame = replicate k_camera_pixels 0, u_camera_running = False, u_screen = new_screen,
     u_display = False, u_input = False\<rparr>"

definition fail_display :: "device_ui \<Rightarrow> device_ui" where
  "fail_display u = u\<lparr>u_display_failed := True, u_ready := False, u_stop := True\<rparr>"

definition flush_display :: "io_env \<Rightarrow> area \<Rightarrow> u16 list \<Rightarrow> device_ui \<Rightarrow> device_ui" where
  "flush_display env a pixels u = (case flush_area env a pixels (u_io u) of
     (ok, tr) \<Rightarrow> let u1 = u\<lparr>u_io := tr\<rparr> in if ok then u1 else fail_display u1)"

subsection \<open>Actions and volume\<close>

definition queue_action :: "device_ui_action \<Rightarrow> device_ui \<Rightarrow> device_ui" where
  "queue_action act u = (let n = length (u_actions u);
       u1 = (if u_action_count u = n then u\<lparr>u_action_head := (u_action_head u + 1) mod n, u_action_count := u_action_count u - 1\<rparr>
             else u);
       tail = (u_action_head u1 + u_action_count u1) mod n
     in u1\<lparr>u_actions := (u_actions u1)[tail := act], u_action_count := u_action_count u1 + 1\<rparr>)"

definition poll_action :: "device_ui \<Rightarrow> (device_ui_action \<times> device_ui) option" where
  "poll_action u = (if u_action_count u = 0 then None
     else Some (u_actions u ! u_action_head u,
                u\<lparr>u_action_head := (u_action_head u + 1) mod length (u_actions u), u_action_count := u_action_count u - 1\<rparr>))"

definition queue_volume_change :: "u8 \<Rightarrow> bool \<Rightarrow> device_ui \<Rightarrow> device_ui" where
  "queue_volume_change percent committed u = u\<lparr>u_pending_volume := min percent 100, u_volume_pending := True,
     u_volume_committed := (u_volume_committed u \<or> committed)\<rparr>"

definition poll_volume_change :: "device_ui \<Rightarrow> ((u8 \<times> bool) \<times> device_ui) option" where
  "poll_volume_change u = (if \<not> u_volume_pending u then None
     else Some ((u_pending_volume u, u_volume_committed u), u\<lparr>u_volume_pending := False, u_volume_committed := False\<rparr>))"

subsection \<open>Touch\<close>

definition begin_touch :: "touch \<Rightarrow> touch" where
  "begin_touch t = t\<lparr>t_active := True, t_have_x := False, t_have_y := False, t_started := False\<rparr>"

definition start_gesture_if_ready :: "touch \<Rightarrow> touch" where
  "start_gesture_if_ready t = (if t_active t \<and> t_have_x t \<and> t_have_y t \<and> \<not> t_started t
     then t\<lparr>t_start_x := t_pointer_x t, t_start_y := t_pointer_y t, t_started := True\<rparr> else t)"

text \<open>The action \<^verbatim>\<open>EndTouch\<close> queues, if any.\<close>

definition gesture_action :: "bool \<Rightarrow> touch \<Rightarrow> device_ui_action option" where
  "gesture_action slider_active t =
     (if k_slider_left \<le> t_start_x t \<and> t_start_x t \<le> k_slider_right \<and> k_slider_top \<le> t_start_y t then None
      else if slider_active then None
      else let dx = t_pointer_x t - t_start_x t; dy = t_pointer_y t - t_start_y t;
               horizontal = (if dx < 0 then - dx else dx); vertical = (if dy < 0 then - dy else dy)
           in if horizontal < 24 \<and> vertical < 24 then None
              else if vertical < horizontal then Some (if 0 < dx then Act_BrightnessUp else Act_BrightnessDown)
              else Some (if dy < 0 then Act_VolumeUp else Act_VolumeDown))"

definition end_touch :: "device_ui \<Rightarrow> device_ui" where
  "end_touch u = (let t = u_touch u in
     if \<not> t_active t then u
     else let u1 = u\<lparr>u_touch := t\<lparr>t_active := False\<rparr>\<rparr> in
       if \<not> t_started t then u1
       else case gesture_action (u_slider_active u1) (u_touch u1) of
         None \<Rightarrow> u1
       | Some act \<Rightarrow> queue_action act u1)"

definition clamp :: "int \<Rightarrow> int \<Rightarrow> int \<Rightarrow> int" where
  "clamp v lo hi = (if v < lo then lo else if hi < v then hi else v)"

text \<open>The kernel's touch events; \<open>Ev_Report\<close> is \<^verbatim>\<open>SYN_REPORT\<close>, \<open>Ev_Else\<close> any other event.\<close>

datatype input_event =
  Ev_Slot int | Ev_X int | Ev_Y int | Ev_Tracking int | Ev_OtherAbs | Ev_Report | Ev_Else

definition handle_input :: "input_event \<Rightarrow> device_ui \<Rightarrow> device_ui" where
  "handle_input ev u = (let on_touch = (\<lambda>f. u\<lparr>u_touch := f (u_touch u)\<rparr>); t = u_touch u in
     case ev of
       Ev_Report \<Rightarrow> u
     | Ev_Else \<Rightarrow> u
     | Ev_Slot v \<Rightarrow> on_touch (\<lambda>t. t\<lparr>t_slot := v\<rparr>)
     | _ \<Rightarrow> if t_slot t \<noteq> 0 then u
         else let u1 = (case ev of
                  Ev_X v \<Rightarrow> on_touch (\<lambda>t. t\<lparr>t_pointer_y := clamp v 0 (k_panel_width - 1), t_have_y := True\<rparr>)
                | Ev_Y v \<Rightarrow> on_touch (\<lambda>t. t\<lparr>t_pointer_x := k_panel_height - 1 - clamp v 0 (k_panel_height - 1), t_have_x := True\<rparr>)
                | Ev_Tracking v \<Rightarrow> if 0 \<le> v then on_touch begin_touch else end_touch u
                | _ \<Rightarrow> u)
              in u1\<lparr>u_touch := start_gesture_if_ready (u_touch u1)\<rparr>)"

text \<open>What \<^verbatim>\<open>ReadInput\<close> tells LVGL.\<close>

record indev_data =
  in_x :: int
  in_y :: int
  in_pressed :: bool
  in_continue :: bool

definition indev_point :: "bool \<Rightarrow> device_ui \<Rightarrow> indev_data" where
  "indev_point continue u = \<lparr>in_x = t_pointer_x (u_touch u), in_y = t_pointer_y (u_touch u),
     in_pressed = t_active (u_touch u), in_continue = continue\<rparr>"

text \<open>The events the descriptor has ready; what is left stays there for the next call.\<close>

fun read_event_input :: "input_event list \<Rightarrow> device_ui \<Rightarrow> bool \<times> input_event list \<times> device_ui" where
  "read_event_input [] u = (False, [], u)"
| "read_event_input (ev # evs) u = (let u1 = handle_input ev u in
     if ev = Ev_Report then (True, evs, u1) else read_event_input evs u1)"

definition gt911_register :: "nat \<Rightarrow> bytes" where
  "gt911_register address = [word_of_int (int address div 256), word_of_int (int address)]"

definition k_gt911_status :: nat where "k_gt911_status = 0x814E"
definition k_gt911_point :: nat where "k_gt911_point = 0x814F"

text \<open>\<^verbatim>\<open>ReadGt911\<close>: one transfer that writes the register address and reads; the answer is what the ioctl leaves.\<close>

definition read_gt911 :: "nat \<Rightarrow> nat \<Rightarrow> device_ui \<Rightarrow> device_ui" where
  "read_gt911 address count u = u\<lparr>u_io := u_io u @ [Io_I2cRead (gt911_register address) count]\<rparr>"

definition clear_gt911_status :: "device_ui \<Rightarrow> device_ui" where
  "clear_gt911_status u = u\<lparr>u_io := u_io u @ [Io_I2cWrite (gt911_register k_gt911_status @ [0])]\<rparr>"

definition raw16 :: "bytes \<Rightarrow> nat \<Rightarrow> int" where
  "raw16 bs i = uint (bs ! i) + 256 * uint (bs ! (i + 1))"

definition poll_gt911 :: "u8 option \<Rightarrow> bytes option \<Rightarrow> device_ui \<Rightarrow> device_ui" where
  "poll_gt911 status point u0 = (let u = read_gt911 k_gt911_status 1 u0 in
     case status of
       None \<Rightarrow> u
     | Some st \<Rightarrow> if st AND 0x80 = 0 then u
         else let count = unat (st AND 0x0F) in clear_gt911_status
           (if count = 0 then end_touch u
            else if count \<le> 5 then
              (let u1 = read_gt911 k_gt911_point 8 u in case point of
                 None \<Rightarrow> u1
               | Some bs \<Rightarrow>
                   let t = u_touch u1; t1 = (if \<not> t_active t then begin_touch t else t);
                       t2 = t1\<lparr>t_pointer_y := clamp (raw16 bs 1) 0 (k_panel_width - 1),
                               t_pointer_x := k_panel_height - 1 - clamp (raw16 bs 3) 0 (k_panel_height - 1),
                               t_have_x := True, t_have_y := True\<rparr>
                   in u1\<lparr>u_touch := start_gesture_if_ready t2\<rparr>)
            else u))"

text \<open>What the touch device answers: pending events, or the two I2C reads.\<close>

record input_answer =
  ia_events :: "input_event list"
  ia_status :: "u8 option"
  ia_point :: "bytes option"

definition read_input :: "input_answer \<Rightarrow> device_ui \<Rightarrow> indev_data \<times> input_event list \<times> device_ui" where
  "read_input ans u = (case u_touch_backend u of
     Touch_Event \<Rightarrow> (case read_event_input (ia_events ans) u of (again, rest, u1) \<Rightarrow> (indev_point again u1, rest, u1))
   | Touch_I2c \<Rightarrow> (let u1 = poll_gt911 (ia_status ans) (ia_point ans) u in (indev_point False u1, ia_events ans, u1))
   | Touch_None \<Rightarrow> (indev_point False u, ia_events ans, u))"

subsection \<open>What the screen reports back\<close>

definition voice_interrupted :: "device_ui \<Rightarrow> device_ui" where
  "voice_interrupted u = queue_action Act_Interrupt u"

definition app_action :: "nat \<Rightarrow> device_ui \<Rightarrow> device_ui" where
  "app_action index u = (if index = 0 then queue_action Act_Wake u else u)"

definition camera_activity :: "bool \<Rightarrow> device_ui \<Rightarrow> device_ui" where
  "camera_activity active u = (if u_camera_requested u = active then u
     else u\<lparr>u_camera_requested := active, u_camera_request_dirty := True\<rparr>)"

definition screen_volume_changed :: "u8 \<Rightarrow> volume_phase \<Rightarrow> device_ui \<Rightarrow> device_ui" where
  "screen_volume_changed percent phase u = (if phase = Phase_Begin then u\<lparr>u_slider_active := True\<rparr>
     else let u1 = queue_volume_change percent (phase = Phase_Commit) u
          in if phase = Phase_Commit then u1\<lparr>u_slider_active := False\<rparr> else u1)"

fun screen_called :: "screen_call \<Rightarrow> device_ui \<Rightarrow> device_ui" where
  "screen_called On_Interrupt u = voice_interrupted u"
| "screen_called (On_App i) u = app_action i u"
| "screen_called (On_Camera active) u = camera_activity active u"
| "screen_called (On_Volume v phase) u = screen_volume_changed v phase u"

definition on_screen :: "(screen \<Rightarrow> screen_call list \<times> screen) \<Rightarrow> device_ui \<Rightarrow> device_ui" where
  "on_screen f u = (case f (u_screen u) of (calls, s) \<Rightarrow> fold screen_called calls (u\<lparr>u_screen := s\<rparr>))"

subsection \<open>The camera\<close>

text \<open>
  One turn of the read loop of \<^verbatim>\<open>CaptureCamera\<close>: whether a stop was requested, and what \<^verbatim>\<open>read\<close> on the pipe returned. The
  loop yields the frames it published; \<open>None\<close>: it is still running when the answers end.
\<close>

datatype camera_read = Cam_Bytes bytes | Cam_Interrupted | Cam_Failed

fun camera_loop :: "(bool \<times> camera_read) list \<Rightarrow> bytes \<Rightarrow> bytes list option" where
  "camera_loop [] got = None"
| "camera_loop ((stop, r) # rs) got = (if stop then Some []
     else case r of
       Cam_Interrupted \<Rightarrow> camera_loop rs got
     | Cam_Failed \<Rightarrow> Some []
     | Cam_Bytes bs \<Rightarrow>
         let more = take (k_camera_frame_bytes - length got) bs in
         if more = [] then Some []
         else if length (got @ more) = k_camera_frame_bytes then map_option ((#) (got @ more)) (camera_loop rs [])
         else camera_loop rs (got @ more))"

text \<open>
  One camera process: the group leader that runs the pipeline is started, its frames are published, and when the loop ends its group is
  told to terminate and the child is waited for (\<open>ws\<close>: was the n-th \<^verbatim>\<open>waitpid\<close> interrupted). Nothing happens when
  the pipe or the fork fails.
\<close>

definition k_camera_pipeline :: string where
  "k_camera_pipeline = ''/usr/bin/v4l2-ctl -d /dev/video14 '' @
     ''--set-fmt-video=width=576,height=324,pixelformat=NV12 '' @
     ''--stream-mmap=4 --stream-to=- 2>/run/boompi-camera-v4l2.log | '' @
     ''/usr/bin/ffmpeg -hide_banner -loglevel error -f rawvideo '' @
     ''-pixel_format nv12 -video_size 576x324 -framerate 25 -i pipe:0 '' @
     ''-vf '' @ [CHR 0x27] @ ''fps=4,scale=320:180'' @ [CHR 0x27] @ '' -pix_fmt rgb565le -f rawvideo pipe:1 '' @
     ''2>/run/boompi-camera-ffmpeg.log''"

definition camera_command :: "string list" where
  "camera_command = [''/bin/sh'', ''sh'', ''-c'', k_camera_pipeline]"

datatype camera_act = Cam_Spawned "string list" | Cam_Publish bytes | Cam_Terminated | Cam_Reaped

fun camera_reap :: "bool list \<Rightarrow> camera_act list option" where
  "camera_reap [] = None"
| "camera_reap (interrupted # ws) = (if interrupted then camera_reap ws else Some [Cam_Reaped])"

definition capture_camera :: "bool \<Rightarrow> bool \<Rightarrow> (bool \<times> camera_read) list \<Rightarrow> bool list \<Rightarrow> camera_act list option" where
  "capture_camera pipe_ok fork_ok rs ws = (if \<not> pipe_ok \<or> \<not> fork_ok then Some []
     else case camera_loop rs [] of
       None \<Rightarrow> None
     | Some pics \<Rightarrow> map_option (\<lambda>reaped. Cam_Spawned camera_command # map Cam_Publish pics @ Cam_Terminated # reaped) (camera_reap ws))"

text \<open>\<^verbatim>\<open>memcpy\<close> of a frame into the array of little-endian pixels.\<close>

fun pixels_of :: "bytes \<Rightarrow> u16 list" where
  "pixels_of (lo # hi # bs) = (ucast lo OR push_bit 8 (ucast hi)) # pixels_of bs"
| "pixels_of _ = []"

definition publish_frame :: "bytes \<Rightarrow> device_ui \<Rightarrow> device_ui" where
  "publish_frame frame u = u\<lparr>u_camera_frame := pixels_of frame, u_camera_frame_dirty := True\<rparr>"

text \<open>
  \<^verbatim>\<open>StartCamera\<close> joins the previous worker: \<open>ended\<close> says that it is over or ends by itself. \<open>None\<close>: the
  join does not return. \<open>thread_ok\<close>: the new thread could be started.
\<close>

definition start_camera :: "bool \<Rightarrow> bool \<Rightarrow> device_ui \<Rightarrow> device_ui option" where
  "start_camera ended thread_ok u = (if u_camera_running u \<and> \<not> ended then None
     else Some (u\<lparr>u_camera_running := thread_ok\<rparr>))"

text \<open>\<^verbatim>\<open>StopCamera\<close> signals the process group and joins.\<close>

definition stop_camera :: "device_ui \<Rightarrow> device_ui" where
  "stop_camera u = u\<lparr>u_camera_running := False\<rparr>"

subsection \<open>The UI thread\<close>

record lvgl_env =
  le_display :: bool
  le_input :: bool
  le_text_font :: bool
  le_icon_font :: bool
  le_create :: create_env
  le_now :: local_time

definition initialize_lvgl :: "lvgl_env \<Rightarrow> device_ui \<Rightarrow> bool \<times> device_ui" where
  "initialize_lvgl e u = (if \<not> le_display e then (False, u)
     else let u1 = u\<lparr>u_display := True\<rparr> in
       if \<not> le_input e then (False, u1)
       else let u2 = u1\<lparr>u_input := True\<rparr> in
         if \<not> le_text_font e \<or> \<not> le_icon_font e then (False, u2)
         else case create_screen (le_create e) (le_now e) (u_screen u2) of (ok, calls, s) \<Rightarrow>
           let u3 = fold screen_called calls (u2\<lparr>u_screen := s\<rparr>) in
           if \<not> ok then (False, u3)
           else (True, u3\<lparr>u_screen := set_volume_change_handler True (set_camera_activity_handler True
                   (set_app_action_handler True (set_voice_interrupt_handler True (u_screen u3))))\<rparr>))"

definition shutdown_lvgl :: "device_ui \<Rightarrow> device_ui" where
  "shutdown_lvgl u = u\<lparr>u_screen := destroy_screen (u_screen u), u_input := False, u_display := False\<rparr>"

definition signal_startup :: "bool \<Rightarrow> device_ui \<Rightarrow> device_ui" where
  "signal_startup succeeded u = u\<lparr>u_worker_started := True, u_worker_succeeded := succeeded, u_ready := succeeded\<rparr>"

text \<open>\<^verbatim>\<open>screen.SetText(text[0].data(), text[1].data())\<close>: the arrays read as C strings.\<close>

definition present_text :: "(nat \<Rightarrow> bool) \<Rightarrow> device_ui \<Rightarrow> device_ui" where
  "present_text glyph u = u\<lparr>u_screen := set_text glyph (c_string (fst (u_lines u))) (c_string (snd (u_lines u))) (u_screen u)\<rparr>"

definition present_state :: "local_time \<Rightarrow> device_ui \<Rightarrow> device_ui" where
  "present_state now u = on_screen (set_state now (u_state u)) u"

definition present_volume :: "device_ui \<Rightarrow> device_ui" where
  "present_volume u = u\<lparr>u_screen := set_volume (u_volume u) (u_screen u)\<rparr>"

text \<open>\<^verbatim>\<open>Run\<close> up to its loop: the first snapshot.\<close>

definition run_begin :: "lvgl_env \<Rightarrow> (nat \<Rightarrow> bool) \<Rightarrow> device_ui \<Rightarrow> bool \<times> device_ui" where
  "run_begin e glyph u = (case initialize_lvgl e u of
     (False, u1) \<Rightarrow> (False, signal_startup False (shutdown_lvgl u1))
   | (True, u1) \<Rightarrow> (True, signal_startup True (present_volume (present_text glyph (present_state (le_now e)
       (u1\<lparr>u_state_dirty := False, u_text_dirty := False, u_volume_dirty := False\<rparr>))))))"

definition run_end :: "device_ui \<Rightarrow> device_ui" where
  "run_end u = (shutdown_lvgl (stop_camera u))\<lparr>u_ready := False\<rparr>"

text \<open>
  What LVGL does inside \<^verbatim>\<open>lv_timer_handler\<close>: it reads the input device, calls widget callbacks and the clock
  timer, and flushes areas it has drawn.
\<close>

datatype lv_action =
    Lv_Input input_answer | Lv_App "nat option" | Lv_Back | Lv_Mute | Lv_Slider slider_event int | Lv_Orb | Lv_Action
  | Lv_Clock | Lv_Flush area "u16 list"

fun lv_dispatch :: "io_env \<Rightarrow> local_time \<Rightarrow> lv_action \<Rightarrow> device_ui \<Rightarrow> device_ui" where
  "lv_dispatch env now (Lv_Input ans) u = snd (snd (read_input ans u))"
| "lv_dispatch env now (Lv_App target) u = on_screen (app_clicked now target) u"
| "lv_dispatch env now Lv_Back u = on_screen back_clicked u"
| "lv_dispatch env now Lv_Mute u = on_screen mute_clicked u"
| "lv_dispatch env now (Lv_Slider ev v) u = on_screen (volume_changed ev v) u"
| "lv_dispatch env now Lv_Orb u = on_screen (voice_clicked now) u"
| "lv_dispatch env now Lv_Action u = on_screen app_action_clicked u"
| "lv_dispatch env now Lv_Clock u = on_screen (\<lambda>s. ([], clock_tick now s)) u"
| "lv_dispatch env now (Lv_Flush a pixels) u = flush_display env a pixels u"

record pass_env =
  pe_now :: local_time
  pe_io :: io_env
  pe_camera_ended :: bool
  pe_thread_ok :: bool
  pe_actions :: "lv_action list"

text \<open>One turn of the loop of \<^verbatim>\<open>Run\<close>: the snapshot under the lock, the camera, the screen, LVGL.\<close>

definition ui_pass :: "(nat \<Rightarrow> bool) \<Rightarrow> pass_env \<Rightarrow> device_ui \<Rightarrow> device_ui option" where
  "ui_pass glyph e u = (let
       update_state = u_state_dirty u; update_text = u_text_dirty u; update_volume = u_volume_dirty u;
       change_camera = u_camera_request_dirty u; start = u_camera_requested u;
       update_frame = u_camera_frame_dirty u; pixels = u_camera_frame u;
       u1 = u\<lparr>u_state_dirty := False, u_text_dirty := False, u_volume_dirty := False,
              u_camera_request_dirty := False, u_camera_frame_dirty := False\<rparr>
     in case (if change_camera then if start then start_camera (pe_camera_ended e) (pe_thread_ok e) u1
                                    else Some (stop_camera u1)
              else Some u1) of
       None \<Rightarrow> None
     | Some u2 \<Rightarrow>
         let u3 = (if update_state then present_state (pe_now e) u2 else u2);
             u4 = (if update_text then present_text glyph u3 else u3);
             u5 = (if update_volume then present_volume u4 else u4);
             u6 = (if update_frame \<and> start then u5\<lparr>u_screen := set_camera_frame pixels (u_screen u5)\<rparr> else u5)
         in Some (fold (lv_dispatch (pe_io e) (pe_now e)) (pe_actions e) u6))"

subsection \<open>Calls of the actor\<close>

text \<open>\<open>None\<close> is a \<^verbatim>\<open>DeviceUi\<close> without an implementation.\<close>

definition ui_set_state :: "device_ui_state \<Rightarrow> device_ui option \<Rightarrow> device_ui option" where
  "ui_set_state st d = (case d of None \<Rightarrow> None | Some u \<Rightarrow> if \<not> u_ready u then Some u
     else if u_state u = st then Some u else Some (u\<lparr>u_state := st, u_state_dirty := True\<rparr>))"

definition line_array :: "string \<Rightarrow> string" where
  "line_array source = (let n = min (length source) (k_line_bytes - 1)
     in take n source @ replicate (k_line_bytes - n) (char_of (0 :: nat)))"

definition ui_set_text :: "string \<Rightarrow> string \<Rightarrow> device_ui option \<Rightarrow> device_ui option" where
  "ui_set_text first second d = (case d of None \<Rightarrow> None | Some u \<Rightarrow> if \<not> u_ready u then Some u
     else let updated = (line_array first, line_array second) in
       if u_lines u = updated then Some u else Some (u\<lparr>u_lines := updated, u_text_dirty := True\<rparr>))"

definition ui_poll_action :: "device_ui option \<Rightarrow> (device_ui_action \<times> device_ui option) option" where
  "ui_poll_action d = (case d of None \<Rightarrow> None
   | Some u \<Rightarrow> map_option (\<lambda>(act, u1). (act, Some u1)) (poll_action u))"

definition ui_poll_volume_change :: "device_ui option \<Rightarrow> ((u8 \<times> bool) \<times> device_ui option) option" where
  "ui_poll_volume_change d = (case d of None \<Rightarrow> None
   | Some u \<Rightarrow> map_option (\<lambda>(v, u1). (v, Some u1)) (poll_volume_change u))"

definition ui_set_volume :: "u8 \<Rightarrow> device_ui option \<Rightarrow> device_ui option" where
  "ui_set_volume percent d = (case d of None \<Rightarrow> None | Some u \<Rightarrow> if \<not> u_ready u then Some u
     else let limited = min percent 100 in
       if u_volume u = limited then Some u else Some (u\<lparr>u_volume := limited, u_volume_dirty := True\<rparr>))"

definition ui_set_brightness :: "io_env \<Rightarrow> u8 \<Rightarrow> device_ui option \<Rightarrow> device_ui option" where
  "ui_set_brightness env percent d = (case d of None \<Rightarrow> None | Some u \<Rightarrow>
     if u_ready u then Some (u\<lparr>u_io := snd (set_gpio env Pin_Backlight (percent \<noteq> 0) (u_io u))\<rparr>) else Some u)"

subsection \<open>Opening and closing\<close>

type_synonym io_step = "io_env \<Rightarrow> io_trace \<Rightarrow> bool \<times> io_trace"

text \<open>\<open>io_and\<close>: the second only when the first succeeds. \<open>io_both\<close>: both, and both must succeed. \<open>io_ignore\<close>: the result does not count.\<close>

definition io_and :: "io_step \<Rightarrow> io_step \<Rightarrow> io_step" where
  "io_and f g env tr = (case f env tr of (False, tr1) \<Rightarrow> (False, tr1) | (True, tr1) \<Rightarrow> g env tr1)"

definition io_both :: "io_step \<Rightarrow> io_step \<Rightarrow> io_step" where
  "io_both f g env tr = (case f env tr of (a, tr1) \<Rightarrow> (case g env tr1 of (b, tr2) \<Rightarrow> (a \<and> b, tr2)))"

definition io_ignore :: "io_step \<Rightarrow> io_step" where
  "io_ignore f env tr = (True, snd (f env tr))"

definition io_op :: "ui_io \<Rightarrow> io_step" where
  "io_op op env tr = io_do env op tr"

definition io_nothing :: io_step where
  "io_nothing env tr = (True, tr)"

definition io_gpio :: "pin \<Rightarrow> bool \<Rightarrow> io_step" where
  "io_gpio p high env tr = set_gpio env p high tr"

definition io_command :: "u8 \<Rightarrow> bytes \<Rightarrow> io_step" where
  "io_command cmd data env tr = ui_command env cmd data tr"

text \<open>\<^verbatim>\<open>OpenGpio\<close>: export the line when it is not there yet, wait for it, make it an output, open it.\<close>

fun gpio_wait :: "nat \<Rightarrow> pin \<Rightarrow> io_step" where
  "gpio_wait 0 p env tr = (True, tr)"
| "gpio_wait (Suc n) p env tr = (case io_do env (Io_Exists p) tr of
     (True, tr1) \<Rightarrow> (True, tr1)
   | (False, tr1) \<Rightarrow> gpio_wait n p env tr1)"

definition open_gpio :: "pin \<Rightarrow> io_step" where
  "open_gpio p env tr = (case io_do env (Io_Exists p) tr of
     (there, tr1) \<Rightarrow> io_and (if there then io_nothing else io_and (io_op (Io_Export p)) (gpio_wait 50 p))
       (io_and (io_op (Io_Direction p True)) (io_op (Io_OpenGpio p))) env tr1)"

definition reset_gt911 :: io_step where
  "reset_gt911 = io_and (io_both (open_gpio Pin_TouchReset) (open_gpio Pin_TouchInterrupt))
     (io_both (io_gpio Pin_TouchReset False)
     (io_both (io_gpio Pin_TouchInterrupt True)
     (io_both (io_gpio Pin_TouchReset True)
     (io_both (io_gpio Pin_TouchInterrupt False)
              (io_op (Io_Direction Pin_TouchInterrupt False))))))"

definition lower_case :: "char \<Rightarrow> char" where
  "lower_case c = (if byte_of CHR ''A'' \<le> byte_of c \<and> byte_of c \<le> byte_of CHR ''Z'' then char_of (byte_of c + 32) else c)"

fun contains :: "string \<Rightarrow> string \<Rightarrow> bool" where
  "contains pat [] \<longleftrightarrow> pat = []"
| "contains pat (c # cs) \<longleftrightarrow> take (length pat) (c # cs) = pat \<or> contains pat cs"

definition is_gt911_name :: "string \<Rightarrow> bool" where
  "is_gt911_name name = (let l = map lower_case name in contains ''gt911'' l \<or> contains ''goodix'' l)"

text \<open>\<open>names i\<close>: the name of the i-th event device, when the ioctl gives one. The first match of the devices 0 to 31 stays open.\<close>

fun open_gt911_event :: "nat \<Rightarrow> nat \<Rightarrow> (nat \<Rightarrow> string option) \<Rightarrow> io_step" where
  "open_gt911_event 0 index names env tr = (False, tr)"
| "open_gt911_event (Suc n) index names env tr = (case io_do env (Io_OpenEvent index) tr of
     (False, tr1) \<Rightarrow> open_gt911_event n (Suc index) names env tr1
   | (True, tr1) \<Rightarrow> (case names index of
       Some name \<Rightarrow> if is_gt911_name name then (True, tr1 @ [Io_EventName index])
                    else open_gt911_event n (Suc index) names env (tr1 @ [Io_EventName index])
     | None \<Rightarrow> open_gt911_event n (Suc index) names env (tr1 @ [Io_EventName index])))"

definition k_touch_event_limit :: nat where "k_touch_event_limit = 32"

text \<open>The start-up table of the panel: a command, the number of its bytes, the bytes.\<close>

definition k_panel_init :: bytes where
  "k_panel_init = [
     0xB2, 5, 0x0C, 0x0C, 0, 0x33, 0x33, 0x36, 1, 0, 0x3A, 1, 0x55, 0xB7, 1, 0x55, 0xBB, 1, 0x1A, 0xC0,
     1, 0x2C, 0xC2, 1, 1, 0xC3, 1, 0x19, 0xC6, 1, 0x0F, 0xD0, 1, 0xA7, 0xD0, 2, 0xA4, 0xA1, 0xD6, 1,
     0xA1, 0xE0, 14, 0xF0, 3, 9, 0x0B, 0x0A, 0x16, 0x2B, 0x33, 0x41, 0x38, 0x14, 0x14, 0x29, 0x2F, 0xE1, 14, 0xF0,
     4, 6, 9, 8, 4, 0x2B, 0x32, 0x41, 0x36, 0x12, 0x12, 0x2A, 0x30, 0x21, 0, 0x2A, 4, 0, 0, 0,
     0xEF, 0x2B, 4, 0, 0, 1, 0x3F]"

function panel_commands :: "bytes \<Rightarrow> (u8 \<times> bytes) list" where
  "panel_commands (c # n # bs) = (c, take (unat n) bs) # panel_commands (drop (unat n) bs)"
| "panel_commands [] = []"
| "panel_commands [b] = []"
  by pat_completeness auto
termination by (relation "measure length") auto

fun send_commands :: "(u8 \<times> bytes) list \<Rightarrow> io_step" where
  "send_commands [] = io_nothing"
| "send_commands ((c, bs) # cs) = io_and (io_command c bs) (send_commands cs)"

definition open_panel :: io_step where
  "open_panel =
     io_and (io_op Io_OpenSpi) (io_and (io_op (Io_SpiSetup 0)) (io_and (io_op (Io_SpiSetup 1))
     (io_and (io_op (Io_SpiSetup 2)) (io_and (io_op (Io_SpiSetup 3))
     (io_and (io_both (open_gpio Pin_Dc) (io_both (open_gpio Pin_Reset) (open_gpio Pin_Backlight)))
     (io_and (io_ignore (io_gpio Pin_Backlight False)) (io_and (io_ignore (io_gpio Pin_Reset False))
     (io_and (io_gpio Pin_Reset True) (io_and (send_commands (panel_commands k_panel_init))
     (io_and (io_command 0x11 []) (io_and (io_command 0x29 []) (io_gpio Pin_Backlight True))))))))))))"

definition open_touch :: "(nat \<Rightarrow> string option) \<Rightarrow> io_env \<Rightarrow> io_trace \<Rightarrow> touch_backend option \<times> io_trace" where
  "open_touch names env tr = (case open_gt911_event k_touch_event_limit 0 names env tr of
     (True, tr1) \<Rightarrow> (Some Touch_Event, tr1)
   | (False, tr1) \<Rightarrow> (case io_and reset_gt911 (io_and (io_op Io_OpenI2c) (io_op Io_I2cSlave)) env tr1 of
       (True, tr2) \<Rightarrow> (Some Touch_I2c, tr2)
     | (False, tr2) \<Rightarrow> (None, tr2)))"

record ui_open_env =
  uo_io :: io_env
  uo_names :: "nat \<Rightarrow> string option"
  uo_alloc :: bool
  uo_thread :: bool
  uo_in_time :: bool
  uo_lvgl :: lvgl_env

text \<open>
  \<^verbatim>\<open>Close\<close>: the worker leaves its loop and cleans up, the backlight goes off, the object is deleted. What
  remains is the trace.
\<close>

definition close_impl :: "io_env \<Rightarrow> device_ui \<Rightarrow> io_trace" where
  "close_impl env u = snd (set_gpio env Pin_Backlight False (u_io (run_end (u\<lparr>u_ready := False, u_stop := True\<rparr>))))"

definition ui_close :: "io_env \<Rightarrow> device_ui option \<Rightarrow> device_ui option \<times> io_trace" where
  "ui_close env d = (case d of None \<Rightarrow> (None, []) | Some u \<Rightarrow> (None, close_impl env u))"

text \<open>\<^verbatim>\<open>Open\<close> after its call of \<^verbatim>\<open>Close\<close>; \<open>uo_in_time\<close>: the worker signals within \<^verbatim>\<open>kUiStartTimeout\<close>.\<close>

definition ui_open :: "ui_open_env \<Rightarrow> (nat \<Rightarrow> bool) \<Rightarrow> bool \<times> device_ui option" where
  "ui_open e glyph = (if \<not> uo_alloc e then (False, None)
     else case open_panel (uo_io e) [] of
       (False, tr) \<Rightarrow> (False, None)
     | (True, tr) \<Rightarrow> (case open_touch (uo_names e) (uo_io e) tr of
         (None, tr1) \<Rightarrow> (False, None)
       | (Some backend, tr1) \<Rightarrow> if \<not> uo_thread e then (False, None)
           else let u = new_device_ui\<lparr>u_io := tr1, u_touch_backend := backend\<rparr>;
                    (running, u1) = run_begin (uo_lvgl e) glyph u;
                    succeeded = (uo_in_time e \<and> u_worker_started u1 \<and> u_worker_succeeded u1)
                in if \<not> succeeded then (False, None) else (True, Some u1)))"

end
