(* ===== verification/ScreenLayout.thy ===== *)
theory ScreenLayout
  imports ScreenBuild DeviceUi
begin

section \<open>What the layout gives the user\<close>

subsection \<open>Reading the calls\<close>

definition ops_of :: "widget \<Rightarrow> lv_calls \<Rightarrow> lv_op list" where
  "ops_of w cs = map snd (filter (\<lambda>c. fst c = w) cs)"

definition event_ops :: "lv_op list \<Rightarrow> (lv_handler \<times> lv_event) list" where
  "event_ops ops = concat (map (\<lambda>op. case op of Op_Event h e \<Rightarrow> [(h, e)] | _ \<Rightarrow> []) ops)"

definition handlers :: "lv_calls \<Rightarrow> (widget \<times> lv_handler \<times> lv_event) list" where
  "handlers cs = concat (map (\<lambda>(w, op). map (Pair w) (event_ops [op])) cs)"

definition child_ops :: "widget \<Rightarrow> lv_calls \<Rightarrow> widget list" where
  "child_ops p cs = concat (map (\<lambda>(w, op). case op of Op_Create k q \<Rightarrow> if q = p then [w] else [] | _ \<Rightarrow> []) cs)"

datatype placement = At int int | Aligned lv_align int int | Centered

definition places :: "lv_op list \<Rightarrow> placement list" where
  "places ops = concat (map (\<lambda>op. case op of Op_Pos x y \<Rightarrow> [At x y] | Op_Align a x y \<Rightarrow> [Aligned a x y] | Op_Center \<Rightarrow> [Centered]
     | _ \<Rightarrow> []) ops)"

definition sizes :: "lv_op list \<Rightarrow> (int \<times> int) list" where
  "sizes ops = concat (map (\<lambda>op. case op of Op_Size w h \<Rightarrow> [(w, h)] | _ \<Rightarrow> []) ops)"

definition texts :: "lv_op list \<Rightarrow> string list" where
  "texts ops = concat (map (\<lambda>op. case op of Op_Text s \<Rightarrow> [s] | _ \<Rightarrow> []) ops)"

definition zooms :: "lv_op list \<Rightarrow> int list" where
  "zooms ops = concat (map (\<lambda>op. case op of Op_Zoom z \<Rightarrow> [z] | _ \<Rightarrow> []) ops)"

definition border_opas :: "lv_op list \<Rightarrow> opacity list" where
  "border_opas ops = concat (map (\<lambda>op. case op of Op_Style (Border_Opa v) _ \<Rightarrow> [v] | _ \<Rightarrow> []) ops)"

lemmas op_readers = event_ops_def places_def sizes_def texts_def zooms_def border_opas_def

lemma ops_of_simps [simp]:
  "ops_of w (cs @ ds) = ops_of w cs @ ops_of w ds" "ops_of w [] = []"
  "ops_of w (on v ops) = (if v = w then ops else [])"
proof -
  show "ops_of w (on v ops) = (if v = w then ops else [])" by (induction ops) (auto simp: ops_of_def on_def)
qed (simp_all add: ops_of_def)

lemma ops_of_concat [simp]: "ops_of w (concat css) = concat (map (ops_of w) css)"
  by (induction css) auto

lemma handlers_simps [simp]:
  "handlers (cs @ ds) = handlers cs @ handlers ds" "handlers [] = []"
  "handlers (on w ops) = map (Pair w) (event_ops ops)"
  by (simp_all add: handlers_def on_def event_ops_def map_concat comp_def)

lemma handlers_concat [simp]: "handlers (concat css) = concat (map handlers css)"
  by (induction css) auto

lemma child_ops_append [simp]: "child_ops p (cs @ ds) = child_ops p cs @ child_ops p ds"
  by (simp add: child_ops_def)

lemma child_ops_concat [simp]: "child_ops p (concat css) = concat (map (child_ops p) css)"
  by (induction css) (auto simp: child_ops_def)

lemmas build_helpers = configure_page_def style_label_def configure_circle_def make_back_button_def make_orbit_def home_tile_def

lemma upt_small: "[0..<2] = [0, 1 :: nat]" "[0..<3] = [0, 1, 2 :: nat]" "[0..<7] = [0, 1, 2, 3, 4, 5, 6 :: nat]" "[1..<7] = [1, 2, 3, 4, 5, 6 :: nat]"
  "[Suc 0..<7] = [1, 2, 3, 4, 5, 6 :: nat]"
  by (simp_all add: upt_rec)

subsection \<open>Areas\<close>

text \<open>
  \<open>place\<close> is LVGL's: where the top left corner of a widget of a size goes inside its parent of a size. The documentation of
  \<^verbatim>\<open>lv_obj_set_pos\<close> and \<^verbatim>\<open>lv_obj_align\<close> says it for parents without border and padding, as the pages are.
\<close>

definition lvgl_places :: "(placement \<Rightarrow> int \<times> int \<Rightarrow> int \<times> int \<Rightarrow> int \<times> int) \<Rightarrow> bool" where
  "lvgl_places place \<longleftrightarrow> (\<forall>x y pw ph w h.
     place (At x y) (pw, ph) (w, h) = (x, y) \<and>
     place (Aligned Align_TopMid x y) (pw, ph) (w, h) = ((pw - w) div 2 + x, y) \<and>
     place (Aligned Align_TopRight x y) (pw, ph) (w, h) = (pw - w + x, y) \<and>
     place (Aligned Align_BottomLeft x y) (pw, ph) (w, h) = (x, ph - h + y))"

type_synonym box = "(int \<times> int) \<times> (int \<times> int)"

definition touch_area :: "(placement \<Rightarrow> int \<times> int \<Rightarrow> int \<times> int \<Rightarrow> int \<times> int) \<Rightarrow> lv_calls \<Rightarrow> widget \<Rightarrow> box" where
  "touch_area place cs w = (let ops = ops_of w cs; size' = last (sizes ops)
     in (place (last (places ops)) (k_logical_width, k_logical_height) size', size'))"

definition on_page :: "box \<Rightarrow> bool" where
  "on_page b \<longleftrightarrow> (case b of ((x, y), (w, h)) \<Rightarrow>
     0 \<le> x \<and> 0 \<le> y \<and> 0 < w \<and> 0 < h \<and> x + w \<le> k_logical_width \<and> y + h \<le> k_logical_height)"

definition inside_box :: "int \<Rightarrow> int \<Rightarrow> box \<Rightarrow> bool" where
  "inside_box px py b \<longleftrightarrow> (case b of ((x, y), (w, h)) \<Rightarrow> x \<le> px \<and> px < x + w \<and> y \<le> py \<and> py < y + h)"

text \<open>The widgets of a page with a callback.\<close>

definition targets :: "page \<Rightarrow> widget list" where
  "targets p = remdups (map fst (handlers (build_page p)))"

lemma home_handlers: "handlers build_home = map (\<lambda>i. (app_button i, Cb_App, On_Clicked)) [0..<7]"
  by (simp add: build_home_def build_helpers upt_small event_ops_def app_button_def Let_def)

lemma voice_handlers:
  "handlers build_voice = [((''button'', 0), Cb_Back, On_Clicked), ((''mute'', 0), Cb_Mute, On_Clicked), ((''orb'', 0), Cb_Voice, On_Clicked),
     ((''voice_volume_slider'', 0), Cb_Volume, On_Pressed), ((''voice_volume_slider'', 0), Cb_Volume, On_ValueChanged),
     ((''voice_volume_slider'', 0), Cb_Volume, On_Released), ((''voice_volume_slider'', 0), Cb_Volume, On_PressLost)]"
  by (simp add: build_voice_def build_helpers upt_small event_ops_def)

lemma other_handlers:
  "handlers build_camera = [((''button'', 0), Cb_Back, On_Clicked)]"
  "handlers build_wifi = [((''button'', 0), Cb_Back, On_Clicked)]"
  "handlers build_generic = [((''button'', 0), Cb_Back, On_Clicked), ((''generic_hero'', 0), Cb_Action, On_Clicked)]"
  by (simp_all add: build_camera_def build_wifi_def build_generic_def build_helpers upt_small event_ops_def Let_def)

subsection \<open>Where the user can touch\<close>

lemma targets_table:
  "targets Page_Home = map app_button [0..<7]" "targets Page_Camera = [(''button'', 0)]" "targets Page_Wifi = [(''button'', 0)]"
  "targets Page_Voice = [(''button'', 0), (''mute'', 0), (''orb'', 0), (''voice_volume_slider'', 0)]"
  "targets Page_Generic = [(''button'', 0), (''generic_hero'', 0)]"
  by (simp_all add: targets_def build_page_def home_handlers voice_handlers other_handlers upt_small app_button_def)

text \<open>Sizes and placements of these widgets.\<close>

definition asked :: "lv_calls \<Rightarrow> widget \<Rightarrow> placement \<times> int \<times> int" where
  "asked cs w = (last (places (ops_of w cs)), last (sizes (ops_of w cs)))"

lemma asked_home:
  "map (asked build_home) (map app_button [0..<7]) =
   [(At 0 154, 152, 70), (At 178 32, 64, 58), (At 242 32, 64, 58), (At 178 93, 64, 58), (At 242 93, 64, 58),
    (At 178 154, 64, 58), (At 242 154, 64, 58)]"
  by (simp add: asked_def build_home_def build_helpers upt_small app_button_def Let_def places_def sizes_def)

lemma asked_pages:
  "map (asked build_voice) [(''button'', 0), (''mute'', 0), (''orb'', 0), (''voice_volume_slider'', 0)] =
     [(At 0 0, 44, 44), (Aligned Align_TopRight 0 0, 44, 44), (Aligned Align_TopMid 0 35, 138, 124),
      (Aligned Align_BottomLeft 35 (- 8), 214, 8)]"
  "map (asked build_camera) [(''button'', 0)] = [(At 0 0, 44, 44)]"
  "map (asked build_wifi) [(''button'', 0)] = [(At 0 0, 44, 44)]"
  "map (asked build_generic) [(''button'', 0), (''generic_hero'', 0)] = [(At 0 0, 44, 44), (At 0 44, 158, 188)]"
  by (simp_all add: asked_def build_voice_def build_camera_def build_wifi_def build_generic_def build_helpers upt_small Let_def
      places_def sizes_def)

lemma touch_area_asked:
  "map (touch_area place cs) ws = map (\<lambda>(pl, sz). (place pl (k_logical_width, k_logical_height) sz, sz)) (map (asked cs) ws)"
  by (simp add: touch_area_def asked_def Let_def)

lemma areas_table:
  assumes "lvgl_places place"
  shows "map (touch_area place (build_page p)) (targets p) = (case p of
      Page_Home \<Rightarrow> [((0, 154), (152, 70)), ((178, 32), (64, 58)), ((242, 32), (64, 58)), ((178, 93), (64, 58)), ((242, 93), (64, 58)),
        ((178, 154), (64, 58)), ((242, 154), (64, 58))]
    | Page_Voice \<Rightarrow> [((0, 0), (44, 44)), ((276, 0), (44, 44)), ((91, 35), (138, 124)), ((35, 224), (214, 8))]
    | Page_Generic \<Rightarrow> [((0, 0), (44, 44)), ((0, 44), (158, 188))]
    | _ \<Rightarrow> [((0, 0), (44, 44))])"
proof -
  have "place (At x y) (pw, ph) (w, h) = (x, y)" "place (Aligned Align_TopMid x y) (pw, ph) (w, h) = ((pw - w) div 2 + x, y)"
      "place (Aligned Align_TopRight x y) (pw, ph) (w, h) = (pw - w + x, y)"
      "place (Aligned Align_BottomLeft x y) (pw, ph) (w, h) = (x, ph - h + y)" for x y pw ph w h
    using assms by (simp_all add: lvgl_places_def)
  then show ?thesis
    by (cases p) (simp_all only: touch_area_asked targets_table build_page_def page.case asked_home asked_pages
        k_logical_width_def k_logical_height_def, simp_all)
qed

text \<open>Two areas without a common pixel.\<close>

definition apart :: "box \<Rightarrow> box \<Rightarrow> bool" where
  "apart a b \<longleftrightarrow> (case (a, b) of (((x, y), (w, h)), ((x', y'), (w', h'))) \<Rightarrow>
     x + w \<le> x' \<or> x' + w' \<le> x \<or> y + h \<le> y' \<or> y' + h' \<le> y)"

lemma apart_inside: "apart a b \<Longrightarrow> inside_box x y a \<Longrightarrow> \<not> inside_box x y b"
  by (auto simp: apart_def inside_box_def split: prod.splits)

lemma at_most_one: "sorted_wrt apart bs \<Longrightarrow> length (filter (inside_box x y) bs) \<le> 1"
proof (induction bs)
  case (Cons b bs)
  show ?case
  proof (cases "inside_box x y b")
    case True
    have "\<not> inside_box x y c" if "c \<in> set bs" for c using apart_inside [of b c x y] True Cons.prems that by simp
    then have "filter (inside_box x y) bs = []" unfolding filter_empty_conv by blast
    then show ?thesis by simp
  next
    case False
    then show ?thesis using Cons by simp
  qed
qed simp

text \<open>What a tile of the home page shows: its children and their texts.\<close>

definition parents :: "lv_op list \<Rightarrow> widget list" where
  "parents ops = concat (map (\<lambda>op. case op of Op_Create k q \<Rightarrow> [q] | _ \<Rightarrow> []) ops)"

lemma child_ops_on [simp]: "child_ops p (on w ops) = map (\<lambda>_. w) (filter (\<lambda>q. q = p) (parents ops))"
  by (induction ops) (auto simp: child_ops_def on_def parents_def split: lv_op.split)

lemma child_ops_Nil [simp]: "child_ops p [] = []"
  by (simp add: child_ops_def)

lemma tile_children:
  "map (\<lambda>i. child_ops (app_button i) build_home) [1..<7] =
   [[(''icon'', 1), (''accent'', 1), (''name'', 1)], [(''icon'', 2), (''name'', 2)], [(''icon'', 3), (''name'', 3)],
    [(''icon'', 4), (''accent'', 4), (''name'', 4)], [(''icon'', 5), (''name'', 5)], [(''icon'', 6), (''name'', 6), (''hint'', 6)]]"
  by (simp add: build_home_def build_helpers upt_small app_button_def Let_def parents_def root_widget_def)

lemma tile_labels:
  "map (\<lambda>i. texts (ops_of (''icon'', i) build_home)) [1..<7] = map (\<lambda>i. [app_icon (apps ! i)]) [1..<7]"
  "map (\<lambda>i. texts (ops_of (''name'', i) build_home)) [1..<7] = map (\<lambda>i. [app_name (apps ! i)]) [1..<7]"
  by (simp_all add: build_home_def build_helpers upt_small Let_def texts_def)

definition tile_shows :: "nat \<Rightarrow> bool" where
  "tile_shows i \<longleftrightarrow> (''icon'', i) \<in> set (child_ops (app_button i) build_home) \<and> (''name'', i) \<in> set (child_ops (app_button i) build_home) \<and>
     texts (ops_of (''icon'', i) build_home) = [app_icon (apps ! i)] \<and> texts (ops_of (''name'', i) build_home) = [app_name (apps ! i)]"

lemma tiles_show: "list_all tile_shows [1..<7]"
  using tile_children tile_labels by (simp add: tile_shows_def upt_small)

lemma back_button_area:
  assumes "lvgl_places place" "p \<noteq> Page_Home"
  shows "touch_area place (build_page p) (''button'', 0) = ((0, 0), (44, 44)) \<and>
    ((''button'', 0), Cb_Back, On_Clicked) \<in> set (handlers (build_page p))"
  using areas_table [OF assms(1), of p] assms(2)
  by (cases p) (simp_all add: targets_table build_page_def voice_handlers other_handlers)

text \<open>The pages can be used as they look: every widget with a callback lies wholly on the 320x240 screen and no pixel belongs to two
  of them; the seven tiles of the home page are the seven applications, each with its icon and name; and every other
  page has its back button in the upper left corner.\<close>

theorem touch_targets:
  assumes "lvgl_places place"
  shows "list_all on_page (map (touch_area place (build_page p)) (targets p)) \<and>
    length (filter (inside_box x y) (map (touch_area place (build_page p)) (targets p))) \<le> 1 \<and>
    (if p = Page_Home
     then handlers (build_page p) = map (\<lambda>i. (app_button i, Cb_App, On_Clicked)) [0..<length apps] \<and> list_all tile_shows [1..<length apps]
     else touch_area place (build_page p) (''button'', 0) = ((0, 0), (44, 44)) \<and>
       ((''button'', 0), Cb_Back, On_Clicked) \<in> set (handlers (build_page p)))"
proof -
  have areas: "list_all on_page (map (touch_area place (build_page p)) (targets p))"
      "sorted_wrt apart (map (touch_area place (build_page p)) (targets p))"
    unfolding areas_table [OF assms]
    by (cases p; simp add: on_page_def apart_def k_logical_width_def k_logical_height_def)+
  show ?thesis
    using areas(1) at_most_one [OF areas(2)] back_button_area [OF assms] tiles_show
    by (auto simp: build_page_def home_handlers)
qed

definition sample_place :: "placement \<Rightarrow> int \<times> int \<Rightarrow> int \<times> int \<Rightarrow> int \<times> int" where
  "sample_place pl parent own = (case (pl, parent, own) of
     (At x y, _, _) \<Rightarrow> (x, y)
   | (Aligned Align_TopMid x y, (pw, ph), (w, h)) \<Rightarrow> ((pw - w) div 2 + x, y)
   | (Aligned Align_TopRight x y, (pw, ph), (w, h)) \<Rightarrow> (pw - w + x, y)
   | (Aligned Align_BottomLeft x y, (pw, ph), (w, h)) \<Rightarrow> (x, ph - h + y)
   | (Aligned Align_BottomRight x y, (pw, ph), (w, h)) \<Rightarrow> (pw - w + x, ph - h + y)
   | (Aligned Align_BottomMid x y, (pw, ph), (w, h)) \<Rightarrow> ((pw - w) div 2 + x, ph - h + y)
   | (Centered, (pw, ph), (w, h)) \<Rightarrow> ((pw - w) div 2, (ph - h) div 2))"

lemma sample_place_ok: "lvgl_places sample_place"
  by (simp add: lvgl_places_def sample_place_def)

theorem touch_targets_witness:
  "list_all on_page (map (touch_area sample_place build_voice) (targets Page_Voice)) \<and>
   length (filter (inside_box 100 60) (map (touch_area sample_place build_voice) (targets Page_Voice))) \<le> 1"
  using touch_targets [OF sample_place_ok, of Page_Voice 100 60] by (simp add: build_page_def)

text \<open>Dragging the volume slider is never taken for a gesture: a touch that starts on the slider queues no action, wherever the
  finger goes, also when LVGL has not reported the press yet.\<close>

theorem slider_drag_is_no_gesture:
  assumes "lvgl_places place"
    and "inside_box (t_start_x (u_touch u)) (t_start_y (u_touch u)) (touch_area place build_voice (''voice_volume_slider'', 0))"
  shows "u_actions (end_touch u) = u_actions u \<and> u_action_head (end_touch u) = u_action_head u \<and>
    u_action_count (end_touch u) = u_action_count u"
proof -
  have "touch_area place build_voice (''voice_volume_slider'', 0) = ((35, 224), (214, 8))"
    using areas_table [OF assms(1), of Page_Voice] by (simp add: targets_table build_page_def)
  then have "gesture_action b ((u_touch u)\<lparr>t_active := a\<rparr>) = None" for a b
    using assms(2) by (simp add: gesture_action_def inside_box_def k_slider_left_def k_slider_right_def k_slider_top_def)
  then show ?thesis by (simp add: end_touch_def Let_def)
qed

theorem slider_drag_is_no_gesture_witness:
  "u_action_count (end_touch (new_device_ui\<lparr>u_touch := no_touch\<lparr>t_active := True, t_started := True, t_start_x := 60, t_start_y := 226,
     t_pointer_x := 300, t_pointer_y := 10\<rparr>\<rparr>)) = 0"
proof -
  have "touch_area sample_place build_voice (''voice_volume_slider'', 0) = ((35, 224), (214, 8))"
    using areas_table [OF sample_place_ok, of Page_Voice] by (simp add: targets_table build_page_def)
  then have i: "inside_box 60 226 (touch_area sample_place build_voice (''voice_volume_slider'', 0))" by (simp add: inside_box_def)
  show ?thesis
    using slider_drag_is_no_gesture [OF sample_place_ok, of "new_device_ui\<lparr>u_touch := no_touch\<lparr>t_active := True, t_started := True,
      t_start_x := 60, t_start_y := 226, t_pointer_x := 300, t_pointer_y := 10\<rparr>\<rparr>"] i by (simp add: new_device_ui_def)
qed

subsection \<open>The state the pages start from\<close>

text \<open>What \<open>build_pages\<close> says the widgets hold is what the calls put there; labels without a text keep LVGL's default.\<close>

lemma build_pages_layout:
  "s_camera_status (build_pages s) = last (texts (ops_of (''camera_status'', 0) build_camera))"
  "po_zoom (s_orb (build_pages s)) = last (zooms (ops_of (''voice_orb_image'', 0) build_voice))"
  "po_zoom (s_home_orb (build_pages s)) = last (zooms (ops_of (''home_orb_image'', 0) build_home))"
  "s_orbits (build_pages s) = (last (border_opas (ops_of (''voice_orbits'', 0) build_voice)),
     last (border_opas (ops_of (''voice_orbits'', 1) build_voice)))"
  by (simp_all add: build_pages_def build_home_def build_voice_def build_camera_def build_helpers upt_small Let_def texts_def zooms_def
      border_opas_def resting_orb_def set_volume_def)

lemma default_texts:
  "list_all (\<lambda>n. texts (ops_of (n, 0) build_voice) = []) [''voice_status'', ''voice_text'', ''voice_volume_value'']"
  "list_all (\<lambda>n. texts (ops_of (n, 0) build_home) = []) [''home_clock'', ''home_date'', ''home_year'']"
  "list_all (\<lambda>n. texts (ops_of (n, 0) build_generic) = []) [''generic_title'', ''generic_badge'', ''generic_icon'', ''generic_primary'',
     ''generic_secondary'', ''generic_action'']"
  "list_all (\<lambda>i. texts (ops_of (''generic_stat_titles'', i) build_generic) = [] \<and>
     texts (ops_of (''generic_stat_values'', i) build_generic) = []) [0..<3]"
  by (simp_all add: build_home_def build_voice_def build_generic_def build_helpers upt_small Let_def texts_def)

end
