(* ===== verification/ScreenProps.thy ===== *)
theory ScreenProps
  imports LvglScreen
begin

section \<open>What the screen promises\<close>

text \<open>
  Everything that can happen to a created screen is an event: a call of the UI thread, a click, a slider
  move or a clock tick. One invariant holds in every reachable screen, and what the handlers are told follows the pages.
\<close>

datatype screen_event =
    Sc_State device_ui_state | Sc_Text string string | Sc_Volume u8 | Sc_Frame "u16 list"
  | Sc_Open nat | Sc_App "nat option" | Sc_Back | Sc_Mute | Sc_Slider slider_event int
  | Sc_Orb | Sc_Action | Sc_Clock

fun screen_step :: "(nat \<Rightarrow> bool) \<Rightarrow> local_time \<times> screen_event \<Rightarrow> screen \<Rightarrow> screen_call list \<times> screen" where
  "screen_step glyph (now, Sc_State st) s = set_state now st s"
| "screen_step glyph (now, Sc_Text a b) s = ([], set_text glyph a b s)"
| "screen_step glyph (now, Sc_Volume v) s = ([], set_volume v s)"
| "screen_step glyph (now, Sc_Frame pixels) s = ([], set_camera_frame pixels s)"
| "screen_step glyph (now, Sc_Open i) s = open_app now i s"
| "screen_step glyph (now, Sc_App target) s = app_clicked now target s"
| "screen_step glyph (now, Sc_Back) s = back_clicked s"
| "screen_step glyph (now, Sc_Mute) s = mute_clicked s"
| "screen_step glyph (now, Sc_Slider ev v) s = volume_changed ev v s"
| "screen_step glyph (now, Sc_Orb) s = voice_clicked now s"
| "screen_step glyph (now, Sc_Action) s = app_action_clicked s"
| "screen_step glyph (now, Sc_Clock) s = ([], clock_tick now s)"

fun screen_run :: "(nat \<Rightarrow> bool) \<Rightarrow> (local_time \<times> screen_event) list \<Rightarrow> screen \<Rightarrow> screen_call list \<times> screen" where
  "screen_run glyph [] s = ([], s)"
| "screen_run glyph (e # es) s = (case screen_step glyph e s of (calls, s1) \<Rightarrow>
     (case screen_run glyph es s1 of (calls', s2) \<Rightarrow> (calls @ calls', s2)))"

subsection \<open>The invariant\<close>

definition page_of_app :: "nat \<Rightarrow> page" where
  "page_of_app i = (if i = 0 then Page_Voice else if i = 1 then Page_Camera else if i = 3 then Page_Wifi else Page_Generic)"

definition nav_ok :: "screen \<Rightarrow> bool" where
  "nav_ok s \<longleftrightarrow> s_built s \<and> s_visible s = (\<lambda>p. p = s_page s) \<and> s_current_app s < k_app_count \<and>
     (s_page s = Page_Home \<or> s_page s = page_of_app (s_current_app s))"

definition sound_ok :: "screen \<Rightarrow> bool" where
  "sound_ok s \<longleftrightarrow> s_volume s \<le> 100 \<and> s_muted s = (s_volume s = 0) \<and> 0 < s_before_mute s \<and> s_before_mute s \<le> 100 \<and>
     (s_volume s \<noteq> 0 \<longrightarrow> s_before_mute s = s_volume s) \<and>
     s_slider s = uint (s_volume s) \<and> s_volume_label s = decimal (unat (s_volume s)) @ ''%'' \<and>
     s_mute_icon s = (if s_volume s = 0 then k_icon_volume_off else k_icon_volume)"

definition voice_ok :: "screen \<Rightarrow> bool" where
  "voice_ok s \<longleftrightarrow> s_page s = Page_Voice \<longrightarrow>
     s_status s = view_status (voice_of (s_state s)) \<and>
     (\<not> s_has_text s \<longrightarrow> s_text s = view_hint (voice_of (s_state s)))"

definition motion_ok :: "screen \<Rightarrow> bool" where
  "motion_ok s \<longleftrightarrow>
     length (s_orb_anims s) = (if s_page s = Page_Voice \<and> view_amplitude (voice_of (s_state s)) \<noteq> 0 then 4 else 0) \<and>
     length (s_home_anims s) = (if s_page s = Page_Home then 3 else 0) \<and>
     (\<forall>a \<in> set (s_home_anims s). an_exec a \<noteq> Anim_MoveY)"

definition screen_ok :: "screen \<Rightarrow> bool" where
  "screen_ok s \<longleftrightarrow> nav_ok s \<and> sound_ok s \<and> voice_ok s \<and> motion_ok s"

lemmas screen_ok_defs = screen_ok_def nav_ok_def sound_ok_def voice_ok_def motion_ok_def

text \<open>The orb's four and the home orb's three animations are all of theirs.\<close>

lemma orb_filter: "filter (\<lambda>a. an_exec a \<notin> {Anim_Zoom, Anim_MoveX, Anim_MoveY, Anim_Rotate}) as = []"
  by (induction as) (auto, metis anim_exec.exhaust)

lemma stop_orb_fields:
  "s_built s \<Longrightarrow> stop_orb_motion s = s\<lparr>s_orb_anims := [], s_orb := resting_orb 256\<rparr>"
  unfolding stop_orb_motion_def orb_filter by (simp add: resting_orb_def)

lemma home_filter:
  "(\<forall>a \<in> set as. an_exec a \<noteq> Anim_MoveY) \<Longrightarrow> filter (\<lambda>a. an_exec a \<notin> {Anim_Zoom, Anim_MoveX, Anim_Rotate}) as = []"
  by (induction as) (auto, metis anim_exec.exhaust)

lemma stop_home_anims:
  "s_built s \<Longrightarrow> (\<forall>a \<in> set (s_home_anims s). an_exec a \<noteq> Anim_MoveY) \<Longrightarrow> s_home_anims (stop_home_orb_motion s) = []"
  using home_filter [of "s_home_anims s"] by (simp add: stop_home_orb_motion_def)

text \<open>What an operation leaves alone. The order of the groups: navigation, sound, voice page, handlers.\<close>

lemma sound_updates [frame_simps]:
  "sound_ok (s\<lparr>s_visible := vis\<rparr>) = sound_ok s" "sound_ok (s\<lparr>s_page := p\<rparr>) = sound_ok s"
  "sound_ok (s\<lparr>s_current_app := i\<rparr>) = sound_ok s" "sound_ok (s\<lparr>s_state := st\<rparr>) = sound_ok s"
  by (simp_all add: sound_ok_def)

lemma stop_home_frame [frame_simps]:
  "s_built (stop_home_orb_motion s) = s_built s" "s_visible (stop_home_orb_motion s) = s_visible s"
  "s_page (stop_home_orb_motion s) = s_page s" "s_current_app (stop_home_orb_motion s) = s_current_app s"
  "sound_ok (stop_home_orb_motion s) = sound_ok s"
  "s_state (stop_home_orb_motion s) = s_state s" "s_has_text (stop_home_orb_motion s) = s_has_text s"
  "s_status (stop_home_orb_motion s) = s_status s" "s_text (stop_home_orb_motion s) = s_text s"
  "s_orb_anims (stop_home_orb_motion s) = s_orb_anims s" "s_on_camera (stop_home_orb_motion s) = s_on_camera s"
  "s_on_app (stop_home_orb_motion s) = s_on_app s"
  by (simp_all add: stop_home_orb_motion_def sound_ok_def)

lemma start_home_frame [frame_simps]:
  "s_built (start_home_orb_motion s) = s_built s" "s_visible (start_home_orb_motion s) = s_visible s"
  "s_page (start_home_orb_motion s) = s_page s" "s_current_app (start_home_orb_motion s) = s_current_app s"
  "sound_ok (start_home_orb_motion s) = sound_ok s"
  "s_state (start_home_orb_motion s) = s_state s" "s_has_text (start_home_orb_motion s) = s_has_text s"
  "s_status (start_home_orb_motion s) = s_status s" "s_text (start_home_orb_motion s) = s_text s"
  "s_orb_anims (start_home_orb_motion s) = s_orb_anims s" "s_on_camera (start_home_orb_motion s) = s_on_camera s"
  "s_on_app (start_home_orb_motion s) = s_on_app s"
  by (simp_all add: start_home_orb_motion_def stop_home_orb_motion_def sound_ok_def Let_def)

lemma stop_orb_frame [frame_simps]:
  "s_built (stop_orb_motion s) = s_built s" "s_visible (stop_orb_motion s) = s_visible s"
  "s_page (stop_orb_motion s) = s_page s" "s_current_app (stop_orb_motion s) = s_current_app s"
  "sound_ok (stop_orb_motion s) = sound_ok s"
  "s_state (stop_orb_motion s) = s_state s" "s_has_text (stop_orb_motion s) = s_has_text s"
  "s_status (stop_orb_motion s) = s_status s" "s_text (stop_orb_motion s) = s_text s"
  "s_home_anims (stop_orb_motion s) = s_home_anims s" "s_on_camera (stop_orb_motion s) = s_on_camera s"
  "s_on_app (stop_orb_motion s) = s_on_app s"
  by (simp_all add: stop_orb_motion_def sound_ok_def)

lemma start_orb_frame [frame_simps]:
  "s_built (start_orb_motion s) = s_built s" "s_visible (start_orb_motion s) = s_visible s"
  "s_page (start_orb_motion s) = s_page s" "s_current_app (start_orb_motion s) = s_current_app s"
  "sound_ok (start_orb_motion s) = sound_ok s"
  "s_state (start_orb_motion s) = s_state s" "s_has_text (start_orb_motion s) = s_has_text s"
  "s_status (start_orb_motion s) = s_status s" "s_text (start_orb_motion s) = s_text s"
  "s_home_anims (start_orb_motion s) = s_home_anims s" "s_on_camera (start_orb_motion s) = s_on_camera s"
  "s_on_app (start_orb_motion s) = s_on_app s"
  by (simp_all add: start_orb_motion_def Let_def stop_orb_motion_def sound_ok_def)

lemma start_orb_anims:
  "s_built s \<Longrightarrow> length (s_orb_anims (start_orb_motion s)) = (if view_amplitude (voice_of (s_state s)) = 0 then 0 else 4)"
  by (simp add: start_orb_motion_def stop_orb_fields Let_def)

lemma start_orb_none: "s_built s \<Longrightarrow> view_amplitude (voice_of (s_state s)) = 0 \<Longrightarrow> s_orb_anims (start_orb_motion s) = []"
  using start_orb_anims [of s] by simp

lemma start_home_anims:
  "s_built s \<Longrightarrow> (\<forall>a \<in> set (s_home_anims s). an_exec a \<noteq> Anim_MoveY) \<Longrightarrow>
   length (s_home_anims (start_home_orb_motion s)) = 3 \<and>
   (\<forall>a \<in> set (s_home_anims (start_home_orb_motion s)). an_exec a \<noteq> Anim_MoveY)"
  by (simp add: start_home_orb_motion_def Let_def frame_simps stop_home_anims breathe_def)

lemma update_voice_frame [frame_simps]:
  "s_built (update_voice s) = s_built s" "s_visible (update_voice s) = s_visible s"
  "s_page (update_voice s) = s_page s" "s_current_app (update_voice s) = s_current_app s"
  "sound_ok (update_voice s) = sound_ok s"
  "s_state (update_voice s) = s_state s" "s_has_text (update_voice s) = s_has_text s"
  "s_home_anims (update_voice s) = s_home_anims s" "s_on_camera (update_voice s) = s_on_camera s"
  "s_on_app (update_voice s) = s_on_app s"
  by (simp_all add: update_voice_def Let_def frame_simps split: prod.split) (simp_all add: sound_ok_def)

lemma update_voice_ok: "s_built s \<Longrightarrow> voice_ok (update_voice s)"
  by (simp add: voice_ok_def update_voice_def Let_def frame_simps split: prod.split)

lemma update_voice_anims:
  "s_built s \<Longrightarrow> length (s_orb_anims (update_voice s)) =
     (if s_page s = Page_Voice then if view_amplitude (voice_of (s_state s)) = 0 then 0 else 4 else length (s_orb_anims s))"
  by (simp add: update_voice_def Let_def start_orb_anims start_orb_none split: prod.split)

lemma update_clock_frame [frame_simps]:
  "s_built (update_clock now s) = s_built s" "s_visible (update_clock now s) = s_visible s"
  "s_page (update_clock now s) = s_page s" "s_current_app (update_clock now s) = s_current_app s"
  "sound_ok (update_clock now s) = sound_ok s" "voice_ok (update_clock now s) = voice_ok s"
  "s_state (update_clock now s) = s_state s"
  "s_home_anims (update_clock now s) = s_home_anims s" "s_orb_anims (update_clock now s) = s_orb_anims s"
  "s_on_camera (update_clock now s) = s_on_camera s" "s_on_app (update_clock now s) = s_on_app s"
  by (simp_all add: update_clock_def Let_def sound_ok_def voice_ok_def)

lemma update_clock_motion [frame_simps]: "motion_ok (update_clock now s) = motion_ok s"
  by (simp only: motion_ok_def frame_simps)

lemma fill_generic_frame [frame_simps]:
  "s_built (fill_generic i s) = s_built s" "s_visible (fill_generic i s) = s_visible s"
  "s_page (fill_generic i s) = s_page s" "s_current_app (fill_generic i s) = s_current_app s"
  "sound_ok (fill_generic i s) = sound_ok s" "s_state (fill_generic i s) = s_state s"
  "s_home_anims (fill_generic i s) = s_home_anims s" "s_orb_anims (fill_generic i s) = s_orb_anims s"
  "s_on_camera (fill_generic i s) = s_on_camera s" "s_on_app (fill_generic i s) = s_on_app s"
  by (simp_all add: fill_generic_def Let_def sound_ok_def)

subsection \<open>Every operation keeps the invariant\<close>

text \<open>\<^verbatim>\<open>ShowHome\<close> needs less than the invariant: it sets the flags of all pages.\<close>

lemma show_home_establishes:
  assumes "s_built s" "sound_ok s" "s_current_app s < k_app_count" "\<forall>a \<in> set (s_home_anims s). an_exec a \<noteq> Anim_MoveY"
  shows "screen_ok (snd (show_home s)) \<and> s_page (snd (show_home s)) = Page_Home \<and> s_on_camera (snd (show_home s)) = s_on_camera s"
proof -
  define s2 where "s2 = (stop_orb_motion s)\<lparr>s_visible := (s_visible (stop_orb_motion s))(Page_Home := True, Page_Voice := False,
      Page_Camera := False, Page_Wifi := False, Page_Generic := False), s_page := Page_Home\<rparr>"
  have "s_visible s2 = (\<lambda>p. p = Page_Home)"
    unfolding s2_def using page.exhaust by (auto simp: fun_eq_iff)
  moreover have "s_built s2" "s_page s2 = Page_Home" "s_current_app s2 = s_current_app s" "sound_ok s2" "s_orb_anims s2 = []"
      "s_home_anims s2 = s_home_anims s" "s_on_camera s2 = s_on_camera s"
    using assms by (simp_all add: s2_def frame_simps) (simp add: stop_orb_fields)
  moreover have "snd (show_home s) = start_home_orb_motion s2" by (simp add: show_home_def s2_def Let_def)
  ultimately show ?thesis using assms start_home_anims [of s2]
    by (simp add: screen_ok_def nav_ok_def voice_ok_def motion_ok_def frame_simps)
qed

lemma show_home_ok [inv_intros]: "screen_ok s \<Longrightarrow> screen_ok (snd (show_home s))"
  using show_home_establishes [of s] by (simp add: screen_ok_def nav_ok_def motion_ok_def)

lemma show_app_other: "k_app_count \<le> i \<Longrightarrow> show_app now i s = ([], s)"
  by (simp add: show_app_def)

lemma show_app_nav:
  assumes "screen_ok s" "i < k_app_count" and t: "t = snd (show_app now i s)"
  shows "s_built t" "s_page t = page_of_app i" "s_current_app t = i" "s_visible t = (\<lambda>p. p = page_of_app i)"
    "sound_ok t" "s_home_anims t = []" "s_state t = s_state s" "s_on_camera t = s_on_camera s" "s_on_app t = s_on_app s"
proof -
  have b: "s_built s" "sound_ok s" "\<forall>a \<in> set (s_home_anims s). an_exec a \<noteq> Anim_MoveY" "\<not> k_app_count \<le> i"
    using assms(1,2) by (simp_all add: screen_ok_def nav_ok_def motion_ok_def)
  note facts = show_app_def Let_def page_of_app_def frame_simps stop_home_anims [OF b(1,3)]
  show "s_built t" "s_page t = page_of_app i" "s_current_app t = i" "s_home_anims t = []"
      "s_state t = s_state s" "s_on_camera t = s_on_camera s" "s_on_app t = s_on_app s"
    using b(1,4) by (simp_all add: t facts)
  have "s_visible t p = (p = page_of_app i)" for p
    using b(4) by (cases p) (simp_all add: t facts)
  then show "s_visible t = (\<lambda>p. p = page_of_app i)" by blast
  show "sound_ok t"
    using b(2,4) by (simp add: t facts)
qed

lemma show_app_anims:
  assumes "screen_ok s" "i < k_app_count"
  shows "length (s_orb_anims (snd (show_app now i s))) =
    (if i = 0 \<and> view_amplitude (voice_of (s_state s)) \<noteq> 0 then 4 else 0)"
proof -
  have b: "s_built s" "\<not> k_app_count \<le> i" using assms by (simp_all add: screen_ok_def nav_ok_def)
  show ?thesis
  proof (cases "i = 0")
    case True
    then show ?thesis using b by (simp add: show_app_def Let_def update_voice_anims frame_simps)
  next
    case False
    then show ?thesis using b by (simp add: show_app_def Let_def frame_simps stop_orb_fields)
  qed
qed

lemma page_of_app_voice: "page_of_app i = Page_Voice \<longleftrightarrow> i = 0" "page_of_app i \<noteq> Page_Home"
  by (simp_all add: page_of_app_def)

lemma show_app_ok [inv_intros]:
  assumes "screen_ok s"
  shows "screen_ok (snd (show_app now i s))"
proof (cases "i < k_app_count")
  case True
  have v: "voice_ok (snd (show_app now i s))"
  proof (cases "i = 0")
    case zero: True
    then have "snd (show_app now i s) = update_voice ((stop_home_orb_motion s)\<lparr>s_current_app := 0,
        s_visible := (s_visible s)(Page_Home := False, Page_Voice := True, Page_Camera := False, Page_Wifi := False,
                      Page_Generic := False), s_page := Page_Voice\<rparr>)"
      using True by (simp add: show_app_def Let_def frame_simps)
    then show ?thesis using assms by (simp add: update_voice_ok frame_simps screen_ok_def nav_ok_def)
  next
    case False
    then show ?thesis using show_app_nav(2) [OF assms True refl] page_of_app_voice by (simp add: voice_ok_def)
  qed
  show ?thesis
    using show_app_nav [OF assms True refl] show_app_anims [OF assms True] True v page_of_app_voice
    by (simp add: screen_ok_def nav_ok_def motion_ok_def)
qed (simp add: show_app_other assms)

lemma set_state_ok [inv_intros]:
  assumes "screen_ok s"
  shows "screen_ok (snd (set_state now st s))"
proof -
  define s1 where "s1 = s\<lparr>s_state := st\<rparr>"
  define conv where "conv \<longleftrightarrow> st = Ui_Listening \<or> st = Ui_Thinking \<or> st = Ui_Speaking \<or> st = Ui_Happy \<or> st = Ui_SpeakingTail"
  define s2 where "s2 = (if conv \<and> s_page s1 = Page_Home then snd (show_app now 0 s1) else s1)"
  have r: "snd (set_state now st s) = update_voice s2"
    by (simp add: set_state_def s1_def s2_def conv_def Let_def split: prod.split)
  have 1: "nav_ok s1" "sound_ok s1" "\<forall>a \<in> set (s_home_anims s1). an_exec a \<noteq> Anim_MoveY"
      "length (s_home_anims s1) = (if s_page s1 = Page_Home then 3 else 0)"
      "s_page s1 \<noteq> Page_Voice \<Longrightarrow> s_orb_anims s1 = []"
    using assms by (simp_all add: s1_def screen_ok_defs)
  have 2: "nav_ok s2 \<and> sound_ok s2 \<and> (\<forall>a \<in> set (s_home_anims s2). an_exec a \<noteq> Anim_MoveY) \<and>
      length (s_home_anims s2) = (if s_page s2 = Page_Home then 3 else 0) \<and> (s_page s2 \<noteq> Page_Voice \<longrightarrow> s_orb_anims s2 = [])"
  proof (cases "conv \<and> s_page s1 = Page_Home")
    case True
    then have "voice_ok s1" "length (s_orb_anims s1) = 0" using 1(5) by (simp_all add: voice_ok_def)
    then have "screen_ok s1" using 1 True by (simp add: screen_ok_def motion_ok_def)
    then have "screen_ok s2" using show_app_ok True by (simp add: s2_def)
    then show ?thesis by (auto simp: screen_ok_def motion_ok_def)
  next
    case False
    then have "s2 = s1" unfolding s2_def by (rule if_not_P)
    then show ?thesis using 1 by simp
  qed
  then show ?thesis
    unfolding r by (simp add: screen_ok_def nav_ok_def motion_ok_def frame_simps update_voice_anims update_voice_ok)
qed

lemma set_volume_frame [frame_simps]:
  "s_built (set_volume v s) = s_built s" "s_visible (set_volume v s) = s_visible s"
  "s_page (set_volume v s) = s_page s" "s_current_app (set_volume v s) = s_current_app s"
  "s_state (set_volume v s) = s_state s" "s_has_text (set_volume v s) = s_has_text s"
  "s_status (set_volume v s) = s_status s" "s_text (set_volume v s) = s_text s"
  "s_orb_anims (set_volume v s) = s_orb_anims s" "s_home_anims (set_volume v s) = s_home_anims s"
  "s_on_camera (set_volume v s) = s_on_camera s" "s_on_volume (set_volume v s) = s_on_volume s"
  by (simp_all add: set_volume_def Let_def)

lemma set_volume_sound:
  assumes "s_built s" "0 < s_before_mute s" "s_before_mute s \<le> 100"
  shows "sound_ok (set_volume v s)"
proof -
  have "min v 100 \<le> (100 :: u8)" by simp
  moreover have "min v 100 \<noteq> 0 \<Longrightarrow> 0 < min v (100 :: u8)" using word_neq_0_conv by blast
  ultimately show ?thesis using assms by (simp add: sound_ok_def set_volume_def Let_def)
qed

lemma set_volume_ok [inv_intros]: "screen_ok s \<Longrightarrow> screen_ok (set_volume v s)"
  using set_volume_sound [of s v]
  by (simp add: screen_ok_def nav_ok_def voice_ok_def motion_ok_def frame_simps sound_ok_def [of s])

lemma set_text_ok [inv_intros]: "screen_ok s \<Longrightarrow> screen_ok (set_text glyph a b s)"
  by (simp add: screen_ok_defs set_text_def Let_def)

lemma set_camera_frame_ok [inv_intros]: "screen_ok s \<Longrightarrow> screen_ok (set_camera_frame pixels s)"
  by (simp add: screen_ok_defs set_camera_frame_def)

lemma mute_clicked_ok [inv_intros]: "screen_ok s \<Longrightarrow> screen_ok (snd (mute_clicked s))"
  by (simp add: mute_clicked_def Let_def set_volume_ok)

lemma volume_changed_ok [inv_intros]:
  assumes "screen_ok s"
  shows "screen_ok (snd (volume_changed ev v s))"
proof -
  have "snd (volume_changed ev v s) = set_volume (word_of_int (max 0 (min v 100))) (s\<lparr>s_slider := v\<rparr>)"
    by (simp add: volume_changed_def Let_def)
  then show ?thesis
    using assms set_volume_sound [of "s\<lparr>s_slider := v\<rparr>"]
    by (simp add: screen_ok_def nav_ok_def voice_ok_def motion_ok_def frame_simps sound_ok_def [of s])
qed

lemma voice_clicked_ok [inv_intros]: "screen_ok s \<Longrightarrow> screen_ok (snd (voice_clicked now s))"
  using set_state_ok [of s now Ui_Listening] by (auto simp: voice_clicked_def Let_def split: prod.split)

lemma app_clicked_ok [inv_intros]: "screen_ok s \<Longrightarrow> screen_ok (snd (app_clicked now target s))"
  using show_app_ok [of s now] by (auto simp: app_clicked_def split: option.split prod.split)
    (metis snd_conv)

lemma update_clock_ok [inv_intros]: "screen_ok s \<Longrightarrow> screen_ok (update_clock now s)"
  by (simp add: screen_ok_def nav_ok_def frame_simps)

lemma screen_step_ok [inv_intros]: "screen_ok s \<Longrightarrow> screen_ok (snd (screen_step glyph (now, e) s))"
  by (cases e) (simp_all add: inv_intros open_app_def back_clicked_def clock_tick_def app_action_clicked_def)

interpretation screen_runs: invariant_system "\<lambda>e s. snd (screen_step glyph e s)" screen_ok for glyph
  using screen_step_ok by unfold_locales (auto simp: split_paired_all)

lemma screen_run_fold: "snd (screen_run glyph es s) = fold (\<lambda>e s. snd (screen_step glyph e s)) es s"
  by (induction es arbitrary: s) (auto split: prod.split, metis snd_conv)

subsection \<open>A created screen\<close>

lemma build_pages_facts:
  assumes "0 < s_before_mute s" "s_before_mute s \<le> 100" "s_page s = Page_Home" "s_current_app s < k_app_count"
  shows "s_built (build_pages s)" "sound_ok (build_pages s)" "s_page (build_pages s) = Page_Home"
    "s_current_app (build_pages s) < k_app_count" "s_home_anims (build_pages s) = []" "s_orb_anims (build_pages s) = []"
    "s_on_camera (build_pages s) = s_on_camera s"
  using assms by (simp_all add: build_pages_def frame_simps set_volume_sound)

lemma create_screen_ok:
  assumes "create_screen e now new_screen = (True, calls, s)"
  shows "screen_ok s \<and> s_page s = Page_Home \<and> \<not> s_on_camera s"
proof -
  define s1 where "s1 = new_screen\<lparr>s_freetype := True, s_fonts := ce_fonts e\<rparr>"
  define s2 where "s2 = update_clock now ((build_pages s1)\<lparr>s_clock_timer := True\<rparr>)"
  have s: "s = snd (show_home s2)"
    using assms by (auto simp: create_screen_def Let_def s1_def s2_def split: if_splits prod.splits)
  have "0 < s_before_mute s1" "s_before_mute s1 \<le> 100" "s_page s1 = Page_Home" "s_current_app s1 < k_app_count" "\<not> s_on_camera s1"
    by (simp_all add: s1_def new_screen_def k_app_count_def)
  note b = build_pages_facts [OF this(1-4)] this(5)
  then have "sound_ok ((build_pages s1)\<lparr>s_clock_timer := True\<rparr>)" by (simp add: sound_ok_def)
  then have "s_built s2" "sound_ok s2" "s_current_app s2 < k_app_count" "\<forall>a \<in> set (s_home_anims s2). an_exec a \<noteq> Anim_MoveY"
      "\<not> s_on_camera s2"
    using b by (simp_all add: s2_def frame_simps)
  then show ?thesis using show_home_establishes [of s2] by (simp add: s)
qed

text \<open>A screen for the witnesses: everything \<^verbatim>\<open>Create\<close> asks for is there.\<close>

definition sample_time :: local_time where
  "sample_time = \<lparr>tm_hour = 9, tm_min = 5, tm_mon = 0, tm_mday = 2, tm_wday = 1, tm_year = 126\<rparr>"

definition sample_create :: create_env where
  "sample_create = \<lparr>ce_paths = True, ce_freetype = True, ce_fonts = replicate 8 True, ce_glyphs = replicate 3 True\<rparr>"

definition sample_screen :: screen where
  "sample_screen = snd (snd (create_screen sample_create sample_time new_screen))"

lemma create_sample: "create_screen sample_create sample_time new_screen = (True, [], sample_screen)"
proof -
  have "s_page (update_clock sample_time ((build_pages (new_screen\<lparr>s_freetype := True, s_fonts := replicate 8 True\<rparr>))\<lparr>s_clock_timer := True\<rparr>))
      = Page_Home"
    by (simp add: update_clock_frame build_pages_def set_volume_frame new_screen_def)
  then show ?thesis
    by (simp add: sample_screen_def create_screen_def sample_create_def Let_def show_home_def camera_call_def list_all_iff split: prod.split)
qed

text \<open>C33: whatever is done to a created screen, it stays consistent: exactly the flags of the current page are shown,
  the page belongs to the current application, the mute flag, the slider, its label and the icon agree with a
  volume of at most 100, the voice page shows the texts of the current state, and animations run on
  the visible page only.\<close>

theorem screen_stays_consistent:
  assumes "create_screen e now new_screen = (True, calls, s)"
  shows "screen_ok (snd (screen_run glyph es s))"
  unfolding screen_run_fold using screen_runs.inv_fold create_screen_ok [OF assms] by blast

theorem screen_stays_consistent_witness:
  "screen_ok (snd (screen_run (\<lambda>_. True) [(sample_time, Sc_State Ui_Listening), (sample_time, Sc_Slider Slider_Changed 0),
     (sample_time, Sc_App (Some 1))] sample_screen))"
  by (rule screen_stays_consistent [OF create_sample])

subsection \<open>The camera runs on its page only\<close>

fun camera_calls :: "screen_call list \<Rightarrow> bool list" where
  "camera_calls [] = []"
| "camera_calls (On_Camera b # cs) = b # camera_calls cs"
| "camera_calls (_ # cs) = camera_calls cs"

lemma camera_calls_append [simp]: "camera_calls (xs @ ys) = camera_calls xs @ camera_calls ys"
  by (induction xs rule: camera_calls.induct) auto

text \<open>Requests that switch between off and on: the last state, or nothing when one repeats.\<close>

fun switches :: "bool \<Rightarrow> bool list \<Rightarrow> bool option" where
  "switches now [] = Some now"
| "switches now (b # bs) = (if b = now then None else switches b bs)"

lemma switches_append: "switches a (xs @ ys) = (case switches a xs of None \<Rightarrow> None | Some b \<Rightarrow> switches b ys)"
  by (induction xs arbitrary: a) auto

text \<open>One operation reports a change of the camera page, and nothing else about the camera.\<close>

definition camera_follows :: "screen \<Rightarrow> screen_call list \<times> screen \<Rightarrow> bool" where
  "camera_follows s r \<longleftrightarrow> s_on_camera (snd r) = s_on_camera s \<and>
     (s_on_camera s \<longrightarrow> switches (s_page s = Page_Camera) (camera_calls (fst r)) = Some (s_page (snd r) = Page_Camera))"

lemma camera_calls_call: "camera_calls (camera_call changed b s) = (if changed \<and> s_on_camera s then [b] else [])"
  by (simp add: camera_call_def)

lemma show_home_camera: "camera_follows s (show_home s)"
  by (simp add: camera_follows_def show_home_def Let_def camera_calls_call frame_simps)

lemma show_app_camera: "camera_follows s (show_app now i s)"
  by (simp add: camera_follows_def show_app_def Let_def camera_calls_call frame_simps split: if_splits)

lemma set_state_camera: "camera_follows s (set_state now st s)"
proof -
  have "camera_follows (s\<lparr>s_state := st\<rparr>) (show_app now 0 (s\<lparr>s_state := st\<rparr>))" by (rule show_app_camera)
  then show ?thesis by (auto simp: camera_follows_def set_state_def Let_def frame_simps split: prod.split)
qed

lemma camera_quiet:
  "s_page t = s_page s \<Longrightarrow> s_on_camera t = s_on_camera s \<Longrightarrow> camera_calls calls = [] \<Longrightarrow> camera_follows s (calls, t)"
  by (simp add: camera_follows_def)

lemma app_clicked_camera: "camera_follows s (app_clicked now target s)"
  using show_app_camera [of s now "the target"]
  by (cases target) (auto simp: camera_follows_def app_clicked_def split: prod.split)

lemma voice_clicked_camera: "camera_follows s (voice_clicked now s)"
  using set_state_camera [of s now Ui_Listening]
  by (auto simp: camera_follows_def voice_clicked_def Let_def split: prod.split)

lemma screen_step_camera: "camera_follows s (screen_step glyph (now, e) s)"
  by (cases e) (simp_all add: set_state_camera show_app_camera show_home_camera app_clicked_camera voice_clicked_camera
      open_app_def back_clicked_def clock_tick_def app_action_clicked_def mute_clicked_def volume_changed_def Let_def
      camera_quiet frame_simps set_text_def set_camera_frame_def)

lemma screen_run_camera: "camera_follows s (screen_run glyph es s)"
proof (induction es arbitrary: s)
  case (Cons e es)
  obtain now ev where e: "e = (now, ev)" by fastforce
  obtain calls s1 where 1: "screen_step glyph e s = (calls, s1)" by fastforce
  obtain calls' s2 where 2: "screen_run glyph es s1 = (calls', s2)" by fastforce
  have "camera_follows s (calls, s1)" using screen_step_camera [of s glyph now ev] 1 e by simp
  moreover have "camera_follows s1 (calls', s2)" using Cons.IH [of s1] 2 by simp
  ultimately show ?case by (simp add: camera_follows_def 1 2 switches_append)
qed (simp add: camera_follows_def)

text \<open>The camera is asked for exactly while its page is shown: from a created screen on, the requests to its
  handler alternate, starting with on, and after any run the last one says whether the camera page is the current one.\<close>

theorem camera_only_on_its_page:
  assumes "create_screen e now new_screen = (True, calls0, s)"
    and "screen_run glyph es (set_camera_activity_handler True s) = (calls, s')"
  shows "switches False (camera_calls calls) = Some (s_page s' = Page_Camera)"
proof -
  have "s_page (set_camera_activity_handler True s) = Page_Home" "s_on_camera (set_camera_activity_handler True s)"
    using create_screen_ok [OF assms(1)] by (simp_all add: set_camera_activity_handler_def)
  then show ?thesis
    using screen_run_camera [of "set_camera_activity_handler True s" glyph es] assms(2) by (simp add: camera_follows_def)
qed

theorem camera_only_on_its_page_witness:
  "\<exists>calls s'. screen_run (\<lambda>_. True) [(sample_time, Sc_App (Some 1)), (sample_time, Sc_Open 1), (sample_time, Sc_Back)]
      (set_camera_activity_handler True sample_screen) = (calls, s') \<and>
    switches False (camera_calls calls) = Some (s_page s' = Page_Camera)"
proof -
  obtain calls s' where r: "screen_run (\<lambda>_. True) [(sample_time, Sc_App (Some 1)), (sample_time, Sc_Open 1), (sample_time, Sc_Back)]
      (set_camera_activity_handler True sample_screen) = (calls, s')" by fastforce
  show ?thesis using camera_only_on_its_page [OF create_sample r] r by blast
qed

subsection \<open>Muting\<close>

lemma decimal_zero: "decimal 0 = ''0''"
  by (subst decimal.simps) (simp add: char_of_def bit_0)

lemma mute_off:
  assumes "screen_ok s" "s_volume s \<noteq> 0"
  shows "mute_clicked s = (if s_on_volume s then [On_Volume 0 Phase_Commit] else [],
    s\<lparr>s_volume := 0, s_muted := True, s_slider := 0, s_volume_label := ''0%'', s_mute_icon := k_icon_volume_off\<rparr>)"
  using assms by (simp add: mute_clicked_def set_volume_def Let_def screen_ok_def nav_ok_def decimal_zero)

lemma mute_on:
  assumes "s_built s" "s_volume s = 0" "s_before_mute s \<noteq> 0" "s_before_mute s \<le> 100" "s_slider s = 0"
  shows "mute_clicked s = (if s_on_volume s then [On_Volume (s_before_mute s) Phase_Commit] else [],
    s\<lparr>s_volume := s_before_mute s, s_muted := False, s_slider := uint (s_before_mute s),
      s_volume_label := decimal (unat (s_before_mute s)) @ ''%'', s_mute_icon := k_icon_volume\<rparr>)"
proof -
  have m: "min (s_before_mute s) 100 = s_before_mute s" using assms(4) by simp
  have "s\<lparr>s_before_mute := s_before_mute s\<rparr> = s" by simp
  then show ?thesis using assms by (simp add: mute_clicked_def set_volume_def Let_def m)
qed

text \<open>Muting is undone by the same button: after two clicks the screen is what it was, volume, slider, label and icon
  included, and the handler was told to commit zero and then the old volume.\<close>

theorem mute_twice_restores:
  assumes "screen_ok s" and "s_volume s \<noteq> 0" and "s_on_volume s"
    and "mute_clicked s = (calls1, s1)" and "mute_clicked s1 = (calls2, s2)"
  shows "s2 = s \<and> s_volume s1 = 0 \<and> s_muted s1 \<and>
    calls1 @ calls2 = [On_Volume 0 Phase_Commit, On_Volume (s_volume s) Phase_Commit]"
proof -
  have ok: "s_before_mute s \<le> 100" "s_before_mute s = s_volume s" "s_built s" "\<not> s_muted s"
      "s_slider s = uint (s_volume s)" "s_volume_label s = decimal (unat (s_volume s)) @ ''%''" "s_mute_icon s = k_icon_volume"
    using assms(1,2) by (simp_all add: screen_ok_def nav_ok_def sound_ok_def)
  have 1: "calls1 = [On_Volume 0 Phase_Commit]"
      "s1 = s\<lparr>s_volume := 0, s_muted := True, s_slider := 0, s_volume_label := ''0%'', s_mute_icon := k_icon_volume_off\<rparr>"
    using mute_off [OF assms(1,2)] assms(3,4) by simp_all
  have f: "s_built s1" "s_volume s1 = 0" "s_before_mute s1 \<noteq> 0" "s_before_mute s1 \<le> 100" "s_slider s1 = 0" "s_on_volume s1"
      "s_before_mute s1 = s_volume s"
    using ok(1-3) assms(2,3) by (simp_all add: 1(2))
  have "calls2 = [On_Volume (s_volume s) Phase_Commit]"
      "s2 = s1\<lparr>s_volume := s_volume s, s_muted := False, s_slider := uint (s_volume s),
        s_volume_label := decimal (unat (s_volume s)) @ ''%'', s_mute_icon := k_icon_volume\<rparr>"
    using mute_on [OF f(1-5)] assms(5) by (simp_all add: f(6,7))
  moreover have "s2 = s" unfolding calculation(2) 1(2) using ok by (intro screen.equality) simp_all
  ultimately show ?thesis using 1 by simp
qed

lemma volume_frames:
  "s_volume (start_home_orb_motion s) = s_volume s" "s_volume (stop_orb_motion s) = s_volume s"
  "s_volume (update_clock now s) = s_volume s" "s_volume (set_volume v s) = min v 100"
  by (simp_all add: start_home_orb_motion_def stop_home_orb_motion_def stop_orb_motion_def update_clock_def set_volume_def Let_def)

lemma sample_volume: "s_volume sample_screen = 60"
  by (simp add: sample_screen_def create_screen_def sample_create_def Let_def show_home_def list_all_iff volume_frames
      build_pages_def) (simp add: new_screen_def)

theorem mute_twice_restores_witness:
  "\<exists>calls1 s1 calls2 s2. mute_clicked (set_volume_change_handler True sample_screen) = (calls1, s1) \<and>
     mute_clicked s1 = (calls2, s2) \<and> s2 = set_volume_change_handler True sample_screen \<and> s_volume s1 = 0"
proof -
  have "screen_ok sample_screen" using create_screen_ok [OF create_sample] by simp
  then have ok: "screen_ok (set_volume_change_handler True sample_screen)"
    by (simp add: screen_ok_defs set_volume_change_handler_def)
  have "s_volume (set_volume_change_handler True sample_screen) \<noteq> 0"
    by (simp add: set_volume_change_handler_def sample_volume)
  moreover have "s_on_volume (set_volume_change_handler True sample_screen)" by (simp add: set_volume_change_handler_def)
  moreover obtain calls1 s1 where 1: "mute_clicked (set_volume_change_handler True sample_screen) = (calls1, s1)" by fastforce
  moreover obtain calls2 s2 where 2: "mute_clicked s1 = (calls2, s2)" by fastforce
  ultimately show ?thesis using mute_twice_restores [OF ok] by blast
qed

end
