(* ===== verification/DisplayTouch.thy ===== *)
theory DisplayTouch
  imports DeviceUi
begin

section \<open>Panel, touch and queues\<close>

text \<open>
  The panel scans portrait, the screen is landscape: a flush rotates, and the touch coordinates rotate back.
  The actions and the volume changes of the UI reach the actor through two bounded mailboxes.
\<close>

subsection \<open>Writing to a descriptor\<close>

declare fd_write_all.simps [simp del]

lemma fd_write_all_Cons: "data \<noteq> [] \<Longrightarrow> fd_write_all (w # ws) data =
    (case w of Fd_Interrupted \<Rightarrow> fd_write_all ws data | Fd_Failed \<Rightarrow> Some (False, [])
     | Fd_Wrote count \<Rightarrow> if count = 0 then Some (False, [])
         else map_option (\<lambda>(ok, out). (ok, take count data @ out)) (fd_write_all ws (drop count data)))"
  by (subst fd_write_all.simps) simp

text \<open>However the kernel cuts the data up, what was sent is a prefix of it, and all of it exactly when the call succeeds.\<close>

lemma fd_write_all_prefix:
  "fd_write_all ws data = Some (ok, out) \<Longrightarrow> (\<exists>rest. data = out @ rest \<and> (ok \<longrightarrow> rest = []))"
proof (induction ws arbitrary: data out)
  case Nil
  then show ?case by (simp add: fd_write_all.simps split: if_splits)
next
  case (Cons w ws)
  show ?case
  proof (cases "data = []")
    case True
    then show ?thesis using Cons.prems by (simp add: fd_write_all.simps)
  next
    case False
    show ?thesis
    proof (cases w)
      case (Fd_Wrote count)
      show ?thesis
      proof (cases "count = 0")
        case True
        then show ?thesis using Cons.prems False Fd_Wrote by (simp add: fd_write_all_Cons)
      next
        case nz: False
        then obtain out' where "fd_write_all ws (drop count data) = Some (ok, out')" "out = take count data @ out'"
          using Cons.prems False Fd_Wrote by (auto simp: fd_write_all_Cons)
        then show ?thesis using Cons.IH [of "drop count data" out'] by (metis append.assoc append_take_drop_id)
      qed
    qed (use Cons False in \<open>auto simp: fd_write_all_Cons\<close>)
  qed
qed

subsection \<open>Flushing\<close>

text \<open>The cells of a window of the panel in the order the controller fills them: row by row.\<close>

definition panel_scan :: "int \<Rightarrow> int \<Rightarrow> int \<Rightarrow> int \<Rightarrow> (int \<times> int) list" where
  "panel_scan column_start row_start column_end row_end =
     concat (map (\<lambda>row. map (\<lambda>column. (row, column)) [column_start..column_end]) [row_start..row_end])"

text \<open>The pixel of the screen a cell of the panel shows.\<close>

definition logical_of :: "int \<times> int \<Rightarrow> int \<times> int" where
  "logical_of c = (k_panel_height - 1 - fst c, snd c)"

definition window_ops :: "int \<Rightarrow> int \<Rightarrow> int \<Rightarrow> int \<Rightarrow> ui_io list" where
  "window_ops column_start row_start column_end row_end =
     [Io_Gpio Pin_Dc False, Io_Spi [0x2A], Io_Gpio Pin_Dc True, Io_Spi (be16 column_start @ be16 column_end),
      Io_Gpio Pin_Dc False, Io_Spi [0x2B], Io_Gpio Pin_Dc True, Io_Spi (be16 row_start @ be16 row_end),
      Io_Gpio Pin_Dc False, Io_Spi [0x2C], Io_Gpio Pin_Dc True]"

lemma ui_command_sent:
  "ui_command env cmd data tr = (True, tr') \<Longrightarrow>
   tr' = tr @ [Io_Gpio Pin_Dc False, Io_Spi [cmd]] @ (if data = [] then [] else [Io_Gpio Pin_Dc True, Io_Spi data])"
  by (auto simp: ui_command_def set_gpio_def io_do_def split: prod.splits bool.splits if_splits)

lemma set_window_sent:
  assumes "set_window env cs rs ce re tr = (True, tr')"
  shows "tr' = tr @ window_ops cs rs ce re"
proof -
  obtain tr1 tr2 tr3 where sent: "ui_command env 0x2A (be16 cs @ be16 ce) tr = (True, tr1)"
      "ui_command env 0x2B (be16 rs @ be16 re) tr1 = (True, tr2)"
      "ui_command env 0x2C [] tr2 = (True, tr3)" "set_gpio env Pin_Dc True tr3 = (True, tr')"
    using assms by (auto simp: set_window_def split: prod.splits bool.splits)
  then show ?thesis
    using ui_command_sent [OF sent(1)] ui_command_sent [OF sent(2)] ui_command_sent [OF sent(3)]
    by (simp add: window_ops_def set_gpio_def io_do_def be16_def)
qed

definition cell_bytes :: "area \<Rightarrow> u16 list \<Rightarrow> int \<times> int \<Rightarrow> bytes" where
  "cell_bytes a pixels c = pixel_bytes (pixels ! source_index a (fst c) (snd c))"

lemma length_cell_bytes [simp]: "length (cell_bytes a pixels c) = 2"
  by (simp add: cell_bytes_def pixel_bytes_def)

text \<open>The block buffer sends whole blocks and keeps the rest.\<close>

lemma flush_loop_sent:
  assumes "flush_loop env a pixels cells block tr = (True, rest, tr')" "even (length block)" "length block < k_block_bytes"
  shows "\<exists>blocks. tr' = tr @ map Io_Spi blocks \<and> (\<forall>b \<in> set blocks. length b = k_block_bytes) \<and>
    concat blocks @ rest = block @ concat (map (cell_bytes a pixels) cells) \<and> length rest < k_block_bytes"
  using assms
proof (induction cells arbitrary: block tr)
  case Nil
  then show ?case by (intro exI [of _ "[]"]) simp
next
  case (Cons c cells)
  obtain x y where c: "c = (x, y)" by fastforce
  define block1 where "block1 = block @ cell_bytes a pixels c"
  have len: "length block1 = length block + 2" by (simp add: block1_def)
  have step: "flush_loop env a pixels (c # cells) block tr =
      (if length block1 = k_block_bytes then
        (case io_do env (Io_Spi block1) tr of (False, tr1) \<Rightarrow> (False, [], tr1)
         | (True, tr1) \<Rightarrow> flush_loop env a pixels cells [] tr1)
       else flush_loop env a pixels cells block1 tr)"
    by (simp add: c block1_def cell_bytes_def Let_def)
  show ?case
  proof (cases "length block1 = k_block_bytes")
    case True
    then have "flush_loop env a pixels cells [] (tr @ [Io_Spi block1]) = (True, rest, tr')"
      using Cons.prems(1) step by (auto simp: io_do_def split: bool.splits)
    then obtain blocks where b: "tr' = (tr @ [Io_Spi block1]) @ map Io_Spi blocks" "\<forall>b \<in> set blocks. length b = k_block_bytes"
        "concat blocks @ rest = [] @ concat (map (cell_bytes a pixels) cells)" "length rest < k_block_bytes"
      using Cons.IH [of "[]" "tr @ [Io_Spi block1]"] by (auto simp: k_block_bytes_def)
    then show ?thesis using True by (intro exI [of _ "block1 # blocks"]) (simp add: block1_def)
  next
    case False
    moreover have "even (length block1)" "length block1 < k_block_bytes"
      using Cons.prems(2,3) len False by (auto simp: k_block_bytes_def elim!: evenE)
    ultimately show ?thesis using Cons.IH [of block1 tr] Cons.prems(1) step by (simp add: block1_def)
  qed
qed

lemma rev_rows: "map (\<lambda>x. k - x) (rev [x1..x2]) = [k - x2..k - (x1 :: int)]"
proof (rule nth_equalityI)
  fix i assume "i < length (map (\<lambda>x. k - x) (rev [x1..x2]))"
  then have i: "i < nat (x2 - x1 + 1)" by simp
  then have "rev [x1..x2] ! i = x1 + int (nat (x2 - x1 + 1) - Suc i)" by (simp add: rev_nth)
  then show "map (\<lambda>x. k - x) (rev [x1..x2]) ! i = [k - x2..k - x1] ! i" using i by simp
qed simp

lemma flush_cells_scan:
  "flush_cells x1 y1 x2 y2 = map logical_of (panel_scan y1 (k_panel_height - 1 - x2) y2 (k_panel_height - 1 - x1))"
proof -
  have "panel_scan y1 (k_panel_height - 1 - x2) y2 (k_panel_height - 1 - x1) =
      concat (map (\<lambda>row. map (\<lambda>column. (row, column)) [y1..y2]) (map (\<lambda>x. k_panel_height - 1 - x) (rev [x1..x2])))"
    by (simp only: panel_scan_def rev_rows)
  then show ?thesis by (simp add: flush_cells_def map_concat comp_def logical_of_def)
qed


lemma ui_command_works: "fst (ui_command (\<lambda>_. True) cmd data tr)"
  by (simp add: ui_command_def set_gpio_def io_do_def)

lemma set_window_works: "fst (set_window (\<lambda>_. True) cs rs ce re tr)"
proof -
  have c: "\<exists>tr'. ui_command (\<lambda>_. True) cmd data tr = (True, tr')" for cmd data tr
    using ui_command_works [of cmd data tr] by (cases "ui_command (\<lambda>_. True) cmd data tr") simp
  obtain tr1 where 1: "ui_command (\<lambda>_. True) 0x2A (be16 cs @ be16 ce) tr = (True, tr1)" using c by blast
  obtain tr2 where 2: "ui_command (\<lambda>_. True) 0x2B (be16 rs @ be16 re) tr1 = (True, tr2)" using c by blast
  obtain tr3 where 3: "ui_command (\<lambda>_. True) 0x2C [] tr2 = (True, tr3)" using c by blast
  show ?thesis unfolding set_window_def 1 2 3 prod.case bool.case by (simp add: set_gpio_def io_do_def)
qed

lemma flush_loop_works: "fst (flush_loop (\<lambda>_. True) a pixels cells block tr)"
  by (induction "\<lambda>_ :: nat. True" a pixels cells block tr rule: flush_loop.induct) (simp_all add: io_do_def Let_def)

lemma flush_succeeds: "fst (flush_area (\<lambda>_. True) a pixels tr)"
proof -
  define x1 y1 x2 y2 where "x1 = max 0 (ar_x1 a)" and "y1 = max 0 (ar_y1 a)" and "x2 = min (k_logical_width - 1) (ar_x2 a)"
    and "y2 = min (k_logical_height - 1) (ar_y2 a)"
  obtain tr1 where 1: "set_window (\<lambda>_. True) y1 (k_panel_height - 1 - x2) y2 (k_panel_height - 1 - x1) tr = (True, tr1)"
    using set_window_works by (metis prod.collapse)
  obtain block tr2 where 2: "flush_loop (\<lambda>_. True) a pixels (flush_cells x1 y1 x2 y2) [] tr1 = (True, block, tr2)"
    using flush_loop_works by (metis prod.collapse)
  show ?thesis
    unfolding flush_area_def Let_def x1_def [symmetric] y1_def [symmetric] x2_def [symmetric] y2_def [symmetric] 1 2 prod.case bool.case
    by (simp add: io_do_def)
qed


subsection \<open>The finger and the pixel\<close>

text \<open>\<open>pointer_ok\<close>: the pointer and the start of a gesture are pixels of the screen.\<close>

definition on_the_screen :: "int \<Rightarrow> int \<Rightarrow> bool" where
  "on_the_screen x y \<longleftrightarrow> 0 \<le> x \<and> x < k_logical_width \<and> 0 \<le> y \<and> y < k_logical_height"

definition pointer_ok :: "touch \<Rightarrow> bool" where
  "pointer_ok t \<longleftrightarrow> on_the_screen (t_pointer_x t) (t_pointer_y t) \<and> on_the_screen (t_start_x t) (t_start_y t)"

lemma clamp_bounds: "lo \<le> hi \<Longrightarrow> lo \<le> clamp v lo hi \<and> clamp v lo hi \<le> hi"
  by (simp add: clamp_def)

lemma pointer_steps [inv_intros]:
  "pointer_ok t \<Longrightarrow> pointer_ok (begin_touch t)"
  "pointer_ok t \<Longrightarrow> pointer_ok (start_gesture_if_ready t)"
  "pointer_ok t \<Longrightarrow> pointer_ok (t\<lparr>t_active := b\<rparr>)"
  "pointer_ok t \<Longrightarrow> pointer_ok (t\<lparr>t_slot := i\<rparr>)"
  "pointer_ok t \<Longrightarrow> pointer_ok (t\<lparr>t_pointer_y := clamp v 0 (k_panel_width - 1), t_have_y := b\<rparr>)"
  "pointer_ok t \<Longrightarrow> pointer_ok (t\<lparr>t_pointer_x := k_panel_height - 1 - clamp v 0 (k_panel_height - 1), t_have_x := b\<rparr>)"
  using clamp_bounds [of 0 "k_panel_width - 1" v] clamp_bounds [of 0 "k_panel_height - 1" v]
  by (auto simp: pointer_ok_def begin_touch_def start_gesture_if_ready_def on_the_screen_def k_panel_width_def k_panel_height_def
      k_logical_width_def k_logical_height_def)

lemma queue_action_touch [simp]: "u_touch (queue_action act u) = u_touch u"
  by (simp add: queue_action_def Let_def)

lemma end_touch_pointer: "u_touch (end_touch u) = (u_touch u)\<lparr>t_active := False\<rparr> \<or> u_touch (end_touch u) = u_touch u"
  by (simp add: end_touch_def Let_def split: option.split)

lemma end_touch_ok [inv_intros]: "pointer_ok (u_touch u) \<Longrightarrow> pointer_ok (u_touch (end_touch u))"
  using end_touch_pointer [of u] pointer_steps(3) by auto

lemma handle_input_ok [inv_intros]: "pointer_ok (u_touch u) \<Longrightarrow> pointer_ok (u_touch (handle_input ev u))"
  by (cases ev) (simp_all add: handle_input_def Let_def inv_intros split: if_split)

lemma read_event_input_ok [inv_intros]:
  "pointer_ok (u_touch u) \<Longrightarrow> pointer_ok (u_touch (snd (snd (read_event_input evs u))))"
  by (induction evs arbitrary: u) (simp_all add: Let_def handle_input_ok)

lemma poll_gt911_ok [inv_intros]: "pointer_ok (u_touch u) \<Longrightarrow> pointer_ok (u_touch (poll_gt911 status point u))"
proof -
  assume ok: "pointer_ok (u_touch u)"
  have io: "u_touch (read_gt911 r n v) = u_touch v" "u_touch (clear_gt911_status v) = u_touch v" for r n v
    by (simp_all add: read_gt911_def clear_gt911_status_def)
  define t1 where "t1 = (if \<not> t_active (u_touch u) then begin_touch (u_touch u) else u_touch u)"
  have "pointer_ok t1" using ok by (simp add: t1_def inv_intros)
  then have "pointer_ok (t1\<lparr>t_pointer_y := clamp v 0 (k_panel_width - 1), t_have_y := True,
      t_pointer_x := k_panel_height - 1 - clamp w 0 (k_panel_height - 1), t_have_x := True\<rparr>)" for v w
    using pointer_steps(6) [OF pointer_steps(5)] by blast
  then have "pointer_ok (t1\<lparr>t_pointer_y := clamp v 0 (k_panel_width - 1),
      t_pointer_x := k_panel_height - 1 - clamp w 0 (k_panel_height - 1), t_have_x := True, t_have_y := True\<rparr>)" for v w
    by (simp add: pointer_ok_def)
  then show ?thesis
    using ok pointer_steps(2) end_touch_ok [of "read_gt911 k_gt911_status 1 u"]
    by (simp add: poll_gt911_def Let_def io t1_def split: option.split)
qed

lemma raw_touch:
  assumes "0 \<le> row" "row < k_panel_height" "0 \<le> column" "column < k_panel_width"
  shows "(k_panel_height - 1 - clamp row 0 (k_panel_height - 1), clamp column 0 (k_panel_width - 1)) = logical_of (row, column)"
  using assms by (simp add: clamp_def logical_of_def)

lemma start_gesture_pointer [simp]:
  "t_pointer_x (start_gesture_if_ready t) = t_pointer_x t" "t_pointer_y (start_gesture_if_ready t) = t_pointer_y t"
  "t_slot (start_gesture_if_ready t) = t_slot t"
  by (simp_all add: start_gesture_if_ready_def)

text \<open>A touch lands on the pixel it sees: a finger at a cell of the panel moves the pointer to the pixel of the screen
  that a flush puts into that cell, whether the position comes as kernel events or from polling the controller.\<close>

theorem touch_matches_panel:
  assumes "0 \<le> row" and "row < k_panel_height" and "0 \<le> column" and "column < k_panel_width"
    and "t_slot (u_touch u) = 0"
    and "st AND 0x80 \<noteq> 0" and "0 < unat (st AND 0x0F)" and "unat (st AND 0x0F) \<le> 5"
    and "raw16 bs 1 = column" and "raw16 bs 3 = row"
  shows "let t = u_touch (handle_input (Ev_Y row) (handle_input (Ev_X column) u));
             t' = u_touch (poll_gt911 (Some st) (Some bs) u)
         in (t_pointer_x t, t_pointer_y t) = logical_of (row, column) \<and>
            (t_pointer_x t', t_pointer_y t') = logical_of (row, column)"
proof -
  note c = raw_touch [OF assms(1-4)]
  have "(t_pointer_x t, t_pointer_y t) = logical_of (row, column)"
    if "t = u_touch (handle_input (Ev_Y row) (handle_input (Ev_X column) u))" for t
    using assms(5) c that by (simp add: handle_input_def Let_def)
  moreover have "(t_pointer_x t, t_pointer_y t) = logical_of (row, column)"
    if "t = u_touch (poll_gt911 (Some st) (Some bs) u)" for t
    using assms(6-10) c that by (simp add: poll_gt911_def Let_def clear_gt911_status_def read_gt911_def)
  ultimately show ?thesis by (simp add: Let_def)
qed

theorem touch_matches_panel_witness:
  "let t = u_touch (handle_input (Ev_Y 300) (handle_input (Ev_X 20) new_device_ui));
       t' = u_touch (poll_gt911 (Some 0x81) (Some [0, 20, 0, 44, 1, 0, 0, 0]) new_device_ui)
   in (t_pointer_x t, t_pointer_y t) = logical_of (300, 20) \<and> (t_pointer_x t', t_pointer_y t') = logical_of (300, 20)"
  by (rule touch_matches_panel)
    (simp_all add: k_panel_height_def k_panel_width_def new_device_ui_def no_touch_def raw16_def)

text \<open>What the descriptor delivers over time: any answers, in any order.\<close>

definition read_inputs :: "input_answer list \<Rightarrow> device_ui \<Rightarrow> device_ui" where
  "read_inputs answers u = fold (\<lambda>ans u. snd (snd (read_input ans u))) answers u"

lemma read_input_ok [inv_intros]: "pointer_ok (u_touch u) \<Longrightarrow> pointer_ok (u_touch (snd (snd (read_input ans u))))"
  using read_event_input_ok [of u "ia_events ans"] poll_gt911_ok [of u]
  by (auto simp: read_input_def Let_def split: touch_backend.split prod.split)

interpretation pointer_runs: invariant_system "\<lambda>ans u. snd (snd (read_input ans u))" "\<lambda>u. pointer_ok (u_touch u)"
  by unfold_locales (rule read_input_ok)

lemma new_pointer_ok: "pointer_ok no_touch"
  by (simp add: pointer_ok_def no_touch_def on_the_screen_def k_logical_width_def k_logical_height_def)

text \<open>LVGL never gets a pointer outside the screen: whatever a touch controller sends from the start on, events of any
  kind and value or any register contents, the reported point is a pixel of the 320x240 screen.\<close>

theorem pointer_stays_on_screen:
  assumes "u_touch u = no_touch"
  shows "let d = fst (read_input ans (read_inputs answers u)) in on_the_screen (in_x d) (in_y d)"
proof -
  have "pointer_ok (u_touch (snd (snd (read_input ans (read_inputs answers u)))))"
    unfolding read_inputs_def using read_input_ok pointer_runs.inv_fold new_pointer_ok assms by simp
  then show ?thesis
    by (auto simp: read_input_def indev_point_def pointer_ok_def Let_def split: touch_backend.splits prod.splits)
qed

theorem pointer_stays_on_screen_witness:
  "let d = fst (read_input \<lparr>ia_events = [Ev_Tracking 1, Ev_X 5000, Ev_Y (- 7), Ev_Report], ia_status = None, ia_point = None\<rparr>
     (read_inputs [] (new_device_ui\<lparr>u_touch_backend := Touch_Event\<rparr>))) in on_the_screen (in_x d) (in_y d)"
  by (rule pointer_stays_on_screen) (simp add: new_device_ui_def)

subsection \<open>The two mailboxes\<close>

definition actions_ok :: "device_ui \<Rightarrow> bool" where
  "actions_ok u \<longleftrightarrow> length (u_actions u) = k_action_capacity \<and> u_action_head u < k_action_capacity \<and>
     u_action_count u \<le> k_action_capacity"

definition waiting_actions :: "device_ui \<Rightarrow> device_ui_action list" where
  "waiting_actions u = ring_list (u_actions u) (u_action_head u) (u_action_count u)"

lemma queue_action_valid: "actions_ok u \<Longrightarrow> actions_ok (queue_action act u)"
  by (auto simp: actions_ok_def queue_action_def Let_def k_action_capacity_def)

lemma queue_action_contents:
  assumes "actions_ok u"
  shows "waiting_actions (queue_action act u) =
    (if length (waiting_actions u) = k_action_capacity then tl (waiting_actions u) else waiting_actions u) @ [act]"
proof (cases "u_action_count u = k_action_capacity")
  case True
  define h c where "h = (u_action_head u + 1) mod length (u_actions u)" and "c = u_action_count u - 1"
  have ok: "u_action_head u < length (u_actions u)" "0 < u_action_count u" "u_action_count u \<le> length (u_actions u)"
      "c < length (u_actions u)"
    using assms True by (simp_all add: actions_ok_def c_def k_action_capacity_def)
  have "queue_action act u = u\<lparr>u_action_head := h, u_action_count := Suc c, u_actions := (u_actions u)[(h + c) mod length (u_actions u) := act]\<rparr>"
    using assms True by (simp add: queue_action_def actions_ok_def h_def c_def Let_def)
  moreover have "ring_list (u_actions u) (u_action_head u) (u_action_count u) = u_actions u ! u_action_head u # ring_list (u_actions u) h c"
    using ring_list_pop [OF ok(1-3), of "u_actions u ! u_action_head u"] by (simp add: h_def c_def)
  moreover have "Suc c = k_action_capacity" using True ok(2) by (simp add: c_def)
  ultimately show ?thesis
    using True ring_list_push [OF ok(4), of h act] by (simp add: waiting_actions_def)
next
  case False
  then have "u_action_count u < length (u_actions u)" using assms by (simp add: actions_ok_def)
  then show ?thesis
    using False assms ring_list_push [of "u_action_count u" "u_actions u" "u_action_head u" act]
    by (simp add: waiting_actions_def queue_action_def actions_ok_def Let_def)
qed

lemma poll_action_contents:
  assumes "actions_ok u" "poll_action u = Some (act, u')"
  shows "actions_ok u' \<and> waiting_actions u = act # waiting_actions u'"
proof -
  have ok: "u_action_head u < length (u_actions u)" "0 < u_action_count u" "u_action_count u \<le> length (u_actions u)"
    using assms by (auto simp: actions_ok_def poll_action_def split: if_splits)
  show ?thesis
    using assms ring_list_pop [OF ok, of "u_actions u ! u_action_head u"]
    by (auto simp: poll_action_def actions_ok_def waiting_actions_def k_action_capacity_def split: if_splits)
qed

interpretation aq: newest_queue actions_ok waiting_actions k_action_capacity queue_action poll_action
proof unfold_locales
  show "0 < k_action_capacity" by (simp add: k_action_capacity_def)
  show "actions_ok q \<Longrightarrow> length (waiting_actions q) \<le> k_action_capacity" for q
    by (simp add: actions_ok_def waiting_actions_def)
  show "poll_action q = None \<longleftrightarrow> waiting_actions q = []" for q
    by (simp add: poll_action_def waiting_actions_def ring_list_def)
qed (fact queue_action_valid queue_action_contents poll_action_contents)+

text \<open>The actor polls until nothing is waiting.\<close>

fun poll_actions :: "nat \<Rightarrow> device_ui \<Rightarrow> device_ui_action list" where
  "poll_actions 0 u = []"
| "poll_actions (Suc n) u = (case poll_action u of None \<Rightarrow> [] | Some (act, u') \<Rightarrow> act # poll_actions n u')"

lemma poll_actions_drain: "poll_actions n u = aq.drain n u"
  by (induction n arbitrary: u) (auto split: option.split)

text \<open>No touch action is stale or reordered: of all actions queued since the mailbox was empty the actor gets the last
  eight, oldest first.\<close>

theorem newest_actions_kept:
  assumes "actions_ok u" and "waiting_actions u = []"
  shows "poll_actions k_action_capacity (fold queue_action acts u) = drop (length acts - k_action_capacity) acts"
  unfolding poll_actions_drain by (rule aq.newest_out [OF assms])

theorem newest_actions_kept_witness:
  "poll_actions k_action_capacity (fold queue_action (Act_Wake # replicate 7 Act_VolumeUp @ [Act_Interrupt]) new_device_ui) =
   replicate 7 Act_VolumeUp @ [Act_Interrupt]"
proof -
  have "actions_ok new_device_ui" "waiting_actions new_device_ui = []"
    by (simp_all add: actions_ok_def waiting_actions_def new_device_ui_def k_action_capacity_def)
  from newest_actions_kept [OF this, of "Act_Wake # replicate 7 Act_VolumeUp @ [Act_Interrupt]"] show ?thesis
    by (simp add: k_action_capacity_def)
qed

text \<open>The slider cannot flood the actor: after any number of volume changes since the last poll, one poll gives the last value, at
  most 100, and whether any of them was to be kept; the next poll gives nothing.\<close>

theorem volume_changes_merge:
  assumes "changes \<noteq> []"
    and "poll_volume_change (fold (\<lambda>(v, keep). queue_volume_change v keep) changes (u\<lparr>u_volume_committed := False\<rparr>)) = Some ((v, keep), u')"
  shows "v = min (fst (last changes)) 100 \<and> keep = (\<exists>c \<in> set changes. snd c) \<and> poll_volume_change u' = None"
proof -
  have merge: "changes \<noteq> [] \<Longrightarrow> u_volume_pending (fold (\<lambda>(v, keep). queue_volume_change v keep) changes w) \<and>
      u_pending_volume (fold (\<lambda>(v, keep). queue_volume_change v keep) changes w) = min (fst (last changes)) 100 \<and>
      u_volume_committed (fold (\<lambda>(v, keep). queue_volume_change v keep) changes w) = (u_volume_committed w \<or> (\<exists>c \<in> set changes. snd c))" for w
  proof (induction changes arbitrary: w)
    case (Cons c cs)
    then show ?case by (cases "cs = []"; cases c) (auto simp: queue_volume_change_def)
  qed simp
  show ?thesis
    using assms(2) merge [OF assms(1), of "u\<lparr>u_volume_committed := False\<rparr>"] by (auto simp: poll_volume_change_def)
qed

theorem volume_changes_merge_witness:
  "\<exists>u'. poll_volume_change (fold (\<lambda>(v, keep). queue_volume_change v keep) [(10, False), (120, True), (55, False)]
      (new_device_ui\<lparr>u_volume_committed := False\<rparr>)) = Some ((55, True), u') \<and> poll_volume_change u' = None"
proof -
  obtain v keep u' where p: "poll_volume_change (fold (\<lambda>(v, keep). queue_volume_change v keep) [(10, False), (120, True), (55, False)]
      (new_device_ui\<lparr>u_volume_committed := False\<rparr>)) = Some ((v, keep), u')"
    by (simp add: poll_volume_change_def queue_volume_change_def)
  have "min 55 100 = (55 :: u8)" by simp
  then show ?thesis using volume_changes_merge [OF _ p] p by auto
qed

end
