(* ===== verification/DeviceRuns.thy ===== *)
theory DeviceRuns
  imports ScreenProps DisplayTouch
begin

section \<open>The UI thread and the actor together\<close>

text \<open>
  The state under the mutex is changed by the actor, by the camera worker and by the UI thread; their
  critical sections are the events below, in any order. What LVGL does after a snapshot is an event of its own,
  so that calls of the actor fall between the snapshot, the callbacks and the next snapshot.
\<close>

datatype ui_event =
    Ue_Pass pass_env | Ue_Lvgl io_env local_time lv_action
  | Ue_State device_ui_state | Ue_Text string string | Ue_Volume u8 | Ue_Brightness io_env u8
  | Ue_Poll | Ue_PollVolume | Ue_Frame bytes

text \<open>\<open>None\<close>: the UI thread waits forever in a join.\<close>

fun ui_step :: "(nat \<Rightarrow> bool) \<Rightarrow> ui_event \<Rightarrow> device_ui \<Rightarrow> device_ui option" where
  "ui_step glyph (Ue_Pass e) u = ui_pass glyph e u"
| "ui_step glyph (Ue_Lvgl env now act) u = Some (lv_dispatch env now act u)"
| "ui_step glyph (Ue_State st) u = ui_set_state st (Some u)"
| "ui_step glyph (Ue_Text a b) u = ui_set_text a b (Some u)"
| "ui_step glyph (Ue_Volume v) u = ui_set_volume v (Some u)"
| "ui_step glyph (Ue_Brightness env v) u = ui_set_brightness env v (Some u)"
| "ui_step glyph Ue_Poll u = (case ui_poll_action (Some u) of None \<Rightarrow> Some u | Some (_, d) \<Rightarrow> d)"
| "ui_step glyph Ue_PollVolume u = (case ui_poll_volume_change (Some u) of None \<Rightarrow> Some u | Some (_, d) \<Rightarrow> d)"
| "ui_step glyph (Ue_Frame bs) u = Some (publish_frame bs u)"

fun ui_run :: "(nat \<Rightarrow> bool) \<Rightarrow> ui_event list \<Rightarrow> device_ui \<Rightarrow> device_ui option" where
  "ui_run glyph [] u = Some u"
| "ui_run glyph (ev # evs) u = (case ui_step glyph ev u of None \<Rightarrow> None | Some u1 \<Rightarrow> ui_run glyph evs u1)"

subsection \<open>What the screen shows\<close>

definition shown_text :: "screen \<Rightarrow> bool \<times> string" where
  "shown_text s = (s_has_text s, if s_has_text s then s_text s else [])"

definition text_of_lines :: "(nat \<Rightarrow> bool) \<Rightarrow> string \<times> string \<Rightarrow> bool \<times> string" where
  "text_of_lines glyph lines = (let first = c_string (fst lines); second = c_string (snd lines);
       joined = (if second = [] then first else if first = [] then second else first @ [CHR 0x0A] @ second);
       shown = supported_text glyph joined
     in (shown \<noteq> [], c_string shown))"

lemma shown_set_text: "s_built s \<Longrightarrow> shown_text (set_text glyph (c_string (fst l)) (c_string (snd l)) s) = text_of_lines glyph l"
  by (auto simp: shown_text_def set_text_def text_of_lines_def Let_def c_string_def)

lemma shown_motion [frame_simps]:
  "shown_text (stop_home_orb_motion s) = shown_text s" "shown_text (start_home_orb_motion s) = shown_text s"
  "shown_text (stop_orb_motion s) = shown_text s" "shown_text (start_orb_motion s) = shown_text s"
  by (simp_all add: shown_text_def frame_simps)

lemma shown_updates [frame_simps]:
  "shown_text (s\<lparr>s_visible := vis\<rparr>) = shown_text s" "shown_text (s\<lparr>s_page := p\<rparr>) = shown_text s"
  "shown_text (s\<lparr>s_current_app := i\<rparr>) = shown_text s" "shown_text (s\<lparr>s_state := st\<rparr>) = shown_text s"
  "shown_text (s\<lparr>s_slider := v\<rparr>) = shown_text s"
  by (simp_all add: shown_text_def)

lemma shown_operations [frame_simps]:
  "shown_text (update_voice s) = shown_text s" "shown_text (update_clock now s) = shown_text s"
  "shown_text (fill_generic i s) = shown_text s" "shown_text (set_volume v s) = shown_text s"
  "shown_text (set_camera_frame pixels s) = shown_text s"
  by (simp_all add: shown_text_def update_voice_def update_clock_def fill_generic_def set_volume_def set_camera_frame_def
      Let_def frame_simps split: prod.split)

lemma shown_home [frame_simps]: "shown_text (snd (show_home s)) = shown_text s"
  by (simp add: show_home_def Let_def frame_simps)

lemma shown_app [frame_simps]: "shown_text (snd (show_app now i s)) = shown_text s"
  by (simp add: show_app_def Let_def frame_simps)

lemma snd_set_state: "snd (set_state now st s) = update_voice
    (if st \<in> {Ui_Listening, Ui_Thinking, Ui_Speaking, Ui_Happy, Ui_SpeakingTail} \<and> s_page s = Page_Home
     then snd (show_app now 0 (s\<lparr>s_state := st\<rparr>)) else s\<lparr>s_state := st\<rparr>)"
  by (simp add: set_state_def Let_def split: prod.split)

lemma snd_app_clicked: "snd (app_clicked now target s) = (case target of None \<Rightarrow> s | Some i \<Rightarrow> snd (show_app now i s))"
  by (simp add: app_clicked_def split: option.split prod.split)

lemma snd_voice_clicked: "snd (voice_clicked now s) = (if s_state s = Ui_Speaking then snd (set_state now Ui_Listening s) else s)"
  by (simp add: voice_clicked_def Let_def split: prod.split)

lemma shown_state [frame_simps]: "shown_text (snd (set_state now st s)) = shown_text s"
  by (simp add: snd_set_state frame_simps)

text \<open>What every callback of a widget keeps.\<close>

definition widget_op :: "(screen \<Rightarrow> screen_call list \<times> screen) \<Rightarrow> bool" where
  "widget_op f \<longleftrightarrow> (\<forall>s. screen_ok s \<longrightarrow> screen_ok (snd (f s)) \<and> camera_follows s (f s) \<and> shown_text (snd (f s)) = shown_text s \<and>
     (s_state (snd (f s)) = s_state s \<or> s_state s = Ui_Speaking \<and> s_state (snd (f s)) = Ui_Listening))"

lemma state_show_home [frame_simps]: "s_state (snd (show_home s)) = s_state s"
  by (simp add: show_home_def Let_def frame_simps)

lemma state_show_app [frame_simps]: "s_state (snd (show_app now i s)) = s_state s"
  by (simp add: show_app_def Let_def frame_simps)

lemma state_set_state: "s_state (snd (set_state now st s)) = st"
  by (simp add: snd_set_state frame_simps)

lemma widget_home: "widget_op back_clicked"
  by (simp add: widget_op_def back_clicked_def show_home_ok show_home_camera frame_simps)

lemma widget_app: "widget_op (app_clicked now target)"
  unfolding widget_op_def using app_clicked_ok app_clicked_camera
  by (auto simp: snd_app_clicked frame_simps split: option.split)

lemma widget_mute: "widget_op mute_clicked"
  using mute_clicked_ok by (simp add: widget_op_def mute_clicked_def Let_def camera_quiet frame_simps)

lemma widget_slider: "widget_op (volume_changed ev v)"
  using volume_changed_ok [of _ ev v] by (simp add: widget_op_def volume_changed_def Let_def camera_quiet frame_simps)

lemma widget_orb: "widget_op (voice_clicked now)"
  unfolding widget_op_def using voice_clicked_ok voice_clicked_camera
  by (auto simp: snd_voice_clicked frame_simps state_set_state)

lemma widget_action: "widget_op app_action_clicked"
  by (simp add: widget_op_def app_action_clicked_def camera_quiet)

lemma widget_clock: "widget_op (\<lambda>s. ([], clock_tick now s))"
  by (simp add: widget_op_def clock_tick_def camera_quiet frame_simps update_clock_ok)

lemmas widget_ops = widget_home widget_app widget_mute widget_slider widget_orb widget_action widget_clock

subsection \<open>The invariant\<close>

definition page_ok :: "device_ui \<Rightarrow> bool" where
  "page_ok u \<longleftrightarrow> screen_ok (u_screen u) \<and> s_on_camera (u_screen u) \<and>
     u_camera_requested u = (s_page (u_screen u) = Page_Camera)"

definition camera_ok :: "device_ui \<Rightarrow> bool" where
  "camera_ok u \<longleftrightarrow> (u_camera_running u \<and> \<not> u_camera_request_dirty u \<longrightarrow> u_camera_requested u)"

text \<open>The one way the screen may differ: a click on the speaking orb shows listening at once, before the actor agrees.\<close>

definition state_shown :: "device_ui \<Rightarrow> bool" where
  "state_shown u \<longleftrightarrow> s_state (u_screen u) = u_state u \<or> u_state u = Ui_Speaking \<and> s_state (u_screen u) = Ui_Listening"

definition text_shown :: "(nat \<Rightarrow> bool) \<Rightarrow> device_ui \<Rightarrow> bool" where
  "text_shown glyph u \<longleftrightarrow> shown_text (u_screen u) = text_of_lines glyph (u_lines u)"

definition ui_ok :: "(nat \<Rightarrow> bool) \<Rightarrow> device_ui \<Rightarrow> bool" where
  "ui_ok glyph u \<longleftrightarrow> page_ok u \<and> camera_ok u \<and> (\<not> u_state_dirty u \<longrightarrow> state_shown u) \<and>
     (\<not> u_text_dirty u \<longrightarrow> text_shown glyph u)"

lemmas ui_ok_defs = ui_ok_def page_ok_def camera_ok_def state_shown_def text_shown_def

text \<open>The fields the invariant is about. Everything else may change.\<close>

definition ui_view :: "device_ui \<Rightarrow> screen \<times> bool \<times> bool \<times> device_ui_state \<times> (string \<times> string) \<times> bool \<times> bool \<times> bool" where
  "ui_view u = (u_screen u, u_state_dirty u, u_text_dirty u, u_state u, u_lines u, u_camera_requested u,
     u_camera_request_dirty u, u_camera_running u)"

lemma ui_ok_view: "ui_view u = ui_view v \<Longrightarrow> ui_ok glyph u = ui_ok glyph v"
  by (simp add: ui_view_def ui_ok_defs)

lemma queue_action_view: "ui_view (queue_action act u) = ui_view u"
  by (simp add: queue_action_def ui_view_def Let_def)

lemma volume_called_view: "ui_view (screen_volume_changed v phase u) = ui_view u"
  by (simp add: screen_volume_changed_def queue_volume_change_def ui_view_def Let_def)

lemma called_fields:
  "u_screen (screen_called c u) = u_screen u" "u_state_dirty (screen_called c u) = u_state_dirty u"
  "u_text_dirty (screen_called c u) = u_text_dirty u" "u_state (screen_called c u) = u_state u"
  "u_lines (screen_called c u) = u_lines u" "u_camera_running (screen_called c u) = u_camera_running u"
  using queue_action_view [of _ u] volume_called_view [of _ _ u]
  by (cases c; simp add: ui_view_def voice_interrupted_def app_action_def camera_activity_def)+

lemma calls_fields:
  "u_screen (fold screen_called cs u) = u_screen u" "u_state_dirty (fold screen_called cs u) = u_state_dirty u"
  "u_text_dirty (fold screen_called cs u) = u_text_dirty u" "u_state (fold screen_called cs u) = u_state u"
  "u_lines (fold screen_called cs u) = u_lines u" "u_camera_running (fold screen_called cs u) = u_camera_running u"
  by (induction cs arbitrary: u) (simp_all add: called_fields)

text \<open>Requests that switch reach the flag one by one.\<close>

lemma calls_camera:
  "switches (u_camera_requested u) (camera_calls cs) = Some b \<Longrightarrow>
   u_camera_requested (fold screen_called cs u) = b \<and>
   u_camera_request_dirty (fold screen_called cs u) = (u_camera_request_dirty u \<or> camera_calls cs \<noteq> [])"
proof (induction cs arbitrary: u)
  case (Cons c cs)
  show ?case
  proof (cases "\<exists>b. c = On_Camera b")
    case True
    then obtain r where r: "c = On_Camera r" by blast
    then have "r \<noteq> u_camera_requested u" "switches r (camera_calls cs) = Some b" using Cons.prems by (auto split: if_splits)
    then show ?thesis using Cons.IH [of "screen_called c u"] r by (simp add: camera_activity_def)
  next
    case False
    then have "camera_calls (c # cs) = camera_calls cs" by (cases c) auto
    moreover have "u_camera_requested (screen_called c u) = u_camera_requested u \<and>
        u_camera_request_dirty (screen_called c u) = u_camera_request_dirty u"
      using False queue_action_view [of _ u] volume_called_view [of _ _ u]
      by (cases c) (auto simp: ui_view_def voice_interrupted_def app_action_def)
    ultimately show ?thesis using Cons by simp
  qed
qed simp

text \<open>A callback keeps the invariant; an operation of the screen that follows the pages keeps its first two parts.\<close>

lemma on_screen_parts:
  assumes "page_ok u" "camera_ok u" "screen_ok (snd (f (u_screen u)))" "camera_follows (u_screen u) (f (u_screen u))"
  shows "page_ok (on_screen f u) \<and> camera_ok (on_screen f u) \<and> u_screen (on_screen f u) = snd (f (u_screen u)) \<and>
    u_state (on_screen f u) = u_state u \<and> u_lines (on_screen f u) = u_lines u \<and>
    u_state_dirty (on_screen f u) = u_state_dirty u \<and> u_text_dirty (on_screen f u) = u_text_dirty u"
proof -
  obtain cs t where f: "f (u_screen u) = (cs, t)" by fastforce
  have r: "on_screen f u = fold screen_called cs (u\<lparr>u_screen := t\<rparr>)" by (simp add: on_screen_def f)
  have sw: "switches (u_camera_requested (u\<lparr>u_screen := t\<rparr>)) (camera_calls cs) = Some (s_page t = Page_Camera)" "s_on_camera t"
    using assms(1,4) by (simp_all add: page_ok_def camera_follows_def f)
  note cc = calls_camera [OF sw(1)]
  have "page_ok (on_screen f u)" using cc sw(2) assms(3) by (simp add: page_ok_def r calls_fields f)
  moreover have "camera_ok (on_screen f u)"
    using cc sw(1) assms(2) by (auto simp: camera_ok_def r calls_fields)
  ultimately show ?thesis by (simp add: r calls_fields f)
qed

lemma on_screen_ok:
  assumes "widget_op f" "ui_ok glyph u"
  shows "ui_ok glyph (on_screen f u)"
proof -
  have w: "screen_ok (snd (f (u_screen u)))" "camera_follows (u_screen u) (f (u_screen u))"
      "shown_text (snd (f (u_screen u))) = shown_text (u_screen u)"
      "s_state (snd (f (u_screen u))) = s_state (u_screen u) \<or>
       s_state (u_screen u) = Ui_Speaking \<and> s_state (snd (f (u_screen u))) = Ui_Listening"
    using assms by (simp_all add: widget_op_def ui_ok_def page_ok_def)
  have p: "page_ok u" "camera_ok u" using assms(2) by (simp_all add: ui_ok_def)
  show ?thesis
    using on_screen_parts [where f = f, OF p w(1,2)] w(3,4) assms(2) by (auto simp: ui_ok_def state_shown_def text_shown_def)
qed

lemma flush_display_view: "ui_view (flush_display env a pixels u) = ui_view u"
  by (simp add: flush_display_def fail_display_def ui_view_def Let_def split: prod.split)

lemma end_touch_view: "ui_view (end_touch u) = ui_view u"
proof -
  have "ui_view (queue_action act (u\<lparr>u_touch := t\<rparr>)) = ui_view u" for act t
    unfolding queue_action_view by (simp add: ui_view_def)
  moreover have "ui_view (u\<lparr>u_touch := t\<rparr>) = ui_view u" for t by (simp add: ui_view_def)
  ultimately show ?thesis by (simp add: end_touch_def Let_def split: option.split)
qed

lemma touch_view: "ui_view (u\<lparr>u_touch := t\<rparr>) = ui_view u" "ui_view (u\<lparr>u_io := tr\<rparr>) = ui_view u"
  by (simp_all add: ui_view_def)

lemma handle_input_view: "ui_view (handle_input ev u) = ui_view u"
  by (cases ev) (simp_all add: handle_input_def Let_def touch_view end_touch_view)

lemma read_event_input_view: "ui_view (snd (snd (read_event_input evs u))) = ui_view u"
  by (induction evs arbitrary: u) (simp_all add: Let_def handle_input_view)

lemma poll_gt911_view: "ui_view (poll_gt911 status point u) = ui_view u"
  by (simp add: poll_gt911_def read_gt911_def clear_gt911_status_def Let_def touch_view end_touch_view split: option.split)

lemma read_input_view: "ui_view (snd (snd (read_input ans u))) = ui_view u"
  using read_event_input_view [of "ia_events ans" u]
  by (auto simp: read_input_def Let_def poll_gt911_view split: touch_backend.split prod.split)

lemma lv_dispatch_ok: "ui_ok glyph u \<Longrightarrow> ui_ok glyph (lv_dispatch env now act u)"
  using ui_ok_view [OF read_input_view, of glyph _ u] ui_ok_view [OF flush_display_view, of glyph env _ _ u] widget_ops
  by (cases act) (auto intro: on_screen_ok)

text \<open>The pieces of a pass. \<open>same_flags\<close>: what none of them changes.\<close>

definition same_flags :: "device_ui \<Rightarrow> device_ui \<Rightarrow> bool" where
  "same_flags u v \<longleftrightarrow> u_state v = u_state u \<and> u_lines v = u_lines u \<and> u_state_dirty v = u_state_dirty u \<and>
     u_text_dirty v = u_text_dirty u"

lemma present_state_parts:
  assumes "page_ok u" "camera_ok u"
  shows "page_ok (present_state now u) \<and> camera_ok (present_state now u) \<and> same_flags u (present_state now u) \<and>
    state_shown (present_state now u) \<and> (text_shown glyph u \<longrightarrow> text_shown glyph (present_state now u))"
proof -
  have "screen_ok (snd (set_state now (u_state u) (u_screen u)))" using assms(1) set_state_ok by (simp add: page_ok_def)
  from on_screen_parts [where f = "set_state now (u_state u)", OF assms this set_state_camera]
  show ?thesis by (simp add: present_state_def same_flags_def state_shown_def text_shown_def state_set_state frame_simps)
qed

lemma present_text_parts:
  assumes "page_ok u" "camera_ok u"
  shows "page_ok (present_text glyph u) \<and> camera_ok (present_text glyph u) \<and> same_flags u (present_text glyph u) \<and>
    text_shown glyph (present_text glyph u) \<and> (state_shown u \<longrightarrow> state_shown (present_text glyph u))"
proof -
  have b: "s_built (u_screen u)" using assms(1) by (simp add: page_ok_def screen_ok_def nav_ok_def)
  have "s_page (set_text glyph a c t) = s_page t" "s_on_camera (set_text glyph a c t) = s_on_camera t"
      "s_state (set_text glyph a c t) = s_state t" for a c t
    by (simp_all add: set_text_def Let_def)
  then show ?thesis
    using assms set_text_ok shown_set_text [OF b]
    by (simp add: present_text_def page_ok_def camera_ok_def same_flags_def text_shown_def state_shown_def)
qed

lemma screen_update_parts:
  assumes "page_ok u" "screen_ok t" "s_page t = s_page (u_screen u)" "s_on_camera t = s_on_camera (u_screen u)"
    "s_state t = s_state (u_screen u)" "shown_text t = shown_text (u_screen u)"
  shows "page_ok (u\<lparr>u_screen := t\<rparr>) \<and> (camera_ok (u\<lparr>u_screen := t\<rparr>) = camera_ok u) \<and> same_flags u (u\<lparr>u_screen := t\<rparr>) \<and>
    (state_shown (u\<lparr>u_screen := t\<rparr>) = state_shown u) \<and> (text_shown glyph (u\<lparr>u_screen := t\<rparr>) = text_shown glyph u)"
  using assms by (simp add: page_ok_def camera_ok_def same_flags_def state_shown_def text_shown_def)

lemma present_volume_parts:
  assumes "page_ok u"
  shows "page_ok (present_volume u) \<and> (camera_ok (present_volume u) = camera_ok u) \<and> same_flags u (present_volume u) \<and>
    (state_shown (present_volume u) = state_shown u) \<and> (text_shown glyph (present_volume u) = text_shown glyph u)"
  unfolding present_volume_def
  by (rule screen_update_parts [OF assms]) (use assms set_volume_ok in \<open>simp_all add: page_ok_def frame_simps\<close>)

lemma camera_frame_frame [frame_simps]:
  "s_page (set_camera_frame pixels s) = s_page s" "s_on_camera (set_camera_frame pixels s) = s_on_camera s"
  "s_state (set_camera_frame pixels s) = s_state s"
  by (simp_all add: set_camera_frame_def)

lemma camera_frame_parts:
  assumes "page_ok u"
  shows "page_ok (u\<lparr>u_screen := set_camera_frame pixels (u_screen u)\<rparr>) \<and>
    (camera_ok (u\<lparr>u_screen := set_camera_frame pixels (u_screen u)\<rparr>) = camera_ok u) \<and>
    same_flags u (u\<lparr>u_screen := set_camera_frame pixels (u_screen u)\<rparr>) \<and>
    (state_shown (u\<lparr>u_screen := set_camera_frame pixels (u_screen u)\<rparr>) = state_shown u) \<and>
    (text_shown glyph (u\<lparr>u_screen := set_camera_frame pixels (u_screen u)\<rparr>) = text_shown glyph u)"
  by (rule screen_update_parts [OF assms])
    (use assms set_camera_frame_ok in \<open>simp_all add: page_ok_def frame_simps\<close>)

text \<open>The snapshot of a pass: after it nothing is dirty and the screen shows the state and the lines.\<close>

definition pass_camera :: "pass_env \<Rightarrow> device_ui \<Rightarrow> device_ui option" where
  "pass_camera e u = (let u1 = u\<lparr>u_state_dirty := False, u_text_dirty := False, u_volume_dirty := False,
       u_camera_request_dirty := False, u_camera_frame_dirty := False\<rparr>
     in if u_camera_request_dirty u then
          if u_camera_requested u then start_camera (pe_camera_ended e) (pe_thread_ok e) u1 else Some (stop_camera u1)
        else Some u1)"

definition pass_show :: "(nat \<Rightarrow> bool) \<Rightarrow> pass_env \<Rightarrow> device_ui \<Rightarrow> device_ui \<Rightarrow> device_ui" where
  "pass_show glyph e u u2 = (let
       u3 = (if u_state_dirty u then present_state (pe_now e) u2 else u2);
       u4 = (if u_text_dirty u then present_text glyph u3 else u3);
       u5 = (if u_volume_dirty u then present_volume u4 else u4)
     in if u_camera_frame_dirty u \<and> u_camera_requested u
        then u5\<lparr>u_screen := set_camera_frame (u_camera_frame u) (u_screen u5)\<rparr> else u5)"

lemma ui_pass_split:
  "ui_pass glyph e u = (case pass_camera e u of None \<Rightarrow> None
   | Some u2 \<Rightarrow> Some (fold (lv_dispatch (pe_io e) (pe_now e)) (pe_actions e) (pass_show glyph e u u2)))"
  by (simp add: ui_pass_def pass_camera_def pass_show_def Let_def split: option.split)

lemma pass_camera_parts:
  assumes "ui_ok glyph u" "pass_camera e u = Some u2"
  shows "page_ok u2 \<and> camera_ok u2 \<and> u_screen u2 = u_screen u \<and> u_state u2 = u_state u \<and> u_lines u2 = u_lines u \<and>
    \<not> u_state_dirty u2 \<and> \<not> u_text_dirty u2"
  using assms by (auto simp: pass_camera_def start_camera_def stop_camera_def ui_ok_defs Let_def split: if_splits)

lemma pass_show_ok:
  assumes "ui_ok glyph u" "pass_camera e u = Some u2"
  shows "ui_ok glyph (pass_show glyph e u u2) \<and> same_flags u2 (pass_show glyph e u u2)"
proof -
  note c = pass_camera_parts [OF assms]
  define u3 where "u3 = (if u_state_dirty u then present_state (pe_now e) u2 else u2)"
  define u4 where "u4 = (if u_text_dirty u then present_text glyph u3 else u3)"
  define u5 where "u5 = (if u_volume_dirty u then present_volume u4 else u4)"
  have s2: "\<not> u_state_dirty u \<Longrightarrow> state_shown u2" "\<not> u_text_dirty u \<Longrightarrow> text_shown glyph u2"
    using assms(1) c by (simp_all add: ui_ok_def state_shown_def text_shown_def)
  have 3: "page_ok u3 \<and> camera_ok u3 \<and> same_flags u2 u3 \<and> state_shown u3 \<and> (\<not> u_text_dirty u \<longrightarrow> text_shown glyph u3)"
    using present_state_parts [of u2 "pe_now e" glyph] c s2 by (simp add: u3_def same_flags_def)
  have 4: "page_ok u4 \<and> camera_ok u4 \<and> same_flags u3 u4 \<and> state_shown u4 \<and> text_shown glyph u4"
    using present_text_parts [of u3 glyph] 3 by (simp add: u4_def same_flags_def)
  have 5: "page_ok u5 \<and> camera_ok u5 \<and> same_flags u4 u5 \<and> state_shown u5 \<and> text_shown glyph u5"
    using present_volume_parts [of u4 glyph] 4 by (simp add: u5_def same_flags_def)
  have "pass_show glyph e u u2 = (if u_camera_frame_dirty u \<and> u_camera_requested u
      then u5\<lparr>u_screen := set_camera_frame (u_camera_frame u) (u_screen u5)\<rparr> else u5)"
    by (simp add: pass_show_def u3_def u4_def u5_def Let_def)
  then have "page_ok (pass_show glyph e u u2) \<and> camera_ok (pass_show glyph e u u2) \<and> same_flags u5 (pass_show glyph e u u2) \<and>
      state_shown (pass_show glyph e u u2) \<and> text_shown glyph (pass_show glyph e u u2)"
    using camera_frame_parts [of u5 "u_camera_frame u" glyph] 5 by (simp add: same_flags_def)
  then show ?thesis using 3 4 5 by (simp add: ui_ok_def same_flags_def)
qed

interpretation lvgl_runs: invariant_system "lv_dispatch env now" "ui_ok glyph" for env now glyph
  by unfold_locales (rule lv_dispatch_ok)

lemma ui_pass_ok: "ui_ok glyph u \<Longrightarrow> ui_pass glyph e u = Some u' \<Longrightarrow> ui_ok glyph u'"
  using pass_show_ok lvgl_runs.inv_fold by (auto simp: ui_pass_split split: option.splits)

lemma actor_ok:
  "ui_ok glyph u \<Longrightarrow> ui_ok glyph (u\<lparr>u_state := st, u_state_dirty := True\<rparr>)"
  "ui_ok glyph u \<Longrightarrow> ui_ok glyph (u\<lparr>u_lines := l, u_text_dirty := True\<rparr>)"
  by (auto simp: ui_ok_defs)

lemma actor_view:
  "ui_view (u\<lparr>u_volume := v, u_volume_dirty := b\<rparr>) = ui_view u"
  "ui_view (u\<lparr>u_action_head := h, u_action_count := n\<rparr>) = ui_view u"
  "ui_view (u\<lparr>u_volume_pending := b, u_volume_committed := b'\<rparr>) = ui_view u"
  "ui_view (publish_frame bs u) = ui_view u"
  by (simp_all add: ui_view_def publish_frame_def)

lemmas actor_view_ok = actor_view [THEN ui_ok_view] touch_view [THEN ui_ok_view]

lemma ui_step_ok [inv_intros]:
  assumes "ui_ok glyph u" "ui_step glyph ev u = Some u'"
  shows "ui_ok glyph u'"
proof (cases ev)
  case (Ue_Pass e)
  then show ?thesis using assms ui_pass_ok by simp
next
  case (Ue_Lvgl env now act)
  then show ?thesis using assms lv_dispatch_ok by auto
next
  case (Ue_State st)
  then show ?thesis using assms actor_ok(1) by (auto simp: ui_set_state_def split: if_splits)
next
  case (Ue_Text a b)
  then show ?thesis using assms actor_ok(2) by (auto simp: ui_set_text_def Let_def split: if_splits)
next
  case (Ue_Volume v)
  then show ?thesis using assms by (auto simp: ui_set_volume_def Let_def actor_view_ok split: if_splits)
next
  case (Ue_Brightness env v)
  then show ?thesis using assms by (auto simp: ui_set_brightness_def actor_view_ok split: if_splits)
next
  case Ue_Poll
  then show ?thesis using assms by (auto simp: ui_poll_action_def poll_action_def actor_view_ok split: if_splits)
next
  case Ue_PollVolume
  then show ?thesis using assms by (auto simp: ui_poll_volume_change_def poll_volume_change_def actor_view_ok split: if_splits)
next
  case (Ue_Frame bs)
  then show ?thesis using assms by (auto simp: actor_view_ok)
qed

lemma ui_run_ok: "ui_ok glyph u \<Longrightarrow> ui_run glyph evs u = Some u' \<Longrightarrow> ui_ok glyph u'"
  by (induction evs arbitrary: u) (auto split: option.splits intro: ui_step_ok)

end
