(* ===== verification/DeviceProps.thy ===== *)
theory DeviceProps
  imports DeviceRuns
begin

section \<open>What the device UI promises\<close>

subsection \<open>The start\<close>

lemma create_calls:
  assumes "create_screen e now s0 = (True, calls, s)" "\<not> s_on_camera s0"
  shows "calls = []"
proof -
  have "fst (show_home t) = []" if "\<not> s_on_camera t" for t
    using that by (simp add: show_home_def Let_def camera_call_def frame_simps)
  moreover have "\<not> s_on_camera (update_clock now ((build_pages (s0\<lparr>s_freetype := True, s_fonts := ce_fonts e\<rparr>))\<lparr>s_clock_timer := True\<rparr>))"
    using assms(2) by (simp add: frame_simps build_pages_def)
  ultimately show ?thesis using assms(1) by (auto simp: create_screen_def Let_def split: if_splits prod.splits) (metis fst_conv)
qed

lemma initialize_lvgl_ok:
  assumes "initialize_lvgl e u = (True, u')" "u_screen u = new_screen" "\<not> u_camera_requested u" "\<not> u_camera_running u"
  shows "page_ok u' \<and> camera_ok u' \<and> \<not> u_camera_running u' \<and> \<not> u_camera_requested u'"
proof -
  obtain calls s where c: "create_screen (le_create e) (le_now e) new_screen = (True, calls, s)"
    using assms(1,2) by (auto simp: initialize_lvgl_def Let_def split: if_splits prod.splits)
  have none: "calls = []" using create_calls [OF c] by (simp add: new_screen_def)
  have u': "u' = u\<lparr>u_display := True, u_input := True, u_screen := set_volume_change_handler True (set_camera_activity_handler True
      (set_app_action_handler True (set_voice_interrupt_handler True s)))\<rparr>"
    using assms(1,2) c none by (simp add: initialize_lvgl_def Let_def split: if_splits)
  note ok = create_screen_ok [OF c]
  then have "screen_ok (u_screen u')"
    by (simp add: u' screen_ok_defs set_volume_change_handler_def set_camera_activity_handler_def set_app_action_handler_def
        set_voice_interrupt_handler_def)
  then show ?thesis
    using ok assms(3,4) by (simp add: page_ok_def camera_ok_def u' set_volume_change_handler_def set_camera_activity_handler_def
        set_app_action_handler_def set_voice_interrupt_handler_def)
qed

lemma set_state_no_camera: "camera_calls (fst (set_state now st s)) = []"
  by (auto simp: set_state_def show_app_def k_app_count_def Let_def camera_calls_call split: prod.split if_splits)

lemma present_state_request:
  shows "u_camera_request_dirty (present_state now u) = u_camera_request_dirty u \<and>
    u_camera_requested (present_state now u) = u_camera_requested u \<and>
    u_camera_running (present_state now u) = u_camera_running u"
proof -
  obtain cs t where f: "set_state now (u_state u) (u_screen u) = (cs, t)" by fastforce
  have "camera_calls cs = []" using set_state_no_camera [of now "u_state u" "u_screen u"] f by simp
  then show ?thesis
    using calls_camera [of "u\<lparr>u_screen := t\<rparr>" cs "u_camera_requested u"]
    by (simp add: present_state_def on_screen_def f calls_fields)
qed

lemma run_begin_ok:
  assumes "run_begin e glyph u = (True, u')" "u_screen u = new_screen" "\<not> u_camera_requested u" "\<not> u_camera_running u"
  shows "ui_ok glyph u' \<and> u_ready u' \<and> \<not> u_camera_requested u'"
proof -
  obtain u1 where i: "initialize_lvgl e u = (True, u1)"
    using assms(1) by (auto simp: run_begin_def split: prod.splits bool.splits)
  define u2 where "u2 = u1\<lparr>u_state_dirty := False, u_text_dirty := False, u_volume_dirty := False\<rparr>"
  have r: "u' = signal_startup True (present_volume (present_text glyph (present_state (le_now e) u2)))"
    using assms(1) by (simp add: run_begin_def i u2_def)
  have 2: "page_ok u2" "camera_ok u2" "\<not> u_camera_requested u2"
    using initialize_lvgl_ok [OF i assms(2-4)] by (auto simp: u2_def page_ok_def camera_ok_def)
  define u3 where "u3 = present_state (le_now e) u2"
  define u4 where "u4 = present_text glyph u3"
  have 3: "page_ok u3 \<and> camera_ok u3 \<and> state_shown u3 \<and> \<not> u_camera_requested u3"
    using present_state_parts [OF 2(1,2)] present_state_request 2(3) by (simp add: u3_def)
  have 4: "page_ok u4 \<and> camera_ok u4 \<and> state_shown u4 \<and> text_shown glyph u4"
    using present_text_parts [of u3 glyph] 3 by (simp add: u4_def)
  have 5: "page_ok (present_volume u4) \<and> camera_ok (present_volume u4) \<and> state_shown (present_volume u4) \<and> text_shown glyph (present_volume u4)"
    using present_volume_parts [of u4 glyph] 4 by simp
  have "ui_view (signal_startup True v) = ui_view v" for v by (simp add: signal_startup_def ui_view_def)
  then have "ui_ok glyph u'" using ui_ok_view [of u' "present_volume u4" glyph] 5 by (simp add: r u3_def u4_def ui_ok_def)
  moreover have "u_ready u' \<and> \<not> u_camera_requested u'"
    using present_state_request 2(3) by (simp add: r signal_startup_def present_volume_def present_text_def)
  ultimately show ?thesis by blast
qed

text \<open>A device for the witnesses: everything the start asks for is there.\<close>

definition sample_lvgl :: lvgl_env where
  "sample_lvgl = \<lparr>le_display = True, le_input = True, le_text_font = True, le_icon_font = True, le_create = sample_create,
     le_now = sample_time\<rparr>"

definition sample_device :: "(nat \<Rightarrow> bool) \<Rightarrow> device_ui" where
  "sample_device glyph = snd (run_begin sample_lvgl glyph new_device_ui)"

lemma sample_run_begin: "run_begin sample_lvgl glyph new_device_ui = (True, sample_device glyph)"
proof -
  have "fst (initialize_lvgl sample_lvgl new_device_ui)"
    by (simp add: initialize_lvgl_def sample_lvgl_def new_device_ui_def create_sample Let_def)
  then have "fst (run_begin sample_lvgl glyph new_device_ui)"
    by (auto simp: run_begin_def split: prod.split bool.split)
  then show ?thesis by (simp add: sample_device_def prod_eq_iff)
qed

definition sample_pass :: pass_env where
  "sample_pass = \<lparr>pe_now = sample_time, pe_io = (\<lambda>_. True), pe_camera_ended = True, pe_thread_ok = True, pe_actions = []\<rparr>"

lemma new_device_facts: "u_screen new_device_ui = new_screen" "\<not> u_camera_requested new_device_ui" "\<not> u_camera_running new_device_ui"
  by (simp_all add: new_device_ui_def)

subsection \<open>The screen catches up\<close>

lemma quiet_pass:
  assumes "ui_ok glyph u" "ui_pass glyph e u = Some u'" "pe_actions e = []"
  shows "ui_ok glyph u' \<and> \<not> u_state_dirty u' \<and> \<not> u_text_dirty u' \<and> u_state u' = u_state u \<and> u_lines u' = u_lines u"
proof -
  obtain u2 where c: "pass_camera e u = Some u2" "u' = pass_show glyph e u u2"
    using assms(2,3) by (auto simp: ui_pass_split split: option.splits)
  show ?thesis using pass_show_ok [OF assms(1) c(1)] pass_camera_parts [OF assms(1) c(1)] c(2)
    by (simp add: same_flags_def)
qed


lemma pass_returns: "pe_camera_ended e \<Longrightarrow> \<exists>u'. ui_pass glyph e u = Some u'"
  by (simp add: ui_pass_split pass_camera_def start_camera_def Let_def)

lemma step_returns: "(\<And>e. ev = Ue_Pass e \<Longrightarrow> pe_camera_ended e) \<Longrightarrow> \<exists>u'. ui_step glyph ev u = Some u'"
  using pass_returns
  by (cases ev) (auto simp: ui_set_state_def ui_set_text_def ui_set_volume_def ui_set_brightness_def ui_poll_action_def
      ui_poll_volume_change_def Let_def split: option.split)

lemma run_returns: "(\<And>e. Ue_Pass e \<in> set evs \<Longrightarrow> pe_camera_ended e) \<Longrightarrow> \<exists>u'. ui_run glyph evs u = Some u'"
proof (induction evs arbitrary: u)
  case (Cons ev evs)
  obtain u1 where "ui_step glyph ev u = Some u1" using step_returns [of ev glyph u] Cons.prems by auto
  then show ?case using Cons.IH [of u1] Cons.prems by auto
qed simp


subsection \<open>The camera process\<close>

lemma pass_show_request:
  "u_camera_request_dirty (pass_show glyph e u u2) = u_camera_request_dirty u2 \<and>
   u_camera_running (pass_show glyph e u u2) = u_camera_running u2"
  using present_state_request
  by (simp add: pass_show_def present_text_def present_volume_def Let_def)

text \<open>C29: the camera process follows its page: after any history, one pass of the UI thread later a camera process runs only if the camera
  page is the one that is shown, and leaving the page therefore ends the recording.\<close>

theorem camera_process_follows_page:
  assumes "run_begin le glyph new_device_ui = (True, u0)"
    and "ui_run glyph evs u0 = Some u" and "ui_pass glyph e u = Some u'" and "pe_actions e = []" and "u_camera_running u'"
  shows "s_page (u_screen u') = Page_Camera \<and> s_visible (u_screen u') Page_Camera"
proof -
  have ok: "ui_ok glyph u" using ui_run_ok run_begin_ok [OF assms(1) new_device_facts] assms(2) by blast
  obtain u2 where c: "pass_camera e u = Some u2" "u' = pass_show glyph e u u2"
    using assms(3,4) by (auto simp: ui_pass_split split: option.splits)
  have u2: "\<not> u_camera_request_dirty u2" using c(1)
    by (auto simp: pass_camera_def start_camera_def stop_camera_def Let_def split: if_splits)
  have "ui_ok glyph u'" using ui_run_ok [OF ok, of "[Ue_Pass e]"] assms(3) by simp
  moreover have "\<not> u_camera_request_dirty u'"
    using u2 c(2) pass_show_request pass_camera_parts [OF ok c(1)] by simp
  ultimately show ?thesis using assms(5) by (auto simp: ui_ok_def camera_ok_def page_ok_def screen_ok_def nav_ok_def)
qed

lemma open_camera:
  assumes "s_page (u_screen u) \<noteq> Page_Camera" "s_on_camera (u_screen u)" "\<not> u_camera_requested u"
  shows "u_camera_requested (on_screen (app_clicked now (Some 1)) u) \<and> u_camera_request_dirty (on_screen (app_clicked now (Some 1)) u) \<and>
    u_camera_running (on_screen (app_clicked now (Some 1)) u) = u_camera_running u"
proof -
  obtain c s where 1: "app_clicked now (Some 1) (u_screen u) = (c, s)" by fastforce
  have "camera_calls c = [True]"
    using 1 assms(1,2) by (auto simp: app_clicked_def show_app_def k_app_count_def Let_def camera_calls_call frame_simps split: prod.splits)
  then show ?thesis using calls_camera [of "u\<lparr>u_screen := s\<rparr>" c True] assms(3)
    by (simp only: on_screen_def 1 prod.case) (simp add: calls_fields)
qed

theorem camera_process_follows_page_witness:
  "\<exists>u u'. ui_run (\<lambda>_. True) [Ue_Lvgl (\<lambda>_. True) sample_time (Lv_App (Some 1))] (sample_device (\<lambda>_. True)) = Some u \<and>
     ui_pass (\<lambda>_. True) sample_pass u = Some u' \<and> u_camera_running u' \<and> s_page (u_screen u') = Page_Camera"
proof -
  define g :: "nat \<Rightarrow> bool" where "g = (\<lambda>_. True)"
  define v where "v = sample_device g"
  have ok: "ui_ok g v \<and> \<not> u_camera_requested v" using run_begin_ok [OF sample_run_begin new_device_facts] by (simp add: v_def)
  define u where "u = on_screen (app_clicked sample_time (Some 1)) v"
  have run: "ui_run g [Ue_Lvgl (\<lambda>_. True) sample_time (Lv_App (Some 1))] v = Some u" by (simp add: u_def)
  have u: "u_camera_requested u \<and> u_camera_request_dirty u"
    using open_camera [of v sample_time] ok unfolding u_def by (simp only: ui_ok_def page_ok_def) blast
  obtain u' where p: "ui_pass g sample_pass u = Some u'" using pass_returns [of sample_pass] by (auto simp: sample_pass_def)
  then obtain u2 where c: "pass_camera sample_pass u = Some u2" "u' = pass_show g sample_pass u u2"
    by (auto simp: ui_pass_split sample_pass_def split: option.splits)
  have "u_camera_running u2" using c(1) u by (auto simp: pass_camera_def start_camera_def sample_pass_def Let_def)
  then have r: "u_camera_running u'" using c(2) pass_show_request by simp
  have "pe_actions sample_pass = []" by (simp add: sample_pass_def)
  from camera_process_follows_page [OF sample_run_begin run [unfolded v_def] p this r] run p r
  show ?thesis unfolding v_def g_def by blast
qed

text \<open>
  A join that does not return: when the user leaves the camera page and comes back before the next snapshot, the two
  requests collapse into one to start, and \<^verbatim>\<open>StartCamera\<close> joins the worker that nobody stopped.
\<close>

lemma camera_toggle_blocks:
  assumes "ui_ok glyph u" "s_page (u_screen u) = Page_Camera" "u_camera_running u" "\<not> pe_camera_ended e"
  shows "ui_run glyph [Ue_Lvgl env now Lv_Back, Ue_Lvgl env now (Lv_App (Some 1)), Ue_Pass e] u = None"
proof -
  define u1 where "u1 = on_screen back_clicked u"
  define u2 where "u2 = on_screen (app_clicked now (Some 1)) u1"
  have p: "page_ok u" "u_camera_requested u" "s_on_camera (u_screen u)" "screen_ok (u_screen u)"
    using assms(1,2) by (simp_all add: ui_ok_def page_ok_def)
  obtain c1 s1 where 1: "back_clicked (u_screen u) = (c1, s1)" by fastforce
  have f1: "s_page s1 = Page_Home" "camera_calls c1 = [False]" "s_on_camera s1"
    using 1 p(3) assms(2) by (auto simp: back_clicked_def show_home_def Let_def camera_calls_call frame_simps)
  have u1: "\<not> u_camera_requested u1" "u_camera_request_dirty u1" "u_camera_running u1" "u_screen u1 = s1"
    using calls_camera [of "u\<lparr>u_screen := s1\<rparr>" c1 False] f1 p(2) assms(3)
    by (simp_all add: u1_def on_screen_def 1 calls_fields)
  have u2: "u_camera_requested u2" "u_camera_request_dirty u2" "u_camera_running u2"
    using open_camera [of u1 now] f1 u1 by (simp_all add: u2_def)
  have "ui_pass glyph e u2 = None"
    using u2 assms(4) by (simp add: ui_pass_split pass_camera_def start_camera_def Let_def)
  then show ?thesis by (simp add: u1_def u2_def)
qed

subsection \<open>Camera frames\<close>

text \<open>What the reads of one camera process deliver, up to the stop or the end.\<close>

fun camera_stream :: "(bool \<times> camera_read) list \<Rightarrow> bytes" where
  "camera_stream [] = []"
| "camera_stream ((stop, r) # rs) = (if stop then [] else case r of
     Cam_Interrupted \<Rightarrow> camera_stream rs
   | Cam_Failed \<Rightarrow> []
   | Cam_Bytes bs \<Rightarrow> if bs = [] then [] else bs @ camera_stream rs)"

text \<open>\<^verbatim>\<open>read\<close> never returns more than it was asked for: what is left of the frame, when \<open>got\<close> bytes are there.\<close>

fun reads_fit :: "nat \<Rightarrow> (bool \<times> camera_read) list \<Rightarrow> bool" where
  "reads_fit got [] \<longleftrightarrow> True"
| "reads_fit got ((stop, r) # rs) \<longleftrightarrow> (case r of
     Cam_Bytes bs \<Rightarrow> got + length bs \<le> k_camera_frame_bytes \<and>
       reads_fit (if got + length bs = k_camera_frame_bytes then 0 else got + length bs) rs
   | _ \<Rightarrow> reads_fit got rs)"

lemma camera_loop_frames:
  "camera_loop rs got = Some pics \<Longrightarrow> length got < k_camera_frame_bytes \<Longrightarrow> reads_fit (length got) rs \<Longrightarrow>
   (\<forall>f \<in> set pics. length f = k_camera_frame_bytes) \<and>
   (\<exists>rest. got @ camera_stream rs = concat pics @ rest \<and> length rest < k_camera_frame_bytes)"
proof (induction rs arbitrary: got pics)
  case (Cons p rs)
  obtain stop r where p: "p = (stop, r)" by fastforce
  note loop = Cons.prems(1) [unfolded p] and short = Cons.prems(2) and fit = Cons.prems(3) [unfolded p]
  show ?case
  proof (cases "stop \<or> r = Cam_Failed \<or> r = Cam_Bytes []")
    case True
    then have "pics = [] \<and> camera_stream (p # rs) = []" using loop by (auto simp: p)
    then show ?thesis using short by simp
  next
    case go: False
    show ?thesis
    proof (cases "r = Cam_Interrupted")
      case True
      have l: "camera_loop rs got = Some pics" and f: "reads_fit (length got) rs" using True go loop fit by simp_all
      have st: "camera_stream (p # rs) = camera_stream rs" using True go by (simp add: p)
      show ?thesis unfolding st by (rule Cons.IH [OF l short f])
    next
      case False
      then obtain bs where bs: "r = Cam_Bytes bs" "bs \<noteq> []" using go by (cases r) auto
      have all: "length got + length bs \<le> k_camera_frame_bytes" using fit bs(1) by simp
      then have whole: "take (k_camera_frame_bytes - length got) bs = bs" by simp
      have stream: "camera_stream (p # rs) = bs @ camera_stream rs" using go bs by (simp add: p)
      show ?thesis
      proof (cases "length got + length bs = k_camera_frame_bytes")
        case full: True
        then obtain fs where fs: "camera_loop rs [] = Some fs" "pics = (got @ bs) # fs"
          using loop bs go whole by auto
        have "reads_fit (length ([] :: bytes)) rs" using fit bs(1) full by simp
        moreover have "length ([] :: bytes) < k_camera_frame_bytes" by (simp add: k_camera_frame_bytes_def)
        ultimately obtain rest where "\<forall>f \<in> set fs. length f = k_camera_frame_bytes" "camera_stream rs = concat fs @ rest"
            "length rest < k_camera_frame_bytes"
          using Cons.IH [OF fs(1)] by auto
        then show ?thesis using full fs(2) by (simp add: stream)
      next
        case part: False
        have l: "camera_loop rs (got @ bs) = Some pics" using part loop bs go whole by simp
        have f: "reads_fit (length (got @ bs)) rs" and n: "length (got @ bs) < k_camera_frame_bytes"
          using fit bs(1) part all by simp_all
        show ?thesis using Cons.IH [OF l n f] unfolding stream append_assoc .
      qed
    qed
  qed
qed simp

lemma camera_reap_Some: "camera_reap ws = Some r \<Longrightarrow> r = [Cam_Reaped]"
  by (induction ws) (auto split: if_splits)

text \<open>C34: no torn picture is ever shown and no camera process is left behind: however the pipe cuts the video stream up, every frame a camera
  process publishes is whole, and the frames are the stream from its start, in order and without a gap; only an unfinished
  last frame is dropped. When the worker ends, its process group was told to terminate and the child was reaped.\<close>

theorem camera_frames_whole:
  assumes "capture_camera pipe_ok fork_ok rs ws = Some acts" and "pipe_ok" and "fork_ok" and "reads_fit 0 rs"
  shows "\<exists>pics rest. acts = Cam_Spawned camera_command # map Cam_Publish pics @ [Cam_Terminated, Cam_Reaped] \<and>
    (\<forall>f \<in> set pics. length f = k_camera_frame_bytes) \<and>
    camera_stream rs = concat pics @ rest \<and> length rest < k_camera_frame_bytes"
proof -
  obtain pics r where "camera_loop rs [] = Some pics" "camera_reap ws = Some r"
      "acts = Cam_Spawned camera_command # map Cam_Publish pics @ Cam_Terminated # r"
    using assms(1-3) by (auto simp: capture_camera_def split: option.splits)
  then show ?thesis
    using camera_loop_frames [of rs "[]" pics] camera_reap_Some assms(4) by (auto simp: k_camera_frame_bytes_def)
qed

theorem camera_frames_whole_witness:
  "\<exists>pics rest. capture_camera True True [(False, Cam_Bytes (replicate 60000 1)), (False, Cam_Interrupted),
      (False, Cam_Bytes (replicate 55200 2)), (False, Cam_Bytes [3]), (True, Cam_Failed)] [True, False] =
     Some (Cam_Spawned camera_command # map Cam_Publish pics @ [Cam_Terminated, Cam_Reaped]) \<and>
     (\<forall>f \<in> set pics. length f = k_camera_frame_bytes) \<and> replicate 60000 1 @ replicate 55200 2 @ [3] = concat pics @ rest"
proof -
  define a :: bytes where "a = replicate 60000 1"
  define b :: bytes where "b = replicate 55200 2"
  define rs where "rs = [(False, Cam_Bytes a), (False, Cam_Interrupted), (False, Cam_Bytes b), (False, Cam_Bytes [3]), (True, Cam_Failed)]"
  have len: "length a = 60000" "length b = 55200" "a \<noteq> []" "b \<noteq> []" by (simp_all add: a_def b_def)
  have c: "capture_camera True True rs [True, False] =
      Some (Cam_Spawned camera_command # map Cam_Publish [a @ b] @ [Cam_Terminated, Cam_Reaped])"
    using len by (simp add: capture_camera_def k_camera_frame_bytes_def rs_def)
  have f: "reads_fit 0 rs" and st: "camera_stream rs = a @ b @ [3]"
    using len by (simp_all add: k_camera_frame_bytes_def rs_def)
  from camera_frames_whole [OF c _ _ f] c st show ?thesis unfolding rs_def a_def [symmetric] b_def [symmetric] by fastforce
qed

end
