(* ===== verification/DeviceLife.thy ===== *)
theory DeviceLife
  imports DeviceProps
begin

section \<open>The shapes of the UI's state\<close>

text \<open>
  What C++ fixes by its types and the code keeps by its checks: arrays of their size, lines that end, indices inside the ring,
  percentages, pixels on the screen. And the life of a \<^verbatim>\<open>DeviceUi\<close> from \<^verbatim>\<open>Open\<close> to \<^verbatim>\<open>Close\<close>.
\<close>

subsection \<open>Well-formed states\<close>

definition line_ok :: "string \<Rightarrow> bool" where
  "line_ok l \<longleftrightarrow> length l = k_line_bytes \<and> last l = char_of (0 :: nat)"

definition device_ok :: "device_ui \<Rightarrow> bool" where
  "device_ok u \<longleftrightarrow> line_ok (fst (u_lines u)) \<and> line_ok (snd (u_lines u)) \<and> actions_ok u \<and> pointer_ok (u_touch u) \<and>
     u_volume u \<le> 100 \<and> u_pending_volume u \<le> 100 \<and> (u_volume_committed u \<longrightarrow> u_volume_pending u) \<and>
     length (u_camera_frame u) = k_camera_pixels \<and> (u_display_failed u \<longrightarrow> u_stop u \<and> \<not> u_ready u)"

text \<open>The fields the invariant is about.\<close>

definition device_view where
  "device_view u = (u_lines u, (u_actions u, u_action_head u, u_action_count u), u_touch u,
     (u_volume u, u_pending_volume u, u_volume_pending u, u_volume_committed u), u_camera_frame u,
     (u_display_failed u, u_stop u, u_ready u))"

lemma device_ok_view: "device_view u = device_view v \<Longrightarrow> device_ok u = device_ok v"
  by (simp add: device_view_def device_ok_def actions_ok_def)

lemma line_array_ok: "line_ok (line_array s)"
  by (simp add: line_ok_def line_array_def k_line_bytes_def Let_def)

lemma queue_action_frame:
  "u_lines (queue_action act u) = u_lines u" "u_volume (queue_action act u) = u_volume u"
  "u_pending_volume (queue_action act u) = u_pending_volume u" "u_volume_pending (queue_action act u) = u_volume_pending u"
  "u_volume_committed (queue_action act u) = u_volume_committed u" "u_camera_frame (queue_action act u) = u_camera_frame u"
  "u_display_failed (queue_action act u) = u_display_failed u" "u_stop (queue_action act u) = u_stop u"
  "u_ready (queue_action act u) = u_ready u"
  by (simp_all add: queue_action_def Let_def)

lemma device_ok_steps [inv_intros]:
  "device_ok u \<Longrightarrow> device_ok (queue_action act u)"
  "device_ok u \<Longrightarrow> device_ok (queue_volume_change v keep u)"
  "device_ok u \<Longrightarrow> device_ok (fail_display u)"
  "device_ok u \<Longrightarrow> pointer_ok t \<Longrightarrow> device_ok (u\<lparr>u_touch := t\<rparr>)"
proof -
  show "device_ok u \<Longrightarrow> device_ok (queue_action act u)"
    using queue_action_valid [of u act] by (simp add: device_ok_def queue_action_frame)
qed (auto simp: device_ok_def actions_ok_def queue_volume_change_def fail_display_def)

lemma screen_called_device [inv_intros]: "device_ok u \<Longrightarrow> device_ok (screen_called c u)"
proof (cases c)
  case (On_Volume v phase)
  assume "device_ok u"
  moreover have "device_ok (w\<lparr>u_slider_active := b\<rparr>) = device_ok w" for w b
    by (rule device_ok_view) (simp add: device_view_def)
  ultimately show ?thesis
    using On_Volume device_ok_steps(2) by (simp add: screen_volume_changed_def Let_def)
next
  case (On_Camera a)
  assume "device_ok u"
  moreover have "device_ok (u\<lparr>u_camera_requested := b, u_camera_request_dirty := d\<rparr>) = device_ok u" for b d
    by (rule device_ok_view) (simp add: device_view_def)
  ultimately show ?thesis using On_Camera by (simp add: camera_activity_def)
qed (simp_all add: voice_interrupted_def app_action_def device_ok_steps)

interpretation calls_device: invariant_system screen_called device_ok
  by unfold_locales (rule screen_called_device)

lemma on_screen_device [inv_intros]: "device_ok u \<Longrightarrow> device_ok (on_screen f u)"
proof -
  assume "device_ok u"
  moreover have "device_ok (u\<lparr>u_screen := s\<rparr>) = device_ok u" for s by (rule device_ok_view) (simp add: device_view_def)
  ultimately show ?thesis by (simp add: on_screen_def calls_device.inv_fold split: prod.split)
qed

lemma screen_device: "device_ok (u\<lparr>u_screen := s\<rparr>) = device_ok u" "device_ok (u\<lparr>u_io := tr\<rparr>) = device_ok u"
  by (rule device_ok_view, simp add: device_view_def)+

lemma flush_device [inv_intros]: "device_ok u \<Longrightarrow> device_ok (flush_display env a pixels u)"
  by (simp add: flush_display_def Let_def screen_device device_ok_steps split: prod.split)

text \<open>Touch handling changes the pointer, the actions and the trace only.\<close>

lemma end_touch_device [inv_intros]: "device_ok u \<Longrightarrow> device_ok (end_touch u)"
proof -
  assume u: "device_ok u"
  then have "device_ok (u\<lparr>u_touch := (u_touch u)\<lparr>t_active := False\<rparr>\<rparr>)"
    using device_ok_steps(4) pointer_steps(3) by (simp add: device_ok_def)
  then show ?thesis using u device_ok_steps(1) by (simp add: end_touch_def Let_def split: option.split)
qed

lemma device_pointer: "device_ok u \<Longrightarrow> pointer_ok (u_touch u)"
  by (simp add: device_ok_def)

lemma touch_device_iff: "device_ok u \<Longrightarrow> device_ok (u\<lparr>u_touch := t\<rparr>) = pointer_ok t"
  by (auto simp: device_ok_def actions_ok_def)

lemma handle_input_device [inv_intros]: "device_ok u \<Longrightarrow> device_ok (handle_input ev u)"
proof -
  assume u: "device_ok u"
  note p = handle_input_ok [OF device_pointer [OF u], of ev] end_touch_device [OF u]
  show ?thesis
  proof (cases ev)
    case (Ev_Tracking v)
    then show ?thesis
      using u p pointer_steps end_touch_ok [OF device_pointer [OF u]]
      by (simp add: handle_input_def Let_def touch_device_iff device_pointer)
  qed (use u p in \<open>simp_all add: handle_input_def Let_def touch_device_iff split: if_splits\<close>)
qed

lemma read_events_device [inv_intros]: "device_ok u \<Longrightarrow> device_ok (snd (snd (read_event_input evs u)))"
  by (induction evs arbitrary: u) (simp_all add: Let_def handle_input_device)

lemma poll_gt911_device [inv_intros]: "device_ok u \<Longrightarrow> device_ok (poll_gt911 status point u)"
proof -
  assume u: "device_ok u"
  have io: "device_ok (read_gt911 r n v) = device_ok v" "device_ok (clear_gt911_status v) = device_ok v"
      "u_touch (clear_gt911_status v) = u_touch v" for r n v
    by (simp_all add: read_gt911_def clear_gt911_status_def screen_device)
  have "pointer_ok (u_touch (poll_gt911 status point u))" using poll_gt911_ok device_pointer [OF u] by blast
  then show ?thesis
    using u end_touch_device by (auto simp: poll_gt911_def Let_def io touch_device_iff split: option.splits if_splits)
qed

lemma read_input_device [inv_intros]: "device_ok u \<Longrightarrow> device_ok (snd (snd (read_input ans u)))"
  using read_events_device [of u "ia_events ans"] poll_gt911_device [of u]
  by (auto simp: read_input_def Let_def split: touch_backend.split prod.split)

lemma lv_dispatch_device [inv_intros]: "device_ok u \<Longrightarrow> device_ok (lv_dispatch env now act u)"
  by (cases act) (simp_all add: inv_intros)

interpretation lvgl_device: invariant_system "lv_dispatch env now" device_ok for env now
  by unfold_locales (rule lv_dispatch_device)

lemma present_device [inv_intros]:
  "device_ok u \<Longrightarrow> device_ok (present_state now u)" "device_ok u \<Longrightarrow> device_ok (present_text glyph u)"
  "device_ok u \<Longrightarrow> device_ok (present_volume u)"
  by (simp_all add: present_state_def present_text_def present_volume_def on_screen_device screen_device)

lemma pass_camera_device: "pass_camera e u = Some v \<Longrightarrow> device_view v = device_view u"
  by (auto simp: pass_camera_def start_camera_def stop_camera_def device_view_def Let_def split: if_splits)

lemma ui_pass_device:
  assumes "device_ok u" "ui_pass glyph e u = Some u'"
  shows "device_ok u'"
proof -
  obtain v where c: "pass_camera e u = Some v"
      "u' = fold (lv_dispatch (pe_io e) (pe_now e)) (pe_actions e) (pass_show glyph e u v)"
    using assms(2) by (auto simp: ui_pass_split split: option.splits)
  have "device_ok v" using device_ok_view [OF pass_camera_device [OF c(1)]] assms(1) by simp
  then have "device_ok (pass_show glyph e u v)" by (simp add: pass_show_def Let_def present_device screen_device)
  then show ?thesis using c(2) lvgl_device.inv_fold by simp
qed

lemma length_pixels_of: "length (pixels_of bs) = length bs div 2"
  by (induction bs rule: pixels_of.induct) auto

text \<open>A frame that the camera worker publishes is whole.\<close>

fun frame_whole :: "ui_event \<Rightarrow> bool" where
  "frame_whole (Ue_Frame bs) \<longleftrightarrow> length bs = k_camera_frame_bytes"
| "frame_whole _ \<longleftrightarrow> True"

lemma actor_device [inv_intros]:
  "device_ok u \<Longrightarrow> device_ok (u\<lparr>u_state := st, u_state_dirty := True\<rparr>)"
  "device_ok u \<Longrightarrow> device_ok (u\<lparr>u_lines := (line_array a, line_array b), u_text_dirty := True\<rparr>)"
  "device_ok u \<Longrightarrow> device_ok (u\<lparr>u_volume := min v 100, u_volume_dirty := True\<rparr>)"
  "device_ok u \<Longrightarrow> poll_action u = Some (act, u') \<Longrightarrow> device_ok u'"
  "device_ok u \<Longrightarrow> poll_volume_change u = Some (change, u'') \<Longrightarrow> device_ok u''"
  "device_ok u \<Longrightarrow> length bs = k_camera_frame_bytes \<Longrightarrow> device_ok (publish_frame bs u)"
proof -
  show "device_ok u \<Longrightarrow> poll_action u = Some (act, u') \<Longrightarrow> device_ok u'"
    using poll_action_contents [of u act u'] by (auto simp: device_ok_def poll_action_def split: if_splits)
qed (auto simp: device_ok_def actions_ok_def line_array_ok poll_volume_change_def publish_frame_def length_pixels_of
    k_camera_frame_bytes_def k_camera_pixels_def split: if_splits)

lemma ui_step_device [inv_intros]:
  assumes "device_ok u" "ui_step glyph ev u = Some u'" "frame_whole ev"
  shows "device_ok u'"
proof (cases ev)
  case (Ue_Pass e)
  then show ?thesis using assms ui_pass_device by simp
next
  case (Ue_Lvgl env now act)
  then show ?thesis using assms lv_dispatch_device by auto
next
  case (Ue_Brightness env v)
  then show ?thesis using assms by (auto simp: ui_set_brightness_def screen_device split: if_splits)
next
  case Ue_Poll
  then show ?thesis using assms actor_device(4) by (auto simp: ui_poll_action_def split: option.splits)
next
  case Ue_PollVolume
  then show ?thesis using assms actor_device(5) by (auto simp: ui_poll_volume_change_def split: option.splits)
next
  case (Ue_State st)
  then show ?thesis using assms(1,2) by (auto simp: ui_set_state_def actor_device(1) split: if_splits)
next
  case (Ue_Text a b)
  then show ?thesis using assms(1,2) by (auto simp: ui_set_text_def Let_def actor_device(2) split: if_splits)
next
  case (Ue_Volume v)
  then show ?thesis using assms(1,2) by (auto simp: ui_set_volume_def Let_def actor_device(3) split: if_splits)
next
  case (Ue_Frame bs)
  then show ?thesis using assms by (auto simp: actor_device(6))
qed

lemma ui_run_device:
  "device_ok u \<Longrightarrow> ui_run glyph evs u = Some u' \<Longrightarrow> list_all frame_whole evs \<Longrightarrow> device_ok u'"
  by (induction evs arbitrary: u) (auto split: option.splits intro: ui_step_device)

text \<open>The start: what the thread does before it signals leaves the display working.\<close>

lemma calls_keep_display: "u_display_failed (fold screen_called cs u) = u_display_failed u \<and> u_io (fold screen_called cs u) = u_io u"
proof (induction cs arbitrary: u)
  case (Cons c cs)
  have "u_display_failed (screen_called c u) = u_display_failed u \<and> u_io (screen_called c u) = u_io u"
    by (cases c) (simp_all add: voice_interrupted_def app_action_def queue_action_def camera_activity_def
        screen_volume_changed_def queue_volume_change_def Let_def)
  then show ?case using Cons by simp
qed simp

lemma present_keeps_display:
  "u_display_failed (present_state now u) = u_display_failed u" "u_io (present_state now u) = u_io u"
  "u_display_failed (present_text glyph u) = u_display_failed u" "u_io (present_text glyph u) = u_io u"
  "u_display_failed (present_volume u) = u_display_failed u" "u_io (present_volume u) = u_io u"
  by (simp_all add: present_state_def on_screen_def present_text_def present_volume_def calls_keep_display split: prod.split)

lemma initialize_device:
  assumes "initialize_lvgl e u = (True, u')"
  shows "u_io u' = u_io u \<and> u_display_failed u' = u_display_failed u \<and> (device_ok u \<longrightarrow> device_ok u')"
proof -
  have d: "device_ok (v\<lparr>u_display := a, u_input := b\<rparr>) = device_ok v" for v a b
    by (rule device_ok_view) (simp add: device_view_def)
  show ?thesis
    using assms d [where v = u and a = True and b = True] screen_device(1)
    by (auto simp: initialize_lvgl_def Let_def calls_keep_display calls_device.inv_fold split: if_splits prod.splits)
qed

lemma run_begin_device:
  assumes "run_begin e glyph u = (True, u')" "device_ok u" "\<not> u_display_failed u"
  shows "device_ok u' \<and> u_io u' = u_io u \<and> u_ready u' \<and> u_worker_started u' \<and> u_worker_succeeded u'"
proof -
  obtain u1 where i: "initialize_lvgl e u = (True, u1)"
    using assms(1) by (auto simp: run_begin_def split: prod.splits bool.splits)
  define u2 where "u2 = u1\<lparr>u_state_dirty := False, u_text_dirty := False, u_volume_dirty := False\<rparr>"
  define u3 where "u3 = present_volume (present_text glyph (present_state (le_now e) u2))"
  have r: "u' = signal_startup True u3" using assms(1) by (simp add: run_begin_def i u2_def u3_def)
  have "device_ok u1" "u_io u1 = u_io u" "\<not> u_display_failed u1" using initialize_device [OF i] assms(2,3) by simp_all
  then have "device_ok u2" "u_io u2 = u_io u" "\<not> u_display_failed u2"
    using device_ok_view [of u2 u1] by (simp_all add: u2_def device_view_def)
  then have "device_ok u3" "u_io u3 = u_io u" "\<not> u_display_failed u3"
    by (simp_all add: u3_def present_device present_keeps_display)
  then show ?thesis by (simp add: r signal_startup_def device_ok_def actions_ok_def)
qed

lemma new_device_ok: "device_ok (new_device_ui\<lparr>u_io := tr, u_touch_backend := backend\<rparr>)"
  by (simp add: device_ok_def new_device_ui_def line_ok_def empty_line_def k_line_bytes_def actions_ok_def k_action_capacity_def
      new_pointer_ok)

text \<open>C30: the shared state of the UI keeps its shape under any mixture of calls, touches, frames and passes: the two lines are
  arrays of 64 bytes ending in NUL, so that what the screen reads of them has at most 63 bytes, the indices of the action ring stay inside
  it, both volumes stay at most 100, a frame has 320x180 pixels, a failed display is never ready, and the pointer given to
  LVGL is a pixel of the screen.\<close>

theorem ui_wellformed:
  assumes "run_begin le glyph new_device_ui = (True, u0)" and "list_all frame_whole evs" and "ui_run glyph evs u0 = Some u"
  shows "device_ok u \<and> length (c_string (fst (u_lines u))) \<le> 63 \<and> length (c_string (snd (u_lines u))) \<le> 63 \<and>
    (let d = fst (read_input ans u) in on_the_screen (in_x d) (in_y d))"
proof -
  have "device_ok u0"
    using run_begin_device [OF assms(1)] new_device_ok [where tr = "[]" and backend = Touch_None]
    by (simp add: new_device_ui_def)
  then have u: "device_ok u" using ui_run_device assms(2,3) by blast
  have short: "length (c_string l) \<le> 63" if "line_ok l" for l
  proof -
    have l: "length l = 64" "last l = char_of (0 :: nat)" using that by (simp_all add: line_ok_def k_line_bytes_def)
    then have "butlast l @ [char_of (0 :: nat)] = l" using append_butlast_last_id [of l] by force
    moreover have "length (butlast l) = 63" using l(1) by simp
    moreover have "byte_of (char_of (0 :: nat)) = 0" by (simp add: byte_of_def)
    then have "length (c_string (xs @ [char_of (0 :: nat)])) \<le> length xs" for xs
      by (induction xs) (simp_all add: c_string_def)
    ultimately show ?thesis by metis
  qed
  have "pointer_ok (u_touch (snd (snd (read_input ans u))))" using read_input_device [OF u] device_pointer by blast
  then have "let d = fst (read_input ans u) in on_the_screen (in_x d) (in_y d)"
    by (auto simp: read_input_def indev_point_def pointer_ok_def Let_def split: touch_backend.splits prod.splits)
  then show ?thesis using u short by (simp add: device_ok_def)
qed

theorem ui_wellformed_witness:
  "\<exists>u. ui_run (\<lambda>_. True) [Ue_Text (replicate 200 CHR ''x'') ''two'', Ue_Volume 250,
       Ue_Lvgl (\<lambda>_. True) sample_time (Lv_Input \<lparr>ia_events = [Ev_X (- 9), Ev_Y 9999, Ev_Report], ia_status = None, ia_point = None\<rparr>),
       Ue_Frame (replicate k_camera_frame_bytes 0)] (sample_device (\<lambda>_. True)) = Some u \<and>
     device_ok u \<and> length (c_string (fst (u_lines u))) \<le> 63"
proof -
  define evs where "evs = [Ue_Text (replicate 200 CHR ''x'') ''two'', Ue_Volume 250,
       Ue_Lvgl (\<lambda>_. True) sample_time (Lv_Input \<lparr>ia_events = [Ev_X (- 9), Ev_Y 9999, Ev_Report], ia_status = None, ia_point = None\<rparr>),
       Ue_Frame (replicate k_camera_frame_bytes 0)]"
  have w: "list_all frame_whole evs" by (simp add: evs_def)
  obtain u where u: "ui_run (\<lambda>_. True) evs (sample_device (\<lambda>_. True)) = Some u"
    using run_returns [of evs "\<lambda>_. True" "sample_device (\<lambda>_. True)"] by (auto simp: evs_def)
  from ui_wellformed [OF sample_run_begin w u] u show ?thesis unfolding evs_def by blast
qed

subsection \<open>Opening and closing\<close>

text \<open>
  What the panel gathers from its two lines: a byte sent while the data line is low is a command, the bytes sent while it is
  high belong to the command before them. And the last level the backlight was set to.
\<close>

fun panel_step :: "ui_io \<Rightarrow> bool \<times> (u8 \<times> bytes) list \<Rightarrow> bool \<times> (u8 \<times> bytes) list" where
  "panel_step (Io_Gpio Pin_Dc high) (dc, cs) = (high, cs)"
| "panel_step (Io_Spi bs) (dc, cs) = (dc, if dc then butlast cs @ [(fst (last cs), snd (last cs) @ bs)] else cs @ map (\<lambda>b. (b, [])) bs)"
| "panel_step _ st = st"

definition panel_heard :: "io_trace \<Rightarrow> (u8 \<times> bytes) list" where
  "panel_heard tr = snd (fold panel_step tr (False, []))"

definition backlight :: "io_trace \<Rightarrow> bool" where
  "backlight tr = fold (\<lambda>op lit. case op of Io_Gpio Pin_Backlight high \<Rightarrow> high | _ \<Rightarrow> lit) tr False"

text \<open>The table as the panel's data sheet has it: commands with their parameters.\<close>

definition panel_table :: "(u8 \<times> bytes) list" where
  "panel_table = [
     (0xB2, [0x0C, 0x0C, 0x00, 0x33, 0x33]), (0x36, [0x00]), (0x3A, [0x55]), (0xB7, [0x55]), (0xBB, [0x1A]),
     (0xC0, [0x2C]), (0xC2, [0x01]), (0xC3, [0x19]), (0xC6, [0x0F]), (0xD0, [0xA7]), (0xD0, [0xA4, 0xA1]), (0xD6, [0xA1]),
     (0xE0, [0xF0, 0x03, 0x09, 0x0B, 0x0A, 0x16, 0x2B, 0x33, 0x41, 0x38, 0x14, 0x14, 0x29, 0x2F]),
     (0xE1, [0xF0, 0x04, 0x06, 0x09, 0x08, 0x04, 0x2B, 0x32, 0x41, 0x36, 0x12, 0x12, 0x2A, 0x30]),
     (0x21, []), (0x2A, [0x00, 0x00, 0x00, 0xEF]), (0x2B, [0x00, 0x00, 0x01, 0x3F]), (0x11, []), (0x29, [])]"

lemma panel_table_parsed: "panel_commands k_panel_init @ [(0x11, []), (0x29, [])] = panel_table"
  by (simp add: panel_table_def k_panel_init_def)

text \<open>\<open>hears f cs lit\<close>: a successful step adds these commands, and sets the backlight when \<open>lit\<close> says so.\<close>

definition hears :: "io_step \<Rightarrow> (u8 \<times> bytes) list \<Rightarrow> bool option \<Rightarrow> bool" where
  "hears f cs lit \<longleftrightarrow> (\<forall>env tr tr'. f env tr = (True, tr') \<longrightarrow> panel_heard tr' = panel_heard tr @ cs \<and>
     backlight tr' = (case lit of None \<Rightarrow> backlight tr | Some b \<Rightarrow> b))"

text \<open>\<open>silent f\<close>: whatever it returns, the panel hears nothing and the backlight stays.\<close>

definition silent :: "io_step \<Rightarrow> bool" where
  "silent f \<longleftrightarrow> (\<forall>env tr. panel_heard (snd (f env tr)) = panel_heard tr \<and> backlight (snd (f env tr)) = backlight tr)"

lemma heard_snoc: "panel_heard (tr @ [op]) = snd (panel_step op (fold panel_step tr (False, [])))"
  by (simp add: panel_heard_def)

lemma heard_append: "panel_heard (tr @ ops) = snd (fold panel_step ops (fold panel_step tr (False, [])))"
  by (simp add: panel_heard_def)

lemma light_snoc: "backlight (tr @ [op]) = (case op of Io_Gpio Pin_Backlight high \<Rightarrow> high | _ \<Rightarrow> backlight tr)"
  by (simp add: backlight_def split: ui_io.split pin.split)

lemma heard_quiet: "panel_step op = (\<lambda>st. st) \<Longrightarrow> panel_heard (tr @ [op]) = panel_heard tr"
  by (simp add: heard_snoc panel_heard_def)

lemma quiet_ops [simp]:
  "p \<noteq> Pin_Dc \<Longrightarrow> panel_step (Io_Gpio p high) = (\<lambda>st. st)"
  "panel_step (Io_OpenGpio p) = (\<lambda>st. st)" "panel_step Io_OpenSpi = (\<lambda>st. st)" "panel_step (Io_SpiSetup n) = (\<lambda>st. st)"
  "panel_step (Io_Exists p) = (\<lambda>st. st)" "panel_step (Io_Export p) = (\<lambda>st. st)" "panel_step (Io_Direction p high) = (\<lambda>st. st)"
  "panel_step (Io_OpenEvent n) = (\<lambda>st. st)" "panel_step (Io_EventName n) = (\<lambda>st. st)" "panel_step Io_OpenI2c = (\<lambda>st. st)"
  "panel_step Io_I2cSlave = (\<lambda>st. st)"
  by (cases p) (auto intro!: ext)

lemma silent_op:
  "panel_step op = (\<lambda>st. st) \<Longrightarrow> (\<And>high. op \<noteq> Io_Gpio Pin_Backlight high) \<Longrightarrow> silent (io_op op)"
  by (auto simp: silent_def io_op_def io_do_def heard_quiet light_snoc split: ui_io.split pin.split)

lemma silent_gpio: "p \<noteq> Pin_Dc \<Longrightarrow> p \<noteq> Pin_Backlight \<Longrightarrow> silent (io_gpio p high)"
  using silent_op [of "Io_Gpio p high"] by (simp add: silent_def io_op_def io_gpio_def set_gpio_def)

lemma silent_nothing: "silent io_nothing"
  by (simp add: silent_def io_nothing_def)

lemma silent_and: "silent f \<Longrightarrow> silent g \<Longrightarrow> silent (io_and f g)"
  unfolding silent_def io_and_def by (auto split: prod.split bool.split) (metis snd_conv)+

lemma silent_both: "silent f \<Longrightarrow> silent g \<Longrightarrow> silent (io_both f g)"
  unfolding silent_def io_both_def by (auto split: prod.split) (metis snd_conv)+

lemma silent_ignore: "silent f \<Longrightarrow> silent (io_ignore f)"
  by (simp add: silent_def io_ignore_def)

lemma silent_wait: "silent (gpio_wait n p)"
proof (induction n)
  case (Suc n)
  have "silent (io_op (Io_Exists p))" by (rule silent_op) simp_all
  then show ?case using Suc unfolding silent_def
    by (auto simp: io_op_def split: prod.split bool.split) (metis snd_conv)+
qed (simp add: silent_def)

lemmas silent_intros = silent_and silent_both silent_ignore silent_nothing silent_wait

lemma silent_open_gpio: "silent (open_gpio p)"
proof -
  have "silent (io_op (Io_Exists p))" by (rule silent_op) simp_all
  moreover have "silent (io_and (if there then io_nothing else io_and (io_op (Io_Export p)) (gpio_wait 50 p))
      (io_and (io_op (Io_Direction p True)) (io_op (Io_OpenGpio p))))" for there
    by (auto intro!: silent_intros silent_op)
  ultimately show ?thesis unfolding silent_def open_gpio_def by (auto simp: io_op_def split: prod.split) (metis snd_conv)+
qed

lemma silent_reset: "silent reset_gt911"
  unfolding reset_gt911_def by (auto intro!: silent_intros silent_open_gpio silent_gpio silent_op)

lemma silent_events: "silent (\<lambda>env tr. open_gt911_event n index names env tr)"
proof (induction n arbitrary: index)
  case (Suc n)
  then show ?case
    by (auto simp: silent_def io_do_def panel_heard_def backlight_def split: option.split bool.split)
qed (simp add: silent_def)

lemma open_touch_silent:
  "open_touch names env tr = (r, tr') \<Longrightarrow> panel_heard tr' = panel_heard tr \<and> backlight tr' = backlight tr"
proof -
  have "silent (io_and reset_gt911 (io_and (io_op Io_OpenI2c) (io_op Io_I2cSlave)))"
    by (auto intro!: silent_intros silent_reset silent_op)
  with silent_events [of k_touch_event_limit 0 names]
  show "open_touch names env tr = (r, tr') \<Longrightarrow> panel_heard tr' = panel_heard tr \<and> backlight tr' = backlight tr"
    unfolding silent_def open_touch_def by (auto split: prod.splits bool.splits) (metis snd_conv)+
qed

subsection \<open>The commands\<close>

lemma hears_and: "hears f cs lit \<Longrightarrow> hears g ds lit' \<Longrightarrow>
    hears (io_and f g) (cs @ ds) (case lit' of None \<Rightarrow> lit | Some b \<Rightarrow> Some b)"
  unfolding hears_def io_and_def by (fastforce split: prod.splits bool.splits option.splits)

lemma hears_silent: "silent f \<Longrightarrow> hears f [] None"
  unfolding silent_def hears_def by (auto) (metis snd_conv)+

lemma hears_light: "hears (io_gpio Pin_Backlight high) [] (Some high)" "hears (io_ignore (io_gpio Pin_Backlight high)) [] (Some high)"
  by (auto simp: hears_def io_gpio_def io_ignore_def set_gpio_def io_do_def heard_quiet light_snoc)

lemma hears_command: "hears (io_command c bs) [(c, bs)] None"
  unfolding hears_def
proof (intro allI impI)
  fix env tr tr'
  assume run: "io_command c bs env tr = (True, tr')"
  have "tr' = tr @ [Io_Gpio Pin_Dc False, Io_Spi [c]] @ (if bs = [] then [] else [Io_Gpio Pin_Dc True, Io_Spi bs])"
    using run by (auto simp: io_command_def ui_command_def set_gpio_def io_do_def split: if_splits prod.splits bool.splits)
  moreover obtain dc where "fold panel_step tr (False, []) = (dc, panel_heard tr)"
    by (metis panel_heard_def prod.collapse)
  ultimately show "panel_heard tr' = panel_heard tr @ [(c, bs)] \<and> backlight tr' = (case None of None \<Rightarrow> backlight tr | Some b \<Rightarrow> b)"
    by (simp add: heard_append backlight_def)
qed

lemma hears_commands: "hears (send_commands cs) cs None"
proof (induction cs)
  case (Cons c cs)
  then show ?case using hears_and [OF hears_command Cons.IH] by (cases c) simp
qed (simp add: hears_silent silent_nothing)

lemma silent_setup: "silent (io_op Io_OpenSpi)" "silent (io_op (Io_SpiSetup n))"
  "silent (io_both (open_gpio Pin_Dc) (io_both (open_gpio Pin_Reset) (open_gpio Pin_Backlight)))"
  "silent (io_ignore (io_gpio Pin_Reset False))" "silent (io_gpio Pin_Reset True)"
  by (auto intro!: silent_op silent_intros silent_open_gpio silent_gpio)

lemma hears_setup:
  assumes "silent f" "hears g cs lit"
  shows "hears (io_and f g) cs lit"
  using hears_and [OF hears_silent [OF assms(1)] assms(2)] by (cases lit) simp_all

lemma hears_panel: "hears open_panel panel_table (Some True)"
proof -
  have "hears (io_and (io_command 0x29 []) (io_gpio Pin_Backlight True)) [(0x29, [])] (Some True)"
    using hears_and [OF hears_command hears_light(1)] by simp
  from hears_and [OF hears_commands [of "panel_commands k_panel_init"] hears_and [OF hears_command [of "0x11" "[]"] this]]
  have init: "hears (io_and (send_commands (panel_commands k_panel_init))
      (io_and (io_command 0x11 []) (io_and (io_command 0x29 []) (io_gpio Pin_Backlight True)))) panel_table (Some True)"
    using panel_table_parsed by simp
  have "hears (io_and (io_ignore (io_gpio Pin_Backlight False)) (io_and (io_ignore (io_gpio Pin_Reset False))
      (io_and (io_gpio Pin_Reset True) (io_and (send_commands (panel_commands k_panel_init))
      (io_and (io_command 0x11 []) (io_and (io_command 0x29 []) (io_gpio Pin_Backlight True))))))) panel_table (Some True)"
    using hears_and [OF hears_light(2) hears_setup [OF silent_setup(4) hears_setup [OF silent_setup(5) init]]] by simp
  from hears_setup [OF silent_setup(3) this] show ?thesis
    unfolding open_panel_def by (simp only: hears_setup silent_setup)
qed

text \<open>C31: a UI that opens has really set up its panel: when \<^verbatim>\<open>Open\<close> succeeds the worker runs, the panel has heard exactly the commands
  of its table with their parameters, awakening and display-on last, and the backlight is on. \<^verbatim>\<open>Close\<close> switches it
  off and a failed \<^verbatim>\<open>Open\<close> leaves no object.\<close>

theorem device_opens:
  assumes "ui_open e glyph = (ok, d)"
  shows "(case d of None \<Rightarrow> \<not> ok
     | Some u \<Rightarrow> ok \<and> u_ready u \<and> device_ok u \<and> panel_heard (u_io u) = panel_table \<and> backlight (u_io u)) \<and>
    fst (ui_close env d) = None \<and> \<not> backlight (snd (ui_close env d))"
proof -
  have closed: "fst (ui_close env d) = None \<and> \<not> backlight (snd (ui_close env d))"
    by (simp add: ui_close_def close_impl_def set_gpio_def io_do_def light_snoc backlight_def split: option.split)
  show ?thesis
  proof (cases d)
    case None
    then show ?thesis using assms closed by (auto simp: ui_open_def Let_def split: if_splits prod.splits bool.splits option.splits)
  next
    case (Some u)
    obtain tr tr1 backend where p: "open_panel (uo_io e) [] = (True, tr)" "open_touch (uo_names e) (uo_io e) tr = (Some backend, tr1)"
        "ok" and r: "fst (run_begin (uo_lvgl e) glyph (new_device_ui\<lparr>u_io := tr1, u_touch_backend := backend\<rparr>)) \<or>
          u_worker_succeeded u" and u: "u = snd (run_begin (uo_lvgl e) glyph (new_device_ui\<lparr>u_io := tr1, u_touch_backend := backend\<rparr>))"
          "u_worker_succeeded u"
      using assms Some by (auto simp: ui_open_def Let_def split: if_splits prod.splits bool.splits option.splits)
    have "fst (run_begin (uo_lvgl e) glyph (new_device_ui\<lparr>u_io := tr1, u_touch_backend := backend\<rparr>))"
      using u by (auto simp: run_begin_def signal_startup_def split: prod.splits bool.splits)
    then have run: "run_begin (uo_lvgl e) glyph (new_device_ui\<lparr>u_io := tr1, u_touch_backend := backend\<rparr>) = (True, u)"
      using u(1) by (simp add: prod_eq_iff)
    have "panel_heard tr = panel_heard [] @ panel_table" "backlight tr"
      using hears_panel p(1) unfolding hears_def by fastforce+
    then have "panel_heard tr1 = panel_table" "backlight tr1"
      using open_touch_silent [OF p(2)] by (simp_all add: panel_heard_def)
    then show ?thesis
      using closed Some p(3) run_begin_device [OF run new_device_ok] by (simp add: new_device_ui_def)
  qed
qed

text \<open>A board on which everything answers.\<close>

definition sample_board :: ui_open_env where
  "sample_board = \<lparr>uo_io = (\<lambda>_. True), uo_names = (\<lambda>_. Some ''Goodix Capacitive TouchScreen''), uo_alloc = True, uo_thread = True,
     uo_in_time = True, uo_lvgl = sample_lvgl\<rparr>"

lemma io_do_works: "io_do (\<lambda>_. True) op tr = (True, tr @ [op])"
  by (simp add: io_do_def)

lemma and_works: "fst (f (\<lambda>_. True) tr) \<Longrightarrow> (\<And>tr. fst (g (\<lambda>_. True) tr)) \<Longrightarrow> fst (io_and f g (\<lambda>_. True) tr)"
  unfolding io_and_def by (auto split: prod.split bool.split)

lemma both_works: "fst (f (\<lambda>_. True) tr) \<Longrightarrow> (\<And>tr. fst (g (\<lambda>_. True) tr)) \<Longrightarrow> fst (io_both f g (\<lambda>_. True) tr)"
  unfolding io_both_def by (auto split: prod.split) (metis fst_conv)

lemma steps_work:
  "fst (io_op op (\<lambda>_. True) tr)" "fst (io_gpio p high (\<lambda>_. True) tr)" "fst (io_ignore f (\<lambda>_. True) tr)"
  "fst (io_command c bs (\<lambda>_. True) tr)" "fst (io_nothing (\<lambda>_. True) tr)"
  by (simp_all add: io_op_def io_gpio_def set_gpio_def io_do_works io_ignore_def io_command_def ui_command_def io_nothing_def)

lemma open_gpio_works: "fst (open_gpio p (\<lambda>_. True) tr)"
  unfolding open_gpio_def by (simp add: io_do_works) (intro and_works steps_work)

lemma send_commands_work: "fst (send_commands cs (\<lambda>_. True) tr)"
  by (induction cs arbitrary: tr) (auto simp: steps_work intro!: and_works)

lemma open_panel_works: "fst (open_panel (\<lambda>_. True) tr)"
  unfolding open_panel_def by (intro and_works both_works steps_work open_gpio_works send_commands_work)

lemma sample_opens: "fst (ui_open sample_board glyph)"
proof -
  obtain tr where p: "open_panel (\<lambda>_. True) [] = (True, tr)" using open_panel_works [of "[]"] by (metis prod.collapse)
  have "is_gt911_name ''Goodix Capacitive TouchScreen''" by code_simp
  then obtain tr1 where t: "open_touch (\<lambda>_. Some ''Goodix Capacitive TouchScreen'') (\<lambda>_. True) tr = (Some Touch_Event, tr1)"
    by (simp add: open_touch_def k_touch_event_limit_def numeral_eq_Suc io_do_works)
  have "\<exists>u. run_begin sample_lvgl glyph (new_device_ui\<lparr>u_io := tr1, u_touch_backend := b\<rparr>) = (True, u) \<and>
      u_worker_started u \<and> u_worker_succeeded u" for tr1 b
  proof -
    have "fst (initialize_lvgl sample_lvgl (new_device_ui\<lparr>u_io := tr1, u_touch_backend := b\<rparr>))"
      by (simp add: initialize_lvgl_def sample_lvgl_def new_device_ui_def create_sample Let_def)
    then show ?thesis by (auto simp: run_begin_def signal_startup_def split: prod.split bool.split)
  qed
  then obtain u where "run_begin sample_lvgl glyph (new_device_ui\<lparr>u_io := tr1, u_touch_backend := Touch_Event\<rparr>) = (True, u)"
      "u_worker_started u" "u_worker_succeeded u" by blast
  then show ?thesis using p t by (simp add: ui_open_def sample_board_def Let_def)
qed

theorem device_opens_witness:
  "\<exists>u. ui_open sample_board (\<lambda>_. True) = (True, Some u) \<and> u_ready u \<and> panel_heard (u_io u) = panel_table \<and>
     \<not> backlight (snd (ui_close (\<lambda>_. True) (Some u)))"
proof -
  obtain d where d: "ui_open sample_board (\<lambda>_. True) = (True, d)" using sample_opens by (metis prod.collapse)
  from device_opens [OF d, of "\<lambda>_. True"] d show ?thesis by (cases d) auto
qed

end
