(* ===== verification/ScreenFollows.thy ===== *)
theory ScreenFollows
  imports ClientDisplay DeviceProps
begin

section \<open>From the conversation to the screen\<close>

text \<open>
  The two halves of the display together: the calls the actor makes on \<^verbatim>\<open>DeviceUi\<close> are those the UI
  thread finds in its mailbox, between whatever else happens to it.
\<close>

definition actor_calls :: "ui_event list \<Rightarrow> ui_call list" where
  "actor_calls evs = concat (map (\<lambda>ev. case ev of Ue_State x \<Rightarrow> [Call_State x] | Ue_Text a b \<Rightarrow> [Call_Text a b]
     | Ue_Volume v \<Rightarrow> [Call_Volume v] | Ue_Brightness env v \<Rightarrow> [Call_Brightness v] | _ \<Rightarrow> []) evs)"

definition last_state :: "ui_call list \<Rightarrow> device_ui_state \<Rightarrow> device_ui_state" where
  "last_state calls s = fold (\<lambda>u s. case u of Call_State x \<Rightarrow> x | _ \<Rightarrow> s) calls s"

lemma actor_calls_cons: "actor_calls [] = []" "actor_calls (ev # evs) = actor_calls [ev] @ actor_calls evs"
  by (simp_all add: actor_calls_def)

lemma last_state_simps [simp]: "last_state [] s = s" "last_state (xs @ ys) s = last_state ys (last_state xs s)"
  by (simp_all add: last_state_def)

text \<open>A display that has failed stays so.\<close>

lemma ready_called [simp]: "u_ready (screen_called c u) = u_ready u"
  by (cases c; simp add: voice_interrupted_def app_action_def camera_activity_def screen_volume_changed_def queue_volume_change_def
      queue_action_def Let_def)

lemma ready_calls [simp]: "u_ready (fold screen_called cs u) = u_ready u"
  by (induction cs arbitrary: u) simp_all

lemma ready_screen [simp]: "u_ready (on_screen f u) = u_ready u"
  by (simp add: on_screen_def split: prod.split)

lemma ready_touch [simp]: "u_ready (end_touch u) = u_ready u"
  by (simp add: end_touch_def Let_def queue_action_def split: option.split)

lemma ready_input [simp]: "u_ready (handle_input ev u) = u_ready u"
  by (cases ev) (simp_all add: handle_input_def Let_def)

lemma ready_events [simp]: "u_ready (snd (snd (read_event_input evs u))) = u_ready u"
  by (induction evs arbitrary: u) (simp_all add: Let_def)

lemma ready_gt911 [simp]: "u_ready (poll_gt911 status point u) = u_ready u"
  by (simp add: poll_gt911_def read_gt911_def clear_gt911_status_def Let_def split: option.split)

lemma ready_read [simp]: "u_ready (snd (snd (read_input ans u))) = u_ready u"
proof -
  obtain a b v where r: "read_event_input (ia_events ans) u = (a, b, v)" by (metis prod_cases3)
  then have "u_ready v = u_ready u" using ready_events [of "ia_events ans" u] by simp
  then show ?thesis by (simp add: read_input_def Let_def r split: touch_backend.split)
qed

lemma dispatch_parts: "(u_ready (lv_dispatch env now act u) \<longrightarrow> u_ready u) \<and> u_state (lv_dispatch env now act u) = u_state u"
proof -
  have "u_state (on_screen f u) = u_state u" for f by (simp add: on_screen_def calls_fields split: prod.split)
  moreover have "u_state (snd (snd (read_input ans u))) = u_state u" for ans
    using read_input_view [of ans u] by (simp add: ui_view_def)
  moreover have "u_state (flush_display env a pixels u) = u_state u" for a pixels
    using flush_display_view [of env a pixels u] by (simp add: ui_view_def)
  moreover have "u_ready (flush_display env a pixels u) \<longrightarrow> u_ready u" for a pixels
    by (simp add: flush_display_def fail_display_def Let_def split: prod.split)
  ultimately show ?thesis by (cases act) simp_all
qed

lemma dispatches_parts:
  "(u_ready (fold (lv_dispatch env now) acts u) \<longrightarrow> u_ready u) \<and> u_state (fold (lv_dispatch env now) acts u) = u_state u"
proof (induction acts arbitrary: u)
  case (Cons act acts)
  then show ?case using dispatch_parts [of env now act u] by simp
qed simp

lemma pass_parts:
  assumes "ui_ok glyph u" and "ui_pass glyph e u = Some u'"
  shows "(u_ready u' \<longrightarrow> u_ready u) \<and> u_state u' = u_state u"
proof -
  obtain u2 where u2: "pass_camera e u = Some u2"
    "u' = fold (lv_dispatch (pe_io e) (pe_now e)) (pe_actions e) (pass_show glyph e u u2)"
    using assms(2) by (auto simp: ui_pass_split split: option.splits)
  have "u_state (pass_show glyph e u u2) = u_state u"
    using pass_show_ok [OF assms(1) u2(1)] pass_camera_parts [OF assms(1) u2(1)] by (simp add: same_flags_def)
  moreover have "u_ready u2 = u_ready u"
    using u2(1) by (auto simp: pass_camera_def start_camera_def stop_camera_def Let_def split: if_splits)
  then have "u_ready (pass_show glyph e u u2) = u_ready u"
    by (simp add: pass_show_def Let_def present_state_def present_text_def present_volume_def)
  ultimately show ?thesis using dispatches_parts [of "pe_io e" "pe_now e" "pe_actions e" "pass_show glyph e u u2"] u2(2) by simp
qed

text \<open>The mailbox holds the last state handed over, as long as the display works.\<close>

lemma mailbox_step:
  assumes "ui_ok glyph u" and "ui_step glyph ev u = Some u'"
  shows "(u_ready u' \<longrightarrow> u_ready u \<and> u_state u' = last_state (actor_calls [ev]) (u_state u))"
proof (cases ev)
  case (Ue_Pass e)
  then show ?thesis using pass_parts [OF assms(1)] assms(2) by (simp add: actor_calls_def)
next
  case (Ue_Lvgl env now act)
  then show ?thesis using dispatch_parts [of env now act u] assms(2) by (auto simp: actor_calls_def)
next
  case Ue_Poll
  then show ?thesis using assms(2)
    by (auto simp: actor_calls_def ui_poll_action_def poll_action_def Let_def split: option.splits if_splits)
next
  case Ue_PollVolume
  then show ?thesis using assms(2)
    by (auto simp: actor_calls_def ui_poll_volume_change_def poll_volume_change_def Let_def split: option.splits if_splits)
qed (use assms(2) in \<open>auto simp: actor_calls_def last_state_def ui_set_state_def ui_set_text_def ui_set_volume_def
    ui_set_brightness_def publish_frame_def Let_def split: if_splits\<close>)

lemma mailbox_run:
  "ui_ok glyph u \<Longrightarrow> ui_run glyph evs u = Some u' \<Longrightarrow> u_ready u' \<Longrightarrow>
   u_ready u \<and> u_state u' = last_state (actor_calls evs) (u_state u)"
proof (induction evs arbitrary: u)
  case (Cons ev evs)
  obtain u1 where u1: "ui_step glyph ev u = Some u1" "ui_run glyph evs u1 = Some u'"
    using Cons.prems(2) by (auto split: option.splits)
  have ok: "ui_ok glyph u1" by (rule ui_step_ok [OF Cons.prems(1) u1(1)])
  from Cons.IH [OF ok u1(2) Cons.prems(3)] show ?case
    using mailbox_step [OF Cons.prems(1) u1(1)] by (subst actor_calls_cons(2)) simp
qed (simp add: actor_calls_cons)

lemma begin_state: "run_begin le glyph new_device_ui = (True, u0) \<Longrightarrow> u_state u0 = Ui_Idle"
  by (auto simp: run_begin_def initialize_lvgl_def new_device_ui_def signal_startup_def present_volume_def present_text_def
      present_state_def on_screen_def calls_fields Let_def split: prod.splits bool.splits if_splits)


text \<open>The display of the sample conversation: its calls, one after the other.\<close>

definition call_event :: "ui_call \<Rightarrow> ui_event" where
  "call_event u = (case u of Call_State x \<Rightarrow> Ue_State x | Call_Text a b \<Rightarrow> Ue_Text a b | Call_Volume v \<Rightarrow> Ue_Volume v
     | Call_Brightness v \<Rightarrow> Ue_Brightness (\<lambda>_. True) v)"

lemma call_events: "actor_calls (map call_event us) = us" "u_ready u \<Longrightarrow> ui_run glyph (map call_event us) u = Some v \<Longrightarrow> u_ready v"
proof -
  show "actor_calls (map call_event us) = us"
    by (induction us) (auto simp: actor_calls_def call_event_def split: ui_call.split)
  have step: "u_ready u \<Longrightarrow> ui_step glyph (call_event c) u = Some v \<Longrightarrow> u_ready v" for c u v
    by (cases c) (auto simp: call_event_def ui_set_state_def ui_set_text_def ui_set_volume_def ui_set_brightness_def Let_def split: if_splits)
  show "u_ready u \<Longrightarrow> ui_run glyph (map call_event us) u = Some v \<Longrightarrow> u_ready v"
    by (induction us arbitrary: u) (use step in \<open>auto split: option.splits\<close>)
qed

lemma calls_no_pass: "Ue_Pass e \<notin> set (map call_event us)"
proof -
  have "call_event c \<noteq> Ue_Pass e" for c by (cases c) (simp_all add: call_event_def)
  then show ?thesis by (metis imageE set_map)
qed


end
