(* ===== verification/ProgramEntry.thy ===== *)
theory ProgramEntry
  imports ClientLoop NetworkProps
begin

section \<open>The program\<close>

text \<open>
  \<^verbatim>\<open>src/client/apps/boompi_client/main.cpp\<close>, \<^verbatim>\<open>RunVoiceClient\<close> and the thread \<^verbatim>\<open>NetworkLoop\<close>: how the configuration,
  the saved server, the network bootstrap and the client are put together.
\<close>

subsection \<open>The command line\<close>

text \<open>What the process finds: its arguments, standard input, environment, and the results of the file operations.\<close>

record main_env =
  me_argv :: "string list"
  me_input :: string
  me_environment :: environment
  me_strtof :: strtof_fun
  me_inet_pton :: "string \<Rightarrow> bool"
  me_dir_ok :: bool
  me_write :: atomic_env

text \<open>\<open>Main_Exits\<close>: the exit status is success or not, and the message printed. \<open>Main_Runs\<close>: \<^verbatim>\<open>RunVoiceClient\<close> is called.\<close>

datatype main_step = Main_Exits bool string | Main_Runs voice_client_config

text \<open>\<^verbatim>\<open>std::getline\<close>: the line and what follows it; it fails when nothing is left.\<close>

definition get_line :: "string \<Rightarrow> (string \<times> string) option" where
  "get_line input = (if input = [] then None
     else Some (takeWhile (\<lambda>c. c \<noteq> CHR 0x0A) input, drop 1 (dropWhile (\<lambda>c. c \<noteq> CHR 0x0A) input)))"

definition usage_message :: string where
  "usage_message = ''usage: boompi-client [--voice-loop|--check-config|--save-wifi]'' @ [CHR 0x0A]"

definition configured_server :: "voice_client_config \<Rightarrow> endpoint" where
  "configured_server cfg = \<lparr>ep_host = server_ip cfg, ep_port = server_port cfg, ep_spki = server_spki_sha256 cfg\<rparr>"

text \<open>\<^verbatim>\<open>main\<close> up to the signal handlers. \<open>None\<close>: a write of a file does not end.\<close>

definition main_mode :: "string list \<Rightarrow> string" where
  "main_mode argv = (if length argv = 2 then argv ! 1 else ''--voice-loop'')"

definition save_wifi_mode :: "main_env \<Rightarrow> file_system \<Rightarrow> (main_step \<times> file_system) option" where
  "save_wifi_mode e fs = (case get_line (me_input e) of
     None \<Rightarrow> Some (Main_Exits False [], fs)
   | Some (ssid, rest) \<Rightarrow> (case get_line rest of
       None \<Rightarrow> Some (Main_Exits False [], fs)
     | Some (password, _) \<Rightarrow>
         map_option (\<lambda>(ok, fs'). (Main_Exits ok [], fs')) (save_wifi (me_write e) ssid password fs)))"

definition main_prepare :: "main_env \<Rightarrow> file_system \<Rightarrow> (main_step \<times> file_system) option" where
  "main_prepare e fs = (let mode = main_mode (me_argv e) in
     if 2 < length (me_argv e) \<or> mode \<notin> {''--voice-loop'', ''--check-config'', ''--save-wifi''}
     then Some (Main_Exits False usage_message, fs)
     else if mode = ''--save-wifi'' then save_wifi_mode e fs
     else case load_voice_client_config (me_strtof e) (me_environment e) True of
       Inl error \<Rightarrow> Some (Main_Exits False (''boompi-client: configuration failed: '' @ error @ [CHR 0x0A]), fs)
     | Inr cfg \<Rightarrow>
         if mode = ''--check-config'' then Some (Main_Exits True (''boompi-client: configuration is valid'' @ [CHR 0x0A]), fs)
         else if server_ip cfg = [] then Some (Main_Runs cfg, fs)
         else (case save_server (me_inet_pton e) (me_dir_ok e) (me_write e) (configured_server cfg) fs of
             None \<Rightarrow> None
           | Some (False, fs') \<Rightarrow> Some (Main_Exits False (''boompi-client: cannot save configured server'' @ [CHR 0x0A]), fs')
           | Some (True, fs') \<Rightarrow> Some (Main_Runs cfg, fs')))"

text \<open>\<^verbatim>\<open>RunVoiceClient\<close>: the result and the error text; \<open>thrown\<close> is an exception out of the client, \<^verbatim>\<open>bad_alloc\<close> or another.\<close>

definition run_voice_client :: "bool option \<Rightarrow> loop_result \<Rightarrow> bool \<times> string" where
  "run_voice_client thrown r = (case thrown of
     Some True \<Rightarrow> (False, ''voice client allocation failed'')
   | Some False \<Rightarrow> (False, ''voice client failed unexpectedly'')
   | None \<Rightarrow> (case r of Going c \<Rightarrow> (True, []) | Failed c \<Rightarrow> (False, c_error c)))"

text \<open>\<^verbatim>\<open>~VoiceClient\<close>, which runs on every way out; the network thread it joins reads \<^verbatim>\<open>stop_network_\<close> before each round.\<close>

definition destroy_client :: "client \<Rightarrow> client" where
  "destroy_client c = on_audio close_engine (case c_transport c of
     None \<Rightarrow> c
   | Some t \<Rightarrow> (case close_transport t of (t', os) \<Rightarrow> c\<lparr>c_transport := Some t', c_wire := c_wire c @ os\<rparr>))"

lemma destroyed_is_silent:
  assumes "c_transport c = Some t" and "t_closing t \<longrightarrow> \<not> t_connected t" and "d = destroy_client c"
  shows "\<not> e_open (c_audio d) \<and> e_is_done (c_audio d) \<and> e_tts_count (c_audio d) = 0 \<and> e_capture_count (c_audio d) = 0 \<and>
    (\<exists>t'. c_transport d = Some t' \<and> \<not> t_connected t' \<and> t_closing t' \<and> snd (snd (send_control env ctl t')) = [] \<and>
       snd (snd (send_pcm env h pcm t')) = [] \<and>
       c_wire d = c_wire c @ (if t_connected t then [Out_Close ''''] else []))"
proof -
  obtain t' os where cl: "close_transport t = (t', os)" by fastforce
  then have t': "\<not> t_connected t'" "t_closing t'" "os = (if t_connected t then [Out_Close ''''] else [])"
    using assms(2) by (auto simp: close_transport_def split: if_splits)
  have "snd (snd (send_control env ctl t')) = []"
    by (rule send_control_cases [of env ctl t', OF refl]) (use t'(1) in auto)
  moreover have "snd (snd (send_pcm env h pcm t')) = []"
    by (rule send_pcm_cases [of env h pcm t', OF refl]) (use t'(1) in \<open>auto simp: pcm_acceptable_def\<close>)
  ultimately show ?thesis using assms(1,3) t'
    by (simp add: destroy_client_def on_audio_def cl close_engine_def clear_queue_def clear_capture_queue_def)
qed

text \<open>The whole of \<^verbatim>\<open>main\<close>: exit status, message, and the files when the client starts.\<close>

definition boompi_main ::
  "main_env \<Rightarrow> (voice_client_config \<Rightarrow> bool option \<times> loop_result) \<Rightarrow> file_system \<Rightarrow> (bool \<times> string \<times> file_system) option" where
  "boompi_main e run fs = (case main_prepare e fs of
     None \<Rightarrow> None
   | Some (Main_Exits ok message, fs') \<Rightarrow> Some (ok, message, fs')
   | Some (Main_Runs cfg, fs') \<Rightarrow> (case run cfg of (thrown, r) \<Rightarrow> (case run_voice_client thrown r of
       (True, _) \<Rightarrow> Some (True, [], fs')
     | (False, error) \<Rightarrow> Some (False, ''boompi-client: voice loop failed: '' @ error @ [CHR 0x0A], fs'))))"

subsection \<open>The network thread\<close>

text \<open>
  \<^verbatim>\<open>NetworkLoop\<close>: each round reads \<^verbatim>\<open>network_needed_\<close> and, when it is set, runs one bootstrap. The result lists the endpoints
  it published; the events \<open>Th_Endpoint\<close> of the client's loop are made from them.
\<close>

definition explicit_server :: "voice_client_config \<Rightarrow> endpoint option" where
  "explicit_server cfg = (if server_ip cfg = [] then None else Some (configured_server cfg))"

fun network_loop ::
  "(string \<Rightarrow> bool) \<Rightarrow> voice_client_config \<Rightarrow> (bool \<times> start_env) list \<Rightarrow> file_system \<Rightarrow> (endpoint list \<times> file_system) option" where
  "network_loop inet_pton cfg [] fs = Some ([], fs)"
| "network_loop inet_pton cfg ((needed, e) # rounds) fs =
     (if \<not> needed then network_loop inet_pton cfg rounds fs
      else case start_network inet_pton e (explicit_server cfg) fs of
        None \<Rightarrow> None
      | Some (None, fs') \<Rightarrow> network_loop inet_pton cfg rounds fs'
      | Some (Some found, fs') \<Rightarrow> map_option (\<lambda>(es, fs''). (found # es, fs'')) (network_loop inet_pton cfg rounds fs'))"

subsection \<open>The key of the server\<close>

definition knows_key :: "(string \<Rightarrow> bool) \<Rightarrow> string \<Rightarrow> file_system \<Rightarrow> bool" where
  "knows_key inet_pton key fs \<longleftrightarrow> fs (k_server_config @ ''.tmp'') = None \<and>
     (\<exists>s. load_server inet_pton fs = Some s \<and> ep_spki s = key)"

lemma start_network_explicit:
  "start_network inet_pton e (Some s) fs = Some (r, fs') \<Longrightarrow> fs' = fs \<and> (r = None \<or> r = Some s \<and> is_endpoint inet_pton s)"
  by (auto simp: start_network_def split: option.splits if_splits)

lemma start_network_tmp:
  assumes "start_network inet_pton e None fs = Some (r, fs')" "fs (k_server_config @ ''.tmp'') = None"
  shows "fs' (k_server_config @ ''.tmp'') = None"
proof -
  have "save_server inet_pton d a s fs = Some (ok, g) \<Longrightarrow> g (k_server_config @ ''.tmp'') = None" for d a s ok g
    using save_server_result [of inet_pton d a s fs ok g] assms(2) by auto
  then show ?thesis
    using assms by (auto simp: start_network_def Let_def split: option.splits if_splits prod.splits bool.splits)
qed

lemma start_network_key:
  assumes "dotted_only inet_pton" "knows_key inet_pton key fs"
    and "start_network inet_pton e explicit fs = Some (r, fs')"
    and "\<And>s. explicit = Some s \<Longrightarrow> ep_spki s = key"
  shows "knows_key inet_pton key fs' \<and> (\<forall>s. r = Some s \<longrightarrow> is_endpoint inet_pton s \<and> ep_spki s = key)"
proof (cases explicit)
  case (Some s)
  then show ?thesis using start_network_explicit [of inet_pton e s fs r fs'] assms by auto
next
  case None
  obtain saved where s: "load_server inet_pton fs = Some saved" "ep_spki saved = key" "fs (k_server_config @ ''.tmp'') = None"
    using assms(2) by (auto simp: knows_key_def)
  have st: "start_network inet_pton e None fs = Some (r, fs')" using assms(3) None by simp
  show ?thesis
    using start_network_outcome [OF s(3,1) st] start_network_tmp [OF st s(3)] s server_line_loads [OF assms(1)]
      load_server_endpoint [OF s(1)]
    by (auto simp: knows_key_def)
qed

lemma network_loop_key:
  assumes "dotted_only inet_pton" "knows_key inet_pton key fs" "network_loop inet_pton cfg rounds fs = Some (found, fs')"
    and "server_ip cfg \<noteq> [] \<Longrightarrow> server_spki_sha256 cfg = key"
  shows "knows_key inet_pton key fs' \<and> (\<forall>s \<in> set found. is_endpoint inet_pton s \<and> ep_spki s = key)"
  using assms(2,3)
proof (induction rounds arbitrary: fs found)
  case (Cons round rounds)
  obtain needed e where round: "round = (needed, e)" by fastforce
  have explicit: "\<And>s. explicit_server cfg = Some s \<Longrightarrow> ep_spki s = key"
    using assms(4) by (auto simp: explicit_server_def configured_server_def split: if_splits)
  show ?case
  proof (cases needed)
    case False
    then show ?thesis using Cons round by simp
  next
    case True
    then obtain r fs1 where st: "start_network inet_pton e (explicit_server cfg) fs = Some (r, fs1)"
      using Cons.prems(2) round by (auto split: option.splits)
    note k = start_network_key [OF assms(1) Cons.prems(1) st explicit]
    show ?thesis
      using Cons.IH [of fs1] Cons.prems(2) True round st k by (auto split: option.splits)
  qed
qed simp

lemma read_string_value: "read_string env name req n = Inr v \<Longrightarrow> v = [] \<or> env name = Some v"
  by (auto simp: read_string_def getenv_nonempty_def bad_def split: option.splits if_splits)

lemma loaded_address:
  assumes "load_voice_client_config strtof env True = Inr cfg"
  shows "server_ip cfg = [] \<or> env ''BOOMPI_SERVER_IP'' = Some (server_ip cfg)"
proof -
  have "read_string env ''BOOMPI_SERVER_IP'' False 64 = Inr (server_ip cfg)"
    using assms unfolding load_voice_client_config_def Let_def
    apply (simp split del: if_split)
    apply (elim conjE exE)
    apply hypsubst_thin
    apply (simp only: voice_client_config.select_convs)
    done
  then show ?thesis using read_string_value by blast
qed

lemma main_runs:
  assumes "main_prepare e fs = Some (Main_Runs cfg, fs')"
  shows "load_voice_client_config (me_strtof e) (me_environment e) True = Inr cfg \<and>
    (if server_ip cfg = [] then fs' = fs
     else save_server (me_inet_pton e) (me_dir_ok e) (me_write e) (configured_server cfg) fs = Some (True, fs'))"
  using assms
  by (auto simp: main_prepare_def save_wifi_mode_def Let_def split: if_splits option.splits sum.splits prod.splits bool.splits)

lemma save_server_accepts: "save_server inet_pton d a s fs = Some (True, fs') \<Longrightarrow> is_endpoint inet_pton s"
  by (auto simp: save_server_def split: if_splits)

lemma network_loop_explicit:
  assumes "network_loop inet_pton cfg rounds fs = Some (found, fs')" "server_ip cfg \<noteq> []"
  shows "fs' = fs \<and> set found \<subseteq> {configured_server cfg}"
  using assms
proof (induction rounds arbitrary: found fs)
  case (Cons round rounds)
  obtain needed e where round: "round = (needed, e)" by fastforce
  have ex: "explicit_server cfg = Some (configured_server cfg)" using Cons.prems(2) by (simp add: explicit_server_def)
  show ?case
  proof (cases needed)
    case False
    then show ?thesis using Cons.IH [of fs found] Cons.prems round by simp
  next
    case True
    then obtain r fs1 where st: "start_network inet_pton e (Some (configured_server cfg)) fs = Some (r, fs1)"
      using Cons.prems(1) round ex by (auto split: option.splits)
    then show ?thesis
      using start_network_explicit [OF st] Cons.IH [of fs] Cons.prems True round ex by (auto split: option.splits)
  qed
qed simp

subsection \<open>The configured key\<close>

text \<open>C21: the key given in the environment is the only one the device trusts from then on: when \<^verbatim>\<open>main\<close> reaches the client with a configured
  server, that server is already saved; the network thread publishes no other endpoint; and in any later run without the
  variables, whatever answers the discovery, every endpoint published and the saved one still have this key.\<close>

theorem configured_pin_governs:
  assumes "dotted_only (me_inet_pton e)" and "fs (k_server_config @ ''.tmp'') = None"
    and "\<forall>n v. me_environment e n = Some v \<longrightarrow> c_string v = v"
    and "main_prepare e fs = Some (Main_Runs cfg, fs1)" and "server_ip cfg \<noteq> []"
    and "network_loop (me_inet_pton e) cfg rounds fs1 = Some (found, fs2)"
    and "server_ip cfg' = []" and "network_loop (me_inet_pton e) cfg' later fs2 = Some (found', fs3)"
  shows "load_server (me_inet_pton e) fs1 = Some (configured_server cfg) \<and> set found \<subseteq> {configured_server cfg} \<and>
    (\<forall>s \<in> set found'. is_endpoint (me_inet_pton e) s \<and> ep_spki s = server_spki_sha256 cfg) \<and>
    (\<exists>s. load_server (me_inet_pton e) fs3 = Some s \<and> ep_spki s = server_spki_sha256 cfg)"
proof -
  have load: "load_voice_client_config (me_strtof e) (me_environment e) True = Inr cfg"
    and save: "save_server (me_inet_pton e) (me_dir_ok e) (me_write e) (configured_server cfg) fs = Some (True, fs1)"
    using main_runs [OF assms(4)] assms(5) by simp_all
  have "c_string (ep_host (configured_server cfg)) = ep_host (configured_server cfg)"
    using loaded_address [OF load] assms(3,5) by (auto simp: configured_server_def)
  moreover have f1: "fs1 = fs(k_server_config \<mapsto> server_line (configured_server cfg))"
    using save_server_result [OF save assms(2)] by simp
  ultimately have saved: "load_server (me_inet_pton e) fs1 = Some (configured_server cfg)"
    using server_line_loads [OF assms(1) save_server_accepts [OF save]] by simp
  then have "knows_key (me_inet_pton e) (server_spki_sha256 cfg) fs1"
    using f1 assms(2) by (simp add: knows_key_def configured_server_def)
  moreover have quiet: "fs2 = fs1" "set found \<subseteq> {configured_server cfg}" using network_loop_explicit [OF assms(6,5)] by blast+
  ultimately have "knows_key (me_inet_pton e) (server_spki_sha256 cfg) fs2" by blast
  from network_loop_key [OF assms(1) this assms(8)] assms(7)
  have later: "knows_key (me_inet_pton e) (server_spki_sha256 cfg) fs3"
      "\<forall>s \<in> set found'. is_endpoint (me_inet_pton e) s \<and> ep_spki s = server_spki_sha256 cfg" by blast+
  from later(1) have "\<exists>s. load_server (me_inet_pton e) fs3 = Some s \<and> ep_spki s = server_spki_sha256 cfg"
    unfolding knows_key_def by blast
  with saved quiet(2) later(2) show ?thesis by blast
qed

text \<open>A device set up with a server in its environment, started again without it in a network where another server answers.\<close>

definition sample_server_env :: environment where
  "sample_server_env = sample_env(''BOOMPI_SERVER_IP'' \<mapsto> ''10.0.0.1'', ''BOOMPI_SERVER_SPKI_SHA256'' \<mapsto> sample_pin)"

definition sample_server_config :: voice_client_config where
  "sample_server_config = sample_config\<lparr>server_ip := ''10.0.0.1'', server_spki_sha256 := sample_pin\<rparr>"

definition sample_main :: main_env where
  "sample_main = \<lparr>me_argv = [''boompi-client''], me_input = [], me_environment = sample_server_env, me_strtof = sample_strtof,
     me_inet_pton = sample_inet, me_dir_ok = True, me_write = sample_write\<lparr>aw_writes := [Wrote 1000]\<rparr>\<rparr>"

lemma sample_pin_valid: "is_valid_spki_sha256 sample_pin"
  unfolding sample_pin_def by code_simp

lemma sample_server_load: "load_voice_client_config sample_strtof sample_server_env True = Inr sample_server_config"
proof -
  have "length sample_pin = 44" "sample_pin \<noteq> []" by (simp_all add: sample_pin_def)
  then show ?thesis
    by (simp add: load_voice_client_config_def sample_server_env_def sample_server_config_def sample_env_def sample_strtof_def
        sample_config_def reader_defs sample_device_id sample_token sample_pin_valid is_snowboy_sensitivity_def is_digit_def
        c_isspace_def byte_of_def)
qed

lemma sample_main_saves:
  "\<exists>fs1. main_prepare sample_main (\<lambda>_. None) = Some (Main_Runs sample_server_config, fs1)"
proof -
  have ep: "is_endpoint sample_inet (configured_server sample_server_config)"
    using sample_pin_is_spki
    by (simp add: is_endpoint_def configured_server_def sample_server_config_def sample_config_def sample_inet_def c_string_def byte_of_def)
  have len: "length (server_line (configured_server sample_server_config)) \<le> 1000"
    by (simp add: server_line_def configured_server_def sample_server_config_def sample_config_def sample_pin_def decimal.simps)
  obtain fs1 where "save_server sample_inet True (me_write sample_main) (configured_server sample_server_config) (\<lambda>_. None) = Some (True, fs1)"
    using ep sample_writes [OF len] by (auto simp: save_server_def atomic_write_def sample_main_def sample_write_def Let_def)
  moreover have "server_ip sample_server_config \<noteq> []" by (simp add: sample_server_config_def)
  ultimately show ?thesis
    using sample_server_load by (simp add: main_prepare_def main_mode_def sample_main_def)
qed

lemma sample_later_run: "\<exists>r. network_loop sample_inet sample_config [(True, sample_bootstrap)] fs = Some r"
proof -
  define found where "found = sample_saved\<lparr>ep_host := ''10.0.0.2'', ep_port := 9443\<rparr>"
  have dd: "discover sample_inet (st_discover sample_bootstrap True) = Some found"
    using sample_pin_is_spki
    by (simp add: discover_def sample_bootstrap_def found_def sample_saved_def sample_response scan_response_form
        sample_host is_endpoint_def sample_inet_def)
  have len: "length (server_line found) \<le> 1000"
    by (simp add: server_line_def found_def sample_saved_def sample_pin_def decimal.simps)
  have ep: "is_endpoint sample_inet found"
    using sample_pin_is_spki by (simp add: is_endpoint_def found_def sample_saved_def sample_inet_def c_string_def byte_of_def)
  obtain fs' where sv: "save_server sample_inet True (st_save sample_bootstrap) found fs = Some (True, fs')"
    using ep sample_writes [OF len]
    by (auto simp: save_server_def atomic_write_def sample_bootstrap_def sample_write_def Let_def)
  have sel: "select_interface sample_bootstrap = Some True" "\<not> st_stop sample_bootstrap" "st_dir_ok sample_bootstrap"
    by (simp_all add: select_interface_def sample_bootstrap_def)
  have "\<exists>r fs'. start_network sample_inet sample_bootstrap None fs = Some (r, fs')"
    using dd sv sel by (auto simp: start_network_def Let_def)
  moreover have "explicit_server sample_config = None" by (simp add: explicit_server_def sample_config_def)
  ultimately show ?thesis by (auto split: option.split)
qed

theorem configured_pin_governs_witness:
  "\<exists>fs1 found' fs3. main_prepare sample_main (\<lambda>_. None) = Some (Main_Runs sample_server_config, fs1) \<and>
     network_loop sample_inet sample_config [(True, sample_bootstrap)] fs1 = Some (found', fs3) \<and>
     load_server sample_inet fs1 = Some (configured_server sample_server_config) \<and>
     (\<exists>s. load_server sample_inet fs3 = Some s \<and> ep_spki s = sample_pin)"
proof -
  obtain fs1 where m: "main_prepare sample_main (\<lambda>_. None) = Some (Main_Runs sample_server_config, fs1)"
    using sample_main_saves by blast
  obtain found' fs3 where l: "network_loop (me_inet_pton sample_main) sample_config [(True, sample_bootstrap)] fs1 = Some (found', fs3)"
    using sample_later_run [of fs1] by (auto simp: sample_main_def)
  have z: "\<forall>n v. me_environment sample_main n = Some v \<longrightarrow> c_string v = v"
    by (auto simp: sample_main_def sample_server_env_def sample_env_def sample_pin_def c_string_def byte_of_def split: if_splits)
  have d: "dotted_only (me_inet_pton sample_main)" by (simp add: sample_main_def sample_inet_dotted)
  have ip: "server_ip sample_server_config \<noteq> []" "server_ip sample_config = []"
      "server_spki_sha256 sample_server_config = sample_pin"
    by (simp_all add: sample_server_config_def sample_config_def)
  from configured_pin_governs [OF d refl z m ip(1) _ ip(2) l, of "[]" "[]"] m l ip(3) show ?thesis
    by (auto simp: sample_main_def)
qed

end
