(* ===== verification/UiSimulator.thy ===== *)
theory UiSimulator
  imports Config ScreenProps DeviceUi
begin

section \<open>The desktop simulator of the screen\<close>

text \<open>
  \<^verbatim>\<open>client/apps/boompi_ui_simulator/main.cpp\<close>: the same \<^verbatim>\<open>LvglScreen\<close> in a window. The globals
  and the locals of \<^verbatim>\<open>main\<close> that live across passes are one record. SDL's events and answers and what LVGL
  does inside \<^verbatim>\<open>lv_timer_handler\<close> (widget events and flushes) are arguments of a pass.
\<close>

definition k_sim_width :: int where "k_sim_width = 320"
definition k_sim_height :: int where "k_sim_height = 240"

record sim =
  sm_frame :: "u16 list"
  sm_x :: int
  sm_y :: int
  sm_pressed :: bool
  sm_dirty :: bool
  sm_screen :: screen
  sm_state :: nat
  sm_next_state :: int
  sm_running :: bool

subsection \<open>Command line\<close>

record sim_options =
  so_preview_dir :: string
  so_demo_voice :: bool
  so_demo_app :: int
  so_font :: string
  so_icon_font :: string

text \<open>\<^verbatim>\<open>atoi\<close>: \<^verbatim>\<open>strtol\<close> cut to 32 bits, which on the 64-bit desktop saturates at \<open>2 ^ 63\<close>.\<close>

definition c_atoi :: "string \<Rightarrow> int" where
  "c_atoi txt = (let t = dropWhile c_isspace txt;
       neg = (t \<noteq> [] \<and> hd t = CHR ''-'');
       u = (if t \<noteq> [] \<and> (hd t = CHR ''-'' \<or> hd t = CHR ''+'') then tl t else t);
       m = int (decimal_value 0 (takeWhile is_digit u));
       v = (if neg then max (- (2 ^ 63)) (- m) else min (2 ^ 63 - 1) m)
     in sint (word_of_int v :: 32 word))"

definition default_options :: "string \<Rightarrow> sim_options" where
  "default_options icon_font = \<lparr>so_preview_dir = [], so_demo_voice = False, so_demo_app = - 1,
     so_font = ''/usr/share/fonts/opentype/noto/NotoSansCJK-Regular.ttc'', so_icon_font = icon_font\<rparr>"

text \<open>An option that takes a value and is the last argument is skipped, as is an unknown one.\<close>

fun parse_options :: "string list \<Rightarrow> sim_options \<Rightarrow> sim_options" where
  "parse_options (a # b # rest) so =
     (if a = ''--preview-dir'' then parse_options rest (so\<lparr>so_preview_dir := b\<rparr>)
      else if a = ''--font'' then parse_options rest (so\<lparr>so_font := b\<rparr>)
      else if a = ''--icon-font'' then parse_options rest (so\<lparr>so_icon_font := b\<rparr>)
      else if a = ''--demo-voice'' then parse_options (b # rest) (so\<lparr>so_demo_voice := True\<rparr>)
      else if a = ''--demo-app'' then parse_options rest (so\<lparr>so_demo_app := c_atoi b\<rparr>)
      else parse_options (b # rest) so)"
| "parse_options [a] so = (if a = ''--demo-voice'' then so\<lparr>so_demo_voice := True\<rparr> else so)"
| "parse_options [] so = so"

subsection \<open>Drawing and pointer\<close>

text \<open>\<^verbatim>\<open>Flush\<close>: the rows of the area, each from left to right, take the colours in order. LVGL keeps areas on
  the display; a cell off the frame, undefined in the source, changes nothing here.\<close>

definition sim_cells :: "area \<Rightarrow> (int \<times> int) list" where
  "sim_cells a = concat (map (\<lambda>y. map (\<lambda>x. (x, y)) [ar_x1 a..ar_x2 a]) [ar_y1 a..ar_y2 a])"

definition sim_index :: "int \<times> int \<Rightarrow> nat" where
  "sim_index c = nat (snd c * k_sim_width + fst c)"

definition sim_flush :: "area \<Rightarrow> u16 list \<Rightarrow> sim \<Rightarrow> sim" where
  "sim_flush a source m = m\<lparr>sm_frame := fold (\<lambda>(c, p) f. f[sim_index c := p]) (zip (sim_cells a) source) (sm_frame m),
     sm_dirty := True\<rparr>"

definition sim_read_pointer :: "sim \<Rightarrow> int \<times> int \<times> bool" where
  "sim_read_pointer m = (clamp (sm_x m) 0 (k_sim_width - 1), clamp (sm_y m) 0 (k_sim_height - 1), sm_pressed m)"

text \<open>
  \<^verbatim>\<open>SaveFrame\<close>: whether it succeeds, and the files it names. The bitmap is written beside the preview and
  renamed over it; the answers of SDL and of \<^verbatim>\<open>rename\<close> are arguments.
\<close>

record save_env =
  sv_surface :: bool
  sv_bmp :: "string \<Rightarrow> bool"
  sv_rename :: "string \<Rightarrow> string \<Rightarrow> bool"

definition save_frame :: "save_env \<Rightarrow> string \<Rightarrow> bool" where
  "save_frame e directory = (if \<not> sv_surface e then False
     else let temporary = directory @ ''/frame.tmp.bmp''; out = directory @ ''/frame.bmp''
          in sv_bmp e temporary \<and> sv_rename e temporary out)"

subsection \<open>The demonstrated states\<close>

definition sim_states :: "device_ui_state list" where
  "sim_states = [Ui_Idle, Ui_Listening, Ui_Thinking, Ui_Speaking, Ui_Happy, Ui_Offline, Ui_Error, Ui_SpeakingTail]"

definition k_demo_first :: string where
  "k_demo_first = [CHR 0xE5, CHR 0xBD, CHR 0x93, CHR 0xE7, CHR 0x84, CHR 0xB6, CHR 0xE5, CHR 0x8F, CHR 0xAF,
     CHR 0xE4, CHR 0xBB, CHR 0xA5, CHR 0xEF, CHR 0xBC, CHR 0x8C, CHR 0xE6, CHR 0xAD, CHR 0xA3, CHR 0xE5, CHR 0x9C,
     CHR 0xA8, CHR 0xE4, CHR 0xB8, CHR 0xBA, CHR 0xE4, CHR 0xBD, CHR 0xA0, CHR 0xE6, CHR 0x9F, CHR 0xA5, CHR 0xE8,
     CHR 0xAF, CHR 0xA2, CHR 0xE3, CHR 0x80, CHR 0x82, CHR 0xF0, CHR 0x9F, CHR 0x98, CHR 0x85]"

definition k_demo_second :: string where
  "k_demo_second = [CHR 0xE5, CHR 0x8C, CHR 0x97, CHR 0xE4, CHR 0xBA, CHR 0xAC, CHR 0xE4, CHR 0xBB, CHR 0x8A,
     CHR 0xE5, CHR 0xA4, CHR 0xA9, CHR 0xE9, CHR 0x80, CHR 0x82, CHR 0xE5, CHR 0x90, CHR 0x88, CHR 0xE5, CHR 0xA4,
     CHR 0x96, CHR 0xE5, CHR 0x87, CHR 0xBA, CHR 0xE3, CHR 0x80, CHR 0x82, CHR 0xF0, CHR 0x9F, CHR 0x98, CHR 0x84,
     CHR 0xF0, CHR 0x9F, CHR 0x98, CHR 0x82]"

definition apply_state :: "(nat \<Rightarrow> bool) \<Rightarrow> local_time \<Rightarrow> sim \<Rightarrow> sim" where
  "apply_state glyph now m = (let st = sim_states ! sm_state m; s1 = snd (set_state now st (sm_screen m)) in
     m\<lparr>sm_screen := (if st = Ui_Speaking then set_text glyph k_demo_first k_demo_second s1 else set_text glyph [] [] s1)\<rparr>)"

definition next_demo :: "(nat \<Rightarrow> bool) \<Rightarrow> local_time \<Rightarrow> sim \<Rightarrow> sim" where
  "next_demo glyph now m = apply_state glyph now (m\<lparr>sm_state := (sm_state m + 1) mod length sim_states\<rparr>)"

subsection \<open>A pass of the loop\<close>

datatype sdl_event =
  Sdl_Quit
| Sdl_Motion int int
| Sdl_Button_Down int int
| Sdl_Button_Up int int
| Sdl_Space
| Sdl_Other

definition halved :: "int \<Rightarrow> int" where
  "halved v = (if v < 0 then - (- v div 2) else v div 2)"

fun sdl_step :: "(nat \<Rightarrow> bool) \<Rightarrow> local_time \<Rightarrow> sdl_event \<Rightarrow> sim \<Rightarrow> sim" where
  "sdl_step glyph now Sdl_Quit m = m\<lparr>sm_running := False\<rparr>"
| "sdl_step glyph now (Sdl_Motion x y) m = m\<lparr>sm_x := halved x, sm_y := halved y\<rparr>"
| "sdl_step glyph now (Sdl_Button_Down x y) m = m\<lparr>sm_x := halved x, sm_y := halved y, sm_pressed := True\<rparr>"
| "sdl_step glyph now (Sdl_Button_Up x y) m = m\<lparr>sm_x := halved x, sm_y := halved y, sm_pressed := False\<rparr>"
| "sdl_step glyph now Sdl_Space m = next_demo glyph now m"
| "sdl_step glyph now Sdl_Other m = m"

datatype lv_work = Lv_Flush area "u16 list" | Lv_Event screen_event

fun lv_work_step :: "(nat \<Rightarrow> bool) \<Rightarrow> local_time \<Rightarrow> lv_work \<Rightarrow> sim \<Rightarrow> sim" where
  "lv_work_step glyph now (Lv_Flush a source) m = sim_flush a source m"
| "lv_work_step glyph now (Lv_Event e) m = m\<lparr>sm_screen := snd (screen_step glyph (now, e) (sm_screen m))\<rparr>"

record sim_pass =
  sp_started :: int
  sp_now :: local_time
  sp_events :: "sdl_event list"
  sp_work :: "lv_work list"
  sp_save :: save_env

text \<open>The result: \<open>Inl\<close> the exit code, or \<open>Inr\<close> whether a texture was presented, and the new state.\<close>

definition sim_pass :: "(nat \<Rightarrow> bool) \<Rightarrow> sim_options \<Rightarrow> bool \<Rightarrow> sim_pass \<Rightarrow> sim \<Rightarrow> int + bool \<times> sim" where
  "sim_pass glyph so texture sp m =
     (let m1 = fold (sdl_step glyph (sp_now sp)) (sp_events sp) m;
          m2 = (if so_demo_voice so \<and> sm_next_state m1 \<le> sp_started sp
                then (next_demo glyph (sp_now sp) m1)\<lparr>sm_next_state := sp_started sp + 2000\<rparr> else m1);
          m3 = fold (lv_work_step glyph (sp_now sp)) (sp_work sp) m2
      in if so_preview_dir so \<noteq> [] \<and> sm_dirty m3 \<and> \<not> save_frame (sp_save sp) (so_preview_dir so) then Inl 3
         else Inr (texture \<and> sm_dirty m3, m3\<lparr>sm_dirty := False\<rparr>))"

fun sim_loop :: "(nat \<Rightarrow> bool) \<Rightarrow> sim_options \<Rightarrow> bool \<Rightarrow> sim_pass list \<Rightarrow> sim \<Rightarrow> int option" where
  "sim_loop glyph so texture sps m = (if \<not> sm_running m then Some 0
     else case sps of [] \<Rightarrow> None
       | sp # rest \<Rightarrow> (case sim_pass glyph so texture sp m of
           Inl code \<Rightarrow> Some code
         | Inr (_, m') \<Rightarrow> sim_loop glyph so texture rest m'))"

declare sim_loop.simps [simp del]

text \<open>\<^verbatim>\<open>main\<close>: \<open>sdl\<close> is whether SDL starts, \<open>texture\<close> whether window, renderer and texture exist.\<close>

definition new_sim :: "screen \<Rightarrow> int \<Rightarrow> sim" where
  "new_sim s deadline = \<lparr>sm_frame = replicate (nat (k_sim_width * k_sim_height)) 0, sm_x = 0, sm_y = 0, sm_pressed = False,
     sm_dirty = True, sm_screen = s, sm_state = 0, sm_next_state = deadline, sm_running = True\<rparr>"

definition sim_started :: "(nat \<Rightarrow> bool) \<Rightarrow> sim_options \<Rightarrow> local_time \<Rightarrow> sim \<Rightarrow> sim" where
  "sim_started glyph so now m =
     (if so_demo_voice so then apply_state glyph now (m\<lparr>sm_state := 1\<rparr>)
      else if 0 \<le> so_demo_app so then m\<lparr>sm_screen := snd (open_app now (nat (so_demo_app so)) (sm_screen m))\<rparr>
      else m)"

definition sim_main ::
  "(nat \<Rightarrow> bool) \<Rightarrow> string \<Rightarrow> string list \<Rightarrow> bool \<Rightarrow> bool \<Rightarrow> create_env \<Rightarrow> local_time \<Rightarrow> int \<Rightarrow> sim_pass list \<Rightarrow> int option" where
  "sim_main glyph icon_font argv sdl texture ce now clock sps =
     (let so = parse_options argv (default_options icon_font) in
      if \<not> sdl then Some 1
      else if so_preview_dir so = [] \<and> \<not> texture then Some 2
      else case create_screen ce now new_screen of
        (False, _, _) \<Rightarrow> Some 3
      | (True, _, s) \<Rightarrow> sim_loop glyph so texture sps (sim_started glyph so now (new_sim s (clock + 2000))))"

subsection \<open>The simulator keeps the screen consistent\<close>

definition sim_ok :: "sim \<Rightarrow> bool" where
  "sim_ok m \<longleftrightarrow> length (sm_frame m) = nat (k_sim_width * k_sim_height) \<and> sm_state m < length sim_states \<and> screen_ok (sm_screen m)"

lemma apply_state_ok [inv_intros]: "sim_ok m \<Longrightarrow> sim_ok (apply_state glyph now m)"
  by (simp add: sim_ok_def apply_state_def Let_def inv_intros)

lemma next_demo_ok [inv_intros]: "sim_ok m \<Longrightarrow> sim_ok (next_demo glyph now m)"
  unfolding next_demo_def by (rule apply_state_ok) (simp add: sim_ok_def sim_states_def)

lemma sdl_step_ok [inv_intros]: "sim_ok m \<Longrightarrow> sim_ok (sdl_step glyph now e m)"
  by (cases e) (auto simp: next_demo_ok, auto simp: sim_ok_def)

lemma length_flush_fold: "length (fold (\<lambda>(c, p) f. f[sim_index c := p]) cs f) = length f"
  by (induction cs arbitrary: f) auto

lemma lv_work_step_ok [inv_intros]: "sim_ok m \<Longrightarrow> sim_ok (lv_work_step glyph now w m)"
  by (cases w) (simp_all add: sim_ok_def sim_flush_def length_flush_fold screen_step_ok)

interpretation sdl_runs: invariant_system "sdl_step glyph now" sim_ok for glyph now
  by unfold_locales (rule sdl_step_ok)

interpretation lv_work_runs: invariant_system "lv_work_step glyph now" sim_ok for glyph now
  by unfold_locales (rule lv_work_step_ok)

lemma sim_pass_ok:
  assumes "sim_ok m" "sim_pass glyph so texture sp m = Inr (shown, m')"
  shows "sim_ok m'" "\<not> sm_dirty m'"
proof -
  define m1 where "m1 = fold (sdl_step glyph (sp_now sp)) (sp_events sp) m"
  define m2 where "m2 = (if so_demo_voice so \<and> sm_next_state m1 \<le> sp_started sp
    then (next_demo glyph (sp_now sp) m1)\<lparr>sm_next_state := sp_started sp + 2000\<rparr> else m1)"
  define m3 where "m3 = fold (lv_work_step glyph (sp_now sp)) (sp_work sp) m2"
  have "sim_ok m1" unfolding m1_def by (rule sdl_runs.inv_fold [OF assms(1)])
  then have "sim_ok m2" using next_demo_ok [of m1] by (auto simp: m2_def sim_ok_def)
  then have "sim_ok m3" unfolding m3_def by (rule lv_work_runs.inv_fold)
  moreover have "m' = m3\<lparr>sm_dirty := False\<rparr>"
    using assms(2) by (auto simp: sim_pass_def Let_def m1_def m2_def m3_def split: if_splits)
  ultimately show "sim_ok m'" "\<not> sm_dirty m'" by (simp_all add: sim_ok_def)
qed

text \<open>The loop ends with 0, or with 3 when a preview directory was given and a frame could not be saved there.\<close>

lemma sim_loop_exit:
  "sim_loop glyph so texture sps m = Some code \<Longrightarrow> code = 0 \<or> code = 3 \<and> so_preview_dir so \<noteq> []"
proof (induction sps arbitrary: m)
  case Nil
  then show ?case by (simp add: sim_loop.simps split: if_splits)
next
  case (Cons sp sps)
  then show ?case
    by (auto simp: sim_loop.simps [of _ _ _ "sp # sps"] sim_pass_def Let_def split: if_splits)
qed

text \<open>A quit event in a pass whose frame can be saved ends the loop at the next test.\<close>

lemma sdl_quit_stays: "\<not> sm_running m \<Longrightarrow> \<not> sm_running (fold (sdl_step glyph now) es m)"
proof (induction es arbitrary: m)
  case (Cons e es)
  then show ?case by (cases e) (auto simp: next_demo_def apply_state_def Let_def)
qed simp

lemma sdl_quit_stops: "Sdl_Quit \<in> set es \<Longrightarrow> \<not> sm_running (fold (sdl_step glyph now) es m)"
proof (induction es arbitrary: m)
  case (Cons e es)
  then show ?case by (cases "e = Sdl_Quit") (auto simp: sdl_quit_stays)
qed simp

lemma lv_work_running: "sm_running (fold (lv_work_step glyph now) ws m) = sm_running m"
proof (induction ws arbitrary: m)
  case (Cons w ws)
  then show ?case by (cases w) (auto simp: sim_flush_def)
qed simp

lemma sim_quits:
  assumes "Sdl_Quit \<in> set (sp_events sp)" "so_preview_dir so = []" "sm_running m"
  shows "sim_loop glyph so texture (sp # rest) m = Some 0"
proof -
  obtain shown m' where p: "sim_pass glyph so texture sp m = Inr (shown, m')"
    using assms(2) by (auto simp: sim_pass_def Let_def)
  moreover have "\<not> sm_running m'"
    using p sdl_quit_stops [OF assms(1)] assms(2)
    by (auto simp: sim_pass_def Let_def lv_work_running next_demo_def apply_state_def split: if_splits)
  ultimately show ?thesis using assms(3) by (simp add: sim_loop.simps)
qed

end
