(* ===== verification/Divergences.thy ===== *)
theory Divergences
  imports ClientSafety
begin

section \<open>Where the code and its comments part\<close>

text \<open>
  Small facts about behaviour that a comment or a check of the source leads one to exclude. Others stand with their component:
  \<open>raw_nul_accepted\<close>, \<open>spki_checks_differ\<close>, \<open>camera_toggle_blocks\<close>.
\<close>

text \<open>\<^verbatim>\<open>ReadUint\<close> on a negative text: \<^verbatim>\<open>strtoul\<close> negates modulo 2^32, so that the text below passes as the port 1.\<close>

lemma negative_text_accepted:
  "read_uint [''BOOMPI_SERVER_PORT'' \<mapsto> ''-4294967295''] ''BOOMPI_SERVER_PORT'' 17806 1 65535 = Inr 1"
  by (simp add: reader_defs is_digit_def c_isspace_def byte_of_def)

text \<open>The window of two subtitle lines: 126 bytes are kept, but a character that does not fit the first line is moved whole
  to the second, and the newest bytes then fall off its end.\<close>

definition long_subtitle :: string where
  "long_subtitle = CHR ''a'' # concat (replicate 41 (map char_of [0xE4, 0xBD, 0xA0 :: nat])) @ ''bc''"

lemma newest_subtitle_hidden:
  "length long_subtitle = 126 \<and> append_subtitle [] long_subtitle = long_subtitle \<and>
   (case subtitle_lines long_subtitle of (first, second) \<Rightarrow> first @ second @ ''bc'' = long_subtitle)"
  by code_simp

text \<open>After a rejected probe the pre-roll keeps the size the probe let it reach.\<close>

lemma rejected_probe_keeps_count:
  assumes "c_state c = St_PlayingResponse" and "k_pre_roll_frames \<le> c_pre_count c"
  shows "c_pre_count (save_pre_roll f (reject_barge_probe c)) = c_pre_count c"
  using assms by (simp add: save_pre_roll_def reject_barge_probe_def reset_barge_probe_def reset_barge_turn_def on_audio_def Let_def)

text \<open>
  An \<^verbatim>\<open>error\<close> of the turn makes the transport inactive as soon as it arrives. A frame the actor sends before it has
  read the event from its queue is rejected, and the connection is given up although the session is healthy.
\<close>

lemma turn_error_race:
  assumes "c_transport c = Some t" and "\<not> t_active t"
  shows "\<exists>c1. send_audio_or_recover f is_end c = (False, lose_connection c1) \<and> c_transport c1 = Some t"
proof -
  have "\<not> pcm_acceptable t h pcm" for h pcm using assms(2) by (simp add: pcm_acceptable_def)
  then show ?thesis
    using assms(1) by (auto simp: send_audio_or_recover_def send_audio_def send_pcm_def split: prod.split)
qed

text \<open>
  The comment over \<^verbatim>\<open>SavePreRoll\<close> says that the capture sequence is checked when the pre-roll is sent; \<^verbatim>\<open>SendAudio\<close>
  checks nothing. When playback has drained, \<^verbatim>\<open>Run\<close> drops the frame it had already taken and counts it as handled, and
  \<^verbatim>\<open>FinishTurn(true)\<close> keeps the pre-roll: the next frame is stored right behind one that is two numbers older.
\<close>

lemma follow_up_hole:
  assumes "shape c" "c_state c = St_DrainingPlayback" "e_is_done (c_audio c)" "\<not> e_playback_failed (c_audio c)"
    and "session (c_turn_ids c) \<noteq> 0" "c_now c < c_heartbeat_deadline c" "pre_roll c = older @ [p]"
    and "cf_sequence g = cf_sequence f + 1" "\<not> cf_discontinuity g" "\<not> cf_near_voice g"
    and "advance_deadlines c = (current, d)"
    and "d' = d\<lparr>c_next_capture_sequence := cf_sequence f + 1, c_taken := c_taken d @ [f]\<rparr>"
  shows "\<not> current \<and> (\<exists>rest. pre_roll (on_frame g d') = rest @ [p, g])"
proof -
  have d: "\<not> current" "d = finish_turn True c"
    using assms(2-6,11) by (simp_all add: advance_deadlines_def)
  have sh: "shape d" using shape_finish_turn [OF assms(1), of True] d(2) by simp
  have d': "c_state d' = St_WaitingForFollowUp" "session (c_turn_ids d') \<noteq> 0" "c_barge_probe d' = Probe_Idle"
    "c_next_capture_sequence d' = cf_sequence g"
    using assms(5,8) by (simp_all add: assms(12) d(2) finish_turn_def Let_def advance_turn_def reset_barge_turn_def reset_barge_probe_def
        on_audio_def ui_call_def)
  have pre: "pre_roll d' = older @ [p]"
    using assms(7) by (simp add: assms(12) d(2) finish_turn_def Let_def advance_turn_def reset_barge_turn_def reset_barge_probe_def
        on_audio_def ui_call_def pre_roll_def)
  define x where "x = d'\<lparr>c_next_capture_sequence := cf_sequence g + 1, c_taken := c_taken d' @ [g]\<rparr>"
  have x: "shape x" "pre_roll x = older @ [p]" "c_state x = St_WaitingForFollowUp"
    using sh pre d'(1) by (simp_all add: x_def assms(12)) (simp add: pre_roll_def)
  have frame: "on_frame g d' = (save_pre_roll g x)\<lparr>c_follow_up_near_frames := 0\<rparr>"
  proof -
    have keep: "c_state (save_pre_roll g x) = c_state x" "c_turn_ids (save_pre_roll g x) = c_turn_ids x"
      by (simp_all add: save_pre_roll_def Let_def)
    have "c_turn_ids x = c_turn_ids d'" by (simp add: x_def)
    then have ids: "session (c_turn_ids (save_pre_roll g x)) \<noteq> 0" using keep d'(2) by simp
    have "store_frame g (thaw_barge g x) = save_pre_roll g x" using x(3) by (simp add: thaw_barge_def store_frame_def)
    moreover have "on_frame g d' = frame_in_state g (store_frame g (thaw_barge g x))" if "session (c_turn_ids (store_frame g (thaw_barge g x))) \<noteq> 0"
      using that d'(4) assms(9) by (simp add: on_frame_def Let_def x_def)
    ultimately show ?thesis using ids keep(1) x(3) assms(10) by (simp add: frame_in_state_def)
  qed
  have "pre_roll (on_frame g d') = pre_roll (save_pre_roll g x)" by (simp add: frame pre_roll_def)
  also have "\<dots> = (if length (older @ [p]) < pre_roll_limit x then older @ [p] else tl (older @ [p])) @ [g]"
    using pre_roll_save [OF x(1), of g] x(2,3) by simp
  finally have "pre_roll (on_frame g d') = (if length (older @ [p]) < pre_roll_limit x then older @ [p] else tl (older @ [p])) @ [g]" .
  moreover have "1 < pre_roll_limit x" by (simp add: pre_roll_limit_def frame_consts)
  ultimately show ?thesis using d(1) by (cases older) auto
qed

end
