(* ===== verification/Spec2Isabelle.thy ===== *)
theory Spec2Isabelle
  imports Config Wire Utf8 Json Transport Session VoiceDsp DspParameters SnowboyBridge AudioEngine Playback VoiceClient ClientLoop ClientRuns
    ClientInv ClientProto ClientSample ClientSafety ClientReply SpeechPath UplinkPath ClientDisplay ClientDials
    Settings Backend BackendProps Network NetworkProps ScreenText LvglScreen ScreenBuild ScreenLayout ScreenProps DeviceUi DisplayTouch
    DeviceRuns DeviceProps DeviceLife ScreenFollows ProgramEntry UiSimulator Divergences
begin

text \<open>
  The boomPI voice client: a verification library for the C++ program under
  \<^verbatim>\<open>src/client\<close>, which runs on an RV1106 board, listens for a wake word, streams the
  user's speech to a server over a pinned WSS connection and plays the answer.

  How the program is put together. \<^verbatim>\<open>apps/boompi_client/main.cpp\<close> loads the
  configuration from the environment and calls \<^verbatim>\<open>RunVoiceClient\<close>. One thread, the actor
  \<^verbatim>\<open>VoiceClient\<close>, owns the conversation: each pass of its loop takes one 20 ms capture
  frame, drains a few network events, polls the touch screen and checks the deadlines. Around it run the WSS
  thread (\<^verbatim>\<open>VoiceTransport\<close>: the protocol), the audio threads
  (\<^verbatim>\<open>AudioEngine\<close> over the board backend and the Rockchip 3A library), the network
  thread (\<^verbatim>\<open>NetworkBootstrap\<close>) and the UI thread (\<^verbatim>\<open>DeviceUi\<close>
  with \<^verbatim>\<open>LvglScreen\<close> and a camera process). They meet in bounded queues and in a few
  fields under a lock.

  How the library models it. A class is a record with one field per member the code reads back, a method is a
  function from the record to the record and its results, in the order of the source and with its early returns;
  exceptions and error texts are the left side of a sum, a missing object is \<open>None\<close>. Integers that
  may wrap are words. A \<^verbatim>\<open>std::string\<close> is a \<open>string\<close> of bytes, PCM is a
  list of bytes or of 16-bit words. What the program only calls, the kernel, ALSA, cJSON, OpenSSL, websocketpp,
  LVGL, libswresample, Snowboy, WebRTC VAD and the 3A library, appears as a parameter or as the answers it
  gives, so that a theorem holds for all of them. Threads become sequences of steps: an operation under a lock
  is one step, and a theorem quantifies over every order of steps.
\<close>

section \<open>Theories\<close>

text \<open>
  \<open>Prelude\<close>: the error monad, byte and string helpers, the collections of simplification and
  invariant rules, and the locale \<open>invariant_system\<close>, interpreted by every state machine below.

  \<open>Config\<close>: \<^verbatim>\<open>voice_client_config.cpp\<close>, the identity formats, the readers
  and the loader.

  \<open>Wire\<close>: the PCM64 header and the identities of \<^verbatim>\<open>voice_transport.cpp\<close>,
  big-endian encoding and UUID parsing. \<open>Utf8\<close>: the validator every text message passes
  (\<^verbatim>\<open>utf8_validator.hpp\<close>), the decoder and font filter of the screen, and the subtitle
  window. \<open>Json\<close>: \<^verbatim>\<open>Quote\<close>, the raw-text guards, the object checks and the
  envelope; the parser of cJSON is a parameter. \<open>Transport\<close>: the state of
  \<^verbatim>\<open>VoiceTransport::Impl\<close>, what is sent and received and the callbacks;
  \<open>Session\<close> proves what a run of them guarantees.

  \<open>Buffers\<close>: arrays used as FIFOs and rings, and the locales \<open>bounded_fifo\<close> and
  \<open>newest_queue\<close>. \<open>VoiceDsp\<close>: \<^verbatim>\<open>rockchip_voice_dsp.cpp\<close> with
  the vendor's block function as a parameter; \<open>DspParameters\<close>: the tree of parameters it gives the
  vendor and the life of the vendor's objects. \<open>SnowboyBridge\<close>:
  \<^verbatim>\<open>snowboy_legacy_bridge.cpp\<close>. \<open>AudioEngine\<close>:
  \<^verbatim>\<open>audio_engine.cpp\<close>, the two queues and the commands between actor and audio threads;
  \<open>Playback\<close> proves what they conserve. \<open>Backend\<close> and \<open>BackendProps\<close>:
  \<^verbatim>\<open>audio_backend.cpp\<close>, the ALSA loops, the capture pipeline with voice detection, and
  rendering.

  \<open>VoiceClient\<close>: every method of the actor in \<^verbatim>\<open>voice_client.cpp\<close>.
  \<open>ClientLoop\<close>: \<^verbatim>\<open>Run\<close>, pass by pass, with the steps of the other threads
  between its phases, and the event queue; \<open>ClientRuns\<close>: the locale \<open>client_invariant\<close>,
  the rule by which an invariant of the client is carried through all of that. \<open>ClientInv\<close> has the
  bounds of the actor's state, \<open>ClientProto\<close> its agreement with the transport,
  \<open>ClientSample\<close> and \<open>ClientReply\<close> a concrete conversation up to the spoken answer,
  \<open>ClientSafety\<close> the properties of one turn. \<open>SpeechPath\<close> follows the downlink from
  the message on the wire through transport, event queue, actor and playback ring to the speaker,
  \<open>UplinkPath\<close> the uplink from the capture ring through the pre-roll to the wire.
  \<open>ClientDisplay\<close> compares the state handed to the display with that of the conversation,
  \<open>ClientDials\<close> the places that hold volume, backlight and mute, and \<open>Settings\<close> models
  the settings file that carries them from one run to the next.

  \<open>Network\<close> and \<open>NetworkProps\<close>: \<^verbatim>\<open>network_bootstrap.cpp\<close>,
  files written atomically, helper processes, discovery and start. \<open>ProgramEntry\<close>:
  \<^verbatim>\<open>main\<close>, \<^verbatim>\<open>RunVoiceClient\<close> and the network thread.

  \<open>ScreenText\<close>, \<open>LvglScreen\<close>, \<open>ScreenProps\<close>:
  \<^verbatim>\<open>lvgl_screen.cpp\<close>, its pages, texts, volume and animations. \<open>ScreenBuild\<close>: its
  \<^verbatim>\<open>Build\<close> functions as the lists of LVGL calls they make; \<open>ScreenLayout\<close>: what these
  lists put on the screen, the areas that take a touch and the first texts. \<open>DeviceUi\<close>:
  \<^verbatim>\<open>device_ui.cpp\<close>, the panel and touch drivers, the state shared with the actor, the
  camera process and the UI thread. \<open>DisplayTouch\<close> has the properties of the drivers and the
  mailboxes, \<open>DeviceRuns\<close> the runs of the UI thread with the actor, \<open>DeviceProps\<close> and
  \<open>DeviceLife\<close> the properties of such runs, and \<open>ScreenFollows\<close> joins them to the runs
  of the client, from the state of the conversation to the LVGL screen. \<open>UiSimulator\<close>:
  \<^verbatim>\<open>boompi_ui_simulator/main.cpp\<close>, the same screen in a desktop window.

  \<open>Divergences\<close>: behaviour that a comment of the source leads one to exclude.
\<close>

section \<open>What the properties say\<close>

text \<open>
  The protocol (\<open>Session\<close>): on any sequence of calls and of messages from the server, the frames of
  a turn go out contiguously with one start and at most one end, downlink audio is delivered the same way,
  epochs of turns grow, one cancel is sent per turn and nothing of its response is delivered after it, and a
  malformed message only produces an error.

  The client (\<open>ClientSafety\<close>, \<open>SpeechPath\<close>, \<open>UplinkPath\<close>,
  \<open>ScreenFollows\<close>, \<open>ClientDials\<close>, \<open>Settings\<close>): what the
  speaker renders is, in order, sound of the responses the transport accepted, and what the server hears of a
  turn is what the microphone captured. The screen shows the state of the conversation, volume and backlight
  agree wherever they are kept and survive a restart. For every input of every thread, the actor keeps to that protocol,
  its buffers and counters stay in their bounds, every frame it captures in a turn is acceptable to the
  transport, a turn starts with its pre-roll, a barge-in needs the evidence the code describes, deadlines bring
  it back to rest, and the reconnection delay doubles up to its maximum.

  Audio (\<open>Playback\<close>, \<open>VoiceDsp\<close>, \<open>BackendProps\<close>): no sample is lost,
  duplicated or reordered between the network and the speaker, gaps of the capture are marked, the 3A adapter is
  a delay of a block function whose vendor objects are created and given back in order, the voice detector has its hysteresis and the renderer never clips beyond its
  headroom.

  Trust (\<open>Transport\<close>, \<open>NetworkProps\<close>, \<open>ProgramEntry\<close>): only the pinned
  key is accepted, discovery cannot replace it, and a configured key governs all later runs. Files are replaced
  as a whole or not at all.

  The screen (\<open>ScreenProps\<close>, \<open>ScreenLayout\<close>, \<open>DisplayTouch\<close>,
  \<open>DeviceProps\<close>, \<open>DeviceLife\<close>): one pass of the UI thread after any history shows the latest state and text, the
  camera process runs only on its page, a flush is the picture turned for the panel, a touch lands on the
  pixel it sees, and the areas that react to it lie on the screen apart from each other.

  Formats (\<open>Utf8\<close>, \<open>Json\<close>, \<open>Config\<close>, \<open>NetworkProps\<close>): the
  UTF-8 validator accepts exactly the well-formed texts, quoting and the Wi-Fi file read back, and accepted
  configurations and envelopes have every field in its bounds.
\<close>

section \<open>Bounds and fuel\<close>

text \<open>
  Loops of the code over what the environment answers (\<^verbatim>\<open>write\<close>,
  \<^verbatim>\<open>read\<close>, \<^verbatim>\<open>waitpid\<close>, ALSA calls) are functions over the list
  of answers; their result is \<open>None\<close> when the list ends first, so that not ending is a value. Where
  the code bounds such a loop itself the bound is proved: 121 polls of a helper process decide it
  (\<open>helper_processes_bounded\<close>), the loop that fills the playback ring needs at most as many rounds
  as it has slots (\<open>fill_slots_total\<close>). The actor's loop runs over a finite list of passes of any
  length. All capacities, waits and frame counts are those of the source.
\<close>

section \<open>Not modelled\<close>

text \<open>
  Third-party code: websocketpp and Asio (except the UTF-8 validator), OpenSSL's handshake, cJSON's parser,
  LVGL, ALSA, libswresample, FFmpeg, SDL, Snowboy, WebRTC VAD and the vendor's 3A library. What LVGL draws and how
  it lays out a flex box: the \<^verbatim>\<open>Build\<close> functions are modelled up to the calls they make, with the
  positions and sizes the source passes. The two-reference configuration of the 3A adapter, which only a
  hardware test builds. The emoji bitmaps, which are generated data, scripts and
  test programs, and the Go server, which the theorems quantify over. Data races are excluded by construction:
  fields shared without a lock in the source are atomic there and are read in one step here.
\<close>

end
